(* ===== verification/Bac_Prelude.thy ===== *)
theory Bac_Prelude
  imports Main "HOL-Library.Word" "HOL-Library.Monad_Syntax"
begin

text \<open>
  What every component of the development shares: the machine integer types, byte buffers
  with checked reads and writes, the linear table search of the stack's
  \<^verbatim>\<open>for (i = 0; i < MAX; i++)\<close> loops, big-endian byte strings, and the interface
  of an encoder/decoder pair.

  Conventions of the model.
  \<^item> A C object of type \<^verbatim>\<open>uintN_t\<close> is an \<open>N word\<close>: arithmetic wraps as in C.
    An array index or a count that cannot leave its range is a \<open>nat\<close>.
  \<^item> A result of type \<open>'a option\<close> separates defined from undefined behaviour: \<open>None\<close> is a
    read or write outside an object, a NULL dereference, a division by zero, or a loop that
    does not end. Error codes the source returns are ordinary values.
  \<^item> An encoder that fills \<^verbatim>\<open>apdu[0..len-1]\<close> and returns \<^verbatim>\<open>len\<close> is the function that
    gives those bytes; its C return value is the length of the list, with a buffer and with
    NULL alike. A decoder takes the bytes available to it and gives the number of bytes
    consumed and the value stored.
\<close>

unbundle bit_operations_syntax

section \<open>Types and collections\<close>

type_synonym u8 = "8 word"
type_synonym u16 = "16 word"
type_synonym u32 = "32 word"
type_synonym u64 = "64 word"
type_synonym bytes = "8 word list"

named_theorems encoder_defs \<open>definitions of the byte encoders\<close>
named_theorems decoder_defs \<open>definitions of the byte decoders\<close>
named_theorems safe_ops \<open>operations that never leave defined behaviour\<close>
named_theorems keeps_inv \<open>preservation of the invariants\<close>

section \<open>Checked access to byte buffers\<close>

definition rd :: "bytes \<Rightarrow> nat \<Rightarrow> u8 option" where
  "rd b i = (if i < length b then Some (b ! i) else None)"

definition write_at :: "bytes \<Rightarrow> nat \<Rightarrow> bytes \<Rightarrow> bytes option" where
  "write_at dst off src =
     (if off + length src \<le> length dst
      then Some (take off dst @ src @ drop (off + length src) dst) else None)"

definition read_at :: "bytes \<Rightarrow> nat \<Rightarrow> nat \<Rightarrow> bytes option" where
  "read_at src off n = (if off + n \<le> length src then Some (take n (drop off src)) else None)"

definition ensure :: "bool \<Rightarrow> unit option" where
  "ensure b = (if b then Some () else None)"

section \<open>Total correctness of computations that may be undefined\<close>

text \<open>
  \<open>wp m P\<close>: the computation is defined and its result satisfies \<open>P\<close>. The rules follow the
  structure of a \<^verbatim>\<open>do\<close> block, so that a specification is pushed through it from the end.
\<close>

definition wp :: "'a option \<Rightarrow> ('a \<Rightarrow> bool) \<Rightarrow> bool" where
  "wp m P = (case m of None \<Rightarrow> False | Some x \<Rightarrow> P x)"

section \<open>Table search\<close>

fun find_index :: "('a \<Rightarrow> bool) \<Rightarrow> 'a list \<Rightarrow> nat" where
  "find_index P [] = 0"
| "find_index P (x # xs) = (if P x then 0 else Suc (find_index P xs))"

section \<open>Big-endian byte strings\<close>

fun be_bytes :: "nat \<Rightarrow> 'a::len word \<Rightarrow> bytes" where
  "be_bytes 0 v = []"
| "be_bytes (Suc k) v = ucast (drop_bit (8 * k) v AND 0xFF) # be_bytes k v"

definition be_value :: "bytes \<Rightarrow> 'a::len word" where
  "be_value bs = foldl (\<lambda>acc b. push_bit 8 acc OR ucast b) 0 bs"

text \<open>Decoding a given number of consecutive values, each with the same decoder.\<close>

fun decode_seq :: "(bytes \<Rightarrow> (nat \<times> 'b) option) \<Rightarrow> nat \<Rightarrow> bytes \<Rightarrow> 'b list option" where
  "decode_seq dec 0 bs = Some []"
| "decode_seq dec (Suc n) bs =
     do { (len, v) \<leftarrow> dec bs; vs \<leftarrow> decode_seq dec n (drop len bs); Some (v # vs) }"

section \<open>Lemmas on buffers and tables\<close>

lemma rd_Cons_0 [simp]: "rd (x # xs) 0 = Some x"
  by (simp add: rd_def)

lemma rd_Cons_Suc [simp]: "rd (x # xs) (Suc i) = rd xs i"
  by (simp add: rd_def)

lemma rd_Cons_numeral [simp]: "rd (x # xs) (numeral n) = rd xs (pred_numeral n)"
  by (simp add: rd_def)

lemma rd_Some [simp]: "i < length b \<Longrightarrow> rd b i = Some (b ! i)"
  by (simp add: rd_def)

lemma rd_eq_None [simp]: "rd b i = None \<longleftrightarrow> length b \<le> i"
  by (auto simp: rd_def)

lemma rd_append [simp]: "rd (xs @ ys) (length xs + i) = rd ys i"
  by (simp add: rd_def nth_append)

lemma write_at_Some [simp]:
  "off + length src \<le> length dst \<Longrightarrow>
   write_at dst off src = Some (take off dst @ src @ drop (off + length src) dst)"
  by (simp add: write_at_def)

lemma length_write_at: "write_at dst off src = Some b \<Longrightarrow> length b = length dst"
  by (auto simp: write_at_def split: if_splits)

lemma read_at_Some [simp]:
  "off + n \<le> length src \<Longrightarrow> read_at src off n = Some (take n (drop off src))"
  by (simp add: read_at_def)

lemma ensure_True [simp]: "ensure True = Some ()"
  by (simp add: ensure_def)

lemma ensure_False [simp]: "ensure False = None"
  by (simp add: ensure_def)

lemma bind_ensure_Some [simp]: "Option.bind (ensure b) f = Some y \<longleftrightarrow> b \<and> f () = Some y"
  by (auto simp: ensure_def)

lemma wp_Some [simp]: "wp (Some x) P = P x"
  by (simp add: wp_def)

lemma wp_None [simp]: "wp None P = False"
  by (simp add: wp_def)

lemma wp_bind [simp]: "wp (Option.bind m f) P = wp m (\<lambda>x. wp (f x) P)"
  by (cases m) simp_all

lemma wp_if [simp]: "wp (if b then m else m') P = (if b then wp m P else wp m' P)"
  by simp

lemma wp_ensure [simp]: "wp (ensure b) P = (b \<and> P ())"
  by (simp add: ensure_def)

lemma wp_rd [simp]: "wp (rd b i) P = (i < length b \<and> P (b ! i))"
  by (simp add: rd_def)

lemma wp_read_at [simp]: "wp (read_at b off n) P = (off + n \<le> length b \<and> P (take n (drop off b)))"
  by (simp add: read_at_def)

lemma wp_iff: "wp m P \<longleftrightarrow> (\<exists>x. m = Some x \<and> P x)"
  by (cases m) simp_all

lemma wp_I: "m = Some x \<Longrightarrow> P x \<Longrightarrow> wp m P"
  by simp

lemma wp_D: "wp m P \<Longrightarrow> \<exists>x. m = Some x \<and> P x"
  by (simp add: wp_iff)

lemma wp_mono: "wp m P \<Longrightarrow> (\<And>x. m = Some x \<Longrightarrow> P x \<Longrightarrow> Q x) \<Longrightarrow> wp m Q"
  by (cases m) simp_all

lemma find_index_le: "find_index P xs \<le> length xs"
  by (induction xs) auto

lemma find_index_less: "find_index P xs < length xs \<longleftrightarrow> (\<exists>x \<in> set xs. P x)"
  by (induction xs) auto

lemma find_index_eq_length: "find_index P xs = length xs \<longleftrightarrow> (\<forall>x \<in> set xs. \<not> P x)"
  by (induction xs) auto

lemma find_index_nth: "find_index P xs < length xs \<Longrightarrow> P (xs ! find_index P xs)"
  by (induction xs) auto

lemma find_index_first: "i < find_index P xs \<Longrightarrow> \<not> P (xs ! i)"
  by (induction xs arbitrary: i) (auto simp: nth_Cons split: nat.splits if_splits)

lemma find_index_unique:
  assumes "i < length xs" "P (xs ! i)" "\<And>j. j < length xs \<Longrightarrow> P (xs ! j) \<Longrightarrow> j = i"
  shows "find_index P xs = i"
  using assms find_index_less [of P xs] find_index_nth [of P xs] nth_mem by blast

section \<open>Lemmas on big-endian byte strings\<close>

lemma and_FF: "(w :: 'a::len word) AND 0xFF = take_bit 8 w"
  by (simp add: take_bit_eq_mask mask_numeral)

lemma length_be_bytes [simp]: "length (be_bytes k v) = k"
  by (induction k) auto

lemma be_bytes_numeral:
  "be_bytes (numeral n) v =
     ucast (drop_bit (8 * pred_numeral n) v AND 0xFF) # be_bytes (pred_numeral n) v"
  by (simp add: numeral_eq_Suc)

lemma be_bytes_step:
  "push_bit (8 * k) (push_bit 8 acc OR ucast (ucast (drop_bit (8 * k) v AND 0xFF) :: u8))
     OR take_bit (8 * k) v
   = push_bit (8 * Suc k) acc OR take_bit (8 * Suc k) (v :: 'a::len word)"
proof (rule bit_word_eqI)
  fix n assume n: "n < LENGTH('a)"
  have "8 * Suc k \<le> n \<Longrightarrow> n - 8 * k - 8 = n - 8 * Suc k" by simp
  with n show
    "bit (push_bit (8 * k) (push_bit 8 acc OR ucast (ucast (drop_bit (8 * k) v AND 0xFF) :: u8))
       OR take_bit (8 * k) v) n
     = bit (push_bit (8 * Suc k) acc OR take_bit (8 * Suc k) v) n"
    by (auto simp: and_FF bit_simps)
qed

lemma be_value_accumulate:
  "foldl (\<lambda>acc b. push_bit 8 acc OR ucast b) acc (be_bytes k v)
   = push_bit (8 * k) acc OR take_bit (8 * k) (v :: 'a::len word)"
proof (induction k arbitrary: acc)
  case (Suc k)
  show ?case by (simp only: be_bytes.simps foldl.simps Suc be_bytes_step)
qed simp

lemma be_value_be_bytes: "be_value (be_bytes k v) = take_bit (8 * k) (v :: 'a::len word)"
  by (simp add: be_value_def be_value_accumulate)

section \<open>Masks and narrowing\<close>

lemma and_3: "(w :: 'a::len word) AND 0x03 = take_bit 2 w"
  by (simp add: take_bit_eq_mask mask_numeral)

lemma take_bit_small: "unat (w :: 'a::len word) < 2 ^ n \<Longrightarrow> take_bit n w = w"
  by (simp add: word_unat_eq_iff unsigned_take_bit_eq take_bit_nat_eq_self)

lemma ucast_ucast_small:
  assumes "unat (w :: 'a::len word) < 2 ^ LENGTH('b)"
  shows "ucast (ucast w :: 'b::len word) = w"
proof -
  have "ucast (ucast w :: 'b word) = take_bit LENGTH('b) w"
    by (rule bit_word_eqI) (auto simp: bit_simps)
  with take_bit_small [OF assms] show ?thesis by simp
qed

lemma unat_bounds: "unat (a :: u8) < 256" "unat (b :: u16) < 65536" "unat (c :: u32) < 4294967296"
  using unsigned_less [of a, where ?'a = nat] unsigned_less [of b, where ?'a = nat]
    unsigned_less [of c, where ?'a = nat] by simp_all

lemma unat_next: "a < (b :: 'a::len word) \<Longrightarrow> unat (a + 1) = Suc (unat a)"
proof -
  assume "a < b"
  then have "Suc (unat a) \<le> unat b" by (simp add: word_less_nat_alt)
  also have "\<dots> < 2 ^ LENGTH('a)" by (rule unsigned_less)
  finally show ?thesis by (simp add: unat_word_ariths)
qed

text \<open>Two octets are equal when their eight bits are.\<close>

lemma u8_eq_iff: "(a :: u8) = b \<longleftrightarrow> (\<forall>n < 8. bit a n = bit b n)"
  by (auto intro: bit_word_eqI)

lemma all_less_8:
  "(\<forall>n < 8. P n) \<longleftrightarrow>
     P 0 \<and> P (Suc 0) \<and> P 2 \<and> P 3 \<and> P 4 \<and> P 5 \<and> P 6 \<and> P (7 :: nat)"
proof -
  have "n < 8 \<longleftrightarrow> n \<in> {0, Suc 0, 2, 3, 4, 5, 6, 7}" for n :: nat by auto
  then show ?thesis by auto
qed

section \<open>The interface of an encoder and its decoder\<close>

text \<open>
  A decoder meets the contract when it recovers, from the encoding of a well-formed value
  followed by anything, that value and the number of bytes written. Encodings are then
  prefix-free, and a sequence of encoded values is read back one by one.
\<close>

locale codec =
  fixes enc :: "'a \<Rightarrow> bytes"
    and dec :: "bytes \<Rightarrow> (nat \<times> 'b) option"
    and wf :: "'a \<Rightarrow> bool"
    and view :: "'a \<Rightarrow> 'b"
  assumes dec_enc: "wf v \<Longrightarrow> dec (enc v @ rest) = Some (length (enc v), view v)"
begin

lemma dec_enc_exact: "wf v \<Longrightarrow> dec (enc v) = Some (length (enc v), view v)"
  using dec_enc [of v "[]"] by simp

lemma prefix_free:
  assumes "wf v" "wf w" "enc v @ r = enc w @ s"
  shows "view v = view w \<and> enc v = enc w \<and> r = s"
proof -
  have "Some (length (enc v), view v) = Some (length (enc w), view w)"
    using assms dec_enc by metis
  then show ?thesis using assms(3) by (auto simp: append_eq_append_conv)
qed

lemma view_determined: "wf v \<Longrightarrow> wf w \<Longrightarrow> enc v = enc w \<Longrightarrow> view v = view w"
  using prefix_free [of v w "[]" "[]"] by simp

lemma decode_seq_concat:
  "(\<And>v. v \<in> set vs \<Longrightarrow> wf v) \<Longrightarrow>
   decode_seq dec (length vs) (concat (map enc vs) @ rest) = Some (map view vs)"
proof (induction vs)
  case (Cons v vs)
  have "dec (enc v @ concat (map enc vs) @ rest) = Some (length (enc v), view v)"
    using Cons.prems by (intro dec_enc) simp
  with Cons show ?case by simp
qed simp

end

section \<open>The interface of a bounded table\<close>

text \<open>
  A table of limited size that a client uses as a map: \<open>fits\<close> says that storing under a key
  displaces nothing. Lookups then obey the laws of a finite map.
\<close>

locale bounded_table =
  fixes inv :: "'s \<Rightarrow> bool"
    and ok :: "'v \<Rightarrow> bool"
    and get :: "'s \<Rightarrow> 'k \<Rightarrow> 'v option"
    and put :: "'s \<Rightarrow> 'k \<Rightarrow> 'v \<Rightarrow> 's"
    and del :: "'s \<Rightarrow> 'k \<Rightarrow> 's"
    and fits :: "'s \<Rightarrow> 'k \<Rightarrow> bool"
  assumes put_inv: "inv s \<Longrightarrow> ok v \<Longrightarrow> inv (put s k v)"
    and del_inv: "inv s \<Longrightarrow> inv (del s k)"
    and get_put: "\<lbrakk>inv s; ok v; fits s k\<rbrakk> \<Longrightarrow> get (put s k v) = (get s)(k \<mapsto> v)"
    and get_del: "inv s \<Longrightarrow> get (del s k) = (get s)(k := None)"
    and fits_put: "\<lbrakk>inv s; ok v; fits s k\<rbrakk> \<Longrightarrow> fits (put s k v) k"
begin

lemma get_put_put:
  "\<lbrakk>inv s; ok v; ok w; fits s k\<rbrakk> \<Longrightarrow> get (put (put s k v) k w) = get (put s k w)"
  by (simp add: get_put put_inv fits_put)

lemma get_del_put:
  "\<lbrakk>inv s; ok v; fits s k\<rbrakk> \<Longrightarrow> get (del (put s k v) k) = (get s)(k := None)"
  by (simp add: get_del get_put put_inv)

lemma get_put_swap:
  "\<lbrakk>inv s; ok v; ok w; k \<noteq> l; fits s k; fits s l; fits (put s k v) l; fits (put s l w) k\<rbrakk>
   \<Longrightarrow> get (put (put s k v) l w) = get (put (put s l w) k v)"
  by (simp add: get_put put_inv fun_upd_twist)

lemma get_foldl_put:
  assumes "inv s" "\<And>v. v \<in> set vs \<Longrightarrow> ok v" "fits s k"
  shows "get (foldl (\<lambda>s v. put s k v) s vs) = (if vs = [] then get s else (get s)(k \<mapsto> last vs))"
  using assms
proof (induction vs arbitrary: s)
  case (Cons v vs)
  then have "inv (put s k v)" "fits (put s k v) k" by (auto intro: put_inv fits_put)
  with Cons show ?case by (auto simp: get_put fun_upd_def)
qed simp

end

end
