(* ===== verification/Bac_Int.thy ===== *)
theory Bac_Int
  imports Bac_Prelude
begin

text \<open>
  \<^verbatim>\<open>src/bacnet/bacint.c\<close>: the fixed-width big-endian integers of the BACnet encodings and
  the number of octets a variable-length integer takes. Every encoder is shown to be the
  big-endian byte string of its value, every decoder to recover it, and the lengths to be
  the least that hold the value. A signed 32-bit value is its two's complement word.
\<close>

section \<open>Unsigned integers\<close>

definition encode_unsigned16 :: "u16 \<Rightarrow> bytes" where
  "encode_unsigned16 value =
     [ucast (drop_bit 8 value AND 0xFF), ucast (drop_bit 0 value AND 0xFF)]"

definition decode_unsigned16 :: "bytes \<Rightarrow> (nat \<times> u16) option" where
  "decode_unsigned16 apdu = do {
     b0 \<leftarrow> rd apdu 0; b1 \<leftarrow> rd apdu 1;
     Some (2, push_bit 8 (ucast b0) OR ucast b1) }"

definition encode_unsigned24 :: "u32 \<Rightarrow> bytes" where
  "encode_unsigned24 value =
     [ucast (drop_bit 16 value AND 0xFF), ucast (drop_bit 8 value AND 0xFF),
      ucast (drop_bit 0 value AND 0xFF)]"

definition decode_unsigned24 :: "bytes \<Rightarrow> (nat \<times> u32) option" where
  "decode_unsigned24 apdu = do {
     b0 \<leftarrow> rd apdu 0; b1 \<leftarrow> rd apdu 1; b2 \<leftarrow> rd apdu 2;
     Some (3, push_bit 16 (ucast b0) OR push_bit 8 (ucast b1) OR ucast b2) }"

definition encode_unsigned32 :: "u32 \<Rightarrow> bytes" where
  "encode_unsigned32 value =
     [ucast (drop_bit 24 value AND 0xFF), ucast (drop_bit 16 value AND 0xFF),
      ucast (drop_bit 8 value AND 0xFF), ucast (drop_bit 0 value AND 0xFF)]"

definition decode_unsigned32 :: "bytes \<Rightarrow> (nat \<times> u32) option" where
  "decode_unsigned32 apdu = do {
     b0 \<leftarrow> rd apdu 0; b1 \<leftarrow> rd apdu 1; b2 \<leftarrow> rd apdu 2; b3 \<leftarrow> rd apdu 3;
     Some (4, push_bit 24 (ucast b0) OR push_bit 16 (ucast b1) OR push_bit 8 (ucast b2) OR
       ucast b3) }"

definition encode_unsigned40 :: "u64 \<Rightarrow> bytes" where
  "encode_unsigned40 value =
     [ucast (drop_bit 32 value AND 0xFF), ucast (drop_bit 24 value AND 0xFF),
      ucast (drop_bit 16 value AND 0xFF), ucast (drop_bit 8 value AND 0xFF),
      ucast (drop_bit 0 value AND 0xFF)]"

definition decode_unsigned40 :: "bytes \<Rightarrow> (nat \<times> u64) option" where
  "decode_unsigned40 apdu = do {
     b0 \<leftarrow> rd apdu 0; b1 \<leftarrow> rd apdu 1; b2 \<leftarrow> rd apdu 2; b3 \<leftarrow> rd apdu 3;
     b4 \<leftarrow> rd apdu 4;
     Some (5, push_bit 32 (ucast b0) OR push_bit 24 (ucast b1) OR push_bit 16 (ucast b2) OR
       push_bit 8 (ucast b3) OR ucast b4) }"

definition encode_unsigned48 :: "u64 \<Rightarrow> bytes" where
  "encode_unsigned48 value =
     [ucast (drop_bit 40 value AND 0xFF), ucast (drop_bit 32 value AND 0xFF),
      ucast (drop_bit 24 value AND 0xFF), ucast (drop_bit 16 value AND 0xFF),
      ucast (drop_bit 8 value AND 0xFF), ucast (drop_bit 0 value AND 0xFF)]"

definition decode_unsigned48 :: "bytes \<Rightarrow> (nat \<times> u64) option" where
  "decode_unsigned48 apdu = do {
     b0 \<leftarrow> rd apdu 0; b1 \<leftarrow> rd apdu 1; b2 \<leftarrow> rd apdu 2; b3 \<leftarrow> rd apdu 3;
     b4 \<leftarrow> rd apdu 4; b5 \<leftarrow> rd apdu 5;
     Some (6, push_bit 40 (ucast b0) OR push_bit 32 (ucast b1) OR push_bit 24 (ucast b2) OR
       push_bit 16 (ucast b3) OR push_bit 8 (ucast b4) OR ucast b5) }"

definition encode_unsigned56 :: "u64 \<Rightarrow> bytes" where
  "encode_unsigned56 value =
     [ucast (drop_bit 48 value AND 0xFF), ucast (drop_bit 40 value AND 0xFF),
      ucast (drop_bit 32 value AND 0xFF), ucast (drop_bit 24 value AND 0xFF),
      ucast (drop_bit 16 value AND 0xFF), ucast (drop_bit 8 value AND 0xFF),
      ucast (drop_bit 0 value AND 0xFF)]"

definition decode_unsigned56 :: "bytes \<Rightarrow> (nat \<times> u64) option" where
  "decode_unsigned56 apdu = do {
     b0 \<leftarrow> rd apdu 0; b1 \<leftarrow> rd apdu 1; b2 \<leftarrow> rd apdu 2; b3 \<leftarrow> rd apdu 3;
     b4 \<leftarrow> rd apdu 4; b5 \<leftarrow> rd apdu 5; b6 \<leftarrow> rd apdu 6;
     Some (7, push_bit 48 (ucast b0) OR push_bit 40 (ucast b1) OR push_bit 32 (ucast b2) OR
       push_bit 24 (ucast b3) OR push_bit 16 (ucast b4) OR push_bit 8 (ucast b5) OR
       ucast b6) }"

definition encode_unsigned64 :: "u64 \<Rightarrow> bytes" where
  "encode_unsigned64 value =
     [ucast (drop_bit 56 value AND 0xFF), ucast (drop_bit 48 value AND 0xFF),
      ucast (drop_bit 40 value AND 0xFF), ucast (drop_bit 32 value AND 0xFF),
      ucast (drop_bit 24 value AND 0xFF), ucast (drop_bit 16 value AND 0xFF),
      ucast (drop_bit 8 value AND 0xFF), ucast (drop_bit 0 value AND 0xFF)]"

definition decode_unsigned64 :: "bytes \<Rightarrow> (nat \<times> u64) option" where
  "decode_unsigned64 apdu = do {
     b0 \<leftarrow> rd apdu 0; b1 \<leftarrow> rd apdu 1; b2 \<leftarrow> rd apdu 2; b3 \<leftarrow> rd apdu 3;
     b4 \<leftarrow> rd apdu 4; b5 \<leftarrow> rd apdu 5; b6 \<leftarrow> rd apdu 6; b7 \<leftarrow> rd apdu 7;
     Some (8, push_bit 56 (ucast b0) OR push_bit 48 (ucast b1) OR push_bit 40 (ucast b2) OR
       push_bit 32 (ucast b3) OR push_bit 24 (ucast b4) OR push_bit 16 (ucast b5) OR
       push_bit 8 (ucast b6) OR ucast b7) }"

text \<open>
  \<^verbatim>\<open>BACNET_UNSIGNED_INTEGER\<close> is 64 bits wide; the upper half is tested after a shift.
\<close>

definition bacnet_unsigned_length :: "u64 \<Rightarrow> nat" where
  "bacnet_unsigned_length value =
     (if value \<le> 0xFF then 1
      else if value \<le> 0xFFFF then 2
      else if value \<le> 0xFFFFFF then 3
      else let value = drop_bit 32 value in
        if value = 0 then 4
        else if value \<le> 0xFF then 5
        else if value \<le> 0xFFFF then 6
        else if value \<le> 0xFFFFFF then 7
        else 8)"

section \<open>Signed integers\<close>

definition encode_signed8 :: "u8 \<Rightarrow> bytes" where
  "encode_signed8 value = [value]"

definition decode_signed8 :: "bytes \<Rightarrow> (nat \<times> u32) option" where
  "decode_signed8 apdu = do {
     b0 \<leftarrow> rd apdu 0;
     Some (1, (if b0 AND 0x80 \<noteq> 0 then 0xFFFFFF00 else 0) OR (ucast b0 AND 0xFF)) }"

definition encode_signed16 :: "u16 \<Rightarrow> bytes" where
  "encode_signed16 value =
     [ucast (signed_drop_bit 8 value AND 0xFF), ucast (signed_drop_bit 0 value AND 0xFF)]"

definition decode_signed16 :: "bytes \<Rightarrow> (nat \<times> u32) option" where
  "decode_signed16 apdu = do {
     b0 \<leftarrow> rd apdu 0; b1 \<leftarrow> rd apdu 1;
     Some (2, (if b0 AND 0x80 \<noteq> 0 then 0xFFFF0000 else 0) OR push_bit 8 (ucast b0) OR ucast b1) }"

definition encode_signed24 :: "u32 \<Rightarrow> bytes" where
  "encode_signed24 value =
     [ucast (signed_drop_bit 16 value AND 0xFF), ucast (signed_drop_bit 8 value AND 0xFF),
      ucast (signed_drop_bit 0 value AND 0xFF)]"

definition decode_signed24 :: "bytes \<Rightarrow> (nat \<times> u32) option" where
  "decode_signed24 apdu = do {
     b0 \<leftarrow> rd apdu 0; b1 \<leftarrow> rd apdu 1; b2 \<leftarrow> rd apdu 2;
     Some (3, (if b0 AND 0x80 \<noteq> 0 then 0xFF000000 else 0) OR push_bit 16 (ucast b0) OR
       push_bit 8 (ucast b1) OR ucast b2) }"

definition encode_signed32 :: "u32 \<Rightarrow> bytes" where
  "encode_signed32 value =
     [ucast (signed_drop_bit 24 value AND 0xFF), ucast (signed_drop_bit 16 value AND 0xFF),
      ucast (signed_drop_bit 8 value AND 0xFF), ucast (signed_drop_bit 0 value AND 0xFF)]"

definition decode_signed32 :: "bytes \<Rightarrow> (nat \<times> u32) option" where
  "decode_signed32 apdu = do {
     b0 \<leftarrow> rd apdu 0; b1 \<leftarrow> rd apdu 1; b2 \<leftarrow> rd apdu 2; b3 \<leftarrow> rd apdu 3;
     Some (4, push_bit 24 (ucast b0) OR push_bit 16 (ucast b1) OR push_bit 8 (ucast b2) OR
       ucast b3) }"

definition bacnet_signed_length :: "u32 \<Rightarrow> nat" where
  "bacnet_signed_length value =
     (if -128 \<le> sint value \<and> sint value < 128 then 1
      else if -32768 \<le> sint value \<and> sint value < 32768 then 2
      else if -8388608 \<le> sint value \<and> sint value < 8388608 then 3
      else 4)"

section \<open>Every encoder is the big-endian byte string of its value\<close>

lemma encode_unsigned16_be [encoder_defs]: "encode_unsigned16 v = be_bytes 2 v"
  by (simp add: encode_unsigned16_def be_bytes_numeral)

lemma encode_unsigned24_be [encoder_defs]: "encode_unsigned24 v = be_bytes 3 v"
  by (simp add: encode_unsigned24_def be_bytes_numeral)

lemma encode_unsigned32_be [encoder_defs]: "encode_unsigned32 v = be_bytes 4 v"
  by (simp add: encode_unsigned32_def be_bytes_numeral)

lemma encode_unsigned40_be [encoder_defs]: "encode_unsigned40 v = be_bytes 5 v"
  by (simp add: encode_unsigned40_def be_bytes_numeral)

lemma encode_unsigned48_be [encoder_defs]: "encode_unsigned48 v = be_bytes 6 v"
  by (simp add: encode_unsigned48_def be_bytes_numeral)

lemma encode_unsigned56_be [encoder_defs]: "encode_unsigned56 v = be_bytes 7 v"
  by (simp add: encode_unsigned56_def be_bytes_numeral)

lemma encode_unsigned64_be [encoder_defs]: "encode_unsigned64 v = be_bytes 8 v"
  by (simp add: encode_unsigned64_def be_bytes_numeral)

lemma decode_unsigned16_be [decoder_defs]:
  "decode_unsigned16 ([a,b] @ rest) = Some (2, be_value [a,b])"
  by (simp add: decode_unsigned16_def be_value_def push_bit_or or.assoc)

lemma decode_unsigned24_be [decoder_defs]:
  "decode_unsigned24 ([a,b,c] @ rest) = Some (3, be_value [a,b,c])"
  by (simp add: decode_unsigned24_def be_value_def push_bit_or or.assoc)

lemma decode_unsigned32_be [decoder_defs]:
  "decode_unsigned32 ([a,b,c,d] @ rest) = Some (4, be_value [a,b,c,d])"
  by (simp add: decode_unsigned32_def be_value_def push_bit_or or.assoc)

lemma decode_unsigned40_be [decoder_defs]:
  "decode_unsigned40 ([a,b,c,d,e] @ rest) = Some (5, be_value [a,b,c,d,e])"
  by (simp add: decode_unsigned40_def be_value_def push_bit_or or.assoc)

lemma decode_unsigned48_be [decoder_defs]:
  "decode_unsigned48 ([a,b,c,d,e,f] @ rest) = Some (6, be_value [a,b,c,d,e,f])"
  by (simp add: decode_unsigned48_def be_value_def push_bit_or or.assoc)

lemma decode_unsigned56_be [decoder_defs]:
  "decode_unsigned56 ([a,b,c,d,e,f,g] @ rest) = Some (7, be_value [a,b,c,d,e,f,g])"
  by (simp add: decode_unsigned56_def be_value_def push_bit_or or.assoc)

lemma decode_unsigned64_be [decoder_defs]:
  "decode_unsigned64 ([a,b,c,d,e,f,g,h] @ rest) = Some (8, be_value [a,b,c,d,e,f,g,h])"
  by (simp add: decode_unsigned64_def be_value_def push_bit_or or.assoc)

section \<open>Round trips\<close>

lemma unsigned16_roundtrip: "decode_unsigned16 (encode_unsigned16 v @ rest) = Some (2, v)"
  using be_value_be_bytes [of 2 v]
  by (simp add: encoder_defs be_bytes_numeral decode_unsigned16_be [simplified] take_bit_word_eq_self)

lemma unsigned24_roundtrip:
  "decode_unsigned24 (encode_unsigned24 v @ rest) = Some (3, take_bit 24 v)"
  using be_value_be_bytes [of 3 v]
  by (simp add: encoder_defs be_bytes_numeral decode_unsigned24_be [simplified])

lemma unsigned32_roundtrip: "decode_unsigned32 (encode_unsigned32 v @ rest) = Some (4, v)"
  using be_value_be_bytes [of 4 v]
  by (simp add: encoder_defs be_bytes_numeral decode_unsigned32_be [simplified] take_bit_word_eq_self)

lemma unsigned40_roundtrip:
  "decode_unsigned40 (encode_unsigned40 v @ rest) = Some (5, take_bit 40 v)"
  using be_value_be_bytes [of 5 v]
  by (simp add: encoder_defs be_bytes_numeral decode_unsigned40_be [simplified])

lemma unsigned48_roundtrip:
  "decode_unsigned48 (encode_unsigned48 v @ rest) = Some (6, take_bit 48 v)"
  using be_value_be_bytes [of 6 v]
  by (simp add: encoder_defs be_bytes_numeral decode_unsigned48_be [simplified])

lemma unsigned56_roundtrip:
  "decode_unsigned56 (encode_unsigned56 v @ rest) = Some (7, take_bit 56 v)"
  using be_value_be_bytes [of 7 v]
  by (simp add: encoder_defs be_bytes_numeral decode_unsigned56_be [simplified])

lemma unsigned64_roundtrip: "decode_unsigned64 (encode_unsigned64 v @ rest) = Some (8, v)"
  using be_value_be_bytes [of 8 v]
  by (simp add: encoder_defs be_bytes_numeral decode_unsigned64_be [simplified] take_bit_word_eq_self)

section \<open>Signed round trips\<close>

lemma and_80: "(b :: u8) AND 0x80 \<noteq> 0 \<longleftrightarrow> bit b 7"
  using bit_iff_and_push_bit_not_eq_0 [of b 7] by simp

lemma sign_extension:
  "(if bit v n then NOT (mask (Suc n)) else 0) OR take_bit (Suc n) v
   = signed_take_bit n (v :: 'a::len word)"
  by (rule bit_word_eqI) (auto simp: bit_simps min_def not_less_eq less_Suc_eq_le)

lemma sign_masks:
  "(0xFFFFFF00 :: u32) = NOT (mask (Suc 7))"
  "(0xFFFF0000 :: u32) = NOT (mask (Suc 15))"
  "(0xFF000000 :: u32) = NOT (mask (Suc 23))"
  by (simp_all add: mask_eq_exp_minus_1)

lemma encode_signed_be:
  "encode_signed16 v = be_bytes 2 v"
  "encode_signed24 w = be_bytes 3 w"
  "encode_signed32 w = be_bytes 4 w"
  by (auto simp: encode_signed16_def encode_signed24_def encode_signed32_def be_bytes_numeral
      and_FF bit_simps intro!: bit_word_eqI)

lemma decode_signed_be:
  "decode_signed16 ([a, b] @ rest)
     = Some (2, (if bit a 7 then NOT (mask (Suc 15)) else 0) OR be_value [a, b])"
  "decode_signed24 ([a, b, c] @ rest)
     = Some (3, (if bit a 7 then NOT (mask (Suc 23)) else 0) OR be_value [a, b, c])"
  "decode_signed32 ([a, b, c, d] @ rest) = Some (4, be_value [a, b, c, d])"
  by (simp_all add: decode_signed16_def decode_signed24_def decode_signed32_def be_value_def
      or.assoc and_80 sign_masks del: mask_Suc_exp)

lemma be_bytes_ucast:
  "8 * k \<le> LENGTH('a) \<Longrightarrow> 8 * k \<le> LENGTH('b) \<Longrightarrow>
   be_bytes k (ucast (v :: 'a::len word) :: 'b::len word) = be_bytes k v"
  by (induction k) (auto simp: and_FF bit_simps intro!: bit_word_eqI)

lemma signed8_roundtrip: "decode_signed8 (encode_signed8 v @ rest) = Some (1, scast v)"
proof -
  have "signed_take_bit 7 (ucast v :: u32) = scast v"
    by (rule bit_word_eqI) (auto simp: bit_simps min_def)
  then show ?thesis
    using sign_extension [of "ucast v :: u32" 7]
    by (simp add: decode_signed8_def encode_signed8_def and_80 and_FF sign_masks bit_simps
        del: mask_Suc_exp split: if_splits)
qed

lemma signed16_roundtrip: "decode_signed16 (encode_signed16 v @ rest) = Some (2, scast v)"
proof -
  have "signed_take_bit 15 (ucast v :: u32) = scast v"
    by (rule bit_word_eqI) (auto simp: bit_simps min_def)
  moreover have "be_value (be_bytes 2 v) = take_bit (Suc 15) (ucast v :: u32)"
    using be_value_be_bytes [of 2 "ucast v :: u32"] by (simp add: be_bytes_ucast)
  ultimately show ?thesis
    using sign_extension [of "ucast v :: u32" 15]
    by (simp add: encode_signed_be be_bytes_numeral decode_signed_be [simplified] bit_simps and_FF)
qed

lemma signed24_roundtrip:
  "decode_signed24 (encode_signed24 v @ rest) = Some (3, signed_take_bit 23 v)"
  using sign_extension [of v 23] be_value_be_bytes [of 3 v]
  by (simp add: encode_signed_be be_bytes_numeral decode_signed_be [simplified] bit_simps and_FF)

lemma signed32_roundtrip: "decode_signed32 (encode_signed32 v @ rest) = Some (4, v)"
  using be_value_be_bytes [of 4 v]
  by (simp add: encode_signed_be be_bytes_numeral decode_signed_be [simplified]
      take_bit_word_eq_self)

lemma length_encode_int [simp]:
  "length (encode_unsigned16 a) = 2" "length (encode_unsigned24 b) = 3"
  "length (encode_unsigned32 b) = 4" "length (encode_unsigned40 c) = 5"
  "length (encode_unsigned48 c) = 6" "length (encode_unsigned56 c) = 7"
  "length (encode_unsigned64 c) = 8" "length (encode_signed8 d) = 1"
  "length (encode_signed16 a) = 2" "length (encode_signed24 b) = 3"
  "length (encode_signed32 b) = 4"
  by (simp_all add: encoder_defs encode_signed_be encode_signed8_def)

section \<open>The integer codecs as instances of the codec interface\<close>

interpretation u16c: codec encode_unsigned16 decode_unsigned16 "\<lambda>_. True" id
  by unfold_locales (simp add: unsigned16_roundtrip)

interpretation u24c: codec encode_unsigned24 decode_unsigned24 "\<lambda>_. True" "take_bit 24"
  by unfold_locales (simp add: unsigned24_roundtrip)

interpretation u32c: codec encode_unsigned32 decode_unsigned32 "\<lambda>_. True" id
  by unfold_locales (simp add: unsigned32_roundtrip)

interpretation u64c: codec encode_unsigned64 decode_unsigned64 "\<lambda>_. True" id
  by unfold_locales (simp add: unsigned64_roundtrip)

interpretation s16c: codec encode_signed16 decode_signed16 "\<lambda>_. True" scast
  by unfold_locales (simp add: signed16_roundtrip)

interpretation s32c: codec encode_signed32 decode_signed32 "\<lambda>_. True" id
  by unfold_locales (simp add: signed32_roundtrip)

section \<open>Lengths\<close>

lemma bacnet_unsigned_length_bounds:
  "unat v < 256 ^ bacnet_unsigned_length v \<and>
   (bacnet_unsigned_length v = 1 \<or> 256 ^ (bacnet_unsigned_length v - 1) \<le> unat v)"
proof -
  have m: "unat v < 18446744073709551616" using unsigned_less [of v] by simp
  have "unat (drop_bit 32 v) = drop_bit 32 (unat v)" by (rule unat_drop_bit_eq)
  also have "\<dots> = unat v div 2 ^ 32" by (rule drop_bit_eq_div)
  finally have d: "unat (drop_bit 32 v) = unat v div 2 ^ 32" .
  have z: "drop_bit 32 v = 0 \<longleftrightarrow> unat (drop_bit 32 v) = 0" by (simp add: unat_eq_0)
  show ?thesis using m
    by (auto simp: bacnet_unsigned_length_def Let_def word_le_nat_alt z d)
qed

lemma bacnet_unsigned_length_range: "1 \<le> bacnet_unsigned_length v \<and> bacnet_unsigned_length v \<le> 8"
  by (auto simp: bacnet_unsigned_length_def Let_def)

lemma bacnet_signed_length_bounds:
  "- (2 ^ (8 * bacnet_signed_length v - 1)) \<le> sint v \<and> sint v < 2 ^ (8 * bacnet_signed_length v - 1)"
  using sint_lt [of v] sint_ge [of v]
  by (auto simp: bacnet_signed_length_def)

end
