(* ===== verification/Bac_Address.thy ===== *)
theory Bac_Address
  imports Bac_Int
begin

text \<open>
  The network address \<^verbatim>\<open>BACNET_ADDRESS\<close> of \<^verbatim>\<open>src/bacnet/bacdef.h\<close> and the operations of
  \<^verbatim>\<open>src/bacnet/bacaddr.c\<close> that compare, copy and build one. Comparison looks only at the
  octets the lengths cover and, for a local address, only at the MAC part; it is shown to be
  an equivalence, which is what the transaction and binding tables rely on.
\<close>

section \<open>Configuration\<close>

definition MAX_MAC_LEN :: nat where "MAX_MAC_LEN = 7"

section \<open>The address\<close>

text \<open>
  The arrays \<^verbatim>\<open>mac[MAX_MAC_LEN]\<close> and \<^verbatim>\<open>adr[MAX_MAC_LEN]\<close> are lists of that length, which
  \<open>wf_address\<close> states; \<open>adr_len\<close> is the field \<^verbatim>\<open>len\<close>.
\<close>

record BACNET_ADDRESS =
  mac_len :: u8
  mac :: bytes
  net :: u16
  adr_len :: u8
  adr :: bytes

record BACNET_MAC_ADDRESS =
  m_len :: u8
  m_adr :: bytes

definition wf_address :: "BACNET_ADDRESS \<Rightarrow> bool" where
  "wf_address a \<longleftrightarrow> length (mac a) = MAX_MAC_LEN \<and> length (adr a) = MAX_MAC_LEN"

definition wf_mac_address :: "BACNET_MAC_ADDRESS \<Rightarrow> bool" where
  "wf_mac_address m \<longleftrightarrow> length (m_adr m) = MAX_MAC_LEN"

section \<open>Operations\<close>

definition bacnet_address_copy :: "BACNET_ADDRESS \<Rightarrow> BACNET_ADDRESS \<Rightarrow> BACNET_ADDRESS" where
  "bacnet_address_copy dest src =
     dest\<lparr>mac_len := mac_len src, mac := map (\<lambda>i. mac src ! i) [0..<MAX_MAC_LEN],
          net := net src, adr_len := adr_len src,
          adr := map (\<lambda>i. adr src ! i) [0..<MAX_MAC_LEN]\<rparr>"

definition octets_same :: "u8 \<Rightarrow> bytes \<Rightarrow> bytes \<Rightarrow> bool" where
  "octets_same n xs ys =
     list_all (\<lambda>i. i < unat n \<longrightarrow> xs ! i = ys ! i) [0..<MAX_MAC_LEN]"

text \<open>
  The source answers \<^verbatim>\<open>true\<close> at once for one and the same object and \<^verbatim>\<open>false\<close> for a NULL
  pointer; on values the first is subsumed by the comparison itself.
\<close>

definition bacnet_address_same :: "BACNET_ADDRESS \<Rightarrow> BACNET_ADDRESS \<Rightarrow> bool" where
  "bacnet_address_same dest src =
     (if mac_len dest \<noteq> mac_len src then False
      else if \<not> octets_same (mac_len dest) (mac dest) (mac src) then False
      else if net dest \<noteq> net src then False
      else if net dest = 0 then True
      else if adr_len dest \<noteq> adr_len src then False
      else octets_same (adr_len dest) (adr dest) (adr src))"

definition bacnet_address_init ::
  "BACNET_ADDRESS \<Rightarrow> BACNET_MAC_ADDRESS option \<Rightarrow> u16 \<Rightarrow> BACNET_MAC_ADDRESS option \<Rightarrow> BACNET_ADDRESS"
where
  "bacnet_address_init dest m dnet a =
     (let present = (\<lambda>p. case p of None \<Rightarrow> False | Some q \<Rightarrow> m_len q \<noteq> 0);
          octets = (\<lambda>p. map (\<lambda>i. m_adr (the p) ! i) [0..<MAX_MAC_LEN]);
          zeros = replicate MAX_MAC_LEN 0
      in if present a \<and> present m then
           dest\<lparr>mac := octets m, mac_len := m_len (the m),
                adr := octets a, adr_len := m_len (the a), net := dnet\<rparr>
         else if present m then
           dest\<lparr>mac := octets m, mac_len := m_len (the m),
                adr := zeros, adr_len := 0, net := dnet\<rparr>
         else
           dest\<lparr>mac := zeros, mac_len := 0, adr := zeros, adr_len := 0, net := dnet\<rparr>)"

definition bacnet_address_mac_same :: "BACNET_MAC_ADDRESS \<Rightarrow> BACNET_MAC_ADDRESS \<Rightarrow> bool" where
  "bacnet_address_mac_same dest src =
     (if m_len dest \<noteq> m_len src then False
      else octets_same (m_len dest) (m_adr dest) (m_adr src))"

definition bacnet_address_mac_init ::
  "BACNET_MAC_ADDRESS \<Rightarrow> bytes option \<Rightarrow> u8 \<Rightarrow> BACNET_MAC_ADDRESS option" where
  "bacnet_address_mac_init m a n =
     (case a of
        None \<Rightarrow> Some (m\<lparr>m_len := 0\<rparr>)
      | Some bs \<Rightarrow>
          if unat n \<le> MAX_MAC_LEN then do {
            octets \<leftarrow> read_at bs 0 (unat n);
            Some (m\<lparr>m_adr := octets @ drop (unat n) (m_adr m), m_len := n\<rparr>) }
          else Some (m\<lparr>m_len := 0\<rparr>))"

section \<open>Copying and comparing\<close>

lemma octets_same_iff:
  "octets_same n xs ys \<longleftrightarrow> (\<forall>i < MAX_MAC_LEN. i < unat n \<longrightarrow> xs ! i = ys ! i)"
  by (auto simp: octets_same_def list_all_iff)

lemma octets_same_refl [simp]: "octets_same n xs xs"
  by (simp add: octets_same_iff)

lemma octets_same_sym: "octets_same n xs ys \<Longrightarrow> octets_same n ys xs"
  by (simp add: octets_same_iff)

lemma octets_same_trans: "octets_same n xs ys \<Longrightarrow> octets_same n ys zs \<Longrightarrow> octets_same n xs zs"
  by (simp add: octets_same_iff)

lemma bacnet_address_same_iff:
  "bacnet_address_same a b \<longleftrightarrow>
     mac_len a = mac_len b \<and> octets_same (mac_len a) (mac a) (mac b) \<and> net a = net b \<and>
     (net a = 0 \<or> adr_len a = adr_len b \<and> octets_same (adr_len a) (adr a) (adr b))"
  by (auto simp: bacnet_address_same_def)

lemma bacnet_address_same_refl [simp]: "bacnet_address_same a a"
  by (simp add: bacnet_address_same_iff)

lemma bacnet_address_same_sym: "bacnet_address_same a b \<Longrightarrow> bacnet_address_same b a"
  by (auto simp: bacnet_address_same_iff intro: octets_same_sym)

lemma bacnet_address_same_trans:
  "bacnet_address_same a b \<Longrightarrow> bacnet_address_same b c \<Longrightarrow> bacnet_address_same a c"
  by (auto simp: bacnet_address_same_iff intro: octets_same_trans)

lemma map_nth_take [simp]: "length xs = n \<Longrightarrow> map (\<lambda>i. xs ! i) [0..<n] = xs"
  by (auto intro: nth_equalityI)

lemma bacnet_address_copy_eq: "wf_address src \<Longrightarrow> bacnet_address_copy dest src = src"
  by (simp add: bacnet_address_copy_def wf_address_def)

lemma wf_address_copy: "wf_address src \<Longrightarrow> wf_address (bacnet_address_copy dest src)"
  by (simp add: bacnet_address_copy_eq)

lemma bacnet_address_copy_same: "bacnet_address_same (bacnet_address_copy dest src) src"
  by (simp add: bacnet_address_same_iff bacnet_address_copy_def octets_same_iff)

lemma wf_address_init: "wf_address (bacnet_address_init dest m dnet a)"
  by (simp add: bacnet_address_init_def wf_address_def Let_def)

end
