(* ===== verification/Bac_Npdu.thy ===== *)
theory Bac_Npdu
  imports Bac_Address
begin

text \<open>
  \<^verbatim>\<open>src/bacnet/npdu.c\<close>: the network layer header. \<open>npdu_encode_pdu\<close> writes the version, the
  control octet, the destination and source specifiers, the hop count and the network message
  type; \<open>bacnet_npdu_decode\<close> reads them back with bounds checks. The decoder is shown never to
  read outside a buffer of the length it is told, and to recover what the encoder wrote.
\<close>

section \<open>Data\<close>

definition MAX_NPDU :: nat where
  "MAX_NPDU = 1 + 1 + 2 + 1 + MAX_MAC_LEN + 2 + 1 + MAX_MAC_LEN + 1 + 1 + 2"

definition BACNET_PROTOCOL_VERSION :: u8 where "BACNET_PROTOCOL_VERSION = 1"
definition HOP_COUNT_DEFAULT :: u8 where "HOP_COUNT_DEFAULT = 255"
definition BACNET_BROADCAST_NETWORK :: u16 where "BACNET_BROADCAST_NETWORK = 0xFFFF"
definition NETWORK_MESSAGE_INVALID :: u32 where "NETWORK_MESSAGE_INVALID = 0x100"
definition MESSAGE_PRIORITY_NORMAL :: u32 where "MESSAGE_PRIORITY_NORMAL = 0"

record BACNET_NPDU_DATA =
  protocol_version :: u8
  data_expecting_reply :: bool
  network_layer_message :: bool
  priority :: u32
  network_message_type :: u32
  vendor_id :: u16
  hop_count :: u8

section \<open>Operations\<close>

definition npdu_copy_data :: "BACNET_NPDU_DATA \<Rightarrow> BACNET_NPDU_DATA \<Rightarrow> BACNET_NPDU_DATA" where
  "npdu_copy_data dest src =
     dest\<lparr>protocol_version := protocol_version src,
          data_expecting_reply := data_expecting_reply src,
          network_layer_message := network_layer_message src,
          priority := priority src,
          network_message_type := network_message_type src,
          vendor_id := vendor_id src,
          hop_count := hop_count src\<rparr>"

text \<open>
  The clamp \<^verbatim>\<open>if (dest->len > MAX_MAC_LEN) dest->len = MAX_MAC_LEN\<close> writes through the
  caller's pointer, so the encoder also gives back both addresses.
\<close>

definition clamp_adr_len :: "BACNET_ADDRESS \<Rightarrow> BACNET_ADDRESS" where
  "clamp_adr_len a = (if unat (adr_len a) > MAX_MAC_LEN then a\<lparr>adr_len := of_nat MAX_MAC_LEN\<rparr> else a)"

definition npdu_specifier :: "BACNET_ADDRESS \<Rightarrow> bytes" where
  "npdu_specifier a =
     encode_unsigned16 (net a) @ [adr_len a] @ map (\<lambda>i. adr a ! i) [0..<unat (adr_len a)]"

definition has_dest :: "BACNET_ADDRESS option \<Rightarrow> bool" where
  "has_dest dest = (case dest of None \<Rightarrow> False | Some d \<Rightarrow> net d \<noteq> 0)"

definition has_src :: "BACNET_ADDRESS option \<Rightarrow> bool" where
  "has_src src = (case src of None \<Rightarrow> False | Some s \<Rightarrow> net s \<noteq> 0 \<and> adr_len s \<noteq> 0)"

definition npdu_control :: "bool \<Rightarrow> bool \<Rightarrow> BACNET_NPDU_DATA \<Rightarrow> u8" where
  "npdu_control routed sourced n =
     (if network_layer_message n then 0x80 else 0) OR
     (if routed then 0x20 else 0) OR
     (if sourced then 0x08 else 0) OR
     (if data_expecting_reply n then 0x04 else 0) OR
     (ucast (priority n) AND 0x03)"

definition npdu_message :: "BACNET_NPDU_DATA \<Rightarrow> bytes" where
  "npdu_message n =
     (if network_layer_message n
      then [ucast (network_message_type n)]
        @ (if 0x80 \<le> network_message_type n then encode_unsigned16 (vendor_id n) else [])
      else [])"

definition npdu_encode_pdu ::
  "BACNET_ADDRESS option \<Rightarrow> BACNET_ADDRESS option \<Rightarrow> BACNET_NPDU_DATA
   \<Rightarrow> bytes \<times> BACNET_ADDRESS option \<times> BACNET_ADDRESS option" where
  "npdu_encode_pdu dest src n =
     (let routed = has_dest dest;
          sourced = has_src src;
          dest' = (if routed then map_option clamp_adr_len dest else dest);
          src' = (if sourced then map_option clamp_adr_len src else src)
      in ([protocol_version n, npdu_control routed sourced n]
          @ (if routed then npdu_specifier (the dest') else [])
          @ (if sourced then npdu_specifier (the src') else [])
          @ (if routed then [hop_count n] else [])
          @ npdu_message n,
          dest', src'))"

text \<open>
  \<^verbatim>\<open>bacnet_npdu_encode_pdu\<close> writes only when the buffer is large enough and returns the
  length in every case: the pair is the length and the bytes stored.
\<close>

definition bacnet_npdu_encode_pdu ::
  "nat \<Rightarrow> BACNET_ADDRESS option \<Rightarrow> BACNET_ADDRESS option \<Rightarrow> BACNET_NPDU_DATA \<Rightarrow> nat \<times> bytes" where
  "bacnet_npdu_encode_pdu pdu_size dest src n =
     (let (bs, dest', src') = npdu_encode_pdu dest src n
      in if 0 < pdu_size \<and> length bs \<le> pdu_size
         then let (bs', _, _) = npdu_encode_pdu dest' src' n in (length bs', bs')
         else (length bs, []))"

definition npdu_encode_npdu_data :: "bool \<Rightarrow> u32 \<Rightarrow> BACNET_NPDU_DATA" where
  "npdu_encode_npdu_data reply prio =
     \<lparr>protocol_version = BACNET_PROTOCOL_VERSION, data_expecting_reply = reply,
      network_layer_message = False, priority = prio,
      network_message_type = NETWORK_MESSAGE_INVALID, vendor_id = 0,
      hop_count = HOP_COUNT_DEFAULT\<rparr>"

definition npdu_encode_npdu_network :: "u32 \<Rightarrow> bool \<Rightarrow> u32 \<Rightarrow> BACNET_NPDU_DATA" where
  "npdu_encode_npdu_network ty reply prio =
     \<lparr>protocol_version = BACNET_PROTOCOL_VERSION, data_expecting_reply = reply,
      network_layer_message = True, priority = prio,
      network_message_type = ty, vendor_id = 0,
      hop_count = HOP_COUNT_DEFAULT\<rparr>"

text \<open>
  One specifier (DNET, DLEN, DADR or SNET, SLEN, SADR) at offset \<open>pos\<close>. The result is whether
  the address fits (otherwise the decoder returns -1), the new offset, the network number and
  the caller's address as far as it has been written.
\<close>

definition npdu_decode_specifier ::
  "bytes \<Rightarrow> nat \<Rightarrow> nat \<Rightarrow> BACNET_ADDRESS option
   \<Rightarrow> (bool \<times> nat \<times> u16 \<times> BACNET_ADDRESS option) option" where
  "npdu_decode_specifier npdu pdu_len pos a =
     (if pos + 3 \<le> pdu_len then do {
        (n, net') \<leftarrow> decode_unsigned16 (drop pos npdu);
        alen \<leftarrow> rd npdu (pos + n);
        let pos = pos + n + 1;
        let a = map_option (\<lambda>d. d\<lparr>net := net', adr_len := alen\<rparr>) a;
        if alen = 0 then Some (True, pos, net', a)
        else if MAX_MAC_LEN < unat alen \<or> pdu_len < pos + unat alen
        then Some (False, pos, net', a)
        else do {
          octets \<leftarrow> read_at npdu pos (unat alen);
          Some (True, pos + unat alen, net',
                map_option (\<lambda>d. d\<lparr>adr := octets @ drop (unat alen) (adr d)\<rparr>) a) } }
      else Some (True, pos, 0, a))"

definition npdu_decode_message ::
  "bytes \<Rightarrow> nat \<Rightarrow> nat \<Rightarrow> BACNET_NPDU_DATA \<Rightarrow> (nat \<times> BACNET_NPDU_DATA) option" where
  "npdu_decode_message npdu pdu_len pos n =
     (if network_layer_message n then
        if pos < pdu_len then do {
          ty \<leftarrow> rd npdu pos;
          let n = n\<lparr>network_message_type := ucast ty\<rparr>;
          let pos = pos + 1;
          if 0x80 \<le> network_message_type n \<and> pos + 2 \<le> pdu_len then do {
            (k, v) \<leftarrow> decode_unsigned16 (drop pos npdu);
            Some (pos + k, n\<lparr>vendor_id := v\<rparr>) }
          else Some (pos, n) }
        else Some (pos, n)
      else Some (pos, n\<lparr>network_message_type := NETWORK_MESSAGE_INVALID\<rparr>))"

definition npdu_decode_dest ::
  "bytes \<Rightarrow> nat \<Rightarrow> u8 \<Rightarrow> BACNET_ADDRESS option
   \<Rightarrow> (bool \<times> nat \<times> u16 \<times> BACNET_ADDRESS option) option" where
  "npdu_decode_dest npdu pdu_len control dest =
     (if bit control 5 then npdu_decode_specifier npdu pdu_len 2 dest
      else Some (True, 2, 0,
        map_option (\<lambda>d. d\<lparr>net := 0, adr_len := 0, adr := replicate MAX_MAC_LEN 0\<rparr>) dest))"

definition npdu_decode_src ::
  "bytes \<Rightarrow> nat \<Rightarrow> u8 \<Rightarrow> nat \<Rightarrow> BACNET_ADDRESS option
   \<Rightarrow> (bool \<times> nat \<times> u16 \<times> BACNET_ADDRESS option) option" where
  "npdu_decode_src npdu pdu_len control pos src =
     (if bit control 3 then npdu_decode_specifier npdu pdu_len pos src
      else Some (True, pos, 0,
        map_option (\<lambda>s. s\<lparr>net := (if net s \<noteq> BACNET_BROADCAST_NETWORK then 0 else net s),
                          adr_len := 0, adr := replicate MAX_MAC_LEN 0\<rparr>) src))"

definition bacnet_npdu_decode ::
  "bytes \<Rightarrow> nat \<Rightarrow> BACNET_ADDRESS option \<Rightarrow> BACNET_ADDRESS option \<Rightarrow> BACNET_NPDU_DATA
   \<Rightarrow> (int \<times> BACNET_ADDRESS option \<times> BACNET_ADDRESS option \<times> BACNET_NPDU_DATA) option" where
  "bacnet_npdu_decode npdu pdu_len dest src n =
     (if 2 \<le> pdu_len then do {
        b0 \<leftarrow> rd npdu 0;
        b1 \<leftarrow> rd npdu 1;
        let n = n\<lparr>protocol_version := b0, network_layer_message := bit b1 7,
                  data_expecting_reply := bit b1 2, priority := ucast (b1 AND 0x03)\<rparr>;
        (ok, pos, dest_net, dest) \<leftarrow> npdu_decode_dest npdu pdu_len b1 dest;
        if \<not> ok then Some (-1, dest, src, n) else do {
        (ok, pos, src_net, src) \<leftarrow> npdu_decode_src npdu pdu_len b1 pos src;
        if \<not> ok then Some (-1, dest, src, n) else do {
        (pos, n) \<leftarrow>
          (if dest_net \<noteq> 0 \<and> pos < pdu_len
           then do { h \<leftarrow> rd npdu pos; Some (pos + 1, n\<lparr>hop_count := h\<rparr>) }
           else Some (pos, n\<lparr>hop_count := 0\<rparr>));
        (pos, n) \<leftarrow> npdu_decode_message npdu pdu_len pos n;
        Some (int pos, dest, src, n) } } }
      else Some (0, dest, src, n))"

definition npdu_decode ::
  "bytes \<Rightarrow> BACNET_ADDRESS option \<Rightarrow> BACNET_ADDRESS option \<Rightarrow> BACNET_NPDU_DATA
   \<Rightarrow> (int \<times> BACNET_ADDRESS option \<times> BACNET_ADDRESS option \<times> BACNET_NPDU_DATA) option" where
  "npdu_decode npdu dest src n = bacnet_npdu_decode npdu MAX_NPDU dest src n"

definition zero_npdu_data :: BACNET_NPDU_DATA where
  "zero_npdu_data =
     \<lparr>protocol_version = 0, data_expecting_reply = False, network_layer_message = False,
      priority = 0, network_message_type = 0, vendor_id = 0, hop_count = 0\<rparr>"

definition npdu_confirmed_service :: "bytes \<Rightarrow> nat \<Rightarrow> bool option" where
  "npdu_confirmed_service pdu pdu_len =
     (if 0 < pdu_len then do {
        b0 \<leftarrow> rd pdu 0;
        if b0 = BACNET_PROTOCOL_VERSION then do {
          (apdu_offset, _, _, n) \<leftarrow> bacnet_npdu_decode pdu pdu_len None None zero_npdu_data;
          if \<not> network_layer_message n \<and> 0 < apdu_offset \<and> apdu_offset < int pdu_len then do {
            b \<leftarrow> rd pdu (nat apdu_offset);
            Some (b AND 0xF0 = 0x00) }
          else Some False }
        else Some False }
      else Some False)"

section \<open>The decoder stays inside the buffer\<close>

lemma wp_decode_unsigned16: "2 \<le> length b \<Longrightarrow> (\<And>v. P (2, v)) \<Longrightarrow> wp (decode_unsigned16 b) P"
  by (auto simp: decode_unsigned16_def)

lemma npdu_decode_specifier_safe [safe_ops]:
  assumes "pdu_len \<le> length npdu" "pos \<le> pdu_len"
  shows "wp (npdu_decode_specifier npdu pdu_len pos a)
    (\<lambda>(ok, pos', net', a'). pos \<le> pos' \<and> pos' \<le> pdu_len)"
  using assms by (auto simp: npdu_decode_specifier_def Let_def intro!: wp_decode_unsigned16)

lemma npdu_decode_message_safe [safe_ops]:
  assumes "pdu_len \<le> length npdu" "pos \<le> pdu_len"
  shows "wp (npdu_decode_message npdu pdu_len pos n) (\<lambda>(pos', n'). pos \<le> pos' \<and> pos' \<le> pdu_len)"
  using assms by (auto simp: npdu_decode_message_def Let_def intro!: wp_decode_unsigned16)

lemma bacnet_npdu_decode_safe [safe_ops]:
  assumes "pdu_len \<le> length npdu"
  shows "wp (bacnet_npdu_decode npdu pdu_len dest src n)
    (\<lambda>(r, _). r = -1 \<or> 0 \<le> r \<and> r \<le> int pdu_len)"
  using assms
  by (auto simp: bacnet_npdu_decode_def npdu_decode_dest_def npdu_decode_src_def Let_def
      intro!: npdu_decode_specifier_safe [THEN wp_mono] npdu_decode_message_safe [THEN wp_mono])

lemma npdu_confirmed_service_safe:
  assumes "pdu_len \<le> length pdu"
  shows "wp (npdu_confirmed_service pdu pdu_len) (\<lambda>_. True)"
  using assms
  by (auto simp: npdu_confirmed_service_def intro!: bacnet_npdu_decode_safe [THEN wp_mono])

section \<open>Reading back what the encoder wrote\<close>

definition read_specifier :: "BACNET_ADDRESS \<Rightarrow> BACNET_ADDRESS \<Rightarrow> BACNET_ADDRESS" where
  "read_specifier a old = old\<lparr>net := net a, adr_len := adr_len a,
     adr := take (unat (adr_len a)) (adr a) @ drop (unat (adr_len a)) (adr old)\<rparr>"

definition received_npdu :: "bool \<Rightarrow> BACNET_NPDU_DATA \<Rightarrow> BACNET_NPDU_DATA \<Rightarrow> BACNET_NPDU_DATA" where
  "received_npdu routed n old = old\<lparr>protocol_version := protocol_version n,
     network_layer_message := network_layer_message n,
     data_expecting_reply := data_expecting_reply n,
     priority := priority n AND 0x03,
     hop_count := (if routed then hop_count n else 0),
     network_message_type :=
       (if network_layer_message n then network_message_type n else NETWORK_MESSAGE_INVALID),
     vendor_id :=
       (if network_layer_message n \<and> 0x80 \<le> network_message_type n then vendor_id n
        else vendor_id old)\<rparr>"

lemma length_npdu_specifier: "length (npdu_specifier a) = 3 + unat (adr_len a)"
  by (simp add: npdu_specifier_def)

lemma map_nth_prefix: "n \<le> length xs \<Longrightarrow> map (\<lambda>i. xs ! i) [0..<n] = take n xs"
  by (auto intro: nth_equalityI)

lemma npdu_decode_specifier_roundtrip:
  assumes "wf_address a" "unat (adr_len a) \<le> MAX_MAC_LEN"
    and "npdu = pre @ npdu_specifier a @ rest" "pos = length pre" "pdu_len = length npdu"
  shows "npdu_decode_specifier npdu pdu_len pos (Some old) =
     Some (True, pos + length (npdu_specifier a), net a, Some (read_specifier a old))"
proof -
  have adr: "length (adr a) = MAX_MAC_LEN" using assms(1) by (simp add: wf_address_def)
  then have spec: "npdu_specifier a
      = encode_unsigned16 (net a) @ adr_len a # take (unat (adr_len a)) (adr a)"
    using assms(2) by (simp add: npdu_specifier_def map_nth_prefix)
  have dec: "decode_unsigned16 (drop pos npdu) = Some (2, net a)"
    using assms by (simp add: spec unsigned16_roundtrip)
  have alen: "rd npdu (pos + 2) = Some (adr_len a)"
    using assms(3,4) by (simp add: spec rd_def nth_append)
  have oct: "read_at npdu (pos + 3) (unat (adr_len a)) = Some (take (unat (adr_len a)) (adr a))"
    using assms adr by (simp add: spec read_at_def)
  have plen: "pdu_len = pos + 3 + unat (adr_len a) + length rest"
    using assms(3-5) by (simp add: length_npdu_specifier)
  show ?thesis
    using assms(2) dec alen oct plen
    by (simp add: npdu_decode_specifier_def length_npdu_specifier read_specifier_def Let_def
        unat_eq_0 eval_nat_numeral)
qed

lemma npdu_control_bits:
  "bit (npdu_control r s n) 7 = network_layer_message n"
  "bit (npdu_control r s n) 5 = r"
  "bit (npdu_control r s n) 3 = s"
  "bit (npdu_control r s n) 2 = data_expecting_reply n"
  "ucast (npdu_control r s n AND 0x03) = priority n AND 0x03"
proof -
  have "npdu_control r s n AND 0x03 = ucast (priority n) AND 0x03"
    by (simp add: npdu_control_def bit.conj_disj_distrib2)
  then show "ucast (npdu_control r s n AND 0x03) = priority n AND 0x03"
    by (auto simp: and_3 bit_simps intro!: bit_word_eqI)
qed (auto simp: npdu_control_def bit_simps)

lemma npdu_decode_message_roundtrip:
  assumes "network_layer_message n \<Longrightarrow> network_message_type n < 0x100"
    and "npdu = pre @ npdu_message n @ rest" "pos = length pre" "pdu_len = length npdu"
    and "network_layer_message m = network_layer_message n"
  shows "npdu_decode_message npdu pdu_len pos m =
    Some (pos + length (npdu_message n),
      m\<lparr>network_message_type :=
          (if network_layer_message n then network_message_type n else NETWORK_MESSAGE_INVALID),
        vendor_id := (if network_layer_message n \<and> 0x80 \<le> network_message_type n
          then vendor_id n else vendor_id m)\<rparr>)"
proof -
  have u: "network_message_type n < 0x100 \<Longrightarrow>
      ucast (ucast (network_message_type n) :: u8) = network_message_type n"
    by (rule ucast_ucast_small) (simp add: word_less_nat_alt)
  show ?thesis using assms
    by (auto simp: npdu_decode_message_def npdu_message_def Let_def u nth_append rd_def
        unsigned16_roundtrip)
qed

lemma wf_clamp_adr_len [simp]:
  "wf_address (clamp_adr_len a) = wf_address a"
  "unat (adr_len (clamp_adr_len a)) \<le> MAX_MAC_LEN"
  "net (clamp_adr_len a) = net a"
  by (auto simp: clamp_adr_len_def wf_address_def MAX_MAC_LEN_def)

definition dest_field :: "BACNET_ADDRESS \<Rightarrow> bytes" where
  "dest_field d = (if net d \<noteq> 0 then npdu_specifier (clamp_adr_len d) else [])"

definition src_field :: "BACNET_ADDRESS \<Rightarrow> bytes" where
  "src_field s = (if net s \<noteq> 0 \<and> adr_len s \<noteq> 0 then npdu_specifier (clamp_adr_len s) else [])"

definition received_dest :: "BACNET_ADDRESS \<Rightarrow> BACNET_ADDRESS \<Rightarrow> BACNET_ADDRESS" where
  "received_dest d old =
     (if net d \<noteq> 0 then read_specifier (clamp_adr_len d) old
      else old\<lparr>net := 0, adr_len := 0, adr := replicate MAX_MAC_LEN 0\<rparr>)"

definition received_src :: "BACNET_ADDRESS \<Rightarrow> BACNET_ADDRESS \<Rightarrow> BACNET_ADDRESS" where
  "received_src s old =
     (if net s \<noteq> 0 \<and> adr_len s \<noteq> 0 then read_specifier (clamp_adr_len s) old
      else old\<lparr>net := (if net old \<noteq> BACNET_BROADCAST_NETWORK then 0 else net old),
               adr_len := 0, adr := replicate MAX_MAC_LEN 0\<rparr>)"

lemma npdu_encode_pdu_bytes:
  "fst (npdu_encode_pdu (Some d) (Some s) n) =
     [protocol_version n, npdu_control (net d \<noteq> 0) (net s \<noteq> 0 \<and> adr_len s \<noteq> 0) n]
     @ dest_field d @ src_field s @ (if net d \<noteq> 0 then [hop_count n] else []) @ npdu_message n"
  by (simp add: npdu_encode_pdu_def has_dest_def has_src_def dest_field_def src_field_def Let_def)

lemma npdu_decode_dest_roundtrip:
  assumes "wf_address d" "bit control 5 \<longleftrightarrow> net d \<noteq> 0"
    and "npdu = pre @ dest_field d @ rest" "length pre = 2" "pdu_len = length npdu"
  shows "npdu_decode_dest npdu pdu_len control (Some old) =
    Some (True, 2 + length (dest_field d), net d, Some (received_dest d old))"
proof (cases "net d = 0")
  case False
  then have "npdu_decode_specifier npdu pdu_len 2 (Some old)
     = Some (True, 2 + length (npdu_specifier (clamp_adr_len d)), net (clamp_adr_len d),
         Some (read_specifier (clamp_adr_len d) old))"
    using assms by (intro npdu_decode_specifier_roundtrip) (auto simp: dest_field_def)
  with False assms(2) show ?thesis
    by (simp add: npdu_decode_dest_def dest_field_def received_dest_def)
qed (use assms(2) in \<open>simp add: npdu_decode_dest_def dest_field_def received_dest_def\<close>)

lemma npdu_decode_src_roundtrip:
  assumes "wf_address s" "bit control 3 \<longleftrightarrow> net s \<noteq> 0 \<and> adr_len s \<noteq> 0"
    and "npdu = pre @ src_field s @ rest" "pos = length pre" "pdu_len = length npdu"
  shows "\<exists>net'. npdu_decode_src npdu pdu_len control pos (Some old) =
    Some (True, pos + length (src_field s), net', Some (received_src s old))"
proof (cases "net s \<noteq> 0 \<and> adr_len s \<noteq> 0")
  case True
  then have "npdu_decode_specifier npdu pdu_len pos (Some old)
     = Some (True, pos + length (npdu_specifier (clamp_adr_len s)), net (clamp_adr_len s),
         Some (read_specifier (clamp_adr_len s) old))"
    using assms by (intro npdu_decode_specifier_roundtrip) (auto simp: src_field_def)
  with True assms(2) show ?thesis
    by (simp add: npdu_decode_src_def src_field_def received_src_def)
qed (use assms(2) in \<open>auto simp: npdu_decode_src_def src_field_def received_src_def\<close>)

lemma npdu_decode_encode:
  assumes wf: "wf_address d" "wf_address s"
    and ty: "network_layer_message n \<Longrightarrow> network_message_type n < 0x100"
    and bs: "bs = fst (npdu_encode_pdu (Some d) (Some s) n)"
  shows "bacnet_npdu_decode (bs @ apdu) (length (bs @ apdu)) (Some d0) (Some s0) n0 =
    Some (int (length bs), Some (received_dest d d0), Some (received_src s s0),
      received_npdu (net d \<noteq> 0) n n0)"
proof -
  define q where "q = (net s \<noteq> 0 \<and> adr_len s \<noteq> 0)"
  define c where "c = npdu_control (net d \<noteq> 0) q n"
  define fh where "fh = (if net d \<noteq> 0 then [hop_count n] else [])"
  define npdu where "npdu = bs @ apdu"
  define p where "p = 2 + length (dest_field d) + length (src_field s)"
  have eq: "npdu = [protocol_version n, c] @ dest_field d @ src_field s @ fh @ npdu_message n @ apdu"
    and len_bs: "length bs = p + length fh + length (npdu_message n)"
    by (simp_all add: npdu_def bs npdu_encode_pdu_bytes c_def q_def fh_def p_def)
  have b: "rd npdu 0 = Some (protocol_version n)" "rd npdu 1 = Some c" by (simp_all add: eq)
  have dest: "npdu_decode_dest npdu (length npdu) c (Some d0) =
      Some (True, 2 + length (dest_field d), net d, Some (received_dest d d0))"
    using wf(1) by (rule npdu_decode_dest_roundtrip [OF _ _ eq])
      (simp_all add: c_def npdu_control_bits)
  obtain net' where src: "npdu_decode_src npdu (length npdu) c (2 + length (dest_field d)) (Some s0)
      = Some (True, p, net', Some (received_src s s0))"
    using npdu_decode_src_roundtrip [OF wf(2), of c npdu "[protocol_version n, c] @ dest_field d"
        "fh @ npdu_message n @ apdu" "2 + length (dest_field d)" "length npdu" s0]
    by (auto simp: eq c_def npdu_control_bits q_def p_def)
  have hop: "net d \<noteq> 0 \<Longrightarrow> rd npdu p = Some (hop_count n) \<and> p < length npdu"
    by (simp add: eq fh_def rd_def p_def nth_append)
  have msg: "\<And>m. network_layer_message m = network_layer_message n \<Longrightarrow>
      npdu_decode_message npdu (length npdu) (p + length fh) m
      = Some (length bs, m\<lparr>network_message_type :=
          (if network_layer_message n then network_message_type n else NETWORK_MESSAGE_INVALID),
        vendor_id := (if network_layer_message n \<and> 0x80 \<le> network_message_type n
          then vendor_id n else vendor_id m)\<rparr>)"
    unfolding len_bs
    by (rule npdu_decode_message_roundtrip
        [OF ty, of _ "[protocol_version n, c] @ dest_field d @ src_field s @ fh" apdu])
      (simp_all add: eq p_def)
  have two: "2 \<le> length npdu" by (simp add: eq)
  show ?thesis unfolding npdu_def [symmetric]
    using two b dest src hop msg
    by (auto simp: bacnet_npdu_decode_def Let_def fh_def received_npdu_def c_def npdu_control_bits)
qed

end
