(* ===== verification/Bac_Pdu.thy ===== *)
theory Bac_Pdu
  imports Bac_Npdu
begin

text \<open>
  The fixed parts of the application PDUs: the octet that carries max-segments-accepted and
  max-APDU-length-accepted (\<^verbatim>\<open>bacdcode.c\<close>), SegmentACK (\<^verbatim>\<open>segmentack.c\<close>), Abort
  (\<^verbatim>\<open>abort.c\<close>), Reject (\<^verbatim>\<open>reject.c\<close>), and the headers of ConfirmedRequest and ComplexACK
  (\<^verbatim>\<open>apdu.h\<close>, \<^verbatim>\<open>h_apdu.c\<close>). Shown here: each decoder recovers what its encoder wrote, the
  request decoder stays inside the buffer, and the translation between error codes and
  abort or reject reasons loses nothing on the reasons the standard names.
\<close>

section \<open>Configuration and enumerations\<close>

definition MAX_APDU :: nat where "MAX_APDU = 1476"
definition MAX_SEGMENTS_ACCEPTED :: nat where "MAX_SEGMENTS_ACCEPTED = 25"
definition MAX_PDU :: nat where "MAX_PDU = MAX_APDU * MAX_SEGMENTS_ACCEPTED + MAX_NPDU"

abbreviation (input) PDU_TYPE_CONFIRMED_SERVICE_REQUEST :: u8 where "PDU_TYPE_CONFIRMED_SERVICE_REQUEST \<equiv> 0x00"
abbreviation (input) PDU_TYPE_UNCONFIRMED_SERVICE_REQUEST :: u8 where "PDU_TYPE_UNCONFIRMED_SERVICE_REQUEST \<equiv> 0x10"
abbreviation (input) PDU_TYPE_SIMPLE_ACK :: u8 where "PDU_TYPE_SIMPLE_ACK \<equiv> 0x20"
abbreviation (input) PDU_TYPE_COMPLEX_ACK :: u8 where "PDU_TYPE_COMPLEX_ACK \<equiv> 0x30"
abbreviation (input) PDU_TYPE_SEGMENT_ACK :: u8 where "PDU_TYPE_SEGMENT_ACK \<equiv> 0x40"
abbreviation (input) PDU_TYPE_ERROR :: u8 where "PDU_TYPE_ERROR \<equiv> 0x50"
abbreviation (input) PDU_TYPE_REJECT :: u8 where "PDU_TYPE_REJECT \<equiv> 0x60"
abbreviation (input) PDU_TYPE_ABORT :: u8 where "PDU_TYPE_ABORT \<equiv> 0x70"

abbreviation (input) ABORT_REASON_OTHER :: int where "ABORT_REASON_OTHER \<equiv> 0"
abbreviation (input) ABORT_REASON_BUFFER_OVERFLOW :: int where "ABORT_REASON_BUFFER_OVERFLOW \<equiv> 1"
abbreviation (input) ABORT_REASON_INVALID_APDU_IN_THIS_STATE :: int where "ABORT_REASON_INVALID_APDU_IN_THIS_STATE \<equiv> 2"
abbreviation (input) ABORT_REASON_PREEMPTED_BY_HIGHER_PRIORITY_TASK :: int where "ABORT_REASON_PREEMPTED_BY_HIGHER_PRIORITY_TASK \<equiv> 3"
abbreviation (input) ABORT_REASON_SEGMENTATION_NOT_SUPPORTED :: int where "ABORT_REASON_SEGMENTATION_NOT_SUPPORTED \<equiv> 4"
abbreviation (input) ABORT_REASON_SECURITY_ERROR :: int where "ABORT_REASON_SECURITY_ERROR \<equiv> 5"
abbreviation (input) ABORT_REASON_INSUFFICIENT_SECURITY :: int where "ABORT_REASON_INSUFFICIENT_SECURITY \<equiv> 6"
abbreviation (input) ABORT_REASON_WINDOW_SIZE_OUT_OF_RANGE :: int where "ABORT_REASON_WINDOW_SIZE_OUT_OF_RANGE \<equiv> 7"
abbreviation (input) ABORT_REASON_APPLICATION_EXCEEDED_REPLY_TIME :: int where "ABORT_REASON_APPLICATION_EXCEEDED_REPLY_TIME \<equiv> 8"
abbreviation (input) ABORT_REASON_OUT_OF_RESOURCES :: int where "ABORT_REASON_OUT_OF_RESOURCES \<equiv> 9"
abbreviation (input) ABORT_REASON_TSM_TIMEOUT :: int where "ABORT_REASON_TSM_TIMEOUT \<equiv> 10"
abbreviation (input) ABORT_REASON_APDU_TOO_LONG :: int where "ABORT_REASON_APDU_TOO_LONG \<equiv> 11"
abbreviation (input) ABORT_REASON_PROPRIETARY_FIRST :: int where "ABORT_REASON_PROPRIETARY_FIRST \<equiv> 64"

abbreviation (input) ERROR_CODE_ABORT_BUFFER_OVERFLOW :: int where "ERROR_CODE_ABORT_BUFFER_OVERFLOW \<equiv> 51"
abbreviation (input) ERROR_CODE_ABORT_INVALID_APDU_IN_THIS_STATE :: int where "ERROR_CODE_ABORT_INVALID_APDU_IN_THIS_STATE \<equiv> 52"
abbreviation (input) ERROR_CODE_ABORT_PREEMPTED_BY_HIGHER_PRIORITY_TASK :: int where "ERROR_CODE_ABORT_PREEMPTED_BY_HIGHER_PRIORITY_TASK \<equiv> 53"
abbreviation (input) ERROR_CODE_ABORT_SEGMENTATION_NOT_SUPPORTED :: int where "ERROR_CODE_ABORT_SEGMENTATION_NOT_SUPPORTED \<equiv> 54"
abbreviation (input) ERROR_CODE_ABORT_PROPRIETARY :: int where "ERROR_CODE_ABORT_PROPRIETARY \<equiv> 55"
abbreviation (input) ERROR_CODE_ABORT_OTHER :: int where "ERROR_CODE_ABORT_OTHER \<equiv> 56"
abbreviation (input) ERROR_CODE_ABORT_APDU_TOO_LONG :: int where "ERROR_CODE_ABORT_APDU_TOO_LONG \<equiv> 123"
abbreviation (input) ERROR_CODE_ABORT_APPLICATION_EXCEEDED_REPLY_TIME :: int where "ERROR_CODE_ABORT_APPLICATION_EXCEEDED_REPLY_TIME \<equiv> 124"
abbreviation (input) ERROR_CODE_ABORT_OUT_OF_RESOURCES :: int where "ERROR_CODE_ABORT_OUT_OF_RESOURCES \<equiv> 125"
abbreviation (input) ERROR_CODE_ABORT_TSM_TIMEOUT :: int where "ERROR_CODE_ABORT_TSM_TIMEOUT \<equiv> 126"
abbreviation (input) ERROR_CODE_ABORT_WINDOW_SIZE_OUT_OF_RANGE :: int where "ERROR_CODE_ABORT_WINDOW_SIZE_OUT_OF_RANGE \<equiv> 127"
abbreviation (input) ERROR_CODE_ABORT_INSUFFICIENT_SECURITY :: int where "ERROR_CODE_ABORT_INSUFFICIENT_SECURITY \<equiv> 135"
abbreviation (input) ERROR_CODE_ABORT_SECURITY_ERROR :: int where "ERROR_CODE_ABORT_SECURITY_ERROR \<equiv> 136"

abbreviation (input) REJECT_REASON_OTHER :: int where "REJECT_REASON_OTHER \<equiv> 0"
abbreviation (input) REJECT_REASON_BUFFER_OVERFLOW :: int where "REJECT_REASON_BUFFER_OVERFLOW \<equiv> 1"
abbreviation (input) REJECT_REASON_INCONSISTENT_PARAMETERS :: int where "REJECT_REASON_INCONSISTENT_PARAMETERS \<equiv> 2"
abbreviation (input) REJECT_REASON_INVALID_PARAMETER_DATA_TYPE :: int where "REJECT_REASON_INVALID_PARAMETER_DATA_TYPE \<equiv> 3"
abbreviation (input) REJECT_REASON_INVALID_TAG :: int where "REJECT_REASON_INVALID_TAG \<equiv> 4"
abbreviation (input) REJECT_REASON_MISSING_REQUIRED_PARAMETER :: int where "REJECT_REASON_MISSING_REQUIRED_PARAMETER \<equiv> 5"
abbreviation (input) REJECT_REASON_PARAMETER_OUT_OF_RANGE :: int where "REJECT_REASON_PARAMETER_OUT_OF_RANGE \<equiv> 6"
abbreviation (input) REJECT_REASON_TOO_MANY_ARGUMENTS :: int where "REJECT_REASON_TOO_MANY_ARGUMENTS \<equiv> 7"
abbreviation (input) REJECT_REASON_UNDEFINED_ENUMERATION :: int where "REJECT_REASON_UNDEFINED_ENUMERATION \<equiv> 8"
abbreviation (input) REJECT_REASON_UNRECOGNIZED_SERVICE :: int where "REJECT_REASON_UNRECOGNIZED_SERVICE \<equiv> 9"
abbreviation (input) REJECT_REASON_INVALID_DATA_ENCODING :: int where "REJECT_REASON_INVALID_DATA_ENCODING \<equiv> 10"
abbreviation (input) REJECT_REASON_PROPRIETARY_FIRST :: int where "REJECT_REASON_PROPRIETARY_FIRST \<equiv> 64"

abbreviation (input) ERROR_CODE_REJECT_BUFFER_OVERFLOW :: int where "ERROR_CODE_REJECT_BUFFER_OVERFLOW \<equiv> 59"
abbreviation (input) ERROR_CODE_REJECT_INCONSISTENT_PARAMETERS :: int where "ERROR_CODE_REJECT_INCONSISTENT_PARAMETERS \<equiv> 60"
abbreviation (input) ERROR_CODE_REJECT_INVALID_PARAMETER_DATA_TYPE :: int where "ERROR_CODE_REJECT_INVALID_PARAMETER_DATA_TYPE \<equiv> 61"
abbreviation (input) ERROR_CODE_REJECT_INVALID_TAG :: int where "ERROR_CODE_REJECT_INVALID_TAG \<equiv> 62"
abbreviation (input) ERROR_CODE_REJECT_MISSING_REQUIRED_PARAMETER :: int where "ERROR_CODE_REJECT_MISSING_REQUIRED_PARAMETER \<equiv> 63"
abbreviation (input) ERROR_CODE_REJECT_PARAMETER_OUT_OF_RANGE :: int where "ERROR_CODE_REJECT_PARAMETER_OUT_OF_RANGE \<equiv> 64"
abbreviation (input) ERROR_CODE_REJECT_TOO_MANY_ARGUMENTS :: int where "ERROR_CODE_REJECT_TOO_MANY_ARGUMENTS \<equiv> 65"
abbreviation (input) ERROR_CODE_REJECT_UNDEFINED_ENUMERATION :: int where "ERROR_CODE_REJECT_UNDEFINED_ENUMERATION \<equiv> 66"
abbreviation (input) ERROR_CODE_REJECT_UNRECOGNIZED_SERVICE :: int where "ERROR_CODE_REJECT_UNRECOGNIZED_SERVICE \<equiv> 67"
abbreviation (input) ERROR_CODE_REJECT_PROPRIETARY :: int where "ERROR_CODE_REJECT_PROPRIETARY \<equiv> 68"
abbreviation (input) ERROR_CODE_REJECT_OTHER :: int where "ERROR_CODE_REJECT_OTHER \<equiv> 69"
abbreviation (input) ERROR_CODE_INVALID_DATA_ENCODING :: int where "ERROR_CODE_INVALID_DATA_ENCODING \<equiv> 142"

section \<open>max-segments-accepted and max-APDU-length-accepted\<close>

definition encode_max_segs_max_apdu :: "int \<Rightarrow> int \<Rightarrow> u8" where
  "encode_max_segs_max_apdu max_segs max_apdu =
     (if max_segs < 2 then 0
      else if max_segs < 4 then 0x10
      else if max_segs < 8 then 0x20
      else if max_segs < 16 then 0x30
      else if max_segs < 32 then 0x40
      else if max_segs < 64 then 0x50
      else if max_segs = 64 then 0x60
      else 0x70) OR
     (if max_apdu \<le> 50 then 0x00
      else if max_apdu \<le> 128 then 0x01
      else if max_apdu \<le> 206 then 0x02
      else if max_apdu \<le> 480 then 0x03
      else if max_apdu \<le> 1024 then 0x04
      else if max_apdu \<le> 1476 then 0x05
      else 0x00)"

definition decode_max_segs :: "u8 \<Rightarrow> int" where
  "decode_max_segs octet =
     (let n = octet AND 0xF0 in
      if n = 0 then 0
      else if n = 0x10 then 2
      else if n = 0x20 then 4
      else if n = 0x30 then 8
      else if n = 0x40 then 16
      else if n = 0x50 then 32
      else if n = 0x60 then 64
      else if n = 0x70 then 65
      else 0)"

definition decode_max_apdu :: "u8 \<Rightarrow> int" where
  "decode_max_apdu octet =
     (let n = octet AND 0x0F in
      if n = 0 then 50
      else if n = 1 then 128
      else if n = 2 then 206
      else if n = 3 then 480
      else if n = 4 then 1024
      else if n = 5 then 1476
      else 0)"

definition encode_simple_ack :: "u8 \<Rightarrow> u8 \<Rightarrow> bytes" where
  "encode_simple_ack invoke_id service_choice = [PDU_TYPE_SIMPLE_ACK, invoke_id, service_choice]"

section \<open>SegmentACK\<close>

definition segmentack_encode_apdu :: "bool \<Rightarrow> bool \<Rightarrow> u8 \<Rightarrow> u8 \<Rightarrow> u8 \<Rightarrow> bytes" where
  "segmentack_encode_apdu negativeack server invoke_id sequence_number actual_window_size =
     (let server_code = (if server then 0x01 else 0x00);
          nak_code = (if negativeack then 0x02 else 0x00)
      in [PDU_TYPE_SEGMENT_ACK OR server_code OR nak_code,
          invoke_id, sequence_number, actual_window_size])"

text \<open>
  The decoder stores nothing when fewer than three octets are given: its result is the return
  value and the three values, if stored.
\<close>

definition segmentack_decode_service_request :: "bytes \<Rightarrow> nat \<Rightarrow> (nat \<times> (u8 \<times> u8 \<times> u8) option) option"
where
  "segmentack_decode_service_request apdu apdu_len =
     (if 3 \<le> apdu_len then do {
        invoke_id \<leftarrow> rd apdu 0;
        sequence_number \<leftarrow> rd apdu 1;
        actual_window_size \<leftarrow> rd apdu 2;
        Some (0, Some (invoke_id, sequence_number, actual_window_size)) }
      else Some (0, None))"

section \<open>Abort\<close>

definition abort_convert_error_code :: "int \<Rightarrow> int" where
  "abort_convert_error_code error_code =
     (if error_code = ERROR_CODE_ABORT_BUFFER_OVERFLOW then ABORT_REASON_BUFFER_OVERFLOW
      else if error_code = ERROR_CODE_ABORT_INVALID_APDU_IN_THIS_STATE
      then ABORT_REASON_INVALID_APDU_IN_THIS_STATE
      else if error_code = ERROR_CODE_ABORT_PREEMPTED_BY_HIGHER_PRIORITY_TASK
      then ABORT_REASON_PREEMPTED_BY_HIGHER_PRIORITY_TASK
      else if error_code = ERROR_CODE_ABORT_SEGMENTATION_NOT_SUPPORTED
      then ABORT_REASON_SEGMENTATION_NOT_SUPPORTED
      else if error_code = ERROR_CODE_ABORT_SECURITY_ERROR then ABORT_REASON_SECURITY_ERROR
      else if error_code = ERROR_CODE_ABORT_INSUFFICIENT_SECURITY
      then ABORT_REASON_INSUFFICIENT_SECURITY
      else if error_code = ERROR_CODE_ABORT_WINDOW_SIZE_OUT_OF_RANGE
      then ABORT_REASON_WINDOW_SIZE_OUT_OF_RANGE
      else if error_code = ERROR_CODE_ABORT_APPLICATION_EXCEEDED_REPLY_TIME
      then ABORT_REASON_APPLICATION_EXCEEDED_REPLY_TIME
      else if error_code = ERROR_CODE_ABORT_OUT_OF_RESOURCES then ABORT_REASON_OUT_OF_RESOURCES
      else if error_code = ERROR_CODE_ABORT_TSM_TIMEOUT then ABORT_REASON_TSM_TIMEOUT
      else if error_code = ERROR_CODE_ABORT_APDU_TOO_LONG then ABORT_REASON_APDU_TOO_LONG
      else if error_code = ERROR_CODE_ABORT_PROPRIETARY then ABORT_REASON_PROPRIETARY_FIRST
      else ABORT_REASON_OTHER)"

definition abort_valid_error_code :: "int \<Rightarrow> bool" where
  "abort_valid_error_code error_code =
     (error_code \<in> set [ERROR_CODE_ABORT_OTHER, ERROR_CODE_ABORT_BUFFER_OVERFLOW,
        ERROR_CODE_ABORT_INVALID_APDU_IN_THIS_STATE,
        ERROR_CODE_ABORT_PREEMPTED_BY_HIGHER_PRIORITY_TASK,
        ERROR_CODE_ABORT_SEGMENTATION_NOT_SUPPORTED, ERROR_CODE_ABORT_SECURITY_ERROR,
        ERROR_CODE_ABORT_INSUFFICIENT_SECURITY, ERROR_CODE_ABORT_WINDOW_SIZE_OUT_OF_RANGE,
        ERROR_CODE_ABORT_APPLICATION_EXCEEDED_REPLY_TIME, ERROR_CODE_ABORT_OUT_OF_RESOURCES,
        ERROR_CODE_ABORT_TSM_TIMEOUT, ERROR_CODE_ABORT_APDU_TOO_LONG,
        ERROR_CODE_ABORT_PROPRIETARY])"

definition abort_convert_to_error_code :: "int \<Rightarrow> int" where
  "abort_convert_to_error_code abort_code =
     (if abort_code = ABORT_REASON_OTHER then ERROR_CODE_ABORT_OTHER
      else if abort_code = ABORT_REASON_BUFFER_OVERFLOW then ERROR_CODE_ABORT_BUFFER_OVERFLOW
      else if abort_code = ABORT_REASON_INVALID_APDU_IN_THIS_STATE
      then ERROR_CODE_ABORT_INVALID_APDU_IN_THIS_STATE
      else if abort_code = ABORT_REASON_PREEMPTED_BY_HIGHER_PRIORITY_TASK
      then ERROR_CODE_ABORT_PREEMPTED_BY_HIGHER_PRIORITY_TASK
      else if abort_code = ABORT_REASON_SEGMENTATION_NOT_SUPPORTED
      then ERROR_CODE_ABORT_SEGMENTATION_NOT_SUPPORTED
      else if abort_code = ABORT_REASON_SECURITY_ERROR then ERROR_CODE_ABORT_SECURITY_ERROR
      else if abort_code = ABORT_REASON_INSUFFICIENT_SECURITY
      then ERROR_CODE_ABORT_INSUFFICIENT_SECURITY
      else if abort_code = ABORT_REASON_WINDOW_SIZE_OUT_OF_RANGE
      then ERROR_CODE_ABORT_WINDOW_SIZE_OUT_OF_RANGE
      else if abort_code = ABORT_REASON_APPLICATION_EXCEEDED_REPLY_TIME
      then ERROR_CODE_ABORT_APPLICATION_EXCEEDED_REPLY_TIME
      else if abort_code = ABORT_REASON_OUT_OF_RESOURCES then ERROR_CODE_ABORT_OUT_OF_RESOURCES
      else if abort_code = ABORT_REASON_TSM_TIMEOUT then ERROR_CODE_ABORT_TSM_TIMEOUT
      else if abort_code = ABORT_REASON_APDU_TOO_LONG then ERROR_CODE_ABORT_APDU_TOO_LONG
      else if ABORT_REASON_PROPRIETARY_FIRST \<le> abort_code then ERROR_CODE_ABORT_PROPRIETARY
      else ERROR_CODE_ABORT_OTHER)"

definition abort_encode_apdu :: "u8 \<Rightarrow> u8 \<Rightarrow> bool \<Rightarrow> bytes" where
  "abort_encode_apdu invoke_id abort_reason server =
     [if server then PDU_TYPE_ABORT OR 1 else PDU_TYPE_ABORT, invoke_id, abort_reason]"

definition abort_decode_service_request :: "bytes \<Rightarrow> nat \<Rightarrow> (nat \<times> u8 option \<times> u8 option) option"
where
  "abort_decode_service_request apdu apdu_len =
     (if 0 < apdu_len then do {
        invoke_id \<leftarrow> rd apdu 0;
        if 1 < apdu_len then do {
          abort_reason \<leftarrow> rd apdu 1;
          Some (2, Some invoke_id, Some abort_reason) }
        else Some (1, Some invoke_id, None) }
      else Some (0, None, None))"

section \<open>Reject\<close>

definition reject_convert_error_code :: "int \<Rightarrow> int" where
  "reject_convert_error_code error_code =
     (if error_code = ERROR_CODE_REJECT_BUFFER_OVERFLOW then REJECT_REASON_BUFFER_OVERFLOW
      else if error_code = ERROR_CODE_REJECT_INCONSISTENT_PARAMETERS
      then REJECT_REASON_INCONSISTENT_PARAMETERS
      else if error_code = ERROR_CODE_REJECT_INVALID_PARAMETER_DATA_TYPE
      then REJECT_REASON_INVALID_PARAMETER_DATA_TYPE
      else if error_code = ERROR_CODE_REJECT_INVALID_TAG then REJECT_REASON_INVALID_TAG
      else if error_code = ERROR_CODE_REJECT_MISSING_REQUIRED_PARAMETER
      then REJECT_REASON_MISSING_REQUIRED_PARAMETER
      else if error_code = ERROR_CODE_REJECT_PARAMETER_OUT_OF_RANGE
      then REJECT_REASON_PARAMETER_OUT_OF_RANGE
      else if error_code = ERROR_CODE_REJECT_TOO_MANY_ARGUMENTS
      then REJECT_REASON_TOO_MANY_ARGUMENTS
      else if error_code = ERROR_CODE_REJECT_UNDEFINED_ENUMERATION
      then REJECT_REASON_UNDEFINED_ENUMERATION
      else if error_code = ERROR_CODE_REJECT_UNRECOGNIZED_SERVICE
      then REJECT_REASON_UNRECOGNIZED_SERVICE
      else if error_code = ERROR_CODE_INVALID_DATA_ENCODING
      then REJECT_REASON_INVALID_DATA_ENCODING
      else if error_code = ERROR_CODE_REJECT_PROPRIETARY then REJECT_REASON_PROPRIETARY_FIRST
      else REJECT_REASON_OTHER)"

definition reject_valid_error_code :: "int \<Rightarrow> bool" where
  "reject_valid_error_code error_code =
     (error_code \<in> set [ERROR_CODE_REJECT_OTHER, ERROR_CODE_REJECT_BUFFER_OVERFLOW,
        ERROR_CODE_REJECT_INCONSISTENT_PARAMETERS, ERROR_CODE_REJECT_INVALID_PARAMETER_DATA_TYPE,
        ERROR_CODE_REJECT_INVALID_TAG, ERROR_CODE_REJECT_MISSING_REQUIRED_PARAMETER,
        ERROR_CODE_REJECT_PARAMETER_OUT_OF_RANGE, ERROR_CODE_REJECT_TOO_MANY_ARGUMENTS,
        ERROR_CODE_REJECT_UNDEFINED_ENUMERATION, ERROR_CODE_REJECT_UNRECOGNIZED_SERVICE,
        ERROR_CODE_INVALID_DATA_ENCODING, ERROR_CODE_REJECT_PROPRIETARY])"

definition reject_convert_to_error_code :: "int \<Rightarrow> int" where
  "reject_convert_to_error_code reject_code =
     (if reject_code = REJECT_REASON_OTHER then ERROR_CODE_REJECT_OTHER
      else if reject_code = REJECT_REASON_BUFFER_OVERFLOW then ERROR_CODE_REJECT_BUFFER_OVERFLOW
      else if reject_code = REJECT_REASON_INCONSISTENT_PARAMETERS
      then ERROR_CODE_REJECT_INCONSISTENT_PARAMETERS
      else if reject_code = REJECT_REASON_INVALID_PARAMETER_DATA_TYPE
      then ERROR_CODE_REJECT_INVALID_PARAMETER_DATA_TYPE
      else if reject_code = REJECT_REASON_INVALID_TAG then ERROR_CODE_REJECT_INVALID_TAG
      else if reject_code = REJECT_REASON_MISSING_REQUIRED_PARAMETER
      then ERROR_CODE_REJECT_MISSING_REQUIRED_PARAMETER
      else if reject_code = REJECT_REASON_PARAMETER_OUT_OF_RANGE
      then ERROR_CODE_REJECT_PARAMETER_OUT_OF_RANGE
      else if reject_code = REJECT_REASON_TOO_MANY_ARGUMENTS
      then ERROR_CODE_REJECT_TOO_MANY_ARGUMENTS
      else if reject_code = REJECT_REASON_UNDEFINED_ENUMERATION
      then ERROR_CODE_REJECT_UNDEFINED_ENUMERATION
      else if reject_code = REJECT_REASON_UNRECOGNIZED_SERVICE
      then ERROR_CODE_REJECT_UNRECOGNIZED_SERVICE
      else if reject_code = REJECT_REASON_INVALID_DATA_ENCODING
      then ERROR_CODE_INVALID_DATA_ENCODING
      else if REJECT_REASON_PROPRIETARY_FIRST \<le> reject_code then ERROR_CODE_REJECT_PROPRIETARY
      else ERROR_CODE_REJECT_OTHER)"

definition reject_encode_apdu :: "u8 \<Rightarrow> u8 \<Rightarrow> bytes" where
  "reject_encode_apdu invoke_id reject_reason = [PDU_TYPE_REJECT, invoke_id, reject_reason]"

definition reject_decode_service_request :: "bytes \<Rightarrow> nat \<Rightarrow> (nat \<times> (u8 \<times> u8) option) option"
where
  "reject_decode_service_request apdu apdu_len =
     (if apdu_len \<noteq> 0 then do {
        invoke_id \<leftarrow> rd apdu 0;
        reject_reason \<leftarrow> (if 1 < apdu_len then rd apdu 1 else Some 0);
        Some (0, Some (invoke_id, reject_reason)) }
      else Some (0, None))"

text \<open>
  The SegmentACK, Abort and Reject encoders return 0 when given NULL; every caller passes a
  buffer, and the definitions above are that call.
\<close>

section \<open>The headers of ConfirmedRequest and ComplexACK\<close>

record BACNET_CONFIRMED_SERVICE_DATA =
  segmented_message :: bool
  more_follows :: bool
  segmented_response_accepted :: bool
  max_segs :: int
  max_resp :: int
  invoke_id :: u8
  sequence_number :: u8
  proposed_window_number :: u8
  service_priority :: u8

record BACNET_CONFIRMED_SERVICE_ACK_DATA =
  ack_segmented_message :: bool
  ack_more_follows :: bool
  ack_invoke_id :: u8
  ack_sequence_number :: u8
  ack_proposed_window_number :: u8

text \<open>
  \<^verbatim>\<open>BACNET_APDU_FIXED_HEADER\<close> holds a union of the two records. The two flags are the common
  initial sequence of both members; \<^verbatim>\<open>common_data\<close> has the type of the acknowledgement, so
  its remaining fields are those of \<open>Ack_Data\<close> and lie over unrelated bytes of a request.
  An access through the wrong member is \<open>None\<close>.
\<close>

datatype apdu_service_data =
    Request_Data BACNET_CONFIRMED_SERVICE_DATA
  | Ack_Data BACNET_CONFIRMED_SERVICE_ACK_DATA

record BACNET_APDU_FIXED_HEADER =
  pdu_type :: u8
  service_data :: apdu_service_data
  service_choice :: u8

definition zero_service_data :: BACNET_CONFIRMED_SERVICE_DATA where
  "zero_service_data = \<lparr>segmented_message = False, more_follows = False,
     segmented_response_accepted = False, max_segs = 0, max_resp = 0, invoke_id = 0,
     sequence_number = 0, proposed_window_number = 0, service_priority = 0\<rparr>"

definition zero_ack_data :: BACNET_CONFIRMED_SERVICE_ACK_DATA where
  "zero_ack_data = \<lparr>ack_segmented_message = False, ack_more_follows = False,
     ack_invoke_id = 0, ack_sequence_number = 0, ack_proposed_window_number = 0\<rparr>"

primrec common_segmented_message :: "apdu_service_data \<Rightarrow> bool" where
  "common_segmented_message (Request_Data r) = segmented_message r"
| "common_segmented_message (Ack_Data a) = ack_segmented_message a"

primrec set_common_segmented :: "bool \<Rightarrow> apdu_service_data \<Rightarrow> apdu_service_data" where
  "set_common_segmented b (Request_Data r) = Request_Data (r\<lparr>segmented_message := b\<rparr>)"
| "set_common_segmented b (Ack_Data a) = Ack_Data (a\<lparr>ack_segmented_message := b\<rparr>)"

primrec set_common_more_follows :: "bool \<Rightarrow> apdu_service_data \<Rightarrow> apdu_service_data" where
  "set_common_more_follows b (Request_Data r) = Request_Data (r\<lparr>more_follows := b\<rparr>)"
| "set_common_more_follows b (Ack_Data a) = Ack_Data (a\<lparr>ack_more_follows := b\<rparr>)"

primrec set_common_sequence_number :: "u8 \<Rightarrow> apdu_service_data \<Rightarrow> apdu_service_data option" where
  "set_common_sequence_number n (Request_Data r) = None"
| "set_common_sequence_number n (Ack_Data a) = Some (Ack_Data (a\<lparr>ack_sequence_number := n\<rparr>))"

primrec set_common_window :: "u8 \<Rightarrow> apdu_service_data \<Rightarrow> apdu_service_data option" where
  "set_common_window n (Request_Data r) = None"
| "set_common_window n (Ack_Data a) = Some (Ack_Data (a\<lparr>ack_proposed_window_number := n\<rparr>))"

text \<open>
  \<^verbatim>\<open>apdu_decode_confirmed_service_request\<close> fills the caller's structure and variables as it
  goes; on an early \<^verbatim>\<open>return 0\<close> what was already stored stays. A service request is the
  bytes the pointer and the length describe, \<open>None\<close> for the NULL pointer.
\<close>

definition apdu_decode_confirmed_service_request ::
  "u8 \<Rightarrow> bytes \<Rightarrow> nat \<Rightarrow> BACNET_CONFIRMED_SERVICE_DATA \<Rightarrow> u8 \<Rightarrow> bytes option
   \<Rightarrow> (nat \<times> BACNET_CONFIRMED_SERVICE_DATA \<times> u8 \<times> bytes option) option" where
  "apdu_decode_confirmed_service_request net_priority apdu apdu_len sd choice request =
     (if 3 \<le> apdu_len then do {
        b0 \<leftarrow> rd apdu 0;
        b1 \<leftarrow> rd apdu 1;
        b2 \<leftarrow> rd apdu 2;
        let sd = sd\<lparr>segmented_message := bit b0 3, more_follows := bit b0 2,
                    segmented_response_accepted := bit b0 1,
                    max_segs := decode_max_segs b1, max_resp := decode_max_apdu b1,
                    invoke_id := b2, service_priority := net_priority\<rparr>;
        if segmented_message sd \<and> \<not> 5 \<le> apdu_len then Some (0, sd, choice, request) else do {
        (len, sd) \<leftarrow>
          (if segmented_message sd then do {
             s \<leftarrow> rd apdu 3;
             w \<leftarrow> rd apdu 4;
             Some (5, sd\<lparr>sequence_number := s, proposed_window_number := w\<rparr>) }
           else Some (3, sd));
        if MAX_APDU < apdu_len then Some (0, sd, choice, request)
        else if apdu_len = len + 1 then do {
          c \<leftarrow> rd apdu len;
          Some (len + 1, sd, c, None) }
        else if len + 2 \<le> apdu_len then do {
          c \<leftarrow> rd apdu len;
          req \<leftarrow> read_at apdu (len + 1) (apdu_len - (len + 1));
          Some (len + 1, sd, c, Some req) }
        else Some (0, sd, choice, request) } }
      else Some (0, sd, choice, request))"

text \<open>The switch of \<^verbatim>\<open>apdu_encode_fixed_header\<close>: another PDU type writes nothing.\<close>

definition apdu_encode_fixed_header :: "BACNET_APDU_FIXED_HEADER \<Rightarrow> bytes option" where
  "apdu_encode_fixed_header h =
     (if pdu_type h = PDU_TYPE_CONFIRMED_SERVICE_REQUEST then
        (case service_data h of
           Ack_Data a \<Rightarrow> None
         | Request_Data r \<Rightarrow> Some (
             [pdu_type h
                OR (if segmented_response_accepted r then 0x02 else 0x00)
                OR (if more_follows r then 0x04 else 0x00)
                OR (if segmented_message r then 0x08 else 0x00),
              encode_max_segs_max_apdu (max_segs r) (max_resp r),
              invoke_id r]
             @ (if segmented_message r then [sequence_number r, proposed_window_number r] else [])
             @ [service_choice h]))
      else if pdu_type h = PDU_TYPE_COMPLEX_ACK then
        (case service_data h of
           Request_Data r \<Rightarrow> None
         | Ack_Data a \<Rightarrow> Some (
             [pdu_type h
                OR (if ack_more_follows a then 0x04 else 0x00)
                OR (if ack_segmented_message a then 0x08 else 0x00),
              ack_invoke_id a]
             @ (if ack_segmented_message a
                then [ack_sequence_number a, ack_proposed_window_number a] else [])
             @ [service_choice h]))
      else Some [])"

text \<open>
  \<^verbatim>\<open>apdu_init_fixed_header\<close> first writes the acknowledgement through \<^verbatim>\<open>common_data\<close>. For a
  request it then sets three fields of \<^verbatim>\<open>request_data\<close>; the request's own invoke identifier,
  sequence number, window and priority keep the bytes the object \<open>old\<close> had.
\<close>

definition apdu_init_fixed_header ::
  "BACNET_CONFIRMED_SERVICE_DATA \<Rightarrow> u8 \<Rightarrow> u8 \<Rightarrow> u8 \<Rightarrow> int \<Rightarrow> BACNET_APDU_FIXED_HEADER" where
  "apdu_init_fixed_header old ty iid service max_apdu =
     \<lparr>pdu_type = ty,
      service_data =
        (if ty = PDU_TYPE_CONFIRMED_SERVICE_REQUEST then
           Request_Data (old\<lparr>segmented_message := False, more_follows := False,
             max_segs := int MAX_SEGMENTS_ACCEPTED,
             max_resp := (if max_apdu < int MAX_APDU then max_apdu else int MAX_APDU),
             segmented_response_accepted := 1 < MAX_SEGMENTS_ACCEPTED\<rparr>)
         else
           Ack_Data (\<lparr>ack_segmented_message = False, ack_more_follows = False,
             ack_invoke_id = iid, ack_sequence_number = 0, ack_proposed_window_number = 0\<rparr>)),
      service_choice = service\<rparr>"

section \<open>Lemmas: the capability octet\<close>

lemma decode_max_apdu_cases: "decode_max_apdu octet \<in> {0, 50, 128, 206, 480, 1024, 1476}"
  by (simp add: decode_max_apdu_def Let_def)

lemma decode_max_apdu_bound: "0 \<le> decode_max_apdu octet" "decode_max_apdu octet \<le> int MAX_APDU"
  using decode_max_apdu_cases [of octet] by (auto simp: MAX_APDU_def)

lemma decode_max_segs_cases: "decode_max_segs octet \<in> {0, 2, 4, 8, 16, 32, 64, 65}"
  by (simp add: decode_max_segs_def Let_def)

lemma decode_max_segs_encode:
  "decode_max_segs (encode_max_segs_max_apdu m a) =
     (if m < 2 then 0 else if m < 4 then 2 else if m < 8 then 4 else if m < 16 then 8
      else if m < 32 then 16 else if m < 64 then 32 else if m = 64 then 64 else 65)"
  by (simp add: decode_max_segs_def encode_max_segs_max_apdu_def Let_def)

lemma decode_max_apdu_encode:
  "decode_max_apdu (encode_max_segs_max_apdu m a) =
     (if a \<le> 50 then 50 else if a \<le> 128 then 128 else if a \<le> 206 then 206
      else if a \<le> 480 then 480 else if a \<le> 1024 then 1024 else if a \<le> 1476 then 1476 else 50)"
  by (simp add: decode_max_apdu_def encode_max_segs_max_apdu_def Let_def)

section \<open>Lemmas: requests\<close>

lemma apdu_decode_request_safe [safe_ops]:
  assumes "apdu_len \<le> length apdu"
  shows "wp (apdu_decode_confirmed_service_request np apdu apdu_len sd c req)
    (\<lambda>(len, sd', c', req'). len \<le> apdu_len \<and>
       (0 < len \<longrightarrow> apdu_len \<le> MAX_APDU \<and> (\<forall>r. req' = Some r \<longrightarrow>
          r = take (apdu_len - len) (drop len apdu) \<and> length r \<le> MAX_APDU)))"
  using assms by (auto simp: apdu_decode_confirmed_service_request_def Let_def)

lemma apdu_decode_request_caps:
  "wp (apdu_decode_confirmed_service_request np apdu apdu_len zero_service_data c req)
    (\<lambda>(len, sd', c', req'). max_resp sd' \<in> {0, 50, 128, 206, 480, 1024, 1476}
       \<and> max_segs sd' \<in> {0, 2, 4, 8, 16, 32, 64, 65})"
  if "apdu_len \<le> length apdu"
  using that decode_max_apdu_cases decode_max_segs_cases
  by (cases "3 \<le> apdu_len"; cases "length apdu < 3")
    (auto simp: apdu_decode_confirmed_service_request_def Let_def zero_service_data_def
      simp del: insert_iff)

lemma request_flags:
  fixes sa mf sg :: bool
  defines "flags \<equiv> (if sa then 0x02 else 0x00) OR (if mf then 0x04 else 0x00)
      OR (if sg then 0x08 else 0x00) :: u8"
  shows "bit flags (Suc 0) = sa" "bit flags 2 = mf" "bit flags 3 = sg"
  by (simp_all add: flags_def bit_simps)

lemma apdu_request_roundtrip:
  assumes "pdu_type h = PDU_TYPE_CONFIRMED_SERVICE_REQUEST" "service_data h = Request_Data r"
    and "apdu_encode_fixed_header h = Some hdr" "length hdr + length data \<le> MAX_APDU" "data \<noteq> []"
  shows "apdu_decode_confirmed_service_request np (hdr @ data) (length (hdr @ data))
      zero_service_data c req =
    Some (length hdr,
      r\<lparr>max_segs := decode_max_segs (encode_max_segs_max_apdu (max_segs r) (max_resp r)),
        max_resp := decode_max_apdu (encode_max_segs_max_apdu (max_segs r) (max_resp r)),
        sequence_number := (if segmented_message r then sequence_number r else 0),
        proposed_window_number := (if segmented_message r then proposed_window_number r else 0),
        service_priority := np\<rparr>,
      service_choice h, Some data)"
proof -
  have "Suc 0 \<le> length data" using assms(5) by (cases data) auto
  with assms(1-4) show ?thesis
    by (auto simp: apdu_decode_confirmed_service_request_def apdu_encode_fixed_header_def Let_def
        request_flags zero_service_data_def eval_nat_numeral)
qed

section \<open>Lemmas: SegmentACK, Abort and Reject\<close>

lemma segmentack_roundtrip:
  "segmentack_decode_service_request (drop 1 (segmentack_encode_apdu nak server i n w)) 3
   = Some (0, Some (i, n, w))"
  by (simp add: segmentack_decode_service_request_def segmentack_encode_apdu_def Let_def)

lemma abort_roundtrip:
  "abort_decode_service_request (drop 1 (abort_encode_apdu i r server)) 2 = Some (2, Some i, Some r)"
  by (simp add: abort_decode_service_request_def abort_encode_apdu_def)

lemma reject_roundtrip:
  "reject_decode_service_request (drop 1 (reject_encode_apdu i r)) 2 = Some (0, Some (i, r))"
  by (simp add: reject_decode_service_request_def reject_encode_apdu_def)

lemma abort_codes_roundtrip:
  "abort_valid_error_code c \<Longrightarrow> abort_convert_to_error_code (abort_convert_error_code c) = c"
  by (auto simp: abort_valid_error_code_def abort_convert_error_code_def
      abort_convert_to_error_code_def)

lemma reject_codes_roundtrip:
  "reject_valid_error_code c \<Longrightarrow> reject_convert_to_error_code (reject_convert_error_code c) = c"
  by (auto simp: reject_valid_error_code_def reject_convert_error_code_def
      reject_convert_to_error_code_def)

lemma abort_code_valid: "abort_valid_error_code (abort_convert_to_error_code r)"
  by (simp add: abort_valid_error_code_def abort_convert_to_error_code_def)

lemma reject_code_valid: "reject_valid_error_code (reject_convert_to_error_code r)"
  by (simp add: reject_valid_error_code_def reject_convert_to_error_code_def)

end
