(* ===== verification/Bac_Binding.thy ===== *)
theory Bac_Binding
  imports Bac_Pdu
begin

text \<open>
  \<^verbatim>\<open>src/bacnet/basic/binding/address.c\<close>: the cache that binds device identifiers to network
  addresses. The static array \<^verbatim>\<open>Address_Cache[MAX_ADDRESS_CACHE]\<close> is the list
  \<open>Address_Cache\<close>, whose length is the build's \<^verbatim>\<open>MAX_ADDRESS_CACHE\<close>; the build without
  \<^verbatim>\<open>BACNET_ADDRESS_CACHE_FILE\<close> is the one modelled. Shown here: every operation keeps the
  device identifiers of the used entries distinct, the cache behaves as a finite map as long
  as there is room, a full cache evicts the entry nearest expiry and never a static one, and
  the timer drops exactly the expired entries.
\<close>

section \<open>State\<close>

record Address_Cache_Entry =
  Flags :: u8
  device_id :: u32
  entry_max_apdu :: u32
  segmentation :: u8
  maxsegments :: u16
  address :: BACNET_ADDRESS
  TimeToLive :: u32

record ADDRESS_CACHE =
  Address_Cache :: "Address_Cache_Entry list"
  Top_Protected_Entry :: u32
  Own_Device_ID :: u32

abbreviation (input) BAC_ADDR_IN_USE :: u8 where "BAC_ADDR_IN_USE \<equiv> 0x01"
abbreviation (input) BAC_ADDR_BIND_REQ :: u8 where "BAC_ADDR_BIND_REQ \<equiv> 0x02"
abbreviation (input) BAC_ADDR_STATIC :: u8 where "BAC_ADDR_STATIC \<equiv> 0x04"
abbreviation (input) BAC_ADDR_SHORT_TTL :: u8 where "BAC_ADDR_SHORT_TTL \<equiv> 0x08"
abbreviation (input) BAC_ADDR_RESERVED :: u8 where "BAC_ADDR_RESERVED \<equiv> 0x80"

definition BAC_ADDR_LONG_TIME :: u32 where "BAC_ADDR_LONG_TIME = 86400"
definition BAC_ADDR_SHORT_TIME :: u32 where "BAC_ADDR_SHORT_TIME = 3600"
definition BAC_ADDR_FOREVER :: u32 where "BAC_ADDR_FOREVER = 0xFFFFFFFF"

text \<open>The tests the loops make on the flags of an entry.\<close>

definition in_use :: "Address_Cache_Entry \<Rightarrow> bool" where
  "in_use e = (Flags e AND BAC_ADDR_IN_USE \<noteq> 0)"

definition bind_req :: "Address_Cache_Entry \<Rightarrow> bool" where
  "bind_req e = (Flags e AND BAC_ADDR_BIND_REQ \<noteq> 0)"

definition is_static :: "Address_Cache_Entry \<Rightarrow> bool" where
  "is_static e = (Flags e AND BAC_ADDR_STATIC \<noteq> 0)"

definition short_ttl :: "Address_Cache_Entry \<Rightarrow> bool" where
  "short_ttl e = (Flags e AND BAC_ADDR_SHORT_TTL \<noteq> 0)"

definition reserved :: "Address_Cache_Entry \<Rightarrow> bool" where
  "reserved e = (Flags e AND BAC_ADDR_RESERVED \<noteq> 0)"

definition is_bound :: "Address_Cache_Entry \<Rightarrow> bool" where
  "is_bound e = (Flags e AND (BAC_ADDR_IN_USE OR BAC_ADDR_BIND_REQ) = BAC_ADDR_IN_USE)"

definition for_device :: "u32 \<Rightarrow> Address_Cache_Entry \<Rightarrow> bool" where
  "for_device dev e = (in_use e \<and> device_id e = dev)"

definition set_entry :: "ADDRESS_CACHE \<Rightarrow> nat \<Rightarrow> Address_Cache_Entry \<Rightarrow> ADDRESS_CACHE" where
  "set_entry c i e = c\<lparr>Address_Cache := (Address_Cache c)[i := e]\<rparr>"

section \<open>Operations\<close>

definition address_protected_entry_index_set :: "ADDRESS_CACHE \<Rightarrow> u32 \<Rightarrow> ADDRESS_CACHE" where
  "address_protected_entry_index_set c i =
     (if unat i < length (Address_Cache c) then c\<lparr>Top_Protected_Entry := i\<rparr> else c)"

definition address_own_device_id_set :: "ADDRESS_CACHE \<Rightarrow> u32 \<Rightarrow> ADDRESS_CACHE" where
  "address_own_device_id_set c own_id = c\<lparr>Own_Device_ID := own_id\<rparr>"

definition address_remove_device :: "ADDRESS_CACHE \<Rightarrow> u32 \<Rightarrow> ADDRESS_CACHE" where
  "address_remove_device c dev =
     (let i = find_index (for_device dev) (Address_Cache c) in
      if i < length (Address_Cache c) then
        let c' = set_entry c i ((Address_Cache c ! i)\<lparr>Flags := 0\<rparr>) in
        if i < unat (Top_Protected_Entry c)
        then c'\<lparr>Top_Protected_Entry := Top_Protected_Entry c - 1\<rparr> else c'
      else c)"

text \<open>
  One pass of \<^verbatim>\<open>address_remove_oldest\<close>: among the entries from position \<open>i\<close> on that satisfy
  the flag test, the last one whose time to live is minimal and at most \<open>t\<close>.
\<close>

fun oldest_pass ::
  "(Address_Cache_Entry \<Rightarrow> bool) \<Rightarrow> nat \<Rightarrow> Address_Cache_Entry list \<Rightarrow> u32 \<times> nat option \<Rightarrow> u32 \<times> nat option"
where
  "oldest_pass P i [] acc = acc"
| "oldest_pass P i (e # es) (t, cand) =
     oldest_pass P (Suc i) es
       (if P e \<and> TimeToLive e \<le> t then (TimeToLive e, Some i) else (t, cand))"

definition evict_bound :: "Address_Cache_Entry \<Rightarrow> bool" where
  "evict_bound e = (Flags e AND (BAC_ADDR_IN_USE OR BAC_ADDR_BIND_REQ OR BAC_ADDR_STATIC)
     = BAC_ADDR_IN_USE)"

definition evict_unbound :: "Address_Cache_Entry \<Rightarrow> bool" where
  "evict_unbound e = (Flags e AND (BAC_ADDR_IN_USE OR BAC_ADDR_BIND_REQ OR BAC_ADDR_STATIC)
     = (BAC_ADDR_IN_USE OR BAC_ADDR_BIND_REQ))"

definition reserve_entry :: "ADDRESS_CACHE \<Rightarrow> nat \<Rightarrow> ADDRESS_CACHE" where
  "reserve_entry c i = set_entry c i
     ((Address_Cache c ! i)\<lparr>Flags := BAC_ADDR_RESERVED, TimeToLive := BAC_ADDR_SHORT_TIME\<rparr>)"

definition address_remove_oldest :: "ADDRESS_CACHE \<Rightarrow> nat option \<times> ADDRESS_CACHE" where
  "address_remove_oldest c =
     (let top = unat (Top_Protected_Entry c); n = length (Address_Cache c) in
      if n - 1 < top then (None, c)
      else
        let (t, cand) = oldest_pass evict_bound top (drop top (Address_Cache c))
              (BAC_ADDR_FOREVER - 1, None) in
        case cand of
          Some i \<Rightarrow> (Some i, reserve_entry c i)
        | None \<Rightarrow>
            (case snd (oldest_pass evict_unbound 0 (Address_Cache c) (t, None)) of
               Some i \<Rightarrow> (Some i, reserve_entry c i)
             | None \<Rightarrow> (None, c)))"

definition address_init :: "ADDRESS_CACHE \<Rightarrow> ADDRESS_CACHE" where
  "address_init c =
     c\<lparr>Top_Protected_Entry := 0, Address_Cache := map (\<lambda>e. e\<lparr>Flags := 0\<rparr>) (Address_Cache c)\<rparr>"

definition init_partial_entry :: "Address_Cache_Entry \<Rightarrow> Address_Cache_Entry" where
  "init_partial_entry e =
     (let e' = (if in_use e \<and> (bind_req e \<or> TimeToLive e = 0) then e\<lparr>Flags := 0\<rparr> else e)
      in if reserved e' then e'\<lparr>Flags := 0\<rparr> else e')"

definition address_init_partial :: "ADDRESS_CACHE \<Rightarrow> ADDRESS_CACHE" where
  "address_init_partial c = c\<lparr>Address_Cache := map init_partial_entry (Address_Cache c)\<rparr>"

definition address_set_device_TTL :: "ADDRESS_CACHE \<Rightarrow> u32 \<Rightarrow> u32 \<Rightarrow> bool \<Rightarrow> ADDRESS_CACHE" where
  "address_set_device_TTL c dev TimeOut StaticFlag =
     (let i = find_index (for_device dev) (Address_Cache c) in
      if i < length (Address_Cache c) then
        let e = Address_Cache c ! i in
        set_entry c i
          (if \<not> bind_req e then
             if StaticFlag
             then e\<lparr>Flags := Flags e OR BAC_ADDR_STATIC, TimeToLive := BAC_ADDR_FOREVER\<rparr>
             else e\<lparr>Flags := Flags e AND NOT BAC_ADDR_STATIC, TimeToLive := TimeOut\<rparr>
           else e\<lparr>TimeToLive := TimeOut\<rparr>)
      else c)"

text \<open>
  \<^verbatim>\<open>address_get_by_device\<close> returns whether it found a bound entry; the outputs it then
  stores are the components of \<open>Some\<close>.
\<close>

definition address_get_by_device ::
  "ADDRESS_CACHE \<Rightarrow> u32 \<Rightarrow> (u32 \<times> BACNET_ADDRESS \<times> u8 \<times> u16) option" where
  "address_get_by_device c dev =
     (let i = find_index (for_device dev) (Address_Cache c) in
      if i < length (Address_Cache c) then
        let e = Address_Cache c ! i in
        if \<not> bind_req e
        then Some (entry_max_apdu e, bacnet_address_copy (address e) (address e),
                   segmentation e, maxsegments e)
        else None
      else None)"

definition address_get_device_id :: "ADDRESS_CACHE \<Rightarrow> BACNET_ADDRESS \<Rightarrow> u32 option" where
  "address_get_device_id c src =
     (let i = find_index (\<lambda>e. is_bound e \<and> bacnet_address_same (address e) src) (Address_Cache c) in
      if i < length (Address_Cache c) then Some (device_id (Address_Cache c ! i)) else None)"

definition new_entry :: "u32 \<Rightarrow> u32 \<Rightarrow> BACNET_ADDRESS \<Rightarrow> Address_Cache_Entry \<Rightarrow> Address_Cache_Entry" where
  "new_entry dev max_apdu src e =
     e\<lparr>Flags := BAC_ADDR_IN_USE, device_id := dev, entry_max_apdu := max_apdu,
       address := bacnet_address_copy (address e) src, TimeToLive := BAC_ADDR_SHORT_TIME\<rparr>"

definition address_add :: "ADDRESS_CACHE \<Rightarrow> u32 \<Rightarrow> u32 \<Rightarrow> BACNET_ADDRESS \<Rightarrow> ADDRESS_CACHE" where
  "address_add c dev max_apdu src =
     (if Own_Device_ID c = dev then c
      else
        let n = length (Address_Cache c); i = find_index (for_device dev) (Address_Cache c) in
        if i < n then
          let e = Address_Cache c ! i in
          set_entry c i (e\<lparr>address := bacnet_address_copy (address e) src,
            entry_max_apdu := max_apdu,
            TimeToLive := (if bind_req e then BAC_ADDR_LONG_TIME
                           else if is_static e then BAC_ADDR_FOREVER
                           else if short_ttl e then BAC_ADDR_SHORT_TIME
                           else BAC_ADDR_LONG_TIME),
            Flags := Flags e AND NOT BAC_ADDR_BIND_REQ\<rparr>)
        else
          let j = find_index (\<lambda>e. \<not> in_use e) (Address_Cache c) in
          if j < n then set_entry c j (new_entry dev max_apdu src (Address_Cache c ! j))
          else
            case address_remove_oldest c of
              (Some k, c') \<Rightarrow> set_entry c' k (new_entry dev max_apdu src (Address_Cache c' ! k))
            | (None, c') \<Rightarrow> c')"

definition request_entry :: "u32 \<Rightarrow> Address_Cache_Entry \<Rightarrow> Address_Cache_Entry" where
  "request_entry dev e =
     e\<lparr>Flags := BAC_ADDR_IN_USE OR BAC_ADDR_BIND_REQ, device_id := dev,
       TimeToLive := BAC_ADDR_SHORT_TIME\<rparr>"

definition address_device_bind_request ::
  "ADDRESS_CACHE \<Rightarrow> u32 \<Rightarrow> (u32 \<times> u32 \<times> BACNET_ADDRESS) option \<times> ADDRESS_CACHE" where
  "address_device_bind_request c dev =
     (let n = length (Address_Cache c); i = find_index (for_device dev) (Address_Cache c) in
      if i < n then
        let e = Address_Cache c ! i in
        if \<not> bind_req e then
          (Some (TimeToLive e, entry_max_apdu e, bacnet_address_copy (address e) (address e)),
           if short_ttl e
           then set_entry c i (e\<lparr>Flags := Flags e AND NOT BAC_ADDR_SHORT_TTL,
                                 TimeToLive := BAC_ADDR_LONG_TIME\<rparr>)
           else c)
        else (None, c)
      else
        let j = find_index (\<lambda>e. Flags e AND (BAC_ADDR_IN_USE OR BAC_ADDR_RESERVED) = 0)
                  (Address_Cache c) in
        if j < n then (None, set_entry c j (request_entry dev (Address_Cache c ! j)))
        else
          case address_remove_oldest c of
            (Some k, c') \<Rightarrow> (None, set_entry c' k (request_entry dev (Address_Cache c' ! k)))
          | (None, c') \<Rightarrow> (None, c'))"

definition address_bind_request ::
  "ADDRESS_CACHE \<Rightarrow> u32 \<Rightarrow> (u32 \<times> BACNET_ADDRESS) option \<times> ADDRESS_CACHE" where
  "address_bind_request c dev =
     (case address_device_bind_request c dev of (r, c') \<Rightarrow> (map_option snd r, c'))"

definition address_add_binding :: "ADDRESS_CACHE \<Rightarrow> u32 \<Rightarrow> u32 \<Rightarrow> BACNET_ADDRESS \<Rightarrow> ADDRESS_CACHE" where
  "address_add_binding c dev max_apdu src =
     (let i = find_index (for_device dev) (Address_Cache c) in
      if i < length (Address_Cache c) then
        let e = (Address_Cache c ! i)\<lparr>
              address := bacnet_address_copy (address (Address_Cache c ! i)) src,
              entry_max_apdu := max_apdu,
              Flags := Flags (Address_Cache c ! i) AND NOT BAC_ADDR_BIND_REQ\<rparr> in
        set_entry c i (if \<not> is_static e then e\<lparr>TimeToLive := BAC_ADDR_LONG_TIME\<rparr> else e)
      else c)"

definition address_device_get_by_index ::
  "ADDRESS_CACHE \<Rightarrow> nat \<Rightarrow> (u32 \<times> u32 \<times> u32 \<times> BACNET_ADDRESS) option" where
  "address_device_get_by_index c i =
     (if i < length (Address_Cache c) then
        let e = Address_Cache c ! i in
        if is_bound e
        then Some (device_id e, TimeToLive e, entry_max_apdu e,
                   bacnet_address_copy (address e) (address e))
        else None
      else None)"

definition address_get_by_index :: "ADDRESS_CACHE \<Rightarrow> nat \<Rightarrow> (u32 \<times> u32 \<times> BACNET_ADDRESS) option" where
  "address_get_by_index c i =
     map_option (\<lambda>(dev, ttl, apdu, src). (dev, apdu, src)) (address_device_get_by_index c i)"

definition address_count :: "ADDRESS_CACHE \<Rightarrow> nat" where
  "address_count c = length (filter is_bound (Address_Cache c))"

definition timer_entry :: "u16 \<Rightarrow> Address_Cache_Entry \<Rightarrow> Address_Cache_Entry" where
  "timer_entry uSeconds e =
     (if Flags e AND (BAC_ADDR_IN_USE OR BAC_ADDR_RESERVED) \<noteq> 0 \<and> \<not> is_static e then
        if ucast uSeconds \<le> TimeToLive e
        then e\<lparr>TimeToLive := TimeToLive e - ucast uSeconds\<rparr>
        else e\<lparr>Flags := 0\<rparr>
      else e)"

definition address_cache_timer :: "ADDRESS_CACHE \<Rightarrow> u16 \<Rightarrow> ADDRESS_CACHE" where
  "address_cache_timer c uSeconds =
     c\<lparr>Address_Cache := map (timer_entry uSeconds) (Address_Cache c)\<rparr>"

section \<open>Flags as bits\<close>

lemmas flag_defs = in_use_def bind_req_def is_static_def short_ttl_def reserved_def is_bound_def
  evict_bound_def evict_unbound_def

lemma flags_bits:
  "in_use e = bit (Flags e) 0" "bind_req e = bit (Flags e) (Suc 0)" "is_static e = bit (Flags e) 2"
  "short_ttl e = bit (Flags e) 3" "reserved e = bit (Flags e) 7"
  "is_bound e = (bit (Flags e) 0 \<and> \<not> bit (Flags e) (Suc 0))"
  "evict_bound e = (bit (Flags e) 0 \<and> \<not> bit (Flags e) (Suc 0) \<and> \<not> bit (Flags e) 2)"
  "evict_unbound e = (bit (Flags e) 0 \<and> bit (Flags e) (Suc 0) \<and> \<not> bit (Flags e) 2)"
  "(Flags e AND 0x81 = 0) = (\<not> bit (Flags e) 0 \<and> \<not> bit (Flags e) 7)"
  by (auto simp: flag_defs u8_eq_iff all_less_8 bit_simps)

section \<open>The invariant\<close>

text \<open>
  Used entries carry distinct device identifiers; no entry is ever marked with the short
  time-to-live flag and none records a segmentation capability, because no operation stores
  one; a used static entry is bound and never expires.
\<close>

definition ids_distinct :: "Address_Cache_Entry list \<Rightarrow> bool" where
  "ids_distinct es \<longleftrightarrow> (\<forall>i < length es. \<forall>j < length es.
     in_use (es ! i) \<and> in_use (es ! j) \<and> device_id (es ! i) = device_id (es ! j) \<longrightarrow> i = j)"

definition entry_ok :: "Address_Cache_Entry \<Rightarrow> bool" where
  "entry_ok e \<longleftrightarrow> \<not> short_ttl e \<and> segmentation e = 0 \<and> maxsegments e = 0 \<and>
     wf_address (address e) \<and>
     (in_use e \<and> is_static e \<longrightarrow> \<not> bind_req e \<and> TimeToLive e = BAC_ADDR_FOREVER)"

definition cache_inv :: "ADDRESS_CACHE \<Rightarrow> bool" where
  "cache_inv c \<longleftrightarrow> ids_distinct (Address_Cache c) \<and> (\<forall>e \<in> set (Address_Cache c). entry_ok e)"

definition entry_view :: "Address_Cache_Entry \<Rightarrow> u32 \<times> BACNET_ADDRESS \<times> u8 \<times> u16" where
  "entry_view e = (entry_max_apdu e, bacnet_address_copy (address e) (address e),
     segmentation e, maxsegments e)"

lemma ids_distinct_update:
  assumes "ids_distinct es"
    and "\<And>j. \<lbrakk>in_use e; j < length es; j \<noteq> i\<rbrakk> \<Longrightarrow> \<not> for_device (device_id e) (es ! j)"
  shows "ids_distinct (es[i := e])"
  using assms unfolding ids_distinct_def for_device_def
  by (metis length_list_update nth_list_update_eq nth_list_update_neq)

lemma ids_distinct_map:
  assumes "ids_distinct es" "\<And>e. in_use (f e) \<Longrightarrow> in_use e" "\<And>e. device_id (f e) = device_id e"
  shows "ids_distinct (map f es)"
  using assms unfolding ids_distinct_def by (metis length_map nth_map)

lemma ids_distinct_find:
  assumes "ids_distinct es" "i < length es" "for_device dev (es ! i)"
  shows "find_index (for_device dev) es = i"
  using assms by (intro find_index_unique) (auto simp: ids_distinct_def for_device_def)

lemma get_by_device_iff:
  assumes "ids_distinct (Address_Cache c)"
  shows "address_get_by_device c dev = Some v \<longleftrightarrow>
    (\<exists>i < length (Address_Cache c). for_device dev (Address_Cache c ! i) \<and>
       \<not> bind_req (Address_Cache c ! i) \<and> v = entry_view (Address_Cache c ! i))"
    (is "?l \<longleftrightarrow> ?r")
proof
  assume ?l
  then show ?r
    using find_index_nth [of "for_device dev" "Address_Cache c"]
    by (auto simp: address_get_by_device_def Let_def entry_view_def split: if_splits)
next
  assume ?r
  then obtain i where "i < length (Address_Cache c)" "for_device dev (Address_Cache c ! i)"
      "\<not> bind_req (Address_Cache c ! i)" "v = entry_view (Address_Cache c ! i)" by blast
  with ids_distinct_find [OF assms this(1,2)] show ?l
    by (simp add: address_get_by_device_def entry_view_def Let_def)
qed

lemma not_found_device:
  "\<not> find_index (for_device dev) es < length es \<Longrightarrow> j < length es \<Longrightarrow> \<not> for_device dev (es ! j)"
  using find_index_less [of "for_device dev" es] by auto

text \<open>The effect of writing one entry on every lookup.\<close>

lemma get_by_device_set_entry:
  assumes "ids_distinct (Address_Cache c)" "i < length (Address_Cache c)"
    and "ids_distinct ((Address_Cache c)[i := e])"
  shows "address_get_by_device (set_entry c i e) dev =
    (if for_device dev e then if bind_req e then None else Some (entry_view e)
     else if for_device dev (Address_Cache c ! i) then None
     else address_get_by_device c dev)"
    (is "?l = ?r")
proof -
  have "?l = Some v \<longleftrightarrow> ?r = Some v" for v
  proof -
    have "?l = Some v \<longleftrightarrow> (\<exists>j < length (Address_Cache c).
        for_device dev ((Address_Cache c)[i := e] ! j) \<and> \<not> bind_req ((Address_Cache c)[i := e] ! j)
        \<and> v = entry_view ((Address_Cache c)[i := e] ! j))"
      using get_by_device_iff [of "set_entry c i e"] assms(3) by (simp add: set_entry_def)
    moreover have "\<not> for_device dev ((Address_Cache c)[i := e] ! j)"
      if "for_device dev e" "j \<noteq> i" "j < length (Address_Cache c)" for j
      using assms(2,3) that unfolding ids_distinct_def for_device_def
      by (metis length_list_update nth_list_update_eq)
    moreover have "\<not> for_device dev (Address_Cache c ! j)"
      if "for_device dev (Address_Cache c ! i)" "j \<noteq> i" "j < length (Address_Cache c)" for j
      using assms(1,2) that unfolding ids_distinct_def for_device_def by metis
    ultimately show ?thesis
      using assms(2) get_by_device_iff [OF assms(1), of dev v]
      by (auto simp: nth_list_update split: if_splits)
  qed
  then show ?thesis by (metis option.exhaust)
qed

lemma set_entry_keeps [keeps_inv]:
  assumes "cache_inv c" "entry_ok e"
    and "\<And>j. \<lbrakk>in_use e; j < length (Address_Cache c); j \<noteq> i\<rbrakk>
      \<Longrightarrow> \<not> for_device (device_id e) (Address_Cache c ! j)"
  shows "cache_inv (set_entry c i e)"
  using assms ids_distinct_update [of "Address_Cache c" e i]
  by (auto simp: cache_inv_def set_entry_def dest!: subsetD [OF set_update_subset_insert])

lemma map_entries_keeps [keeps_inv]:
  assumes "cache_inv c" "\<And>e. in_use (f e) \<Longrightarrow> in_use e" "\<And>e. device_id (f e) = device_id e"
    and "\<And>e. entry_ok e \<Longrightarrow> entry_ok (f e)"
  shows "cache_inv (c\<lparr>Address_Cache := map f (Address_Cache c)\<rparr>)"
  using assms ids_distinct_map [of "Address_Cache c" f] by (auto simp: cache_inv_def)

section \<open>Eviction\<close>

lemma oldest_pass_spec:
  assumes "oldest_pass P i es (t, c) = (t', r)"
  shows "t' \<le> t" "e \<in> set es \<Longrightarrow> P e \<Longrightarrow> t' \<le> TimeToLive e"
    "(r = c \<and> t' = t \<and> (\<forall>e \<in> set es. P e \<longrightarrow> t < TimeToLive e)) \<or>
     (\<exists>k < length es. r = Some (i + k) \<and> P (es ! k) \<and> TimeToLive (es ! k) = t')"
  using assms
proof (induction es arbitrary: i t c)
  case (Cons x es)
  { case 1 with Cons.IH(1) show ?case by (fastforce split: if_splits) }
  { case 2 with Cons.IH(1,2) show ?case by (force split: if_splits) }
  { case 3
    with Cons.IH(3) [of "Suc i"] show ?case
      by (fastforce simp: Ex_less_Suc2 split: if_splits) }
qed auto

lemma remove_oldest_spec:
  assumes "address_remove_oldest c = (r, c')"
  shows "(r = None \<and> c' = c) \<or>
    (\<exists>k < length (Address_Cache c). r = Some k \<and> c' = reserve_entry c k \<and>
       in_use (Address_Cache c ! k) \<and> \<not> is_static (Address_Cache c ! k) \<and>
       (\<not> bind_req (Address_Cache c ! k) \<longrightarrow> unat (Top_Protected_Entry c) \<le> k \<and>
          (\<forall>j < length (Address_Cache c). unat (Top_Protected_Entry c) \<le> j \<and>
             evict_bound (Address_Cache c ! j) \<longrightarrow>
             TimeToLive (Address_Cache c ! k) \<le> TimeToLive (Address_Cache c ! j))))"
proof -
  define top where "top = unat (Top_Protected_Entry c)"
  define es where "es = Address_Cache c"
  obtain t cand where p1: "oldest_pass evict_bound top (drop top es) (BAC_ADDR_FOREVER - 1, None) = (t, cand)"
    by fastforce
  obtain t2 cand2 where p2: "oldest_pass evict_unbound 0 es (t, None) = (t2, cand2)" by fastforce
  note def = assms [unfolded address_remove_oldest_def Let_def, folded top_def es_def, unfolded p1 prod.case p2 snd_conv]
  show ?thesis
  proof (cases "length es - 1 < top \<or> (cand = None \<and> cand2 = None)")
    case True with def show ?thesis by (auto split: if_splits)
  next
    case False
    show ?thesis
    proof (cases cand)
      case (Some k)
      with oldest_pass_spec(3) [OF p1] obtain d where d: "d < length es - top" "k = top + d"
        "evict_bound (es ! k)" "TimeToLive (es ! k) = t" by auto
      have "t \<le> TimeToLive (es ! j)" if "j < length es" "top \<le> j" "evict_bound (es ! j)" for j
        using that by (intro oldest_pass_spec(2) [OF p1])
          (auto simp: in_set_conv_nth intro!: exI [of _ "j - top"])
      with d Some False def show ?thesis
        by (auto simp: flags_bits simp flip: top_def es_def)
    next
      case None
      with False obtain k where k: "cand2 = Some k" by auto
      with oldest_pass_spec(3) [OF p2] have "k < length es" "evict_unbound (es ! k)" by auto
      with k None False def show ?thesis
        by (auto simp: flags_bits simp flip: top_def es_def)
    qed
  qed
qed

section \<open>Every operation keeps the invariant\<close>

lemma entry_ok_nth: "cache_inv c \<Longrightarrow> i < length (Address_Cache c) \<Longrightarrow> entry_ok (Address_Cache c ! i)"
  by (simp add: cache_inv_def)

lemma cache_inv_simps [simp]:
  "cache_inv (c\<lparr>Top_Protected_Entry := t\<rparr>) = cache_inv c"
  "cache_inv (c\<lparr>Own_Device_ID := t\<rparr>) = cache_inv c"
  "Address_Cache (set_entry c i e) = (Address_Cache c)[i := e]"
  "Own_Device_ID (set_entry c i e) = Own_Device_ID c"
  by (simp_all add: cache_inv_def set_entry_def)

text \<open>Rewriting the entry found for a device, keeping its identifier.\<close>

lemma update_found_keeps:
  assumes "cache_inv c" "find_index (for_device dev) (Address_Cache c) < length (Address_Cache c)"
    and "entry_ok e" "device_id e = dev"
  shows "cache_inv (set_entry c (find_index (for_device dev) (Address_Cache c)) e)"
  using assms ids_distinct_find [of "Address_Cache c" _ dev]
  by (intro set_entry_keeps) (auto simp: cache_inv_def)

lemma found_entry:
  assumes "i = find_index (for_device dev) (Address_Cache c)" "i < length (Address_Cache c)"
  shows "in_use (Address_Cache c ! i)" "device_id (Address_Cache c ! i) = dev"
  using assms find_index_nth [of "for_device dev" "Address_Cache c"] by (auto simp: for_device_def)

lemma remove_device_keeps [keeps_inv]: "cache_inv c \<Longrightarrow> cache_inv (address_remove_device c dev)"
  by (auto simp: address_remove_device_def Let_def entry_ok_def flags_bits found_entry
      intro!: update_found_keeps dest: entry_ok_nth)

lemma set_device_TTL_keeps [keeps_inv]:
  "cache_inv c \<Longrightarrow> cache_inv (address_set_device_TTL c dev t st)"
  by (auto simp: address_set_device_TTL_def Let_def entry_ok_def flags_bits found_entry bit_simps
      intro!: update_found_keeps dest: entry_ok_nth)

lemma add_binding_keeps [keeps_inv]:
  "cache_inv c \<Longrightarrow> wf_address src \<Longrightarrow> cache_inv (address_add_binding c dev ma src)"
  by (auto simp: address_add_binding_def Let_def entry_ok_def flags_bits found_entry bit_simps
      wf_address_copy intro!: update_found_keeps dest: entry_ok_nth)

text \<open>Claiming an entry for a device that has none yet.\<close>

lemma claim_keeps:
  assumes "cache_inv c" "entry_ok e" "device_id e = dev"
    and "\<not> find_index (for_device dev) (Address_Cache c) < length (Address_Cache c)"
  shows "cache_inv (set_entry c i e)"
  using assms not_found_device by (intro set_entry_keeps) auto

lemma claim_evicted_keeps:
  assumes "cache_inv c" "entry_ok e" "device_id e = dev"
    and "\<not> find_index (for_device dev) (Address_Cache c) < length (Address_Cache c)"
  shows "cache_inv (set_entry (reserve_entry c k) k e)"
proof -
  have "set_entry (reserve_entry c k) k e = set_entry c k e"
    by (simp add: set_entry_def reserve_entry_def)
  with claim_keeps [OF assms] show ?thesis by simp
qed

lemma entry_ok_new:
  "entry_ok e \<Longrightarrow> wf_address src \<Longrightarrow> entry_ok (new_entry dev ma src e)"
  "entry_ok e \<Longrightarrow> entry_ok (request_entry dev e)"
  by (simp_all add: entry_ok_def new_entry_def request_entry_def flags_bits wf_address_copy)

lemma entry_ok_reserved:
  "cache_inv c \<Longrightarrow> k < length (Address_Cache c) \<Longrightarrow> entry_ok (Address_Cache (reserve_entry c k) ! k)"
  by (auto simp: reserve_entry_def entry_ok_def flags_bits dest: entry_ok_nth)

definition renewed_entry :: "u32 \<Rightarrow> BACNET_ADDRESS \<Rightarrow> Address_Cache_Entry \<Rightarrow> Address_Cache_Entry" where
  "renewed_entry max_apdu src e =
     e\<lparr>address := bacnet_address_copy (address e) src, entry_max_apdu := max_apdu,
       TimeToLive := (if bind_req e then BAC_ADDR_LONG_TIME
                      else if is_static e then BAC_ADDR_FOREVER
                      else if short_ttl e then BAC_ADDR_SHORT_TIME
                      else BAC_ADDR_LONG_TIME),
       Flags := Flags e AND NOT BAC_ADDR_BIND_REQ\<rparr>"

text \<open>The three ways an addition ends: renewed, stored in a free entry, or by eviction.\<close>

lemma address_add_cases:
  assumes "Own_Device_ID c \<noteq> dev"
  defines "i \<equiv> find_index (for_device dev) (Address_Cache c)"
    and "j \<equiv> find_index (\<lambda>e. \<not> in_use e) (Address_Cache c)"
  obtains
    (renew) "i < length (Address_Cache c)"
      "address_add c dev ma src = set_entry c i (renewed_entry ma src (Address_Cache c ! i))"
  | (free) "\<not> i < length (Address_Cache c)" "j < length (Address_Cache c)"
      "address_add c dev ma src = set_entry c j (new_entry dev ma src (Address_Cache c ! j))"
  | (evict) k where "\<not> i < length (Address_Cache c)" "\<not> j < length (Address_Cache c)"
      "k < length (Address_Cache c)" "address_remove_oldest c = (Some k, reserve_entry c k)"
      "address_add c dev ma src = set_entry c k (new_entry dev ma src (Address_Cache c ! k))"
  | (refused) "\<not> i < length (Address_Cache c)" "\<not> j < length (Address_Cache c)"
      "address_remove_oldest c = (None, c)" "address_add c dev ma src = c"
proof -
  obtain r c' where ro: "address_remove_oldest c = (r, c')" by fastforce
  have ev: "set_entry (reserve_entry c k) k (new_entry dev ma src (Address_Cache (reserve_entry c k) ! k))
      = set_entry c k (new_entry dev ma src (Address_Cache c ! k))" if "k < length (Address_Cache c)" for k
    using that by (simp add: set_entry_def reserve_entry_def new_entry_def)
  note def = address_add_def [of c dev ma src, unfolded Let_def, folded i_def j_def renewed_entry_def]
  consider "i < length (Address_Cache c)"
    | "\<not> i < length (Address_Cache c)" "j < length (Address_Cache c)"
    | "\<not> i < length (Address_Cache c)" "\<not> j < length (Address_Cache c)" by blast
  then show thesis
  proof cases
    case 1 with def assms(1) renew show ?thesis by simp
  next
    case 2 with def assms(1) free show ?thesis by simp
  next
    case 3
    show ?thesis
    proof (cases r)
      case None
      with remove_oldest_spec [OF ro] 3 def assms(1) ro refused show ?thesis by simp
    next
      case (Some k)
      with remove_oldest_spec [OF ro] 3 def assms(1) ro evict [of k] ev [of k] show ?thesis by simp
    qed
  qed
qed

lemma entry_ok_renewed:
  "entry_ok e \<Longrightarrow> wf_address src \<Longrightarrow> entry_ok (renewed_entry ma src e)"
  by (auto simp: entry_ok_def renewed_entry_def flags_bits bit_simps wf_address_copy)

lemma device_id_entries [simp]:
  "device_id (renewed_entry ma src e) = device_id e"
  "device_id (new_entry dev ma src e) = dev"
  "device_id (request_entry dev e) = dev"
  by (simp_all add: renewed_entry_def new_entry_def request_entry_def)

lemma address_add_keeps [keeps_inv]:
  assumes "cache_inv c" "wf_address src"
  shows "cache_inv (address_add c dev ma src)"
proof (cases "Own_Device_ID c = dev")
  case True then show ?thesis using assms by (simp add: address_add_def)
next
  case False
  then show ?thesis
  proof (cases rule: address_add_cases [where ma = ma and src = src])
    case renew
    with assms show ?thesis
      by (auto simp: found_entry entry_ok_nth intro!: update_found_keeps entry_ok_renewed)
  next
    case free
    with assms show ?thesis by (auto simp: entry_ok_nth intro!: claim_keeps entry_ok_new)
  next
    case (evict k)
    with assms show ?thesis by (auto simp: entry_ok_nth intro!: claim_keeps entry_ok_new)
  next
    case refused with assms show ?thesis by simp
  qed
qed

lemma bind_request_keeps [keeps_inv]:
  assumes "cache_inv c"
  shows "cache_inv (snd (address_device_bind_request c dev))"
proof -
  obtain r c' where ro: "address_remove_oldest c = (r, c')" by fastforce
  define i where "i = find_index (for_device dev) (Address_Cache c)"
  define j where "j = find_index (\<lambda>e. Flags e AND (BAC_ADDR_IN_USE OR BAC_ADDR_RESERVED) = 0) (Address_Cache c)"
  note def = address_device_bind_request_def [of c dev, unfolded Let_def, folded i_def j_def, unfolded ro]
  have short: "i < length (Address_Cache c) \<Longrightarrow> \<not> short_ttl (Address_Cache c ! i)"
    using entry_ok_nth [OF assms] by (simp add: entry_ok_def)
  have claim: "\<not> i < length (Address_Cache c) \<Longrightarrow> k < length (Address_Cache c) \<Longrightarrow>
      cache_inv (set_entry c k (request_entry dev (Address_Cache c ! k)))" for k
    using assms by (intro claim_keeps) (auto simp: i_def entry_ok_nth intro: entry_ok_new)
  have ev: "\<not> i < length (Address_Cache c) \<Longrightarrow> k < length (Address_Cache c) \<Longrightarrow>
      cache_inv (set_entry (reserve_entry c k) k (request_entry dev (Address_Cache (reserve_entry c k) ! k)))" for k
    using assms by (intro claim_evicted_keeps) (auto simp: i_def entry_ok_reserved intro: entry_ok_new)
  consider "i < length (Address_Cache c)"
    | "\<not> i < length (Address_Cache c)" "j < length (Address_Cache c)"
    | "\<not> i < length (Address_Cache c)" "\<not> j < length (Address_Cache c)" by blast
  then show ?thesis
  proof cases
    case 1 with short assms show ?thesis by (simp add: def)
  next
    case 2 with claim show ?thesis by (simp add: def)
  next
    case 3 with remove_oldest_spec [OF ro] assms ev show ?thesis by (auto simp: def split: option.splits)
  qed
qed

lemma init_keeps [keeps_inv]: "cache_inv c \<Longrightarrow> cache_inv (address_init c)"
  unfolding address_init_def
  using map_entries_keeps [of c "\<lambda>e. e\<lparr>Flags := 0\<rparr>"] by (auto simp: flags_bits entry_ok_def cache_inv_def)

lemma init_partial_keeps [keeps_inv]: "cache_inv c \<Longrightarrow> cache_inv (address_init_partial c)"
  unfolding address_init_partial_def
  by (intro map_entries_keeps)
    (auto simp: flags_bits entry_ok_def init_partial_entry_def Let_def split: if_splits)

lemma timer_keeps [keeps_inv]: "cache_inv c \<Longrightarrow> cache_inv (address_cache_timer c s)"
  unfolding address_cache_timer_def
  by (intro map_entries_keeps) (auto simp: flags_bits entry_ok_def timer_entry_def split: if_splits)

section \<open>The cache as a finite map\<close>

definition binding :: "ADDRESS_CACHE \<Rightarrow> u32 \<Rightarrow> (u32 \<times> BACNET_ADDRESS) option" where
  "binding c dev = map_option (\<lambda>(ma, a, _, _). (ma, a)) (address_get_by_device c dev)"

text \<open>
  A device can be bound when it is another device than this one, whose own number \<^verbatim>\<open>address_add\<close>
  ignores, and has an entry already or an entry is free.
\<close>

definition has_room :: "ADDRESS_CACHE \<Rightarrow> u32 \<Rightarrow> bool" where
  "has_room c dev \<longleftrightarrow> Own_Device_ID c \<noteq> dev \<and>
     (\<exists>e \<in> set (Address_Cache c). for_device dev e \<or> \<not> in_use e)"

lemma entry_flags [simp]:
  "in_use (new_entry dev ma src e)" "\<not> bind_req (new_entry dev ma src e)"
  "in_use (renewed_entry ma src e) = in_use e" "\<not> bind_req (renewed_entry ma src e)"
  by (simp_all add: new_entry_def renewed_entry_def flags_bits bit_simps)

lemma entry_view_stored:
  "wf_address src \<Longrightarrow> entry_view (new_entry dev ma src e) = (ma, src, segmentation e, maxsegments e)"
  "wf_address src \<Longrightarrow> entry_view (renewed_entry ma src e) = (ma, src, segmentation e, maxsegments e)"
  by (simp_all add: entry_view_def new_entry_def renewed_entry_def bacnet_address_copy_eq)

text \<open>One lookup after storing \<open>e\<close>, when the entry overwritten served nobody else.\<close>

lemma get_after_store:
  assumes "cache_inv c" "i < length (Address_Cache c)" "cache_inv (set_entry c i e)"
    and "in_use e" "device_id e = dev" "\<not> bind_req e"
  shows "address_get_by_device (set_entry c i e) d =
    (if d = dev then Some (entry_view e)
     else if for_device d (Address_Cache c ! i) then None
     else address_get_by_device c d)"
  using assms by (subst get_by_device_set_entry) (auto simp: cache_inv_def for_device_def)

lemma get_after_add:
  assumes inv: "cache_inv c" "wf_address src" and room: "has_room c dev"
  shows "\<exists>sg ms. address_get_by_device (address_add c dev ma src) =
    (address_get_by_device c)(dev \<mapsto> (ma, src, sg, ms))"
proof -
  have own: "Own_Device_ID c \<noteq> dev" using room by (simp add: has_room_def)
  note keep = address_add_keeps [OF inv, of dev ma]
  show ?thesis
    using own
  proof (cases rule: address_add_cases [where ma = ma and src = src])
    case renew
    let ?i = "find_index (for_device dev) (Address_Cache c)"
    have "for_device d (Address_Cache c ! ?i) \<longleftrightarrow> d = dev" for d
      using found_entry [OF refl renew(1)] by (auto simp: for_device_def)
    with renew inv keep show ?thesis
      by (auto simp: fun_eq_iff get_after_store found_entry entry_view_stored)
  next
    case free
    let ?j = "find_index (\<lambda>e. \<not> in_use e) (Address_Cache c)"
    have "\<not> for_device d (Address_Cache c ! ?j)" for d
      using find_index_nth [OF free(2)] by (simp add: for_device_def)
    with free inv keep show ?thesis
      by (auto simp: fun_eq_iff get_after_store entry_view_stored)
  qed (use room in \<open>auto simp: has_room_def find_index_less\<close>)
qed

lemma get_after_remove:
  assumes "cache_inv c"
  shows "address_get_by_device (address_remove_device c dev) = (address_get_by_device c)(dev := None)"
proof (cases "find_index (for_device dev) (Address_Cache c) < length (Address_Cache c)")
  case True
  let ?i = "find_index (for_device dev) (Address_Cache c)"
  let ?e = "(Address_Cache c ! ?i)\<lparr>Flags := 0\<rparr>"
  have "address_get_by_device (address_remove_device c dev)
      = address_get_by_device (set_entry c ?i ?e)"
    using True by (auto simp: address_remove_device_def address_get_by_device_def Let_def fun_eq_iff)
  moreover have "cache_inv (set_entry c ?i ?e)"
    using assms True by (auto intro!: update_found_keeps simp: found_entry entry_ok_def flags_bits dest: entry_ok_nth)
  ultimately show ?thesis
    using assms True found_entry [OF refl True]
    by (auto simp: fun_eq_iff get_by_device_set_entry cache_inv_def for_device_def flags_bits)
next
  case False
  then show ?thesis
    by (auto simp: address_remove_device_def address_get_by_device_def Let_def fun_eq_iff)
qed

lemma has_room_add:
  assumes "cache_inv c" "wf_address src" "has_room c dev"
  shows "has_room (address_add c dev ma src) dev"
proof -
  have own: "Own_Device_ID c \<noteq> dev" using assms(3) by (simp add: has_room_def)
  show ?thesis using own
  proof (cases rule: address_add_cases [where ma = ma and src = src])
    case renew
    let ?i = "find_index (for_device dev) (Address_Cache c)"
    have "for_device dev (renewed_entry ma src (Address_Cache c ! ?i))"
      using found_entry [OF refl renew(1)] by (simp add: for_device_def)
    with renew own show ?thesis
      by (auto simp: has_room_def intro!: bexI [OF _ set_update_memI])
  next
    case free
    then show ?thesis
      using own by (auto simp: has_room_def for_device_def intro!: bexI [OF _ set_update_memI])
  qed (use assms(3) in \<open>auto simp: has_room_def find_index_less\<close>)
qed

interpretation bnd: bounded_table cache_inv "\<lambda>(ma, src). wf_address src" binding
  "\<lambda>c dev (ma, src). address_add c dev ma src" address_remove_device has_room
proof (unfold_locales, goal_cases)
  case (1 s v k) then show ?case by (auto intro: address_add_keeps)
next
  case (2 s k) then show ?case by (rule remove_device_keeps)
next
  case (3 s v k)
  then obtain ma src where "v = (ma, src)" "wf_address src" by auto
  with get_after_add [of s src k ma] 3 show ?case by (auto simp: binding_def fun_eq_iff)
next
  case (4 s k) then show ?case by (auto simp: binding_def get_after_remove fun_eq_iff)
next
  case (5 s v k) then show ?case by (auto intro: has_room_add)
qed

section \<open>Reachable caches\<close>

inductive cache_step :: "ADDRESS_CACHE \<Rightarrow> ADDRESS_CACHE \<Rightarrow> bool" where
  protect: "cache_step c (address_protected_entry_index_set c i)"
| own: "cache_step c (address_own_device_id_set c i)"
| remove: "cache_step c (address_remove_device c dev)"
| init: "cache_step c (address_init c)"
| init_partial: "cache_step c (address_init_partial c)"
| set_ttl: "cache_step c (address_set_device_TTL c dev t st)"
| add: "wf_address src \<Longrightarrow> cache_step c (address_add c dev ma src)"
| request: "cache_step c (snd (address_device_bind_request c dev))"
| add_binding: "wf_address src \<Longrightarrow> cache_step c (address_add_binding c dev ma src)"
| timer: "cache_step c (address_cache_timer c s)"

definition zero_address :: BACNET_ADDRESS where
  "zero_address = \<lparr>mac_len = 0, mac = replicate MAX_MAC_LEN 0, net = 0, adr_len = 0,
     adr = replicate MAX_MAC_LEN 0\<rparr>"

definition zero_entry :: Address_Cache_Entry where
  "zero_entry = \<lparr>Flags = 0, device_id = 0, entry_max_apdu = 0, segmentation = 0,
     maxsegments = 0, address = zero_address, TimeToLive = 0\<rparr>"

definition initial_cache :: "nat \<Rightarrow> ADDRESS_CACHE" where
  "initial_cache n = \<lparr>Address_Cache = replicate n zero_entry, Top_Protected_Entry = 0,
     Own_Device_ID = 0xFFFFFFFF\<rparr>"

lemma wf_zero_address [simp]: "wf_address zero_address"
  by (simp add: zero_address_def wf_address_def)

lemma initial_cache_inv: "cache_inv (initial_cache n)"
  by (simp add: cache_inv_def initial_cache_def ids_distinct_def entry_ok_def zero_entry_def
      zero_address_def flags_bits wf_address_def)

lemma cache_step_keeps: "cache_step c c' \<Longrightarrow> cache_inv c \<Longrightarrow> cache_inv c'"
  by (induction rule: cache_step.induct)
    (auto intro: keeps_inv simp: address_protected_entry_index_set_def address_own_device_id_set_def)

lemma cache_reachable_inv: "cache_step\<^sup>*\<^sup>* (initial_cache n) c \<Longrightarrow> cache_inv c"
  by (induction rule: rtranclp_induct) (auto intro: initial_cache_inv cache_step_keeps)

lemma static_survives_add:
  assumes inv: "cache_inv c" "wf_address src" and d: "d \<noteq> dev"
    and st: "i < length (Address_Cache c)" "for_device d (Address_Cache c ! i)"
      "is_static (Address_Cache c ! i)"
  shows "address_get_by_device (address_add c dev ma src) d = address_get_by_device c d"
proof (cases "Own_Device_ID c = dev")
  case True then show ?thesis by (simp add: address_add_def)
next
  case False
  note keep = address_add_keeps [OF inv, of dev ma]
  have uniq: "k = i" if "k < length (Address_Cache c)" "for_device d (Address_Cache c ! k)" for k
    using inv(1) st that by (auto simp: cache_inv_def ids_distinct_def for_device_def)
  from False show ?thesis
  proof (cases rule: address_add_cases [where ma = ma and src = src])
    case renew
    then show ?thesis using inv d keep found_entry [OF refl renew(1)]
      by (simp add: get_after_store for_device_def)
  next
    case free
    then show ?thesis using inv d keep find_index_nth [OF free(2)]
      by (simp add: get_after_store for_device_def)
  next
    case (evict k)
    then have "\<not> for_device d (Address_Cache c ! k)"
      using remove_oldest_spec [OF evict(4)] uniq [of k] st(3) by auto
    then show ?thesis using evict inv d keep by (simp add: get_after_store)
  qed simp
qed

lemma timer_get:
  assumes "cache_inv c"
  shows "address_get_by_device (address_cache_timer c s) dev =
    (let i = find_index (for_device dev) (Address_Cache c) in
     if i < length (Address_Cache c) \<and> \<not> is_static (Address_Cache c ! i) \<and>
        TimeToLive (Address_Cache c ! i) < ucast s
     then None else address_get_by_device c dev)"
    (is "?l = ?r")
proof -
  let ?es = "Address_Cache c" and ?c = "address_cache_timer c s"
  have "ids_distinct (Address_Cache ?c)"
    using timer_keeps [OF assms, of s] by (simp add: cache_inv_def)
  from get_by_device_iff [OF this, of dev]
  have l: "?l = Some v \<longleftrightarrow> (\<exists>i < length ?es. for_device dev (timer_entry s (?es ! i)) \<and>
      \<not> bind_req (timer_entry s (?es ! i)) \<and> v = entry_view (timer_entry s (?es ! i)))" for v
    by (simp add: address_cache_timer_def cong: conj_cong)
  have e: "for_device dev (timer_entry s e) \<longleftrightarrow>
      for_device dev e \<and> (is_static e \<or> ucast s \<le> TimeToLive e)"
    "for_device dev (timer_entry s e) \<Longrightarrow> bind_req (timer_entry s e) = bind_req e"
    "for_device dev (timer_entry s e) \<Longrightarrow> entry_view (timer_entry s e) = entry_view e" for e
    by (auto simp: timer_entry_def for_device_def flags_bits entry_view_def)
  have dist: "ids_distinct ?es" using assms by (simp add: cache_inv_def)
  define i where "i = find_index (for_device dev) ?es"
  have only: "(\<exists>j < length ?es. for_device dev (?es ! j) \<and> Q j) \<longleftrightarrow> i < length ?es \<and> Q i" for Q
    using ids_distinct_find [OF dist] find_index_nth [of "for_device dev" ?es] unfolding i_def by metis
  have "?l = Some v \<longleftrightarrow> ?r = Some v" for v
  proof -
    have "?l = Some v \<longleftrightarrow> i < length ?es \<and> (is_static (?es ! i) \<or> ucast s \<le> TimeToLive (?es ! i)) \<and>
        \<not> bind_req (?es ! i) \<and> v = entry_view (?es ! i)"
    proof -
      have "?l = Some v \<longleftrightarrow> (\<exists>j < length ?es. for_device dev (?es ! j) \<and>
          ((is_static (?es ! j) \<or> ucast s \<le> TimeToLive (?es ! j)) \<and>
           \<not> bind_req (?es ! j) \<and> v = entry_view (?es ! j)))"
        unfolding l using e by (intro arg_cong [where f = Ex] ext) (auto simp: e)
      then show ?thesis unfolding only .
    qed
    moreover have "address_get_by_device c dev = Some v \<longleftrightarrow>
        i < length ?es \<and> \<not> bind_req (?es ! i) \<and> v = entry_view (?es ! i)"
      unfolding get_by_device_iff [OF dist] only ..
    ultimately show ?thesis by (auto simp: Let_def simp flip: i_def)
  qed
  then show ?thesis by (metis option.exhaust)
qed

section \<open>Properties\<close>

text \<open>
  C20. In every reachable cache, adding a device other than the own one that is already known, or for
  which an entry is free, changes the binding of that device to the given APDU size and address and no other
  binding; removing a device removes its binding and no other.
\<close>

theorem address_cache_is_map:
  assumes "cache_step\<^sup>*\<^sup>* (initial_cache n) c" "wf_address src" "has_room c dev"
  shows "binding (address_add c dev ma src) = (binding c)(dev \<mapsto> (ma, src)) \<and>
    binding (address_remove_device c dev) = (binding c)(dev := None)"
  using bnd.get_put [of c "(ma, src)" dev] bnd.get_del [of c dev] cache_reachable_inv [OF assms(1)]
    assms(2,3) by simp

theorem address_cache_is_map_witness:
  "binding (address_add (initial_cache 2) 7 480 zero_address) =
     (binding (initial_cache 2))(7 \<mapsto> (480, zero_address)) \<and>
   binding (address_remove_device (initial_cache 2) 7) = (binding (initial_cache 2))(7 := None)"
  by (rule address_cache_is_map [of 2])
    (simp_all add: zero_address_def wf_address_def has_room_def initial_cache_def zero_entry_def
      for_device_def in_use_def)

text \<open>
  A static binding survives every addition of another device, also when the cache is full
  and an entry has to be evicted.
\<close>

lemma static_binding_not_evicted:
  assumes "cache_inv c" "wf_address src" "d \<noteq> dev"
    and "i < length (Address_Cache c)" "for_device d (Address_Cache c ! i)"
      "is_static (Address_Cache c ! i)"
  shows "address_get_by_device (address_add c dev ma src) d =
    Some (entry_max_apdu (Address_Cache c ! i), address (Address_Cache c ! i),
      segmentation (Address_Cache c ! i), maxsegments (Address_Cache c ! i))"
proof -
  let ?e = "Address_Cache c ! i"
  have ok: "\<not> bind_req ?e" "wf_address (address ?e)"
    using entry_ok_nth [OF assms(1,4)] assms(5,6) by (auto simp: entry_ok_def for_device_def)
  then have "address_get_by_device c d = Some (entry_view ?e)"
    using assms(1,4,5) by (auto simp: get_by_device_iff cache_inv_def)
  with static_survives_add [OF assms] ok show ?thesis
    by (simp add: entry_view_def bacnet_address_copy_eq)
qed

definition static_cache :: ADDRESS_CACHE where
  "static_cache = address_set_device_TTL (address_add (initial_cache 1) 5 50 zero_address) 5 0 True"

lemma static_binding_not_evicted_witness:
  "address_get_by_device (address_add static_cache 9 480 zero_address) 5 =
    Some (entry_max_apdu (Address_Cache static_cache ! 0), address (Address_Cache static_cache ! 0),
      segmentation (Address_Cache static_cache ! 0), maxsegments (Address_Cache static_cache ! 0))"
proof (rule static_binding_not_evicted)
  show "cache_inv static_cache"
    unfolding static_cache_def
    by (intro set_device_TTL_keeps address_add_keeps initial_cache_inv)
      (simp add: zero_address_def wf_address_def)
qed (simp_all add: static_cache_def address_set_device_TTL_def address_add_def initial_cache_def
    zero_entry_def zero_address_def wf_address_def for_device_def flags_bits set_entry_def Let_def
    new_entry_def bit_simps)

text \<open>
  When an addition finds no entry for the device and no free entry, the entry given up is
  neither static nor, unless it is an unanswered bind request, inside the protected range, and
  no bound unprotected entry would have expired earlier.
\<close>

lemma eviction_takes_oldest:
  assumes "address_remove_oldest c = (Some k, c')"
  shows "k < length (Address_Cache c) \<and> \<not> is_static (Address_Cache c ! k) \<and>
    (\<not> bind_req (Address_Cache c ! k) \<longrightarrow> unat (Top_Protected_Entry c) \<le> k \<and>
      (\<forall>j < length (Address_Cache c). unat (Top_Protected_Entry c) \<le> j \<and>
         evict_bound (Address_Cache c ! j) \<longrightarrow>
         TimeToLive (Address_Cache c ! k) \<le> TimeToLive (Address_Cache c ! j)))"
  using remove_oldest_spec [OF assms] by auto

definition two_bound :: ADDRESS_CACHE where
  "two_bound = \<lparr>Address_Cache = [zero_entry\<lparr>Flags := 1, device_id := 1, TimeToLive := 20\<rparr>,
     zero_entry\<lparr>Flags := 1, device_id := 2, TimeToLive := 10\<rparr>],
     Top_Protected_Entry = 0, Own_Device_ID = 3\<rparr>"

theorem eviction_takes_oldest_witness:
  "TimeToLive (Address_Cache two_bound ! 1) \<le> TimeToLive (Address_Cache two_bound ! 0)"
proof -
  have "address_remove_oldest two_bound = (Some 1, reserve_entry two_bound 1)"
    by (simp add: address_remove_oldest_def two_bound_def Let_def evict_bound_def
        BAC_ADDR_FOREVER_def)
  from eviction_takes_oldest [OF this] show ?thesis
    by (simp add: two_bound_def zero_entry_def bind_req_def evict_bound_def)
qed

text \<open>
  A tick of the cache timer removes exactly the bindings of the entries that are not static
  and whose time to live is less than the seconds elapsed; every other binding stays.
\<close>

lemma address_cache_timer_expires:
  assumes "cache_step\<^sup>*\<^sup>* (initial_cache n) c"
  shows "address_get_by_device (address_cache_timer c s) dev =
    (let i = find_index (for_device dev) (Address_Cache c) in
     if i < length (Address_Cache c) \<and> \<not> is_static (Address_Cache c ! i) \<and>
        TimeToLive (Address_Cache c ! i) < ucast s
     then None else address_get_by_device c dev)"
  by (rule timer_get [OF cache_reachable_inv [OF assms]])

theorem address_cache_timer_expires_witness:
  "address_get_by_device (address_cache_timer (initial_cache 1) 30) 4 =
    (let i = find_index (for_device 4) (Address_Cache (initial_cache 1)) in
     if i < length (Address_Cache (initial_cache 1)) \<and>
        \<not> is_static (Address_Cache (initial_cache 1) ! i) \<and>
        TimeToLive (Address_Cache (initial_cache 1) ! i) < ucast (30 :: u16)
     then None else address_get_by_device (initial_cache 1) 4)"
  by (rule address_cache_timer_expires [of 1]) simp

text \<open>
  No operation of the cache records what a device announced about segmentation: every
  binding of a reachable cache reports segmentation value 0 (segmented-both) and 0 segments.
\<close>

lemma segmentation_never_recorded:
  assumes "cache_step\<^sup>*\<^sup>* (initial_cache n) c" "address_get_by_device c dev = Some (ma, a, sg, ms)"
  shows "sg = 0 \<and> ms = 0"
  using cache_reachable_inv [OF assms(1)] assms(2) entry_ok_nth [of c]
  by (auto simp: get_by_device_iff cache_inv_def entry_view_def entry_ok_def)

lemma segmentation_never_recorded_witness: "(0 :: u8) = 0 \<and> (0 :: u16) = 0"
proof (rule segmentation_never_recorded)
  show "cache_step\<^sup>*\<^sup>* (initial_cache 1) (address_add (initial_cache 1) 6 50 zero_address)"
    by (intro r_into_rtranclp cache_step.add) (simp add: zero_address_def wf_address_def)
  show "address_get_by_device (address_add (initial_cache 1) 6 50 zero_address) 6
      = Some (50, zero_address, 0, 0)"
    by (simp add: address_get_by_device_def address_add_def initial_cache_def zero_entry_def
        for_device_def flags_bits set_entry_def Let_def new_entry_def bacnet_address_copy_eq
        wf_zero_address)
qed

end
