(* ===== verification/Bac_Tsm.thy ===== *)
theory Bac_Tsm
  imports Bac_Binding
begin

text \<open>
  \<^verbatim>\<open>src/bacnet/basic/tsm/tsm.c\<close>, built with \<^verbatim>\<open>BACNET_SEGMENTATION_ENABLED\<close>: the transaction
  state machine. This theory holds its state and every one of its operations; the theories
  \<^verbatim>\<open>Bac_Tsm_Alloc\<close>, \<^verbatim>\<open>Bac_Tsm_Buffer\<close> and \<^verbatim>\<open>Bac_Tsm_Inv\<close> prove what they do.

  The static variables are the record \<open>TSM\<close>. The tables \<^verbatim>\<open>TSM_List\<close> and
  \<^verbatim>\<open>TSM_Peer_Ids\<close> are lists whose lengths are the build's \<^verbatim>\<open>MAX_TSM_TRANSACTIONS\<close> (at most
  255, so that an index fits its \<^verbatim>\<open>uint8_t\<close>) and \<^verbatim>\<open>MAX_TSM_PEERS\<close>. The values
  \<^verbatim>\<open>apdu_timeout()\<close>, \<^verbatim>\<open>apdu_retries()\<close> and \<^verbatim>\<open>apdu_segment_timeout()\<close> of
  \<^verbatim>\<open>h_apdu.c\<close> are the record \<open>APDU_CONFIG\<close>. What the machine transmits is appended to the
  list \<open>sent\<close>. A pointer to a heap block is \<open>None\<close> for NULL and otherwise the block's bytes.

  The record \<open>TSM_ENV\<close> holds what the module is given: the data link, which the build selects
  and which does I/O, the allocator, the cache of bindings, and the functions that function
  pointers stand for. An environment belongs to one call, so results may differ between calls.
\<close>

section \<open>State\<close>

datatype BACNET_TSM_STATE =
    TSM_STATE_IDLE
  | TSM_STATE_AWAIT_CONFIRMATION
  | TSM_STATE_AWAIT_RESPONSE
  | TSM_STATE_SEGMENTED_REQUEST_SERVER
  | TSM_STATE_SEGMENTED_CONFIRMATION
  | TSM_STATE_SEGMENTED_RESPONSE_SERVER

record BACNET_TSM_INDIRECT_DATA =
  PeerAddress :: BACNET_ADDRESS
  PeerInvokeID :: u8
  InternalInvokeID :: u8

record BACNET_TSM_DATA =
  RetryCount :: u8
  SegmentRetryCount :: u8
  SentAllSegments :: bool
  LastSequenceNumber :: u8
  InitialSequenceNumber :: u8
  ActualWindowSize :: u8
  ProposedWindowSize :: u8
  SegmentTimer :: u16
  RequestTimer :: u16
  InvokeID :: u8
  tsm_state :: BACNET_TSM_STATE
  tsm_dest :: BACNET_ADDRESS
  npdu_data :: BACNET_NPDU_DATA
  tsm_apdu_len :: u32
  tsm_apdu :: "bytes option"
  apdu_fixed_header :: BACNET_APDU_FIXED_HEADER
  apdu_maximum_length :: u32
  maximum_transmittable_length :: u32
  apdu_blob :: "bytes option"
  apdu_blob_allocated :: u32
  apdu_blob_size :: u32
  ReceivedSegmentsCount :: u32

record APDU_CONFIG =
  Timeout_Milliseconds :: u16
  Number_Of_Retries :: u8
  Segment_Timeout_Milliseconds :: u16
  Local_Network_Priority :: u8
  max_segments :: u8

type_synonym sent_pdu = "BACNET_ADDRESS \<times> BACNET_NPDU_DATA \<times> bytes"

record TSM =
  TSM_List :: "BACNET_TSM_DATA list"
  TSM_Peer_Ids :: "BACNET_TSM_INDIRECT_DATA list"
  Current_Invoke_ID :: u8
  Duplicate_Count :: u8
  Timeout_Function :: "nat option"
  config :: APDU_CONFIG
  sent :: "sent_pdu list"

record TSM_ENV =
  my_address :: BACNET_ADDRESS
  datalink_send_pdu :: "BACNET_ADDRESS \<Rightarrow> BACNET_NPDU_DATA \<Rightarrow> bytes \<Rightarrow> int"
  calloc_ok :: "u32 \<Rightarrow> bool"
  binding_cache :: ADDRESS_CACHE
  call_timeout :: "nat \<Rightarrow> u8 \<Rightarrow> TSM \<Rightarrow> TSM option"

definition DEFAULT_WINDOW_SIZE :: u8 where "DEFAULT_WINDOW_SIZE = 32"

abbreviation (input) MAX_TSM_TRANSACTIONS :: "TSM \<Rightarrow> nat" where
  "MAX_TSM_TRANSACTIONS s \<equiv> length (TSM_List s)"

definition upd_slot :: "TSM \<Rightarrow> nat \<Rightarrow> (BACNET_TSM_DATA \<Rightarrow> BACNET_TSM_DATA) \<Rightarrow> TSM" where
  "upd_slot s i f = s\<lparr>TSM_List := (TSM_List s)[i := f (TSM_List s ! i)]\<rparr>"

definition log_sent :: "sent_pdu list \<Rightarrow> TSM \<Rightarrow> TSM" where
  "log_sent ps s = s\<lparr>sent := sent s @ ps\<rparr>"

section \<open>Configuration\<close>

definition apdu_timeout :: "TSM \<Rightarrow> u16" where
  "apdu_timeout s = Timeout_Milliseconds (config s)"

definition apdu_timeout_set :: "u16 \<Rightarrow> TSM \<Rightarrow> TSM" where
  "apdu_timeout_set ms s = s\<lparr>config := (config s)\<lparr>Timeout_Milliseconds := ms\<rparr>\<rparr>"

definition apdu_retries :: "TSM \<Rightarrow> u8" where
  "apdu_retries s = Number_Of_Retries (config s)"

definition apdu_retries_set :: "u8 \<Rightarrow> TSM \<Rightarrow> TSM" where
  "apdu_retries_set v s = s\<lparr>config := (config s)\<lparr>Number_Of_Retries := v\<rparr>\<rparr>"

definition apdu_segment_timeout :: "TSM \<Rightarrow> u16" where
  "apdu_segment_timeout s = Segment_Timeout_Milliseconds (config s)"

definition apdu_segment_timeout_set :: "u16 \<Rightarrow> TSM \<Rightarrow> TSM" where
  "apdu_segment_timeout_set ms s = s\<lparr>config := (config s)\<lparr>Segment_Timeout_Milliseconds := ms\<rparr>\<rparr>"

definition apdu_network_priority :: "TSM \<Rightarrow> u8" where
  "apdu_network_priority s = Local_Network_Priority (config s)"

definition apdu_network_priority_set :: "u8 \<Rightarrow> TSM \<Rightarrow> TSM" where
  "apdu_network_priority_set pri s = s\<lparr>config := (config s)\<lparr>Local_Network_Priority := pri AND 0x03\<rparr>\<rparr>"

definition max_segments_accepted_set :: "u8 \<Rightarrow> TSM \<Rightarrow> TSM" where
  "max_segments_accepted_set m s = s\<lparr>config := (config s)\<lparr>max_segments := m\<rparr>\<rparr>"

definition max_segments_accepted_get :: "TSM \<Rightarrow> u8" where
  "max_segments_accepted_get s = max_segments (config s)"

section \<open>Invoke identifiers\<close>

definition tsm_set_timeout_handler :: "nat option \<Rightarrow> TSM \<Rightarrow> TSM" where
  "tsm_set_timeout_handler pFunction s = s\<lparr>Timeout_Function := pFunction\<rparr>"

definition tsm_find_invokeID_index :: "TSM \<Rightarrow> u8 \<Rightarrow> nat" where
  "tsm_find_invokeID_index s iid = find_index (\<lambda>d. InvokeID d = iid) (TSM_List s)"

definition tsm_find_first_free_index :: "TSM \<Rightarrow> nat" where
  "tsm_find_first_free_index s = find_index (\<lambda>d. InvokeID d = 0) (TSM_List s)"

definition tsm_transaction_available :: "TSM \<Rightarrow> bool" where
  "tsm_transaction_available s = list_ex (\<lambda>d. InvokeID d = 0) (TSM_List s)"

definition tsm_transaction_idle_count :: "TSM \<Rightarrow> u8" where
  "tsm_transaction_idle_count s =
     foldl (\<lambda>count d. if InvokeID d = 0 \<and> tsm_state d = TSM_STATE_IDLE then count + 1 else count)
       0 (TSM_List s)"

definition tsm_invokeID_set :: "u8 \<Rightarrow> TSM \<Rightarrow> TSM" where
  "tsm_invokeID_set iid s = s\<lparr>Current_Invoke_ID := (if iid = 0 then 1 else iid)\<rparr>"

definition next_invoke_id :: "u8 \<Rightarrow> u8" where
  "next_invoke_id iid = (if iid + 1 = 0 then 1 else iid + 1)"

text \<open>
  The loop \<^verbatim>\<open>while (!found)\<close> of \<^verbatim>\<open>tsm_next_free_invokeID\<close>. A candidate that is in use is
  replaced by its successor, and the candidates repeat after 255 rounds, so that a search
  not over after 256 rounds never ends.
\<close>

fun next_free_loop :: "nat \<Rightarrow> TSM \<Rightarrow> (u8 \<times> TSM) option" where
  "next_free_loop 0 s = None"
| "next_free_loop (Suc fuel) s =
     (if tsm_find_invokeID_index s (Current_Invoke_ID s) = MAX_TSM_TRANSACTIONS s then
        let index = tsm_find_first_free_index s; iid = Current_Invoke_ID s in
        if index \<noteq> MAX_TSM_TRANSACTIONS s
        then Some (iid, (upd_slot s index (\<lambda>d. d\<lparr>InvokeID := iid, tsm_state := TSM_STATE_IDLE,
               RequestTimer := apdu_timeout s\<rparr>))\<lparr>Current_Invoke_ID := next_invoke_id iid\<rparr>)
        else Some (0, s)
      else next_free_loop fuel (s\<lparr>Current_Invoke_ID := next_invoke_id (Current_Invoke_ID s)\<rparr>))"

definition tsm_next_free_invokeID :: "TSM \<Rightarrow> (u8 \<times> TSM) option" where
  "tsm_next_free_invokeID s =
     (if tsm_transaction_available s then next_free_loop 256 s else Some (0, s))"

definition tsm_set_confirmed_unsegmented_transaction ::
  "u8 \<Rightarrow> BACNET_ADDRESS \<Rightarrow> BACNET_NPDU_DATA \<Rightarrow> bytes \<Rightarrow> u16 \<Rightarrow> TSM \<Rightarrow> TSM option" where
  "tsm_set_confirmed_unsegmented_transaction iid d n bs len s =
     (if iid \<noteq> 0 \<and> 0 < len then
        let index = tsm_find_invokeID_index s iid in
        if index < MAX_TSM_TRANSACTIONS s then do {
          src \<leftarrow> read_at bs 0 (unat len);
          dst \<leftarrow> tsm_apdu (TSM_List s ! index);
          copy \<leftarrow> write_at dst 0 src;
          Some (upd_slot s index (\<lambda>p. p\<lparr>tsm_state := TSM_STATE_AWAIT_CONFIRMATION,
            RetryCount := 0, RequestTimer := apdu_timeout s, tsm_apdu := Some copy,
            tsm_apdu_len := ucast len, npdu_data := npdu_copy_data (npdu_data p) n,
            tsm_dest := bacnet_address_copy (tsm_dest p) d\<rparr>)) }
        else Some s
      else Some s)"

text \<open>
  \<^verbatim>\<open>tsm_get_transaction_pdu\<close> truncates the length to 16 bits, caps it at \<^verbatim>\<open>MAX_PDU\<close> and copies
  that many octets to the caller; the caller's buffer is large enough.
\<close>

definition tsm_get_transaction_pdu ::
  "u8 \<Rightarrow> TSM \<Rightarrow> (BACNET_ADDRESS \<times> BACNET_NPDU_DATA \<times> bytes) option option" where
  "tsm_get_transaction_pdu iid s =
     (if iid \<noteq> 0 then
        let index = tsm_find_invokeID_index s iid in
        if index < MAX_TSM_TRANSACTIONS s then
          let p = TSM_List s ! index;
              len = min (unat (ucast (tsm_apdu_len p) :: u16)) MAX_PDU in
          do {
            bs \<leftarrow> (if len = 0 then Some [] else do { b \<leftarrow> tsm_apdu p; read_at b 0 len });
            Some (Some (bacnet_address_copy (tsm_dest p) (tsm_dest p),
                        npdu_copy_data (npdu_data p) (npdu_data p), bs)) }
        else Some None
      else Some None)"

definition tsm_free_invoke_id :: "u8 \<Rightarrow> TSM \<Rightarrow> TSM" where
  "tsm_free_invoke_id iid s =
     (let index = tsm_find_invokeID_index s iid in
      if index < MAX_TSM_TRANSACTIONS s
      then upd_slot s index (\<lambda>d. d\<lparr>tsm_state := TSM_STATE_IDLE, InvokeID := 0\<rparr>)
      else s)"

definition tsm_invoke_id_free :: "u8 \<Rightarrow> TSM \<Rightarrow> bool" where
  "tsm_invoke_id_free iid s = (\<not> tsm_find_invokeID_index s iid < MAX_TSM_TRANSACTIONS s)"

definition tsm_invoke_id_failed :: "u8 \<Rightarrow> TSM \<Rightarrow> bool" where
  "tsm_invoke_id_failed iid s =
     (let index = tsm_find_invokeID_index s iid in
      index < MAX_TSM_TRANSACTIONS s \<and> tsm_state (TSM_List s ! index) = TSM_STATE_IDLE)"

section \<open>Short PDUs\<close>

text \<open>
  \<^verbatim>\<open>segmentack_pdu_send\<close> and \<^verbatim>\<open>abort_pdu_send\<close> build a PDU in a local buffer of
  \<^verbatim>\<open>MAX_PDU\<close> bytes and ignore the result of the data link. The network layer encoder may
  shorten the address it is given, so the caller's address is a result.
\<close>

definition send_apdu :: "TSM_ENV \<Rightarrow> BACNET_ADDRESS \<Rightarrow> bytes \<Rightarrow> TSM \<Rightarrow> (BACNET_ADDRESS \<times> TSM) option" where
  "send_apdu env d bs s =
     (let n = npdu_encode_npdu_data False MESSAGE_PRIORITY_NORMAL;
          (npdu, d', _) = npdu_encode_pdu (Some d) (Some (my_address env)) n
      in do {
        ensure (length npdu + length bs \<le> MAX_PDU);
        Some (the d', log_sent [(the d', n, npdu @ bs)] s) })"

definition segmentack_pdu_send ::
  "TSM_ENV \<Rightarrow> BACNET_ADDRESS \<Rightarrow> bool \<Rightarrow> bool \<Rightarrow> u8 \<Rightarrow> u8 \<Rightarrow> u8 \<Rightarrow> TSM \<Rightarrow> (BACNET_ADDRESS \<times> TSM) option"
where
  "segmentack_pdu_send env d negativeack server iid seq win s =
     send_apdu env d (segmentack_encode_apdu negativeack server iid seq win) s"

definition abort_pdu_send ::
  "TSM_ENV \<Rightarrow> u8 \<Rightarrow> BACNET_ADDRESS \<Rightarrow> int \<Rightarrow> bool \<Rightarrow> TSM \<Rightarrow> (BACNET_ADDRESS \<times> TSM) option" where
  "abort_pdu_send env iid d reason server s =
     send_apdu env d (abort_encode_apdu iid (of_int reason) server) s"

section \<open>Buffers of a transaction\<close>

definition get_apdu_header_typical_size :: "BACNET_APDU_FIXED_HEADER \<Rightarrow> bool \<Rightarrow> u32" where
  "get_apdu_header_typical_size h segmented =
     (if pdu_type h = PDU_TYPE_COMPLEX_ACK then if segmented then 5 else 3
      else if pdu_type h = PDU_TYPE_CONFIRMED_SERVICE_REQUEST then if segmented then 6 else 4
      else 3)"

definition free_blob :: "BACNET_TSM_DATA \<Rightarrow> BACNET_TSM_DATA" where
  "free_blob d = d\<lparr>apdu_blob := None, apdu_blob_allocated := 0, apdu_blob_size := 0,
     tsm_apdu := None, tsm_apdu_len := 0\<rparr>"

definition reset_blob :: "BACNET_TSM_DATA \<Rightarrow> BACNET_TSM_DATA" where
  "reset_blob d = d\<lparr>apdu_blob_size := 0\<rparr>"

text \<open>
  \<^verbatim>\<open>ensure_extra_blob_size\<close> does not test what \<^verbatim>\<open>calloc\<close> returns: when it fails, copying old
  data is undefined, and without old data the slot is left with a NULL block. Copying
  zero bytes touches no memory.
\<close>

definition ensure_extra_blob_size :: "TSM_ENV \<Rightarrow> BACNET_TSM_DATA \<Rightarrow> u32 \<Rightarrow> BACNET_TSM_DATA option" where
  "ensure_extra_blob_size env d allocation_unit =
     (if allocation_unit = 0 then Some d
      else if apdu_blob d = None \<or> apdu_blob_allocated d = 0 \<or>
              apdu_blob_allocated d < allocation_unit + apdu_blob_size d then
        let n = apdu_blob_allocated d + allocation_unit;
            fresh = (if calloc_ok env n then Some (replicate (unat n) 0) else None) in
        do {
          fresh \<leftarrow> (if apdu_blob_size d = 0 then Some fresh
                    else do {
                      new \<leftarrow> fresh;
                      old \<leftarrow> apdu_blob d;
                      data \<leftarrow> read_at old 0 (unat (apdu_blob_size d));
                      copy \<leftarrow> write_at new 0 data;
                      Some (Some copy) });
          Some (d\<lparr>apdu_blob := fresh, apdu_blob_allocated := n\<rparr>) }
      else Some d)"

definition add_blob_data :: "TSM_ENV \<Rightarrow> BACNET_TSM_DATA \<Rightarrow> bytes \<Rightarrow> BACNET_TSM_DATA option" where
  "add_blob_data env d bdata =
     (let data_len = of_nat (length bdata) in
      do {
        d \<leftarrow> ensure_extra_blob_size env d data_len;
        blob \<leftarrow> (if bdata = [] then Some (apdu_blob d)
                 else do {
                   b \<leftarrow> apdu_blob d;
                   b' \<leftarrow> write_at b (unat (apdu_blob_size d)) bdata;
                   Some (Some b') });
        Some (d\<lparr>apdu_blob := blob, apdu_blob_size := apdu_blob_size d + data_len\<rparr>) })"

text \<open>\<^verbatim>\<open>get_blob_data\<close> gives the block and its size in 16 bits: the bytes the caller may read.\<close>

definition get_blob_data :: "BACNET_TSM_DATA \<Rightarrow> bytes option" where
  "get_blob_data d = map_option (take (unat (ucast (apdu_blob_size d) :: u16))) (apdu_blob d)"

definition copy_apdu_blob_data :: "TSM_ENV \<Rightarrow> BACNET_TSM_DATA \<Rightarrow> bytes \<Rightarrow> BACNET_TSM_DATA" where
  "copy_apdu_blob_data env d bdata =
     (let data_len = of_nat (length bdata) in
      if calloc_ok env data_len then d\<lparr>tsm_apdu := Some bdata, tsm_apdu_len := data_len\<rparr>
      else d\<lparr>tsm_apdu := None\<rparr>)"

text \<open>
  \<^verbatim>\<open>get_apdu_blob_data_segment\<close> computes in \<^verbatim>\<open>int\<close>; a signed overflow and a pointer outside
  the block are undefined. The result is the offset of the segment in the block, \<open>None\<close>
  for the NULL pointer, and its length.
\<close>

definition get_apdu_blob_data_segment :: "BACNET_TSM_DATA \<Rightarrow> u32 \<Rightarrow> (nat option \<times> u32) option" where
  "get_apdu_blob_data_segment d segment_number =
     (let segmented = common_segmented_message (service_data (apdu_fixed_header d));
          header_size = get_apdu_header_typical_size (apdu_fixed_header d) segmented;
          block = sint (apdu_maximum_length d - header_size);
          position = sint segment_number * block;
          remaining = sint (tsm_apdu_len d) - position;
          len = of_int (max 0 (min remaining block)) :: u32
      in do {
        ensure (- (2 ^ 31) \<le> position \<and> position < 2 ^ 31);
        ensure (- (2 ^ 31) \<le> remaining \<and> remaining < 2 ^ 31);
        case tsm_apdu d of
          None \<Rightarrow> do { ensure (position = 0); Some (None, len) }
        | Some b \<Rightarrow> do {
            ensure (0 \<le> position \<and> position \<le> int (length b));
            Some (Some (nat position), len) } })"

section \<open>Peers\<close>

definition tsm_clear_peer_id :: "u8 \<Rightarrow> TSM \<Rightarrow> TSM" where
  "tsm_clear_peer_id iid s =
     s\<lparr>TSM_Peer_Ids :=
        map (\<lambda>p. if InternalInvokeID p = iid then p\<lparr>InternalInvokeID := 0\<rparr> else p) (TSM_Peer_Ids s)\<rparr>"

definition tsm_free_invoke_id_check :: "u8 \<Rightarrow> BACNET_ADDRESS option \<Rightarrow> bool \<Rightarrow> TSM \<Rightarrow> TSM" where
  "tsm_free_invoke_id_check iid peer_address cleanup s =
     (let index = tsm_find_invokeID_index s iid in
      if index < MAX_TSM_TRANSACTIONS s \<and>
         (case peer_address of None \<Rightarrow> True
          | Some a \<Rightarrow> bacnet_address_same a (tsm_dest (TSM_List s ! index))) then
        let s = upd_slot s index (\<lambda>d. d\<lparr>tsm_state := TSM_STATE_IDLE\<rparr>);
            s = tsm_clear_peer_id iid s;
            s = upd_slot s index (\<lambda>d. d\<lparr>InvokeID := 0\<rparr>)
        in if cleanup then upd_slot s index free_blob else s
      else s)"

definition peer_matches :: "BACNET_ADDRESS \<Rightarrow> u8 \<Rightarrow> BACNET_TSM_INDIRECT_DATA \<Rightarrow> bool" where
  "peer_matches src iid p =
     (InternalInvokeID p \<noteq> 0 \<and> iid = PeerInvokeID p \<and> bacnet_address_same src (PeerAddress p))"

definition upd_peer :: "TSM \<Rightarrow> nat \<Rightarrow> (BACNET_TSM_INDIRECT_DATA \<Rightarrow> BACNET_TSM_INDIRECT_DATA) \<Rightarrow> TSM" where
  "upd_peer s i f = s\<lparr>TSM_Peer_Ids := (TSM_Peer_Ids s)[i := f (TSM_Peer_Ids s ! i)]\<rparr>"

text \<open>The result is the index of the entry the pointer would point to.\<close>

definition tsm_get_peer_id_data ::
  "BACNET_ADDRESS \<Rightarrow> u8 \<Rightarrow> bool \<Rightarrow> TSM \<Rightarrow> (nat option \<times> TSM) option" where
  "tsm_get_peer_id_data src iid createPeerId s =
     (let n = length (TSM_Peer_Ids s);
          item = find_index (peer_matches src iid) (TSM_Peer_Ids s);
          free_ix = find_index (\<lambda>p. InternalInvokeID p = 0) (TSM_Peer_Ids s) in
      if item < n then Some (Some item, s)
      else if createPeerId \<and> free_ix < n then do {
        let s = upd_peer s free_ix (\<lambda>p. p\<lparr>PeerInvokeID := iid, PeerAddress := src\<rparr>);
        (internal, s) \<leftarrow> tsm_next_free_invokeID s;
        let s = upd_peer s free_ix (\<lambda>p. p\<lparr>InternalInvokeID := internal\<rparr>);
        let index = tsm_find_invokeID_index s internal;
        if index < MAX_TSM_TRANSACTIONS s
        then Some (Some free_ix, upd_slot s index (\<lambda>d. d\<lparr>InvokeID := internal, tsm_dest := src\<rparr>))
        else Some (None, upd_peer s free_ix (\<lambda>p. p\<lparr>InternalInvokeID := 0\<rparr>)) }
      else Some (None, s))"

definition tsm_get_peer_id :: "BACNET_ADDRESS \<Rightarrow> u8 \<Rightarrow> TSM \<Rightarrow> (u8 \<times> TSM) option" where
  "tsm_get_peer_id src iid s = do {
     (item, s) \<leftarrow> tsm_get_peer_id_data src iid True s;
     case item of
       None \<Rightarrow> Some (0, s)
     | Some i \<Rightarrow> Some (InternalInvokeID (TSM_Peer_Ids s ! i), s) }"

section \<open>Receiving a segmented request\<close>

definition DuplicateInWindow :: "BACNET_TSM_DATA \<Rightarrow> u8 \<Rightarrow> u32 \<Rightarrow> u32 \<Rightarrow> bool" where
  "DuplicateInWindow d seqA first_sequence_number last_sequence_number =
     (let received_count = ucast ((last_sequence_number - first_sequence_number) mod 256) :: u8 in
      if ActualWindowSize d < received_count then False
      else if (ucast seqA - first_sequence_number) mod 256 \<le> ucast received_count then True
      else if received_count = 0 \<and>
              (first_sequence_number - ucast seqA) mod 256 \<le> ucast (ActualWindowSize d) then True
      else False)"

definition duplicate_segment_received ::
  "TSM_ENV \<Rightarrow> nat \<Rightarrow> BACNET_CONFIRMED_SERVICE_DATA \<Rightarrow> BACNET_ADDRESS \<Rightarrow> TSM
   \<Rightarrow> (bool \<times> BACNET_ADDRESS \<times> TSM) option" where
  "duplicate_segment_received env index sd src s =
     (let Ndup = ActualWindowSize (TSM_List s ! index) in
      if Duplicate_Count s < Ndup then
        let s = upd_slot s index (\<lambda>d. d\<lparr>SegmentTimer := apdu_segment_timeout s\<rparr>)
        in Some (True, src, s\<lparr>Duplicate_Count := Duplicate_Count s + 1\<rparr>)
      else if Duplicate_Count s = Ndup then do {
        (src, s) \<leftarrow> segmentack_pdu_send env src True True (invoke_id sd)
                     (LastSequenceNumber (TSM_List s ! index)) Ndup s;
        let s = upd_slot s index (\<lambda>d. d\<lparr>SegmentTimer := apdu_segment_timeout s,
                  InitialSequenceNumber := LastSequenceNumber d\<rparr>);
        Some (True, src, s\<lparr>Duplicate_Count := 0\<rparr>) }
      else Some (False, src, s))"

text \<open>
  The two cases of the switch in \<^verbatim>\<open>tsm_set_segmented_confirmed_service_received\<close>. Their result
  is the return value, the service request, the source address and the state.
\<close>

definition segment_in_idle ::
  "TSM_ENV \<Rightarrow> nat \<Rightarrow> u8 \<Rightarrow> BACNET_ADDRESS \<Rightarrow> BACNET_CONFIRMED_SERVICE_DATA \<Rightarrow> bytes option \<Rightarrow> TSM
   \<Rightarrow> (bool \<times> bytes option \<times> BACNET_ADDRESS \<times> TSM) option" where
  "segment_in_idle env index iid src sd req s =
     (let s = upd_slot s index (\<lambda>d. reset_blob (d\<lparr>
            tsm_state := TSM_STATE_SEGMENTED_REQUEST_SERVER,
            ActualWindowSize := proposed_window_number sd,
            ProposedWindowSize := proposed_window_number sd,
            InitialSequenceNumber := 0, LastSequenceNumber := 0,
            RetryCount := 0, SegmentRetryCount := 0, ReceivedSegmentsCount := 1,
            RequestTimer := 0, SegmentTimer := apdu_segment_timeout s * 4\<rparr>));
          w = ProposedWindowSize (TSM_List s ! index) in
      if sequence_number sd = 0 \<and> (w = 0 \<or> 127 < w) then do {
        (src, s) \<leftarrow> abort_pdu_send env (invoke_id sd) src ABORT_REASON_WINDOW_SIZE_OUT_OF_RANGE True s;
        Some (False, req, src, upd_slot s index (\<lambda>d. d\<lparr>tsm_state := TSM_STATE_IDLE\<rparr>)) }
      else if sequence_number sd \<noteq> 0 then do {
        let s = upd_slot s index free_blob;
        (src, s) \<leftarrow> abort_pdu_send env (invoke_id sd) src ABORT_REASON_INVALID_APDU_IN_THIS_STATE True s;
        Some (False, req, src, tsm_free_invoke_id_check iid None True s) }
      else do {
        d \<leftarrow> add_blob_data env (TSM_List s ! index) (case req of None \<Rightarrow> [] | Some r \<Rightarrow> r);
        let s = upd_slot s index (\<lambda>_. d);
        (src, s) \<leftarrow> segmentack_pdu_send env src False True (invoke_id sd)
                     (LastSequenceNumber (TSM_List s ! index))
                     (ActualWindowSize (TSM_List s ! index)) s;
        Some (False, req, src, s) })"

text \<open>A segment with the number expected next.\<close>

definition new_segment_received ::
  "TSM_ENV \<Rightarrow> nat \<Rightarrow> u8 \<Rightarrow> BACNET_ADDRESS \<Rightarrow> BACNET_CONFIRMED_SERVICE_DATA \<Rightarrow> bytes option \<Rightarrow> TSM
   \<Rightarrow> (bool \<times> bytes option \<times> BACNET_ADDRESS \<times> TSM) option" where
  "new_segment_received env index iid src sd req s =
     (let s = upd_slot s index (\<lambda>d. d\<lparr>ReceivedSegmentsCount := ReceivedSegmentsCount d + 1\<rparr>) in
      if of_nat MAX_SEGMENTS_ACCEPTED < ReceivedSegmentsCount (TSM_List s ! index) then do {
        (src, s) \<leftarrow> abort_pdu_send env (invoke_id sd) src ABORT_REASON_BUFFER_OVERFLOW True s;
        let s = upd_slot s index free_blob;
        let s = upd_slot s index (\<lambda>d. d\<lparr>tsm_state := TSM_STATE_IDLE\<rparr>);
        Some (False, req, src, tsm_free_invoke_id_check iid None True s) }
      else do {
        let s = upd_slot s index (\<lambda>d. d\<lparr>LastSequenceNumber := sequence_number sd\<rparr>);
        d \<leftarrow> add_blob_data env (TSM_List s ! index) (case req of None \<Rightarrow> [] | Some r \<Rightarrow> r);
        let s = upd_slot s index (\<lambda>_. d);
        let group_end = (sequence_number sd = InitialSequenceNumber d + ActualWindowSize d);
        let s = (if group_end
                 then upd_slot s index (\<lambda>d. d\<lparr>InitialSequenceNumber := sequence_number sd\<rparr>) else s);
        let result = (\<not> more_follows sd);
        let req = (if result then get_blob_data (TSM_List s ! index) else req);
        (src, s) \<leftarrow> (if group_end \<or> result
                     then segmentack_pdu_send env src False True (invoke_id sd)
                            (LastSequenceNumber (TSM_List s ! index))
                            (ActualWindowSize (TSM_List s ! index)) s
                     else Some (src, s));
        Some (result, req, src, s) })"

text \<open>What is done with a segment once the timers are set: duplicate, out of order, or next.\<close>

definition segment_in_sequence ::
  "TSM_ENV \<Rightarrow> nat \<Rightarrow> u8 \<Rightarrow> BACNET_ADDRESS \<Rightarrow> BACNET_CONFIRMED_SERVICE_DATA \<Rightarrow> bytes option \<Rightarrow> TSM
   \<Rightarrow> (bool \<times> bytes option \<times> BACNET_ADDRESS \<times> TSM) option" where
  "segment_in_sequence env index iid src sd req s =
     (let d = TSM_List s ! index in
      if sequence_number sd \<noteq> LastSequenceNumber d + 1 then
        if DuplicateInWindow d (sequence_number sd) (ucast (InitialSequenceNumber d) mod 256)
             (ucast (LastSequenceNumber d)) then do {
          (_, src, s) \<leftarrow> duplicate_segment_received env index sd src s;
          Some (False, req, src, s) }
        else do {
          (src, s) \<leftarrow> segmentack_pdu_send env src True True (invoke_id sd)
                       (LastSequenceNumber d) (ActualWindowSize d) s;
          Some (False, req, src, s\<lparr>Duplicate_Count := 0\<rparr>) }
      else new_segment_received env index iid src sd req s)"

definition segment_in_request ::
  "TSM_ENV \<Rightarrow> nat \<Rightarrow> u8 \<Rightarrow> BACNET_ADDRESS \<Rightarrow> BACNET_CONFIRMED_SERVICE_DATA \<Rightarrow> bytes option \<Rightarrow> TSM
   \<Rightarrow> (bool \<times> bytes option \<times> BACNET_ADDRESS \<times> TSM) option" where
  "segment_in_request env index iid src sd req s = do {
     let s = upd_slot s index (\<lambda>d. d\<lparr>RequestTimer := 0, SegmentTimer := apdu_segment_timeout s * 4\<rparr>);
     (src, s) \<leftarrow>
       (if apdu_timeout s < SegmentTimer (TSM_List s ! index) then do {
          (src, s) \<leftarrow> abort_pdu_send env (invoke_id sd) src
                       ABORT_REASON_APPLICATION_EXCEEDED_REPLY_TIME True s;
          Some (src, upd_slot s index (\<lambda>d. d\<lparr>tsm_state := TSM_STATE_IDLE\<rparr>)) }
        else Some (src, s));
     segment_in_sequence env index iid src sd req s }"

definition tsm_set_segmented_confirmed_service_received ::
  "TSM_ENV \<Rightarrow> BACNET_ADDRESS \<Rightarrow> BACNET_CONFIRMED_SERVICE_DATA \<Rightarrow> bytes option \<Rightarrow> TSM
   \<Rightarrow> (bool \<times> u8 \<times> bytes option \<times> BACNET_ADDRESS \<times> TSM) option" where
  "tsm_set_segmented_confirmed_service_received env src sd req s = do {
     (iid, s) \<leftarrow> tsm_get_peer_id src (invoke_id sd) s;
     if iid = 0 then do {
       (src, s) \<leftarrow> abort_pdu_send env (invoke_id sd) src
                    ABORT_REASON_PREEMPTED_BY_HIGHER_PRIORITY_TASK True s;
       Some (False, iid, req, src, s) }
     else do {
     let index = tsm_find_invokeID_index s iid;
     if \<not> index < MAX_TSM_TRANSACTIONS s then do {
       (src, s) \<leftarrow> abort_pdu_send env (invoke_id sd) src ABORT_REASON_OTHER True s;
       Some (False, iid, req, src, s) }
     else do {
     (result, req, src, s) \<leftarrow>
       (case tsm_state (TSM_List s ! index) of
          TSM_STATE_IDLE \<Rightarrow> segment_in_idle env index iid src sd req s
        | TSM_STATE_SEGMENTED_REQUEST_SERVER \<Rightarrow> segment_in_request env index iid src sd req s
        | _ \<Rightarrow> Some (False, req, src, s));
     Some (result, iid, req, src, s) } } }"

section \<open>Sending a response\<close>

definition get_apdu_max_segments :: "BACNET_TSM_DATA \<Rightarrow> u32 option" where
  "get_apdu_max_segments d =
     (let header_size = get_apdu_header_typical_size (apdu_fixed_header d) False in
      if header_size + tsm_apdu_len d \<le> apdu_maximum_length d then Some 1
      else
        let block = apdu_maximum_length d - get_apdu_header_typical_size (apdu_fixed_header d) True in
        do { ensure (block \<noteq> 0); Some ((tsm_apdu_len d - 1) div block + 1) })"

text \<open>
  The values \<^verbatim>\<open>*apdu_max\<close> and \<^verbatim>\<open>*total_max\<close>. The maximum number of segments passes through a
  \<^verbatim>\<open>uint16_t\<close>; \<^verbatim>\<open>SEGMENTATION_BOTH\<close> is 0 and \<^verbatim>\<open>SEGMENTATION_RECEIVE\<close> is 2.
\<close>

definition bacnet_calc_transmittable_length ::
  "ADDRESS_CACHE \<Rightarrow> BACNET_ADDRESS \<Rightarrow> BACNET_CONFIRMED_SERVICE_DATA option \<Rightarrow> u32 \<times> u32" where
  "bacnet_calc_transmittable_length cache d csd =
     (case csd of
        Some c \<Rightarrow>
          let apdu_max = of_int (min (max_resp c) (int MAX_APDU)) in
          if segmented_response_accepted c then
            let m = of_int (max_segs c) :: u16;
                m = (if m = 0 \<or> 64 < m then of_nat MAX_SEGMENTS_ACCEPTED else m)
            in (apdu_max, of_nat (min (unat m) MAX_SEGMENTS_ACCEPTED) * apdu_max)
          else (apdu_max, apdu_max)
      | None \<Rightarrow>
          let default = (of_nat MAX_APDU, of_nat MAX_APDU * of_nat MAX_SEGMENTS_ACCEPTED) in
          (case address_get_device_id cache d of
             None \<Rightarrow> default
           | Some deviceId \<Rightarrow>
               (case address_get_by_device cache deviceId of
                  None \<Rightarrow> default
                | Some (max_apdu, _, segm, m) \<Rightarrow>
                    let apdu_max = of_nat (min (unat max_apdu) MAX_APDU) in
                    if segm = 0 \<or> segm = 2 then
                      let m = (if m = 0 then of_nat MAX_SEGMENTS_ACCEPTED else m)
                      in (apdu_max, of_nat (min (unat m) MAX_SEGMENTS_ACCEPTED) * apdu_max)
                    else (apdu_max, apdu_max))))"

definition check_write_apdu_space :: "int \<Rightarrow> int \<Rightarrow> int \<Rightarrow> bool" where
  "check_write_apdu_space len max_apdu space_needed = (len + space_needed < max_apdu)"

text \<open>The header tweaks of \<^verbatim>\<open>tsm_pdu_send\<close>.\<close>

definition set_segment_header :: "BACNET_TSM_DATA \<Rightarrow> u32 \<Rightarrow> u32 \<Rightarrow> BACNET_TSM_DATA option" where
  "set_segment_header d segment_number total_segments =
     (let h = apdu_fixed_header d in
      if total_segments = 1 then
        Some (d\<lparr>apdu_fixed_header := h\<lparr>service_data := set_common_segmented False (service_data h)\<rparr>\<rparr>)
      else do {
        sd \<leftarrow> set_common_sequence_number (ucast segment_number)
               (set_common_more_follows (segment_number < total_segments - 1)
                 (set_common_segmented True (service_data h)));
        Some (d\<lparr>apdu_fixed_header := h\<lparr>service_data := sd\<rparr>\<rparr>) })"

text \<open>
  The result of \<^verbatim>\<open>tsm_pdu_send\<close>: the return value, the transaction with the header and the
  address it modified, and what was handed to the data link.
\<close>

definition tsm_pdu_send ::
  "TSM_ENV \<Rightarrow> BACNET_TSM_DATA \<Rightarrow> u32 \<Rightarrow> (int \<times> BACNET_TSM_DATA \<times> sent_pdu list) option" where
  "tsm_pdu_send env d segment_number =
     (let (npdu, dst, _) = npdu_encode_pdu (Some (tsm_dest d)) (Some (my_address env)) (npdu_data d);
          d = d\<lparr>tsm_dest := the dst\<rparr>
      in do {
        ensure (length npdu \<le> MAX_PDU);
        total_segments \<leftarrow> get_apdu_max_segments d;
        if total_segments \<le> segment_number then Some (-1, d, [])
        else do {
        d \<leftarrow> set_segment_header d segment_number total_segments;
        hdr \<leftarrow> apdu_encode_fixed_header (apdu_fixed_header d);
        ensure (length npdu + length hdr \<le> MAX_PDU);
        (segment, service_len) \<leftarrow> get_apdu_blob_data_segment d segment_number;
        case segment of
          None \<Rightarrow> Some (-1, d, [])
        | Some off \<Rightarrow>
            if \<not> check_write_apdu_space (int (length npdu + length hdr)) (int MAX_PDU) (sint service_len)
            then Some (-1, d, [])
            else do {
              bs \<leftarrow> read_at (the (tsm_apdu d)) off (unat service_len);
              let pdu = npdu @ hdr @ bs;
              Some (datalink_send_pdu env (tsm_dest d) (npdu_data d) pdu, d,
                    [(tsm_dest d, npdu_data d, pdu)]) } } })"

text \<open>What \<^verbatim>\<open>tsm_set_complexack_transaction\<close> stores in the slot before it sends anything.\<close>

definition prepare_response ::
  "TSM_ENV \<Rightarrow> BACNET_ADDRESS \<Rightarrow> BACNET_NPDU_DATA \<Rightarrow> BACNET_APDU_FIXED_HEADER
   \<Rightarrow> BACNET_CONFIRMED_SERVICE_DATA \<Rightarrow> bytes \<Rightarrow> u8 \<Rightarrow> BACNET_TSM_DATA \<Rightarrow> BACNET_TSM_DATA" where
  "prepare_response env dst n h csd pdu retries d =
     (let (apdu_max, total_max) =
            bacnet_calc_transmittable_length (binding_cache env) dst (Some csd);
          d = copy_apdu_blob_data env
                (d\<lparr>apdu_maximum_length := apdu_max, maximum_transmittable_length := total_max\<rparr>) pdu
      in d\<lparr>npdu_data := npdu_copy_data (npdu_data d) n, apdu_fixed_header := h,
           tsm_dest := bacnet_address_copy (tsm_dest d) dst, RetryCount := retries,
           ActualWindowSize := 1, ProposedWindowSize := DEFAULT_WINDOW_SIZE,
           InitialSequenceNumber := 0, SentAllSegments := False\<rparr>)"

definition tsm_set_complexack_transaction ::
  "TSM_ENV \<Rightarrow> BACNET_ADDRESS \<Rightarrow> BACNET_NPDU_DATA \<Rightarrow> BACNET_APDU_FIXED_HEADER
   \<Rightarrow> BACNET_CONFIRMED_SERVICE_DATA \<Rightarrow> bytes \<Rightarrow> TSM \<Rightarrow> (int \<times> BACNET_ADDRESS \<times> TSM) option" where
  "tsm_set_complexack_transaction env dst n h csd pdu s = do {
     (iid, s) \<leftarrow> tsm_get_peer_id dst (invoke_id csd) s;
     if iid = 0 then do {
       (dst, s) \<leftarrow> abort_pdu_send env (invoke_id csd) dst
                    ABORT_REASON_PREEMPTED_BY_HIGHER_PRIORITY_TASK True s;
       Some (-1, dst, s) }
     else do {
     let index = tsm_find_invokeID_index s iid;
     if \<not> index < MAX_TSM_TRANSACTIONS s then do {
       (dst, s) \<leftarrow> abort_pdu_send env (invoke_id csd) dst ABORT_REASON_OTHER True s;
       Some (-1, dst, s) }
     else do {
     let d = prepare_response env dst n h csd pdu (apdu_retries s) (TSM_List s ! index);
     apdu_segments \<leftarrow> get_apdu_max_segments d;
     (bytes_sent, dst, s) \<leftarrow>
       (if apdu_segments = 1 then do {
          (bytes_sent, d, out) \<leftarrow> tsm_pdu_send env d 0;
          let s = log_sent out (upd_slot s index (\<lambda>_. d));
          Some (bytes_sent, dst,
                if 0 < bytes_sent then tsm_free_invoke_id_check iid (Some dst) True s else s) }
        else if maximum_transmittable_length d
                  < of_nat (length pdu) + apdu_segments * get_apdu_header_typical_size h True
        then do {
          let s = upd_slot s index (\<lambda>_. free_blob d);
          (dst, s) \<leftarrow> abort_pdu_send env (invoke_id csd) dst ABORT_REASON_BUFFER_OVERFLOW True s;
          Some (-2, dst, s) }
        else do {
          sd \<leftarrow> set_common_window (ProposedWindowSize d) (service_data (apdu_fixed_header d));
          let d = d\<lparr>apdu_fixed_header := (apdu_fixed_header d)\<lparr>service_data := sd\<rparr>,
                    tsm_state := TSM_STATE_SEGMENTED_RESPONSE_SERVER,
                    SegmentRetryCount := apdu_retries s, RequestTimer := 0,
                    SegmentTimer := apdu_segment_timeout s\<rparr>;
          (bytes_sent, d, out) \<leftarrow> tsm_pdu_send env d 0;
          Some (bytes_sent, dst, log_sent out (upd_slot s index (\<lambda>_. d))) });
     let s = (if bytes_sent \<le> 0 then tsm_free_invoke_id_check iid (Some dst) True s else s);
     Some (bytes_sent, dst, s) } } }"

text \<open>
  The loop of \<^verbatim>\<open>FillWindow\<close>: \<open>remaining\<close> is how many more segments the window allows, \<open>ix\<close>
  the segments already sent. The last component is the final value of \<open>ix\<close>.
\<close>

fun fill_loop ::
  "TSM_ENV \<Rightarrow> u32 \<Rightarrow> u32 \<Rightarrow> nat \<Rightarrow> u32 \<Rightarrow> BACNET_TSM_DATA
   \<Rightarrow> (BACNET_TSM_DATA \<times> sent_pdu list \<times> u32) option" where
  "fill_loop env seq n_segs 0 ix d = Some (d, [], ix)"
| "fill_loop env seq n_segs (Suc remaining) ix d =
     (if seq + ix < n_segs then do {
        (_, d, out) \<leftarrow> tsm_pdu_send env d (seq + ix);
        (d, out', ix) \<leftarrow> fill_loop env seq n_segs remaining (ix + 1) d;
        Some (d, out @ out', ix) }
      else Some (d, [], ix))"

definition FillWindow ::
  "TSM_ENV \<Rightarrow> BACNET_TSM_DATA \<Rightarrow> u32 \<Rightarrow> (BACNET_TSM_DATA \<times> sent_pdu list) option" where
  "FillWindow env d seq = do {
     total_segments \<leftarrow> get_apdu_max_segments d;
     (d, out, ix) \<leftarrow> fill_loop env seq total_segments (unat (ActualWindowSize d)) 0 d;
     Some (if total_segments \<le> ix + seq then d\<lparr>SentAllSegments := True\<rparr> else d, out) }"

definition InWindow :: "BACNET_TSM_DATA \<Rightarrow> u8 \<Rightarrow> u8 \<Rightarrow> bool" where
  "InWindow d seqA seqB = (seqA - seqB < ActualWindowSize d)"

definition fill_slot :: "TSM_ENV \<Rightarrow> nat \<Rightarrow> TSM \<Rightarrow> TSM option" where
  "fill_slot env index s = do {
     (d, out) \<leftarrow> FillWindow env (TSM_List s ! index)
                  (ucast (InitialSequenceNumber (TSM_List s ! index)));
     Some (log_sent out (upd_slot s index (\<lambda>_. d))) }"

text \<open>
  The branch of \<^verbatim>\<open>tsm_segmentack_received\<close> for a response in progress. The test of the state in
  its final part repeats the guard of the branch, so only its first alternative is left.
\<close>

definition response_acked :: "TSM_ENV \<Rightarrow> nat \<Rightarrow> u8 \<Rightarrow> u8 \<Rightarrow> u8 \<Rightarrow> TSM \<Rightarrow> TSM option" where
  "response_acked env index iid seq actual_window_size s =
     (let d = TSM_List s ! index in
      if \<not> InWindow d seq (InitialSequenceNumber d) then
        Some (upd_slot s index (\<lambda>d. d\<lparr>SegmentTimer := apdu_segment_timeout s\<rparr>))
      else do {
        let window = seq - InitialSequenceNumber d;
        let big_segment_number = (ucast (InitialSequenceNumber d) + ucast window :: u32);
        n_segs \<leftarrow> get_apdu_max_segments d;
        if big_segment_number + 1 < n_segs then do {
          let s = upd_slot s index (\<lambda>d. d\<lparr>
                InitialSequenceNumber := ucast (big_segment_number + 1),
                ActualWindowSize := actual_window_size,
                SegmentRetryCount := apdu_retries s,
                SegmentTimer := apdu_segment_timeout s\<rparr>);
          s \<leftarrow> fill_slot env index s;
          Some (upd_slot s index (\<lambda>d. d\<lparr>SegmentTimer := apdu_segment_timeout s\<rparr>)) }
        else
          let s = upd_slot s index (\<lambda>d. d\<lparr>SegmentTimer := 0, tsm_state := TSM_STATE_IDLE\<rparr>)
          in Some (tsm_free_invoke_id_check iid None True s) })"

definition tsm_segmentack_received ::
  "TSM_ENV \<Rightarrow> u8 \<Rightarrow> u8 \<Rightarrow> u8 \<Rightarrow> bool \<Rightarrow> bool \<Rightarrow> BACNET_ADDRESS \<Rightarrow> TSM \<Rightarrow> (BACNET_ADDRESS \<times> TSM) option"
where
  "tsm_segmentack_received env iid seq actual_window_size nak server src s =
     (if server \<and> iid = 0 then Some (src, s)
      else do {
        (known, iid, s) \<leftarrow>
          (if \<not> server then do {
             (item, s) \<leftarrow> tsm_get_peer_id_data src iid False s;
             case item of
               None \<Rightarrow> Some (False, iid, s)
             | Some i \<Rightarrow> Some (True, InternalInvokeID (TSM_Peer_Ids s ! i), s) }
           else Some (True, iid, s));
        let index = tsm_find_invokeID_index s iid;
        if \<not> known \<or> \<not> index < MAX_TSM_TRANSACTIONS s then Some (src, s)
        else if \<not> server \<and> tsm_state (TSM_List s ! index) = TSM_STATE_SEGMENTED_RESPONSE_SERVER
        then do {
          s \<leftarrow> response_acked env index iid seq actual_window_size s;
          Some (src, s) }
        else do {
          let s = upd_slot s index free_blob;
          (src, s) \<leftarrow> abort_pdu_send env iid src ABORT_REASON_INVALID_APDU_IN_THIS_STATE True s;
          Some (src, tsm_free_invoke_id_check iid None True s) } })"

definition check_unexpected_pdu_received ::
  "TSM_ENV \<Rightarrow> BACNET_ADDRESS \<Rightarrow> BACNET_CONFIRMED_SERVICE_DATA \<Rightarrow> TSM
   \<Rightarrow> (bool \<times> BACNET_ADDRESS \<times> TSM) option" where
  "check_unexpected_pdu_received env src sd s = do {
     (item, s) \<leftarrow> tsm_get_peer_id_data src (invoke_id sd) False s;
     case item of
       None \<Rightarrow> Some (False, src, s)
     | Some i \<Rightarrow>
         let index = tsm_find_invokeID_index s (InternalInvokeID (TSM_Peer_Ids s ! i)) in
         if index < MAX_TSM_TRANSACTIONS s \<and>
            (tsm_state (TSM_List s ! index) = TSM_STATE_SEGMENTED_RESPONSE_SERVER \<or>
             tsm_state (TSM_List s ! index) = TSM_STATE_SEGMENTED_REQUEST_SERVER) then do {
           (src, s) \<leftarrow> abort_pdu_send env (invoke_id sd) src
                        ABORT_REASON_INVALID_APDU_IN_THIS_STATE True s;
           Some (True, src,
             tsm_free_invoke_id_check (InvokeID (TSM_List s ! index)) (Some src) True s) }
         else Some (False, src, s) }"

definition tsm_free_invoke_id_segmentation :: "BACNET_ADDRESS \<Rightarrow> u8 \<Rightarrow> TSM \<Rightarrow> TSM option" where
  "tsm_free_invoke_id_segmentation src iid s = do {
     (peer_id, s) \<leftarrow> tsm_get_peer_id src iid s;
     Some (tsm_free_invoke_id_check peer_id (Some src) True s) }"

section \<open>Timers\<close>

definition count_down :: "u16 \<Rightarrow> u16 \<Rightarrow> u16" where
  "count_down timer milliseconds = (if milliseconds < timer then timer - milliseconds else 0)"

definition timer_await_confirmation :: "TSM_ENV \<Rightarrow> u16 \<Rightarrow> nat \<Rightarrow> TSM \<Rightarrow> TSM option" where
  "timer_await_confirmation env ms i s =
     (if tsm_state (TSM_List s ! i) = TSM_STATE_AWAIT_CONFIRMATION then
        let s = upd_slot s i (\<lambda>d. d\<lparr>RequestTimer := count_down (RequestTimer d) ms\<rparr>);
            d = TSM_List s ! i in
        if RequestTimer d = 0 then
          if RetryCount d < apdu_retries s then do {
            bs \<leftarrow> (if tsm_apdu_len d = 0 then Some []
                    else do { b \<leftarrow> tsm_apdu d; read_at b 0 (unat (tsm_apdu_len d)) });
            let s = upd_slot s i (\<lambda>d. d\<lparr>RequestTimer := apdu_timeout s, RetryCount := RetryCount d + 1\<rparr>);
            Some (log_sent [(tsm_dest d, npdu_data d, bs)] s) }
          else
            let s = upd_slot s i (\<lambda>d. d\<lparr>tsm_state := TSM_STATE_IDLE\<rparr>) in
            (case Timeout_Function s of
               Some f \<Rightarrow> if InvokeID d \<noteq> 0 then call_timeout env f (InvokeID d) s else Some s
             | None \<Rightarrow> Some s)
        else Some s
      else Some s)"

definition timer_segmented_response :: "TSM_ENV \<Rightarrow> u16 \<Rightarrow> nat \<Rightarrow> TSM \<Rightarrow> TSM option" where
  "timer_segmented_response env ms i s =
     (if tsm_state (TSM_List s ! i) = TSM_STATE_SEGMENTED_RESPONSE_SERVER then
        let s = upd_slot s i (\<lambda>d. d\<lparr>SegmentTimer := count_down (SegmentTimer d) ms\<rparr>) in
        if SegmentTimer (TSM_List s ! i) = 0 then
          let s = upd_slot s i (\<lambda>d. d\<lparr>SegmentRetryCount := SegmentRetryCount d - 1,
                    SegmentTimer := apdu_segment_timeout s\<rparr>) in
          if SegmentRetryCount (TSM_List s ! i) \<noteq> 0 then fill_slot env i s
          else Some (upd_slot s i (\<lambda>d. d\<lparr>tsm_state := TSM_STATE_IDLE\<rparr>))
        else Some s
      else Some s)"

definition timer_segmented_request :: "u16 \<Rightarrow> nat \<Rightarrow> TSM \<Rightarrow> TSM" where
  "timer_segmented_request ms i s =
     (if tsm_state (TSM_List s ! i) = TSM_STATE_SEGMENTED_REQUEST_SERVER then
        let s = upd_slot s i (\<lambda>d. d\<lparr>SegmentTimer := count_down (SegmentTimer d) ms\<rparr>) in
        if SegmentTimer (TSM_List s ! i) = 0 then
          let s = tsm_clear_peer_id (InvokeID (TSM_List s ! i)) s;
              s = upd_slot s i free_blob
          in upd_slot s i (\<lambda>d. d\<lparr>InvokeID := 0, tsm_state := TSM_STATE_IDLE\<rparr>)
        else s
      else s)"

definition timer_slot :: "TSM_ENV \<Rightarrow> u16 \<Rightarrow> nat \<Rightarrow> TSM \<Rightarrow> TSM option" where
  "timer_slot env ms i s = do {
     s \<leftarrow> timer_await_confirmation env ms i s;
     s \<leftarrow> timer_segmented_response env ms i s;
     Some (timer_segmented_request ms i s) }"

fun timer_loop :: "TSM_ENV \<Rightarrow> u16 \<Rightarrow> nat list \<Rightarrow> TSM \<Rightarrow> TSM option" where
  "timer_loop env ms [] s = Some s"
| "timer_loop env ms (i # is) s = do { s \<leftarrow> timer_slot env ms i s; timer_loop env ms is s }"

definition tsm_timer_milliseconds :: "TSM_ENV \<Rightarrow> u16 \<Rightarrow> TSM \<Rightarrow> TSM option" where
  "tsm_timer_milliseconds env ms s = timer_loop env ms [0..<MAX_TSM_TRANSACTIONS s] s"

end
