(* ===== verification/Bac_Tsm_Alloc.thy ===== *)
theory Bac_Tsm_Alloc
  imports Bac_Tsm
begin

text \<open>
  Allocation of transactions in \<^verbatim>\<open>tsm.c\<close>: the search for a free invoke identifier ends, hands
  out an identifier nobody holds, and releasing one gives back exactly that one. The contract
  is the locale \<open>id_pool\<close>, interpreted on the transaction table.
\<close>

section \<open>The interface of a pool of identifiers\<close>

fun alloc_n :: "('s \<Rightarrow> ('i \<times> 's) option) \<Rightarrow> nat \<Rightarrow> 's \<Rightarrow> ('i list \<times> 's) option" where
  "alloc_n alloc 0 s = Some ([], s)"
| "alloc_n alloc (Suc n) s =
     do { (i, s) \<leftarrow> alloc s; (is, s) \<leftarrow> alloc_n alloc n s; Some (i # is, s) }"

locale id_pool =
  fixes inv :: "'s \<Rightarrow> bool"
    and held :: "'s \<Rightarrow> 'i set"
    and room :: "'s \<Rightarrow> nat"
    and none :: 'i
    and alloc :: "'s \<Rightarrow> ('i \<times> 's) option"
    and release :: "'i \<Rightarrow> 's \<Rightarrow> 's"
  assumes alloc_room: "inv s \<Longrightarrow> 0 < room s \<Longrightarrow>
      \<exists>i s'. alloc s = Some (i, s') \<and> i \<notin> held s \<and> i \<noteq> none \<and> inv s' \<and>
        held s' = insert i (held s) \<and> Suc (room s') = room s"
    and alloc_full: "inv s \<Longrightarrow> room s = 0 \<Longrightarrow> alloc s = Some (none, s)"
    and release_inv: "inv s \<Longrightarrow> inv (release i s)"
    and release_held: "inv s \<Longrightarrow> held (release i s) = held s - {i}"
    and none_not_held: "none \<notin> held s"
begin

lemma alloc_defined: "inv s \<Longrightarrow> \<exists>i s'. alloc s = Some (i, s') \<and> inv s'"
  using alloc_room [of s] alloc_full [of s] by (cases "room s = 0") auto

lemma release_alloc:
  "inv s \<Longrightarrow> alloc s = Some (i, s') \<Longrightarrow> held (release i s') = held s"
  using alloc_room [of s] alloc_full [of s] release_held [of s] release_held [of s'] none_not_held
  by (cases "room s = 0") auto

lemma alloc_n_distinct:
  "inv s \<Longrightarrow> n \<le> room s \<Longrightarrow>
   \<exists>is s'. alloc_n alloc n s = Some (is, s') \<and> length is = n \<and> distinct is \<and> none \<notin> set is \<and>
     set is \<inter> held s = {} \<and> held s' = set is \<union> held s \<and> inv s'"
proof (induction n arbitrary: s)
  case (Suc n)
  then obtain i s1 where a: "alloc s = Some (i, s1)" "i \<notin> held s" "i \<noteq> none" "inv s1"
      "held s1 = insert i (held s)" "Suc (room s1) = room s"
    using alloc_room [of s] by auto
  then obtain "is" s' where "alloc_n alloc n s1 = Some (is, s')" "length is = n" "distinct is"
      "none \<notin> set is" "set is \<inter> held s1 = {}" "held s' = set is \<union> held s1" "inv s'"
    using Suc.IH [of s1] Suc.prems by auto
  with a show ?case by auto
qed simp

end

section \<open>Facts on slots\<close>

lemma upd_slot_simps [simp]:
  "TSM_List (upd_slot s i f) = (TSM_List s)[i := f (TSM_List s ! i)]"
  "TSM_Peer_Ids (upd_slot s i f) = TSM_Peer_Ids s"
  "Current_Invoke_ID (upd_slot s i f) = Current_Invoke_ID s"
  "Duplicate_Count (upd_slot s i f) = Duplicate_Count s"
  "Timeout_Function (upd_slot s i f) = Timeout_Function s"
  "config (upd_slot s i f) = config s"
  "sent (upd_slot s i f) = sent s"
  by (simp_all add: upd_slot_def)

lemma log_sent_simps [simp]:
  "TSM_List (log_sent ps s) = TSM_List s"
  "TSM_Peer_Ids (log_sent ps s) = TSM_Peer_Ids s"
  "Current_Invoke_ID (log_sent ps s) = Current_Invoke_ID s"
  "Duplicate_Count (log_sent ps s) = Duplicate_Count s"
  "Timeout_Function (log_sent ps s) = Timeout_Function s"
  "config (log_sent ps s) = config s"
  "sent (log_sent ps s) = sent s @ ps"
  by (simp_all add: log_sent_def)

lemma upd_peer_simps [simp]:
  "TSM_List (upd_peer s i f) = TSM_List s"
  "TSM_Peer_Ids (upd_peer s i f) = (TSM_Peer_Ids s)[i := f (TSM_Peer_Ids s ! i)]"
  "Current_Invoke_ID (upd_peer s i f) = Current_Invoke_ID s"
  "Duplicate_Count (upd_peer s i f) = Duplicate_Count s"
  "config (upd_peer s i f) = config s"
  "sent (upd_peer s i f) = sent s"
  by (simp_all add: upd_peer_def)

lemma clear_peer_simps [simp]:
  "TSM_List (tsm_clear_peer_id iid s) = TSM_List s"
  "Current_Invoke_ID (tsm_clear_peer_id iid s) = Current_Invoke_ID s"
  "Duplicate_Count (tsm_clear_peer_id iid s) = Duplicate_Count s"
  "config (tsm_clear_peer_id iid s) = config s"
  "sent (tsm_clear_peer_id iid s) = sent s"
  by (simp_all add: tsm_clear_peer_id_def)

section \<open>Identifiers in use\<close>

definition ids_unique :: "u8 list \<Rightarrow> bool" where
  "ids_unique ids \<longleftrightarrow> (\<forall>i < length ids. \<forall>j < length ids. ids ! i = ids ! j \<and> ids ! i \<noteq> 0 \<longrightarrow> i = j)"

definition invoke_ids_ok :: "TSM \<Rightarrow> bool" where
  "invoke_ids_ok s \<longleftrightarrow> length (TSM_List s) \<le> 255 \<and> Current_Invoke_ID s \<noteq> 0 \<and>
     ids_unique (map InvokeID (TSM_List s))"

definition held_ids :: "TSM \<Rightarrow> u8 set" where
  "held_ids s = set (map InvokeID (TSM_List s)) - {0}"

definition free_slots :: "TSM \<Rightarrow> nat" where
  "free_slots s = card {i. i < length (TSM_List s) \<and> InvokeID (TSM_List s ! i) = 0}"

lemma ids_unique_update: "ids_unique ids \<Longrightarrow> v = 0 \<or> v \<notin> set ids \<Longrightarrow> ids_unique (ids[i := v])"
  unfolding ids_unique_def
  by (metis length_list_update nth_list_update_eq nth_list_update_neq nth_mem)

lemma set_update_nth: "j < length xs \<Longrightarrow> set (xs[j := v]) = insert v {xs ! i | i. i < length xs \<and> i \<noteq> j}"
  by (auto simp: set_conv_nth nth_list_update)

lemma set_update_free:
  "j < length ids \<Longrightarrow> ids ! j = 0 \<Longrightarrow> v \<noteq> 0 \<Longrightarrow> set (ids[j := v]) - {0} = insert v (set ids - {0 :: u8})"
  by (auto simp: set_update_nth in_set_conv_nth)

lemma set_update_clear:
  assumes "ids_unique ids" "j < length ids"
  shows "set (ids[j := 0]) - {0} = set ids - {0} - {ids ! j}"
  using assms unfolding ids_unique_def set_update_nth [OF assms(2)]
  by (auto simp: in_set_conv_nth)

lemma find_invokeID_found:
  assumes "invoke_ids_ok s" "i < length (TSM_List s)" "InvokeID (TSM_List s ! i) = iid" "iid \<noteq> 0"
  shows "tsm_find_invokeID_index s iid = i"
  using assms unfolding tsm_find_invokeID_index_def
  by (intro find_index_unique) (auto simp: invoke_ids_ok_def ids_unique_def)

lemma find_invokeID_held:
  "iid \<noteq> 0 \<Longrightarrow> tsm_find_invokeID_index s iid < length (TSM_List s) \<longleftrightarrow> iid \<in> held_ids s"
  by (auto simp: tsm_find_invokeID_index_def find_index_less held_ids_def)

lemma find_invokeID_nth:
  "tsm_find_invokeID_index s iid < length (TSM_List s) \<Longrightarrow>
   InvokeID (TSM_List s ! tsm_find_invokeID_index s iid) = iid"
  unfolding tsm_find_invokeID_index_def by (rule find_index_nth)

lemma find_invokeID_le: "tsm_find_invokeID_index s iid \<le> length (TSM_List s)"
  by (simp add: tsm_find_invokeID_index_def find_index_le)

lemma transaction_available_iff: "tsm_transaction_available s \<longleftrightarrow> 0 < free_slots s"
proof -
  have "finite {i. i < length (TSM_List s) \<and> InvokeID (TSM_List s ! i) = 0}" by simp
  then show ?thesis
    by (auto simp: tsm_transaction_available_def free_slots_def card_gt_0_iff list_ex_length)
qed

lemma card_held_ids:
  assumes "invoke_ids_ok s"
  shows "card (held_ids s) + free_slots s = length (TSM_List s)"
proof -
  let ?A = "{i. i < length (TSM_List s) \<and> InvokeID (TSM_List s ! i) \<noteq> 0}"
  let ?B = "{i. i < length (TSM_List s) \<and> InvokeID (TSM_List s ! i) = 0}"
  have "held_ids s = (\<lambda>i. InvokeID (TSM_List s ! i)) ` ?A"
    by (auto simp: held_ids_def in_set_conv_nth image_def simp del: set_map cong: conj_cong)
  moreover have "inj_on (\<lambda>i. InvokeID (TSM_List s ! i)) ?A"
    using assms by (auto simp: inj_on_def invoke_ids_ok_def ids_unique_def)
  ultimately have "card (held_ids s) = card ?A" by (simp add: card_image)
  moreover have "card (?A \<union> ?B) = card ?A + card ?B" by (intro card_Un_disjoint) auto
  moreover have "?A \<union> ?B = {..<length (TSM_List s)}" by auto
  ultimately show ?thesis by (simp add: free_slots_def)
qed

section \<open>The search ends\<close>

lemma unat_next_invoke_id:
  assumes "iid \<noteq> 0"
  shows "unat (next_invoke_id iid) = unat iid mod 255 + 1"
proof -
  have lt: "unat iid < 256" by (rule unat_bounds)
  have suc: "unat (iid + 1) = (unat iid + 1) mod 256" by (simp add: unat_word_ariths)
  show ?thesis
  proof (cases "unat iid = 255")
    case True
    with suc have "iid + 1 = 0" by (simp add: unat_eq_0 [symmetric])
    with True show ?thesis by (simp add: next_invoke_id_def)
  next
    case False
    with lt suc have *: "unat (iid + 1) = unat iid + 1" by simp
    then have "iid + 1 \<noteq> 0" by (metis add_is_0 unat_0 one_neq_zero)
    with False lt * show ?thesis by (simp add: next_invoke_id_def)
  qed
qed

lemma next_invoke_id_nonzero: "iid \<noteq> 0 \<Longrightarrow> next_invoke_id iid \<noteq> 0"
  using unat_next_invoke_id [of iid] by auto

lemma unat_next_invoke_id_iter:
  "iid \<noteq> 0 \<Longrightarrow>
   (next_invoke_id ^^ k) iid \<noteq> 0 \<and> unat ((next_invoke_id ^^ k) iid) = (unat iid - 1 + k) mod 255 + 1"
proof (induction k)
  case 0
  then show ?case using unat_bounds(1) [of iid] unat_gt_0 [of iid] by simp
next
  case (Suc k)
  then show ?case
    by (simp add: next_invoke_id_nonzero unat_next_invoke_id mod_Suc_eq)
qed

text \<open>Every identifier but 0 is a candidate of the first 255 rounds.\<close>

lemma candidate_reached:
  assumes "c \<noteq> 0" "v \<noteq> 0"
  shows "\<exists>k < 255. (next_invoke_id ^^ k) c = v"
proof -
  define k where "k = (unat v + 255 - unat c) mod 255"
  have b: "0 < unat c" "unat c < 256" "0 < unat v" "unat v < 256"
    using assms unat_bounds(1) by (simp_all add: unat_gt_0)
  have "(unat c - 1 + k) mod 255 = (unat c - 1 + (unat v + 255 - unat c)) mod 255"
    by (simp add: k_def mod_add_right_eq)
  also have "\<dots> = (unat v - 1 + 255) mod 255" using b by simp
  also have "\<dots> = unat v - 1" using b by (cases "unat v") simp_all
  finally have "unat ((next_invoke_id ^^ k) c) = unat v"
    using unat_next_invoke_id_iter [OF assms(1), of k] b by simp
  then have "(next_invoke_id ^^ k) c = v" by (simp add: word_unat_eq_iff)
  moreover have "k < 255" by (simp add: k_def)
  ultimately show ?thesis by blast
qed

definition reserve_slot :: "TSM \<Rightarrow> u8 \<Rightarrow> TSM" where
  "reserve_slot s iid =
     (upd_slot s (tsm_find_first_free_index s) (\<lambda>d. d\<lparr>InvokeID := iid,
        tsm_state := TSM_STATE_IDLE, RequestTimer := apdu_timeout s\<rparr>))
     \<lparr>Current_Invoke_ID := next_invoke_id iid\<rparr>"

lemma find_index_current [simp]:
  "tsm_find_invokeID_index (s\<lparr>Current_Invoke_ID := c\<rparr>) iid = tsm_find_invokeID_index s iid"
  "tsm_find_first_free_index (s\<lparr>Current_Invoke_ID := c\<rparr>) = tsm_find_first_free_index s"
  "held_ids (s\<lparr>Current_Invoke_ID := c\<rparr>) = held_ids s"
  by (simp_all add: tsm_find_invokeID_index_def tsm_find_first_free_index_def held_ids_def)

lemma next_free_loop_finds:
  assumes "Current_Invoke_ID s \<noteq> 0" "tsm_find_first_free_index s < length (TSM_List s)"
    and "k < fuel" "(next_invoke_id ^^ k) (Current_Invoke_ID s) \<notin> held_ids s"
  shows "\<exists>iid. iid \<noteq> 0 \<and> iid \<notin> held_ids s \<and> next_free_loop fuel s = Some (iid, reserve_slot s iid)"
  using assms
proof (induction fuel arbitrary: s k)
  case (Suc fuel)
  let ?c = "Current_Invoke_ID s"
  show ?case
  proof (cases "?c \<in> held_ids s")
    case False
    then have "tsm_find_invokeID_index s ?c = length (TSM_List s)"
      using find_invokeID_held [of ?c s] find_invokeID_le [of s ?c] Suc.prems(1) by simp
    with False Suc.prems(1,2) show ?thesis by (auto simp: reserve_slot_def Let_def)
  next
    case True
    with Suc.prems(4) obtain k' where k: "k = Suc k'" by (cases k) auto
    let ?s = "s\<lparr>Current_Invoke_ID := next_invoke_id ?c\<rparr>"
    have "\<exists>iid. iid \<noteq> 0 \<and> iid \<notin> held_ids ?s \<and> next_free_loop fuel ?s = Some (iid, reserve_slot ?s iid)"
      using Suc.prems k
      by (intro Suc.IH [of ?s k']) (auto simp: next_invoke_id_nonzero funpow_swap1)
    moreover have "tsm_find_invokeID_index s ?c \<noteq> length (TSM_List s)"
      using find_invokeID_held [of ?c s] True Suc.prems(1) by simp
    moreover have "reserve_slot ?s iid = reserve_slot s iid" for iid
      by (simp add: reserve_slot_def upd_slot_def apdu_timeout_def)
    ultimately show ?thesis by simp
  qed
qed simp

lemma unused_id_exists:
  assumes "invoke_ids_ok s" "0 < free_slots s"
  shows "\<exists>v. v \<noteq> 0 \<and> v \<notin> held_ids s"
proof -
  have "card (held_ids s) < 255"
    using card_held_ids [OF assms(1)] assms by (simp add: invoke_ids_ok_def)
  moreover have "card (UNIV - {0 :: u8}) = 255"
    by (simp add: card_Diff_singleton card_word)
  ultimately have "\<not> UNIV - {0} \<subseteq> held_ids s"
    using card_mono [of "held_ids s" "UNIV - {0}"] by auto
  then show ?thesis by blast
qed

lemma first_free_index:
  "0 < free_slots s \<Longrightarrow> tsm_find_first_free_index s < length (TSM_List s)"
  "tsm_find_first_free_index s < length (TSM_List s) \<Longrightarrow>
     InvokeID (TSM_List s ! tsm_find_first_free_index s) = 0"
proof -
  show "0 < free_slots s \<Longrightarrow> tsm_find_first_free_index s < length (TSM_List s)"
    by (simp add: transaction_available_iff [symmetric] tsm_transaction_available_def
        tsm_find_first_free_index_def find_index_less list_ex_iff)
  show "tsm_find_first_free_index s < length (TSM_List s) \<Longrightarrow>
     InvokeID (TSM_List s ! tsm_find_first_free_index s) = 0"
    unfolding tsm_find_first_free_index_def by (rule find_index_nth)
qed

lemma next_free_invokeID_room:
  assumes "invoke_ids_ok s" "0 < free_slots s"
  shows "\<exists>iid. iid \<noteq> 0 \<and> iid \<notin> held_ids s \<and> tsm_next_free_invokeID s = Some (iid, reserve_slot s iid)"
proof -
  have cur: "Current_Invoke_ID s \<noteq> 0" using assms(1) by (simp add: invoke_ids_ok_def)
  obtain v where "v \<noteq> 0" "v \<notin> held_ids s" using unused_id_exists [OF assms] by blast
  then obtain k where "k < 255" "(next_invoke_id ^^ k) (Current_Invoke_ID s) \<notin> held_ids s"
    using candidate_reached [OF cur, of v] by auto
  then show ?thesis
    using next_free_loop_finds [OF cur first_free_index(1) [OF assms(2)], of k 256] assms(2)
    by (simp add: tsm_next_free_invokeID_def transaction_available_iff)
qed

lemma next_free_invokeID_full: "free_slots s = 0 \<Longrightarrow> tsm_next_free_invokeID s = Some (0, s)"
  by (simp add: tsm_next_free_invokeID_def transaction_available_iff)

lemma reserve_slot_ids:
  assumes "invoke_ids_ok s" "0 < free_slots s" "iid \<noteq> 0" "iid \<notin> held_ids s"
  shows "invoke_ids_ok (reserve_slot s iid)" "held_ids (reserve_slot s iid) = insert iid (held_ids s)"
    "Suc (free_slots (reserve_slot s iid)) = free_slots s"
proof -
  let ?j = "tsm_find_first_free_index s"
  note j = first_free_index(1) [OF assms(2)] first_free_index(2) [OF first_free_index(1) [OF assms(2)]]
  have len: "length (TSM_List (reserve_slot s iid)) = length (TSM_List s)"
    by (simp add: reserve_slot_def)
  show ok: "invoke_ids_ok (reserve_slot s iid)"
    using assms(1,3,4)
    by (auto simp: invoke_ids_ok_def reserve_slot_def next_invoke_id_nonzero map_update held_ids_def
        simp del: set_map intro!: ids_unique_update)
  show held: "held_ids (reserve_slot s iid) = insert iid (held_ids s)"
    using j assms(3) set_update_free [of ?j "map InvokeID (TSM_List s)" iid]
    by (simp add: held_ids_def reserve_slot_def map_update del: set_map)
  have "finite (held_ids s)" by simp
  then have "card (insert iid (held_ids s)) = Suc (card (held_ids s))" using assms(4) by simp
  then show "Suc (free_slots (reserve_slot s iid)) = free_slots s"
    using card_held_ids [OF ok] card_held_ids [OF assms(1)] held len by simp
qed

text \<open>Clearing the identifier of one slot, whatever else is changed in it.\<close>

lemma clear_slot_ids:
  assumes "invoke_ids_ok s" "\<And>d. InvokeID (f d) = 0"
  shows "invoke_ids_ok (upd_slot s i f)"
    "held_ids (upd_slot s i f) = held_ids s - {InvokeID (TSM_List s ! i)} \<or> \<not> i < length (TSM_List s)"
proof -
  show "invoke_ids_ok (upd_slot s i f)"
    using assms by (auto simp: invoke_ids_ok_def map_update intro!: ids_unique_update)
  show "held_ids (upd_slot s i f) = held_ids s - {InvokeID (TSM_List s ! i)} \<or> \<not> i < length (TSM_List s)"
  proof (cases "i < length (TSM_List s)")
    case True
    then show ?thesis
      using assms set_update_clear [of "map InvokeID (TSM_List s)" i]
      by (simp add: held_ids_def invoke_ids_ok_def map_update del: set_map)
  qed simp
qed

lemma free_invoke_id_ids:
  assumes "invoke_ids_ok s"
  shows "invoke_ids_ok (tsm_free_invoke_id iid s)"
    "held_ids (tsm_free_invoke_id iid s) = held_ids s - {iid}"
proof -
  let ?i = "tsm_find_invokeID_index s iid"
  let ?f = "\<lambda>d. d\<lparr>tsm_state := TSM_STATE_IDLE, InvokeID := 0\<rparr>"
  show "invoke_ids_ok (tsm_free_invoke_id iid s)"
    using assms by (auto simp: tsm_free_invoke_id_def Let_def intro!: clear_slot_ids)
  show "held_ids (tsm_free_invoke_id iid s) = held_ids s - {iid}"
  proof (cases "?i < length (TSM_List s)")
    case True
    with clear_slot_ids(2) [OF assms, of ?f ?i] find_invokeID_nth [OF True] show ?thesis
      by (simp add: tsm_free_invoke_id_def Let_def)
  next
    case False
    then have "iid \<notin> held_ids s" using find_invokeID_held [of iid s] by (auto simp: held_ids_def)
    with False show ?thesis by (simp add: tsm_free_invoke_id_def Let_def)
  qed
qed

interpretation pool: id_pool invoke_ids_ok held_ids free_slots 0 tsm_next_free_invokeID
  tsm_free_invoke_id
proof (unfold_locales, goal_cases)
  case (1 s)
  then obtain iid where "iid \<noteq> 0" "iid \<notin> held_ids s"
      "tsm_next_free_invokeID s = Some (iid, reserve_slot s iid)"
    using next_free_invokeID_room by blast
  with reserve_slot_ids [OF 1] show ?case by blast
next
  case (2 s) then show ?case by (simp add: next_free_invokeID_full)
next
  case (3 s i) then show ?case by (rule free_invoke_id_ids)
next
  case (4 s i) then show ?case by (rule free_invoke_id_ids)
next
  case (5 s) then show ?case by (simp add: held_ids_def)
qed

end
