(* ===== verification/Bac_Tsm_Buffer.thy ===== *)
theory Bac_Tsm_Buffer
  imports Bac_Tsm_Alloc
begin

text \<open>
  The two buffers of a transaction of \<^verbatim>\<open>tsm.c\<close>. The reassembly buffer is an append-only byte
  string: the locale \<open>append_buffer\<close>, interpreted on \<open>add_blob_data\<close> and \<open>reset_blob\<close>. The
  response buffer is cut into segments: their number, their content, and that a segment sent is
  the header followed by its slice of the response.
\<close>

section \<open>The interface of a buffer that grows\<close>

fun append_all :: "('e \<Rightarrow> 'b \<Rightarrow> bytes \<Rightarrow> 'b option) \<Rightarrow> 'b \<Rightarrow> ('e \<times> bytes) list \<Rightarrow> 'b option" where
  "append_all app b [] = Some b"
| "append_all app b ((e, xs) # rest) = do { b \<leftarrow> app e b xs; append_all app b rest }"

locale append_buffer =
  fixes ok :: "'b \<Rightarrow> bool"
    and view :: "'b \<Rightarrow> bytes"
    and cap :: nat
    and avail :: "'e \<Rightarrow> bool"
    and reset :: "'b \<Rightarrow> 'b"
    and app :: "'e \<Rightarrow> 'b \<Rightarrow> bytes \<Rightarrow> 'b option"
  assumes reset_ok: "ok b \<Longrightarrow> ok (reset b)"
    and view_reset: "ok b \<Longrightarrow> view (reset b) = []"
    and append_ok: "\<lbrakk>ok b; avail e; length (view b) + length xs \<le> cap\<rbrakk> \<Longrightarrow>
      \<exists>b'. app e b xs = Some b' \<and> ok b' \<and> view b' = view b @ xs"
begin

lemma append_all_concat:
  assumes "ok b" "\<And>e xs. (e, xs) \<in> set rest \<Longrightarrow> avail e"
    and "length (view b) + length (concat (map snd rest)) \<le> cap"
  shows "\<exists>b'. append_all app b rest = Some b' \<and> ok b' \<and> view b' = view b @ concat (map snd rest)"
  using assms
proof (induction rest arbitrary: b)
  case (Cons p rest)
  obtain e xs where p: "p = (e, xs)" by fastforce
  with Cons.prems obtain b1 where b1: "app e b xs = Some b1" "ok b1" "view b1 = view b @ xs"
    using append_ok [of b e xs] by auto
  with Cons.prems p obtain b' where "append_all app b1 rest = Some b'" "ok b'"
      "view b' = view b1 @ concat (map snd rest)"
    using Cons.IH [of b1] by auto
  with p b1 show ?case by simp
qed simp

lemma reassemble:
  assumes "ok b" "\<And>e xs. (e, xs) \<in> set rest \<Longrightarrow> avail e" "length (concat (map snd rest)) \<le> cap"
  shows "\<exists>b'. append_all app (reset b) rest = Some b' \<and> view b' = concat (map snd rest)"
  using append_all_concat [of "reset b" rest] assms by (auto simp: reset_ok view_reset)

end

section \<open>The reassembly buffer\<close>

definition BLOB_CAP :: nat where "BLOB_CAP = MAX_APDU * MAX_SEGMENTS_ACCEPTED"

definition blob_fields_ok :: "bytes option \<Rightarrow> u32 \<Rightarrow> u32 \<Rightarrow> bool" where
  "blob_fields_ok blob allocated used \<longleftrightarrow>
     unat used \<le> BLOB_CAP \<and> unat allocated \<le> 2 * BLOB_CAP \<and>
     (case blob of
        None \<Rightarrow> allocated = 0 \<and> used = 0
      | Some b \<Rightarrow> length b = unat allocated \<and> used \<le> allocated)"

definition blob_ok :: "BACNET_TSM_DATA \<Rightarrow> bool" where
  "blob_ok d = blob_fields_ok (apdu_blob d) (apdu_blob_allocated d) (apdu_blob_size d)"

lemmas blob_ok_defs = blob_ok_def blob_fields_ok_def

definition blob_view :: "BACNET_TSM_DATA \<Rightarrow> bytes" where
  "blob_view d = take (unat (apdu_blob_size d)) (case apdu_blob d of None \<Rightarrow> [] | Some b \<Rightarrow> b)"

definition memory_available :: "TSM_ENV \<Rightarrow> bool" where
  "memory_available env \<longleftrightarrow> (\<forall>n. calloc_ok env n)"

text \<open>Every field but the three of the buffer.\<close>

definition same_but_blob :: "BACNET_TSM_DATA \<Rightarrow> BACNET_TSM_DATA \<Rightarrow> bool" where
  "same_but_blob d d' \<longleftrightarrow>
     d'\<lparr>apdu_blob := None, apdu_blob_allocated := 0, apdu_blob_size := 0\<rparr> =
     d\<lparr>apdu_blob := None, apdu_blob_allocated := 0, apdu_blob_size := 0\<rparr>"

lemma same_but_blob_upd [simp]:
  "same_but_blob d d"
  "same_but_blob d d' \<Longrightarrow> same_but_blob d (d'\<lparr>apdu_blob := b, apdu_blob_size := z\<rparr>)"
  "same_but_blob d d' \<Longrightarrow> same_but_blob d (d'\<lparr>apdu_blob := b, apdu_blob_allocated := a\<rparr>)"
  by (simp_all add: same_but_blob_def)

lemma same_but_blob_fields:
  assumes "same_but_blob d d'"
  shows "InvokeID d' = InvokeID d" "tsm_state d' = tsm_state d" "tsm_dest d' = tsm_dest d"
    "LastSequenceNumber d' = LastSequenceNumber d"
    "InitialSequenceNumber d' = InitialSequenceNumber d"
    "ActualWindowSize d' = ActualWindowSize d"
    "ReceivedSegmentsCount d' = ReceivedSegmentsCount d"
    "tsm_apdu d' = tsm_apdu d" "tsm_apdu_len d' = tsm_apdu_len d"
    "SegmentTimer d' = SegmentTimer d" "RequestTimer d' = RequestTimer d"
  using assms [unfolded same_but_blob_def] by (cases d; cases d'; simp)+

lemma BLOB_CAP_value: "BLOB_CAP = 36900"
  by (simp add: BLOB_CAP_def MAX_APDU_def MAX_SEGMENTS_ACCEPTED_def)

lemma length_blob_view: "blob_ok d \<Longrightarrow> length (blob_view d) = unat (apdu_blob_size d)"
  by (auto simp: blob_ok_defs blob_view_def word_le_nat_alt split: option.splits)

lemma unat_add_small:
  "unat (a :: u32) + unat b < 4294967296 \<Longrightarrow> unat (a + b) = unat a + unat b"
  by (simp add: unat_word_ariths)

lemma unat_of_nat_u32: "n < 4294967296 \<Longrightarrow> unat (of_nat n :: u32) = n"
  by (simp add: unat_of_nat)

lemma ensure_extra_blob_size_spec:
  assumes ok: "blob_ok d" and mem: "memory_available env"
    and u: "unat u + unat (apdu_blob_size d) \<le> BLOB_CAP" "u \<noteq> 0"
  obtains d' b where "ensure_extra_blob_size env d u = Some d'" "same_but_blob d d'"
    "apdu_blob d' = Some b" "length b = unat (apdu_blob_allocated d')"
    "apdu_blob_size d' = apdu_blob_size d"
    "unat u + unat (apdu_blob_size d) \<le> length b" "length b \<le> 2 * BLOB_CAP"
    "take (unat (apdu_blob_size d)) b = blob_view d"
proof -
  let ?a = "apdu_blob_allocated d" and ?sz = "apdu_blob_size d"
  have us: "unat (u + ?sz) = unat u + unat ?sz"
    using u by (intro unat_add_small) (simp add: BLOB_CAP_value)
  have alloc: "unat (?a + u) = unat ?a + unat u"
    using ok u by (intro unat_add_small) (simp add: BLOB_CAP_value blob_ok_defs)
  show ?thesis
  proof (cases "apdu_blob d = None \<or> ?a = 0 \<or> ?a < u + ?sz")
    case True
    have a_le: "unat ?a \<le> unat u + unat ?sz"
      using True ok us by (auto simp: blob_ok_defs word_less_nat_alt split: option.splits)
    have sz_a: "unat ?sz \<le> unat ?a"
      using ok by (auto simp: blob_ok_defs word_le_nat_alt split: option.splits)
    define b where "b = blob_view d @ drop (unat ?sz) (replicate (unat (?a + u)) 0)"
    have len: "length b = unat (?a + u)"
      using length_blob_view [OF ok] sz_a alloc by (simp add: b_def)
    have eq: "ensure_extra_blob_size env d u
        = Some (d\<lparr>apdu_blob := Some b, apdu_blob_allocated := ?a + u\<rparr>)"
    proof (cases "?sz = 0")
      case z: True
      then have "b = replicate (unat (?a + u)) 0"
        by (auto simp: b_def blob_view_def split: option.splits)
      then show ?thesis using True z u(2) mem
        by (auto simp: ensure_extra_blob_size_def Let_def memory_available_def)
    next
      case False
      then obtain old where old: "apdu_blob d = Some old" "unat ?sz \<le> length old"
        using ok by (auto simp: blob_ok_defs word_le_nat_alt split: option.splits)
      then show ?thesis using True False u(2) mem sz_a alloc
        by (auto simp: ensure_extra_blob_size_def Let_def memory_available_def b_def blob_view_def
            min_def)
    qed
    have "unat u + unat ?sz \<le> length b" "length b \<le> 2 * BLOB_CAP" "take (unat ?sz) b = blob_view d"
      using len alloc a_le u sz_a length_blob_view [OF ok] by (simp_all add: b_def)
    then show ?thesis
      using len by (intro that [OF eq, of b]) (simp_all add: same_but_blob_upd)
  next
    case False
    then obtain b where "apdu_blob d = Some b" by auto
    then show ?thesis
      using False ok u us
      by (intro that [of d b])
        (auto simp: ensure_extra_blob_size_def blob_ok_defs blob_view_def
          word_less_nat_alt word_le_nat_alt not_less)
  qed
qed

lemma add_blob_data_spec:
  assumes ok: "blob_ok d" and mem: "memory_available env"
    and len: "length (blob_view d) + length xs \<le> BLOB_CAP"
  obtains d' where "add_blob_data env d xs = Some d'" "blob_ok d'" "blob_view d' = blob_view d @ xs"
    "same_but_blob d d'"
proof -
  let ?u = "of_nat (length xs) :: u32"
  have lu: "unat ?u = length xs" using len by (intro unat_of_nat_u32) (simp add: BLOB_CAP_value)
  have sz: "length (blob_view d) = unat (apdu_blob_size d)" by (rule length_blob_view [OF ok])
  show ?thesis
  proof (cases "xs = []")
    case True
    then show ?thesis using ok
      by (intro that [of d])
        (simp_all add: add_blob_data_def ensure_extra_blob_size_def)
  next
    case False
    then have "?u \<noteq> 0" using lu by (metis length_0_conv unat_0)
    with len sz lu obtain d1 b where d1: "ensure_extra_blob_size env d ?u = Some d1"
        "same_but_blob d d1" "apdu_blob d1 = Some b" "length b = unat (apdu_blob_allocated d1)"
        "apdu_blob_size d1 = apdu_blob_size d" "unat ?u + unat (apdu_blob_size d) \<le> length b"
        "length b \<le> 2 * BLOB_CAP" "take (unat (apdu_blob_size d)) b = blob_view d"
      using ensure_extra_blob_size_spec [OF ok mem, of ?u] by auto
    have add: "unat (apdu_blob_size d + ?u) = unat (apdu_blob_size d) + length xs"
      using len sz lu by (subst unat_add_small) (simp_all add: BLOB_CAP_value)
    define b' where "b' = take (unat (apdu_blob_size d)) b @ xs @ drop (unat (apdu_blob_size d) + length xs) b"
    have b': "length b' = length b" "take (unat (apdu_blob_size d) + length xs) b' = blob_view d @ xs"
      using d1(6,8) lu sz by (auto simp: b'_def)
    have eq: "add_blob_data env d xs
        = Some (d1\<lparr>apdu_blob := Some b', apdu_blob_size := apdu_blob_size d + ?u\<rparr>)"
      using d1 False lu by (simp add: add_blob_data_def Let_def b'_def)
    show ?thesis
      using d1 b' add len sz lu
      by (intro that [OF eq])
        (auto simp: blob_ok_defs blob_view_def word_le_nat_alt same_but_blob_upd)
  qed
qed

interpretation blob: append_buffer blob_ok blob_view BLOB_CAP memory_available reset_blob
  add_blob_data
proof (unfold_locales, goal_cases)
  case (1 b) then show ?case by (auto simp: blob_ok_defs reset_blob_def split: option.splits)
next
  case (2 b) then show ?case by (auto simp: blob_view_def reset_blob_def split: option.splits)
next
  case (3 b e xs) then show ?case by (meson add_blob_data_spec)
qed

text \<open>What the caller of the reassembly reads is the whole buffer: 16 bits hold its size.\<close>

lemma get_blob_data_view:
  assumes "blob_ok d"
  shows "get_blob_data d = (if apdu_blob d = None then None else Some (blob_view d))"
proof -
  have "unat (apdu_blob_size d) < 2 ^ 16" using assms by (simp add: blob_ok_defs BLOB_CAP_value)
  then have "unat (ucast (apdu_blob_size d) :: u16) = unat (apdu_blob_size d)"
    by (simp add: unsigned_ucast_eq take_bit_nat_eq_self)
  then show ?thesis by (auto simp: get_blob_data_def blob_view_def)
qed

end
