(* ===== verification/Bac_Tsm_Segment.thy ===== *)
theory Bac_Tsm_Segment
  imports Bac_Tsm_Buffer
begin

text \<open>
  The sending side of segmentation in \<^verbatim>\<open>tsm.c\<close>: how a response is cut into segments, what
  \<^verbatim>\<open>tsm_pdu_send\<close> puts on the wire for one of them, and which segments \<^verbatim>\<open>FillWindow\<close> sends.
\<close>

section \<open>Cutting a byte string into segments\<close>

definition pieces :: "nat \<Rightarrow> bytes \<Rightarrow> bytes list" where
  "pieces sz b = map (\<lambda>k. take sz (drop (k * sz) b)) [0..<(length b - 1) div sz + 1]"

lemma concat_pieces_prefix:
  "concat (map (\<lambda>k. take sz (drop (k * sz) b)) [0..<n]) = take (n * sz) b"
proof (induction n)
  case (Suc n)
  have "take (n * sz + sz) b = take (n * sz) b @ take sz (drop (n * sz) b)"
    by (rule take_add)
  with Suc show ?case by (simp add: add.commute)
qed simp

lemma concat_pieces: "0 < sz \<Longrightarrow> concat (pieces sz b) = b"
proof -
  assume "0 < sz"
  then have "length b \<le> ((length b - 1) div sz + 1) * sz"
    using dividend_less_div_times [of sz "length b - 1"] by simp
  then show ?thesis by (simp add: pieces_def concat_pieces_prefix del: upt_Suc)
qed

lemma length_pieces [simp]: "length (pieces sz b) = (length b - 1) div sz + 1"
  by (simp add: pieces_def)

lemma piece_bound: "p \<in> set (pieces sz b) \<Longrightarrow> length p \<le> sz"
  by (auto simp: pieces_def)

section \<open>A response in a transaction\<close>

definition response_ok :: "BACNET_TSM_DATA \<Rightarrow> bytes \<Rightarrow> bool" where
  "response_ok d b \<longleftrightarrow> tsm_apdu d = Some b \<and> tsm_apdu_len d = of_nat (length b) \<and>
     length b \<le> BLOB_CAP \<and> pdu_type (apdu_fixed_header d) = PDU_TYPE_COMPLEX_ACK \<and>
     (\<exists>a. service_data (apdu_fixed_header d) = Ack_Data a) \<and>
     6 \<le> unat (apdu_maximum_length d) \<and> unat (apdu_maximum_length d) \<le> MAX_APDU"

definition seg_size :: "BACNET_TSM_DATA \<Rightarrow> nat" where
  "seg_size d = unat (apdu_maximum_length d) - 5"

definition segmented :: "BACNET_TSM_DATA \<Rightarrow> bytes \<Rightarrow> bool" where
  "segmented d b \<longleftrightarrow> unat (apdu_maximum_length d) < 3 + length b"

definition response_segments :: "BACNET_TSM_DATA \<Rightarrow> bytes \<Rightarrow> bytes list" where
  "response_segments d b = (if segmented d b then pieces (seg_size d) b else [b])"

lemma concat_response_segments:
  "response_ok d b \<Longrightarrow> concat (response_segments d b) = b"
  by (simp add: response_segments_def concat_pieces seg_size_def response_ok_def)

lemma length_response_segments_pos [simp]: "0 < length (response_segments d b)"
  by (simp add: response_segments_def pieces_def)

lemma length_response_segments_le: "length (response_segments d b) \<le> length b + 1"
  using le_trans [OF div_le_dividend [of "length b - 1" "seg_size d"], of "length b"]
  by (simp add: response_segments_def)


lemma unat_minus_small: "unat (b :: u32) \<le> unat a \<Longrightarrow> unat (a - b) = unat a - unat b"
  by (simp add: unat_sub word_le_nat_alt)

lemma get_apdu_max_segments_response:
  assumes "response_ok d b"
  shows "get_apdu_max_segments d = Some (of_nat (length (response_segments d b)))"
proof -
  let ?M = "apdu_maximum_length d" and ?L = "of_nat (length b) :: u32"
  have L: "unat ?L = length b" and M: "6 \<le> unat ?M" "unat ?M \<le> 1476"
    and len: "tsm_apdu_len d = ?L" and ty: "pdu_type (apdu_fixed_header d) = PDU_TYPE_COMPLEX_ACK"
    using assms unat_of_nat_u32 [of "length b"]
    by (auto simp: response_ok_def BLOB_CAP_value MAX_APDU_def)
  have "unat (3 + ?L) = 3 + length b"
    using assms L by (subst unat_add_small) (simp_all add: response_ok_def BLOB_CAP_value)
  then have seg: "3 + ?L \<le> ?M \<longleftrightarrow> \<not> segmented d b"
    by (simp add: word_le_nat_alt segmented_def not_less)
  have blk: "unat (?M - 5) = seg_size d" using M by (subst unat_minus_small) (simp_all add: seg_size_def)
  have nz: "?M - 5 \<noteq> 0" using blk M by (auto simp: seg_size_def unat_eq_0 [symmetric])
  have "(?L - 1) div (?M - 5) + 1 = of_nat ((length b - 1) div seg_size d + 1)" if "segmented d b"
  proof -
    have "1 \<le> length b" using that M by (simp add: segmented_def)
    then have "unat (?L - 1) = length b - 1" using L by (subst unat_minus_small) simp_all
    then show ?thesis by (simp add: word_arith_nat_div [of "?L - 1"] blk)
  qed
  with seg nz show ?thesis
    by (simp add: get_apdu_max_segments_def get_apdu_header_typical_size_def len ty Let_def
        response_segments_def)
qed

section \<open>One segment on the wire\<close>

definition ack_of :: "BACNET_TSM_DATA \<Rightarrow> BACNET_CONFIRMED_SERVICE_ACK_DATA" where
  "ack_of d = (case service_data (apdu_fixed_header d) of Ack_Data a \<Rightarrow> a | Request_Data r \<Rightarrow> zero_ack_data)"

definition segment_apdu_header :: "BACNET_TSM_DATA \<Rightarrow> nat \<Rightarrow> nat \<Rightarrow> bytes" where
  "segment_apdu_header d n k =
     (if n = 1 then [PDU_TYPE_COMPLEX_ACK OR (if ack_more_follows (ack_of d) then 0x04 else 0x00),
         ack_invoke_id (ack_of d), service_choice (apdu_fixed_header d)]
      else [PDU_TYPE_COMPLEX_ACK OR (if k + 1 < n then 0x04 else 0x00) OR 0x08,
         ack_invoke_id (ack_of d), of_nat k, ack_proposed_window_number (ack_of d),
         service_choice (apdu_fixed_header d)])"

definition npdu_header :: "TSM_ENV \<Rightarrow> BACNET_TSM_DATA \<Rightarrow> bytes" where
  "npdu_header env d = fst (npdu_encode_pdu (Some (tsm_dest d)) (Some (my_address env)) (npdu_data d))"

definition wire_address :: "BACNET_ADDRESS \<Rightarrow> BACNET_ADDRESS" where
  "wire_address a = (if net a \<noteq> 0 then clamp_adr_len a else a)"

definition wire_dest :: "BACNET_TSM_DATA \<Rightarrow> BACNET_ADDRESS" where
  "wire_dest d = wire_address (tsm_dest d)"

definition segment_pdu :: "TSM_ENV \<Rightarrow> BACNET_TSM_DATA \<Rightarrow> bytes \<Rightarrow> nat \<Rightarrow> sent_pdu" where
  "segment_pdu env d b k =
     (wire_dest d, npdu_data d,
      npdu_header env d @ segment_apdu_header d (length (response_segments d b)) k
      @ response_segments d b ! k)"

definition sent_segment :: "BACNET_TSM_DATA \<Rightarrow> nat \<Rightarrow> nat \<Rightarrow> BACNET_TSM_DATA" where
  "sent_segment d n k = d\<lparr>tsm_dest := wire_dest d,
     apdu_fixed_header := (apdu_fixed_header d)\<lparr>service_data := Ack_Data
       (if n = 1 then (ack_of d)\<lparr>ack_segmented_message := False\<rparr>
        else (ack_of d)\<lparr>ack_segmented_message := True, ack_more_follows := k + 1 < n,
               ack_sequence_number := of_nat k\<rparr>)\<rparr>\<rparr>"

lemma clamp_idem [simp]: "clamp_adr_len (clamp_adr_len a) = clamp_adr_len a"
proof -
  have "\<not> MAX_MAC_LEN < unat (adr_len (clamp_adr_len a))" by (simp add: not_less)
  then show ?thesis by (simp add: clamp_adr_len_def [of "clamp_adr_len a"])
qed

lemma length_npdu_encode_pdu: "length (fst (npdu_encode_pdu (Some d) (Some s) n)) \<le> MAX_NPDU"
  using wf_clamp_adr_len(2) [of d] wf_clamp_adr_len(2) [of s]
  by (auto simp: npdu_encode_pdu_bytes dest_field_def src_field_def length_npdu_specifier
      npdu_message_def MAX_NPDU_def MAX_MAC_LEN_def length_encode_int)

lemma npdu_encode_pdu_dest:
  "fst (snd (npdu_encode_pdu (Some (tsm_dest d)) s n)) = Some (wire_dest d)"
  by (simp add: npdu_encode_pdu_def has_dest_def wire_dest_def wire_address_def Let_def)

lemma sint_small:
  assumes "unat (w :: u32) < 2147483648"
  shows "sint w = int (unat w)"
proof -
  have "int (unat w) < int 2147483648" using assms by (simp only: of_nat_less_iff)
  then have "uint w < 2147483648" by (simp only: uint_nat of_nat_numeral)
  then have "signed_take_bit 31 (uint w) = uint w"
    using order_trans [OF _ uint_ge_0 [of w], of "- 2147483648"]
    by (intro signed_take_bit_int_eq_self) simp_all
  then show ?thesis by (simp add: sint_uint)
qed

text \<open>The slice of the response that belongs to segment \<open>k\<close>.\<close>

lemma response_segment_nth:
  assumes "response_ok d b" "k < length (response_segments d b)"
  shows "response_segments d b ! k =
      (if segmented d b then take (seg_size d) (drop (k * seg_size d) b) else b)"
    "segmented d b \<Longrightarrow> k * seg_size d \<le> length b"
proof -
  show "response_segments d b ! k =
      (if segmented d b then take (seg_size d) (drop (k * seg_size d) b) else b)"
    using assms(2) by (cases "segmented d b") (simp_all add: response_segments_def pieces_def del: upt_Suc)
  assume "segmented d b"
  then have "k \<le> (length b - 1) div seg_size d" using assms(2) by (simp add: response_segments_def)
  then have "k * seg_size d \<le> (length b - 1) div seg_size d * seg_size d" by (rule mult_le_mono1)
  also have "\<dots> \<le> length b - 1" by (rule div_times_less_eq_dividend)
  finally show "k * seg_size d \<le> length b" by simp
qed

lemma segmented_iff: 
  assumes "response_ok d b"
  shows "segmented d b \<longleftrightarrow> 1 < length (response_segments d b)"
proof -
  have "seg_size d \<le> length b - 1" "0 < seg_size d" if "segmented d b"
    using that assms by (simp_all add: segmented_def seg_size_def response_ok_def)
  then show ?thesis by (auto simp: response_segments_def div_greater_zero_iff)
qed

lemma get_segment_response:
  assumes ok: "response_ok d b" and k: "k < length (response_segments d b)"
    and flag: "common_segmented_message (service_data (apdu_fixed_header d)) = segmented d b"
  shows "\<exists>off. get_apdu_blob_data_segment d (of_nat k)
      = Some (Some off, of_nat (length (response_segments d b ! k))) \<and>
      read_at b off (length (response_segments d b ! k)) = Some (response_segments d b ! k)"
proof -
  let ?M = "apdu_maximum_length d" and ?L = "of_nat (length b) :: u32"
  have facts: "tsm_apdu d = Some b" "tsm_apdu_len d = ?L" "length b \<le> 36900"
      "pdu_type (apdu_fixed_header d) = PDU_TYPE_COMPLEX_ACK" "6 \<le> unat ?M" "unat ?M \<le> 1476"
    using ok by (auto simp: response_ok_def BLOB_CAP_value MAX_APDU_def)
  have sL: "sint ?L = int (length b)"
    using facts(3) unat_of_nat_u32 [of "length b"] by (subst sint_small) simp_all
  have kb: "k \<le> 36900" using k length_response_segments_le [of d b] facts(3) by simp
  then have sk: "sint (of_nat k :: u32) = int k"
    using unat_of_nat_u32 [of k] by (subst sint_small) simp_all
  show ?thesis
  proof (cases "segmented d b")
    case True
    have "unat (?M - 5) = seg_size d" using facts by (subst unat_minus_small) (simp_all add: seg_size_def)
    then have sB: "sint (?M - 5) = int (seg_size d)"
      using facts by (subst sint_small) (simp_all add: seg_size_def)
    note seg = response_segment_nth [OF ok k]
    define off where "off = k * seg_size d"
    have off: "off \<le> length b" "sint (of_nat k :: u32) * sint (?M - 5) = int off"
      using seg(2) True by (simp_all add: off_def sk sB)
    have len: "length (response_segments d b ! k) = min (length b - off) (seg_size d)"
      using seg(1) True by (simp add: off_def min.commute)
    have "max 0 (min (int (length b) - int off) (sint (?M - 5)))
        = int (min (length b - off) (seg_size d))"
      using off(1) sB by linarith
    then have "get_apdu_blob_data_segment d (of_nat k)
      = Some (Some off, of_nat (length (response_segments d b ! k)))"
      using facts True flag off len sL
      by (simp add: get_apdu_blob_data_segment_def get_apdu_header_typical_size_def Let_def)
    moreover have "read_at b off (length (response_segments d b ! k)) = Some (response_segments d b ! k)"
      using off(1) len seg(1) True
      by (cases "seg_size d \<le> length b - off") (simp_all add: read_at_def off_def min_def)
    ultimately show ?thesis by blast
  next
    case False
    then have k0: "k = 0" "response_segments d b ! k = b" using k by (simp_all add: response_segments_def)
    have "unat (?M - 3) = unat ?M - 3" using facts by (subst unat_minus_small) simp_all
    then have sB: "sint (?M - 3) = int (unat ?M - 3)"
      using facts by (subst sint_small) simp_all
    have "length b \<le> unat ?M - 3" using False by (simp add: segmented_def)
    with sB have "max 0 (min (int (length b)) (sint (?M - 3))) = int (length b)" by linarith
    then have "get_apdu_blob_data_segment d 0 = Some (Some 0, of_nat (length b))"
      using facts False flag sL
      by (simp add: get_apdu_blob_data_segment_def get_apdu_header_typical_size_def Let_def)
    then show ?thesis using k0 by (auto simp: read_at_def)
  qed
qed

lemma sent_segment_simps [simp]:
  "tsm_apdu (sent_segment d n k) = tsm_apdu d" "tsm_apdu_len (sent_segment d n k) = tsm_apdu_len d"
  "apdu_maximum_length (sent_segment d n k) = apdu_maximum_length d"
  "npdu_data (sent_segment d n k) = npdu_data d"
  "ActualWindowSize (sent_segment d n k) = ActualWindowSize d"
  "InvokeID (sent_segment d n k) = InvokeID d" "tsm_state (sent_segment d n k) = tsm_state d"
  "InitialSequenceNumber (sent_segment d n k) = InitialSequenceNumber d"
  "SegmentRetryCount (sent_segment d n k) = SegmentRetryCount d"
  "apdu_blob (sent_segment d n k) = apdu_blob d"
  "apdu_blob_allocated (sent_segment d n k) = apdu_blob_allocated d"
  "apdu_blob_size (sent_segment d n k) = apdu_blob_size d"
  "ReceivedSegmentsCount (sent_segment d n k) = ReceivedSegmentsCount d"
  "seg_size (sent_segment d n k) = seg_size d" "segmented (sent_segment d n k) b = segmented d b"
  "response_segments (sent_segment d n k) b = response_segments d b"
  "tsm_dest (sent_segment d n k) = wire_dest d"
  by (simp_all add: sent_segment_def seg_size_def segmented_def response_segments_def)

lemma response_ok_sent: "response_ok d b \<Longrightarrow> response_ok (sent_segment d n k) b"
  by (auto simp: response_ok_def sent_segment_def)

lemma wire_dest_sent [simp]: "wire_dest (sent_segment d n k) = wire_dest d"
  by (simp add: wire_dest_def wire_address_def)

lemma npdu_header_sent [simp]: "npdu_header env (sent_segment d n k) = npdu_header env d"
  by (simp add: npdu_header_def npdu_encode_pdu_bytes dest_field_def wire_dest_def wire_address_def)

lemma of_nat_less_u32: "m < 4294967296 \<Longrightarrow> n < 4294967296 \<Longrightarrow> (of_nat m :: u32) < of_nat n \<longleftrightarrow> m < n"
  by (simp add: word_less_nat_alt unat_of_nat_u32)

lemma ucast_of_nat_u8: "k < 4294967296 \<Longrightarrow> ucast (of_nat k :: u32) = (of_nat k :: u8)"
  by (simp add: word_unat_eq_iff unsigned_ucast_eq unat_of_nat_u32 unsigned_of_nat)

lemma set_segment_header_response:
  assumes ok: "response_ok d b" and k: "k < length (response_segments d b)"
  shows "set_segment_header (d\<lparr>tsm_dest := wire_dest d\<rparr>) (of_nat k)
      (of_nat (length (response_segments d b)))
    = Some (sent_segment d (length (response_segments d b)) k)"
proof -
  let ?n = "length (response_segments d b)"
  have n: "?n < 4294967296"
    using length_response_segments_le [of d b] ok by (simp add: response_ok_def BLOB_CAP_value)
  obtain a where a: "service_data (apdu_fixed_header d) = Ack_Data a" using ok by (auto simp: response_ok_def)
  have one: "(of_nat ?n :: u32) = 1 \<longleftrightarrow> ?n = 1"
    using n unat_of_nat_u32 [of ?n] by (metis of_nat_1 unat_1)
  have pred: "(of_nat ?n :: u32) - 1 = of_nat (?n - 1)" using k by (simp add: of_nat_diff)
  have k32: "k < 4294967296" "?n - 1 < 4294967296" using n k by simp_all
  then have more: "(of_nat k :: u32) < of_nat ?n - 1 \<longleftrightarrow> k + 1 < ?n"
    unfolding pred by (subst of_nat_less_u32) (simp_all add: less_diff_conv)
  show ?thesis
    using one more a
    by (simp add: set_segment_header_def sent_segment_def ack_of_def Let_def ucast_of_nat_u8 k32)
qed

lemma length_segment_header: "length (segment_apdu_header d n k) \<le> 5"
  by (simp add: segment_apdu_header_def)

lemma encode_sent_header:
  assumes "response_ok d b" "k < n"
  shows "apdu_encode_fixed_header (apdu_fixed_header (sent_segment d n k))
    = Some (segment_apdu_header d n k)"
  using assms
  by (auto simp: apdu_encode_fixed_header_def sent_segment_def segment_apdu_header_def
      response_ok_def ack_of_def)

lemma segment_flag:
  assumes "response_ok d b"
  shows "common_segmented_message (service_data (apdu_fixed_header
    (sent_segment d (length (response_segments d b)) k))) = segmented d b"
proof -
  have "length (response_segments d b) = 1 \<longleftrightarrow> \<not> segmented d b"
    using segmented_iff [OF assms] length_response_segments_pos [of d b] by linarith
  then show ?thesis by (simp add: sent_segment_def)
qed

lemma length_response_segment:
  assumes "response_ok d b" "k < length (response_segments d b)"
  shows "length (response_segments d b ! k) + (if segmented d b then 5 else 3)
    \<le> unat (apdu_maximum_length d)"
  using response_segment_nth(1) [OF assms] assms(1)
  by (auto simp: seg_size_def response_ok_def segmented_def)

lemma tsm_pdu_send_response:
  assumes ok: "response_ok d b" and k: "k < length (response_segments d b)"
  shows "tsm_pdu_send env d (of_nat k) =
    Some (datalink_send_pdu env (wire_dest d) (npdu_data d) (snd (snd (segment_pdu env d b k))),
      sent_segment d (length (response_segments d b)) k, [segment_pdu env d b k])"
proof -
  let ?n = "length (response_segments d b)" and ?seg = "response_segments d b ! k"
  let ?d = "sent_segment d ?n k" and ?h = "segment_apdu_header d ?n k"
  obtain src' where enc: "npdu_encode_pdu (Some (tsm_dest d)) (Some (my_address env)) (npdu_data d)
      = (npdu_header env d, Some (wire_dest d), src')"
    using npdu_encode_pdu_dest [of d "Some (my_address env)" "npdu_data d"]
    by (metis npdu_header_def prod.collapse)
  have len: "length (npdu_header env d) \<le> 26" "length ?h \<le> 5" "length ?seg \<le> 1476"
    using length_npdu_encode_pdu length_segment_header length_response_segment [OF assms] ok
    by (auto simp: npdu_header_def MAX_NPDU_def MAX_MAC_LEN_def response_ok_def MAX_APDU_def)
  have n: "?n < 4294967296"
    using length_response_segments_le [of d b] ok by (simp add: response_ok_def BLOB_CAP_value)
  have "response_ok (d\<lparr>tsm_dest := wire_dest d\<rparr>) b" using ok by (simp add: response_ok_def)
  moreover have "response_segments (d\<lparr>tsm_dest := wire_dest d\<rparr>) b = response_segments d b"
    by (simp add: response_segments_def segmented_def seg_size_def)
  ultimately have tot: "get_apdu_max_segments (d\<lparr>tsm_dest := wire_dest d\<rparr>) = Some (of_nat ?n)"
    using get_apdu_max_segments_response by metis
  have in_range: "\<not> (of_nat ?n :: u32) \<le> of_nat k"
    using k n by (simp add: not_le of_nat_less_u32)
  obtain off where off: "get_apdu_blob_data_segment ?d (of_nat k) = Some (Some off, of_nat (length ?seg))"
      "read_at b off (length ?seg) = Some ?seg"
    using get_segment_response [OF response_ok_sent [OF ok], of k ?n k] k
    by (auto simp: segment_flag [OF ok])
  have sl: "unat (of_nat (length ?seg) :: u32) = length ?seg"
      "sint (of_nat (length ?seg) :: u32) = int (length ?seg)"
    using len(3) unat_of_nat_u32 [of "length ?seg"] sint_small [of "of_nat (length ?seg)"] by simp_all
  have b: "tsm_apdu d = Some b" using ok by (simp add: response_ok_def)
  show ?thesis
    using enc tot in_range set_segment_header_response [OF assms] encode_sent_header [OF ok k] off sl len b
    by (simp add: tsm_pdu_send_def check_write_apdu_space_def MAX_PDU_def MAX_APDU_def
        MAX_SEGMENTS_ACCEPTED_def MAX_NPDU_def MAX_MAC_LEN_def segment_pdu_def Let_def)
qed

section \<open>Filling a window\<close>

text \<open>
  Sending changes the header and the address kept in the transaction, but neither the response
  nor what any later segment looks like on the wire.
\<close>

definition resent :: "bytes \<Rightarrow> BACNET_TSM_DATA \<Rightarrow> BACNET_TSM_DATA \<Rightarrow> bool" where
  "resent b d d' \<longleftrightarrow> response_ok d' b \<and>
     d'\<lparr>tsm_dest := tsm_dest d, apdu_fixed_header := apdu_fixed_header d\<rparr> = d \<and>
     (\<forall>env k. segment_pdu env d' b k = segment_pdu env d b k)"

lemma resent_refl: "response_ok d b \<Longrightarrow> resent b d d"
  by (simp add: resent_def)

lemma sent_segment_header:
  "ack_of (sent_segment d n k) = (if n = 1 then (ack_of d)\<lparr>ack_segmented_message := False\<rparr>
     else (ack_of d)\<lparr>ack_segmented_message := True, ack_more_follows := k + 1 < n,
            ack_sequence_number := of_nat k\<rparr>)"
  "service_choice (apdu_fixed_header (sent_segment d n k)) = service_choice (apdu_fixed_header d)"
  by (simp_all add: sent_segment_def ack_of_def)

lemma resent_sent:
  assumes "response_ok d b"
  shows "resent b d (sent_segment d (length (response_segments d b)) k)"
proof -
  let ?d = "sent_segment d (length (response_segments d b)) k"
  have "?d\<lparr>tsm_dest := tsm_dest d, apdu_fixed_header := apdu_fixed_header d\<rparr> = d"
    by (simp add: sent_segment_def)
  moreover have "segment_pdu env ?d b j = segment_pdu env d b j" for env j
    by (simp add: segment_pdu_def segment_apdu_header_def sent_segment_header)
  ultimately show ?thesis using response_ok_sent [OF assms] by (simp add: resent_def)
qed

lemma resent_trans:
  assumes "resent b d d1" "resent b d1 d2"
  shows "resent b d d2"
proof -
  let ?f = "\<lambda>x. x\<lparr>tsm_dest := tsm_dest d, apdu_fixed_header := apdu_fixed_header d\<rparr>"
  have "?f d2 = ?f (d2\<lparr>tsm_dest := tsm_dest d1, apdu_fixed_header := apdu_fixed_header d1\<rparr>)" by simp
  also have "\<dots> = ?f d1" using assms(2) by (simp add: resent_def)
  finally show ?thesis using assms by (simp add: resent_def)
qed

lemma resent_fields:
  assumes "resent b d d'"
  shows "InvokeID d' = InvokeID d" "tsm_state d' = tsm_state d"
    "InitialSequenceNumber d' = InitialSequenceNumber d" "ActualWindowSize d' = ActualWindowSize d"
    "SegmentRetryCount d' = SegmentRetryCount d" "SegmentTimer d' = SegmentTimer d"
    "apdu_blob d' = apdu_blob d"
    "apdu_blob_allocated d' = apdu_blob_allocated d" "apdu_blob_size d' = apdu_blob_size d"
    "ReceivedSegmentsCount d' = ReceivedSegmentsCount d"
    "response_ok d' b" "response_segments d' b = response_segments d b"
    "segment_pdu env d' b k = segment_pdu env d b k"
proof -
  define e where "e = d'\<lparr>tsm_dest := tsm_dest d, apdu_fixed_header := apdu_fixed_header d\<rparr>"
  have d: "d = e" and "response_ok d' b" "\<forall>env k. segment_pdu env d' b k = segment_pdu env d b k"
    using assms by (simp_all add: resent_def e_def)
  then show "response_ok d' b" "segment_pdu env d' b k = segment_pdu env d b k" by simp_all
  show "InvokeID d' = InvokeID d" "tsm_state d' = tsm_state d"
    "InitialSequenceNumber d' = InitialSequenceNumber d" "ActualWindowSize d' = ActualWindowSize d"
    "SegmentRetryCount d' = SegmentRetryCount d" "SegmentTimer d' = SegmentTimer d"
    "apdu_blob d' = apdu_blob d"
    "apdu_blob_allocated d' = apdu_blob_allocated d" "apdu_blob_size d' = apdu_blob_size d"
    "ReceivedSegmentsCount d' = ReceivedSegmentsCount d"
    "response_segments d' b = response_segments d b"
    unfolding d by (simp_all add: e_def response_segments_def segmented_def seg_size_def)
qed

lemma of_nat_add_less_u32:
  assumes "i + x < 4294967296" "n < 4294967296"
  shows "of_nat i + of_nat x < (of_nat n :: u32) \<longleftrightarrow> i + x < n"
  using of_nat_less_u32 [OF assms] by simp

lemma fill_loop_response:
  assumes "response_ok d b" "n = length (response_segments d b)" "i + x + w < 4294967296"
  shows "\<exists>d'. fill_loop env (of_nat i) (of_nat n) w (of_nat x) d =
    Some (d', map (segment_pdu env d b) [i + x..<min (i + x + w) n],
      of_nat (x + (min (i + x + w) n - (i + x)))) \<and> resent b d d'"
  using assms
proof (induction w arbitrary: d x)
  case 0
  then show ?case by (auto simp: resent_refl)
next
  case (Suc w)
  have n: "n < 4294967296"
    using length_response_segments_le [of d b] Suc.prems by (simp add: response_ok_def BLOB_CAP_value)
  show ?case
  proof (cases "i + x < n")
    case False
    then show ?thesis
      using Suc.prems n by (auto simp: of_nat_add_less_u32 resent_refl)
  next
    case True
    let ?d = "sent_segment d n (i + x)"
    note snd = tsm_pdu_send_response [OF Suc.prems(1), of "i + x", folded Suc.prems(2), OF True]
    have r: "resent b d ?d" using resent_sent [OF Suc.prems(1)] Suc.prems(2) by simp
    have n': "n = length (response_segments ?d b)" using resent_fields [OF r] Suc.prems(2) by simp
    from Suc.IH [OF resent_fields(11) [OF r] n', of "Suc x"] Suc.prems(3)
    obtain d' where d': "fill_loop env (of_nat i) (of_nat n) w (of_nat (Suc x)) ?d =
        Some (d', map (segment_pdu env ?d b) [Suc (i + x)..<min (i + Suc x + w) n],
          of_nat (Suc x + (min (i + Suc x + w) n - (i + Suc x))))" "resent b ?d d'" by auto
    have "segment_pdu env ?d b = segment_pdu env d b" using resent_fields(13) [OF r] by auto
    with d' snd True n Suc.prems(3)
    have "fill_loop env (of_nat i) (of_nat n) (Suc w) (of_nat x) d =
        Some (d', segment_pdu env d b (i + x) # map (segment_pdu env d b) [Suc (i + x)..<min (i + x + Suc w) n],
          of_nat (Suc x + (min (i + x + Suc w) n - Suc (i + x))))"
      by (simp add: of_nat_less_u32 add.commute [of 1] flip: of_nat_add)
    moreover have "[i + x..<min (i + x + Suc w) n] = (i + x) # [Suc (i + x)..<min (i + x + Suc w) n]"
      using True by (simp add: upt_rec)
    moreover have "Suc x + (min (i + x + Suc w) n - Suc (i + x)) = x + (min (i + x + Suc w) n - (i + x))"
      using True by simp
    ultimately show ?thesis using resent_trans [OF r d'(2)] by auto
  qed
qed

lemma FillWindow_response:
  assumes "response_ok d b" "i \<le> 255"
  defines "n \<equiv> length (response_segments d b)"
  shows "\<exists>d'. FillWindow env d (of_nat i) =
    Some (d'\<lparr>SentAllSegments := n \<le> i + unat (ActualWindowSize d) \<or> n \<le> i \<or> SentAllSegments d'\<rparr>,
      map (segment_pdu env d b) [i..<min (i + unat (ActualWindowSize d)) n]) \<and> resent b d d'"
proof -
  let ?w = "unat (ActualWindowSize d)"
  have w: "?w < 256" by (rule unat_bounds)
  have n: "n < 4294967296"
    using length_response_segments_le [of d b] assms by (simp add: response_ok_def BLOB_CAP_value)
  from fill_loop_response [OF assms(1) meta_eq_to_obj_eq [OF n_def], of i 0 ?w env] w assms(2)
  obtain d' where d': "fill_loop env (of_nat i) (of_nat n) ?w 0 d =
      Some (d', map (segment_pdu env d b) [i..<min (i + ?w) n], of_nat (min (i + ?w) n - i))"
      "resent b d d'" by auto
  have "of_nat n \<le> of_nat (min (i + ?w) n - i) + (of_nat i :: u32) \<longleftrightarrow> n \<le> min (i + ?w) n - i + i"
    using n w assms(2) of_nat_less_u32 [of "min (i + ?w) n - i + i" n] by (simp add: not_less [symmetric])
  also have "\<dots> \<longleftrightarrow> n \<le> i + ?w \<or> n \<le> i" by auto
  finally show ?thesis
    using d' get_apdu_max_segments_response [OF assms(1)]
    by (auto simp: FillWindow_def n_def)
qed

section \<open>Short PDUs\<close>

definition short_pdu :: "TSM_ENV \<Rightarrow> BACNET_ADDRESS \<Rightarrow> bytes \<Rightarrow> sent_pdu" where
  "short_pdu env a bs =
     (let n = npdu_encode_npdu_data False MESSAGE_PRIORITY_NORMAL
      in (wire_address a, n, fst (npdu_encode_pdu (Some a) (Some (my_address env)) n) @ bs))"

lemma send_apdu_short:
  assumes "length bs \<le> 4"
  shows "send_apdu env a bs s = Some (wire_address a, log_sent [short_pdu env a bs] s)"
proof -
  let ?n = "npdu_encode_npdu_data False MESSAGE_PRIORITY_NORMAL"
  obtain h a' r where e: "npdu_encode_pdu (Some a) (Some (my_address env)) ?n = (h, a', r)"
    by (metis prod.exhaust)
  have "length h \<le> 26"
    using length_npdu_encode_pdu [of a "my_address env" ?n] e
    by (simp add: MAX_NPDU_def MAX_MAC_LEN_def)
  moreover have "a' = Some (wire_address a)"
    using e by (auto simp: npdu_encode_pdu_def has_dest_def wire_address_def Let_def)
  ultimately show ?thesis using assms e
    by (simp add: send_apdu_def short_pdu_def MAX_PDU_def MAX_APDU_def MAX_SEGMENTS_ACCEPTED_def
        MAX_NPDU_def MAX_MAC_LEN_def Let_def)
qed

lemma segmentack_pdu_send_eq [simp]:
  "segmentack_pdu_send env a nak server iid seq w s =
     Some (wire_address a,
       log_sent [short_pdu env a (segmentack_encode_apdu nak server iid seq w)] s)"
  by (simp add: segmentack_pdu_send_def send_apdu_short segmentack_encode_apdu_def Let_def)

lemma abort_pdu_send_eq [simp]:
  "abort_pdu_send env iid a reason server s =
     Some (wire_address a,
       log_sent [short_pdu env a (abort_encode_apdu iid (of_int reason) server)] s)"
  by (simp add: abort_pdu_send_def send_apdu_short abort_encode_apdu_def)

end
