(* ===== verification/Bac_Tsm_Inv.thy ===== *)
theory Bac_Tsm_Inv
  imports Bac_Tsm_Segment
begin

text \<open>
  The invariant of the transaction state machine of \<^verbatim>\<open>tsm.c\<close> and its preservation by every
  operation, together with the fact that the operations of the server side never leave defined
  behaviour: no access outside a buffer, no NULL dereference, no division by zero, and every
  loop ends.
\<close>

section \<open>The invariant\<close>

definition slot_inv :: "BACNET_TSM_DATA \<Rightarrow> bool" where
  "slot_inv d \<longleftrightarrow> blob_ok d \<and>
     unat (apdu_blob_size d) \<le> unat (ReceivedSegmentsCount d) * MAX_APDU \<and>
     (tsm_state d = TSM_STATE_SEGMENTED_REQUEST_SERVER \<longrightarrow>
        unat (ReceivedSegmentsCount d) \<le> MAX_SEGMENTS_ACCEPTED) \<and>
     (tsm_state d = TSM_STATE_SEGMENTED_RESPONSE_SERVER \<longrightarrow>
        (\<exists>b. response_ok d b \<and> segmented d b \<and>
           length (response_segments d b) \<le> MAX_SEGMENTS_ACCEPTED \<and>
           unat (InitialSequenceNumber d) < length (response_segments d b))) \<and>
     (tsm_state d = TSM_STATE_AWAIT_CONFIRMATION \<longrightarrow>
        (\<exists>b. tsm_apdu d = Some b \<and> unat (tsm_apdu_len d) \<le> length b))"

definition tsm_inv :: "TSM \<Rightarrow> bool" where
  "tsm_inv s \<longleftrightarrow> invoke_ids_ok s \<and> (\<forall>d \<in> set (TSM_List s). slot_inv d)"

lemma tsm_inv_slot: "tsm_inv s \<Longrightarrow> i < length (TSM_List s) \<Longrightarrow> slot_inv (TSM_List s ! i)"
  by (simp add: tsm_inv_def)

lemma tsm_inv_ids: "tsm_inv s \<Longrightarrow> invoke_ids_ok s"
  by (simp add: tsm_inv_def)

lemma tsm_inv_simps [simp]:
  "tsm_inv (log_sent ps s) = tsm_inv s"
  "tsm_inv (s\<lparr>Duplicate_Count := n\<rparr>) = tsm_inv s"
  "tsm_inv (s\<lparr>config := c\<rparr>) = tsm_inv s"
  "tsm_inv (s\<lparr>Timeout_Function := f\<rparr>) = tsm_inv s"
  "tsm_inv (upd_peer s i g) = tsm_inv s"
  "tsm_inv (tsm_clear_peer_id iid s) = tsm_inv s"
  by (simp_all add: tsm_inv_def invoke_ids_ok_def)

lemma upd_slot_keeps:
  assumes "tsm_inv s" "slot_inv (f (TSM_List s ! i))"
    and "InvokeID (f (TSM_List s ! i)) = InvokeID (TSM_List s ! i) \<or> InvokeID (f (TSM_List s ! i)) = 0"
  shows "tsm_inv (upd_slot s i f)"
proof -
  have "ids_unique ((map InvokeID (TSM_List s))[i := InvokeID (f (TSM_List s ! i))])"
  proof (cases "i < length (TSM_List s)")
    case True
    have "(map InvokeID (TSM_List s))[i := InvokeID (TSM_List s ! i)] = map InvokeID (TSM_List s)"
      using True by (simp add: map_update [symmetric])
    with assms(1,3) show ?thesis
      by (auto simp: tsm_inv_def invoke_ids_ok_def intro: ids_unique_update)
  next
    case False
    then show ?thesis
      using assms(1) by (simp add: tsm_inv_def invoke_ids_ok_def list_update_beyond)
  qed
  moreover have "slot_inv d" if "d \<in> set ((TSM_List s)[i := f (TSM_List s ! i)])" for d
    using that assms(1,2) set_update_subset_insert [of "TSM_List s" i] by (auto simp: tsm_inv_def)
  ultimately show ?thesis using assms(1) by (simp add: tsm_inv_def invoke_ids_ok_def map_update)
qed

text \<open>Putting a slot to rest keeps the invariant, with or without its buffers.\<close>

lemma slot_inv_idle: "slot_inv d \<Longrightarrow> slot_inv (d\<lparr>tsm_state := TSM_STATE_IDLE\<rparr>)"
  by (simp add: slot_inv_def blob_ok_def)

lemma slot_inv_idle_id: "slot_inv d \<Longrightarrow> slot_inv (d\<lparr>tsm_state := TSM_STATE_IDLE, InvokeID := iid\<rparr>)"
  by (simp add: slot_inv_def blob_ok_def)

lemma blob_ok_free [simp]: "blob_ok (free_blob d)"
  by (simp add: blob_ok_defs free_blob_def)

lemma slot_inv_free_idle:
  "tsm_state d = TSM_STATE_IDLE \<Longrightarrow> slot_inv (free_blob d)"
  by (simp add: slot_inv_def free_blob_def blob_ok_defs)

lemma free_blob_simps [simp]:
  "InvokeID (free_blob d) = InvokeID d" "tsm_state (free_blob d) = tsm_state d"
  by (simp_all add: free_blob_def)

section \<open>Identifiers and peers\<close>

lemma reserve_slot_keeps:
  assumes "tsm_inv s" "0 < free_slots s" "iid \<noteq> 0" "iid \<notin> held_ids s"
  shows "tsm_inv (reserve_slot s iid)"
proof -
  let ?j = "tsm_find_first_free_index s"
  have j: "?j < length (TSM_List s)" using first_free_index(1) [OF assms(2)] .
  have "slot_inv ((TSM_List s ! ?j)\<lparr>InvokeID := iid, tsm_state := TSM_STATE_IDLE,
      RequestTimer := apdu_timeout s\<rparr>)"
    using tsm_inv_slot [OF assms(1) j] by (simp add: slot_inv_def blob_ok_def)
  then have "slot_inv d" if "d \<in> set (TSM_List (reserve_slot s iid))" for d
    using that assms(1) set_update_subset_insert [of "TSM_List s" ?j]
    by (auto simp: reserve_slot_def tsm_inv_def)
  then show ?thesis
    using reserve_slot_ids(1) [OF tsm_inv_ids [OF assms(1)] assms(2-4)] by (simp add: tsm_inv_def)
qed

lemma next_free_invokeID_keeps:
  assumes "tsm_inv s"
  shows "wp (tsm_next_free_invokeID s) (\<lambda>(iid, s'). tsm_inv s' \<and> TSM_Peer_Ids s' = TSM_Peer_Ids s \<and>
    length (TSM_List s') = length (TSM_List s) \<and> config s' = config s \<and>
    (iid = 0 \<longleftrightarrow> free_slots s = 0) \<and> (iid = 0 \<longrightarrow> s' = s) \<and>
    (iid \<noteq> 0 \<longrightarrow> iid \<in> held_ids s' \<and> tsm_state (TSM_List s' ! tsm_find_invokeID_index s' iid) = TSM_STATE_IDLE))"
proof (cases "free_slots s = 0")
  case True
  with assms show ?thesis by (simp add: next_free_invokeID_full)
next
  case False
  then obtain iid where iid: "iid \<noteq> 0" "iid \<notin> held_ids s"
      "tsm_next_free_invokeID s = Some (iid, reserve_slot s iid)"
    using next_free_invokeID_room [OF tsm_inv_ids [OF assms]] by auto
  note r = reserve_slot_ids [OF tsm_inv_ids [OF assms], OF _ iid(1,2)]
  let ?j = "tsm_find_first_free_index s"
  have j: "?j < length (TSM_List s)" using False first_free_index(1) by simp
  have "tsm_find_invokeID_index (reserve_slot s iid) iid = ?j"
    using r(1) False j iid(1) by (intro find_invokeID_found) (simp_all add: reserve_slot_def)
  then show ?thesis
    using False iid r reserve_slot_keeps [OF assms _ iid(1,2)] j by (simp add: reserve_slot_def)
qed

lemma free_invoke_id_check_keeps [keeps_inv]:
  assumes "tsm_inv s"
  shows "tsm_inv (tsm_free_invoke_id_check iid peer c s)"
proof -
  let ?i = "tsm_find_invokeID_index s iid"
  define s1 where "s1 = tsm_clear_peer_id iid (upd_slot s ?i (\<lambda>d. d\<lparr>tsm_state := TSM_STATE_IDLE\<rparr>))"
  define s2 where "s2 = upd_slot s1 ?i (\<lambda>d. d\<lparr>InvokeID := 0\<rparr>)"
  have "tsm_inv s2 \<and> tsm_inv (upd_slot s2 ?i free_blob)" if i: "?i < length (TSM_List s)"
  proof -
    have d: "TSM_List s1 ! ?i = (TSM_List s ! ?i)\<lparr>tsm_state := TSM_STATE_IDLE\<rparr>"
      "TSM_List s2 ! ?i = (TSM_List s ! ?i)\<lparr>tsm_state := TSM_STATE_IDLE, InvokeID := 0\<rparr>"
      using i by (simp_all add: s1_def s2_def)
    have "tsm_inv s1" unfolding s1_def using tsm_inv_slot [OF assms i] assms
      by (simp add: upd_slot_keeps slot_inv_idle)
    then have "tsm_inv s2" unfolding s2_def using tsm_inv_slot [OF assms i] d(1)
      by (intro upd_slot_keeps) (simp_all add: slot_inv_idle_id)
    then show ?thesis using d(2) by (simp add: upd_slot_keeps slot_inv_free_idle)
  qed
  then show ?thesis using assms
    by (simp add: tsm_free_invoke_id_check_def Let_def flip: s1_def s2_def)
qed

lemma free_invoke_id_keeps [keeps_inv]: "tsm_inv s \<Longrightarrow> tsm_inv (tsm_free_invoke_id iid s)"
  using tsm_inv_slot [of s "tsm_find_invokeID_index s iid"]
  by (simp add: tsm_free_invoke_id_def Let_def upd_slot_keeps slot_inv_idle_id)

lemma get_peer_id_data_keeps:
  assumes inv: "tsm_inv s"
  shows "wp (tsm_get_peer_id_data src iid create s) (\<lambda>(r, s'). tsm_inv s' \<and> config s' = config s \<and>
    length (TSM_List s') = length (TSM_List s) \<and> (\<not> create \<longrightarrow> s' = s) \<and>
    (\<forall>i. r = Some i \<longrightarrow> i < length (TSM_Peer_Ids s') \<and> InternalInvokeID (TSM_Peer_Ids s' ! i) \<noteq> 0))"
proof -
  let ?item = "find_index (peer_matches src iid) (TSM_Peer_Ids s)"
  let ?f = "find_index (\<lambda>p. InternalInvokeID p = 0) (TSM_Peer_Ids s)"
  consider "?item < length (TSM_Peer_Ids s)"
    | "\<not> ?item < length (TSM_Peer_Ids s)" "create" "?f < length (TSM_Peer_Ids s)"
    | "\<not> ?item < length (TSM_Peer_Ids s)" "\<not> (create \<and> ?f < length (TSM_Peer_Ids s))" by blast
  then show ?thesis
  proof cases
    case 1
    with inv find_index_nth [OF 1] show ?thesis
      by (simp add: tsm_get_peer_id_data_def Let_def peer_matches_def)
  next
    case 3
    then have "tsm_get_peer_id_data src iid create s = Some (None, s)"
      by (auto simp: tsm_get_peer_id_data_def Let_def)
    with inv show ?thesis by simp
  next
    case 2
    let ?s1 = "upd_peer s ?f (\<lambda>p. p\<lparr>PeerInvokeID := iid, PeerAddress := src\<rparr>)"
    have "tsm_inv ?s1" using inv by simp
    from wp_D [OF next_free_invokeID_keeps [OF this]]
    obtain v s2 where s2: "tsm_next_free_invokeID ?s1 = Some (v, s2)" "tsm_inv s2"
        "TSM_Peer_Ids s2 = TSM_Peer_Ids ?s1" "length (TSM_List s2) = length (TSM_List s)"
        "config s2 = config s" "v = 0 \<longrightarrow> free_slots ?s1 = 0" "v = 0 \<longrightarrow> s2 = ?s1"
        "v \<noteq> 0 \<longrightarrow> tsm_state (TSM_List s2 ! tsm_find_invokeID_index s2 v) = TSM_STATE_IDLE"
      by auto
    define s3 where "s3 = upd_peer s2 ?f (\<lambda>p. p\<lparr>InternalInvokeID := v\<rparr>)"
    have find: "tsm_find_invokeID_index s3 v = tsm_find_invokeID_index s2 v"
      by (simp add: s3_def tsm_find_invokeID_index_def)
    have free: "v = 0 \<Longrightarrow> \<not> tsm_find_invokeID_index s3 v < length (TSM_List s3)"
      using s2(6,7) first_free_index(1) [of s3]
      by (auto simp: s3_def tsm_find_invokeID_index_def tsm_find_first_free_index_def free_slots_def
          find_index_less in_set_conv_nth)
    let ?i = "tsm_find_invokeID_index s3 v"
    have keep: "tsm_inv (upd_slot s3 ?i (\<lambda>d. d\<lparr>InvokeID := v, tsm_dest := src\<rparr>))"
      if i: "?i < length (TSM_List s3)"
    proof (intro upd_slot_keeps)
      show "tsm_inv s3" using s2(2) by (simp add: s3_def)
      have "tsm_state (TSM_List s3 ! ?i) = TSM_STATE_IDLE"
        using free i s2(8) find by (auto simp: s3_def)
      then show "slot_inv ((TSM_List s3 ! ?i)\<lparr>InvokeID := v, tsm_dest := src\<rparr>)"
        using tsm_inv_slot [OF \<open>tsm_inv s3\<close> i] by (simp add: slot_inv_def blob_ok_def)
      show "InvokeID ((TSM_List s3 ! ?i)\<lparr>InvokeID := v, tsm_dest := src\<rparr>) = InvokeID (TSM_List s3 ! ?i) \<or>
          InvokeID ((TSM_List s3 ! ?i)\<lparr>InvokeID := v, tsm_dest := src\<rparr>) = 0"
        using find_invokeID_nth [OF i] by simp
    qed
    have "tsm_inv s3" "config s3 = config s" "length (TSM_List s3) = length (TSM_List s)"
      "length (TSM_Peer_Ids s3) = length (TSM_Peer_Ids s)"
      "InternalInvokeID (TSM_Peer_Ids s3 ! ?f) = v"
      using s2 2(3) by (simp_all add: s3_def)
    then show ?thesis
      using 2 s2(1,4) keep free
      by (auto simp: tsm_get_peer_id_data_def Let_def simp flip: s3_def)
  qed
qed

section \<open>Receiving segments\<close>

definition request_bytes :: "bytes option \<Rightarrow> bytes" where
  "request_bytes req = (case req of None \<Rightarrow> [] | Some r \<Rightarrow> r)"

lemma add_blob_slot:
  assumes inv: "slot_inv d" and mem: "memory_available env"
    and st: "tsm_state d \<in> {TSM_STATE_IDLE, TSM_STATE_SEGMENTED_REQUEST_SERVER}"
    and len: "length (blob_view d) + length xs \<le> unat (ReceivedSegmentsCount d) * MAX_APDU"
    and cnt: "unat (ReceivedSegmentsCount d) \<le> MAX_SEGMENTS_ACCEPTED"
  obtains d' where "add_blob_data env d xs = Some d'" "slot_inv d'"
    "blob_view d' = blob_view d @ xs" "same_but_blob d d'"
proof -
  have ok: "blob_ok d" using inv by (simp add: slot_inv_def)
  have "length (blob_view d) + length xs \<le> BLOB_CAP"
    unfolding BLOB_CAP_def using len mult_le_mono1 [OF cnt, of MAX_APDU]
    by (metis le_trans mult.commute)
  then obtain d' where d': "add_blob_data env d xs = Some d'" "blob_ok d'"
      "blob_view d' = blob_view d @ xs" "same_but_blob d d'"
    using add_blob_data_spec [OF ok mem] by blast
  have "slot_inv d'"
    using d' len cnt st length_blob_view [OF d'(2)] same_but_blob_fields [OF d'(4)]
    by (auto simp: slot_inv_def)
  with d' that show ?thesis by blast
qed

text \<open>The slot after the first step of \<open>segment_in_idle\<close>.\<close>

definition fresh_request :: "u8 \<Rightarrow> u16 \<Rightarrow> BACNET_TSM_DATA \<Rightarrow> BACNET_TSM_DATA" where
  "fresh_request w t d = reset_blob (d\<lparr>
     tsm_state := TSM_STATE_SEGMENTED_REQUEST_SERVER,
     ActualWindowSize := w, ProposedWindowSize := w,
     InitialSequenceNumber := 0, LastSequenceNumber := 0,
     RetryCount := 0, SegmentRetryCount := 0, ReceivedSegmentsCount := 1,
     RequestTimer := 0, SegmentTimer := t\<rparr>)"

lemma fresh_request_inv:
  assumes "slot_inv d"
  shows "slot_inv (fresh_request w t d)" "blob_view (fresh_request w t d) = []"
    "InvokeID (fresh_request w t d) = InvokeID d"
    "tsm_state (fresh_request w t d) = TSM_STATE_SEGMENTED_REQUEST_SERVER"
    "ReceivedSegmentsCount (fresh_request w t d) = 1"
    "ActualWindowSize (fresh_request w t d) = w" "ProposedWindowSize (fresh_request w t d) = w"
    "LastSequenceNumber (fresh_request w t d) = 0"
    "InitialSequenceNumber (fresh_request w t d) = 0"
    "tsm_dest (fresh_request w t d) = tsm_dest d"
  using assms
  by (auto simp: fresh_request_def reset_blob_def slot_inv_def blob_ok_defs blob_view_def
      MAX_SEGMENTS_ACCEPTED_def split: option.splits)

lemma segment_in_idle_def':
  "segment_in_idle env index iid src sd req s =
     (let w = proposed_window_number sd;
          s1 = upd_slot s index (fresh_request w (apdu_segment_timeout s * 4)) in
      if index < length (TSM_List s) then
        if sequence_number sd = 0 \<and> (w = 0 \<or> 127 < w) then
          Some (False, req, wire_address src,
            upd_slot (log_sent [short_pdu env src (abort_encode_apdu (invoke_id sd)
              (of_int ABORT_REASON_WINDOW_SIZE_OUT_OF_RANGE) True)] s1)
              index (\<lambda>d. d\<lparr>tsm_state := TSM_STATE_IDLE\<rparr>))
        else if sequence_number sd \<noteq> 0 then
          Some (False, req, wire_address src,
            tsm_free_invoke_id_check iid None True
              (log_sent [short_pdu env src (abort_encode_apdu (invoke_id sd)
                (of_int ABORT_REASON_INVALID_APDU_IN_THIS_STATE) True)] (upd_slot s1 index free_blob)))
        else do {
          d \<leftarrow> add_blob_data env (TSM_List s1 ! index) (request_bytes req);
          Some (False, req, wire_address src,
            log_sent [short_pdu env src (segmentack_encode_apdu False True (invoke_id sd)
              (LastSequenceNumber d) (ActualWindowSize d))] (upd_slot s1 index (\<lambda>_. d))) }
      else segment_in_idle env index iid src sd req s)"
  by (simp add: segment_in_idle_def fresh_request_def [abs_def] reset_blob_def request_bytes_def
      Let_def)

lemma upd_slot_upd_slot:
  "i < length (TSM_List s) \<Longrightarrow> upd_slot (upd_slot s i f) i g = upd_slot s i (\<lambda>d. g (f d))"
  by (simp add: upd_slot_def)

lemma upd_slot_log_sent: "upd_slot (log_sent ps s) i f = log_sent ps (upd_slot s i f)"
  by (simp add: upd_slot_def log_sent_def)

lemma slot_inv_free:
  assumes "slot_inv d" "tsm_state d \<notin> {TSM_STATE_SEGMENTED_RESPONSE_SERVER, TSM_STATE_AWAIT_CONFIRMATION}"
  shows "slot_inv (free_blob d)"
  using assms by (auto simp: slot_inv_def free_blob_def blob_ok_defs)

lemma segment_in_idle_keeps:
  assumes inv: "tsm_inv s" and i: "index < length (TSM_List s)" and mem: "memory_available env"
    and len: "length (request_bytes req) \<le> MAX_APDU"
  shows "wp (segment_in_idle env index iid src sd req s) (\<lambda>(r, req', src', s'). \<not> r \<and> tsm_inv s')"
proof -
  let ?w = "proposed_window_number sd"
  define f where "f = fresh_request ?w (apdu_segment_timeout s * 4)"
  note d1 = fresh_request_inv [OF tsm_inv_slot [OF inv i], of ?w "apdu_segment_timeout s * 4", folded f_def]
  have s1: "tsm_inv (upd_slot s index f)" using inv d1 by (intro upd_slot_keeps) simp_all
  obtain d2 where d2: "add_blob_data env (f (TSM_List s ! index)) (request_bytes req) = Some d2"
      "slot_inv d2" "same_but_blob (f (TSM_List s ! index)) d2"
    using add_blob_slot [OF d1(1) mem, of "request_bytes req"] d1 len
    by (auto simp: MAX_SEGMENTS_ACCEPTED_def)
  have "tsm_inv (upd_slot (upd_slot s index f) index (\<lambda>_. d2))"
    using s1 d2 i same_but_blob_fields(1) [OF d2(3)] by (intro upd_slot_keeps [of "upd_slot s index f"]) simp_all
  moreover have "tsm_inv (upd_slot (upd_slot s index f) index (\<lambda>d. d\<lparr>tsm_state := TSM_STATE_IDLE\<rparr>))"
    using s1 d1 i by (intro upd_slot_keeps [of "upd_slot s index f"]) (simp_all add: slot_inv_idle)
  moreover have "tsm_inv (upd_slot (upd_slot s index f) index free_blob)"
    using s1 d1 i by (intro upd_slot_keeps [of "upd_slot s index f"]) (simp_all add: slot_inv_free)
  ultimately show ?thesis
    using d2(1) i
    by (simp add: segment_in_idle_def' Let_def upd_slot_log_sent free_invoke_id_check_keeps flip: f_def)
qed

lemma apdu_config_simps [simp]:
  "apdu_timeout (log_sent ps s) = apdu_timeout s" "apdu_timeout (upd_slot s i f) = apdu_timeout s"
  "apdu_segment_timeout (log_sent ps s) = apdu_segment_timeout s"
  "apdu_segment_timeout (upd_slot s i f) = apdu_segment_timeout s"
  "apdu_retries (log_sent ps s) = apdu_retries s" "apdu_retries (upd_slot s i f) = apdu_retries s"
  by (simp_all add: apdu_timeout_def apdu_segment_timeout_def apdu_retries_def)

lemma duplicate_segment_received_keeps:
  assumes "tsm_inv s" "index < length (TSM_List s)"
    and st: "tsm_state (TSM_List s ! index) \<in> {TSM_STATE_IDLE, TSM_STATE_SEGMENTED_REQUEST_SERVER}"
  shows "wp (duplicate_segment_received env index sd src s) (\<lambda>(r, src', s'). tsm_inv s')"
proof -
  have d: "slot_inv (TSM_List s ! index)" using tsm_inv_slot [OF assms(1,2)] .
  have "tsm_inv (upd_slot s index (\<lambda>d. d\<lparr>SegmentTimer := t\<rparr>))" for t
    using assms d by (intro upd_slot_keeps) (auto simp: slot_inv_def blob_ok_def)
  moreover have "tsm_inv (upd_slot s index (\<lambda>d. d\<lparr>SegmentTimer := t, InitialSequenceNumber := LastSequenceNumber d\<rparr>))" for t
    using assms d by (intro upd_slot_keeps) (auto simp: slot_inv_def blob_ok_def)
  ultimately show ?thesis
    using assms by (simp add: duplicate_segment_received_def Let_def upd_slot_log_sent)
qed

lemma new_segment_received_keeps:
  assumes inv: "tsm_inv s" and i: "index < length (TSM_List s)" and mem: "memory_available env"
    and len: "length (request_bytes req) \<le> MAX_APDU"
    and st: "tsm_state (TSM_List s ! index) \<in> {TSM_STATE_IDLE, TSM_STATE_SEGMENTED_REQUEST_SERVER}"
    and cnt: "unat (ReceivedSegmentsCount (TSM_List s ! index)) \<le> MAX_SEGMENTS_ACCEPTED"
  shows "wp (new_segment_received env index iid src sd req s) (\<lambda>(r, req', src', s'). tsm_inv s')"
proof -
  let ?d = "TSM_List s ! index"
  have d: "slot_inv ?d" using tsm_inv_slot [OF inv i] .
  have cnt': "unat (ReceivedSegmentsCount ?d + 1) = unat (ReceivedSegmentsCount ?d) + 1"
    using cnt by (subst unat_add_small) (simp_all add: MAX_SEGMENTS_ACCEPTED_def)
  define s1 where "s1 = upd_slot s index (\<lambda>d. d\<lparr>ReceivedSegmentsCount := ReceivedSegmentsCount d + 1\<rparr>)"
  have s1: "TSM_List s1 ! index = ?d\<lparr>ReceivedSegmentsCount := ReceivedSegmentsCount ?d + 1\<rparr>"
      "length (TSM_List s1) = length (TSM_List s)" using i by (simp_all add: s1_def)
  show ?thesis
  proof (cases "of_nat MAX_SEGMENTS_ACCEPTED < ReceivedSegmentsCount (TSM_List s1 ! index)")
    case True
    let ?g = "\<lambda>d. (free_blob (d\<lparr>ReceivedSegmentsCount := ReceivedSegmentsCount d + 1\<rparr>))
        \<lparr>tsm_state := TSM_STATE_IDLE\<rparr>"
    have "tsm_inv (upd_slot s index ?g)"
      using inv by (intro upd_slot_keeps) (simp_all add: slot_inv_def free_blob_def blob_ok_defs)
    with True i show ?thesis
      by (simp add: new_segment_received_def Let_def upd_slot_log_sent upd_slot_upd_slot
          free_invoke_id_check_keeps s1_def)
  next
    case False
    define d2 where "d2 = ?d\<lparr>ReceivedSegmentsCount := ReceivedSegmentsCount ?d + 1,
        LastSequenceNumber := sequence_number sd\<rparr>"
    have small: "unat (ReceivedSegmentsCount ?d) + 1 \<le> MAX_SEGMENTS_ACCEPTED"
      using False cnt' by (simp add: s1 word_less_nat_alt MAX_SEGMENTS_ACCEPTED_def)
    have inv2: "slot_inv d2" using d st small cnt' by (auto simp: slot_inv_def d2_def blob_ok_def)
    have view: "length (blob_view d2) + length (request_bytes req)
        \<le> unat (ReceivedSegmentsCount d2) * MAX_APDU"
      using d len cnt' length_blob_view [of ?d]
      by (simp add: slot_inv_def d2_def blob_view_def)
    obtain d3 where d3: "add_blob_data env d2 (request_bytes req) = Some d3" "slot_inv d3"
        "same_but_blob d2 d3"
      using add_blob_slot [OF inv2 mem _ view] st small cnt' by (auto simp: d2_def)
    note same = same_but_blob_fields [OF d3(3)]
    define s3 where "s3 = upd_slot s1 index (\<lambda>_. d3)"
    have s3: "tsm_inv (upd_slot s index (\<lambda>_. d3))"
      using inv d3(2) same(1) by (intro upd_slot_keeps) (simp_all add: d2_def)
    have s4: "tsm_inv (upd_slot s index (\<lambda>_. d3\<lparr>InitialSequenceNumber := q\<rparr>))" for q
      using inv d3(2) same(1,2) st
      by (intro upd_slot_keeps) (auto simp: d2_def slot_inv_def blob_ok_def)
    show ?thesis
      using False i d3(1) s3 s4
      by (simp add: new_segment_received_def Let_def upd_slot_log_sent upd_slot_upd_slot s1_def
          request_bytes_def flip: d2_def)
  qed
qed

lemma segment_in_request_keeps:
  assumes inv: "tsm_inv s" and i: "index < length (TSM_List s)" and mem: "memory_available env"
    and len: "length (request_bytes req) \<le> MAX_APDU"
    and st: "tsm_state (TSM_List s ! index) = TSM_STATE_SEGMENTED_REQUEST_SERVER"
  shows "wp (segment_in_request env index iid src sd req s) (\<lambda>(r, req', src', s'). tsm_inv s')"
proof -
  let ?t = "apdu_segment_timeout s * 4"
  define s1 where "s1 = upd_slot s index (\<lambda>d. d\<lparr>RequestTimer := 0, SegmentTimer := ?t\<rparr>)"
  define s2 where "s2 = upd_slot s1 index (\<lambda>d. d\<lparr>tsm_state := TSM_STATE_IDLE\<rparr>)"
  have d: "slot_inv (TSM_List s ! index)" using tsm_inv_slot [OF inv i] .
  have cnt: "unat (ReceivedSegmentsCount (TSM_List s ! index)) \<le> MAX_SEGMENTS_ACCEPTED"
    using d st by (simp add: slot_inv_def)
  have s1: "tsm_inv s1" unfolding s1_def
    using inv d st by (intro upd_slot_keeps) (simp_all add: slot_inv_def blob_ok_def)
  have s2: "tsm_inv s2" unfolding s2_def
    using s1 tsm_inv_slot [OF s1, of index] i
    by (intro upd_slot_keeps [of s1]) (simp_all add: s1_def slot_inv_idle)
  have rest: "wp (segment_in_sequence env index iid src' sd req s') (\<lambda>(r, req', src', s'). tsm_inv s')"
    if "tsm_inv s'" "length (TSM_List s') = length (TSM_List s)"
      "tsm_state (TSM_List s' ! index) \<in> {TSM_STATE_IDLE, TSM_STATE_SEGMENTED_REQUEST_SERVER}"
      "ReceivedSegmentsCount (TSM_List s' ! index) = ReceivedSegmentsCount (TSM_List s ! index)" for s' src'
  proof -
    have i': "index < length (TSM_List s')" using i that(2) by simp
    have "wp (new_segment_received env index iid src' sd req s') (\<lambda>(r, req', src', s'). tsm_inv s')"
      using new_segment_received_keeps [OF that(1) i' mem len that(3)] cnt that(4) by simp
    moreover note duplicate_segment_received_keeps [OF that(1) i' that(3), of env sd src']
    ultimately show ?thesis
      using that(1) by (auto simp: segment_in_sequence_def Let_def elim!: wp_mono)
  qed
  show ?thesis
    using rest [of s1 src] rest [of "log_sent _ s2" "wire_address src"] s1 s2 i st
    by (simp add: segment_in_request_def Let_def upd_slot_log_sent s1_def s2_def)
qed

lemma get_peer_id_keeps:
  assumes "tsm_inv s"
  shows "wp (tsm_get_peer_id src iid s) (\<lambda>(v, s'). tsm_inv s' \<and> config s' = config s \<and>
    length (TSM_List s') = length (TSM_List s))"
  unfolding tsm_get_peer_id_def
  using get_peer_id_data_keeps [OF assms, of src iid True] by (auto elim!: wp_mono split: option.splits)

lemma segment_received_keeps:
  assumes "tsm_inv s" "memory_available env" "length (request_bytes req) \<le> MAX_APDU"
  shows "wp (tsm_set_segmented_confirmed_service_received env src sd req s)
    (\<lambda>(r, iid, req', src', s'). tsm_inv s')"
proof -
  have body: "wp (case tsm_state (TSM_List s1 ! index) of
          TSM_STATE_IDLE \<Rightarrow> segment_in_idle env index iid src sd req s1
        | TSM_STATE_SEGMENTED_REQUEST_SERVER \<Rightarrow> segment_in_request env index iid src sd req s1
        | _ \<Rightarrow> Some (False, req, src, s1)) (\<lambda>(r, req', src', s'). tsm_inv s')"
    if "tsm_inv s1" "index < length (TSM_List s1)" for s1 index iid
    using segment_in_idle_keeps [OF that assms(2,3), of iid src sd]
      segment_in_request_keeps [OF that assms(2,3), of iid src sd] that(1)
    by (auto elim!: wp_mono split: BACNET_TSM_STATE.splits)
  show ?thesis
    unfolding tsm_set_segmented_confirmed_service_received_def
    using get_peer_id_keeps [OF assms(1), of src "invoke_id sd"]
    by (auto simp: Let_def elim!: wp_mono intro!: body [THEN wp_mono])
qed

end
