(* ===== verification/Bac_Tsm_Respond.thy ===== *)
theory Bac_Tsm_Respond
  imports Bac_Tsm_Inv
begin

text \<open>
  The sending side of the transaction state machine of \<^verbatim>\<open>tsm.c\<close>: starting a response,
  acknowledgements, unexpected PDUs and timers keep the invariant and are always defined.
\<close>

section \<open>Sending responses\<close>

lemma tsm_inv_cong:
  "TSM_List s = TSM_List s' \<Longrightarrow> Current_Invoke_ID s = Current_Invoke_ID s' \<Longrightarrow> tsm_inv s = tsm_inv s'"
  by (simp add: tsm_inv_def invoke_ids_ok_def)

text \<open>Freeing a transaction restores the invariant whatever its slot holds.\<close>

lemma free_check_list:
  assumes ids: "invoke_ids_ok s" and i: "index < length (TSM_List s)"
    and iid: "InvokeID (TSM_List s ! index) = iid" "iid \<noteq> 0"
    and peer: "case peer of None \<Rightarrow> True | Some a \<Rightarrow> bacnet_address_same a (tsm_dest (TSM_List s ! index))"
  shows "TSM_List (tsm_free_invoke_id_check iid peer True s)
      = (TSM_List s)[index := free_blob ((TSM_List s ! index)\<lparr>tsm_state := TSM_STATE_IDLE, InvokeID := 0\<rparr>)]"
    "Current_Invoke_ID (tsm_free_invoke_id_check iid peer True s) = Current_Invoke_ID s"
    "sent (tsm_free_invoke_id_check iid peer True s) = sent s"
    "TSM_Peer_Ids (tsm_free_invoke_id_check iid peer True s) = TSM_Peer_Ids (tsm_clear_peer_id iid s)"
  using peer i find_invokeID_found [OF ids i iid]
  by (simp_all add: tsm_free_invoke_id_check_def Let_def tsm_clear_peer_id_def)

lemma free_after_overwrite:
  assumes inv: "tsm_inv s" and i: "index < length (TSM_List s)"
    and iid: "InvokeID (TSM_List s ! index) = iid" "iid \<noteq> 0" "InvokeID d = iid"
    and peer: "case peer of None \<Rightarrow> True | Some a \<Rightarrow> bacnet_address_same a (tsm_dest d)"
  shows "tsm_inv (tsm_free_invoke_id_check iid peer True (log_sent out (upd_slot s index (\<lambda>_. d))))"
proof -
  let ?s = "log_sent out (upd_slot s index (\<lambda>_. d))"
  have "map InvokeID (TSM_List ?s) = map InvokeID (TSM_List s)"
    using i iid list_update_id [of "map InvokeID (TSM_List s)" index] by (simp add: map_update)
  then have ids: "invoke_ids_ok ?s" using tsm_inv_ids [OF inv] by (simp add: invoke_ids_ok_def)
  have peer': "case peer of None \<Rightarrow> True
      | Some a \<Rightarrow> bacnet_address_same a (tsm_dest (TSM_List ?s ! index))"
    using peer i by (cases peer) simp_all
  let ?f = "\<lambda>_ :: BACNET_TSM_DATA. free_blob (d\<lparr>tsm_state := TSM_STATE_IDLE, InvokeID := 0\<rparr>)"
  have "tsm_inv (upd_slot s index ?f)"
    using inv by (intro upd_slot_keeps) (simp_all add: slot_inv_free_idle)
  then show ?thesis
    using free_check_list [OF ids, of index iid peer, OF _ _ _ peer'] i iid
    by (subst tsm_inv_cong [of _ "upd_slot s index ?f"]) simp_all
qed

lemma tsm_pdu_send_first:
  assumes h: "pdu_type (apdu_fixed_header d) = PDU_TYPE_COMPLEX_ACK"
      "service_data (apdu_fixed_header d) = Ack_Data a"
    and M: "apdu_maximum_length d \<noteq> 5"
    and b: "\<And>b. tsm_apdu d = Some b \<Longrightarrow> tsm_apdu_len d = of_nat (length b) \<and> length b < 2147483648"
  shows "wp (tsm_pdu_send env d 0) (\<lambda>(r, d', out). InvokeID d' = InvokeID d \<and> tsm_dest d' = wire_dest d \<and>
    (tsm_apdu d = None \<longrightarrow> r = -1))"
proof -
  obtain src' where enc: "npdu_encode_pdu (Some (tsm_dest d)) (Some (my_address env)) (npdu_data d)
      = (npdu_header env d, Some (wire_dest d), src')"
    using npdu_encode_pdu_dest [of d "Some (my_address env)" "npdu_data d"]
    by (metis npdu_header_def prod.collapse)
  have hl: "length (npdu_header env d) \<le> 26"
    using length_npdu_encode_pdu by (simp add: npdu_header_def MAX_NPDU_def MAX_MAC_LEN_def)
  have "apdu_maximum_length d - 5 \<noteq> 0" using M by simp
  then obtain n where n: "get_apdu_max_segments (d\<lparr>tsm_dest := wire_dest d\<rparr>) = Some n"
    using h(1) by (cases "3 + tsm_apdu_len d \<le> apdu_maximum_length d")
      (simp_all add: get_apdu_max_segments_def get_apdu_header_typical_size_def Let_def)
  define a' where "a' = (if n = 1 then a\<lparr>ack_segmented_message := False\<rparr>
      else a\<lparr>ack_segmented_message := True, ack_more_follows := 0 < n - 1, ack_sequence_number := 0\<rparr>)"
  have d': "set_segment_header (d\<lparr>tsm_dest := wire_dest d\<rparr>) 0 n
      = Some (d\<lparr>tsm_dest := wire_dest d, apdu_fixed_header := (apdu_fixed_header d)\<lparr>service_data := Ack_Data a'\<rparr>\<rparr>)"
    using h(2) by (simp add: set_segment_header_def Let_def a'_def)
  let ?h = "(apdu_fixed_header d)\<lparr>service_data := Ack_Data a'\<rparr>"
  let ?d = "d\<lparr>tsm_dest := wire_dest d, apdu_fixed_header := ?h\<rparr>"
  obtain hdr where hdr: "apdu_encode_fixed_header ?h = Some hdr" "length hdr \<le> 5"
    using h(1) by (auto simp: apdu_encode_fixed_header_def)
  have sr: "- (2 ^ 31) \<le> sint (tsm_apdu_len d)" "sint (tsm_apdu_len d) < 2 ^ 31"
    using sint_greater_eq [of "tsm_apdu_len d"] sint_less [of "tsm_apdu_len d"] by simp_all
  have seg: "\<exists>off len. get_apdu_blob_data_segment ?d 0 = Some (off, len) \<and>
      (case tsm_apdu d of None \<Rightarrow> off = None
       | Some b \<Rightarrow> off = Some 0 \<and> unat len \<le> length b)"
  proof (cases "tsm_apdu d")
    case None
    then show ?thesis using sr by (simp add: get_apdu_blob_data_segment_def Let_def)
  next
    case (Some b)
    with assms(4) have L: "tsm_apdu_len d = of_nat (length b)" "length b < 2147483648" by auto
    have sL: "sint (of_nat (length b) :: u32) = int (length b)"
      using L(2) unat_of_nat_u32 [of "length b"] by (subst sint_small) simp_all
    have le: "unat (of_int (max 0 (min (int (length b)) blk)) :: u32) \<le> length b" for blk
    proof -
      obtain m where m: "max 0 (min (int (length b)) blk) = int m" "m \<le> length b"
        by (metis min.cobounded1 max_def nat_int nat_mono zero_le_imp_eq_int max.cobounded1 nat_le_iff of_nat_0_le_iff max.bounded_iff)
      then show ?thesis using L(2) unat_of_nat_u32 [of m] by simp
    qed
    show ?thesis using Some L sL le by (simp add: get_apdu_blob_data_segment_def Let_def)
  qed
  then obtain off len where "get_apdu_blob_data_segment ?d 0 = Some (off, len)"
      "case tsm_apdu d of None \<Rightarrow> off = None | Some b \<Rightarrow> off = Some 0 \<and> unat len \<le> length b" by blast
  then show ?thesis
    using enc n d' hdr hl
    by (auto simp: tsm_pdu_send_def MAX_PDU_def MAX_APDU_def MAX_SEGMENTS_ACCEPTED_def MAX_NPDU_def
        MAX_MAC_LEN_def Let_def split: option.splits)
qed


text \<open>What the caller of \<^verbatim>\<open>tsm_set_complexack_transaction\<close> hands over.\<close>

definition response_args_ok ::
  "BACNET_ADDRESS \<Rightarrow> BACNET_APDU_FIXED_HEADER \<Rightarrow> BACNET_CONFIRMED_SERVICE_DATA \<Rightarrow> bytes \<Rightarrow> bool" where
  "response_args_ok dst h csd pdu \<longleftrightarrow>
     wf_address dst \<and> unat (adr_len dst) \<le> MAX_MAC_LEN \<and>
     pdu_type h = PDU_TYPE_COMPLEX_ACK \<and>
     (case service_data h of Ack_Data a \<Rightarrow> True | Request_Data r \<Rightarrow> False) \<and>
     max_resp csd \<in> {0, 50, 128, 206, 480, 1024, 1476} \<and> length pdu < 2 ^ 31"

lemma wire_address_short: "unat (adr_len a) \<le> MAX_MAC_LEN \<Longrightarrow> wire_address a = a"
  by (simp add: wire_address_def clamp_adr_len_def)

lemma prepare_response_fields:
  fixes n :: BACNET_NPDU_DATA and d :: BACNET_TSM_DATA and r :: u8
  assumes "response_args_ok dst h csd pdu" "memory_available env"
  defines "d' \<equiv> prepare_response env dst n h csd pdu r d"
  shows "InvokeID d' = InvokeID d" "tsm_state d' = tsm_state d" "tsm_dest d' = dst"
    "tsm_apdu d' = Some pdu" "tsm_apdu_len d' = of_nat (length pdu)" "apdu_fixed_header d' = h"
    "npdu_data d' = npdu_copy_data (npdu_data d) n"
    "apdu_maximum_length d' = of_int (max_resp csd)"
    "maximum_transmittable_length d' = snd (bacnet_calc_transmittable_length (binding_cache env) dst (Some csd))"
    "ProposedWindowSize d' = DEFAULT_WINDOW_SIZE" "ActualWindowSize d' = 1"
    "InitialSequenceNumber d' = 0" "apdu_blob d' = apdu_blob d"
    "apdu_blob_allocated d' = apdu_blob_allocated d" "apdu_blob_size d' = apdu_blob_size d"
    "ReceivedSegmentsCount d' = ReceivedSegmentsCount d"
  using assms(1,2)
  by (auto simp: d'_def prepare_response_def response_args_ok_def Let_def copy_apdu_blob_data_def
      memory_available_def bacnet_address_copy_eq bacnet_calc_transmittable_length_def MAX_APDU_def)

text \<open>
  How many segments a response of any length would need, computed in 32 bits without
  overflow, when the peer's maximum is one of the values the capability octet can encode.
\<close>

definition segments_needed :: "int \<Rightarrow> nat \<Rightarrow> nat" where
  "segments_needed m len =
     (if int len + 3 \<le> m then 1 else (len - 1) div (nat m - 5) + 1)"

lemma max_segments_prepared:
  assumes M: "apdu_maximum_length d = of_int m" "m \<in> {50, 128, 206, 480, 1024, 1476}"
    and L: "tsm_apdu_len d = of_nat len" "len < 2 ^ 31"
    and ty: "pdu_type (apdu_fixed_header d) = PDU_TYPE_COMPLEX_ACK"
  shows "get_apdu_max_segments d = Some (of_nat (segments_needed m len))"
proof -
  let ?L = "of_nat len :: u32"
  have uL: "unat ?L = len" using L(2) by (intro unat_of_nat_u32) simp
  obtain k where k: "m = int k" "6 \<le> k" "k \<le> 1476" "apdu_maximum_length d = of_nat k"
    using M by (auto intro: that [of "nat m"])
  have uk: "unat (of_nat k :: u32) = k" using k by (intro unat_of_nat_u32) simp
  have "unat (3 + ?L) = 3 + len" using uL L(2) by (subst unat_add_small) simp_all
  then have le: "3 + ?L \<le> of_nat k \<longleftrightarrow> int len + 3 \<le> m"
    using uk k(1) by (auto simp: word_le_nat_alt)
  have blk: "unat (of_nat k - 5 :: u32) = k - 5" using k uk by (subst unat_minus_small) simp_all
  then have nz: "(of_nat k :: u32) - 5 \<noteq> 0" using k(2) by (auto simp: unat_eq_0 [symmetric])
  have "(?L - 1) div (of_nat k - 5) = of_nat ((len - 1) div (k - 5))" if "\<not> int len + 3 \<le> m"
  proof -
    have "1 \<le> len" using that k by simp
    then have "unat (?L - 1) = len - 1" using uL by (subst unat_minus_small) simp_all
    then show ?thesis by (simp add: word_arith_nat_div [of "?L - 1"] blk)
  qed
  with le nz k show ?thesis
    by (simp add: get_apdu_max_segments_def get_apdu_header_typical_size_def L(1) ty Let_def
        segments_needed_def)
qed


lemma segments_within_limit:
  assumes m: "m \<in> {50, 128, 206, 480, 1024, 1476}" and len: "len < 2 ^ 31"
    and fits: "len + 5 * segments_needed m len \<le> k * nat m" and k: "k \<le> MAX_SEGMENTS_ACCEPTED"
  shows "segments_needed m len \<le> MAX_SEGMENTS_ACCEPTED" "len \<le> BLOB_CAP"
proof -
  obtain M where M: "m = int M" "50 \<le> M" "M \<le> 1476" using m by (auto intro: that [of "nat m"])
  have kM: "k * M \<le> 25 * M" using k by (simp add: MAX_SEGMENTS_ACCEPTED_def)
  have "len \<le> k * M" using fits M(1) by simp
  also note kM
  also have "25 * M \<le> 36900" using M(3) by simp
  finally show "len \<le> BLOB_CAP" by (simp add: BLOB_CAP_value)
  define q where "q = (len - 1) div (M - 5)"
  define B where "B = M - 5"
  have B: "M = B + 5" "q * B \<le> len - 1"
    using M div_times_less_eq_dividend [of "len - 1" B] by (simp_all add: B_def q_def)
  show "segments_needed m len \<le> MAX_SEGMENTS_ACCEPTED"
  proof (cases "int len + 3 \<le> m")
    case False
    then have n: "segments_needed m len = q + 1" by (simp add: segments_needed_def q_def M)
    have "len + 5 * (q + 1) \<le> k * M" "1 \<le> len" using fits n M False by simp_all
    moreover from this B(2) have "q * B < len" by simp
    ultimately have "q * B + 5 * q < k * M" by simp
    also note kM
    finally have "q * B + 5 * q < 25 * M" .
    then have "q * M < 25 * M" by (simp add: B(1) add_mult_distrib2)
    then have "q < 25" by simp
    with n show ?thesis by (simp add: MAX_SEGMENTS_ACCEPTED_def)
  qed (simp add: segments_needed_def MAX_SEGMENTS_ACCEPTED_def)
qed

lemma transmittable_length_bound:
  assumes "max_resp csd \<in> {0, 50, 128, 206, 480, 1024, 1476}"
  obtains k where "k \<le> MAX_SEGMENTS_ACCEPTED"
    "unat (snd (bacnet_calc_transmittable_length cache dst (Some csd))) = k * nat (max_resp csd)"
proof -
  obtain M where M: "max_resp csd = int M" "M \<le> 1476" using assms by (auto intro: that [of "nat (max_resp csd)"])
  let ?m = "of_int (max_segs csd) :: u16"
  define k where "k = (if segmented_response_accepted csd
      then min (unat (if ?m = 0 \<or> 64 < ?m then of_nat MAX_SEGMENTS_ACCEPTED else ?m)) MAX_SEGMENTS_ACCEPTED
      else 1)"
  have k: "k \<le> MAX_SEGMENTS_ACCEPTED" by (simp add: k_def MAX_SEGMENTS_ACCEPTED_def)
  have "snd (bacnet_calc_transmittable_length cache dst (Some csd)) = of_nat (k * M)"
    using M by (simp add: bacnet_calc_transmittable_length_def k_def Let_def MAX_APDU_def)
  moreover have "k * M \<le> 25 * 1476"
    using k M by (intro mult_le_mono) (simp_all add: MAX_SEGMENTS_ACCEPTED_def)
  moreover from this have "unat (of_nat (k * M) :: u32) = k * M" by (intro unat_of_nat_u32) simp
  ultimately show ?thesis using k M(1) by (intro that [of k]) (simp_all only: nat_int)
qed


text \<open>The slot once a segmented response has been accepted, before its first segment is sent.\<close>

definition start_response :: "u8 \<Rightarrow> u16 \<Rightarrow> BACNET_TSM_DATA \<Rightarrow> BACNET_TSM_DATA" where
  "start_response retries timeout d = d\<lparr>apdu_fixed_header := (apdu_fixed_header d)
       \<lparr>service_data := Ack_Data ((ack_of d)\<lparr>ack_proposed_window_number := ProposedWindowSize d\<rparr>)\<rparr>,
     tsm_state := TSM_STATE_SEGMENTED_RESPONSE_SERVER,
     SegmentRetryCount := retries, RequestTimer := 0, SegmentTimer := timeout\<rparr>"

lemma zero_max_resp_never_segmented:
  assumes "apdu_maximum_length d = 0" "tsm_apdu_len d = of_nat len" "len < 2 ^ 31"
    and ty: "pdu_type (apdu_fixed_header d) = PDU_TYPE_COMPLEX_ACK"
  shows "get_apdu_max_segments d = Some (if len = 0 then 2 else 1)"
proof -
  let ?L = "of_nat len :: u32"
  have uL: "unat ?L = len" using assms(3) by (intro unat_of_nat_u32) simp
  have "unat (3 + ?L) = 3 + len" using uL assms(3) by (subst unat_add_small) simp_all
  then have le: "\<not> 3 + ?L \<le> 0" by (metis add_is_0 unat_0 word_le_0_iff zero_neq_numeral)
  have "(?L - 1) div (- 5) = 0" if "len \<noteq> 0"
  proof -
    have "unat (?L - 1) = len - 1" using that uL by (subst unat_minus_small) simp_all
    moreover have "unat (- 5 :: u32) = 4294967291" by simp
    ultimately show ?thesis using assms(3) by (simp add: word_arith_nat_div [of "?L - 1"] div_less)
  qed
  moreover have "(- 1 :: u32) div (- 5) = 1"
  proof -
    have "(- 1 :: u32) = 4294967295" by simp
    then show ?thesis by (simp only: word_arith_nat_div) simp
  qed
  ultimately show ?thesis
    using le assms(1,2)
    by (simp add: get_apdu_max_segments_def get_apdu_header_typical_size_def ty Let_def)
qed

lemma start_response_inv:
  assumes args: "response_args_ok dst h csd pdu" and mem: "memory_available env"
    and inv: "slot_inv d0" and d: "d = prepare_response env dst n h csd pdu r d0"
    and many: "get_apdu_max_segments d = Some n32" "n32 \<noteq> 1"
    and fits: "\<not> maximum_transmittable_length d
        < of_nat (length pdu) + n32 * get_apdu_header_typical_size h True"
  shows "response_ok (start_response rt tm d) pdu" "segmented (start_response rt tm d) pdu"
    "length (response_segments (start_response rt tm d) pdu) \<le> MAX_SEGMENTS_ACCEPTED"
    "slot_inv (start_response rt tm d)"
proof -
  let ?d = "start_response rt tm d" and ?L = "length pdu" and ?m = "max_resp csd"
  note f = prepare_response_fields [OF args mem, of n r d0, folded d]
  have a: "pdu_type h = PDU_TYPE_COMPLEX_ACK" "?L < 2 ^ 31" "get_apdu_header_typical_size h True = 5"
    using args by (simp_all add: response_args_ok_def get_apdu_header_typical_size_def)
  obtain k where k: "k \<le> MAX_SEGMENTS_ACCEPTED" "unat (maximum_transmittable_length d) = k * nat ?m"
    using transmittable_length_bound [of csd] args f(9) by (auto simp: response_args_ok_def)
  have "?m \<noteq> 0"
  proof
    assume m0: "?m = 0"
    then have "maximum_transmittable_length d = 0" using k(2) by (simp add: unat_eq_0)
    with fits many zero_max_resp_never_segmented [of d ?L] f(5,6,8) a m0 show False
      by (auto split: if_splits)
  qed
  then have m: "?m \<in> {50, 128, 206, 480, 1024, 1476}" using args by (simp add: response_args_ok_def)
  have n: "n32 = of_nat (segments_needed ?m ?L)"
    using max_segments_prepared [OF f(8) m f(5) a(2)] many(1) a(1) f(6) by simp
  define N where "N = segments_needed ?m ?L"
  define Q where "Q = (?L - 1) div (nat ?m - 5)"
  have "Q \<le> (?L - 1) div 45" unfolding Q_def using m by (intro div_le_mono2) auto
  moreover have "45 * ((?L - 1) div 45) \<le> ?L - 1" by (rule times_div_less_eq_dividend)
  moreover have "N \<le> Q + 1" by (simp add: N_def segments_needed_def Q_def)
  ultimately have "9 * (5 * N) \<le> ?L + 45" by linarith
  then have "?L + 5 * N < 4294967296" using a(2) by simp
  then have "unat (of_nat (?L + 5 * N) :: u32) = ?L + 5 * N" by (rule unat_of_nat_u32)
  then have "?L + 5 * N \<le> k * nat ?m"
    using fits k(2) a(3) n by (simp add: word_less_nat_alt N_def not_less mult.commute)
  note lim = segments_within_limit [OF m a(2) this [unfolded N_def] k(1)]
  have M: "unat (of_int ?m :: u32) = nat ?m" using m by auto
  show ok: "response_ok ?d pdu"
    using lim(2) f a m M by (auto simp: response_ok_def start_response_def MAX_APDU_def)
  have N1: "N \<noteq> 1" using many(2) n by (auto simp: N_def)
  then have "\<not> int ?L + 3 \<le> ?m" by (auto simp: N_def segments_needed_def)
  then show seg: "segmented ?d pdu" using M f(8) by (simp add: segmented_def start_response_def)
  have "seg_size ?d = nat ?m - 5" using M f(8) by (simp add: seg_size_def start_response_def)
  with seg \<open>\<not> int ?L + 3 \<le> ?m\<close> lim(1)
  show len: "length (response_segments ?d pdu) \<le> MAX_SEGMENTS_ACCEPTED"
    by (simp add: response_segments_def segments_needed_def)
  show "slot_inv ?d"
    using inv ok seg len f length_response_segments_pos [of ?d pdu]
    by (auto simp: slot_inv_def start_response_def blob_ok_def)
qed


lemma slot_inv_sent:
  assumes "slot_inv d" "response_ok d b" "tsm_state d = TSM_STATE_SEGMENTED_RESPONSE_SERVER"
  shows "slot_inv (sent_segment d n k)"
proof -
  have same: "b' = b" if "response_ok d b'" for b' using that assms(2) by (simp add: response_ok_def)
  obtain b' where "response_ok d b'" "segmented d b'"
      "length (response_segments d b') \<le> MAX_SEGMENTS_ACCEPTED"
      "unat (InitialSequenceNumber d) < length (response_segments d b')"
    using assms(1,3) by (auto simp: slot_inv_def)
  with same response_ok_sent [OF assms(2)] assms(1,3) show ?thesis
    by (auto simp: slot_inv_def blob_ok_def intro!: exI [of _ b])
qed

lemma complexack_slot_keeps:
  assumes inv: "tsm_inv s" and i: "index < length (TSM_List s)"
    and iid: "InvokeID (TSM_List s ! index) = iid" "iid \<noteq> 0"
    and args: "response_args_ok dst h csd pdu" and mem: "memory_available env"
    and d: "d = prepare_response env dst n h csd pdu r (TSM_List s ! index)"
  shows "\<exists>n32. get_apdu_max_segments d = Some n32"
    "get_apdu_max_segments d = Some 1 \<Longrightarrow> wp (tsm_pdu_send env d 0)
       (\<lambda>(bytes, d', out). tsm_inv (tsm_free_invoke_id_check iid (Some dst) True
          (log_sent out (upd_slot s index (\<lambda>_. d')))))"
    "tsm_inv (tsm_free_invoke_id_check iid (Some dst) True
       (log_sent out (upd_slot s index (\<lambda>_. free_blob d))))"
proof -
  note f = prepare_response_fields [OF args mem, of n r "TSM_List s ! index", folded d]
  have h: "pdu_type h = PDU_TYPE_COMPLEX_ACK" "length pdu < 2 ^ 31" "wire_dest d = dst"
    using args f(3) by (simp_all add: response_args_ok_def wire_dest_def wire_address_short)
  obtain a where a: "service_data h = Ack_Data a"
    using args by (auto simp: response_args_ok_def split: apdu_service_data.splits)
  show "\<exists>n32. get_apdu_max_segments d = Some n32"
  proof (cases "max_resp csd = 0")
    case True
    then show ?thesis using zero_max_resp_never_segmented [of d "length pdu"] f(5,6,8) h by simp
  next
    case False
    then have "max_resp csd \<in> {50, 128, 206, 480, 1024, 1476}"
      using args by (simp add: response_args_ok_def)
    then show ?thesis using max_segments_prepared [OF f(8) _ f(5) h(2)] h(1) f(6) by simp
  qed
  have "of_int (max_resp csd) \<noteq> (5 :: u32)" using args by (auto simp: response_args_ok_def)
  then have "wp (tsm_pdu_send env d 0) (\<lambda>(r, d', out). InvokeID d' = InvokeID d \<and> tsm_dest d' = wire_dest d \<and>
      (tsm_apdu d = None \<longrightarrow> r = -1))"
    using h a f by (intro tsm_pdu_send_first [where a = a]) auto
  then show "wp (tsm_pdu_send env d 0) (\<lambda>(bytes, d', out). tsm_inv (tsm_free_invoke_id_check iid (Some dst) True
          (log_sent out (upd_slot s index (\<lambda>_. d')))))"
    using free_after_overwrite [OF inv i iid] f(1) iid(1) h(3) by (auto elim!: wp_mono)
  show "tsm_inv (tsm_free_invoke_id_check iid (Some dst) True
       (log_sent out (upd_slot s index (\<lambda>_. free_blob d))))"
    using f(1,3) iid(1) by (intro free_after_overwrite [OF inv i iid]) (simp_all add: free_blob_def)
qed


lemma set_common_window_start:
  assumes "service_data (apdu_fixed_header d) = Ack_Data a"
  shows "set_common_window w (service_data (apdu_fixed_header d))
    = Some (Ack_Data ((ack_of d)\<lparr>ack_proposed_window_number := w\<rparr>))"
  using assms by (simp add: ack_of_def)

lemma complexack_keeps:
  assumes inv: "tsm_inv s" and args: "response_args_ok dst h csd pdu" and mem: "memory_available env"
  shows "wp (tsm_set_complexack_transaction env dst n h csd pdu s) (\<lambda>(r, dst', s'). tsm_inv s')"
proof -
  have wd: "wire_address dst = dst" using args by (simp add: response_args_ok_def wire_address_short)
  obtain a where a: "service_data h = Ack_Data a"
    using args by (auto simp: response_args_ok_def split: apdu_service_data.splits)
  obtain iid s1 where s1: "tsm_get_peer_id dst (invoke_id csd) s = Some (iid, s1)" "tsm_inv s1"
    using get_peer_id_keeps [OF inv, of dst "invoke_id csd"] by (auto simp: wp_iff)
  let ?i = "tsm_find_invokeID_index s1 iid"
  show ?thesis
  proof (cases "iid = 0 \<or> \<not> ?i < length (TSM_List s1)")
    case True
    with s1 wd show ?thesis by (auto simp: tsm_set_complexack_transaction_def Let_def)
  next
    case False
    then have iid: "iid \<noteq> 0" "?i < length (TSM_List s1)" by simp_all
    define d where "d = prepare_response env dst n h csd pdu (apdu_retries s1) (TSM_List s1 ! ?i)"
    note f = prepare_response_fields [OF args mem, of n "apdu_retries s1" "TSM_List s1 ! ?i", folded d_def]
    note k = complexack_slot_keeps [OF s1(2) iid(2) find_invokeID_nth [OF iid(2)] iid(1) args mem d_def]
    obtain n32 where n32: "get_apdu_max_segments d = Some n32" using k(1) by blast
    let ?d = "start_response (apdu_retries s1) (apdu_segment_timeout s1) d"
    have seg: "tsm_inv (log_sent out (upd_slot s1 ?i (\<lambda>_. sent_segment ?d N 0))) \<and>
        tsm_inv (tsm_free_invoke_id_check iid (Some dst) True
          (log_sent out (upd_slot s1 ?i (\<lambda>_. sent_segment ?d N 0)))) \<and>
        tsm_pdu_send env ?d 0 = Some (datalink_send_pdu env dst (npdu_data d)
          (snd (snd (segment_pdu env ?d pdu 0))), sent_segment ?d (length (response_segments ?d pdu)) 0,
          [segment_pdu env ?d pdu 0])"
      if "n32 \<noteq> 1" "\<not> maximum_transmittable_length d
        < of_nat (length pdu) + n32 * get_apdu_header_typical_size h True" for out N
    proof -
      note st = start_response_inv [OF args mem tsm_inv_slot [OF s1(2) iid(2)] d_def n32 that]
      have wdd: "wire_dest ?d = dst" "npdu_data ?d = npdu_data d" "InvokeID ?d = iid"
        using f(1,3) wd find_invokeID_nth [OF iid(2)] by (simp_all add: wire_dest_def start_response_def)
      have "slot_inv (sent_segment ?d N 0)"
        using st by (intro slot_inv_sent) (simp_all add: start_response_def)
      then have "tsm_inv (upd_slot s1 ?i (\<lambda>_. sent_segment ?d N 0))"
        using s1(2) wdd find_invokeID_nth [OF iid(2)] by (intro upd_slot_keeps) simp_all
      moreover have "tsm_inv (tsm_free_invoke_id_check iid (Some dst) True
          (log_sent out (upd_slot s1 ?i (\<lambda>_. sent_segment ?d N 0))))"
        using wdd by (intro free_after_overwrite [OF s1(2) iid(2) find_invokeID_nth [OF iid(2)] iid(1)]) simp_all
      ultimately show ?thesis
        using tsm_pdu_send_response [OF st(1) length_response_segments_pos, where env = env] wdd by simp
    qed
    have sd: "service_data (apdu_fixed_header d) = Ack_Data a" using a f(6) by simp
    have win: "apdu_fixed_header d = h" "ProposedWindowSize d = DEFAULT_WINDOW_SIZE" using f by simp_all
    note [simp] = set_common_window_start [OF sd] 
    consider "n32 = 1" | "n32 \<noteq> 1" "maximum_transmittable_length d
        < of_nat (length pdu) + n32 * get_apdu_header_typical_size h True"
      | "n32 \<noteq> 1" "\<not> maximum_transmittable_length d
        < of_nat (length pdu) + n32 * get_apdu_header_typical_size h True" by blast
    then show ?thesis
    proof cases
      case 1
      with s1(1) iid n32 k(2) show ?thesis
        by (auto simp: tsm_set_complexack_transaction_def Let_def split: if_splits simp flip: d_def elim!: wp_mono)
    next
      case 2
      with s1(1) iid n32 k(3) wd show ?thesis
        by (simp add: tsm_set_complexack_transaction_def Let_def flip: d_def)
    next
      case 3
      with s1(1) iid n32 seg [OF 3] show ?thesis
        by (simp add: tsm_set_complexack_transaction_def Let_def start_response_def flip: d_def)
    qed
  qed
qed


section \<open>Acknowledgements\<close>

lemma slot_response:
  assumes "slot_inv d" "tsm_state d = TSM_STATE_SEGMENTED_RESPONSE_SERVER"
  obtains b where "response_ok d b" "segmented d b"
    "length (response_segments d b) \<le> MAX_SEGMENTS_ACCEPTED"
    "unat (InitialSequenceNumber d) < length (response_segments d b)"
  using assms by (auto simp: slot_inv_def)

text \<open>Sending changes nothing that the invariant speaks about.\<close>

lemma slot_inv_resent:
  assumes "slot_inv d" "resent b d d'" "tsm_state d = TSM_STATE_SEGMENTED_RESPONSE_SERVER"
  shows "slot_inv (d'\<lparr>SentAllSegments := x\<rparr>)"
proof -
  note f = resent_fields [OF assms(2)]
  obtain b' where b': "response_ok d b'" "segmented d b'"
      "length (response_segments d b') \<le> MAX_SEGMENTS_ACCEPTED"
      "unat (InitialSequenceNumber d) < length (response_segments d b')"
    using slot_response [OF assms(1,3)] .
  define e where "e = d'\<lparr>tsm_dest := tsm_dest d, apdu_fixed_header := apdu_fixed_header d\<rparr>"
  have d: "d = e" using assms(2) by (simp add: resent_def e_def)
  have app: "tsm_apdu d = tsm_apdu d'" "segmented d b' = segmented d' b'"
    "apdu_maximum_length d = apdu_maximum_length d'"
    unfolding d by (simp_all add: e_def segmented_def)
  then have "b' = b" using f(11) b'(1) by (simp add: response_ok_def)
  moreover have "response_ok (d'\<lparr>SentAllSegments := x\<rparr>) b" using f(11) by (simp add: response_ok_def)
  moreover have "response_segments (d'\<lparr>SentAllSegments := x\<rparr>) b = response_segments d b"
      "segmented (d'\<lparr>SentAllSegments := x\<rparr>) b = segmented d' b"
    using app(3) by (simp_all add: response_segments_def segmented_def seg_size_def)
  ultimately show ?thesis
    using assms(1,3) f b' app by (auto simp: slot_inv_def blob_ok_def)
qed


lemma fill_slot_keeps:
  assumes inv: "tsm_inv s" and i: "i < length (TSM_List s)"
    and st: "tsm_state (TSM_List s ! i) = TSM_STATE_SEGMENTED_RESPONSE_SERVER"
  shows "wp (fill_slot env i s) (\<lambda>s'. tsm_inv s' \<and> length (TSM_List s') = length (TSM_List s) \<and>
    tsm_state (TSM_List s' ! i) = TSM_STATE_SEGMENTED_RESPONSE_SERVER)"
proof -
  let ?d = "TSM_List s ! i" and ?q = "InitialSequenceNumber (TSM_List s ! i)"
  have d: "slot_inv ?d" using tsm_inv_slot [OF inv i] .
  obtain b where b: "response_ok ?d b" using slot_response [OF d st] .
  have q: "(ucast ?q :: u32) = of_nat (unat ?q)" by simp
  have "unat ?q \<le> 255" using unat_bounds(1) [of ?q] by simp
  from FillWindow_response [OF b this, of env] obtain d' x out where
    d': "FillWindow env ?d (ucast ?q) = Some (d'\<lparr>SentAllSegments := x\<rparr>, out)" "resent b ?d d'"
    unfolding q by blast
  have "tsm_inv (upd_slot s i (\<lambda>_. d'\<lparr>SentAllSegments := x\<rparr>))"
    using inv slot_inv_resent [OF d d'(2) st] resent_fields [OF d'(2)]
    by (intro upd_slot_keeps) simp_all
  then show ?thesis using d' resent_fields(2) [OF d'(2)] st i by (simp add: fill_slot_def)
qed

lemma slot_inv_timer:
  "slot_inv d \<Longrightarrow> slot_inv (d\<lparr>SegmentTimer := t\<rparr>)"
  "slot_inv d \<Longrightarrow> slot_inv (d\<lparr>RequestTimer := t\<rparr>)"
  "slot_inv d \<Longrightarrow> slot_inv (d\<lparr>SegmentRetryCount := c, SegmentTimer := t\<rparr>)"
  "slot_inv d \<Longrightarrow> slot_inv (d\<lparr>RequestTimer := t, RetryCount := c\<rparr>)"
  by (auto simp: slot_inv_def blob_ok_def response_ok_def segmented_def response_segments_def seg_size_def)

lemma response_acked_keeps:
  assumes inv: "tsm_inv s" and i: "index < length (TSM_List s)"
    and st: "tsm_state (TSM_List s ! index) = TSM_STATE_SEGMENTED_RESPONSE_SERVER"
  shows "wp (response_acked env index iid seq w s) tsm_inv"
proof -
  let ?d = "TSM_List s ! index"
  have d: "slot_inv ?d" using tsm_inv_slot [OF inv i] .
  obtain b where b: "response_ok ?d b" "segmented ?d b"
      "length (response_segments ?d b) \<le> MAX_SEGMENTS_ACCEPTED"
    using slot_response [OF d st] .
  define n where "n = length (response_segments ?d b)"
  let ?big = "ucast (InitialSequenceNumber ?d) + ucast (seq - InitialSequenceNumber ?d) :: u32"
  define big where "big = unat (InitialSequenceNumber ?d) + unat (seq - InitialSequenceNumber ?d)"
  have big: "?big + 1 = of_nat (big + 1)" "big \<le> 510"
    using unat_bounds(1) [of "InitialSequenceNumber ?d"] unat_bounds(1) [of "seq - InitialSequenceNumber ?d"]
    by (simp_all add: big_def)
  have less: "?big + 1 < of_nat n \<longleftrightarrow> big + 1 < n"
    unfolding big(1) using big(2) b(3) by (intro of_nat_less_u32) (simp_all add: n_def MAX_SEGMENTS_ACCEPTED_def)
  let ?f = "\<lambda>d. d\<lparr>InitialSequenceNumber := ucast (?big + 1), ActualWindowSize := w,
                SegmentRetryCount := apdu_retries s, SegmentTimer := apdu_segment_timeout s\<rparr>"
  have next_window: "slot_inv (?f ?d)" if "big + 1 < n"
  proof -
    have "unat (ucast (of_nat (big + 1) :: u32) :: u8) = big + 1"
      using that b(3) by (simp add: n_def MAX_SEGMENTS_ACCEPTED_def ucast_of_nat_u8 unat_of_nat del: of_nat_add of_nat_Suc)
    with that d st b show ?thesis unfolding big(1)
      by (auto simp: slot_inv_def blob_ok_def response_ok_def segmented_def response_segments_def
          seg_size_def n_def simp del: of_nat_add of_nat_Suc intro!: exI [of _ b])
  qed
  have s1: "tsm_inv (upd_slot s index ?f)" if "big + 1 < n"
    using inv next_window [OF that] by (intro upd_slot_keeps) simp_all
  have fill: "wp (fill_slot env index (upd_slot s index ?f))
      (\<lambda>s'. tsm_inv (upd_slot s' index (\<lambda>d. d\<lparr>SegmentTimer := apdu_segment_timeout s'\<rparr>)))"
    if "big + 1 < n"
    using fill_slot_keeps [OF s1 [OF that], of index env] i st
    by (auto elim!: wp_mono intro!: upd_slot_keeps slot_inv_timer tsm_inv_slot)
  have "tsm_inv (upd_slot s index (\<lambda>d. d\<lparr>SegmentTimer := t\<rparr>))" for t
    using inv d by (intro upd_slot_keeps) (simp_all add: slot_inv_timer)
  moreover have "tsm_inv (upd_slot s index (\<lambda>d. d\<lparr>SegmentTimer := 0, tsm_state := TSM_STATE_IDLE\<rparr>))"
    using inv slot_inv_idle [OF slot_inv_timer(1) [OF d]] by (intro upd_slot_keeps) simp_all
  ultimately show ?thesis
    using get_apdu_max_segments_response [OF b(1)] less fill free_invoke_id_check_keeps
    by (simp add: response_acked_def Let_def flip: n_def)
qed


lemma segmentack_received_keeps:
  assumes inv: "tsm_inv s"
  shows "wp (tsm_segmentack_received env iid seq w nak server src s) (\<lambda>(src', s'). tsm_inv s')"
proof -
  have other: "tsm_inv (tsm_free_invoke_id_check v None True
      (log_sent out (upd_slot s (tsm_find_invokeID_index s v) free_blob)))"
    if v: "v \<noteq> 0" "tsm_find_invokeID_index s v < length (TSM_List s)" for v out
    using free_after_overwrite [OF inv v(2) find_invokeID_nth [OF v(2)] v(1),
        of "free_blob (TSM_List s ! tsm_find_invokeID_index s v)" None out] find_invokeID_nth [OF v(2)]
    by (simp add: upd_slot_def)
  have acked: "wp (response_acked env index v seq w s) tsm_inv"
    if "index < length (TSM_List s)" "tsm_state (TSM_List s ! index) = TSM_STATE_SEGMENTED_RESPONSE_SERVER"
    for index v
    using response_acked_keeps [OF inv that] .
  obtain item where item: "tsm_get_peer_id_data src iid False s = Some (item, s)"
      "\<forall>i. item = Some i \<longrightarrow> InternalInvokeID (TSM_Peer_Ids s ! i) \<noteq> 0"
    using get_peer_id_data_keeps [OF inv, of src iid False] by (auto simp: wp_iff)
  show ?thesis
    using other [of iid] acked item inv
    by (auto simp: tsm_segmentack_received_def Let_def other split: option.splits)
qed

lemma check_unexpected_keeps:
  assumes inv: "tsm_inv s"
  shows "wp (check_unexpected_pdu_received env src sd s) (\<lambda>(r, src', s'). tsm_inv s')"
proof -
  obtain item where item: "tsm_get_peer_id_data src (invoke_id sd) False s = Some (item, s)"
    using get_peer_id_data_keeps [OF inv, of src "invoke_id sd" False] by (auto simp: wp_iff)
  then show ?thesis
    using inv free_invoke_id_check_keeps
    by (auto simp: check_unexpected_pdu_received_def Let_def split: option.splits)
qed

lemma free_segmentation_keeps:
  assumes "tsm_inv s"
  shows "wp (tsm_free_invoke_id_segmentation src iid s) tsm_inv"
  unfolding tsm_free_invoke_id_segmentation_def
  using get_peer_id_keeps [OF assms, of src iid]
  by (auto simp: free_invoke_id_check_keeps elim!: wp_mono)

section \<open>Timers\<close>

text \<open>
  The timeout handler is a function of the application: all that is asked of it is that it
  returns and keeps the tables in order.
\<close>

definition timeout_handler_ok :: "TSM_ENV \<Rightarrow> bool" where
  "timeout_handler_ok env \<longleftrightarrow> (\<forall>f v s. tsm_inv s \<longrightarrow>
     wp (call_timeout env f v s) (\<lambda>s'. tsm_inv s' \<and> length (TSM_List s') = length (TSM_List s)))"

abbreviation tables_kept :: "TSM \<Rightarrow> TSM \<Rightarrow> bool" where
  "tables_kept s s' \<equiv> tsm_inv s' \<and> length (TSM_List s') = length (TSM_List s)"

lemma timer_await_keeps:
  assumes inv: "tsm_inv s" and i: "i < length (TSM_List s)" and h: "timeout_handler_ok env"
  shows "wp (timer_await_confirmation env ms i s) (tables_kept s)"
proof (cases "tsm_state (TSM_List s ! i) = TSM_STATE_AWAIT_CONFIRMATION")
  case True
  let ?d = "TSM_List s ! i"
  have d: "slot_inv ?d" using tsm_inv_slot [OF inv i] .
  obtain b where b: "tsm_apdu ?d = Some b" "unat (tsm_apdu_len ?d) \<le> length b"
    using d True by (auto simp: slot_inv_def)
  have k: "tsm_inv (upd_slot s i (\<lambda>d. d\<lparr>RequestTimer := count_down (RequestTimer d) ms\<rparr>))"
    "tsm_inv (upd_slot s i (\<lambda>d. d\<lparr>RequestTimer := t, RetryCount := RetryCount d + 1\<rparr>))"
    "tsm_inv (upd_slot s i (\<lambda>d. d\<lparr>RequestTimer := count_down (RequestTimer d) ms,
       tsm_state := TSM_STATE_IDLE\<rparr>))" for t
    using inv d slot_inv_idle [OF slot_inv_timer(2) [OF d]]
    by (auto intro!: upd_slot_keeps slot_inv_timer)
  have "wp (call_timeout env f v (upd_slot s i (\<lambda>d. d\<lparr>RequestTimer := count_down (RequestTimer d) ms,
       tsm_state := TSM_STATE_IDLE\<rparr>))) (tables_kept s)" for f v
    using h k(3) by (fastforce simp: timeout_handler_ok_def elim!: wp_mono)
  then show ?thesis
    using True i b k
    by (auto simp: timer_await_confirmation_def Let_def upd_slot_upd_slot upd_slot_log_sent
        split: option.splits)
next
  case False
  then show ?thesis using inv by (simp add: timer_await_confirmation_def)
qed


lemma timer_response_keeps:
  assumes inv: "tsm_inv s" and i: "i < length (TSM_List s)"
  shows "wp (timer_segmented_response env ms i s) (tables_kept s)"
proof (cases "tsm_state (TSM_List s ! i) = TSM_STATE_SEGMENTED_RESPONSE_SERVER")
  case True
  let ?d = "TSM_List s ! i"
  have d: "slot_inv ?d" using tsm_inv_slot [OF inv i] .
  let ?g = "\<lambda>d. d\<lparr>SegmentRetryCount := SegmentRetryCount d - 1, SegmentTimer := apdu_segment_timeout s\<rparr>"
  have k: "tsm_inv (upd_slot s i (\<lambda>d. d\<lparr>SegmentTimer := count_down (SegmentTimer d) ms\<rparr>))"
    "tsm_inv (upd_slot s i ?g)" "tsm_inv (upd_slot s i (\<lambda>d. (?g d)\<lparr>tsm_state := TSM_STATE_IDLE\<rparr>))"
    using inv d slot_inv_idle [OF slot_inv_timer(3) [OF d]]
    by (auto intro!: upd_slot_keeps slot_inv_timer)
  have "wp (fill_slot env i (upd_slot s i ?g)) (tables_kept s)"
    using fill_slot_keeps [OF k(2), of i env] i True by (auto elim!: wp_mono)
  then show ?thesis
    using True i k by (simp add: timer_segmented_response_def Let_def upd_slot_upd_slot)
next
  case False
  then show ?thesis using inv by (simp add: timer_segmented_response_def)
qed

lemma timer_request_keeps:
  assumes inv: "tsm_inv s" and i: "i < length (TSM_List s)"
  shows "tables_kept s (timer_segmented_request ms i s)"
proof -
  have d: "slot_inv (TSM_List s ! i)" using tsm_inv_slot [OF inv i] .
  have k: "tsm_inv (upd_slot s i (\<lambda>d. d\<lparr>SegmentTimer := count_down (SegmentTimer d) ms\<rparr>))"
    using inv d by (intro upd_slot_keeps) (simp_all add: slot_inv_timer)
  let ?g = "\<lambda>d. (free_blob (d\<lparr>SegmentTimer := count_down (SegmentTimer d) ms\<rparr>))
      \<lparr>InvokeID := 0, tsm_state := TSM_STATE_IDLE\<rparr>"
  have "tsm_inv (tsm_clear_peer_id v (upd_slot s i ?g))" for v
    using inv by (simp add: upd_slot_keeps slot_inv_def free_blob_def blob_ok_defs)
  moreover have "upd_slot (tsm_clear_peer_id v s') j f = tsm_clear_peer_id v (upd_slot s' j f)" for v s' j f
    by (simp add: upd_slot_def tsm_clear_peer_id_def)
  ultimately show ?thesis
    using i k inv by (simp add: timer_segmented_request_def Let_def upd_slot_upd_slot)
qed

lemma timer_slot_keeps:
  assumes "tsm_inv s" "i < length (TSM_List s)" "timeout_handler_ok env"
  shows "wp (timer_slot env ms i s) (tables_kept s)"
proof -
  obtain s1 where s1: "timer_await_confirmation env ms i s = Some s1" "tables_kept s s1"
    using timer_await_keeps [OF assms] by (auto simp: wp_iff)
  then obtain s2 where "timer_segmented_response env ms i s1 = Some s2" "tables_kept s1 s2"
    using timer_response_keeps [of s1 i env ms] assms by (auto simp: wp_iff)
  with s1 timer_request_keeps [of s2 i ms] assms(2) show ?thesis by (simp add: timer_slot_def)
qed

lemma timer_loop_keeps:
  "\<lbrakk>tsm_inv s; \<forall>i \<in> set is. i < length (TSM_List s); timeout_handler_ok env\<rbrakk>
   \<Longrightarrow> wp (timer_loop env ms is s) (tables_kept s)"
proof (induction "is" arbitrary: s)
  case (Cons i "is")
  obtain s1 where "timer_slot env ms i s = Some s1" "tables_kept s s1"
    using timer_slot_keeps [of s i env ms] Cons.prems by (auto simp: wp_iff)
  with Cons.IH [of s1] Cons.prems show ?case by simp
qed simp

lemma tsm_timer_keeps:
  "tsm_inv s \<Longrightarrow> timeout_handler_ok env \<Longrightarrow> wp (tsm_timer_milliseconds env ms s) (tables_kept s)"
  unfolding tsm_timer_milliseconds_def by (intro timer_loop_keeps) simp_all

end
