(* ===== verification/Bac_Tsm_Memory.thy ===== *)
theory Bac_Tsm_Memory
  imports Bac_Tsm_Respond
begin

text \<open>
  Allocations that fail. Starting a response copes with that: it sends nothing and releases the
  transaction. Receiving a segment does not: when it returns at all, every allocation it needed has
  succeeded, so that it has done the same as with memory available.
\<close>

definition with_memory :: "TSM_ENV \<Rightarrow> TSM_ENV" where
  "with_memory env = env\<lparr>calloc_ok := (\<lambda>_. True)\<rparr>"

lemma with_memory_available [simp]: "memory_available (with_memory env)"
  by (simp add: with_memory_def memory_available_def)

lemma with_memory_fields [simp]:
  "my_address (with_memory env) = my_address env" "datalink_send_pdu (with_memory env) = datalink_send_pdu env"
  "binding_cache (with_memory env) = binding_cache env"
  by (simp_all add: with_memory_def)

lemma with_memory_sends [simp]:
  "send_apdu (with_memory env) = send_apdu env" "tsm_pdu_send (with_memory env) = tsm_pdu_send env"
  "abort_pdu_send (with_memory env) = abort_pdu_send env"
  "segmentack_pdu_send (with_memory env) = segmentack_pdu_send env"
  "duplicate_segment_received (with_memory env) = duplicate_segment_received env"
  "short_pdu (with_memory env) = short_pdu env"
  unfolding send_apdu_def tsm_pdu_send_def abort_pdu_send_def segmentack_pdu_send_def duplicate_segment_received_def
    short_pdu_def fun_eq_iff with_memory_fields by simp_all

section \<open>Receiving a segment\<close>

lemma bind_returns: "Option.bind m f = Some x \<Longrightarrow> (\<And>d. m = Some d \<Longrightarrow> m' = Some d) \<Longrightarrow> Option.bind m' f = Some x"
  by (cases m) auto

lemma if_returns: "(if c then a else m) = Some x \<Longrightarrow> (m = Some x \<Longrightarrow> m' = Some x) \<Longrightarrow> (if c then a else m') = Some x"
  by (cases c) auto

lemma ensure_returns:
  assumes "ensure_extra_blob_size env d u = Some d'" "apdu_blob d' \<noteq> None"
  shows "ensure_extra_blob_size (with_memory env) d u = Some d'"
proof (cases "calloc_ok env (apdu_blob_allocated d + u)")
  case True
  moreover have "calloc_ok (with_memory env) k" for k by (simp add: with_memory_def)
  ultimately show ?thesis
    using assms(1) unfolding ensure_extra_blob_size_def Let_def by (simp only: if_True)
next
  case False
  then show ?thesis
    using assms by (cases "apdu_blob_size d = 0") (auto simp: ensure_extra_blob_size_def Let_def split: if_splits)
qed

lemma add_blob_data_returns:
  assumes "add_blob_data env d xs = Some d'" "length xs < 2 ^ 32"
  shows "add_blob_data (with_memory env) d xs = Some d'"
proof (cases "xs = []")
  case True
  with assms(1) show ?thesis by (simp add: add_blob_data_def ensure_extra_blob_size_def)
next
  case False
  let ?u = "of_nat (length xs) :: u32"
  obtain d1 where d1: "ensure_extra_blob_size env d ?u = Some d1" "apdu_blob d1 \<noteq> None"
    using assms(1) False by (auto simp: add_blob_data_def Let_def bind_eq_Some_conv)
  with ensure_returns [OF this] assms(1) show ?thesis by (simp add: add_blob_data_def Let_def)
qed

lemma add_blob_data_fails:
  assumes "xs \<noteq> []" "length xs < 2 ^ 32" "apdu_blob_allocated d < of_nat (length xs) + apdu_blob_size d"
    and "\<not> calloc_ok env (apdu_blob_allocated d + of_nat (length xs))"
  shows "add_blob_data env d xs = None"
proof -
  have "(of_nat (length xs) :: u32) \<noteq> 0" using assms(1,2) unat_of_nat_u32 [of "length xs"] by auto
  with assms show ?thesis by (simp add: add_blob_data_def ensure_extra_blob_size_def Let_def)
qed

lemma segment_returns:
  assumes "tsm_set_segmented_confirmed_service_received env src sd req s = Some r"
    and "length (request_bytes req) \<le> MAX_APDU"
  shows "tsm_set_segmented_confirmed_service_received (with_memory env) src sd req s = Some r"
proof -
  have len: "length (case req of None \<Rightarrow> [] | Some r \<Rightarrow> r) < 2 ^ 32"
    using assms(2) by (simp add: request_bytes_def MAX_APDU_def)
  note add = add_blob_data_returns [OF _ len]
  have idle: "segment_in_idle env index iid src sd req s = Some x \<Longrightarrow>
      segment_in_idle (with_memory env) index iid src sd req s = Some x" for index iid s x
    unfolding segment_in_idle_def Let_def with_memory_sends by (erule if_returns, erule if_returns, erule bind_returns, erule add)
  have new: "new_segment_received env index iid src sd req s = Some x \<Longrightarrow>
      new_segment_received (with_memory env) index iid src sd req s = Some x" for index iid src s x
    unfolding new_segment_received_def Let_def with_memory_sends by (erule if_returns, erule bind_returns, erule add)
  have "segment_in_sequence env index iid src sd req s = Some x \<Longrightarrow>
      segment_in_sequence (with_memory env) index iid src sd req s = Some x" for index iid src s x
    unfolding segment_in_sequence_def Let_def with_memory_sends by (erule if_returns, erule new)
  then have request: "segment_in_request env index iid src sd req s = Some x \<Longrightarrow>
      segment_in_request (with_memory env) index iid src sd req s = Some x" for index iid s x
    by (auto simp: segment_in_request_def Let_def bind_eq_Some_conv split: if_splits)
  have "(case st of TSM_STATE_IDLE \<Rightarrow> segment_in_idle env index iid src sd req s
        | TSM_STATE_SEGMENTED_REQUEST_SERVER \<Rightarrow> segment_in_request env index iid src sd req s
        | _ \<Rightarrow> Some (False, req, src, s)) = Some x \<Longrightarrow>
      (case st of TSM_STATE_IDLE \<Rightarrow> segment_in_idle (with_memory env) index iid src sd req s
        | TSM_STATE_SEGMENTED_REQUEST_SERVER \<Rightarrow> segment_in_request (with_memory env) index iid src sd req s
        | _ \<Rightarrow> Some (False, req, src, s)) = Some x" for st index iid s x
    using idle request by (cases st) auto
  note body = bind_returns [OF _ this]
  obtain iid s1 where s1: "tsm_get_peer_id src (invoke_id sd) s = Some (iid, s1)"
    using assms(1) by (auto simp: tsm_set_segmented_confirmed_service_received_def bind_eq_Some_conv)
  show ?thesis
    using assms(1) unfolding tsm_set_segmented_confirmed_service_received_def s1 Let_def with_memory_sends
    by (simp only: bind.bind_lunit prod.case) (erule if_returns, erule if_returns, erule body)
qed

lemma segment_returns_keeps:
  assumes "tsm_inv s" "length (request_bytes req) \<le> MAX_APDU"
    and "tsm_set_segmented_confirmed_service_received env src sd req s = Some (r, v, req', src', s')"
  shows "tsm_inv s'"
  using segment_received_keeps [OF assms(1) with_memory_available assms(2)] segment_returns [OF assms(3,2)]
  by (metis (mono_tags, lifting) case_prod_conv wp_Some)

section \<open>Starting a response\<close>

lemma complexack_with_memory:
  assumes "calloc_ok env (of_nat (length pdu))"
  shows "tsm_set_complexack_transaction env dst n h csd pdu s =
    tsm_set_complexack_transaction (with_memory env) dst n h csd pdu s"
proof -
  have "prepare_response (with_memory env) dst n h csd pdu r d = prepare_response env dst n h csd pdu r d" for r d
    using assms by (simp add: prepare_response_def copy_apdu_blob_data_def with_memory_def)
  then show ?thesis unfolding tsm_set_complexack_transaction_def with_memory_sends by (simp only:)
qed

lemma complexack_without_memory:
  assumes inv: "tsm_inv s" and args: "response_args_ok dst h csd pdu" and mem: "\<not> calloc_ok env (of_nat (length pdu))"
  shows "wp (tsm_set_complexack_transaction env dst n h csd pdu s) (\<lambda>(r, dst', s'). tsm_inv s')"
proof -
  have wd: "wire_address dst = dst" using args by (simp add: response_args_ok_def wire_address_short)
  obtain a where a: "service_data h = Ack_Data a" "pdu_type h = PDU_TYPE_COMPLEX_ACK"
    using args by (auto simp: response_args_ok_def split: apdu_service_data.splits)
  obtain iid s1 where s1: "tsm_get_peer_id dst (invoke_id csd) s = Some (iid, s1)" "tsm_inv s1"
    using get_peer_id_keeps [OF inv, of dst "invoke_id csd"] by (auto simp: wp_iff)
  let ?i = "tsm_find_invokeID_index s1 iid"
  show ?thesis
  proof (cases "iid = 0 \<or> \<not> ?i < length (TSM_List s1)")
    case True
    with s1 wd show ?thesis by (auto simp: tsm_set_complexack_transaction_def Let_def)
  next
    case False
    then have iid: "iid \<noteq> 0" "?i < length (TSM_List s1)" by simp_all
    define d where "d = prepare_response env dst n h csd pdu (apdu_retries s1) (TSM_List s1 ! ?i)"
    have d: "InvokeID d = iid" "tsm_dest d = dst" "tsm_apdu d = None" "apdu_fixed_header d = h"
        "apdu_maximum_length d = of_int (max_resp csd)"
      using args mem find_invokeID_nth [OF iid(2)]
      by (auto simp: d_def prepare_response_def response_args_ok_def Let_def copy_apdu_blob_data_def
          bacnet_address_copy_eq bacnet_calc_transmittable_length_def MAX_APDU_def)
    have M: "of_int (max_resp csd) \<noteq> (5 :: u32)" using args by (auto simp: response_args_ok_def)
    then have "apdu_maximum_length d - 5 \<noteq> 0" using d(5) by simp
    then obtain n32 where n32: "get_apdu_max_segments d = Some n32"
      using a(2) d(4) by (cases "3 + tsm_apdu_len d \<le> apdu_maximum_length d")
        (simp_all add: get_apdu_max_segments_def get_apdu_header_typical_size_def Let_def)
    have released: "tsm_inv (tsm_free_invoke_id_check iid (Some dst) True (log_sent out (upd_slot s1 ?i (\<lambda>_. e))))"
      if "InvokeID e = iid" "tsm_dest e = dst" for e out
      using that by (intro free_after_overwrite [OF s1(2) iid(2) find_invokeID_nth [OF iid(2)] iid(1)]) simp_all
    have first: "\<exists>e out. tsm_pdu_send env d' 0 = Some (-1, e, out) \<and> InvokeID e = iid \<and> tsm_dest e = dst"
      if "pdu_type (apdu_fixed_header d') = PDU_TYPE_COMPLEX_ACK" "\<exists>a. service_data (apdu_fixed_header d') = Ack_Data a"
        "apdu_maximum_length d' = apdu_maximum_length d" "tsm_apdu d' = None" "InvokeID d' = iid" "tsm_dest d' = dst" for d'
      using that tsm_pdu_send_first [of d' _ env] M d(5) wd
      by (auto simp: wp_iff wire_dest_def)
    consider "n32 = 1" | "n32 \<noteq> 1" "maximum_transmittable_length d
        < of_nat (length pdu) + n32 * get_apdu_header_typical_size h True"
      | "n32 \<noteq> 1" "\<not> maximum_transmittable_length d
        < of_nat (length pdu) + n32 * get_apdu_header_typical_size h True" by blast
    then show ?thesis
    proof cases
      case 1
      obtain e out where e: "tsm_pdu_send env d 0 = Some (-1, e, out)" "InvokeID e = iid" "tsm_dest e = dst"
        using first [of d] a d by auto
      then show ?thesis
        using 1 s1(1) iid n32 released [OF e(2,3)]
        by (simp add: tsm_set_complexack_transaction_def Let_def flip: d_def)
    next
      case 2
      then show ?thesis
        using s1(1) iid n32 released [of "free_blob d"] wd d
        by (simp add: tsm_set_complexack_transaction_def Let_def free_blob_def flip: d_def)
    next
      case 3
      let ?d = "start_response (apdu_retries s1) (apdu_segment_timeout s1) d"
      obtain e out where e: "tsm_pdu_send env ?d 0 = Some (-1, e, out)" "InvokeID e = iid" "tsm_dest e = dst"
        using first [of ?d] a d by (auto simp: start_response_def)
      then show ?thesis
        using 3 s1(1) iid n32 released [OF e(2,3)] a d(4)
        by (simp add: tsm_set_complexack_transaction_def Let_def start_response_def ack_of_def flip: d_def)
    qed
  qed
qed

lemma complexack_defined:
  assumes "tsm_inv s" "response_args_ok dst h csd pdu"
  shows "wp (tsm_set_complexack_transaction env dst n h csd pdu s) (\<lambda>(r, dst', s'). tsm_inv s')"
proof (cases "calloc_ok env (of_nat (length pdu))")
  case True
  then show ?thesis
    using complexack_keeps [OF assms with_memory_available] by (simp add: complexack_with_memory)
next
  case False
  with assms show ?thesis by (rule complexack_without_memory)
qed

end
