(* ===== verification/Bac_Tsm_Machine.thy ===== *)
theory Bac_Tsm_Machine
  imports Bac_Tsm_Memory
begin

text \<open>
  The transaction state machine of \<^verbatim>\<open>tsm.c\<close> as a transition system: its start state, one
  rule per operation an application or a service handler may call, and what holds in every
  state it can reach.
\<close>

section \<open>The start state\<close>

text \<open>The static variables before any call: zeros, but for the initialisers of the source.\<close>

definition zero_npdu :: BACNET_NPDU_DATA where
  "zero_npdu = \<lparr>protocol_version = 0, data_expecting_reply = False, network_layer_message = False,
     priority = 0, network_message_type = 0, vendor_id = 0, hop_count = 0\<rparr>"

definition zero_transaction :: BACNET_TSM_DATA where
  "zero_transaction = \<lparr>RetryCount = 0, SegmentRetryCount = 0, SentAllSegments = False,
     LastSequenceNumber = 0, InitialSequenceNumber = 0, ActualWindowSize = 0,
     ProposedWindowSize = 0, SegmentTimer = 0, RequestTimer = 0, InvokeID = 0,
     tsm_state = TSM_STATE_IDLE, tsm_dest = zero_address, npdu_data = zero_npdu,
     tsm_apdu_len = 0, tsm_apdu = None,
     apdu_fixed_header = \<lparr>pdu_type = 0, service_data = Request_Data zero_service_data, service_choice = 0\<rparr>,
     apdu_maximum_length = 0, maximum_transmittable_length = 0,
     apdu_blob = None, apdu_blob_allocated = 0, apdu_blob_size = 0, ReceivedSegmentsCount = 0\<rparr>"

definition default_config :: APDU_CONFIG where
  "default_config = \<lparr>Timeout_Milliseconds = 3000, Number_Of_Retries = 3,
     Segment_Timeout_Milliseconds = 5000, Local_Network_Priority = 0, max_segments = 0\<rparr>"

definition zero_peer :: BACNET_TSM_INDIRECT_DATA where
  "zero_peer = \<lparr>PeerAddress = zero_address, PeerInvokeID = 0, InternalInvokeID = 0\<rparr>"

definition tsm_start :: "nat \<Rightarrow> nat \<Rightarrow> TSM" where
  "tsm_start transactions peers = \<lparr>TSM_List = replicate transactions zero_transaction,
     TSM_Peer_Ids = replicate peers zero_peer, Current_Invoke_ID = 1, Duplicate_Count = 0,
     Timeout_Function = None, config = default_config, sent = []\<rparr>"

lemma start_simps [simp]:
  "TSM_List (tsm_start n p) = replicate n zero_transaction"
  "TSM_Peer_Ids (tsm_start n p) = replicate p zero_peer"
  "config (tsm_start n p) = default_config"
  "InvokeID zero_transaction = 0" "tsm_apdu zero_transaction = None"
  "tsm_state zero_transaction = TSM_STATE_IDLE" "InternalInvokeID zero_peer = 0"
  by (simp_all add: tsm_start_def zero_transaction_def zero_peer_def)

lemma start_available: "0 < n \<Longrightarrow> tsm_transaction_available (tsm_start n p)"
  by (simp add: tsm_transaction_available_def list_ex_iff)

section \<open>Steps\<close>

text \<open>
  A step is one call, that returns, of an operation of the module: every function of \<^verbatim>\<open>tsm.h\<close> that
  changes the state has a rule, and the setters of \<^verbatim>\<open>h_apdu.c\<close>. The premises are what the callers in
  the stack guarantee: a service request is a part of one received APDU, a response is
  a ComplexACK for a decoded request, and the timeout handler of the application keeps the tables.
  Allocations may fail; a segment whose buffer cannot be allocated makes no step, because that
  call is undefined behaviour.
\<close>

inductive tsm_step :: "TSM \<Rightarrow> TSM \<Rightarrow> bool" where
  timeout_handler: "tsm_step s (tsm_set_timeout_handler f s)"
| set_timeout: "tsm_step s (apdu_timeout_set ms s)"
| set_retries: "tsm_step s (apdu_retries_set v s)"
| set_segment_timeout: "tsm_step s (apdu_segment_timeout_set ms s)"
| set_priority: "tsm_step s (apdu_network_priority_set v s)"
| set_max_segments: "tsm_step s (max_segments_accepted_set v s)"
| set_invoke_id: "tsm_step s (tsm_invokeID_set v s)"
| next_id: "tsm_next_free_invokeID s = Some (v, s') \<Longrightarrow> tsm_step s s'"
| unsegmented_request:
    "tsm_set_confirmed_unsegmented_transaction v d n bs len s = Some s' \<Longrightarrow> tsm_step s s'"
| free_id: "tsm_step s (tsm_free_invoke_id v s)"
| clear_peer: "tsm_step s (tsm_clear_peer_id v s)"
| free_check: "tsm_step s (tsm_free_invoke_id_check v peer cleanup s)"
| get_peer: "tsm_get_peer_id src v s = Some (w, s') \<Longrightarrow> tsm_step s s'"
| send_abort: "abort_pdu_send env v d reason server s = Some (d', s') \<Longrightarrow> tsm_step s s'"
| segment:
    "\<lbrakk>length (request_bytes req) \<le> MAX_APDU;
      tsm_set_segmented_confirmed_service_received env src sd req s = Some (r, v, req', src', s')\<rbrakk>
     \<Longrightarrow> tsm_step s s'"
| complexack:
    "\<lbrakk>response_args_ok dst h csd pdu;
      tsm_set_complexack_transaction env dst n h csd pdu s = Some (r, dst', s')\<rbrakk>
     \<Longrightarrow> tsm_step s s'"
| segmentack:
    "tsm_segmentack_received env v seq w nak server src s = Some (src', s') \<Longrightarrow> tsm_step s s'"
| unexpected:
    "check_unexpected_pdu_received env src sd s = Some (r, src', s') \<Longrightarrow> tsm_step s s'"
| free_segmentation: "tsm_free_invoke_id_segmentation src v s = Some s' \<Longrightarrow> tsm_step s s'"
| timer:
    "\<lbrakk>timeout_handler_ok env; tsm_timer_milliseconds env ms s = Some s'\<rbrakk> \<Longrightarrow> tsm_step s s'"

section \<open>The invariant holds in every reachable state\<close>

lemma tsm_start_inv: "n \<le> 255 \<Longrightarrow> tsm_inv (tsm_start n p)"
  by (auto simp: tsm_inv_def invoke_ids_ok_def ids_unique_def tsm_start_def zero_transaction_def
      slot_inv_def blob_ok_defs)

lemma invokeID_set_keeps: "tsm_inv s \<Longrightarrow> tsm_inv (tsm_invokeID_set v s)"
  by (simp add: tsm_inv_def invoke_ids_ok_def tsm_invokeID_set_def)

lemma unsegmented_keeps:
  assumes inv: "tsm_inv s"
    and res: "tsm_set_confirmed_unsegmented_transaction v d n bs len s = Some s'"
  shows "tsm_inv s'"
proof (cases "v \<noteq> 0 \<and> 0 < len \<and> tsm_find_invokeID_index s v < length (TSM_List s)")
  case True
  let ?i = "tsm_find_invokeID_index s v" and ?p = "TSM_List s ! tsm_find_invokeID_index s v"
  obtain old where copy: "unat len \<le> length bs" "unat len \<le> length old"
      "s' = upd_slot s ?i (\<lambda>p. p\<lparr>tsm_state := TSM_STATE_AWAIT_CONFIRMATION,
            RetryCount := 0, RequestTimer := apdu_timeout s, tsm_apdu := Some (take (unat len) bs @ drop (unat len) old),
            tsm_apdu_len := ucast len, npdu_data := npdu_copy_data (npdu_data p) n,
            tsm_dest := bacnet_address_copy (tsm_dest p) d\<rparr>)"
    using res True
    by (auto simp: tsm_set_confirmed_unsegmented_transaction_def Let_def read_at_def write_at_def
        Option.bind_eq_Some_conv split: if_splits)
  have "unat (ucast len :: u32) = unat len"
    using unat_bounds(2) [of len] by (simp add: unsigned_ucast_eq take_bit_nat_eq_self)
  then show ?thesis
    unfolding copy(3) using inv tsm_inv_slot [OF inv, of ?i] True copy(1,2)
    by (intro upd_slot_keeps) (auto simp: slot_inv_def blob_ok_def)
next
  case False
  then have "s' = s"
    using res by (auto simp: tsm_set_confirmed_unsegmented_transaction_def Let_def split: if_splits)
  then show ?thesis using inv by simp
qed

lemma clear_peer_keeps: "tsm_inv s \<Longrightarrow> tsm_inv (tsm_clear_peer_id v s)"
  by (simp add: tsm_inv_def invoke_ids_ok_def tsm_clear_peer_id_def)

lemma tsm_step_keeps: "tsm_step s s' \<Longrightarrow> tsm_inv s \<Longrightarrow> tsm_inv s'"
proof (induction rule: tsm_step.induct)
  case (next_id s v s')
  then show ?case using next_free_invokeID_keeps [of s] by simp
next
  case (unsegmented_request v d n bs len s s')
  then show ?case by (rule unsegmented_keeps [rotated])
next
  case (free_check s v peer cleanup)
  then show ?case by (rule free_invoke_id_check_keeps)
next
  case (get_peer src v s w s')
  then show ?case using get_peer_id_keeps [of s src v] by simp
next
  case (send_abort env v d reason server s d' s')
  then show ?case by auto
next
  case (segment req env src sd s r v req' src' s')
  then show ?case using segment_returns_keeps by blast
next
  case (complexack dst h csd pdu env n s r dst' s')
  then show ?case using complexack_defined [of s dst h csd pdu env n] by simp
next
  case (segmentack env v seq w nak server src s src' s')
  then show ?case using segmentack_received_keeps [of s env v seq w nak server src] by simp
next
  case (unexpected env src sd s r src' s')
  then show ?case using check_unexpected_keeps [of s env src sd] by simp
next
  case (free_segmentation src v s s')
  then show ?case using free_segmentation_keeps [of s src v] by simp
next
  case (timer env ms s s')
  then show ?case using tsm_timer_keeps [of s env ms] by simp
qed (simp_all add: tsm_set_timeout_handler_def apdu_timeout_set_def apdu_retries_set_def
    apdu_segment_timeout_set_def apdu_network_priority_set_def max_segments_accepted_set_def
    invokeID_set_keeps free_invoke_id_keeps clear_peer_keeps)

lemma tsm_reachable_inv: "tsm_step\<^sup>*\<^sup>* (tsm_start n p) s \<Longrightarrow> n \<le> 255 \<Longrightarrow> tsm_inv s"
  by (induction rule: rtranclp_induct) (auto intro: tsm_start_inv tsm_step_keeps)


text \<open>A data link that accepts every PDU, and an allocator that never fails.\<close>

definition quiet_env :: TSM_ENV where
  "quiet_env = \<lparr>my_address = zero_address, datalink_send_pdu = (\<lambda>_ _ pdu. int (length pdu)),
     calloc_ok = (\<lambda>_. True), binding_cache = initial_cache 1, call_timeout = (\<lambda>_ _ s. Some s)\<rparr>"

lemma quiet_env_ok [simp]: "memory_available quiet_env" "timeout_handler_ok quiet_env"
  by (simp_all add: quiet_env_def memory_available_def timeout_handler_ok_def)


section \<open>Properties\<close>

text \<open>
  C8. In every state the machine can reach from its start, by any sequence of calls of its operations
  that return, with allocations that succeed or fail, and with at most 255 transactions, the
  invariant holds, as long as no segment is longer than an APDU, responses are ComplexACKs to decoded
  requests and the timeout handler of the application keeps the tables: the identifiers in use are pairwise different, every reassembly buffer is no
  longer than its block and than the segments counted for it, and a response in progress has
  its bytes, at most 25 segments and a window that starts inside them.
\<close>

theorem tsm_invariant_reachable:
  assumes "tsm_step\<^sup>*\<^sup>* (tsm_start n p) s" "n \<le> 255"
  shows "tsm_inv s"
  using tsm_reachable_inv [OF assms] .

lemma first_id_reserved: "tsm_next_free_invokeID (tsm_start 3 1) = Some (1, reserve_slot (tsm_start 3 1) 1)"
proof -
  have "next_free_loop (Suc 255) (tsm_start 3 1) = Some (1, reserve_slot (tsm_start 3 1) 1)"
    by (simp only: next_free_loop.simps)
      (simp add: tsm_find_invokeID_index_def tsm_find_first_free_index_def reserve_slot_def
        numeral_3_eq_3 tsm_start_def)
  then show ?thesis by (simp add: tsm_next_free_invokeID_def start_available)
qed

theorem tsm_invariant_reachable_witness:
  "tsm_inv (reserve_slot (tsm_start 3 1) 1) \<and> InvokeID (TSM_List (reserve_slot (tsm_start 3 1) 1) ! 0) = 1"
proof
  show "tsm_inv (reserve_slot (tsm_start 3 1) 1)"
    by (rule tsm_invariant_reachable [of 3 1]) (rule r_into_rtranclp, rule tsm_step.next_id [OF first_id_reserved], simp)
  show "InvokeID (TSM_List (reserve_slot (tsm_start 3 1) 1) ! 0) = 1"
    by (simp add: reserve_slot_def tsm_find_first_free_index_def numeral_3_eq_3)
qed

text \<open>
  C9. From every reachable state every operation of the server side is defined: starting a response,
  handling a SegmentACK or an unexpected PDU, releasing a transaction and the timer read and write
  only inside their buffers, dereference no NULL pointer, divide by no zero, and end, whether or not
  allocations succeed. Receiving a segment is defined provided that its buffer can be allocated; without
  that it is not, because the result of \<^verbatim>\<open>calloc\<close> is not tested
  (lemma \<open>failed_allocation_undefined\<close>).
  The timeout handler of the application is assumed to keep the tables.
\<close>

theorem server_operations_defined:
  assumes "tsm_step\<^sup>*\<^sup>* (tsm_start n p) s" "n \<le> 255"
    and "timeout_handler_ok env"
    and "length (request_bytes req) \<le> MAX_APDU" "response_args_ok dst h csd pdu"
  shows "(memory_available env \<longrightarrow> tsm_set_segmented_confirmed_service_received env src sd req s \<noteq> None) \<and>
    tsm_set_complexack_transaction env dst np h csd pdu s \<noteq> None \<and>
    tsm_segmentack_received env v seq w nak server src s \<noteq> None \<and>
    check_unexpected_pdu_received env src sd s \<noteq> None \<and>
    tsm_free_invoke_id_segmentation src v s \<noteq> None \<and>
    tsm_timer_milliseconds env ms s \<noteq> None"
proof -
  note inv = tsm_reachable_inv [OF assms(1,2)]
  show ?thesis
    using segment_received_keeps [OF inv _ assms(4), of env src sd] complexack_defined [OF inv assms(5), of env np]
      segmentack_received_keeps [OF inv, of env v seq w nak server src]
      check_unexpected_keeps [OF inv, of env src sd] free_segmentation_keeps [OF inv, of src v]
      tsm_timer_keeps [OF inv assms(3), of ms]
    by (auto simp: wp_iff)
qed

definition ack_header :: BACNET_APDU_FIXED_HEADER where
  "ack_header = \<lparr>pdu_type = PDU_TYPE_COMPLEX_ACK, service_data = Ack_Data zero_ack_data, service_choice = 12\<rparr>"

lemma zero_address_short: "response_args_ok zero_address ack_header (zero_service_data\<lparr>max_resp := 50\<rparr>) [1, 2]"
  by (simp add: response_args_ok_def ack_header_def zero_address_def wf_address_def)

theorem server_operations_defined_witness:
  "tsm_set_complexack_transaction quiet_env zero_address zero_npdu ack_header
     (zero_service_data\<lparr>max_resp := 50\<rparr>) [1, 2] (tsm_start 2 2) \<noteq> None \<and>
   tsm_timer_milliseconds quiet_env 1000 (tsm_start 2 2) \<noteq> None"
  using server_operations_defined [where n = 2 and p = 2 and s = "tsm_start 2 2" and env = quiet_env
      and req = "Some [1]" and dst = zero_address and h = ack_header and pdu = "[1, 2]"
      and csd = "zero_service_data\<lparr>max_resp := 50\<rparr>" and np = zero_npdu and ms = 1000] zero_address_short
  by (simp add: request_bytes_def MAX_APDU_def)

text \<open>
  C10. \<open>tsm_next_free_invokeID\<close> always ends. It returns 0 and changes nothing exactly when every
  transaction is in use; otherwise it returns an identifier that no transaction holds, reserves
  one slot for it and keeps every other identifier.
\<close>

theorem next_invoke_id_fresh:
  assumes "tsm_step\<^sup>*\<^sup>* (tsm_start n p) s" "n \<le> 255"
  shows "\<exists>v s'. tsm_next_free_invokeID s = Some (v, s') \<and> (v = 0 \<longleftrightarrow> \<not> tsm_transaction_available s) \<and>
    (v = 0 \<longrightarrow> s' = s) \<and>
    (v \<noteq> 0 \<longrightarrow> v \<notin> held_ids s \<and> held_ids s' = insert v (held_ids s) \<and> Suc (free_slots s') = free_slots s)"
proof -
  note ok = tsm_inv_ids [OF tsm_reachable_inv [OF assms]]
  show ?thesis
  proof (cases "free_slots s = 0")
    case True
    then show ?thesis by (simp add: next_free_invokeID_full transaction_available_iff)
  next
    case False
    then show ?thesis
      using next_free_invokeID_room [OF ok] reserve_slot_ids [OF ok] by (auto simp: transaction_available_iff)
  qed
qed

theorem next_invoke_id_fresh_witness:
  "\<exists>v s'. tsm_next_free_invokeID (tsm_start 2 1) = Some (v, s') \<and> v \<noteq> 0 \<and> v \<in> held_ids s'"
  using next_invoke_id_fresh [OF rtranclp.rtrancl_refl, of 2 1]
  by (auto simp: start_available)

text \<open>
  The first confirmed request an application sends is undefined behaviour: the slot that was
  reserved for it has no buffer for the APDU, and \<open>tsm_set_confirmed_unsegmented_transaction\<close>
  copies the APDU through that NULL pointer.
\<close>

lemma first_confirmed_request_undefined:
  assumes "tsm_next_free_invokeID (tsm_start n p) = Some (v, s)" "0 < n" "n \<le> 255" "0 < len"
  shows "tsm_set_confirmed_unsegmented_transaction v dst np bs len s = None"
proof -
  let ?s0 = "tsm_start n p"
  have ok: "invoke_ids_ok ?s0" using tsm_inv_ids [OF tsm_start_inv [OF assms(3)]] .
  have room: "0 < free_slots ?s0"
    using start_available [OF assms(2)] by (simp add: transaction_available_iff)
  then have s: "v \<noteq> 0" "v \<notin> held_ids ?s0" "s = reserve_slot ?s0 v"
    using next_free_invokeID_room [OF ok] assms(1) by auto
  let ?i = "tsm_find_invokeID_index s v"
  have "v \<in> held_ids s" using reserve_slot_ids(2) [OF ok room s(1,2)] s(3) by simp
  then have i: "?i < length (TSM_List s)" using find_invokeID_held [OF s(1)] by simp
  have "tsm_apdu d = None" if "d \<in> set (TSM_List s)" for d
    using that s(3) first_free_index(1) [OF room]
    by (auto simp: reserve_slot_def in_set_conv_nth nth_list_update)
  then have "tsm_apdu (TSM_List s ! ?i) = None" using i by simp
  then show ?thesis
    using i s(1) assms(4)
    by (cases "read_at bs 0 (unat len)")
      (simp_all add: tsm_set_confirmed_unsegmented_transaction_def Let_def)
qed

lemma first_confirmed_request_undefined_witness:
  "tsm_set_confirmed_unsegmented_transaction 1 zero_address zero_npdu [0, 5, 1, 12] 4
     (reserve_slot (tsm_start 3 1) 1) = None"
  by (rule first_confirmed_request_undefined [OF first_id_reserved]) simp_all

end
