(* ===== verification/Bac_Tsm_Receive.thy ===== *)
theory Bac_Tsm_Receive
  imports Bac_Tsm_Machine
begin

text \<open>
  Reassembly of a segmented request by \<^verbatim>\<open>tsm_set_segmented_confirmed_service_received\<close>: a
  peer that sends its segments in order is served by one transaction, whose buffer holds after
  every call what was received so far.
\<close>

section \<open>A peer and its transaction\<close>

definition serving :: "TSM \<Rightarrow> BACNET_ADDRESS \<Rightarrow> u8 \<Rightarrow> nat \<Rightarrow> u8 \<Rightarrow> bool" where
  "serving s src pid index iid \<longleftrightarrow>
     find_index (peer_matches src pid) (TSM_Peer_Ids s) < length (TSM_Peer_Ids s) \<and>
     InternalInvokeID (TSM_Peer_Ids s ! find_index (peer_matches src pid) (TSM_Peer_Ids s)) = iid \<and>
     iid \<noteq> 0 \<and> tsm_find_invokeID_index s iid = index \<and> index < length (TSM_List s)"

lemma serving_get_peer: "serving s src pid index iid \<Longrightarrow> tsm_get_peer_id src pid s = Some (iid, s)"
  by (simp add: serving_def tsm_get_peer_id_def tsm_get_peer_id_data_def Let_def)

lemma find_index_map: "find_index P (map f xs) = find_index (P \<circ> f) xs"
  by (induction xs) auto

lemma serving_cong:
  assumes "TSM_Peer_Ids s' = TSM_Peer_Ids s" "map InvokeID (TSM_List s') = map InvokeID (TSM_List s)"
  shows "serving s' src pid index iid = serving s src pid index iid"
proof -
  have "tsm_find_invokeID_index s' iid = tsm_find_invokeID_index s iid"
    using assms(2) find_index_map [of "\<lambda>v. v = iid" InvokeID "TSM_List s"]
      find_index_map [of "\<lambda>v. v = iid" InvokeID "TSM_List s'"]
    by (simp add: tsm_find_invokeID_index_def comp_def)
  moreover have "length (TSM_List s') = length (TSM_List s)" using assms(2) by (metis length_map)
  ultimately show ?thesis using assms(1) by (simp add: serving_def)
qed

lemma serving_upd [simp]:
  "serving (log_sent ps s) src pid index iid = serving s src pid index iid"
  "serving (s\<lparr>Duplicate_Count := c\<rparr>) src pid index iid = serving s src pid index iid"
  by (rule serving_cong; simp)+

lemma serving_upd_slot:
  assumes "InvokeID (f (TSM_List s ! j)) = InvokeID (TSM_List s ! j)"
  shows "serving (upd_slot s j f) src pid index iid = serving s src pid index iid"
proof (rule serving_cong)
  have "(map InvokeID (TSM_List s))[j := InvokeID (TSM_List s ! j)] = map InvokeID (TSM_List s)"
    by (cases "j < length (TSM_List s)")
      (metis length_map list_update_id nth_map, simp add: list_update_beyond)
  with assms show "map InvokeID (TSM_List (upd_slot s j f)) = map InvokeID (TSM_List s)"
    by (simp add: map_update)
qed simp

text \<open>A new peer gets a transaction of its own when both tables have room.\<close>

lemma new_peer_served:
  assumes inv: "tsm_inv s" and room: "0 < free_slots s"
    and peers: "\<exists>p \<in> set (TSM_Peer_Ids s). InternalInvokeID p = 0"
    and new: "\<forall>p \<in> set (TSM_Peer_Ids s). \<not> peer_matches src pid p"
  obtains iid s' where "tsm_get_peer_id src pid s = Some (iid, s')" "tsm_inv s'"
    "serving s' src pid (tsm_find_invokeID_index s' iid) iid" "config s' = config s"
    "tsm_state (TSM_List s' ! tsm_find_invokeID_index s' iid) = TSM_STATE_IDLE"
    "iid \<notin> held_ids s" "sent s' = sent s" "held_ids s' = insert iid (held_ids s)"
proof -
  let ?f = "find_index (\<lambda>p. InternalInvokeID p = 0) (TSM_Peer_Ids s)"
  let ?s1 = "upd_peer s ?f (\<lambda>p. p\<lparr>PeerInvokeID := pid, PeerAddress := src\<rparr>)"
  have f: "?f < length (TSM_Peer_Ids s)" using peers by (simp add: find_index_less)
  have none: "\<not> find_index (peer_matches src pid) (TSM_Peer_Ids s) < length (TSM_Peer_Ids s)"
    using new by (auto simp: find_index_less)
  have fs: "free_slots ?s1 = free_slots s" "held_ids ?s1 = held_ids s"
    by (simp_all add: free_slots_def held_ids_def)
  have i1: "tsm_inv ?s1" using inv by simp
  obtain v where v: "v \<noteq> 0" "v \<notin> held_ids s" "tsm_next_free_invokeID ?s1 = Some (v, reserve_slot ?s1 v)"
    using next_free_invokeID_room [OF tsm_inv_ids [OF i1]] room fs by auto
  define s2 where "s2 = upd_peer (reserve_slot ?s1 v) ?f (\<lambda>p. p\<lparr>InternalInvokeID := v\<rparr>)"
  let ?i = "tsm_find_invokeID_index s2 v"
  define s3 where "s3 = upd_slot s2 ?i (\<lambda>d. d\<lparr>InvokeID := v, tsm_dest := src\<rparr>)"
  have j: "tsm_find_first_free_index ?s1 < length (TSM_List s)"
    using first_free_index(1) [of ?s1] room fs by simp
  have inv2: "tsm_inv (reserve_slot ?s1 v)"
    using reserve_slot_keeps [OF i1] v room fs by simp
  have i: "?i = tsm_find_first_free_index ?s1" "?i < length (TSM_List s2)"
  proof -
    have "invoke_ids_ok s2" using inv2 by (simp add: s2_def tsm_inv_ids)
    then show "?i = tsm_find_first_free_index ?s1"
      using j v(1) by (intro find_invokeID_found) (simp_all add: s2_def reserve_slot_def)
    then show "?i < length (TSM_List s2)" using j by (simp add: s2_def reserve_slot_def)
  qed
  have st: "tsm_state (TSM_List s2 ! ?i) = TSM_STATE_IDLE" "InvokeID (TSM_List s2 ! ?i) = v"
    using i j by (simp_all add: s2_def reserve_slot_def)
  have peers3: "TSM_Peer_Ids s3 = (TSM_Peer_Ids s)[?f := (TSM_Peer_Ids s ! ?f)
      \<lparr>PeerInvokeID := pid, PeerAddress := src, InternalInvokeID := v\<rparr>]"
    using f by (simp add: s3_def s2_def reserve_slot_def)
  have i': "?i < length (TSM_List (reserve_slot ?s1 v))" using i(2) unfolding s2_def by simp
  have p3: "InternalInvokeID (TSM_Peer_Ids s3 ! ?f) = v" using peers3 f by simp
  have get_peer: "tsm_get_peer_id src pid s = Some (v, s3)"
    using none f v(3) i(2) i' p3
    by (simp add: tsm_get_peer_id_def tsm_get_peer_id_data_def Let_def flip: s2_def s3_def)
  have inv3: "tsm_inv s3"
    unfolding s3_def using inv2 st i(2) tsm_inv_slot [of s2 ?i]
    by (intro upd_slot_keeps) (auto simp: s2_def slot_inv_def blob_ok_def)
  have ix: "find_index (peer_matches src pid) (TSM_Peer_Ids s3) = ?f"
    using f v(1) new unfolding peers3
    by (intro find_index_unique) (auto simp: peer_matches_def nth_list_update split: if_splits)
  have "tsm_find_invokeID_index s3 v = ?i"
    using i(2) by (intro find_invokeID_found tsm_inv_ids [OF inv3] v(1)) (simp_all add: s3_def)
  moreover have "held_ids s3 = insert v (held_ids s)"
  proof -
    have "map InvokeID (TSM_List s3) = map InvokeID (TSM_List s2)"
      using st(2) i(2) list_update_id [of "map InvokeID (TSM_List s2)" ?i] by (simp add: s3_def map_update)
    then have "held_ids s3 = held_ids s2" by (metis held_ids_def)
    also have "\<dots> = held_ids (reserve_slot ?s1 v)" by (simp add: s2_def held_ids_def)
    also have "\<dots> = insert v (held_ids s)"
      using reserve_slot_ids(2) [OF tsm_inv_ids [OF i1]] room fs v(1,2) by simp
    finally show ?thesis .
  qed
  ultimately show ?thesis
    using f v(1,2) i(2) ix peers3 inv3 st
    by (intro that [OF get_peer]) (simp_all add: serving_def s3_def s2_def reserve_slot_def)
qed


section \<open>Receiving one more segment\<close>

definition segment_header :: "u8 \<Rightarrow> u8 \<Rightarrow> nat \<Rightarrow> nat \<Rightarrow> BACNET_CONFIRMED_SERVICE_DATA" where
  "segment_header pid w n k = zero_service_data\<lparr>segmented_message := True,
     more_follows := k + 1 < n, invoke_id := pid, sequence_number := of_nat k,
     proposed_window_number := w\<rparr>"

text \<open>The transaction of a peer holds the first \<open>k\<close> segments, whose bytes are \<open>bs\<close>.\<close>

definition receiving :: "TSM \<Rightarrow> BACNET_ADDRESS \<Rightarrow> u8 \<Rightarrow> nat \<Rightarrow> u8 \<Rightarrow> nat \<Rightarrow> bytes \<Rightarrow> bool" where
  "receiving s src pid index iid k bs \<longleftrightarrow>
     tsm_inv s \<and> serving s src pid index iid \<and> 0 < k \<and>
     tsm_state (TSM_List s ! index) = TSM_STATE_SEGMENTED_REQUEST_SERVER \<and>
     LastSequenceNumber (TSM_List s ! index) = of_nat (k - 1) \<and>
     ReceivedSegmentsCount (TSM_List s ! index) = of_nat k \<and>
     blob_view (TSM_List s ! index) = bs"

text \<open>The segment timer must fit below the APDU timeout, else the transaction is aborted.\<close>

definition timers_compatible :: "TSM \<Rightarrow> bool" where
  "timers_compatible s \<longleftrightarrow> apdu_segment_timeout s * 4 \<le> apdu_timeout s"

lemma first_segment:
  assumes inv: "tsm_inv s" and mem: "memory_available env" and len: "length x \<le> MAX_APDU"
    and sv: "serving s src pid index iid" and w: "0 < w" "w \<le> 127"
    and st: "tsm_state (TSM_List s ! index) = TSM_STATE_IDLE"
  obtains s' where "segment_in_idle env index iid src (segment_header pid w n 0) (Some x) s
      = Some (False, Some x, wire_address src, s')" "receiving s' src pid index iid 1 x"
    "config s' = config s"
    "sent s' = sent s @ [short_pdu env src (segmentack_encode_apdu False True pid 0 w)]"
proof -
  have i: "index < length (TSM_List s)" using sv by (simp add: serving_def)
  define f where "f = fresh_request w (apdu_segment_timeout s * 4)"
  note d1 = fresh_request_inv [OF tsm_inv_slot [OF inv i], of w "apdu_segment_timeout s * 4", folded f_def]
  obtain d2 where d2: "add_blob_data env (f (TSM_List s ! index)) x = Some d2"
      "slot_inv d2" "blob_view d2 = x" "same_but_blob (f (TSM_List s ! index)) d2"
    using add_blob_slot [OF d1(1) mem, of x] d1 len by (auto simp: MAX_SEGMENTS_ACCEPTED_def)
  note same = same_but_blob_fields [OF d2(4)]
  let ?s = "upd_slot (upd_slot s index f) index (\<lambda>_. d2)"
  let ?out = "[short_pdu env src (segmentack_encode_apdu False True pid 0 w)]"
  have s1: "tsm_inv (upd_slot s index f)" using inv d1 by (intro upd_slot_keeps) simp_all
  have "tsm_inv ?s" using s1 d2 i same d1 by (intro upd_slot_keeps [of "upd_slot s index f"]) simp_all
  moreover have "serving ?s src pid index iid"
    using sv same d1 i by (simp add: serving_upd_slot)
  ultimately have "receiving (log_sent ?out ?s) src pid index iid 1 x"
    using d2 d1 same i by (simp add: receiving_def)
  moreover have "segment_in_idle env index iid src (segment_header pid w n 0) (Some x) s
      = Some (False, Some x, wire_address src, log_sent ?out ?s)"
    using d2(1) i w d1 same
    by (simp add: segment_in_idle_def' segment_header_def zero_service_data_def request_bytes_def
        Let_def flip: f_def)
  ultimately show ?thesis by (intro that [of "log_sent ?out ?s"]) simp_all
qed

lemma new_segment_appends:
  assumes inv: "tsm_inv s" and i: "index < length (TSM_List s)" and mem: "memory_available env"
    and len: "length x \<le> MAX_APDU" and k: "k < MAX_SEGMENTS_ACCEPTED"
    and st: "tsm_state (TSM_List s ! index) \<in> {TSM_STATE_IDLE, TSM_STATE_SEGMENTED_REQUEST_SERVER}"
    and count: "ReceivedSegmentsCount (TSM_List s ! index) = of_nat k"
    and view: "blob_view (TSM_List s ! index) = bs" and nonempty: "bs @ x \<noteq> []"
  obtains d src' out where "new_segment_received env index iid src sd (Some x) s
      = Some (\<not> more_follows sd, Some (if more_follows sd then x else bs @ x), src',
          log_sent out (upd_slot s index (\<lambda>_. d)))"
    "slot_inv d" "blob_view d = bs @ x" "InvokeID d = InvokeID (TSM_List s ! index)"
    "tsm_state d = tsm_state (TSM_List s ! index)" "LastSequenceNumber d = sequence_number sd"
    "ReceivedSegmentsCount d = of_nat (k + 1)" "\<not> more_follows sd \<longrightarrow> src' = wire_address src"
proof -
  let ?d = "TSM_List s ! index"
  define d2 where "d2 = ?d\<lparr>ReceivedSegmentsCount := of_nat k + 1, LastSequenceNumber := sequence_number sd\<rparr>"
  have "of_nat (Suc k) = (of_nat k + 1 :: u32)" by (simp add: add.commute)
  then have cnt: "unat (of_nat k + 1 :: u32) = k + 1" "unat (of_nat k :: u32) = k"
    using k unat_of_nat_u32 [of "Suc k"] unat_of_nat_u32 [of k]
    by (simp_all add: MAX_SEGMENTS_ACCEPTED_def del: of_nat_Suc)
  have inv2: "slot_inv d2"
    using tsm_inv_slot [OF inv i] st count k cnt by (auto simp: slot_inv_def d2_def blob_ok_def)
  have view2: "blob_view d2 = bs" using view by (simp add: d2_def blob_view_def)
  have "length (blob_view d2) + length x \<le> unat (ReceivedSegmentsCount d2) * MAX_APDU"
    using tsm_inv_slot [OF inv i] len cnt length_blob_view [of d2] inv2 count
    by (simp add: slot_inv_def d2_def)
  then obtain d3 where d3: "add_blob_data env d2 x = Some d3" "slot_inv d3" "blob_view d3 = bs @ x"
      "same_but_blob d2 d3"
    using add_blob_slot [OF inv2 mem] st k cnt view2 by (auto simp: d2_def)
  note same = same_but_blob_fields [OF d3(4)]
  define q where "q \<longleftrightarrow> sequence_number sd = InitialSequenceNumber d3 + ActualWindowSize d3"
  define d4 where "d4 = (if q then d3\<lparr>InitialSequenceNumber := sequence_number sd\<rparr> else d3)"
  have d4: "slot_inv d4" "blob_view d4 = bs @ x" "InvokeID d4 = InvokeID ?d" "tsm_state d4 = tsm_state ?d"
      "LastSequenceNumber d4 = sequence_number sd" "ReceivedSegmentsCount d4 = of_nat (k + 1)"
    using d3(2,3) same st
    by (auto simp: d4_def d2_def slot_inv_def blob_ok_def blob_view_def add.commute)
  then have get: "get_blob_data d4 = Some (bs @ x)"
    using nonempty get_blob_data_view [of d4]
    by (auto simp: slot_inv_def blob_view_def split: if_splits)
  have cnt': "\<not> of_nat MAX_SEGMENTS_ACCEPTED < (of_nat k + 1 :: u32)"
    using k cnt by (simp add: word_less_nat_alt MAX_SEGMENTS_ACCEPTED_def)
  have last3: "LastSequenceNumber d3 = sequence_number sd" using same(4) by (simp add: d2_def)
  note new = new_segment_received_def Let_def upd_slot_upd_slot d4_def last3
  show ?thesis
  proof (cases "q \<or> \<not> more_follows sd")
    case True
    let ?out = "[short_pdu env src (segmentack_encode_apdu False True (invoke_id sd)
        (sequence_number sd) (ActualWindowSize d3))]"
    from True have "new_segment_received env index iid src sd (Some x) s
      = Some (\<not> more_follows sd, Some (if more_follows sd then x else bs @ x), wire_address src,
          log_sent ?out (upd_slot s index (\<lambda>_. d4)))"
      using i cnt' count d3(1) get [unfolded d4_def]
      by (simp add: new split: if_splits flip: d2_def q_def)
    from that [OF this d4] show ?thesis by simp
  next
    case False
    then have "new_segment_received env index iid src sd (Some x) s
      = Some (\<not> more_follows sd, Some (if more_follows sd then x else bs @ x), src,
          log_sent [] (upd_slot s index (\<lambda>_. d4)))"
      using i cnt' count d3(1) get [unfolded d4_def]
      by (simp add: new log_sent_def flip: d2_def q_def)
    from that [OF this d4] show ?thesis using False by simp
  qed
qed

text \<open>The peer's next segment reaches \<open>new_segment_received\<close>, with the timers restarted.\<close>

lemma next_segment_dispatch:
  assumes rc: "receiving s src pid index iid k bs"
  defines "s1 \<equiv> upd_slot s index (\<lambda>d. d\<lparr>RequestTimer := 0, SegmentTimer := apdu_segment_timeout s * 4\<rparr>)"
  shows "tsm_inv s1" "serving s1 src pid index iid" "index < length (TSM_List s)"
    "tsm_state (TSM_List s1 ! index) = TSM_STATE_SEGMENTED_REQUEST_SERVER"
    "ReceivedSegmentsCount (TSM_List s1 ! index) = of_nat k" "blob_view (TSM_List s1 ! index) = bs"
    "InvokeID (TSM_List s1 ! index) = InvokeID (TSM_List s ! index)"
    "tsm_set_segmented_confirmed_service_received env src (segment_header pid w n k) req s =
       (do { (src, s) \<leftarrow> (if timers_compatible s then Some (src, s1)
               else Some (wire_address src, upd_slot (log_sent [short_pdu env src (abort_encode_apdu pid
                 (of_int ABORT_REASON_APPLICATION_EXCEEDED_REPLY_TIME) True)] s1)
                 index (\<lambda>d. d\<lparr>tsm_state := TSM_STATE_IDLE\<rparr>)));
             (r, req, src, s) \<leftarrow> new_segment_received env index iid src (segment_header pid w n k) req s;
             Some (r, iid, req, src, s) })"
proof -
  let ?d = "TSM_List s ! index"
  have r: "tsm_inv s" "serving s src pid index iid" "tsm_state ?d = TSM_STATE_SEGMENTED_REQUEST_SERVER"
      "LastSequenceNumber ?d = of_nat (k - 1)" "ReceivedSegmentsCount ?d = of_nat k" "blob_view ?d = bs"
      "0 < k"
    using rc by (simp_all add: receiving_def)
  show i: "index < length (TSM_List s)" using r(2) by (simp add: serving_def)
  show "tsm_inv s1" unfolding s1_def
    using r(1,3) tsm_inv_slot [OF r(1) i] by (intro upd_slot_keeps) (simp_all add: slot_inv_def blob_ok_def)
  show "serving s1 src pid index iid" "tsm_state (TSM_List s1 ! index) = TSM_STATE_SEGMENTED_REQUEST_SERVER"
    "ReceivedSegmentsCount (TSM_List s1 ! index) = of_nat k" "blob_view (TSM_List s1 ! index) = bs"
    "InvokeID (TSM_List s1 ! index) = InvokeID (TSM_List s ! index)"
    using r i by (simp_all add: s1_def serving_upd_slot blob_view_def)
  have seqk: "LastSequenceNumber ?d + 1 = of_nat k" using r(4,7) by (simp add: of_nat_diff)
  have sd: "sequence_number (segment_header pid w n k) = of_nat k" "invoke_id (segment_header pid w n k) = pid"
    by (simp_all add: segment_header_def)
  have ix: "tsm_find_invokeID_index s iid = index" "iid \<noteq> 0" using r(2) by (simp_all add: serving_def)
  have tc: "apdu_timeout s < apdu_segment_timeout s * 4 \<longleftrightarrow> \<not> timers_compatible s"
    by (simp add: timers_compatible_def not_le)
  show "tsm_set_segmented_confirmed_service_received env src (segment_header pid w n k) req s =
       (do { (src, s) \<leftarrow> (if timers_compatible s then Some (src, s1)
               else Some (wire_address src, upd_slot (log_sent [short_pdu env src (abort_encode_apdu pid
                 (of_int ABORT_REASON_APPLICATION_EXCEEDED_REPLY_TIME) True)] s1)
                 index (\<lambda>d. d\<lparr>tsm_state := TSM_STATE_IDLE\<rparr>)));
             (r, req, src, s) \<leftarrow> new_segment_received env index iid src (segment_header pid w n k) req s;
             Some (r, iid, req, src, s) })"
    using ix i r(3) sd serving_get_peer [OF r(2)] seqk
    by (cases "timers_compatible s")
      (simp_all add: tsm_set_segmented_confirmed_service_received_def segment_in_request_def
        segment_in_sequence_def Let_def tc s1_def)
qed

lemma next_segment:
  assumes rc: "receiving s src pid index iid k bs" and mem: "memory_available env"
    and len: "length x \<le> MAX_APDU" and k: "k < MAX_SEGMENTS_ACCEPTED" and tm: "timers_compatible s"
    and nonempty: "bs @ x \<noteq> []"
  obtains s' src' where "tsm_set_segmented_confirmed_service_received env src (segment_header pid w n k) (Some x) s
      = Some (\<not> k + 1 < n, iid, Some (if k + 1 < n then x else bs @ x), src', s')"
    "receiving s' src pid index iid (k + 1) (bs @ x)" "config s' = config s"
    "\<not> k + 1 < n \<longrightarrow> src' = wire_address src"
proof -
  let ?s1 = "upd_slot s index (\<lambda>d. d\<lparr>RequestTimer := 0, SegmentTimer := apdu_segment_timeout s * 4\<rparr>)"
  note n = next_segment_dispatch [OF rc]
  have sd: "sequence_number (segment_header pid w n k) = of_nat k"
      "more_follows (segment_header pid w n k) = (k + 1 < n)" by (simp_all add: segment_header_def)
  have i: "index < length (TSM_List ?s1)" using n(3) by simp
  have st: "tsm_state (TSM_List ?s1 ! index) \<in> {TSM_STATE_IDLE, TSM_STATE_SEGMENTED_REQUEST_SERVER}"
    using n(4) by simp
  obtain d src' out where d: "new_segment_received env index iid src (segment_header pid w n k) (Some x) ?s1
      = Some (\<not> k + 1 < n, Some (if k + 1 < n then x else bs @ x), src',
          log_sent out (upd_slot ?s1 index (\<lambda>_. d)))"
      "slot_inv d" "blob_view d = bs @ x" "InvokeID d = InvokeID (TSM_List ?s1 ! index)"
      "tsm_state d = TSM_STATE_SEGMENTED_REQUEST_SERVER" "LastSequenceNumber d = of_nat k"
      "ReceivedSegmentsCount d = of_nat (k + 1)" "\<not> k + 1 < n \<longrightarrow> src' = wire_address src"
    using new_segment_appends [OF n(1) i mem len k st n(5,6) nonempty, of iid src "segment_header pid w n k"]
    unfolding sd n(4) by blast
  have "receiving (log_sent out (upd_slot ?s1 index (\<lambda>_. d))) src pid index iid (k + 1) (bs @ x)"
    using n d(2-7) upd_slot_keeps [OF n(1), of "\<lambda>_. d" index]
    by (simp add: receiving_def serving_upd_slot)
  moreover have "tsm_set_segmented_confirmed_service_received env src (segment_header pid w n k) (Some x) s
      = Some (\<not> k + 1 < n, iid, Some (if k + 1 < n then x else bs @ x), src',
          log_sent out (upd_slot ?s1 index (\<lambda>_. d)))"
    using d(1) tm by (simp add: n(8))
  ultimately show ?thesis by (intro that [of src' "log_sent out (upd_slot ?s1 index (\<lambda>_. d))"]) (simp_all add: d(8))
qed

section \<open>A whole request\<close>

text \<open>
  The calls for the segments \<open>k\<close>, \<open>k + 1\<close>, \<dots> of \<open>n\<close> that a peer sends in order, until one
  reports that the request is complete.
\<close>

fun receive_segments ::
  "TSM_ENV \<Rightarrow> BACNET_ADDRESS \<Rightarrow> u8 \<Rightarrow> u8 \<Rightarrow> nat \<Rightarrow> nat \<Rightarrow> bytes list \<Rightarrow> TSM
   \<Rightarrow> (bool \<times> bytes option \<times> TSM) option" where
  "receive_segments env src pid w n k [] s = Some (False, None, s)"
| "receive_segments env src pid w n k (x # xs) s = do {
     (complete, _, req, _, s) \<leftarrow>
       tsm_set_segmented_confirmed_service_received env src (segment_header pid w n k) (Some x) s;
     if complete then Some (True, req, s) else receive_segments env src pid w n (k + 1) xs s }"

lemma timers_compatible_cong: "config s' = config s \<Longrightarrow> timers_compatible s' = timers_compatible s"
  by (simp add: timers_compatible_def apdu_timeout_def apdu_segment_timeout_def)

lemma receive_rest:
  assumes "receiving s src pid index iid k bs" "memory_available env" "timers_compatible s"
    and "\<forall>x \<in> set xs. length x \<le> MAX_APDU" "n = k + length xs" "n \<le> MAX_SEGMENTS_ACCEPTED"
    and "xs \<noteq> []" "bs \<noteq> []"
  shows "\<exists>s'. receive_segments env src pid w n k xs s = Some (True, Some (bs @ concat xs), s') \<and>
    receiving s' src pid index iid n (bs @ concat xs)"
  using assms
proof (induction xs arbitrary: s k bs)
  case (Cons x xs)
  from Cons.prems have "length x \<le> MAX_APDU" "k < MAX_SEGMENTS_ACCEPTED" "bs @ x \<noteq> []" by simp_all
  from next_segment [OF Cons.prems(1,2) this(1,2) Cons.prems(3) this(3), of w n]
  obtain s' src' where s': "tsm_set_segmented_confirmed_service_received env src (segment_header pid w n k) (Some x) s
      = Some (\<not> k + 1 < n, iid, Some (if k + 1 < n then x else bs @ x), src', s')"
    "receiving s' src pid index iid (k + 1) (bs @ x)" "config s' = config s" by blast
  show ?case
  proof (cases "xs = []")
    case True
    with s' Cons.prems(5) show ?thesis by simp
  next
    case False
    then have "k + 1 < n" using Cons.prems(5) by (cases xs) simp_all
    with s' Cons.IH [OF s'(2) Cons.prems(2)] Cons.prems False show ?thesis
      by (simp add: timers_compatible_cong [OF s'(3)])
  qed
qed simp


lemma first_segment_received:
  assumes inv: "tsm_inv s" and "memory_available env" "0 < free_slots s"
    and "\<exists>q \<in> set (TSM_Peer_Ids s). InternalInvokeID q = 0"
    and "\<forall>q \<in> set (TSM_Peer_Ids s). \<not> peer_matches src pid q"
    and w: "0 < w" "w \<le> 127" and len: "length x \<le> MAX_APDU"
  obtains index iid s' where "tsm_set_segmented_confirmed_service_received env src (segment_header pid w n 0) (Some x) s
      = Some (False, iid, Some x, wire_address src, s')"
    "receiving s' src pid index iid 1 x" "config s' = config s" "iid \<notin> held_ids s"
proof -
  obtain iid s1 where s1: "tsm_get_peer_id src pid s = Some (iid, s1)" "tsm_inv s1"
      "serving s1 src pid (tsm_find_invokeID_index s1 iid) iid" "config s1 = config s"
      "tsm_state (TSM_List s1 ! tsm_find_invokeID_index s1 iid) = TSM_STATE_IDLE" "iid \<notin> held_ids s"
    using new_peer_served [OF inv assms(3-5)] by metis
  let ?i = "tsm_find_invokeID_index s1 iid"
  obtain s2 where s2: "segment_in_idle env ?i iid src (segment_header pid w n 0) (Some x) s1
      = Some (False, Some x, wire_address src, s2)" "receiving s2 src pid ?i iid 1 x" "config s2 = config s1"
    using first_segment [OF s1(2) assms(2) len s1(3) w s1(5), of n] by metis
  have "tsm_set_segmented_confirmed_service_received env src (segment_header pid w n 0) (Some x) s
      = Some (False, iid, Some x, wire_address src, s2)"
    using s1(1,3,5) s2(1)
    by (simp add: tsm_set_segmented_confirmed_service_received_def segment_header_def serving_def)
  then show ?thesis using s2(2,3) s1(4,6) that by simp
qed

text \<open>Of the header only four fields matter to the transaction machine.\<close>

lemma segment_received_cong:
  assumes "invoke_id sd = invoke_id sd'" "more_follows sd = more_follows sd'"
    and "sequence_number sd = sequence_number sd'" "proposed_window_number sd = proposed_window_number sd'"
  shows "tsm_set_segmented_confirmed_service_received env src sd req s =
    tsm_set_segmented_confirmed_service_received env src sd' req s"
  unfolding tsm_set_segmented_confirmed_service_received_def segment_in_idle_def segment_in_request_def
    segment_in_sequence_def duplicate_segment_received_def new_segment_received_def assms ..

section \<open>Segments out of order, too many segments\<close>

lemma unexpected_segment_dispatch:
  assumes rc: "receiving s src pid index iid k bs" and tm: "timers_compatible s"
    and sd: "invoke_id sd = pid" "sequence_number sd \<noteq> of_nat k"
  defines "s1 \<equiv> upd_slot s index (\<lambda>d. d\<lparr>RequestTimer := 0, SegmentTimer := apdu_segment_timeout s * 4\<rparr>)"
  shows "tsm_set_segmented_confirmed_service_received env src sd req s =
      (do { (r, req, src, s) \<leftarrow> segment_in_sequence env index iid src sd req s1;
            Some (r, iid, req, src, s) })"
    "sequence_number sd \<noteq> LastSequenceNumber (TSM_List s1 ! index) + 1"
    "receiving s1 src pid index iid k bs"
proof -
  note n = next_segment_dispatch [OF rc, folded s1_def]
  have r: "serving s src pid index iid" "tsm_state (TSM_List s ! index) = TSM_STATE_SEGMENTED_REQUEST_SERVER"
      "LastSequenceNumber (TSM_List s ! index) = of_nat (k - 1)" "0 < k"
    using rc by (simp_all add: receiving_def)
  have ix: "tsm_find_invokeID_index s iid = index" "iid \<noteq> 0" using r(1) by (simp_all add: serving_def)
  have "\<not> apdu_timeout s < apdu_segment_timeout s * 4" using tm by (simp add: timers_compatible_def not_less)
  then show "tsm_set_segmented_confirmed_service_received env src sd req s =
      (do { (r, req, src, s) \<leftarrow> segment_in_sequence env index iid src sd req s1;
            Some (r, iid, req, src, s) })"
    using ix n(3) r(2) sd(1) serving_get_peer [OF r(1)]
    by (simp add: tsm_set_segmented_confirmed_service_received_def segment_in_request_def Let_def s1_def)
  have "LastSequenceNumber (TSM_List s ! index) + 1 = of_nat k" using r(3,4) by (simp add: of_nat_diff)
  then show "sequence_number sd \<noteq> LastSequenceNumber (TSM_List s1 ! index) + 1"
    using sd(2) n(3) by (simp add: s1_def)
  show "receiving s1 src pid index iid k bs"
    using n r by (simp add: receiving_def s1_def)
qed

lemma receiving_frame:
  assumes "receiving s src pid index iid k bs"
    and f: "\<And>d. InvokeID (f d) = InvokeID d \<and> tsm_state (f d) = tsm_state d \<and>
      LastSequenceNumber (f d) = LastSequenceNumber d \<and>
      ReceivedSegmentsCount (f d) = ReceivedSegmentsCount d \<and> apdu_blob (f d) = apdu_blob d \<and>
      apdu_blob_allocated (f d) = apdu_blob_allocated d \<and> apdu_blob_size (f d) = apdu_blob_size d"
  shows "receiving (upd_slot s index f) src pid index iid k bs"
proof -
  have r: "tsm_inv s" "serving s src pid index iid" using assms(1) by (simp_all add: receiving_def)
  then have i: "index < length (TSM_List s)" by (simp add: serving_def)
  have "slot_inv (f (TSM_List s ! index))"
    using tsm_inv_slot [OF r(1) i] assms(1) f by (simp add: slot_inv_def blob_ok_def receiving_def)
  then have "tsm_inv (upd_slot s index f)" using r(1) f by (intro upd_slot_keeps) simp_all
  then show ?thesis using assms(1) f i by (simp add: receiving_def serving_upd_slot blob_view_def)
qed

lemma receiving_simps [simp]:
  "receiving (log_sent ps s) src pid index iid k bs = receiving s src pid index iid k bs"
  "receiving (s\<lparr>Duplicate_Count := c\<rparr>) src pid index iid k bs = receiving s src pid index iid k bs"
  by (simp_all add: receiving_def)

lemma duplicate_receiving:
  assumes "receiving s src pid index iid k bs"
  shows "\<exists>r src' s'. duplicate_segment_received env index sd a s = Some (r, src', s') \<and>
    receiving s' src pid index iid k bs \<and>
    sent s' = sent s @ (if Duplicate_Count s = ActualWindowSize (TSM_List s ! index)
      then [short_pdu env a (segmentack_encode_apdu True True (invoke_id sd)
        (LastSequenceNumber (TSM_List s ! index)) (ActualWindowSize (TSM_List s ! index)))] else [])"
proof -
  have "receiving (upd_slot s index (\<lambda>d. d\<lparr>SegmentTimer := t\<rparr>)) src pid index iid k bs" for t
    using receiving_frame [OF assms] by simp
  moreover have "receiving (upd_slot s index (\<lambda>d. d\<lparr>SegmentTimer := t,
      InitialSequenceNumber := LastSequenceNumber d\<rparr>)) src pid index iid k bs" for t
    using receiving_frame [OF assms] by simp
  ultimately show ?thesis
    using assms by (auto simp: duplicate_segment_received_def Let_def upd_slot_log_sent)
qed

text \<open>
  C11. With an APDU timeout of at least four times the segment timeout, which the default values do
  not satisfy (with them the request is aborted), a segment of a request in progress whose sequence
  number is not the one expected next is never stored: the call does not complete the request, the
  transaction stays open and its buffer still holds exactly the segments received in order. The peer
  is sent a negative SegmentACK with the last number received in order, but for a duplicate within the
  window, which is answered so only when as many duplicates have been counted as the window is wide, and
  not answered otherwise.
\<close>

theorem out_of_order_segment_rejected:
  assumes "receiving s src pid index iid k bs" "timers_compatible s"
    and "invoke_id sd = pid" "sequence_number sd \<noteq> of_nat k"
  shows "\<exists>src' s'. tsm_set_segmented_confirmed_service_received env src sd req s
      = Some (False, iid, req, src', s') \<and> receiving s' src pid index iid k bs \<and>
    sent s' = sent s @
      (if DuplicateInWindow (TSM_List s ! index) (sequence_number sd)
            (ucast (InitialSequenceNumber (TSM_List s ! index)) mod 256) (ucast (of_nat (k - 1) :: u8)) \<and>
          Duplicate_Count s \<noteq> ActualWindowSize (TSM_List s ! index)
       then []
       else [short_pdu env src (segmentack_encode_apdu True True pid
              (of_nat (k - 1)) (ActualWindowSize (TSM_List s ! index)))])"
proof -
  let ?s1 = "upd_slot s index (\<lambda>d. d\<lparr>RequestTimer := 0, SegmentTimer := apdu_segment_timeout s * 4\<rparr>)"
  note u = unexpected_segment_dispatch [OF assms]
  have i: "index < length (TSM_List s)" "LastSequenceNumber (TSM_List s ! index) = of_nat (k - 1)"
    using assms(1) by (simp_all add: receiving_def serving_def)
  have dup: "DuplicateInWindow (TSM_List ?s1 ! index) = DuplicateInWindow (TSM_List s ! index)"
    using i(1) by (simp add: fun_eq_iff DuplicateInWindow_def)
  obtain r src' s' where d: "duplicate_segment_received env index sd src ?s1 = Some (r, src', s')"
      "receiving s' src pid index iid k bs"
      "sent s' = sent ?s1 @ (if Duplicate_Count ?s1 = ActualWindowSize (TSM_List ?s1 ! index)
        then [short_pdu env src (segmentack_encode_apdu True True (invoke_id sd)
          (LastSequenceNumber (TSM_List ?s1 ! index)) (ActualWindowSize (TSM_List ?s1 ! index)))] else [])"
    using duplicate_receiving [OF u(3)] by blast
  show ?thesis
    using u d i assms(3) dup by (auto simp: segment_in_sequence_def Let_def)
qed


text \<open>A state in which a peer has sent the first of its segments.\<close>

definition one_received :: TSM where
  "one_received = (upd_slot (tsm_start 1 1) 0 (\<lambda>d. d\<lparr>InvokeID := 1,
     tsm_state := TSM_STATE_SEGMENTED_REQUEST_SERVER, ReceivedSegmentsCount := 1, ActualWindowSize := 4,
     apdu_blob := Some [9], apdu_blob_allocated := 1, apdu_blob_size := 1\<rparr>))
     \<lparr>TSM_Peer_Ids := [\<lparr>PeerAddress = zero_address, PeerInvokeID = 7, InternalInvokeID = 1\<rparr>],
      config := default_config\<lparr>Timeout_Milliseconds := 20000\<rparr>\<rparr>"

lemma one_received_receiving: "receiving one_received zero_address 7 0 1 1 [9]" "timers_compatible one_received"
proof -
  have "tsm_inv one_received"
    by (simp add: tsm_inv_def invoke_ids_ok_def ids_unique_def one_received_def tsm_start_def
        zero_transaction_def slot_inv_def blob_ok_defs BLOB_CAP_value MAX_APDU_def MAX_SEGMENTS_ACCEPTED_def)
  then show "receiving one_received zero_address 7 0 1 1 [9]"
    by (simp add: receiving_def serving_def one_received_def tsm_start_def peer_matches_def
        tsm_find_invokeID_index_def blob_view_def zero_transaction_def)
  show "timers_compatible one_received"
    by (simp add: timers_compatible_def one_received_def apdu_timeout_def apdu_segment_timeout_def
        default_config_def)
qed

theorem out_of_order_segment_rejected_witness:
  "\<exists>src' s'. tsm_set_segmented_confirmed_service_received quiet_env zero_address
      (segment_header 7 4 9 3) (Some [1]) one_received = Some (False, 1, Some [1], src', s') \<and>
    receiving s' zero_address 7 0 1 1 [9]"
  using out_of_order_segment_rejected [OF one_received_receiving, of "segment_header 7 4 9 3" quiet_env "Some [1]"]
  by (auto simp: segment_header_def)

text \<open>
  C1. Reassembly, with timeouts and memory that allow it: the APDU timeout is at least four times the
  segment timeout, which the default values of 3000 and 5000 milliseconds do not satisfy (with them
  the request is aborted), and allocations succeed. Then in every reachable state with a free
  transaction and a free peer entry, a peer without a transaction that sends a request in 2 to 25 segments, in order, with a window of 1
  to 127 and a first segment that is not empty, is given a fresh transaction; the call for the last
  segment, and no earlier one, reports completion, and the service request it returns is the
  concatenation of the segments.
\<close>

theorem segmented_request_reassembled:
  assumes "tsm_step\<^sup>*\<^sup>* (tsm_start n p) s" "n \<le> 255" "memory_available env" "timers_compatible s"
    and "0 < free_slots s" "\<exists>q \<in> set (TSM_Peer_Ids s). InternalInvokeID q = 0"
    and "\<forall>q \<in> set (TSM_Peer_Ids s). \<not> peer_matches src pid q"
    and "0 < w" "w \<le> 127"
    and "2 \<le> length segs" "length segs \<le> MAX_SEGMENTS_ACCEPTED"
    and "\<forall>x \<in> set segs. length x \<le> MAX_APDU" "hd segs \<noteq> []"
  shows "\<exists>index iid s'. receive_segments env src pid w (length segs) 0 segs s
      = Some (True, Some (concat segs), s') \<and> iid \<notin> held_ids s \<and>
      receiving s' src pid index iid (length segs) (concat segs)"
proof -
  obtain x xs where segs: "segs = x # xs" "xs \<noteq> []" using assms(10) by (cases segs; cases "tl segs") auto
  have inv: "tsm_inv s" using tsm_reachable_inv [OF assms(1,2)] .
  have len: "length x \<le> MAX_APDU" using assms(12) segs by simp
  obtain index iid s2 where s2: "tsm_set_segmented_confirmed_service_received env src
        (segment_header pid w (length segs) 0) (Some x) s = Some (False, iid, Some x, wire_address src, s2)"
      "receiving s2 src pid index iid 1 x" "config s2 = config s" "iid \<notin> held_ids s"
    using first_segment_received [OF inv assms(3,5-9) len] .
  have "timers_compatible s2" using assms(4) s2(3) timers_compatible_cong by metis
  from receive_rest [OF s2(2) assms(3) this, of xs "length segs" w] assms(11-13) segs
  obtain s' where "receive_segments env src pid w (length segs) 1 xs s2 = Some (True, Some (x @ concat xs), s')"
      "receiving s' src pid index iid (length segs) (x @ concat xs)" by auto
  with s2 segs(1) show ?thesis by auto
qed

lemma fresh_table_room:
  "0 < n \<Longrightarrow> 0 < p \<Longrightarrow> TSM_List s = TSM_List (tsm_start n p) \<Longrightarrow>
   TSM_Peer_Ids s = TSM_Peer_Ids (tsm_start n p) \<Longrightarrow>
   0 < free_slots s \<and> (\<exists>q \<in> set (TSM_Peer_Ids s). InternalInvokeID q = 0) \<and>
   (\<forall>q \<in> set (TSM_Peer_Ids s). \<not> peer_matches src pid q)"
  by (auto simp: tsm_start_def zero_peer_def peer_matches_def zero_transaction_def
      tsm_transaction_available_def list_ex_iff simp flip: transaction_available_iff)

theorem segmented_request_reassembled_witness:
  "\<exists>index iid s'. receive_segments quiet_env zero_address 7 4 2 0 [[1, 2], [3]]
      (apdu_timeout_set 20000 (tsm_start 2 2)) = Some (True, Some [1, 2, 3], s') \<and>
    receiving s' zero_address 7 index iid 2 [1, 2, 3]"
proof -
  let ?s = "apdu_timeout_set 20000 (tsm_start 2 2)"
  have len: "length [[1, 2], [3 :: u8]] = 2" by simp
  have "tsm_step\<^sup>*\<^sup>* (tsm_start 2 2) ?s" by (intro r_into_rtranclp tsm_step.set_timeout)
  moreover have "timers_compatible ?s"
    by (simp add: timers_compatible_def apdu_timeout_def apdu_segment_timeout_def apdu_timeout_set_def
        tsm_start_def default_config_def)
  moreover have "0 < free_slots ?s" "\<exists>q \<in> set (TSM_Peer_Ids ?s). InternalInvokeID q = 0"
      "\<forall>q \<in> set (TSM_Peer_Ids ?s). \<not> peer_matches zero_address 7 q"
    using fresh_table_room [of 2 2 ?s] by (simp_all add: apdu_timeout_set_def)
  ultimately show ?thesis
    using segmented_request_reassembled [of 2 2 ?s quiet_env zero_address 7 4 "[[1, 2], [3]]", unfolded len]
    by (auto simp: MAX_APDU_def MAX_SEGMENTS_ACCEPTED_def simp del: receive_segments.simps)
qed


text \<open>
  C37. With a segment timer that exceeds the APDU timeout, as the default configuration has it
  (four times 5000 ms against 3000 ms), the second segment of every segmented request makes the
  server send an Abort with reason application-exceeded-reply-time and puts the transaction to
  rest, although the segment arrived in order.
\<close>

theorem default_timeouts_abort_request:
  assumes rc: "receiving s src pid index iid k bs" and mem: "memory_available env"
    and len: "length x \<le> MAX_APDU" and k: "k < MAX_SEGMENTS_ACCEPTED" and nonempty: "bs @ x \<noteq> []"
    and tm: "config s = default_config"
  shows "\<exists>r req src' s' out. tsm_set_segmented_confirmed_service_received env src
      (segment_header pid w n k) (Some x) s = Some (r, iid, req, src', s') \<and>
    sent s' = sent s @ short_pdu env src (abort_encode_apdu pid
      (of_int ABORT_REASON_APPLICATION_EXCEEDED_REPLY_TIME) True) # out \<and>
    tsm_state (TSM_List s' ! index) = TSM_STATE_IDLE"
proof -
  let ?abort = "short_pdu env src (abort_encode_apdu pid
      (of_int ABORT_REASON_APPLICATION_EXCEEDED_REPLY_TIME) True)"
  define s1 where "s1 = upd_slot s index (\<lambda>d. d\<lparr>RequestTimer := 0, SegmentTimer := apdu_segment_timeout s * 4\<rparr>)"
  let ?s2 = "upd_slot (log_sent [?abort] s1) index (\<lambda>d. d\<lparr>tsm_state := TSM_STATE_IDLE\<rparr>)"
  note n = next_segment_dispatch [OF rc, folded s1_def]
  have late: "\<not> timers_compatible s"
    by (simp add: timers_compatible_def apdu_timeout_def apdu_segment_timeout_def tm default_config_def)
  have i: "index < length (TSM_List ?s2)" "index < length (TSM_List s1)" using n(3) by (simp_all add: s1_def)
  have inv2: "tsm_inv ?s2"
    using n(1) tsm_inv_slot [OF n(1) i(2)] by (intro upd_slot_keeps) (simp_all add: slot_inv_idle)
  have d: "ReceivedSegmentsCount (TSM_List ?s2 ! index) = of_nat k" "blob_view (TSM_List ?s2 ! index) = bs"
      "tsm_state (TSM_List ?s2 ! index) = TSM_STATE_IDLE"
    using n(5,6) i(2) by (simp_all add: blob_view_def)
  then have st: "tsm_state (TSM_List ?s2 ! index) \<in> {TSM_STATE_IDLE, TSM_STATE_SEGMENTED_REQUEST_SERVER}"
    by simp
  obtain d' src' out where new: "new_segment_received env index iid (wire_address src) (segment_header pid w n k) (Some x) ?s2
      = Some (\<not> more_follows (segment_header pid w n k),
          Some (if more_follows (segment_header pid w n k) then x else bs @ x), src',
          log_sent out (upd_slot ?s2 index (\<lambda>_. d')))" "tsm_state d' = TSM_STATE_IDLE"
    using new_segment_appends [OF inv2 i(1) mem len k st d(1,2) nonempty,
        of iid "wire_address src" "segment_header pid w n k"] unfolding d(3) by metis
  have "sent s1 = sent s" by (simp add: s1_def)
  with new late i show ?thesis
    by (simp add: n(8))
qed

definition one_received_default :: TSM where
  "one_received_default = one_received\<lparr>config := default_config\<rparr>"

theorem default_timeouts_abort_request_witness:
  "\<exists>r req src' s'. tsm_set_segmented_confirmed_service_received quiet_env zero_address
      (segment_header 7 4 2 1) (Some [1]) one_received_default = Some (r, 1, req, src', s') \<and>
    tsm_state (TSM_List s' ! 0) = TSM_STATE_IDLE"
proof -
  have "receiving one_received_default zero_address 7 0 1 1 [9]"
    using one_received_receiving(1) serving_cong [of one_received_default one_received]
    by (simp add: one_received_default_def receiving_def)
  from default_timeouts_abort_request [OF this, of quiet_env "[1]" 4 2] show ?thesis
    by (auto simp: one_received_default_def MAX_APDU_def MAX_SEGMENTS_ACCEPTED_def)
qed

text \<open>
  C13. With an APDU timeout of at least four times the segment timeout, which the default values do
  not satisfy (with them the request is aborted at its second segment and its transaction is not
  released), a request of more segments than the server accepts is refused: the 26th segment is
  answered with Abort, reason buffer-overflow, and the transaction with its buffer and the entry
  of the peer are released.
\<close>

theorem too_many_segments_aborted:
  assumes rc: "receiving s src pid index iid MAX_SEGMENTS_ACCEPTED bs" and tm: "timers_compatible s"
  shows "\<exists>req' src' s'. tsm_set_segmented_confirmed_service_received env src
      (segment_header pid w n MAX_SEGMENTS_ACCEPTED) req s = Some (False, iid, req', src', s') \<and>
    sent s' = sent s @ [short_pdu env src (abort_encode_apdu pid (of_int ABORT_REASON_BUFFER_OVERFLOW) True)] \<and>
    held_ids s' = held_ids s - {iid} \<and> apdu_blob (TSM_List s' ! index) = None \<and>
    (\<forall>p \<in> set (TSM_Peer_Ids s'). InternalInvokeID p \<noteq> iid)"
proof -
  define s1 where "s1 = upd_slot s index (\<lambda>d. d\<lparr>RequestTimer := 0, SegmentTimer := apdu_segment_timeout s * 4\<rparr>)"
  let ?g = "\<lambda>d. (free_blob (d\<lparr>ReceivedSegmentsCount := ReceivedSegmentsCount d + 1\<rparr>))\<lparr>tsm_state := TSM_STATE_IDLE\<rparr>"
  let ?out = "[short_pdu env src (abort_encode_apdu pid (of_int ABORT_REASON_BUFFER_OVERFLOW) True)]"
  note n = next_segment_dispatch [OF rc, folded s1_def]
  have i: "index < length (TSM_List s1)" using n(3) by (simp add: s1_def)
  have iid: "iid \<noteq> 0" "InvokeID (TSM_List s ! index) = iid"
    using rc find_invokeID_nth [of s iid] by (auto simp: receiving_def serving_def)
  define s2 where "s2 = log_sent ?out (upd_slot s1 index ?g)"
  have new: "new_segment_received env index iid src (segment_header pid w n MAX_SEGMENTS_ACCEPTED) req s1
      = Some (False, req, wire_address src, tsm_free_invoke_id_check iid None True s2)"
    using n(5) i
    by (simp add: new_segment_received_def Let_def upd_slot_upd_slot upd_slot_log_sent s2_def
        segment_header_def MAX_SEGMENTS_ACCEPTED_def)
  have inv2: "tsm_inv s2"
    using n(1) by (simp add: s2_def upd_slot_keeps slot_inv_def free_blob_def blob_ok_defs)
  have i2: "index < length (TSM_List s2)" "InvokeID (TSM_List s2 ! index) = iid"
    using i iid(2) n(7) by (simp_all add: s2_def)
  note fr = free_check_list [OF tsm_inv_ids [OF inv2] i2 iid(1), of None]
  have ids: "map InvokeID (TSM_List s2) = map InvokeID (TSM_List s)"
    using list_update_id [of "map InvokeID (TSM_List s)" index] n(3) by (simp add: s2_def s1_def map_update)
  then have "ids_unique (map InvokeID (TSM_List s2))" using tsm_inv_ids [OF inv2] by (simp add: invoke_ids_ok_def)
  from set_update_clear [OF this, of index] i2 ids n(3) iid(2)
  have held: "set (map InvokeID ((TSM_List s2)[index := free_blob ((TSM_List s2 ! index)
        \<lparr>tsm_state := TSM_STATE_IDLE, InvokeID := 0\<rparr>)])) - {0} = held_ids s - {iid}"
    by (simp add: held_ids_def map_update del: set_map)
  let ?s' = "tsm_free_invoke_id_check iid None True s2"
  have "sent ?s' = sent s @ ?out" using fr(3) by (simp add: s2_def s1_def)
  moreover have "held_ids ?s' = held_ids s - {iid}" using fr(1) held by (simp add: held_ids_def)
  moreover have "apdu_blob (TSM_List ?s' ! index) = None" using fr(1) i2 by (simp add: free_blob_def)
  moreover have "\<forall>p \<in> set (TSM_Peer_Ids ?s'). InternalInvokeID p \<noteq> iid"
    using fr(4) iid(1) by (auto simp: tsm_clear_peer_id_def)
  ultimately show ?thesis using new tm by (simp add: n(8))
qed

text \<open>A state in which a peer has sent as many segments as the server accepts.\<close>

definition many_received :: TSM where
  "many_received = upd_slot one_received 0 (\<lambda>d. d\<lparr>ReceivedSegmentsCount := 25, LastSequenceNumber := 24\<rparr>)"

theorem too_many_segments_aborted_witness:
  "\<exists>req' src' s'. tsm_set_segmented_confirmed_service_received quiet_env zero_address
      (segment_header 7 4 99 MAX_SEGMENTS_ACCEPTED) None many_received = Some (False, 1, req', src', s') \<and>
    held_ids s' = held_ids many_received - {1}"
proof -
  have slots: "TSM_List one_received \<noteq> []" by (simp add: one_received_def tsm_start_def)
  have "slot_inv (TSM_List many_received ! 0)"
    by (simp add: many_received_def one_received_def tsm_start_def zero_transaction_def slot_inv_def
        blob_ok_defs BLOB_CAP_value MAX_APDU_def MAX_SEGMENTS_ACCEPTED_def)
  then have "tsm_inv many_received"
    using one_received_receiving(1)
    by (simp add: many_received_def receiving_def upd_slot_keeps one_received_def tsm_start_def)
  then have "receiving many_received zero_address 7 0 1 MAX_SEGMENTS_ACCEPTED [9]"
    using one_received_receiving(1) slots
    by (simp add: receiving_def many_received_def serving_upd_slot blob_view_def
        MAX_SEGMENTS_ACCEPTED_def)
  moreover have "timers_compatible many_received"
    using one_received_receiving(2) by (simp add: many_received_def timers_compatible_def)
  ultimately show ?thesis using too_many_segments_aborted [of many_received zero_address 7 0 1 "[9]" quiet_env 4 99 None]
    by blast
qed

text \<open>
  The result of \<^verbatim>\<open>calloc\<close> is not tested when a segment is stored: if the segment does not fit into the
  buffer of its transaction and the larger buffer cannot be allocated, the call copies through the
  NULL pointer.
\<close>

lemma failed_allocation_undefined:
  assumes rc: "receiving s src pid index iid k bs" and "k < MAX_SEGMENTS_ACCEPTED"
    and x: "x \<noteq> []" "length x \<le> MAX_APDU"
    and big: "apdu_blob_allocated (TSM_List s ! index) < of_nat (length x) + apdu_blob_size (TSM_List s ! index)"
    and fails: "\<not> calloc_ok env (apdu_blob_allocated (TSM_List s ! index) + of_nat (length x))"
  shows "tsm_set_segmented_confirmed_service_received env src (segment_header pid w n k) (Some x) s = None"
proof -
  define s1 where "s1 = upd_slot s index (\<lambda>d. d\<lparr>RequestTimer := 0, SegmentTimer := apdu_segment_timeout s * 4\<rparr>)"
  note n = next_segment_dispatch [OF rc, folded s1_def]
  have i: "index < length (TSM_List s1)" using n(3) by (simp add: s1_def)
  have len: "length x < 2 ^ 32" using x(2) by (simp add: MAX_APDU_def)
  have k: "\<not> of_nat MAX_SEGMENTS_ACCEPTED < (of_nat k + 1 :: u32)"
    using assms(2) of_nat_less_u32 [of MAX_SEGMENTS_ACCEPTED "k + 1"] by (simp add: MAX_SEGMENTS_ACCEPTED_def add.commute)
  have "new_segment_received env index iid src' (segment_header pid w n k) (Some x) s2 = None"
    if "index < length (TSM_List s2)" "ReceivedSegmentsCount (TSM_List s2 ! index) = of_nat k"
      "apdu_blob_allocated (TSM_List s2 ! index) = apdu_blob_allocated (TSM_List s ! index)"
      "apdu_blob_size (TSM_List s2 ! index) = apdu_blob_size (TSM_List s ! index)" for s2 src'
    using that k add_blob_data_fails [OF x(1) len, of _ env] big fails by (simp add: new_segment_received_def Let_def)
  from this [of s1] this [of "upd_slot (log_sent _ s1) index _"] show ?thesis
    unfolding n(8) using i n(3,5) by (simp add: s1_def)
qed

lemma failed_allocation_undefined_witness:
  "tsm_set_segmented_confirmed_service_received (quiet_env\<lparr>calloc_ok := \<lambda>_. False\<rparr>) zero_address
     (segment_header 7 4 9 1) (Some [1]) one_received = None"
  by (rule failed_allocation_undefined [OF one_received_receiving(1)])
    (simp_all add: MAX_SEGMENTS_ACCEPTED_def MAX_APDU_def one_received_def tsm_start_def zero_transaction_def)

text \<open>
  A first segment that proposes a window of 0 or more than 127 segments is refused with Abort,
  reason window-size-out-of-range, but the transaction and the entry of the peer stay
  allocated: the identifier is still held after the call.
\<close>

lemma bad_window_leaks_transaction:
  assumes inv: "tsm_inv s" and sv: "serving s src pid index iid"
    and st: "tsm_state (TSM_List s ! index) = TSM_STATE_IDLE" and w: "w = 0 \<or> 127 < w"
  shows "\<exists>s'. tsm_set_segmented_confirmed_service_received env src (segment_header pid w n 0) req s
      = Some (False, iid, req, wire_address src, s') \<and>
    sent s' = sent s @ [short_pdu env src (abort_encode_apdu pid
      (of_int ABORT_REASON_WINDOW_SIZE_OUT_OF_RANGE) True)] \<and>
    serving s' src pid index iid \<and> iid \<in> held_ids s'"
proof -
  have ix: "tsm_find_invokeID_index s iid = index" "iid \<noteq> 0" "index < length (TSM_List s)"
    using sv by (simp_all add: serving_def)
  let ?s = "upd_slot (log_sent [short_pdu env src (abort_encode_apdu pid
      (of_int ABORT_REASON_WINDOW_SIZE_OUT_OF_RANGE) True)]
      (upd_slot s index (fresh_request w (apdu_segment_timeout s * 4)))) index (\<lambda>d. d\<lparr>tsm_state := TSM_STATE_IDLE\<rparr>)"
  have eq: "tsm_set_segmented_confirmed_service_received env src (segment_header pid w n 0) req s
      = Some (False, iid, req, wire_address src, ?s)"
    using ix st w serving_get_peer [OF sv]
    by (simp add: tsm_set_segmented_confirmed_service_received_def segment_in_idle_def' Let_def
        segment_header_def)
  have sv': "serving ?s src pid index iid"
    using sv ix(3) fresh_request_inv(3) [OF tsm_inv_slot [OF inv ix(3)]]
    by (simp add: serving_upd_slot)
  then have "iid \<in> held_ids ?s"
    using find_invokeID_held [OF ix(2), of ?s] by (simp add: serving_def)
  with eq sv' show ?thesis by simp
qed

definition peer_known :: TSM where
  "peer_known = (upd_slot (tsm_start 1 1) 0 (\<lambda>d. d\<lparr>InvokeID := 1\<rparr>))
     \<lparr>TSM_Peer_Ids := [\<lparr>PeerAddress = zero_address, PeerInvokeID = 7, InternalInvokeID = 1\<rparr>]\<rparr>"

lemma bad_window_leaks_transaction_witness:
  "\<exists>s'. tsm_set_segmented_confirmed_service_received quiet_env zero_address (segment_header 7 0 2 0) None
      peer_known = Some (False, 1, None, zero_address, s') \<and> 1 \<in> held_ids s'"
proof -
  have "tsm_inv peer_known" "serving peer_known zero_address 7 0 1"
      "tsm_state (TSM_List peer_known ! 0) = TSM_STATE_IDLE"
    by (simp_all add: tsm_inv_def invoke_ids_ok_def ids_unique_def peer_known_def tsm_start_def
        zero_transaction_def slot_inv_def blob_ok_defs serving_def peer_matches_def
        tsm_find_invokeID_index_def)
  from bad_window_leaks_transaction [OF this, of 0 quiet_env 2 None] show ?thesis
    by (auto simp: wire_address_def zero_address_def)
qed

end
