(* ===== verification/Bac_Tsm_Deliver.thy ===== *)
theory Bac_Tsm_Deliver
  imports Bac_Tsm_Receive
begin

text \<open>
  Delivery of a segmented response: the segments a transaction sends, window by window, as the
  peer acknowledges them, are the whole response in order, and the last acknowledgement
  releases the transaction.
\<close>

section \<open>A transaction that delivers\<close>

text \<open>
  The transaction of a peer is sending a response of \<open>n\<close> segments; its window starts at segment
  \<open>q\<close> and holds \<open>a\<close> segments, and segment \<open>k\<close> looks like \<open>pd k\<close> on the wire.
\<close>

definition delivering ::
  "TSM_ENV \<Rightarrow> TSM \<Rightarrow> BACNET_ADDRESS \<Rightarrow> u8 \<Rightarrow> nat \<Rightarrow> u8 \<Rightarrow> nat \<Rightarrow> nat \<Rightarrow> nat \<Rightarrow> (nat \<Rightarrow> sent_pdu) \<Rightarrow> bool" where
  "delivering env s src pid index iid n q a pd \<longleftrightarrow>
     tsm_inv s \<and> serving s src pid index iid \<and>
     tsm_state (TSM_List s ! index) = TSM_STATE_SEGMENTED_RESPONSE_SERVER \<and>
     InitialSequenceNumber (TSM_List s ! index) = of_nat q \<and> q < n \<and> n \<le> MAX_SEGMENTS_ACCEPTED \<and>
     unat (ActualWindowSize (TSM_List s ! index)) = a \<and>
     (\<exists>b. response_ok (TSM_List s ! index) b \<and> length (response_segments (TSM_List s ! index) b) = n \<and>
        segment_pdu env (TSM_List s ! index) b = pd)"

lemma response_flags [simp]:
  "response_ok (d\<lparr>SentAllSegments := x, SegmentTimer := t\<rparr>) b = response_ok d b"
  "response_segments (d\<lparr>SentAllSegments := x, SegmentTimer := t\<rparr>) b = response_segments d b"
  "segment_pdu env (d\<lparr>SentAllSegments := x, SegmentTimer := t\<rparr>) b = segment_pdu env d b"
  by (auto simp: response_ok_def response_segments_def segmented_def seg_size_def fun_eq_iff
      segment_pdu_def wire_dest_def npdu_header_def segment_apdu_header_def ack_of_def)

lemma free_check_held:
  assumes ok: "invoke_ids_ok s" and i: "index < length (TSM_List s)"
    and iid: "InvokeID (TSM_List s ! index) = iid" "iid \<noteq> 0"
    and peer: "case peer of None \<Rightarrow> True | Some a \<Rightarrow> bacnet_address_same a (tsm_dest (TSM_List s ! index))"
  shows "held_ids (tsm_free_invoke_id_check iid peer True s) = held_ids s - {iid}"
    "\<forall>p \<in> set (TSM_Peer_Ids (tsm_free_invoke_id_check iid peer True s)). InternalInvokeID p \<noteq> iid"
proof -
  note fr = free_check_list [OF ok i iid peer]
  have "ids_unique (map InvokeID (TSM_List s))" using ok by (simp add: invoke_ids_ok_def)
  from set_update_clear [OF this, of index] i iid(1)
  show "held_ids (tsm_free_invoke_id_check iid peer True s) = held_ids s - {iid}"
    using fr(1) by (simp add: held_ids_def map_update del: set_map)
  show "\<forall>p \<in> set (TSM_Peer_Ids (tsm_free_invoke_id_check iid peer True s)). InternalInvokeID p \<noteq> iid"
    using fr(4) iid(2) by (auto simp: tsm_clear_peer_id_def)
qed

lemma ack_in_window:
  assumes "q \<le> l" "l < q + a" "l < 256"
  shows "unat (of_nat l - of_nat q :: u8) = l - q"
proof -
  have "(of_nat l :: u8) - of_nat q = of_nat (l - q)" using assms(1) by (simp add: of_nat_diff)
  then show ?thesis using assms(3) by (simp add: unat_of_nat)
qed

lemma segmentack_dispatch:
  assumes "delivering env s src pid index iid n q a pd"
  shows "tsm_segmentack_received env pid seq w nak False src s =
      (do { s \<leftarrow> response_acked env index iid seq w s; Some (src, s) })"
    "index < length (TSM_List s)" "InvokeID (TSM_List s ! index) = iid" "iid \<noteq> 0"
proof -
  have sv: "serving s src pid index iid"
      "tsm_state (TSM_List s ! index) = TSM_STATE_SEGMENTED_RESPONSE_SERVER"
    using assms by (simp_all add: delivering_def)
  then show i: "index < length (TSM_List s)" "iid \<noteq> 0" by (simp_all add: serving_def)
  show "InvokeID (TSM_List s ! index) = iid"
    using sv find_invokeID_nth [of s iid] by (simp add: serving_def)
  have "tsm_get_peer_id_data src pid False s = Some (Some (find_index (peer_matches src pid) (TSM_Peer_Ids s)), s)"
    using sv(1) by (simp add: serving_def tsm_get_peer_id_data_def Let_def)
  then show "tsm_segmentack_received env pid seq w nak False src s =
      (do { s \<leftarrow> response_acked env index iid seq w s; Some (src, s) })"
    using sv by (simp add: tsm_segmentack_received_def serving_def Let_def)
qed

text \<open>The segment number an acknowledgement of segment \<open>l\<close> is resolved to.\<close>

lemma ack_resolved:
  assumes dl: "delivering env s src pid index iid n q a pd" and l: "q \<le> l" "l < q + a" "l < n"
  shows "InWindow (TSM_List s ! index) (of_nat l) (InitialSequenceNumber (TSM_List s ! index))"
    "get_apdu_max_segments (TSM_List s ! index) = Some (of_nat n)"
    "ucast (InitialSequenceNumber (TSM_List s ! index)) +
       ucast (of_nat l - InitialSequenceNumber (TSM_List s ! index) :: u8) = (of_nat l :: u32)"
    "of_nat l + 1 < (of_nat n :: u32) \<longleftrightarrow> l + 1 < n"
    "(ucast (of_nat l + 1 :: u32) :: u8) = of_nat (l + 1)"
proof -
  let ?d = "TSM_List s ! index"
  have d: "InitialSequenceNumber ?d = of_nat q" "n \<le> 25" "unat (ActualWindowSize ?d) = a"
    using dl by (simp_all add: delivering_def MAX_SEGMENTS_ACCEPTED_def)
  obtain b where b: "response_ok ?d b" "length (response_segments ?d b) = n"
    using dl by (auto simp: delivering_def)
  have diff: "unat (of_nat l - of_nat q :: u8) = l - q" using ack_in_window [OF l(1,2)] l(3) d(2) by simp
  show "InWindow ?d (of_nat l) (InitialSequenceNumber ?d)"
    using diff l d by (simp add: InWindow_def word_less_nat_alt)
  show "get_apdu_max_segments ?d = Some (of_nat n)" using get_apdu_max_segments_response [OF b(1)] b(2) by simp
  have u: "(ucast (x :: u8) :: u32) = of_nat (unat x)" for x by simp
  have q: "unat (of_nat q :: u8) = q" using l d(2) by (simp add: unat_of_nat)
  show "ucast (InitialSequenceNumber ?d) + ucast (of_nat l - InitialSequenceNumber ?d :: u8) = (of_nat l :: u32)"
    unfolding d(1) u diff q using l(1) by (simp flip: of_nat_add)
  have l1: "of_nat l + 1 = (of_nat (l + 1) :: u32)" by simp
  show "of_nat l + 1 < (of_nat n :: u32) \<longleftrightarrow> l + 1 < n"
    unfolding l1 using l(3) d(2) by (intro of_nat_less_u32) simp_all
  show "(ucast (of_nat l + 1 :: u32) :: u8) = of_nat (l + 1)"
    unfolding l1 using l(3) d(2) by (intro ucast_of_nat_u8) simp
qed

text \<open>Acknowledging the last segment releases the transaction.\<close>

lemma final_ack:
  assumes dl: "delivering env s src pid index iid n q a pd" and l: "q \<le> l" "l < q + a" "l < n" "n \<le> l + 1"
  shows "\<exists>s'. tsm_segmentack_received env pid (of_nat l) w nak False src s = Some (src, s') \<and>
    tsm_inv s' \<and> sent s' = sent s \<and> held_ids s' = held_ids s - {iid} \<and>
    (\<forall>p \<in> set (TSM_Peer_Ids s'). InternalInvokeID p \<noteq> iid)"
proof -
  note dsp = segmentack_dispatch [OF dl] and res = ack_resolved [OF dl l(1-3)]
  have inv: "tsm_inv s" using dl by (simp add: delivering_def)
  let ?s = "upd_slot s index (\<lambda>d. d\<lparr>SegmentTimer := 0, tsm_state := TSM_STATE_IDLE\<rparr>)"
  have inv': "tsm_inv ?s"
    using inv slot_inv_idle [OF slot_inv_timer(1) [OF tsm_inv_slot [OF inv dsp(2)]]]
    by (intro upd_slot_keeps) simp_all
  have i: "index < length (TSM_List ?s)" "InvokeID (TSM_List ?s ! index) = iid" using dsp by simp_all
  have ids: "map InvokeID (TSM_List ?s) = map InvokeID (TSM_List s)"
    using dsp list_update_id [of "map InvokeID (TSM_List s)" index] by (simp add: map_update)
  then have held: "held_ids ?s = held_ids s" by (metis held_ids_def)
  note fr = free_check_held [OF tsm_inv_ids [OF inv'] i dsp(4), of None]
    free_check_list [OF tsm_inv_ids [OF inv'] i dsp(4), of None]
  have "response_acked env index iid (of_nat l) w s = Some (tsm_free_invoke_id_check iid None True ?s)"
    using res l(4) by (simp add: response_acked_def Let_def)
  then show ?thesis
    using dsp(1) fr held free_invoke_id_check_keeps [OF inv'] by simp
qed


text \<open>An earlier acknowledgement moves the window and sends the segments it now allows.\<close>

lemma window_ack:
  assumes dl: "delivering env s src pid index iid n q a pd" and l: "q \<le> l" "l < q + a" "l + 1 < n"
  shows "\<exists>s'. tsm_segmentack_received env pid (of_nat l) w nak False src s = Some (src, s') \<and>
    delivering env s' src pid index iid n (l + 1) (unat w) pd \<and>
    sent s' = sent s @ map pd [l + 1..<min (l + 1 + unat w) n] \<and> held_ids s' = held_ids s"
proof -
  let ?d = "TSM_List s ! index"
  note dsp = segmentack_dispatch [OF dl] and res = ack_resolved [OF dl l(1,2) Suc_lessD [OF l(3) [simplified]]]
  have inv: "tsm_inv s" "tsm_state ?d = TSM_STATE_SEGMENTED_RESPONSE_SERVER" "n \<le> 25" "serving s src pid index iid"
    using dl by (simp_all add: delivering_def MAX_SEGMENTS_ACCEPTED_def)
  obtain b where b: "response_ok ?d b" "length (response_segments ?d b) = n" "segment_pdu env ?d b = pd"
    using dl by (auto simp: delivering_def)
  let ?f = "\<lambda>d. d\<lparr>InitialSequenceNumber := of_nat (l + 1), ActualWindowSize := w,
      SegmentRetryCount := apdu_retries s, SegmentTimer := apdu_segment_timeout s\<rparr>"
  have ul: "unat (of_nat (l + 1) :: u8) = l + 1" using l(3) inv(3) by (simp add: unat_of_nat del: of_nat_add of_nat_Suc)
  have fd: "response_ok (?f ?d) b" "response_segments (?f ?d) b = response_segments ?d b"
      "segment_pdu env (?f ?d) b = pd" "segmented (?f ?d) b = segmented ?d b"
    using b(1) b(3)[symmetric] by (auto simp: response_ok_def response_segments_def segmented_def seg_size_def fun_eq_iff
        segment_pdu_def wire_dest_def npdu_header_def segment_apdu_header_def ack_of_def)
  define s1 where "s1 = upd_slot s index ?f"
  have s1: "TSM_List s1 ! index = ?f ?d" "length (TSM_List s1) = length (TSM_List s)" "config s1 = config s"
      "sent s1 = sent s"
    using dsp(2) by (simp_all add: s1_def)
  have isn: "InitialSequenceNumber (?f ?d) = of_nat (l + 1)" by simp
  have wide: "(ucast (x :: u8) :: u32) = of_nat (unat x)" for x by simp
  have u: "(ucast (InitialSequenceNumber (?f ?d)) :: u32) = of_nat (l + 1)"
    by (simp only: isn wide ul)
  have "l + 1 \<le> 255" using l(3) inv(3) by simp
  from FillWindow_response [OF fd(1) this, of env] obtain d' x where
    d': "FillWindow env (?f ?d) (of_nat (l + 1)) = Some (d'\<lparr>SentAllSegments := x\<rparr>,
          map pd [l + 1..<min (l + 1 + unat w) n])" "resent b (?f ?d) d'"
    using fd(2,3) b(2) by auto
  note r = resent_fields [OF d'(2)]
  let ?out = "map pd [l + 1..<min (l + 1 + unat w) n]"
  let ?d' = "d'\<lparr>SentAllSegments := x, SegmentTimer := apdu_segment_timeout s\<rparr>"
  have acked: "response_acked env index iid (of_nat l) w s = Some (log_sent ?out (upd_slot s index (\<lambda>_. ?d')))"
    using res(1-3) res(4,5) l(3) dsp(2) d'(1) s1 u
    by (simp add: response_acked_def fill_slot_def Let_def upd_slot_log_sent upd_slot_upd_slot flip: s1_def)
  have "tsm_inv (log_sent ?out (upd_slot s index (\<lambda>_. ?d')))"
    using response_acked_keeps [OF inv(1) dsp(2) inv(2), of env iid "of_nat l" w] acked by simp
  moreover have ids: "InvokeID ?d' = InvokeID ?d" using r(1) by simp
  ultimately have "delivering env (log_sent ?out (upd_slot s index (\<lambda>_. ?d'))) src pid index iid n (l + 1) (unat w) pd"
    using inv r b fd dsp(2) l(3) dl
    by (auto simp: delivering_def serving_upd_slot fun_eq_iff intro!: exI [of _ b])
  moreover have "held_ids (log_sent ?out (upd_slot s index (\<lambda>_. ?d'))) = held_ids s"
    using ids dsp(2) list_update_id [of "map InvokeID (TSM_List s)" index]
    by (simp add: held_ids_def map_update del: set_map)
  ultimately show ?thesis using dsp(1) acked by simp
qed


section \<open>A whole response\<close>

text \<open>
  The segments a peer acknowledges that answers every window of \<open>w\<close> segments with its last
  segment, when segment \<open>l\<close> is the last one it has received.
\<close>

function ack_points :: "nat \<Rightarrow> nat \<Rightarrow> nat \<Rightarrow> nat list" where
  "ack_points w n l =
     (if n \<le> l + 1 \<or> w = 0 then [l] else l # ack_points w n (min (l + w) (n - 1)))"
  by auto
termination by (relation "measure (\<lambda>(w, n, l). n - l)") auto

declare ack_points.simps [simp del]

fun ack_run :: "TSM_ENV \<Rightarrow> BACNET_ADDRESS \<Rightarrow> u8 \<Rightarrow> u8 \<Rightarrow> nat list \<Rightarrow> TSM \<Rightarrow> TSM option" where
  "ack_run env src pid w [] s = Some s"
| "ack_run env src pid w (l # ls) s = do {
     (_, s) \<leftarrow> tsm_segmentack_received env pid (of_nat l) w False False src s;
     ack_run env src pid w ls s }"

lemma ack_run_delivers:
  assumes "delivering env s src pid index iid n q a pd" "q \<le> l" "l < q + a" "l < n" "0 < w"
  shows "\<exists>s'. ack_run env src pid w (ack_points (unat w) n l) s = Some s' \<and> tsm_inv s' \<and>
    sent s' = sent s @ map pd [l + 1..<n] \<and> held_ids s' = held_ids s - {iid} \<and>
    (\<forall>p \<in> set (TSM_Peer_Ids s'). InternalInvokeID p \<noteq> iid)"
  using assms
proof (induction "n - l" arbitrary: s q a l rule: less_induct)
  case less
  have w: "0 < unat w" using less.prems(5) by (simp add: word_less_nat_alt)
  show ?case
  proof (cases "n \<le> l + 1")
    case True
    then obtain s' where "tsm_segmentack_received env pid (of_nat l) w False False src s = Some (src, s')"
        "tsm_inv s'" "sent s' = sent s" "held_ids s' = held_ids s - {iid}"
        "\<forall>p \<in> set (TSM_Peer_Ids s'). InternalInvokeID p \<noteq> iid"
      using final_ack [OF less.prems(1-4), of w False] by blast
    with True show ?thesis by (simp add: ack_points.simps [of _ _ l])
  next
    case False
    let ?l = "min (l + unat w) (n - 1)"
    obtain s1 where s1: "tsm_segmentack_received env pid (of_nat l) w False False src s = Some (src, s1)"
        "delivering env s1 src pid index iid n (l + 1) (unat w) pd"
        "sent s1 = sent s @ map pd [l + 1..<min (l + 1 + unat w) n]" "held_ids s1 = held_ids s"
      using window_ack [OF less.prems(1-3), of w False] False by auto
    have m: "n - ?l < n - l" "l + 1 \<le> ?l" "?l < l + 1 + unat w" "?l < n"
      using False w by (auto simp: min_def)
    obtain s' where s': "ack_run env src pid w (ack_points (unat w) n ?l) s1 = Some s'" "tsm_inv s'"
        "sent s' = sent s1 @ map pd [?l + 1..<n]" "held_ids s' = held_ids s1 - {iid}"
        "\<forall>p \<in> set (TSM_Peer_Ids s'). InternalInvokeID p \<noteq> iid"
      using less.hyps [OF m(1) s1(2) m(2-4) less.prems(5)] by blast
    have "?l + 1 = min (l + 1 + unat w) n" using False by simp
    moreover have "[l + 1..<min (l + 1 + unat w) n] @ [min (l + 1 + unat w) n..<n] = [l + 1..<n]"
      using False by (metis add_leD1 le_add1 min.bounded_iff min.cobounded2 nat_le_linear upt_add_eq_append le_add_diff_inverse not_less_eq_eq Suc_eq_plus1 nle_le)
    ultimately have "sent s' = sent s @ map pd [l + 1..<n]"
      using s'(3) s1(3) by (simp flip: map_append)
    with s' s1 False w show ?thesis by (simp add: ack_points.simps [of _ _ l])
  qed
qed


section \<open>Starting a response\<close>

text \<open>
  What \<^verbatim>\<open>tsm_set_complexack_transaction\<close> does with a response of a given length for a peer whose
  maximum APDU is \<open>m\<close>: one APDU, several segments, or more than the peer can take.
\<close>

definition response_limit :: "BACNET_CONFIRMED_SERVICE_DATA \<Rightarrow> nat" where
  "response_limit csd = unat (snd (bacnet_calc_transmittable_length (initial_cache 0) zero_address (Some csd)))"

lemma response_limit:
  "unat (snd (bacnet_calc_transmittable_length cache dst (Some csd))) = response_limit csd"
  by (simp add: response_limit_def bacnet_calc_transmittable_length_def)

text \<open>Segment \<open>k\<close> of a response as it is handed to the data link.\<close>

definition wire_segment ::
  "TSM_ENV \<Rightarrow> BACNET_ADDRESS \<Rightarrow> BACNET_NPDU_DATA \<Rightarrow> BACNET_APDU_FIXED_HEADER
   \<Rightarrow> BACNET_CONFIRMED_SERVICE_DATA \<Rightarrow> bytes \<Rightarrow> nat \<Rightarrow> sent_pdu" where
  "wire_segment env dst np h csd pdu k =
     (let n = segments_needed (max_resp csd) (length pdu);
          ack = (case service_data h of Ack_Data a \<Rightarrow> a | Request_Data r \<Rightarrow> zero_ack_data)
      in (dst, np, fst (npdu_encode_pdu (Some dst) (Some (my_address env)) np)
          @ [PDU_TYPE_COMPLEX_ACK OR (if k + 1 < n then 0x04 else 0x00) OR 0x08,
             ack_invoke_id ack, of_nat k, DEFAULT_WINDOW_SIZE, service_choice h]
          @ pieces (nat (max_resp csd) - 5) pdu ! k))"

lemma segments_overflow_test:
  assumes args: "response_args_ok dst h csd pdu" and mem: "memory_available env"
    and m: "max_resp csd \<noteq> 0" and long: "max_resp csd < int (length pdu) + 3"
    and d: "d = prepare_response env dst n h csd pdu r d0"
  shows "get_apdu_max_segments d = Some (of_nat (segments_needed (max_resp csd) (length pdu)))"
    "(of_nat (segments_needed (max_resp csd) (length pdu)) :: u32) \<noteq> 1"
    "maximum_transmittable_length d < of_nat (length pdu) +
        of_nat (segments_needed (max_resp csd) (length pdu)) * get_apdu_header_typical_size h True \<longleftrightarrow>
      response_limit csd < length pdu + 5 * segments_needed (max_resp csd) (length pdu)"
proof -
  let ?L = "length pdu" and ?m = "max_resp csd" and ?N = "segments_needed (max_resp csd) (length pdu)"
  note f = prepare_response_fields [OF args mem, of n r d0, folded d]
  have a: "pdu_type h = PDU_TYPE_COMPLEX_ACK" "?L < 2 ^ 31" "get_apdu_header_typical_size h True = 5"
    using args by (simp_all add: response_args_ok_def get_apdu_header_typical_size_def)
  have mc: "?m \<in> {50, 128, 206, 480, 1024, 1476}" using args m by (simp add: response_args_ok_def)
  show "get_apdu_max_segments d = Some (of_nat ?N)"
    using max_segments_prepared [OF f(8) mc f(5) a(2)] a(1) f(6) by simp
  define Q where "Q = (?L - 1) div (nat ?m - 5)"
  have "Q \<le> (?L - 1) div 45" unfolding Q_def using mc by (intro div_le_mono2) auto
  moreover have "45 * ((?L - 1) div 45) \<le> ?L - 1" by (rule times_div_less_eq_dividend)
  moreover have N: "?N = Q + 1" using long by (simp add: segments_needed_def Q_def)
  ultimately have "9 * (5 * ?N) \<le> ?L + 45" by linarith
  then have bound: "?L + 5 * ?N < 4294967296" "?N < 4294967296" using a(2) by simp_all
  have "nat ?m - 5 \<le> ?L - 1" "0 < nat ?m - 5" using long mc by auto
  then have "0 < Q" by (simp add: Q_def div_greater_zero_iff)
  then show "(of_nat ?N :: u32) \<noteq> 1"
    using N bound(2) unat_of_nat_u32 [of ?N] by (metis add_cancel_left_left less_not_refl2 of_nat_1 unat_1)
  have "of_nat ?L + of_nat ?N * 5 = (of_nat (?L + 5 * ?N) :: u32)" by (simp add: mult.commute)
  moreover have "unat (of_nat (?L + 5 * ?N) :: u32) = ?L + 5 * ?N" using bound(1) by (rule unat_of_nat_u32)
  ultimately show "maximum_transmittable_length d < of_nat ?L + of_nat ?N * get_apdu_header_typical_size h True \<longleftrightarrow>
      response_limit csd < ?L + 5 * ?N"
    unfolding a(3) f(9) by (simp only: word_less_nat_alt response_limit)
qed


lemma started_segment_pdu:
  assumes args: "response_args_ok dst h csd pdu" and mem: "memory_available env"
    and m: "max_resp csd \<noteq> 0" and long: "max_resp csd < int (length pdu) + 3"
    and d: "d = start_response rt tm (prepare_response env dst np h csd pdu r d0)"
  shows "segment_pdu env d pdu = wire_segment env dst np h csd pdu"
    "length (response_segments d pdu) = segments_needed (max_resp csd) (length pdu)"
proof -
  let ?p = "prepare_response env dst np h csd pdu r d0"
  note f = prepare_response_fields [OF args mem, of np r d0]
  have mc: "max_resp csd \<in> {50, 128, 206, 480, 1024, 1476}" using args m by (simp add: response_args_ok_def)
  obtain a where a: "service_data h = Ack_Data a"
    using args by (auto simp: response_args_ok_def split: apdu_service_data.splits)
  have M: "unat (apdu_maximum_length d) = nat (max_resp csd)" using mc f(8) by (auto simp: d start_response_def)
  have seg: "segmented d pdu" "seg_size d = nat (max_resp csd) - 5"
    using long mc M by (auto simp: segmented_def seg_size_def)
  show n: "length (response_segments d pdu) = segments_needed (max_resp csd) (length pdu)"
    using seg long by (simp add: response_segments_def segments_needed_def)
  have "nat (max_resp csd) - 5 \<le> length pdu - 1" "0 < nat (max_resp csd) - 5" using long mc by auto
  then have n1: "segments_needed (max_resp csd) (length pdu) \<noteq> 1"
    using long by (simp add: segments_needed_def div_greater_zero_iff)
  have dst: "wire_address dst = dst" using args by (simp add: response_args_ok_def wire_address_short)
  have np: "npdu_copy_data x np = np" for x by (cases np) (simp add: npdu_copy_data_def)
  show "segment_pdu env d pdu = wire_segment env dst np h csd pdu"
    using n n1 seg(1) dst f a
    by (simp add: fun_eq_iff segment_pdu_def wire_segment_def d start_response_def wire_dest_def npdu_header_def
        segment_apdu_header_def ack_of_def Let_def np response_segments_def flip: seg(2))
qed


text \<open>The call for a new peer, up to the test of the number of segments.\<close>

lemma complexack_new_peer:
  assumes inv: "tsm_inv s" and args: "response_args_ok dst h csd pdu" and mem: "memory_available env"
    and room: "0 < free_slots s" "\<exists>p \<in> set (TSM_Peer_Ids s). InternalInvokeID p = 0"
      "\<forall>p \<in> set (TSM_Peer_Ids s). \<not> peer_matches dst (invoke_id csd) p"
    and m: "max_resp csd \<noteq> 0" and long: "max_resp csd < int (length pdu) + 3"
  obtains iid s1 index d where "tsm_inv s1" "serving s1 dst (invoke_id csd) index iid" "iid \<notin> held_ids s"
    "held_ids s1 = insert iid (held_ids s)" "sent s1 = sent s"
    "d = prepare_response env dst np h csd pdu (apdu_retries s1) (TSM_List s1 ! index)"
    "response_limit csd < length pdu + 5 * segments_needed (max_resp csd) (length pdu) \<longrightarrow>
      tsm_set_complexack_transaction env dst np h csd pdu s =
        Some (-2, dst, tsm_free_invoke_id_check iid (Some dst) True
          (log_sent [short_pdu env dst (abort_encode_apdu (invoke_id csd) (of_int ABORT_REASON_BUFFER_OVERFLOW) True)]
            (upd_slot s1 index (\<lambda>_. free_blob d))))"
    "\<not> response_limit csd < length pdu + 5 * segments_needed (max_resp csd) (length pdu) \<longrightarrow>
      tsm_set_complexack_transaction env dst np h csd pdu s = (do {
        (bytes_sent, d, out) \<leftarrow> tsm_pdu_send env (start_response (apdu_retries s1) (apdu_segment_timeout s1) d) 0;
        let s = log_sent out (upd_slot s1 index (\<lambda>_. d));
        Some (bytes_sent, dst, if bytes_sent \<le> 0 then tsm_free_invoke_id_check iid (Some dst) True s else s) })"
proof -
  obtain iid s1 where s1: "tsm_get_peer_id dst (invoke_id csd) s = Some (iid, s1)" "tsm_inv s1"
      "serving s1 dst (invoke_id csd) (tsm_find_invokeID_index s1 iid) iid" "iid \<notin> held_ids s"
      "sent s1 = sent s" "held_ids s1 = insert iid (held_ids s)"
    using new_peer_served [OF inv room] by metis
  let ?i = "tsm_find_invokeID_index s1 iid"
  have i: "iid \<noteq> 0" "?i < length (TSM_List s1)" using s1(3) by (simp_all add: serving_def)
  define d where "d = prepare_response env dst np h csd pdu (apdu_retries s1) (TSM_List s1 ! ?i)"
  note t = segments_overflow_test [OF args mem m long d_def]
  have wd: "wire_address dst = dst" using args by (simp add: response_args_ok_def wire_address_short)
  obtain a where a: "service_data (apdu_fixed_header d) = Ack_Data a"
    using args prepare_response_fields(6) [OF args mem, of np "apdu_retries s1" "TSM_List s1 ! ?i", folded d_def]
    by (auto simp: response_args_ok_def split: apdu_service_data.splits)
  show ?thesis
  proof (rule that [OF s1(2,3,4,6,5) d_def]; rule impI)
    assume "response_limit csd < length pdu + 5 * segments_needed (max_resp csd) (length pdu)"
    then show "tsm_set_complexack_transaction env dst np h csd pdu s =
        Some (-2, dst, tsm_free_invoke_id_check iid (Some dst) True
          (log_sent [short_pdu env dst (abort_encode_apdu (invoke_id csd) (of_int ABORT_REASON_BUFFER_OVERFLOW) True)]
            (upd_slot s1 ?i (\<lambda>_. free_blob d))))"
      using s1(1) i t wd by (simp add: tsm_set_complexack_transaction_def Let_def flip: d_def)
  next
    assume "\<not> response_limit csd < length pdu + 5 * segments_needed (max_resp csd) (length pdu)"
    then show "tsm_set_complexack_transaction env dst np h csd pdu s = (do {
        (bytes_sent, d, out) \<leftarrow> tsm_pdu_send env (start_response (apdu_retries s1) (apdu_segment_timeout s1) d) 0;
        let s = log_sent out (upd_slot s1 ?i (\<lambda>_. d));
        Some (bytes_sent, dst, if bytes_sent \<le> 0 then tsm_free_invoke_id_check iid (Some dst) True s else s) })"
      using s1(1) i t set_common_window_start [OF a]
      by (cases "tsm_pdu_send env (start_response (apdu_retries s1) (apdu_segment_timeout s1) d) 0")
        (auto simp: tsm_set_complexack_transaction_def Let_def start_response_def simp flip: d_def)
  qed
qed


lemma response_starts:
  assumes inv: "tsm_inv s" and args: "response_args_ok dst h csd pdu" and mem: "memory_available env"
    and room: "0 < free_slots s" "\<exists>p \<in> set (TSM_Peer_Ids s). InternalInvokeID p = 0"
      "\<forall>p \<in> set (TSM_Peer_Ids s). \<not> peer_matches dst (invoke_id csd) p"
    and m: "max_resp csd \<noteq> 0" and long: "max_resp csd < int (length pdu) + 3"
    and fits: "length pdu + 5 * segments_needed (max_resp csd) (length pdu) \<le> response_limit csd"
    and link: "\<And>a n p. 0 < datalink_send_pdu env a n p"
  obtains r s' index iid where "tsm_set_complexack_transaction env dst np h csd pdu s = Some (r, dst, s')" "0 < r"
    "delivering env s' dst (invoke_id csd) index iid (segments_needed (max_resp csd) (length pdu)) 0 1
      (wire_segment env dst np h csd pdu)"
    "sent s' = sent s @ [wire_segment env dst np h csd pdu 0]" "iid \<notin> held_ids s"
    "held_ids s' = insert iid (held_ids s)"
proof -
  obtain iid s1 index d where c: "tsm_inv s1" "serving s1 dst (invoke_id csd) index iid" "iid \<notin> held_ids s"
    "held_ids s1 = insert iid (held_ids s)" "sent s1 = sent s"
    "d = prepare_response env dst np h csd pdu (apdu_retries s1) (TSM_List s1 ! index)"
    "\<not> response_limit csd < length pdu + 5 * segments_needed (max_resp csd) (length pdu) \<longrightarrow>
      tsm_set_complexack_transaction env dst np h csd pdu s = (do {
        (bytes_sent, d, out) \<leftarrow> tsm_pdu_send env (start_response (apdu_retries s1) (apdu_segment_timeout s1) d) 0;
        let s = log_sent out (upd_slot s1 index (\<lambda>_. d));
        Some (bytes_sent, dst, if bytes_sent \<le> 0 then tsm_free_invoke_id_check iid (Some dst) True s else s) })"
    by (rule complexack_new_peer [OF inv args mem room m long, of np])
  let ?N = "segments_needed (max_resp csd) (length pdu)" and ?pd = "wire_segment env dst np h csd pdu"
  let ?d = "start_response (apdu_retries s1) (apdu_segment_timeout s1) d"
  have i: "index < length (TSM_List s1)" "InvokeID (TSM_List s1 ! index) = iid"
    using c(2) find_invokeID_nth [of s1 iid] by (auto simp: serving_def)
  note t = segments_overflow_test [OF args mem m long c(6)]
  have nov: "\<not> maximum_transmittable_length d < of_nat (length pdu) +
        of_nat ?N * get_apdu_header_typical_size h True" using t(3) fits by simp
  note st = start_response_inv [OF args mem tsm_inv_slot [OF c(1) i(1)] c(6) t(1,2) nov]
  note pd = started_segment_pdu [OF args mem m long, of ?d "apdu_retries s1" "apdu_segment_timeout s1" np
      "apdu_retries s1" "TSM_List s1 ! index", folded c(6), OF refl]
  let ?d' = "sent_segment ?d ?N 0"
  have snd: "tsm_pdu_send env ?d 0 = Some (datalink_send_pdu env (wire_dest ?d) (npdu_data ?d) (snd (snd (?pd 0))),
      ?d', [?pd 0])"
    using tsm_pdu_send_response [OF st(1) length_response_segments_pos, where env = env] pd by simp
  let ?s = "log_sent [?pd 0] (upd_slot s1 index (\<lambda>_. ?d'))"
  have f: "InvokeID ?d = iid" "tsm_state ?d = TSM_STATE_SEGMENTED_RESPONSE_SERVER" "InitialSequenceNumber ?d = 0"
      "ActualWindowSize ?d = 1"
    using prepare_response_fields [OF args mem, of np "apdu_retries s1" "TSM_List s1 ! index", folded c(6)] i(2)
    by (simp_all add: start_response_def)
  have "slot_inv ?d'" using st f(2) by (intro slot_inv_sent) simp_all
  then have inv': "tsm_inv ?s" using c(1) f(1) i(2) by (simp add: upd_slot_keeps)
  have ids: "InvokeID ?d' = InvokeID (TSM_List s1 ! index)" using f(1) i(2) by simp
  have "resent pdu ?d ?d'" unfolding pd(2) [symmetric] by (rule resent_sent [OF st(1)])
  note r = resent_fields [OF this]
  have link': "\<not> datalink_send_pdu env a n p \<le> 0" for a n p using link [of a n p] by simp
  have N: "?N \<le> MAX_SEGMENTS_ACCEPTED" unfolding pd(2) [symmetric] by (rule st(3))
  have "delivering env ?s dst (invoke_id csd) index iid ?N 0 1 ?pd"
    using inv' c(2) ids f i(1) r(11,12) N pd fun_eq_iff [of "segment_pdu env ?d' pdu" ?pd]
      r(13) [of env] length_response_segments_pos [of ?d pdu]
    by (auto simp: delivering_def serving_upd_slot simp del: length_response_segments_pos intro!: exI [of _ pdu])
  moreover have "held_ids ?s = insert iid (held_ids s)"
    using ids i(1) list_update_id [of "map InvokeID (TSM_List s1)" index] c(4)
    by (simp add: held_ids_def map_update del: set_map)
  moreover have "tsm_set_complexack_transaction env dst np h csd pdu s
      = Some (datalink_send_pdu env (wire_dest ?d) (npdu_data ?d) (snd (snd (?pd 0))), dst, ?s)"
    using c(7) fits snd link' by (simp add: not_less Let_def)
  ultimately show ?thesis using c(3,5) link by (intro that) simp_all
qed


section \<open>Properties\<close>

text \<open>
  C4. Delivery. In every reachable state with a free transaction and a free peer entry, a response
  too long for one APDU of the peer, but within what the peer accepts, is sent completely: the
  first call sends segment 0, and as the peer acknowledges the last segment of every window of \<open>w\<close>
  segments, the segments are sent one after the other, each once. The last acknowledgement
  releases the transaction. The payloads, put together, are the response.
\<close>

theorem segmented_response_delivered:
  assumes "tsm_step\<^sup>*\<^sup>* (tsm_start t p) s" "t \<le> 255" "memory_available env"
    and "\<And>a np p. 0 < datalink_send_pdu env a np p" "response_args_ok dst h csd pdu"
    and "0 < free_slots s" "\<exists>q \<in> set (TSM_Peer_Ids s). InternalInvokeID q = 0"
    and "\<forall>q \<in> set (TSM_Peer_Ids s). \<not> peer_matches dst (invoke_id csd) q"
    and "max_resp csd \<noteq> 0" "max_resp csd < int (length pdu) + 3" "0 < w"
    and "length pdu + 5 * segments_needed (max_resp csd) (length pdu) \<le> response_limit csd"
  defines "n \<equiv> segments_needed (max_resp csd) (length pdu)"
  shows "\<exists>r s1 s2. tsm_set_complexack_transaction env dst np h csd pdu s = Some (r, dst, s1) \<and>
    ack_run env dst (invoke_id csd) w (ack_points (unat w) n 0) s1 = Some s2 \<and>
    sent s2 = sent s @ map (wire_segment env dst np h csd pdu) [0..<n] \<and>
    held_ids s2 = held_ids s \<and> concat (pieces (nat (max_resp csd) - 5) pdu) = pdu \<and>
    length (pieces (nat (max_resp csd) - 5) pdu) = n"
proof -
  let ?pd = "wire_segment env dst np h csd pdu"
  note inv = tsm_reachable_inv [OF assms(1,2)]
  obtain r s1 index iid where s1: "tsm_set_complexack_transaction env dst np h csd pdu s = Some (r, dst, s1)"
      "delivering env s1 dst (invoke_id csd) index iid n 0 1 ?pd" "sent s1 = sent s @ [?pd 0]"
      "iid \<notin> held_ids s" "held_ids s1 = insert iid (held_ids s)"
    using response_starts [OF inv assms(5,3,6-10,12) assms(4), of np] unfolding n_def by metis
  have n: "0 < n" by (simp add: n_def segments_needed_def)
  obtain s2 where "ack_run env dst (invoke_id csd) w (ack_points (unat w) n 0) s1 = Some s2"
      "sent s2 = sent s1 @ map ?pd [1..<n]" "held_ids s2 = held_ids s1 - {iid}"
    using ack_run_delivers [OF s1(2) _ _ n assms(11)] by auto
  moreover have "map ?pd [0..<n] = ?pd 0 # map ?pd [1..<n]" using n by (simp add: upt_conv_Cons)
  moreover have "concat (pieces (nat (max_resp csd) - 5) pdu) = pdu"
    "length (pieces (nat (max_resp csd) - 5) pdu) = n"
    using assms(5,9,10) by (auto simp: response_args_ok_def concat_pieces n_def segments_needed_def)
  ultimately show ?thesis using s1 by auto
qed

definition wide_request :: BACNET_CONFIRMED_SERVICE_DATA where
  "wide_request = zero_service_data\<lparr>segmented_response_accepted := True, max_segs := 4, max_resp := 50,
     invoke_id := 9\<rparr>"

lemma wide_request_limit: "response_limit wide_request = 200"
  by (simp add: response_limit_def bacnet_calc_transmittable_length_def wide_request_def MAX_APDU_def
      MAX_SEGMENTS_ACCEPTED_def)

lemma wide_request_args: "length pdu < 2 ^ 31 \<Longrightarrow> response_args_ok zero_address ack_header wide_request pdu"
  by (simp add: response_args_ok_def ack_header_def zero_address_def wf_address_def wide_request_def)

definition accepting_env :: TSM_ENV where
  "accepting_env = quiet_env\<lparr>datalink_send_pdu := (\<lambda>_ _ pdu. 1)\<rparr>"

theorem segmented_response_delivered_witness:
  "\<exists>r s1 s2. tsm_set_complexack_transaction accepting_env zero_address zero_npdu ack_header wide_request
      (replicate 100 5) (tsm_start 2 2) = Some (r, zero_address, s1) \<and>
    ack_run accepting_env zero_address 9 2 (ack_points 2 3 0) s1 = Some s2 \<and>
    sent s2 = map (wire_segment accepting_env zero_address zero_npdu ack_header wide_request (replicate 100 5)) [0..<3]"
proof -
  let ?s = "tsm_start 2 2" and ?pdu = "replicate 100 5 :: bytes"
  have n: "segments_needed 50 100 = 3" by (simp add: segments_needed_def)
  have "memory_available accepting_env" by (simp add: accepting_env_def quiet_env_def memory_available_def)
  moreover have "0 < datalink_send_pdu accepting_env a np p" for a np p by (simp add: accepting_env_def)
  moreover have "0 < free_slots ?s" "\<exists>q \<in> set (TSM_Peer_Ids ?s). InternalInvokeID q = 0"
      "\<forall>q \<in> set (TSM_Peer_Ids ?s). \<not> peer_matches zero_address (invoke_id wide_request) q"
    using fresh_table_room [of 2 2 ?s] by simp_all
  ultimately show ?thesis
    using segmented_response_delivered [of 2 2 ?s accepting_env zero_address ack_header wide_request ?pdu 2 zero_npdu]
      wide_request_args [of ?pdu] wide_request_limit n
    by (auto simp: wide_request_def tsm_start_def)
qed

text \<open>
  C12. A response that does not fit the segments the peer accepts, headers included, is refused: the
  peer is sent one Abort with reason buffer-overflow, the call returns -2, nothing of the response is
  sent, and the transaction that was taken for it is released again.
\<close>

theorem oversized_response_aborted:
  assumes "tsm_step\<^sup>*\<^sup>* (tsm_start t p) s" "t \<le> 255" "memory_available env" "response_args_ok dst h csd pdu"
    and "0 < free_slots s" "\<exists>q \<in> set (TSM_Peer_Ids s). InternalInvokeID q = 0"
    and "\<forall>q \<in> set (TSM_Peer_Ids s). \<not> peer_matches dst (invoke_id csd) q"
    and "max_resp csd \<noteq> 0" "max_resp csd < int (length pdu) + 3"
    and "response_limit csd < length pdu + 5 * segments_needed (max_resp csd) (length pdu)"
  shows "\<exists>s'. tsm_set_complexack_transaction env dst np h csd pdu s = Some (-2, dst, s') \<and>
    sent s' = sent s @ [short_pdu env dst (abort_encode_apdu (invoke_id csd)
      (of_int ABORT_REASON_BUFFER_OVERFLOW) True)] \<and>
    held_ids s' = held_ids s"
proof -
  note inv = tsm_reachable_inv [OF assms(1,2)]
  let ?out = "[short_pdu env dst (abort_encode_apdu (invoke_id csd) (of_int ABORT_REASON_BUFFER_OVERFLOW) True)]"
  obtain iid s1 index d where c: "tsm_inv s1" "serving s1 dst (invoke_id csd) index iid" "iid \<notin> held_ids s"
    "held_ids s1 = insert iid (held_ids s)" "sent s1 = sent s"
    "d = prepare_response env dst np h csd pdu (apdu_retries s1) (TSM_List s1 ! index)"
    "response_limit csd < length pdu + 5 * segments_needed (max_resp csd) (length pdu) \<longrightarrow>
      tsm_set_complexack_transaction env dst np h csd pdu s =
        Some (-2, dst, tsm_free_invoke_id_check iid (Some dst) True
          (log_sent ?out (upd_slot s1 index (\<lambda>_. free_blob d))))"
    by (rule complexack_new_peer [OF inv assms(4,3,5-9), of np])
  let ?s = "log_sent ?out (upd_slot s1 index (\<lambda>_. free_blob d))"
  have i: "index < length (TSM_List s1)" "InvokeID (TSM_List s1 ! index) = iid" "iid \<noteq> 0"
    using c(2) find_invokeID_nth [of s1 iid] by (auto simp: serving_def)
  note f = prepare_response_fields [OF assms(4,3), of np "apdu_retries s1" "TSM_List s1 ! index", folded c(6)]
  have ids: "map InvokeID (TSM_List ?s) = map InvokeID (TSM_List s1)"
    using f(1) i list_update_id [of "map InvokeID (TSM_List s1)" index] by (simp add: map_update)
  then have ok: "invoke_ids_ok ?s" using tsm_inv_ids [OF c(1)] by (simp add: invoke_ids_ok_def)
  have i': "index < length (TSM_List ?s)" "InvokeID (TSM_List ?s ! index) = iid" using i f(1) by simp_all
  have peer: "case Some dst of None \<Rightarrow> True | Some a \<Rightarrow> bacnet_address_same a (tsm_dest (TSM_List ?s ! index))"
    using i f(3) by (simp add: free_blob_def)
  have "held_ids ?s = held_ids s1" using ids by (metis held_ids_def)
  then show ?thesis
    using free_check_held(1) [OF ok i' i(3) peer] free_check_list(3) [OF ok i' i(3) peer] c(3-5,7) assms(10) by auto
qed

theorem oversized_response_aborted_witness:
  "\<exists>s'. tsm_set_complexack_transaction quiet_env zero_address zero_npdu ack_header wide_request
      (replicate 190 5) (tsm_start 2 2) = Some (-2, zero_address, s') \<and> held_ids s' = held_ids (tsm_start 2 2)"
proof -
  let ?s = "tsm_start 2 2" and ?pdu = "replicate 190 5 :: bytes"
  have n: "segments_needed 50 190 = 5" by (simp add: segments_needed_def)
  have "0 < free_slots ?s" "\<exists>q \<in> set (TSM_Peer_Ids ?s). InternalInvokeID q = 0"
      "\<forall>q \<in> set (TSM_Peer_Ids ?s). \<not> peer_matches zero_address (invoke_id wide_request) q"
    using fresh_table_room [of 2 2 ?s] by simp_all
  then show ?thesis
    using oversized_response_aborted [of 2 2 ?s quiet_env zero_address ack_header wide_request ?pdu zero_npdu]
      wide_request_args [of ?pdu] wide_request_limit n
    by (auto simp: wide_request_def)
qed


text \<open>
  C14. No segment exceeds what the peer accepts. Whatever the calls before it were, a transaction
  that sends a segmented response counts at most 25 segments, and for each segment number below that
  count \<open>tsm_pdu_send\<close> hands exactly one PDU to the data link: behind the network header it is at
  most as long as the maximum APDU length of the peer, which the transaction keeps.
\<close>

theorem response_segments_fit_peer:
  assumes "tsm_step\<^sup>*\<^sup>* (tsm_start t p) s" "t \<le> 255" "index < length (TSM_List s)"
    and "tsm_state (TSM_List s ! index) = TSM_STATE_SEGMENTED_RESPONSE_SERVER"
  shows "\<exists>n \<le> MAX_SEGMENTS_ACCEPTED. get_apdu_max_segments (TSM_List s ! index) = Some (of_nat n) \<and>
    (\<forall>k < n. \<exists>r d dst np bs. tsm_pdu_send env (TSM_List s ! index) (of_nat k) =
        Some (r, d, [(dst, np, npdu_header env (TSM_List s ! index) @ bs)]) \<and>
      length bs \<le> unat (apdu_maximum_length (TSM_List s ! index)))"
proof -
  let ?d = "TSM_List s ! index"
  obtain b where b: "response_ok ?d b" "segmented ?d b" "length (response_segments ?d b) \<le> MAX_SEGMENTS_ACCEPTED"
    using slot_response [OF tsm_inv_slot [OF tsm_reachable_inv [OF assms(1,2)] assms(3)] assms(4)] .
  have hd: "length (segment_apdu_header ?d n k) \<le> 5" for n k by (simp add: segment_apdu_header_def)
  have "length (segment_apdu_header ?d n k @ response_segments ?d b ! k) \<le> unat (apdu_maximum_length ?d)"
    if "k < length (response_segments ?d b)" for k n
    using length_response_segment [OF b(1) that] b(2) hd [of n k] by simp
  then have "\<exists>r d dst np bs. tsm_pdu_send env ?d (of_nat k) = Some (r, d, [(dst, np, npdu_header env ?d @ bs)]) \<and>
      length bs \<le> unat (apdu_maximum_length ?d)" if "k < length (response_segments ?d b)" for k
    using tsm_pdu_send_response [OF b(1) that, of env] that by (simp only: segment_pdu_def) blast
  then show ?thesis using b(3) get_apdu_max_segments_response [OF b(1)] by blast
qed

text \<open>A response of 100 octets to a peer that takes 50 at a time.\<close>

theorem response_segments_fit_peer_witness:
  "\<exists>s index r d dst np bs. tsm_step\<^sup>*\<^sup>* (tsm_start 2 2) s \<and> sent s \<noteq> [] \<and>
    get_apdu_max_segments (TSM_List s ! index) = Some 3 \<and>
    tsm_pdu_send accepting_env (TSM_List s ! index) 2 =
      Some (r, d, [(dst, np, npdu_header accepting_env (TSM_List s ! index) @ bs)]) \<and>
    length bs \<le> unat (apdu_maximum_length (TSM_List s ! index))"
proof -
  let ?s = "tsm_start 2 2" and ?pdu = "replicate 100 5 :: bytes" and ?e = accepting_env
  have n: "segments_needed 50 100 = 3" by (simp add: segments_needed_def)
  have e: "memory_available ?e" "0 < datalink_send_pdu ?e a np p" for a np p
    by (simp_all add: accepting_env_def quiet_env_def memory_available_def)
  obtain r s' index iid where s': "tsm_set_complexack_transaction ?e zero_address zero_npdu ack_header wide_request ?pdu ?s
        = Some (r, zero_address, s')"
      "delivering ?e s' zero_address (invoke_id wide_request) index iid 3 0 1
        (wire_segment ?e zero_address zero_npdu ack_header wide_request ?pdu)" "sent s' \<noteq> []"
  proof (rule response_starts [of ?s zero_address ack_header wide_request ?pdu ?e zero_npdu])
    show "response_args_ok zero_address ack_header wide_request ?pdu" by (rule wide_request_args) simp
    show "length ?pdu + 5 * segments_needed (max_resp wide_request) (length ?pdu) \<le> response_limit wide_request"
      unfolding wide_request_limit using n by (simp add: wide_request_def)
    fix r s' index iid
    assume "tsm_set_complexack_transaction ?e zero_address zero_npdu ack_header wide_request ?pdu ?s = Some (r, zero_address, s')"
      "delivering ?e s' zero_address (invoke_id wide_request) index iid
        (segments_needed (max_resp wide_request) (length ?pdu)) 0 1
        (wire_segment ?e zero_address zero_npdu ack_header wide_request ?pdu)"
      "sent s' = sent ?s @ [wire_segment ?e zero_address zero_npdu ack_header wide_request ?pdu 0]"
    then show thesis using n by (intro that [of r s' index iid]) (simp_all add: wide_request_def)
  qed (use tsm_reachable_inv [of 2 2 ?s] e fresh_table_room [of 2 2 ?s] in \<open>simp_all add: wide_request_def\<close>)
  have "tsm_step ?s s'" using s'(1) wide_request_args [of ?pdu] by (intro tsm_step.complexack) simp_all
  then have r: "tsm_step\<^sup>*\<^sup>* ?s s'" by simp
  obtain b where i: "index < length (TSM_List s')" "response_ok (TSM_List s' ! index) b"
      "length (response_segments (TSM_List s' ! index) b) = 3"
      "tsm_state (TSM_List s' ! index) = TSM_STATE_SEGMENTED_RESPONSE_SERVER"
    using s'(2) by (auto simp: delivering_def serving_def)
  then have three: "get_apdu_max_segments (TSM_List s' ! index) = Some 3"
    using get_apdu_max_segments_response [OF i(2)] by simp
  obtain m where m: "m \<le> MAX_SEGMENTS_ACCEPTED" "Some 3 = Some (of_nat m :: u32)"
      "\<forall>k < m. \<exists>r d dst np bs. tsm_pdu_send ?e (TSM_List s' ! index) (of_nat k) =
        Some (r, d, [(dst, np, npdu_header ?e (TSM_List s' ! index) @ bs)]) \<and>
      length bs \<le> unat (apdu_maximum_length (TSM_List s' ! index))"
    using response_segments_fit_peer [OF r _ i(1,4), of ?e] three by auto
  from m(1,2) have "2 < m" using unat_of_nat_u32 [of m] by (simp add: MAX_SEGMENTS_ACCEPTED_def)
  with m(3) r s'(3) three show ?thesis by (metis of_nat_numeral)
qed

text \<open>
  C15. The reply to an acknowledgement from inside the window, while segments remain: the window
  moves behind the acknowledged segment and exactly the segments of the new window are sent,
  in order. An acknowledgement from outside the window sends nothing and keeps the window.
\<close>

theorem acknowledgement_moves_window:
  assumes dl: "delivering env s src pid index iid n q a pd"
  shows "(q \<le> l \<and> l < q + a \<and> l + 1 < n \<longrightarrow>
      (\<exists>s'. tsm_segmentack_received env pid (of_nat l) w nak False src s = Some (src, s') \<and>
        delivering env s' src pid index iid n (l + 1) (unat w) pd \<and>
        sent s' = sent s @ map pd [l + 1..<min (l + 1 + unat w) n])) \<and>
    (\<not> unat (of_nat l - of_nat q :: u8) < a \<longrightarrow>
      (\<exists>s'. tsm_segmentack_received env pid (of_nat l) w nak False src s = Some (src, s') \<and>
        delivering env s' src pid index iid n q a pd \<and> sent s' = sent s))"
proof -
  let ?d = "TSM_List s ! index"
  note dsp = segmentack_dispatch [OF dl]
  have d: "tsm_inv s" "serving s src pid index iid" "InitialSequenceNumber ?d = of_nat q"
      "unat (ActualWindowSize ?d) = a"
    using dl by (simp_all add: delivering_def)
  let ?s = "upd_slot s index (\<lambda>d. d\<lparr>SegmentTimer := apdu_segment_timeout s\<rparr>)"
  have same: "response_ok (e\<lparr>SegmentTimer := t\<rparr>) = response_ok e"
      "response_segments (e\<lparr>SegmentTimer := t\<rparr>) = response_segments e"
      "segment_pdu env (e\<lparr>SegmentTimer := t\<rparr>) = segment_pdu env e" for e t
    by (auto simp: response_ok_def response_segments_def segmented_def seg_size_def fun_eq_iff
      segment_pdu_def wire_dest_def npdu_header_def segment_apdu_header_def ack_of_def)
  have "tsm_inv ?s" using d(1) tsm_inv_slot [OF d(1) dsp(2)] by (intro upd_slot_keeps) (simp_all add: slot_inv_timer)
  then have "delivering env ?s src pid index iid n q a pd"
    using dl dsp(2) by (simp add: delivering_def serving_upd_slot same)
  moreover have "response_acked env index iid (of_nat l) w s = Some ?s"
    if "\<not> unat (of_nat l - of_nat q :: u8) < a"
    using that d(3,4) by (simp add: response_acked_def InWindow_def word_less_nat_alt Let_def)
  ultimately show ?thesis using window_ack [OF dl, of l w nak] dsp(1) by auto
qed

text \<open>A response of three segments of which the first has been sent.\<close>

definition first_sent :: TSM where
  "first_sent = (upd_slot (tsm_start 1 1) 0 (\<lambda>d. d\<lparr>InvokeID := 1,
     tsm_state := TSM_STATE_SEGMENTED_RESPONSE_SERVER, ActualWindowSize := 1,
     tsm_apdu := Some (replicate 100 5), tsm_apdu_len := 100, apdu_maximum_length := 50,
     SegmentTimer := 10, SegmentRetryCount := 1,
     apdu_fixed_header := ack_header\<rparr>))
     \<lparr>TSM_Peer_Ids := [\<lparr>PeerAddress = zero_address, PeerInvokeID = 9, InternalInvokeID = 1\<rparr>]\<rparr>"

lemma first_sent_delivering:
  "delivering env first_sent zero_address 9 0 1 3 0 1
     (segment_pdu env (TSM_List first_sent ! 0) (replicate 100 5))"
proof -
  let ?d = "TSM_List first_sent ! 0" and ?b = "replicate 100 5 :: bytes"
  have r: "response_ok ?d ?b" "segmented ?d ?b" "length (response_segments ?d ?b) = 3"
    by (simp_all add: first_sent_def response_ok_def BLOB_CAP_value MAX_APDU_def ack_header_def
        segmented_def response_segments_def seg_size_def)
  moreover have s: "InitialSequenceNumber ?d = 0" "tsm_state ?d = TSM_STATE_SEGMENTED_RESPONSE_SERVER"
      "InvokeID ?d = 1" "ActualWindowSize ?d = 1" "blob_ok ?d" "apdu_blob_size ?d = 0"
    by (simp_all add: first_sent_def zero_transaction_def blob_ok_defs)
  ultimately have "slot_inv ?d" by (auto simp: slot_inv_def MAX_SEGMENTS_ACCEPTED_def intro!: exI [of _ ?b])
  moreover have l: "TSM_List first_sent = [?d]" "Current_Invoke_ID first_sent = 1"
    by (simp_all add: first_sent_def tsm_start_def)
  ultimately have "tsm_inv first_sent"
    using l unfolding tsm_inv_def invoke_ids_ok_def ids_unique_def by (metis (no_types) One_nat_def empty_iff
      empty_set insert_iff length_Cons length_map less_one list.size(3) list.simps(15) numeral_le_one_iff
      one_le_numeral one_neq_zero)
  moreover have "serving first_sent zero_address 9 0 1"
    by (simp add: serving_def first_sent_def peer_matches_def tsm_find_invokeID_index_def)
  ultimately show ?thesis
    using r s by (auto simp: delivering_def MAX_SEGMENTS_ACCEPTED_def intro!: exI [of _ ?b])
qed

theorem acknowledgement_moves_window_witness:
  "\<exists>s'. tsm_segmentack_received quiet_env 9 0 2 False False zero_address first_sent = Some (zero_address, s') \<and>
    sent s' = sent first_sent @ map (segment_pdu quiet_env (TSM_List first_sent ! 0) (replicate 100 5)) [1..<3]"
  using acknowledgement_moves_window [OF first_sent_delivering, of 0 quiet_env 2 False]
  by (auto simp: upt_rec [of _ "3 :: nat"])

lemma fill_slot_delivers:
  assumes dl: "delivering env s src pid index iid n q a pd"
  shows "\<exists>s'. fill_slot env index s = Some s' \<and> delivering env s' src pid index iid n q a pd \<and>
    sent s' = sent s @ map pd [q..<min (q + a) n] \<and>
    tsm_apdu (TSM_List s' ! index) = tsm_apdu (TSM_List s ! index)"
proof -
  let ?d = "TSM_List s ! index"
  note dsp = segmentack_dispatch [OF dl]
  have d: "tsm_inv s" "serving s src pid index iid" "InitialSequenceNumber ?d = of_nat q" "q < n"
      "n \<le> MAX_SEGMENTS_ACCEPTED" "unat (ActualWindowSize ?d) = a"
      "tsm_state ?d = TSM_STATE_SEGMENTED_RESPONSE_SERVER"
    using dl by (simp_all add: delivering_def)
  obtain b where b: "response_ok ?d b" "length (response_segments ?d b) = n" "segment_pdu env ?d b = pd"
    using dl by (auto simp: delivering_def)
  have q: "q \<le> 255" "unat (of_nat q :: u8) = q" using d(4,5) by (simp_all add: MAX_SEGMENTS_ACCEPTED_def unat_of_nat)
  have wide: "(ucast (x :: u8) :: u32) = of_nat (unat x)" for x by simp
  obtain d' x where d': "FillWindow env ?d (of_nat q) = Some (d'\<lparr>SentAllSegments := x\<rparr>, map pd [q..<min (q + a) n])"
      "resent b ?d d'"
    using FillWindow_response [OF b(1) q(1), of env] b(2,3) d(6) by auto
  note r = resent_fields [OF d'(2)]
  let ?d' = "d'\<lparr>SentAllSegments := x\<rparr>" and ?out = "map pd [q..<min (q + a) n]"
  have fill: "fill_slot env index s = Some (log_sent ?out (upd_slot s index (\<lambda>_. ?d')))"
  proof -
    have "(ucast (InitialSequenceNumber ?d) :: u32) = of_nat q" by (simp only: d(3) wide q(2))
    then show ?thesis using d'(1) by (simp add: fill_slot_def)
  qed
  have inv: "tsm_inv (upd_slot s index (\<lambda>_. ?d'))"
    using d(1) slot_inv_resent [OF tsm_inv_slot [OF d(1) dsp(2)] d'(2) d(7)] r(1) by (intro upd_slot_keeps) simp_all
  have same: "response_ok ?d' b" "response_segments ?d' b = response_segments d' b" "segment_pdu env ?d' b = segment_pdu env d' b"
    using r(11) by (auto simp: response_ok_def response_segments_def segmented_def seg_size_def fun_eq_iff
      segment_pdu_def wire_dest_def npdu_header_def segment_apdu_header_def ack_of_def)
  have "delivering env (log_sent ?out (upd_slot s index (\<lambda>_. ?d'))) src pid index iid n q a pd"
    using inv d r b same dsp(2)
    by (auto simp: delivering_def serving_upd_slot fun_eq_iff intro!: exI [of _ b])
  moreover have "tsm_apdu ?d' = tsm_apdu ?d" using b(1) r(11) by (simp add: response_ok_def)
  ultimately show ?thesis using fill dsp(2) by simp
qed

text \<open>
  C16. When the segment timer of a response expires and retries are left, the segments of the
  current window, and no others, are sent again. When the retries are used up the transaction is
  put to rest, but the identifier, the entry of the peer and the buffer of the response are
  never released by the timer.
\<close>

theorem response_timeout:
  assumes dl: "delivering env s src pid index iid n q a pd"
    and exp: "SegmentTimer (TSM_List s ! index) \<le> ms"
  shows "\<exists>s'. timer_segmented_response env ms index s = Some s' \<and>
    serving s' src pid index iid \<and> iid \<in> held_ids s' \<and> tsm_apdu (TSM_List s' ! index) = tsm_apdu (TSM_List s ! index) \<and>
    (if SegmentRetryCount (TSM_List s ! index) = 1
     then tsm_state (TSM_List s' ! index) = TSM_STATE_IDLE \<and> sent s' = sent s
     else delivering env s' src pid index iid n q a pd \<and> sent s' = sent s @ map pd [q..<min (q + a) n])"
proof -
  let ?d = "TSM_List s ! index"
  note dsp = segmentack_dispatch [OF dl]
  have d: "tsm_inv s" "serving s src pid index iid" "InitialSequenceNumber ?d = of_nat q" "q < n" "n \<le> 25"
      "unat (ActualWindowSize ?d) = a" "tsm_state ?d = TSM_STATE_SEGMENTED_RESPONSE_SERVER"
    using dl by (simp_all add: delivering_def MAX_SEGMENTS_ACCEPTED_def)
  obtain b where b: "response_ok ?d b" "length (response_segments ?d b) = n" "segment_pdu env ?d b = pd"
    using dl by (auto simp: delivering_def)
  let ?f = "\<lambda>d. d\<lparr>SegmentRetryCount := SegmentRetryCount d - 1, SegmentTimer := apdu_segment_timeout s\<rparr>"
  have fd: "response_ok (?f ?d) b" "response_segments (?f ?d) b = response_segments ?d b"
      "segment_pdu env (?f ?d) b = pd"
    using b(1) b(3)[symmetric] by (auto simp: response_ok_def response_segments_def segmented_def seg_size_def fun_eq_iff
        segment_pdu_def wire_dest_def npdu_header_def segment_apdu_header_def ack_of_def)
  have zero: "count_down (SegmentTimer ?d) ms = 0" using exp leD by (auto simp: count_down_def)
  let ?s1 = "upd_slot s index ?f"
  have held: "iid \<in> held_ids t" if "serving t src pid index iid" for t
    using that find_invokeID_held [of iid t] by (auto simp: serving_def)
  have inv1: "tsm_inv ?s1"
    using d(1) tsm_inv_slot [OF d(1) dsp(2)] by (intro upd_slot_keeps) (simp_all add: slot_inv_timer)
  then have "delivering env ?s1 src pid index iid n q a pd"
    using dl d b fd dsp(2) by (auto simp: delivering_def serving_upd_slot)
  from fill_slot_delivers [OF this] obtain s' where fill: "fill_slot env index ?s1 = Some s'"
      "delivering env s' src pid index iid n q a pd" "sent s' = sent ?s1 @ map pd [q..<min (q + a) n]"
      "tsm_apdu (TSM_List s' ! index) = tsm_apdu (TSM_List ?s1 ! index)" by blast
  then have sv: "serving s' src pid index iid" by (simp add: delivering_def)
  let ?g = "\<lambda>d. (?f d)\<lparr>tsm_state := TSM_STATE_IDLE\<rparr>"
  have "serving (upd_slot s index ?g) src pid index iid" using d(2) by (simp add: serving_upd_slot)
  with fill sv held show ?thesis
    using d(7) zero dsp(2)
    by (simp add: timer_segmented_response_def Let_def upd_slot_upd_slot)
qed


theorem response_timeout_witness:
  "\<exists>s'. timer_segmented_response quiet_env 20 0 first_sent = Some s' \<and> 1 \<in> held_ids s' \<and>
    tsm_state (TSM_List s' ! 0) = TSM_STATE_IDLE"
  using response_timeout [OF first_sent_delivering, of 20 quiet_env] by (auto simp: first_sent_def)

end
