(* ===== verification/Bac_Wire.thy ===== *)
theory Bac_Wire
  imports Bac_Tsm_Deliver
begin

text \<open>
  What holds of the wire formats: the integers of \<^verbatim>\<open>bacint.c\<close>, the network header of
  \<^verbatim>\<open>npdu.c\<close>, the request header of \<^verbatim>\<open>h_apdu.c\<close> and the codes of \<^verbatim>\<open>abort.c\<close> and
  \<^verbatim>\<open>reject.c\<close>.
\<close>

text \<open>
  Every integer of \<^verbatim>\<open>bacint.c\<close> that is encoded and decoded again, followed by anything,
  comes back: a value of full width as it is, a value in fewer bytes than its type reduced to
  those bytes, and a signed value in 24 bits extended by its sign.
\<close>

lemma integers_roundtrip:
  "decode_unsigned16 (encode_unsigned16 a @ rest) = Some (2, a) \<and>
   decode_unsigned24 (encode_unsigned24 b @ rest) = Some (3, take_bit 24 b) \<and>
   decode_unsigned32 (encode_unsigned32 b @ rest) = Some (4, b) \<and>
   decode_unsigned40 (encode_unsigned40 c @ rest) = Some (5, take_bit 40 c) \<and>
   decode_unsigned48 (encode_unsigned48 c @ rest) = Some (6, take_bit 48 c) \<and>
   decode_unsigned56 (encode_unsigned56 c @ rest) = Some (7, take_bit 56 c) \<and>
   decode_unsigned64 (encode_unsigned64 c @ rest) = Some (8, c) \<and>
   decode_signed8 (encode_signed8 d @ rest) = Some (1, scast d) \<and>
   decode_signed16 (encode_signed16 e @ rest) = Some (2, scast e) \<and>
   decode_signed24 (encode_signed24 f @ rest) = Some (3, signed_take_bit 23 f) \<and>
   decode_signed32 (encode_signed32 f @ rest) = Some (4, f)"
  by (simp add: unsigned16_roundtrip unsigned24_roundtrip unsigned32_roundtrip unsigned40_roundtrip
      unsigned48_roundtrip unsigned56_roundtrip unsigned64_roundtrip signed8_roundtrip
      signed16_roundtrip signed24_roundtrip signed32_roundtrip)

text \<open>
  \<open>bacnet_unsigned_length\<close> is the least number of bytes that hold a value, between 1 and 8, and
  \<open>bacnet_signed_length\<close> is a number of bytes whose two's complement range contains it.
\<close>

lemma integer_lengths_minimal:
  "1 \<le> bacnet_unsigned_length v \<and> bacnet_unsigned_length v \<le> 8 \<and>
   unat v < 256 ^ bacnet_unsigned_length v \<and>
   (bacnet_unsigned_length v = 1 \<or> 256 ^ (bacnet_unsigned_length v - 1) \<le> unat v) \<and>
   - (2 ^ (8 * bacnet_signed_length z - 1)) \<le> sint z \<and> sint z < 2 ^ (8 * bacnet_signed_length z - 1)"
  using bacnet_unsigned_length_range [of v] bacnet_unsigned_length_bounds [of v]
    bacnet_signed_length_bounds [of z] by simp

text \<open>
  C19. The network layer decoder reads what the encoder wrote: behind the header of a message for
  \<open>d\<close> from \<open>s\<close> it finds exactly the APDU, and it stores the addresses, the priority, the hop
  count and the network message that were encoded.
\<close>

theorem npdu_header_roundtrip:
  assumes "wf_address d" "wf_address s" "network_layer_message n \<Longrightarrow> network_message_type n < 0x100"
  shows "bacnet_npdu_decode (fst (npdu_encode_pdu (Some d) (Some s) n) @ apdu)
      (length (fst (npdu_encode_pdu (Some d) (Some s) n) @ apdu)) (Some d0) (Some s0) n0 =
    Some (int (length (fst (npdu_encode_pdu (Some d) (Some s) n))), Some (received_dest d d0),
      Some (received_src s s0), received_npdu (net d \<noteq> 0) n n0)"
  using npdu_decode_encode [OF assms refl] .

theorem npdu_header_roundtrip_witness:
  "bacnet_npdu_decode (fst (npdu_encode_pdu (Some zero_address) (Some zero_address) zero_npdu) @ [16, 8])
      4 (Some zero_address) (Some zero_address) zero_npdu =
    Some (2, Some (received_dest zero_address zero_address), Some (received_src zero_address zero_address),
      received_npdu False zero_npdu zero_npdu)"
proof -
  have "length (fst (npdu_encode_pdu (Some zero_address) (Some zero_address) zero_npdu)) = 2"
    by (simp add: npdu_encode_pdu_bytes dest_field_def src_field_def npdu_message_def zero_address_def
        zero_npdu_def)
  then show ?thesis
    using npdu_header_roundtrip [of zero_address zero_address zero_npdu "[16, 8]" zero_address zero_address zero_npdu]
    by (simp add: zero_address_def wf_address_def zero_npdu_def)
qed

text \<open>
  The network layer decoder is total on every input: for any bytes and any stated length within
  them it reads only inside that length and returns an error or the offset of the APDU.
\<close>

lemma npdu_decoder_in_bounds:
  assumes "pdu_len \<le> length npdu"
  shows "\<exists>r dest' src' n'. bacnet_npdu_decode npdu pdu_len dest src n = Some (r, dest', src', n') \<and>
    (r = -1 \<or> 0 \<le> r \<and> r \<le> int pdu_len)"
  using bacnet_npdu_decode_safe [OF assms, of dest src n] by (auto simp: wp_iff)

lemma npdu_decoder_in_bounds_witness:
  "\<exists>r dest' src' n'. bacnet_npdu_decode [1, 0x20, 0xFF] 3 (Some zero_address) None zero_npdu
      = Some (r, dest', src', n') \<and> (r = -1 \<or> 0 \<le> r \<and> r \<le> 3)"
  using npdu_decoder_in_bounds [of 3 "[1, 0x20, 0xFF]" "Some zero_address" None zero_npdu] by simp

text \<open>
  The decoder of confirmed requests recovers what \<open>apdu_encode_fixed_header\<close> wrote: the flags,
  the invoke identifier, sequence number and window of a segment, the service choice and the
  service request, with the capabilities as the capability octet can express them.
\<close>

lemma request_header_roundtrip:
  assumes "pdu_type h = PDU_TYPE_CONFIRMED_SERVICE_REQUEST" "service_data h = Request_Data r"
    and "apdu_encode_fixed_header h = Some hdr" "length hdr + length data \<le> MAX_APDU" "data \<noteq> []"
  shows "apdu_decode_confirmed_service_request np (hdr @ data) (length (hdr @ data))
      zero_service_data c req =
    Some (length hdr,
      r\<lparr>max_segs := decode_max_segs (encode_max_segs_max_apdu (max_segs r) (max_resp r)),
        max_resp := decode_max_apdu (encode_max_segs_max_apdu (max_segs r) (max_resp r)),
        sequence_number := (if segmented_message r then sequence_number r else 0),
        proposed_window_number := (if segmented_message r then proposed_window_number r else 0),
        service_priority := np\<rparr>,
      service_choice h, Some data)"
  using apdu_request_roundtrip [OF assms] .

lemma request_header_roundtrip_witness:
  "\<exists>len sd. apdu_decode_confirmed_service_request 0 [0, 5, 7, 12, 9] (length [0, 5, 7, 12, 9 :: u8])
      zero_service_data 0 None
      = Some (len, sd, 12, Some [9]) \<and> invoke_id sd = 7"
proof -
  let ?r = "zero_service_data\<lparr>invoke_id := 7, max_resp := 1476\<rparr>"
  let ?h = "\<lparr>pdu_type = PDU_TYPE_CONFIRMED_SERVICE_REQUEST, service_data = Request_Data ?r, service_choice = 12\<rparr>"
  have "apdu_encode_fixed_header ?h = Some [0, 5, 7, 12]"
    by (simp add: apdu_encode_fixed_header_def zero_service_data_def encode_max_segs_max_apdu_def Let_def)
  then show ?thesis
    using request_header_roundtrip [of ?h ?r "[0, 5, 7, 12]" "[9]" 0 0 None]
    by (simp add: MAX_APDU_def)
qed

text \<open>
  The translation between error codes and abort or reject reasons loses nothing: an error code
  that is valid for an Abort or a Reject comes back from the reason it is translated to, and
  every reason is translated to a code that is valid.
\<close>

lemma error_codes_roundtrip:
  "(abort_valid_error_code c \<longrightarrow> abort_convert_to_error_code (abort_convert_error_code c) = c) \<and>
   (reject_valid_error_code c \<longrightarrow> reject_convert_to_error_code (reject_convert_error_code c) = c) \<and>
   abort_valid_error_code (abort_convert_to_error_code r) \<and>
   reject_valid_error_code (reject_convert_to_error_code r)"
  using abort_codes_roundtrip [of c] reject_codes_roundtrip [of c] abort_code_valid reject_code_valid by blast

theorem error_codes_roundtrip_witness:
  "abort_convert_to_error_code (abort_convert_error_code ERROR_CODE_ABORT_BUFFER_OVERFLOW)
     = ERROR_CODE_ABORT_BUFFER_OVERFLOW"
  using error_codes_roundtrip [of ERROR_CODE_ABORT_BUFFER_OVERFLOW]
  by (simp add: abort_valid_error_code_def)

text \<open>
  The capability octet announces at most as many segments as the device accepts, but a
  maximum APDU length that is rounded up: between two of the lengths the octet can express, the
  peer is told the larger one.
\<close>

lemma capability_octet_bounds:
  assumes "2 \<le> m" "m \<le> 64" "a \<le> 1476"
  shows "decode_max_segs (encode_max_segs_max_apdu m a) \<le> m \<and>
    m < 2 * decode_max_segs (encode_max_segs_max_apdu m a) \<and>
    a \<le> decode_max_apdu (encode_max_segs_max_apdu m a)"
  using assms by (simp add: decode_max_segs_encode decode_max_apdu_encode)

theorem capability_octet_bounds_witness:
  "decode_max_segs (encode_max_segs_max_apdu 5 1100) \<le> 5 \<and>
   1100 \<le> decode_max_apdu (encode_max_segs_max_apdu 5 1100)"
  using capability_octet_bounds [of 5 1100] by simp

end
