(* ===== verification/Bac_Tag.thy ===== *)
theory Bac_Tag
  imports Bac_Int
begin

text \<open>
  The tags of \<^verbatim>\<open>src/bacnet/bacdcode.c\<close>: the octets in front of every value, and
  \<^verbatim>\<open>bacnet_enclosed_data_length\<close>, the loop that measures what stands between an opening tag and
  its closing tag.

  A decoder is given the octets that are available to it, so that \<^verbatim>\<open>apdu_size\<close> is the length of
  its argument. Its result is \<open>None\<close> for a read outside them, \<open>Some None\<close> when the C function
  returns 0 and stores nothing, and \<open>Some (Some (len, v))\<close> when it returns \<open>len\<close> and stores \<open>v\<close>.
  Sizes are below \<open>2 ^ 31\<close>, as those of every buffer of the stack.
\<close>

section \<open>Tags\<close>

record BACNET_TAG =
  tag_number :: u8
  tag_application :: bool
  tag_context :: bool
  tag_opening :: bool
  tag_closing :: bool
  len_value_type :: u32

abbreviation (input) BACNET_APPLICATION_TAG_NULL :: u8 where "BACNET_APPLICATION_TAG_NULL \<equiv> 0"
abbreviation (input) BACNET_APPLICATION_TAG_BOOLEAN :: u8 where "BACNET_APPLICATION_TAG_BOOLEAN \<equiv> 1"
abbreviation (input) BACNET_APPLICATION_TAG_UNSIGNED_INT :: u8 where
  "BACNET_APPLICATION_TAG_UNSIGNED_INT \<equiv> 2"
abbreviation (input) BACNET_APPLICATION_TAG_SIGNED_INT :: u8 where
  "BACNET_APPLICATION_TAG_SIGNED_INT \<equiv> 3"
abbreviation (input) BACNET_APPLICATION_TAG_REAL :: u8 where "BACNET_APPLICATION_TAG_REAL \<equiv> 4"
abbreviation (input) BACNET_APPLICATION_TAG_DOUBLE :: u8 where "BACNET_APPLICATION_TAG_DOUBLE \<equiv> 5"
abbreviation (input) BACNET_APPLICATION_TAG_OCTET_STRING :: u8 where
  "BACNET_APPLICATION_TAG_OCTET_STRING \<equiv> 6"
abbreviation (input) BACNET_APPLICATION_TAG_CHARACTER_STRING :: u8 where
  "BACNET_APPLICATION_TAG_CHARACTER_STRING \<equiv> 7"
abbreviation (input) BACNET_APPLICATION_TAG_BIT_STRING :: u8 where
  "BACNET_APPLICATION_TAG_BIT_STRING \<equiv> 8"
abbreviation (input) BACNET_APPLICATION_TAG_ENUMERATED :: u8 where
  "BACNET_APPLICATION_TAG_ENUMERATED \<equiv> 9"
abbreviation (input) BACNET_APPLICATION_TAG_DATE :: u8 where "BACNET_APPLICATION_TAG_DATE \<equiv> 10"
abbreviation (input) BACNET_APPLICATION_TAG_TIME :: u8 where "BACNET_APPLICATION_TAG_TIME \<equiv> 11"
abbreviation (input) BACNET_APPLICATION_TAG_OBJECT_ID :: u8 where
  "BACNET_APPLICATION_TAG_OBJECT_ID \<equiv> 12"

definition IS_EXTENDED_TAG_NUMBER :: "u8 \<Rightarrow> bool" where
  "IS_EXTENDED_TAG_NUMBER x = (x AND 0xF0 = 0xF0)"

definition IS_EXTENDED_VALUE :: "u8 \<Rightarrow> bool" where
  "IS_EXTENDED_VALUE x = (x AND 0x07 = 5)"

definition IS_CONTEXT_SPECIFIC :: "u8 \<Rightarrow> bool" where
  "IS_CONTEXT_SPECIFIC x = (x AND 0x08 = 0x08)"

definition IS_OPENING_TAG :: "u8 \<Rightarrow> bool" where
  "IS_OPENING_TAG x = (x AND 0x07 = 6)"

definition IS_CLOSING_TAG :: "u8 \<Rightarrow> bool" where
  "IS_CLOSING_TAG x = (x AND 0x07 = 7)"

text \<open>The part of the first octet that depends on the tag number, and the octet that may follow.\<close>

definition number_bits :: "u8 \<Rightarrow> u8" where
  "number_bits tag = (if tag \<le> 14 then push_bit 4 tag else 0xF0)"

definition number_octets :: "u8 \<Rightarrow> bytes" where
  "number_octets tag = (if tag \<le> 14 then [] else [tag])"

definition encode_tag :: "u8 \<Rightarrow> bool \<Rightarrow> u32 \<Rightarrow> bytes" where
  "encode_tag tag context_specific lvt =
     [(if context_specific then 0x08 else 0) OR number_bits tag OR (if lvt \<le> 4 then ucast lvt else 5)]
     @ number_octets tag
     @ (if lvt \<le> 4 then []
        else if lvt \<le> 253 then [ucast lvt]
        else if lvt \<le> 65535 then 254 # encode_unsigned16 (ucast lvt)
        else 255 # encode_unsigned32 lvt)"

definition encode_opening_tag :: "u8 \<Rightarrow> bytes" where
  "encode_opening_tag tag = [0x08 OR number_bits tag OR 6] @ number_octets tag"

definition encode_closing_tag :: "u8 \<Rightarrow> bytes" where
  "encode_closing_tag tag = [0x08 OR number_bits tag OR 7] @ number_octets tag"

text \<open>
  \<^verbatim>\<open>decode_tag_number\<close> and \<^verbatim>\<open>decode_tag_number_and_value\<close> are given no size and read as many octets
  as the first ones ask for.
\<close>

definition decode_tag_number :: "bytes \<Rightarrow> (nat \<times> u8) option" where
  "decode_tag_number apdu = do {
     b0 \<leftarrow> rd apdu 0;
     if IS_EXTENDED_TAG_NUMBER b0 then do { b1 \<leftarrow> rd apdu 1; Some (2, b1) }
     else Some (1, drop_bit 4 b0) }"

definition bacnet_tag_number_decode :: "bytes \<Rightarrow> (nat \<times> u8) option option" where
  "bacnet_tag_number_decode apdu =
     (if length apdu \<ge> 1 then do {
        b0 \<leftarrow> rd apdu 0;
        if IS_EXTENDED_TAG_NUMBER b0 then
          if length apdu \<ge> 2 then do { b1 \<leftarrow> rd apdu 1; Some (Some (2, b1)) } else Some None
        else Some (Some (1, drop_bit 4 b0)) }
      else Some None)"

definition bacnet_tag_encode :: "nat \<Rightarrow> BACNET_TAG \<Rightarrow> bytes" where
  "bacnet_tag_encode apdu_size tag =
     (let apdu = (if tag_application tag then encode_tag (tag_number tag) False (len_value_type tag)
                  else if tag_context tag then encode_tag (tag_number tag) True (len_value_type tag)
                  else if tag_opening tag then encode_opening_tag (tag_number tag)
                  else if tag_closing tag then encode_closing_tag (tag_number tag)
                  else [])
      in if length apdu > apdu_size then [] else apdu)"

text \<open>The length of a value behind a tag of \<open>len\<close> octets whose first octet says that it is extended.\<close>

definition extended_value_decode :: "bytes \<Rightarrow> nat \<Rightarrow> (nat \<times> u32) option option" where
  "extended_value_decode apdu len =
     (if length apdu > len then do {
        let apdu_size = length apdu - len;
        b \<leftarrow> rd apdu len;
        if b = 255 \<and> apdu_size \<ge> 5 then do {
          (n, value32) \<leftarrow> decode_unsigned32 (drop (len + 1) apdu);
          Some (Some (len + 1 + n, value32)) }
        else if b = 254 \<and> apdu_size \<ge> 3 then do {
          (n, value16) \<leftarrow> decode_unsigned16 (drop (len + 1) apdu);
          Some (Some (len + 1 + n, ucast value16)) }
        else if b < 254 \<and> apdu_size \<ge> 1 then Some (Some (len + 1, ucast b))
        else Some None }
      else Some None)"

definition bacnet_tag_decode :: "bytes \<Rightarrow> (nat \<times> BACNET_TAG) option option" where
  "bacnet_tag_decode apdu = do {
     r \<leftarrow> (if length apdu > 0 then bacnet_tag_number_decode apdu else Some None);
     case r of
       None \<Rightarrow> Some None
     | Some (len, number) \<Rightarrow> do {
         b0 \<leftarrow> rd apdu 0;
         v \<leftarrow> (if IS_EXTENDED_VALUE b0 then extended_value_decode apdu len
               else if IS_OPENING_TAG b0 \<or> IS_CLOSING_TAG b0 then Some (Some (len, 0))
               else Some (Some (len, ucast (b0 AND 0x07))));
         case v of
           None \<Rightarrow> Some None
         | Some (len, lvt) \<Rightarrow>
             let ctx = IS_CONTEXT_SPECIFIC b0 in
             Some (Some (len, \<lparr>tag_number = number, tag_application = \<not> ctx,
               tag_context = (ctx \<and> \<not> IS_OPENING_TAG b0 \<and> \<not> IS_CLOSING_TAG b0),
               tag_opening = (ctx \<and> IS_OPENING_TAG b0),
               tag_closing = (ctx \<and> IS_CLOSING_TAG b0),
               len_value_type = lvt\<rparr>)) } }"

definition bacnet_is_opening_tag :: "bytes \<Rightarrow> bool option" where
  "bacnet_is_opening_tag apdu =
     (if length apdu > 0 then do { b \<leftarrow> rd apdu 0; Some (IS_CONTEXT_SPECIFIC b \<and> IS_OPENING_TAG b) }
      else Some False)"

definition bacnet_is_closing_tag :: "bytes \<Rightarrow> bool option" where
  "bacnet_is_closing_tag apdu =
     (if length apdu > 0 then do { b \<leftarrow> rd apdu 0; Some (IS_CONTEXT_SPECIFIC b \<and> IS_CLOSING_TAG b) }
      else Some False)"

definition bacnet_is_context_specific :: "bytes \<Rightarrow> bool option" where
  "bacnet_is_context_specific apdu =
     (if length apdu > 0 then do { b \<leftarrow> rd apdu 0; Some (IS_CONTEXT_SPECIFIC b) } else Some False)"

definition decode_tag_number_and_value :: "bytes \<Rightarrow> (nat \<times> u8 \<times> u32) option" where
  "decode_tag_number_and_value apdu = do {
     (len, number) \<leftarrow> decode_tag_number apdu;
     b0 \<leftarrow> rd apdu 0;
     if IS_EXTENDED_VALUE b0 then do {
       b \<leftarrow> rd apdu len;
       if b = 255 then do {
         (n, value32) \<leftarrow> decode_unsigned32 (drop (len + 1) apdu);
         Some (len + 1 + n, number, value32) }
       else if b = 254 then do {
         (n, value16) \<leftarrow> decode_unsigned16 (drop (len + 1) apdu);
         Some (len + 1 + n, number, ucast value16) }
       else Some (len + 1, number, ucast b) }
     else if IS_OPENING_TAG b0 \<or> IS_CLOSING_TAG b0 then Some (len, number, 0)
     else Some (len, number, ucast (b0 AND 0x07)) }"

text \<open>
  \<^verbatim>\<open>bacnet_tag_number_and_value_decode\<close> tests the pointer to the value before it stores the tag
  number: with \<open>value = False\<close> (NULL) neither is stored. A NULL pointer for the tag number and a
  pointer for the value is undefined.
\<close>

definition bacnet_tag_number_and_value_decode ::
  "bool \<Rightarrow> bool \<Rightarrow> bytes \<Rightarrow> (nat \<times> (u8 \<times> u32) option) option" where
  "bacnet_tag_number_and_value_decode number value apdu = do {
     r \<leftarrow> bacnet_tag_decode apdu;
     case r of
       None \<Rightarrow> Some (0, None)
     | Some (len, tag) \<Rightarrow>
         if value then do { ensure number; Some (len, Some (tag_number tag, len_value_type tag)) }
         else Some (len, None) }"

definition bacnet_is_context_tag_number :: "bytes \<Rightarrow> u8 \<Rightarrow> (nat \<times> u32) option option" where
  "bacnet_is_context_tag_number apdu number = do {
     r \<leftarrow> bacnet_tag_decode apdu;
     Some (case r of
       None \<Rightarrow> None
     | Some (len, tag) \<Rightarrow>
         if tag_context tag \<and> tag_number tag = number then Some (len, len_value_type tag) else None) }"

definition bacnet_is_opening_tag_number :: "bytes \<Rightarrow> u8 \<Rightarrow> nat option option" where
  "bacnet_is_opening_tag_number apdu number = do {
     r \<leftarrow> bacnet_tag_decode apdu;
     Some (case r of
       None \<Rightarrow> None
     | Some (len, tag) \<Rightarrow> if tag_opening tag \<and> tag_number tag = number then Some len else None) }"

definition bacnet_is_closing_tag_number :: "bytes \<Rightarrow> u8 \<Rightarrow> nat option option" where
  "bacnet_is_closing_tag_number apdu number = do {
     r \<leftarrow> bacnet_tag_decode apdu;
     Some (case r of
       None \<Rightarrow> None
     | Some (len, tag) \<Rightarrow> if tag_closing tag \<and> tag_number tag = number then Some len else None) }"

section \<open>Lemmas on the first octet\<close>

lemma and_07: "(w :: u8) AND 0x07 = take_bit 3 w"
  by (simp add: take_bit_eq_mask mask_numeral)

lemma and_F0: "(w :: u8) AND 0xF0 = push_bit 4 (drop_bit 4 w)"
  by (simp add: u8_eq_iff all_less_8 bit_simps)

lemma context_bit: "IS_CONTEXT_SPECIFIC w \<longleftrightarrow> bit w 3"
  by (simp add: IS_CONTEXT_SPECIFIC_def u8_eq_iff all_less_8 bit_simps)

definition tag_octet :: "bool \<Rightarrow> u8 \<Rightarrow> u8 \<Rightarrow> u8" where
  "tag_octet ctx number t = (if ctx then 0x08 else 0) OR number_bits number OR t"

lemma small_bits:
  assumes "unat (w :: u8) < 2 ^ k" "k \<le> i"
  shows "\<not> bit w i"
  using take_bit_small [OF assms(1)] bit_take_bit_iff [of k w i] assms(2) by simp

lemma number_small:
  assumes "n \<le> (14 :: u8)"
  shows "\<not> bit n 4" "\<not> bit n 5" "\<not> bit n 6" "\<not> bit n 7" "n \<noteq> 15"
  using small_bits [of n 4] assms by (auto simp: word_le_nat_alt)

lemma tag_octet_fields:
  assumes "t < 8"
  shows "drop_bit 4 (tag_octet ctx n t) = (if n \<le> 14 then n else 15)"
    "IS_CONTEXT_SPECIFIC (tag_octet ctx n t) = ctx"
    "tag_octet ctx n t AND 0x07 = t"
proof -
  have t: "\<And>i. 3 \<le> i \<Longrightarrow> \<not> bit t i"
    using small_bits [of t 3] assms by (simp add: word_less_nat_alt)
  show "drop_bit 4 (tag_octet ctx n t) = (if n \<le> 14 then n else 15)"
    using number_small [of n] t
    by (simp add: tag_octet_def number_bits_def u8_eq_iff all_less_8 bit_simps)
  show "IS_CONTEXT_SPECIFIC (tag_octet ctx n t) = ctx"
    using t by (simp add: context_bit tag_octet_def number_bits_def bit_simps)
  show "tag_octet ctx n t AND 0x07 = t"
    using t by (simp add: tag_octet_def number_bits_def u8_eq_iff all_less_8 bit_simps)
qed

lemma push_number: "n \<le> 14 \<Longrightarrow> push_bit 4 n \<noteq> (0xF0 :: u8)"
  using number_small(5) [of n] number_small(1-4) [of n]
  by (simp add: u8_eq_iff all_less_8 bit_simps)

lemma tag_octet_number:
  assumes "t < 8"
  shows "IS_EXTENDED_TAG_NUMBER (tag_octet ctx n t) \<longleftrightarrow> 14 < n"
proof -
  have "tag_octet ctx n t AND 0xF0 = push_bit 4 (if n \<le> 14 then n else 15)"
    unfolding and_F0 using tag_octet_fields(1) [OF assms] by simp
  then show ?thesis using push_number [of n] by (auto simp: IS_EXTENDED_TAG_NUMBER_def not_le)
qed

lemma encode_tag_octet:
  "encode_tag n ctx l = tag_octet ctx n (if l \<le> 4 then ucast l else 5) # number_octets n
     @ (if l \<le> 4 then [] else if l \<le> 253 then [ucast l]
        else if l \<le> 65535 then 254 # encode_unsigned16 (ucast l) else 255 # encode_unsigned32 l)"
  by (simp add: encode_tag_def tag_octet_def)

lemma opening_tag_octet: "encode_opening_tag n = tag_octet True n 6 # number_octets n"
  by (simp add: encode_opening_tag_def tag_octet_def)

lemma closing_tag_octet: "encode_closing_tag n = tag_octet True n 7 # number_octets n"
  by (simp add: encode_closing_tag_def tag_octet_def)

section \<open>What the decoders read\<close>

lemma tag_number_decode_octet:
  "t < 8 \<Longrightarrow> bacnet_tag_number_decode (tag_octet ctx n t # number_octets n @ rest)
     = Some (Some (Suc (length (number_octets n)), n))"
  by (auto simp: bacnet_tag_number_decode_def tag_octet_number tag_octet_fields number_octets_def)

lemma extended_value_decode_append:
  assumes "length pre = len"
  shows "b < 254 \<Longrightarrow> extended_value_decode (pre @ b # rest) len = Some (Some (len + 1, ucast b))"
    "extended_value_decode (pre @ 254 # encode_unsigned16 v @ rest) len = Some (Some (len + 3, ucast v))"
    "extended_value_decode (pre @ 255 # encode_unsigned32 w @ rest) len = Some (Some (len + 5, w))"
  using assms by (auto simp: extended_value_decode_def unsigned16_roundtrip unsigned32_roundtrip)

lemma extended_length_decode:
  assumes "\<not> l \<le> 4" "length pre = len"
  shows "extended_value_decode (pre @ (if l \<le> 253 then [ucast l]
     else if l \<le> 65535 then 254 # encode_unsigned16 (ucast l) else 255 # encode_unsigned32 l) @ rest) len
   = Some (Some (len + (if l \<le> 253 then 1 else if l \<le> 65535 then 3 else 5), l))"
proof -
  have "l \<le> 253 \<Longrightarrow> (ucast l :: u8) < 254"
    by (simp add: word_less_nat_alt word_le_nat_alt unsigned_ucast_eq take_bit_nat_eq_self)
  with assms(2) show ?thesis
    by (simp add: extended_value_decode_append ucast_ucast_small word_le_nat_alt)
qed

lemmas tag_kinds = IS_EXTENDED_VALUE_def IS_OPENING_TAG_def IS_CLOSING_TAG_def tag_octet_fields

lemma length_number_octets: "length (number_octets n) = (if n \<le> 14 then 0 else 1)"
  by (simp add: number_octets_def)

lemma tag_decode_encode:
  "bacnet_tag_decode (encode_tag n ctx l @ rest) =
     Some (Some (length (encode_tag n ctx l),
       \<lparr>tag_number = n, tag_application = \<not> ctx, tag_context = ctx, tag_opening = False,
        tag_closing = False, len_value_type = l\<rparr>))"
proof (cases "l \<le> 4")
  case True
  then have u: "unat l \<le> 4" by (simp add: word_le_nat_alt)
  have t: "ucast l < (8 :: u8)" "ucast l \<noteq> (5 :: u8)" "ucast l \<noteq> (6 :: u8)" "ucast l \<noteq> (7 :: u8)"
    using u by (auto simp: word_less_nat_alt word_unat_eq_iff unsigned_ucast_eq take_bit_nat_eq_self)
  have "ucast (ucast l :: u8) = l" using u by (intro ucast_ucast_small) simp
  with True t show ?thesis
    by (simp add: encode_tag_octet bacnet_tag_decode_def tag_number_decode_octet tag_kinds)
next
  case False
  then show ?thesis
    using extended_length_decode [OF False, of "tag_octet ctx n 5 # number_octets n" _ rest]
    by (simp add: encode_tag_octet bacnet_tag_decode_def tag_number_decode_octet tag_kinds)
qed

lemma tag_decode_opening:
  "bacnet_tag_decode (encode_opening_tag n @ rest) =
     Some (Some (length (encode_opening_tag n),
       \<lparr>tag_number = n, tag_application = False, tag_context = False, tag_opening = True,
        tag_closing = False, len_value_type = 0\<rparr>))"
  by (simp add: opening_tag_octet bacnet_tag_decode_def tag_number_decode_octet tag_kinds)

lemma tag_decode_closing:
  "bacnet_tag_decode (encode_closing_tag n @ rest) =
     Some (Some (length (encode_closing_tag n),
       \<lparr>tag_number = n, tag_application = False, tag_context = False, tag_opening = False,
        tag_closing = True, len_value_type = 0\<rparr>))"
  by (simp add: closing_tag_octet bacnet_tag_decode_def tag_number_decode_octet tag_kinds)

text \<open>The decoder reads only what it was given, and a tag it finds takes 1 to 7 of those octets.\<close>

lemma tag_number_decode_safe:
  "wp (bacnet_tag_number_decode apdu)
     (\<lambda>r. case r of None \<Rightarrow> True | Some (len, _) \<Rightarrow> 0 < len \<and> len \<le> 2 \<and> len \<le> length apdu)"
  by (auto simp: bacnet_tag_number_decode_def)

lemma extended_value_decode_safe:
  "wp (extended_value_decode apdu len)
     (\<lambda>r. case r of None \<Rightarrow> True | Some (n, _) \<Rightarrow> len < n \<and> n \<le> len + 5 \<and> n \<le> length apdu)"
  by (auto simp: extended_value_decode_def decode_unsigned32_def decode_unsigned16_def wp_def Let_def)

lemma tag_decode_safe:
  "wp (bacnet_tag_decode apdu)
     (\<lambda>r. case r of None \<Rightarrow> True | Some (len, _) \<Rightarrow> 0 < len \<and> len \<le> 7 \<and> len \<le> length apdu)"
proof (cases "apdu = []")
  case False
  then show ?thesis
    unfolding bacnet_tag_decode_def wp_bind wp_if
    by (auto intro!: wp_mono [OF tag_number_decode_safe] wp_mono [OF extended_value_decode_safe]
        simp: Let_def split: option.splits)
qed (simp add: bacnet_tag_decode_def)

lemma tag_decode_consumes: "bacnet_tag_decode apdu = Some (Some (len, tag)) \<Longrightarrow>
   0 < len \<and> len \<le> 7 \<and> len \<le> length apdu"
  using tag_decode_safe [of apdu] by simp

lemma tag_decode_defined: "bacnet_tag_decode apdu \<noteq> None"
  using tag_decode_safe [of apdu] by (cases "bacnet_tag_decode apdu") simp_all

text \<open>The decoder without a size agrees with the one that has one, where the latter succeeds.\<close>

lemma unsized_decode_agrees:
  assumes "bacnet_tag_decode apdu = Some (Some (len, tag))"
  shows "decode_tag_number_and_value apdu = Some (len, tag_number tag, len_value_type tag)"
proof -
  from assms have a: "apdu \<noteq> []" by (auto simp: bacnet_tag_decode_def)
  with assms have "bacnet_tag_number_decode apdu \<noteq> Some None"
    by (auto simp: bacnet_tag_decode_def)
  with a obtain n number where n: "bacnet_tag_number_decode apdu = Some (Some (n, number))"
    and d: "decode_tag_number apdu = Some (n, number)"
    by (auto simp: bacnet_tag_number_decode_def decode_tag_number_def split: if_splits)
  with assms a show ?thesis
    by (auto simp: bacnet_tag_decode_def decode_tag_number_and_value_def extended_value_decode_def
        Let_def split: if_splits option.splits Option.bind_splits)
qed

section \<open>Constructed data\<close>

definition INT_MAX :: int where "INT_MAX = 2 ^ 31 - 1"

abbreviation (input) BACNET_STATUS_ERROR :: int where "BACNET_STATUS_ERROR \<equiv> -1"
abbreviation (input) BACNET_STATUS_ABORT :: int where "BACNET_STATUS_ABORT \<equiv> -2"
abbreviation (input) BACNET_STATUS_REJECT :: int where "BACNET_STATUS_REJECT \<equiv> -3"

definition bacnet_application_data_length :: "u8 \<Rightarrow> u32 \<Rightarrow> int" where
  "bacnet_application_data_length number lvt =
     (if number = BACNET_APPLICATION_TAG_NULL \<or> number = BACNET_APPLICATION_TAG_BOOLEAN then 0
      else if number \<le> BACNET_APPLICATION_TAG_OBJECT_ID then
        if uint lvt < INT_MAX then uint lvt else INT_MAX
      else 0)"

text \<open>
  One round of the loop after its tag was read: the length of the tag and its value, whether it
  counts, and the number and nesting of the enclosing tag. \<open>Some None\<close> is the return for a length
  out of range. The length of a context-specific value is added as \<^verbatim>\<open>uint32_t\<close> and converted back
  to \<^verbatim>\<open>int\<close>; that of an application value is added as \<^verbatim>\<open>int\<close>, where an overflow is undefined.
\<close>

definition enclosed_tag ::
  "nat \<Rightarrow> BACNET_TAG \<Rightarrow> u8 \<Rightarrow> u8 \<Rightarrow> (int \<times> bool \<times> u8 \<times> u8) option option" where
  "enclosed_tag len tag opening_number counter =
     (if tag_opening tag then
        Some (Some (if counter = 0 then (int len, False, tag_number tag, 1)
                    else if tag_number tag = opening_number
                    then (int len, True, opening_number, counter + 1)
                    else (int len, True, opening_number, counter)))
      else if tag_closing tag then
        Some (Some (int len, True, opening_number,
          if tag_number tag = opening_number \<and> counter > 0 then counter - 1 else counter))
      else if uint (len_value_type tag) > INT_MAX then Some None
      else if tag_context tag then
        Some (Some (sint (of_nat len + len_value_type tag), True, opening_number, counter))
      else do {
        let n = int len + bacnet_application_data_length (tag_number tag) (len_value_type tag);
        ensure (n \<le> INT_MAX);
        Some (Some (n, True, opening_number, counter)) })"

text \<open>The loop; \<open>apdu\<close> is what is left of the buffer, \<open>apdu_len\<close> how much of it was passed.\<close>

function enclosed_loop :: "bytes \<Rightarrow> int \<Rightarrow> int \<Rightarrow> u8 \<Rightarrow> u8 \<Rightarrow> int option" where
  "enclosed_loop apdu apdu_len total_len opening_number counter = do {
     r \<leftarrow> bacnet_tag_decode apdu;
     case r of
       None \<Rightarrow> Some BACNET_STATUS_ERROR
     | Some (tag_len, tag) \<Rightarrow> do {
         step \<leftarrow> enclosed_tag tag_len tag opening_number counter;
         case step of
           None \<Rightarrow> Some BACNET_STATUS_ERROR
         | Some (len, total_len_enable, opening_number, counter) \<Rightarrow>
             if counter > 0 then
               if len > 0 then do {
                 let total_len = (if total_len_enable then total_len + len else total_len);
                 let apdu_len = apdu_len + len;
                 ensure (total_len \<le> INT_MAX \<and> apdu_len \<le> INT_MAX);
                 if int (length apdu) \<le> len then Some BACNET_STATUS_ERROR
                 else enclosed_loop (drop (nat len) apdu) apdu_len total_len opening_number counter }
               else Some BACNET_STATUS_ERROR
             else Some total_len } }"
  by pat_completeness auto

termination
  by (relation "measure (\<lambda>(apdu, _). length apdu)") (auto dest: tag_decode_consumes)

declare enclosed_loop.simps [simp del]

definition bacnet_enclosed_data_length :: "bytes option \<Rightarrow> int option" where
  "bacnet_enclosed_data_length apdu =
     (case apdu of
        None \<Rightarrow> Some BACNET_STATUS_ERROR
      | Some bs \<Rightarrow>
          if length bs = 0 then Some BACNET_STATUS_ERROR
          else do {
            opening \<leftarrow> bacnet_is_opening_tag bs;
            if \<not> opening then Some BACNET_STATUS_ERROR else enclosed_loop bs 0 0 0 0 })"

end
