(* ===== verification/Bac_Enclosed.thy ===== *)
theory Bac_Enclosed
  imports Bac_Tag
begin

text \<open>
  What \<^verbatim>\<open>bacnet_enclosed_data_length\<close> computes. The specification is the grammar of BACnet data:
  a value is primitive, with an application or a context tag, or it is constructed from values
  between an opening and a closing tag. The function returns the length of the values of a
  constructed one, however they are nested, as long as tags of the same number do not enclose each
  other more than 255 times.
\<close>

datatype element =
    Primitive u8 u32 bytes
  | Context u8 bytes
  | Constructed u8 "element list"

fun encode_element :: "element \<Rightarrow> bytes" where
  "encode_element (Primitive n l bs) = encode_tag n False l @ bs"
| "encode_element (Context n bs) = encode_tag n True (of_nat (length bs)) @ bs"
| "encode_element (Constructed n es) =
     encode_opening_tag n @ concat (map encode_element es) @ encode_closing_tag n"

fun wf_element :: "element \<Rightarrow> bool" where
  "wf_element (Primitive n l bs) =
     (uint l \<le> INT_MAX \<and> int (length bs) = bacnet_application_data_length n l)"
| "wf_element (Context n bs) = (int (length bs) \<le> INT_MAX)"
| "wf_element (Constructed n es) = list_all wf_element es"

text \<open>How often tags with number \<open>m\<close> enclose each other.\<close>

fun nesting :: "u8 \<Rightarrow> element \<Rightarrow> nat" where
  "nesting m (Primitive n l bs) = 0"
| "nesting m (Context n bs) = 0"
| "nesting m (Constructed n es) = (if n = m then 1 else 0) + foldr (max \<circ> nesting m) es 0"

lemma tag_length_pos [simp]:
  "encode_tag n ctx l \<noteq> []" "encode_opening_tag n \<noteq> []" "encode_closing_tag n \<noteq> []"
  by (simp_all add: encode_tag_def encode_opening_tag_def encode_closing_tag_def)

lemma loop_step:
  assumes "bacnet_tag_decode (t @ v @ tail) = Some (Some (length t, tag))"
    and "enclosed_tag (length t) tag num c = Some (Some (int (length (t @ v)), True, num, c'))"
    and "0 < c'" "t \<noteq> []" "tail \<noteq> []" "tl0 \<le> al" "al + int (length (t @ v)) \<le> INT_MAX"
  shows "enclosed_loop (t @ v @ tail) al tl0 num c =
     enclosed_loop tail (al + int (length (t @ v))) (tl0 + int (length (t @ v))) num c'"
proof -
  have "0 < int (length t) + int (length v)" using assms(4) by (cases t) simp_all
  with assms show ?thesis by (subst enclosed_loop.simps) (simp add: Let_def)
qed

lemma context_length:
  assumes "int len + int n \<le> INT_MAX"
  shows "sint (of_nat len + of_nat n :: u32) = int len + int n"
  using assms by (simp add: INT_MAX_def signed_of_nat flip: of_nat_add) (simp add: signed_take_bit_int_eq_self)

text \<open>
  Passing a value: the loop continues behind it with its length counted, its nesting counter as
  before.
\<close>

definition passes :: "u8 \<Rightarrow> bytes \<Rightarrow> nat \<Rightarrow> bool" where
  "passes num bs depth \<longleftrightarrow>
     (\<forall>tail al tl0 c. 0 < c \<longrightarrow> unat c + depth \<le> 255 \<longrightarrow> tail \<noteq> [] \<longrightarrow> 0 \<le> al \<longrightarrow> tl0 \<le> al \<longrightarrow>
        al + int (length bs) \<le> INT_MAX \<longrightarrow>
        enclosed_loop (bs @ tail) al tl0 num c =
        enclosed_loop tail (al + int (length bs)) (tl0 + int (length bs)) num c)"

lemma passes_Nil: "passes num [] d"
  by (simp add: passes_def)

lemma passes_append:
  assumes "passes num xs d" "passes num ys d'"
  shows "passes num (xs @ ys) (max d d')"
  unfolding passes_def
proof (intro allI impI)
  fix tail :: bytes and al tl0 :: int and c :: u8
  assume a: "0 < c" "unat c + max d d' \<le> 255" "tail \<noteq> []" "0 \<le> al" "tl0 \<le> al"
    "al + int (length (xs @ ys)) \<le> INT_MAX"
  then have "enclosed_loop (xs @ ys @ tail) al tl0 num c =
      enclosed_loop (ys @ tail) (al + int (length xs)) (tl0 + int (length xs)) num c"
    using assms(1) by (simp add: passes_def)
  also have "\<dots> = enclosed_loop tail (al + int (length xs) + int (length ys))
      (tl0 + int (length xs) + int (length ys)) num c"
    using a assms(2) by (simp add: passes_def)
  finally show "enclosed_loop ((xs @ ys) @ tail) al tl0 num c =
      enclosed_loop tail (al + int (length (xs @ ys))) (tl0 + int (length (xs @ ys))) num c"
    by (simp add: add.assoc)
qed

lemma passes_concat:
  "(\<And>e. e \<in> set es \<Longrightarrow> passes num (encode_element e) (nesting num e)) \<Longrightarrow>
   passes num (concat (map encode_element es)) (foldr (max \<circ> nesting num) es 0)"
  by (induction es) (auto intro: passes_Nil passes_append)

lemma passes_single:
  assumes "\<And>tail. bacnet_tag_decode (t @ v @ tail) = Some (Some (length t, tag))" "t \<noteq> []"
    and "\<And>c. int (length (t @ v)) \<le> INT_MAX \<Longrightarrow>
      enclosed_tag (length t) tag num c = Some (Some (int (length (t @ v)), True, num, c))"
  shows "passes num (t @ v) 0"
  using assms loop_step [OF assms(1) assms(3) _ assms(2)] by (auto simp: passes_def)

lemma passes_primitive:
  "wf_element (Primitive n l bs) \<Longrightarrow> passes num (encode_tag n False l @ bs) 0"
  by (rule passes_single) (auto simp: tag_decode_encode enclosed_tag_def Let_def)

lemma passes_context:
  assumes "wf_element (Context n bs)"
  shows "passes num (encode_tag n True (of_nat (length bs)) @ bs) 0"
proof (rule passes_single)
  have "uint (of_nat (length bs) :: u32) = int (length bs)"
    using assms by (simp add: INT_MAX_def unsigned_of_nat take_bit_nat_eq_self)
  then show "enclosed_tag (length (encode_tag n True (of_nat (length bs))))
      \<lparr>tag_number = n, tag_application = False, tag_context = True, tag_opening = False,
       tag_closing = False, len_value_type = of_nat (length bs)\<rparr> num c =
    Some (Some (int (length (encode_tag n True (of_nat (length bs)) @ bs)), True, num, c))"
    if "int (length (encode_tag n True (of_nat (length bs)) @ bs)) \<le> INT_MAX" for c
    using assms that by (simp add: enclosed_tag_def context_length)
qed (simp_all add: tag_decode_encode)

lemma passes_constructed:
  assumes "passes num bs d"
  shows "passes num (encode_opening_tag n @ bs @ encode_closing_tag n) ((if n = num then 1 else 0) + d)"
  unfolding passes_def
proof (intro allI impI)
  fix tail :: bytes and al tl0 :: int and c :: u8
  let ?o = "encode_opening_tag n" and ?z = "encode_closing_tag n"
  let ?k = "if n = num then c + 1 else c"
  assume a: "0 < c" "unat c + ((if n = num then 1 else 0) + d) \<le> 255" "tail \<noteq> []" "0 \<le> al" "tl0 \<le> al"
    "al + int (length (?o @ bs @ ?z)) \<le> INT_MAX"
  have "n = num \<Longrightarrow> unat (c + 1) = unat c + 1"
    using a(2) by (simp add: unat_word_ariths)
  then have k: "0 < ?k" "unat ?k = unat c + (if n = num then 1 else 0)"
    using a(1) by (auto simp: word_less_nat_alt)
  have "enclosed_loop (?o @ [] @ bs @ ?z @ tail) al tl0 num c =
      enclosed_loop (bs @ ?z @ tail) (al + int (length (?o @ []))) (tl0 + int (length (?o @ []))) num ?k"
    using a k by (intro loop_step) (auto simp: tag_decode_opening enclosed_tag_def)
  also have "\<dots> = enclosed_loop (?z @ [] @ tail) (al + int (length ?o) + int (length bs))
      (tl0 + int (length ?o) + int (length bs)) num ?k"
    using a k assms by (simp add: passes_def)
  also have "\<dots> = enclosed_loop tail (al + int (length ?o) + int (length bs) + int (length (?z @ [])))
      (tl0 + int (length ?o) + int (length bs) + int (length (?z @ []))) num c"
    using a k by (intro loop_step) (auto simp: tag_decode_closing enclosed_tag_def)
  finally show "enclosed_loop ((?o @ bs @ ?z) @ tail) al tl0 num c =
      enclosed_loop tail (al + int (length (?o @ bs @ ?z))) (tl0 + int (length (?o @ bs @ ?z))) num c"
    by (simp add: add.assoc)
qed

lemma element_passes: "wf_element e \<Longrightarrow> passes num (encode_element e) (nesting num e)"
proof (induction e)
  case (Constructed n es)
  then have "passes num (concat (map encode_element es)) (foldr (max \<circ> nesting num) es 0)"
    by (intro passes_concat) (auto simp: list_all_iff)
  then show ?case using passes_constructed by simp
qed (auto intro: passes_primitive passes_context)

lemma enclosed_opens:
  assumes "rest \<noteq> []"
  shows "bacnet_enclosed_data_length (Some (encode_opening_tag n @ rest)) =
    enclosed_loop rest (int (length (encode_opening_tag n))) 0 n 1"
proof -
  have "int (length (encode_opening_tag n)) \<le> INT_MAX"
    by (simp add: encode_opening_tag_def number_octets_def INT_MAX_def)
  then have "enclosed_loop (encode_opening_tag n @ rest) 0 0 0 0 =
      enclosed_loop rest (int (length (encode_opening_tag n))) 0 n 1"
    using assms
    by (subst enclosed_loop.simps) (simp add: tag_decode_opening enclosed_tag_def Let_def)
  moreover have "bacnet_is_opening_tag (encode_opening_tag n @ rest) = Some True"
    by (simp add: bacnet_is_opening_tag_def opening_tag_octet tag_kinds)
  ultimately show ?thesis by (simp add: bacnet_enclosed_data_length_def)
qed

lemma enclosed_measured:
  assumes "wf_element (Constructed n es)" "nesting n (Constructed n es) \<le> 255"
    and "int (length (encode_element (Constructed n es))) \<le> INT_MAX"
  shows "bacnet_enclosed_data_length (Some (encode_element (Constructed n es) @ rest)) =
    Some (int (length (concat (map encode_element es))))"
proof -
  let ?o = "encode_opening_tag n" and ?z = "encode_closing_tag n"
  let ?bs = "concat (map encode_element es)"
  have p: "passes n ?bs (foldr (max \<circ> nesting n) es 0)"
    using assms(1) by (intro passes_concat) (auto simp: list_all_iff element_passes)
  have "bacnet_enclosed_data_length (Some (encode_element (Constructed n es) @ rest)) =
      enclosed_loop (?bs @ ?z @ rest) (int (length ?o)) 0 n 1"
    using enclosed_opens [of "?bs @ ?z @ rest"] by simp
  also have "\<dots> = enclosed_loop (?z @ rest) (int (length ?o) + int (length ?bs)) (int (length ?bs)) n 1"
    using p assms by (simp add: passes_def)
  also have "\<dots> = Some (int (length ?bs))"
    by (subst enclosed_loop.simps) (simp add: tag_decode_closing enclosed_tag_def)
  finally show ?thesis .
qed

text \<open>
  C29. The function returns the exact number of octets between the opening tag and its closing tag,
  whatever follows, for all data of the grammar in which tags with the number of the outer one are
  nested at most 255 deep and which is shorter than \<open>2 ^ 31\<close> octets.
\<close>

theorem enclosed_length_correct:
  assumes "wf_element (Constructed n es)" "nesting n (Constructed n es) \<le> 255"
    and "int (length (encode_element (Constructed n es))) \<le> INT_MAX"
  shows "bacnet_enclosed_data_length (Some (encode_element (Constructed n es) @ rest)) =
    Some (int (length (concat (map encode_element es))))"
  using assms by (rule enclosed_measured)

theorem enclosed_length_correct_witness:
  "bacnet_enclosed_data_length (Some (encode_element (Constructed 3
     [Primitive 1 1 [], Context 3 [7, 8], Constructed 3 [Primitive 2 1 [9]]]) @ [1, 2])) = Some 8"
proof -
  let ?es = "[Primitive 1 1 [], Context 3 [7, 8], Constructed 3 [Primitive 2 1 [9]]]"
  have "wf_element (Constructed 3 ?es)" "nesting 3 (Constructed 3 ?es) \<le> 255"
    by (simp_all add: INT_MAX_def bacnet_application_data_length_def)
  moreover have "int (length (encode_element (Constructed 3 ?es))) \<le> INT_MAX"
    "int (length (concat (map encode_element ?es))) = 8"
    by (simp_all add: INT_MAX_def encode_tag_def encode_opening_tag_def encode_closing_tag_def
        number_octets_def)
  ultimately show ?thesis using enclosed_length_correct [of 3 ?es "[1, 2]"] by simp
qed

section \<open>Where the counters overflow\<close>

lemma nested_openings:
  assumes "0 < c" "unat c + k = 255" "n \<le> 14" "0 \<le> al" "tl0 \<le> al" "al + int (Suc k) \<le> INT_MAX"
  shows "enclosed_loop (replicate (Suc k) (tag_octet True n 6) @ rest) al tl0 n c = Some (tl0 + int k)"
  using assms
proof (induction k arbitrary: c al tl0)
  case 0
  then have "c + 1 = 0" by (simp add: word_unat_eq_iff unat_word_ariths)
  with 0 show ?case
    using tag_decode_opening [of n rest] less_irrefl [of "0 :: u8"]
    by (subst enclosed_loop.simps) (auto simp: opening_tag_octet number_octets_def enclosed_tag_def)
next
  case (Suc k)
  have u: "unat (c + 1) = unat c + 1" using Suc.prems(2) by (simp add: unat_word_ariths)
  then have "0 < c + 1" by (simp add: word_less_nat_alt)
  moreover have "enclosed_loop ([tag_octet True n 6] @ [] @ replicate (Suc k) (tag_octet True n 6) @ rest) al tl0 n c =
     enclosed_loop (replicate (Suc k) (tag_octet True n 6) @ rest)
       (al + int (length ([tag_octet True n 6] @ []))) (tl0 + int (length ([tag_octet True n 6] @ []))) n (c + 1)"
    using Suc.prems \<open>0 < c + 1\<close> tag_decode_opening [of n "replicate (Suc k) (tag_octet True n 6) @ rest"]
    by (intro loop_step) (auto simp: opening_tag_octet number_octets_def enclosed_tag_def)
  ultimately show ?case using Suc u by simp
qed

text \<open>
  Two inputs a peer can send defeat the measurement. After 256 opening tags with the same number
  the 8-bit counter is 0 again, and the function returns 254 as if the data were complete, whatever
  follows. An application value whose tag announces the largest length of a 32-bit \<^verbatim>\<open>int\<close> makes the
  sum of the lengths overflow, which is undefined.
\<close>

lemma enclosed_length_overflows:
  assumes "n \<le> 14"
  shows "bacnet_enclosed_data_length (Some (concat (replicate 256 (encode_opening_tag n)) @ rest)) =
      Some 254 \<and>
    bacnet_enclosed_data_length
      (Some (encode_opening_tag n @ encode_tag BACNET_APPLICATION_TAG_OCTET_STRING False 0x7FFFFFFF @ rest)) =
      None"
proof (intro conjI)
  have o: "encode_opening_tag n = [tag_octet True n 6]"
    using assms by (simp add: opening_tag_octet number_octets_def)
  have r: "replicate 256 (tag_octet True n 6) = tag_octet True n 6 # replicate 255 (tag_octet True n 6)"
    by (simp add: replicate_Suc [symmetric] del: replicate_Suc)
  show "bacnet_enclosed_data_length (Some (concat (replicate 256 (encode_opening_tag n)) @ rest)) =
      Some 254"
    using enclosed_opens [of "replicate (Suc 254) (tag_octet True n 6) @ rest" n]
      nested_openings [of 1 254 n 1 0 rest] assms
    by (simp add: o r INT_MAX_def)
  show "bacnet_enclosed_data_length
      (Some (encode_opening_tag n @ encode_tag BACNET_APPLICATION_TAG_OCTET_STRING False 0x7FFFFFFF @ rest)) =
      None"
    by (subst enclosed_opens, simp, subst enclosed_loop.simps)
      (simp add: tag_decode_encode enclosed_tag_def bacnet_application_data_length_def INT_MAX_def)
qed

lemma enclosed_length_overflows_witness:
  "bacnet_enclosed_data_length (Some (concat (replicate 256 (encode_opening_tag 3)) @ [1])) = Some 254 \<and>
   bacnet_enclosed_data_length
     (Some (encode_opening_tag 3 @ encode_tag BACNET_APPLICATION_TAG_OCTET_STRING False 0x7FFFFFFF @ [1])) =
     None"
  by (rule enclosed_length_overflows) simp

end
