(* ===== verification/Bac_Str.thy ===== *)
theory Bac_Str
  imports Bac_Pdu
begin

text \<open>
  \<^verbatim>\<open>src/bacnet/bacstr.c\<close>: bit strings, character strings and octet strings, each an array of fixed
  size with the number of bits or octets in use.

  An argument that the functions compare with NULL is an \<open>option\<close>. An array is a list of its
  declared size. Every write into an array is checked, with \<open>None\<close> as the undefined case, and so is
  every read whose index the code does not itself compare with the declared size.
\<close>

section \<open>Bit strings\<close>

definition MAX_BITSTRING_BYTES :: nat where "MAX_BITSTRING_BYTES = 15"

record BACNET_BIT_STRING =
  bits_used :: u8
  bit_octets :: bytes

definition wf_bitstring :: "BACNET_BIT_STRING \<Rightarrow> bool" where
  "wf_bitstring b \<longleftrightarrow> length (bit_octets b) = MAX_BITSTRING_BYTES \<and>
     unat (bits_used b) \<le> MAX_BITSTRING_BYTES * 8"

definition bitstring_init :: "BACNET_BIT_STRING option \<Rightarrow> BACNET_BIT_STRING option" where
  "bitstring_init bit_string =
     map_option (\<lambda>b. b\<lparr>bits_used := 0, bit_octets := replicate MAX_BITSTRING_BYTES 0\<rparr>) bit_string"

definition bitstring_set_bit :: "BACNET_BIT_STRING option \<Rightarrow> u8 \<Rightarrow> bool \<Rightarrow> BACNET_BIT_STRING option option" where
  "bitstring_set_bit bit_string bit_number v =
     (case bit_string of
        None \<Rightarrow> Some None
      | Some b \<Rightarrow>
          let byte_number = unat bit_number div 8 in
          if byte_number < MAX_BITSTRING_BYTES then do {
            let b = (if unat (bits_used b) < unat bit_number + 1
                     then b\<lparr>bits_used := bit_number + 1\<rparr> else b);
            let bit_mask = push_bit (unat bit_number - byte_number * 8) 1;
            old \<leftarrow> rd (bit_octets b) byte_number;
            octets \<leftarrow> write_at (bit_octets b) byte_number [if v then old OR bit_mask else old AND NOT bit_mask];
            Some (Some (b\<lparr>bit_octets := octets\<rparr>)) }
          else Some (Some b))"

definition bitstring_bit :: "BACNET_BIT_STRING option \<Rightarrow> u8 \<Rightarrow> bool" where
  "bitstring_bit bit_string bit_number =
     (case bit_string of
        None \<Rightarrow> False
      | Some b \<Rightarrow>
          let byte_number = unat bit_number div 8 in
          if unat bit_number < MAX_BITSTRING_BYTES * 8
          then bit_octets b ! byte_number AND push_bit (unat bit_number - byte_number * 8) 1 \<noteq> 0
          else False)"

definition bitstring_bits_used :: "BACNET_BIT_STRING option \<Rightarrow> u8" where
  "bitstring_bits_used bit_string = (case bit_string of None \<Rightarrow> 0 | Some b \<Rightarrow> bits_used b)"

definition bitstring_bits_used_set ::
  "BACNET_BIT_STRING option \<Rightarrow> u8 \<Rightarrow> bool \<times> BACNET_BIT_STRING option" where
  "bitstring_bits_used_set bit_string n =
     (bit_string \<noteq> None, map_option (\<lambda>b. b\<lparr>bits_used := n\<rparr>) bit_string)"

definition bitstring_bytes_used :: "BACNET_BIT_STRING option \<Rightarrow> u8" where
  "bitstring_bytes_used bit_string =
     (case bit_string of
        None \<Rightarrow> 0
      | Some b \<Rightarrow> if bits_used b \<noteq> 0 then (bits_used b - 1) div 8 + 1 else 0)"

definition bitstring_octet :: "BACNET_BIT_STRING option \<Rightarrow> u8 \<Rightarrow> u8" where
  "bitstring_octet bit_string octet_index =
     (case bit_string of
        None \<Rightarrow> 0
      | Some b \<Rightarrow> if unat octet_index < MAX_BITSTRING_BYTES then bit_octets b ! unat octet_index else 0)"

definition bitstring_set_octet ::
  "BACNET_BIT_STRING option \<Rightarrow> u8 \<Rightarrow> u8 \<Rightarrow> (bool \<times> BACNET_BIT_STRING option) option" where
  "bitstring_set_octet bit_string index octet =
     (case bit_string of
        None \<Rightarrow> Some (False, None)
      | Some b \<Rightarrow>
          if unat index < MAX_BITSTRING_BYTES then do {
            octets \<leftarrow> write_at (bit_octets b) (unat index) [octet];
            Some (True, Some (b\<lparr>bit_octets := octets\<rparr>)) }
          else Some (False, Some b))"

definition bitstring_set_bits_used ::
  "BACNET_BIT_STRING option \<Rightarrow> u8 \<Rightarrow> u8 \<Rightarrow> bool \<times> BACNET_BIT_STRING option" where
  "bitstring_set_bits_used bit_string bytes_used unused_bits =
     (case bit_string of
        None \<Rightarrow> (False, None)
      | Some b \<Rightarrow>
          if bytes_used \<noteq> 0 then (True, Some (b\<lparr>bits_used := bytes_used * 8 - unused_bits\<rparr>))
          else (False, Some b))"

definition bitstring_bits_capacity :: "BACNET_BIT_STRING option \<Rightarrow> nat" where
  "bitstring_bits_capacity bit_string =
     (if bit_string \<noteq> None then min (MAX_BITSTRING_BYTES * 8) 256 else 0)"

definition bitstring_copy ::
  "BACNET_BIT_STRING option \<Rightarrow> BACNET_BIT_STRING option \<Rightarrow> bool \<times> BACNET_BIT_STRING option" where
  "bitstring_copy dest src =
     (case (dest, src) of (Some d, Some s) \<Rightarrow> (True, Some s) | _ \<Rightarrow> (False, dest))"

text \<open>
  \<^verbatim>\<open>bitstring_same\<close> compares the full octets and then the used bits of the octet behind them, also
  when no bit of it is used.
\<close>

definition bitstring_same ::
  "BACNET_BIT_STRING option \<Rightarrow> BACNET_BIT_STRING option \<Rightarrow> bool option" where
  "bitstring_same bitstring1 bitstring2 =
     (case (bitstring1, bitstring2) of
        (Some b1, Some b2) \<Rightarrow>
          let bytes_used = unat (bits_used b1) div 8 in
          if bits_used b1 = bits_used b2 \<and> bytes_used \<le> MAX_BITSTRING_BYTES then
            if take bytes_used (bit_octets b1) \<noteq> take bytes_used (bit_octets b2) then Some False
            else do {
              let compare_mask = drop_bit (8 - unat (bits_used b1) mod 8) (0xFF :: u8);
              x \<leftarrow> rd (bit_octets b1) bytes_used;
              y \<leftarrow> rd (bit_octets b2) bytes_used;
              Some (x AND compare_mask = y AND compare_mask) }
          else Some False
      | _ \<Rightarrow> Some False)"

text \<open>The loop of \<^verbatim>\<open>bitstring_init_ascii\<close> over the characters left.\<close>

fun bitstring_ascii_loop :: "bytes \<Rightarrow> u8 \<Rightarrow> bool \<Rightarrow> BACNET_BIT_STRING option
    \<Rightarrow> (bool \<times> BACNET_BIT_STRING option) option" where
  "bitstring_ascii_loop [] bit_number status b = Some (status, b)"
| "bitstring_ascii_loop (c # cs) bit_number status b =
     (if bitstring_bits_capacity b \<le> unat bit_number then Some (False, b)
      else if c = 0x31 then do {
        b \<leftarrow> bitstring_set_bit b bit_number True;
        bitstring_ascii_loop cs (bit_number + 1) True b }
      else if c = 0x30 then do {
        b \<leftarrow> bitstring_set_bit b bit_number False;
        bitstring_ascii_loop cs (bit_number + 1) True b }
      else bitstring_ascii_loop cs bit_number status b)"

definition bitstring_init_ascii ::
  "BACNET_BIT_STRING option \<Rightarrow> bytes \<Rightarrow> (bool \<times> BACNET_BIT_STRING option) option" where
  "bitstring_init_ascii bit_string ascii =
     (if bit_string \<noteq> None then
        let b = bitstring_init bit_string in
        if ascii = [] then Some (True, b) else bitstring_ascii_loop ascii 0 False b
      else Some (False, None))"

section \<open>Character strings\<close>

definition MAX_CHARACTER_STRING_BYTES :: nat where "MAX_CHARACTER_STRING_BYTES = MAX_APDU - 6"

definition CHARACTER_STRING_CAPACITY :: nat where
  "CHARACTER_STRING_CAPACITY = MAX_CHARACTER_STRING_BYTES - 1"

abbreviation (input) CHARACTER_ANSI_X34 :: u8 where "CHARACTER_ANSI_X34 \<equiv> 0"
abbreviation (input) CHARACTER_UTF8 :: u8 where "CHARACTER_UTF8 \<equiv> 0"

record BACNET_CHARACTER_STRING =
  char_length :: nat
  encoding :: u8
  char_value :: bytes

definition wf_charstring :: "BACNET_CHARACTER_STRING \<Rightarrow> bool" where
  "wf_charstring c \<longleftrightarrow> char_length c \<le> CHARACTER_STRING_CAPACITY \<and>
     length (char_value c) = MAX_CHARACTER_STRING_BYTES"

text \<open>The octets in front of the given length, padded with zeros; reading past \<open>v\<close> is undefined.\<close>

definition filled :: "bytes \<Rightarrow> nat \<Rightarrow> nat \<Rightarrow> bytes option" where
  "filled v n cap = do { bs \<leftarrow> read_at v 0 n; Some (bs @ replicate (cap - n) 0) }"

definition characterstring_init ::
  "BACNET_CHARACTER_STRING option \<Rightarrow> u8 \<Rightarrow> bytes option \<Rightarrow> nat
   \<Rightarrow> (bool \<times> BACNET_CHARACTER_STRING option) option" where
  "characterstring_init char_string enc v n =
     (case char_string of
        None \<Rightarrow> Some (False, None)
      | Some c \<Rightarrow>
          let c = c\<lparr>char_length := 0, encoding := enc\<rparr> in
          if n \<le> CHARACTER_STRING_CAPACITY then
            (case v of
               Some v \<Rightarrow> do {
                 a \<leftarrow> filled v n MAX_CHARACTER_STRING_BYTES;
                 Some (True, Some (c\<lparr>char_value := a, char_length := n\<rparr>)) }
             | None \<Rightarrow> Some (True, Some (c\<lparr>char_value := replicate MAX_CHARACTER_STRING_BYTES 0\<rparr>)))
          else Some (False, Some c))"

definition characterstring_value :: "BACNET_CHARACTER_STRING option \<Rightarrow> bytes option" where
  "characterstring_value char_string = map_option char_value char_string"

definition characterstring_length :: "BACNET_CHARACTER_STRING option \<Rightarrow> nat" where
  "characterstring_length char_string =
     (case char_string of
        None \<Rightarrow> 0
      | Some c \<Rightarrow> if char_length c > CHARACTER_STRING_CAPACITY then CHARACTER_STRING_CAPACITY
                  else char_length c)"

definition characterstring_capacity :: "BACNET_CHARACTER_STRING option \<Rightarrow> nat" where
  "characterstring_capacity char_string =
     (if char_string \<noteq> None then CHARACTER_STRING_CAPACITY else 0)"

definition characterstring_encoding :: "BACNET_CHARACTER_STRING option \<Rightarrow> u8" where
  "characterstring_encoding char_string = (case char_string of None \<Rightarrow> 0 | Some c \<Rightarrow> encoding c)"

definition characterstring_set_encoding ::
  "BACNET_CHARACTER_STRING option \<Rightarrow> u8 \<Rightarrow> bool \<times> BACNET_CHARACTER_STRING option" where
  "characterstring_set_encoding char_string enc =
     (char_string \<noteq> None, map_option (\<lambda>c. c\<lparr>encoding := enc\<rparr>) char_string)"

definition characterstring_copy ::
  "BACNET_CHARACTER_STRING option \<Rightarrow> BACNET_CHARACTER_STRING option
   \<Rightarrow> (bool \<times> BACNET_CHARACTER_STRING option) option" where
  "characterstring_copy dest src =
     (if dest \<noteq> None \<and> src \<noteq> None
      then characterstring_init dest (characterstring_encoding src) (characterstring_value src)
             (characterstring_length src)
      else Some (False, dest))"

definition characterstring_same ::
  "BACNET_CHARACTER_STRING option \<Rightarrow> BACNET_CHARACTER_STRING option \<Rightarrow> bool" where
  "characterstring_same dest src =
     (case (src, dest) of
        (Some s, Some d) \<Rightarrow>
          encoding s = encoding d \<and> char_length s = char_length d \<and>
          char_length s \<le> MAX_CHARACTER_STRING_BYTES \<and>
          take (char_length s) (char_value s) = take (char_length s) (char_value d)
      | (Some s, None) \<Rightarrow> char_length s = 0
      | (None, Some d) \<Rightarrow> char_length d = 0
      | (None, None) \<Rightarrow> False)"

definition characterstring_append ::
  "BACNET_CHARACTER_STRING option \<Rightarrow> bytes \<Rightarrow> nat \<Rightarrow> (bool \<times> BACNET_CHARACTER_STRING option) option" where
  "characterstring_append char_string v n =
     (case char_string of
        None \<Rightarrow> Some (False, None)
      | Some c \<Rightarrow>
          if n + char_length c \<le> CHARACTER_STRING_CAPACITY then do {
            bs \<leftarrow> read_at v 0 n;
            a \<leftarrow> write_at (char_value c) (char_length c) bs;
            Some (True, Some (c\<lparr>char_value := a, char_length := char_length c + n\<rparr>)) }
          else Some (False, Some c))"

definition characterstring_truncate ::
  "BACNET_CHARACTER_STRING option \<Rightarrow> nat \<Rightarrow> bool \<times> BACNET_CHARACTER_STRING option" where
  "characterstring_truncate char_string n =
     (case char_string of
        None \<Rightarrow> (False, None)
      | Some c \<Rightarrow> if n \<le> CHARACTER_STRING_CAPACITY then (True, Some (c\<lparr>char_length := n\<rparr>))
                  else (False, Some c))"

text \<open>The number of octets before the terminating zero that do not continue a UTF-8 sequence.\<close>

definition characterstring_utf8_length :: "BACNET_CHARACTER_STRING \<Rightarrow> nat" where
  "characterstring_utf8_length c =
     length (filter (\<lambda>b. b AND 0xC0 \<noteq> 0x80) (takeWhile (\<lambda>b. b \<noteq> 0) (char_value c)))"

section \<open>Octet strings\<close>

definition MAX_OCTET_STRING_BYTES :: nat where "MAX_OCTET_STRING_BYTES = MAX_APDU - 6"

record BACNET_OCTET_STRING =
  octet_length :: nat
  octet_value :: bytes

definition wf_octetstring :: "BACNET_OCTET_STRING \<Rightarrow> bool" where
  "wf_octetstring c \<longleftrightarrow> octet_length c \<le> MAX_OCTET_STRING_BYTES \<and>
     length (octet_value c) = MAX_OCTET_STRING_BYTES"

definition octetstring_init ::
  "BACNET_OCTET_STRING option \<Rightarrow> bytes option \<Rightarrow> nat \<Rightarrow> (bool \<times> BACNET_OCTET_STRING option) option" where
  "octetstring_init octet_string v n =
     (case octet_string of
        None \<Rightarrow> Some (False, None)
      | Some c \<Rightarrow>
          if n \<le> MAX_OCTET_STRING_BYTES then
            (case v of
               Some v \<Rightarrow> do {
                 a \<leftarrow> filled v n MAX_OCTET_STRING_BYTES;
                 Some (True, Some (c\<lparr>octet_value := a, octet_length := n\<rparr>)) }
             | None \<Rightarrow> Some (True, Some (c\<lparr>octet_value := replicate MAX_OCTET_STRING_BYTES 0,
                                            octet_length := 0\<rparr>)))
          else Some (False, Some c))"

text \<open>
  \<^verbatim>\<open>isalnum\<close> in the C locale, and \<^verbatim>\<open>strtol\<close> to base 16 of the two characters of a pair, the first of
  which is a digit or a letter: a character that is not a hexadecimal digit ends the number.
\<close>

definition isalnum :: "u8 \<Rightarrow> bool" where
  "isalnum c = (0x30 \<le> c \<and> c \<le> 0x39 \<or> 0x41 \<le> c \<and> c \<le> 0x5A \<or> 0x61 \<le> c \<and> c \<le> 0x7A)"

definition hex_digit :: "u8 \<Rightarrow> u8 option" where
  "hex_digit c =
     (if 0x30 \<le> c \<and> c \<le> 0x39 then Some (c - 0x30)
      else if 0x41 \<le> c \<and> c \<le> 0x46 then Some (c - 0x41 + 10)
      else if 0x61 \<le> c \<and> c \<le> 0x66 then Some (c - 0x61 + 10)
      else None)"

definition strtol_pair :: "u8 \<Rightarrow> u8 \<Rightarrow> u8" where
  "strtol_pair a b =
     (case hex_digit a of
        None \<Rightarrow> 0
      | Some x \<Rightarrow> (case hex_digit b of None \<Rightarrow> x | Some y \<Rightarrow> x * 16 + y))"

fun hex_loop :: "bytes \<Rightarrow> bool \<Rightarrow> BACNET_OCTET_STRING \<Rightarrow> (bool \<times> BACNET_OCTET_STRING) option" where
  "hex_loop [] status c = Some (status, c)"
| "hex_loop [a] status c = (if \<not> isalnum a then Some (status, c) else Some (False, c))"
| "hex_loop (a # b # cs) status c =
     (if \<not> isalnum a then hex_loop (b # cs) status c
      else if octet_length c \<le> MAX_OCTET_STRING_BYTES then do {
        v \<leftarrow> write_at (octet_value c) (octet_length c) [strtol_pair a b];
        hex_loop cs True (c\<lparr>octet_value := v, octet_length := octet_length c + 1\<rparr>) }
      else Some (False, c))"

definition octetstring_init_ascii_hex ::
  "BACNET_OCTET_STRING option \<Rightarrow> bytes option \<Rightarrow> (bool \<times> BACNET_OCTET_STRING option) option" where
  "octetstring_init_ascii_hex octet_string ascii_hex =
     (case (octet_string, ascii_hex) of
        (Some c, Some a) \<Rightarrow>
          let c = c\<lparr>octet_length := 0\<rparr> in
          if a = [] then Some (True, Some c)
          else do { (status, c) \<leftarrow> hex_loop a False c; Some (status, Some c) }
      | _ \<Rightarrow> Some (False, octet_string))"

definition octetstring_value :: "BACNET_OCTET_STRING option \<Rightarrow> bytes option" where
  "octetstring_value octet_string = map_option octet_value octet_string"

definition octetstring_length :: "BACNET_OCTET_STRING option \<Rightarrow> nat" where
  "octetstring_length octet_string =
     (case octet_string of
        None \<Rightarrow> 0
      | Some c \<Rightarrow> if octet_length c > MAX_OCTET_STRING_BYTES then MAX_OCTET_STRING_BYTES
                  else octet_length c)"

definition octetstring_capacity :: "BACNET_OCTET_STRING option \<Rightarrow> nat" where
  "octetstring_capacity octet_string = (if octet_string \<noteq> None then MAX_OCTET_STRING_BYTES else 0)"

definition octetstring_copy ::
  "BACNET_OCTET_STRING option \<Rightarrow> BACNET_OCTET_STRING option
   \<Rightarrow> (bool \<times> BACNET_OCTET_STRING option) option" where
  "octetstring_copy dest src = octetstring_init dest (octetstring_value src) (octetstring_length src)"

text \<open>\<open>dest\<close> is the caller's array of \<open>n\<close> octets; the result is the return value and that array.\<close>

definition octetstring_copy_value ::
  "bytes option \<Rightarrow> nat \<Rightarrow> BACNET_OCTET_STRING option \<Rightarrow> (nat \<times> bytes option) option" where
  "octetstring_copy_value dest n src =
     (case (src, dest) of
        (Some s, Some d) \<Rightarrow>
          if n \<le> octet_length s then do {
            bs \<leftarrow> read_at (octet_value s) 0 (octet_length s);
            d \<leftarrow> write_at d 0 bs;
            Some (octet_length s, Some d) }
          else Some (0, dest)
      | _ \<Rightarrow> Some (0, dest))"

definition octetstring_append ::
  "BACNET_OCTET_STRING option \<Rightarrow> bytes \<Rightarrow> nat \<Rightarrow> (bool \<times> BACNET_OCTET_STRING option) option" where
  "octetstring_append octet_string v n =
     (case octet_string of
        None \<Rightarrow> Some (False, None)
      | Some c \<Rightarrow>
          if n + octet_length c \<le> MAX_OCTET_STRING_BYTES then do {
            bs \<leftarrow> read_at v 0 n;
            a \<leftarrow> write_at (octet_value c) (octet_length c) bs;
            Some (True, Some (c\<lparr>octet_value := a, octet_length := octet_length c + n\<rparr>)) }
          else Some (False, Some c))"

definition octetstring_truncate ::
  "BACNET_OCTET_STRING option \<Rightarrow> nat \<Rightarrow> bool \<times> BACNET_OCTET_STRING option" where
  "octetstring_truncate octet_string n =
     (case octet_string of
        None \<Rightarrow> (False, None)
      | Some c \<Rightarrow> if n \<le> MAX_OCTET_STRING_BYTES then (True, Some (c\<lparr>octet_length := n\<rparr>))
                  else (False, Some c))"

definition octetstring_value_same ::
  "BACNET_OCTET_STRING option \<Rightarrow> BACNET_OCTET_STRING option \<Rightarrow> bool" where
  "octetstring_value_same octet_string1 octet_string2 =
     (case (octet_string1, octet_string2) of
        (Some a, Some b) \<Rightarrow>
          octet_length a = octet_length b \<and> octet_length a \<le> MAX_OCTET_STRING_BYTES \<and>
          take (octet_length a) (octet_value a) = take (octet_length a) (octet_value b)
      | _ \<Rightarrow> False)"

section \<open>Bit strings as sequences of bits\<close>

lemma sub_div_8: "(n :: nat) - n div 8 * 8 = n mod 8"
  by (simp add: minus_div_mult_eq_mod)

lemma bitstring_bit_iff:
  "bitstring_bit (Some b) n \<longleftrightarrow>
     unat n < MAX_BITSTRING_BYTES * 8 \<and> bit (bit_octets b ! (unat n div 8)) (unat n mod 8)"
  by (simp add: bitstring_bit_def sub_div_8 Let_def bit_iff_and_push_bit_not_eq_0)

text \<open>A string of the declared size with one bit set, in range.\<close>

definition with_bit :: "BACNET_BIT_STRING \<Rightarrow> u8 \<Rightarrow> bool \<Rightarrow> BACNET_BIT_STRING" where
  "with_bit b n v =
     (let m = push_bit (unat n mod 8) 1; old = bit_octets b ! (unat n div 8) in
      b\<lparr>bits_used := max (bits_used b) (n + 1),
        bit_octets := (bit_octets b)[unat n div 8 := if v then old OR m else old AND NOT m]\<rparr>)"

lemma write_at_one: "i < length xs \<Longrightarrow> write_at xs i [x] = Some (xs[i := x])"
  by (simp add: write_at_def upd_conv_take_nth_drop)

lemma bit_number_Suc: "unat n < MAX_BITSTRING_BYTES * 8 \<Longrightarrow> unat (n + 1 :: u8) = unat n + 1"
  by (simp add: unat_word_ariths MAX_BITSTRING_BYTES_def)

lemma set_bit_in_range:
  assumes "wf_bitstring b" "unat n < MAX_BITSTRING_BYTES * 8"
  shows "bitstring_set_bit (Some b) n v = Some (Some (with_bit b n v))"
proof -
  have "unat n div 8 < MAX_BITSTRING_BYTES" using assms(2) by (rule less_mult_imp_div_less)
  moreover have "max (bits_used b) (n + 1) = (if unat (bits_used b) < unat n + 1 then n + 1 else bits_used b)"
    using bit_number_Suc [OF assms(2)] by (auto simp: max_def word_le_nat_alt word_unat_eq_iff)
  ultimately show ?thesis
    using assms(1) by (simp add: bitstring_set_bit_def with_bit_def wf_bitstring_def Let_def sub_div_8 write_at_one rd_def
        del: write_at_Some)
qed

lemma set_bit_out_of_range:
  "MAX_BITSTRING_BYTES * 8 \<le> unat n \<Longrightarrow> bitstring_set_bit (Some b) n v = Some (Some b)"
  by (simp add: bitstring_set_bit_def Let_def MAX_BITSTRING_BYTES_def)

lemma bits_used_with_bit:
  assumes "unat n < MAX_BITSTRING_BYTES * 8"
  shows "unat (bits_used (with_bit b n v)) = max (unat (bits_used b)) (unat n + 1)"
  using bit_number_Suc [OF assms] by (auto simp: with_bit_def Let_def max_def word_le_nat_alt)

lemma with_bit_wf: "wf_bitstring b \<Longrightarrow> unat n < MAX_BITSTRING_BYTES * 8 \<Longrightarrow> wf_bitstring (with_bit b n v)"
  using bits_used_with_bit [of n b v] by (simp add: wf_bitstring_def) (simp add: with_bit_def Let_def)

lemma bit_with_bit:
  assumes "wf_bitstring b" "unat n < MAX_BITSTRING_BYTES * 8"
  shows "bitstring_bit (Some (with_bit b n v)) m = (if m = n then v else bitstring_bit (Some b) m)"
proof -
  have n: "unat n div 8 < MAX_BITSTRING_BYTES" using assms(2) by (rule less_mult_imp_div_less)
  have eq: "unat m div 8 = unat n div 8 \<Longrightarrow> unat m mod 8 = unat n mod 8 \<Longrightarrow> m = n"
    by (metis div_mult_mod_eq word_unat_eq_iff)
  show ?thesis
    using assms n eq
    by (auto simp: with_bit_def Let_def bitstring_bit_iff wf_bitstring_def nth_list_update bit_simps)
qed

text \<open>The digits of a text, and what the loop makes of them.\<close>

definition binary_digits :: "bytes \<Rightarrow> bool list" where
  "binary_digits cs = map (\<lambda>c. c = 0x31) (filter (\<lambda>c. c = 0x31 \<or> c = 0x30) cs)"

definition parsed :: "u8 \<Rightarrow> bool list \<Rightarrow> bool \<Rightarrow> BACNET_BIT_STRING \<Rightarrow> bool \<Rightarrow> BACNET_BIT_STRING \<Rightarrow> bool" where
  "parsed n ds status b st r \<longleftrightarrow>
     st = (status \<or> ds \<noteq> []) \<and> wf_bitstring r \<and> unat (bits_used r) = unat n + length ds \<and>
     (\<forall>i. bitstring_bit (Some r) i =
        (if unat n \<le> unat i \<and> unat i < unat n + length ds then ds ! (unat i - unat n)
         else bitstring_bit (Some b) i))"

lemma parsed_digit:
  assumes "wf_bitstring b" "unat n < MAX_BITSTRING_BYTES * 8" "parsed (n + 1) ds True (with_bit b n v) st r"
  shows "parsed n (v # ds) status b st r"
proof -
  note n1 = bit_number_Suc [OF assms(2)]
  have bits: "bitstring_bit (Some r) i =
      (if unat n + 1 \<le> unat i \<and> unat i < unat n + 1 + length ds then ds ! (unat i - (unat n + 1))
       else if i = n then v else bitstring_bit (Some b) i)" for i
    using assms(3) n1 bit_with_bit [OF assms(1,2)] by (simp add: parsed_def)
  have "bitstring_bit (Some r) i =
      (if unat n \<le> unat i \<and> unat i < unat n + length (v # ds) then (v # ds) ! (unat i - unat n)
       else bitstring_bit (Some b) i)" for i
  proof (cases "unat i = unat n")
    case True
    then have "i = n" by (simp add: word_unat_eq_iff)
    then show ?thesis by (simp add: bits)
  next
    case False
    then have "i \<noteq> n" by blast
    with False show ?thesis by (auto simp: bits nth_Cons')
  qed
  with assms(3) n1 show ?thesis by (simp add: parsed_def)
qed

text \<open>A digit of the text sets the next bit; any other character is passed over.\<close>

lemma ascii_digit:
  assumes "wf_bitstring b" "unat n < MAX_BITSTRING_BYTES * 8" "c = 0x31 \<or> c = 0x30"
  shows "bitstring_ascii_loop (c # cs) n status (Some b) =
    bitstring_ascii_loop cs (n + 1) True (Some (with_bit b n (c = 0x31)))"
  using assms set_bit_in_range [OF assms(1,2)]
  by (auto simp: bitstring_bits_capacity_def MAX_BITSTRING_BYTES_def)

lemma ascii_loop:
  assumes "wf_bitstring b" "unat (bits_used b) = unat n"
    and "unat n + length (binary_digits cs) < MAX_BITSTRING_BYTES * 8"
  shows "\<exists>st r. bitstring_ascii_loop cs n status (Some b) = Some (st, Some r) \<and>
    parsed n (binary_digits cs) status b st r"
  using assms
proof (induction cs arbitrary: n status b)
  case Nil
  then show ?case by (auto simp: parsed_def binary_digits_def)
next
  case (Cons c cs)
  show ?case
  proof (cases "c = 0x31 \<or> c = 0x30")
    case True
    let ?v = "c = 0x31"
    have digits: "binary_digits (c # cs) = ?v # binary_digits cs"
      using True by (auto simp: binary_digits_def)
    have n: "unat n < MAX_BITSTRING_BYTES * 8" using Cons.prems(3) digits by simp
    note n1 = bit_number_Suc [OF n]
    have u: "unat (bits_used (with_bit b n ?v)) = unat (n + 1)"
      using bits_used_with_bit [OF n, of b ?v] Cons.prems(2) n1 by simp
    obtain st r where r: "bitstring_ascii_loop cs (n + 1) True (Some (with_bit b n ?v)) = Some (st, Some r)"
        "parsed (n + 1) (binary_digits cs) True (with_bit b n ?v) st r"
      using Cons.IH [OF with_bit_wf [OF Cons.prems(1) n] u, of True] Cons.prems(3) digits n1 by auto
    then show ?thesis
      using parsed_digit [OF Cons.prems(1) n r(2), of status] digits
      by (simp only: ascii_digit [OF Cons.prems(1) n True]) blast
  next
    case False
    then have "binary_digits (c # cs) = binary_digits cs" by (simp add: binary_digits_def)
    moreover have "bitstring_ascii_loop (c # cs) n status (Some b) = bitstring_ascii_loop cs n status (Some b)"
      using False Cons.prems(3) by (simp add: bitstring_bits_capacity_def MAX_BITSTRING_BYTES_def)
    ultimately show ?thesis using Cons.IH [OF Cons.prems(1,2), of status] Cons.prems(3)
      by (simp del: bitstring_ascii_loop.simps)
  qed
qed

text \<open>Whatever the text, the loop stays inside the array.\<close>

lemma ascii_loop_wf:
  "wf_bitstring b \<Longrightarrow> wp (bitstring_ascii_loop cs n status (Some b)) (\<lambda>(_, b'). pred_option wf_bitstring b')"
proof (induction cs arbitrary: n status b)
  case (Cons c cs)
  show ?case
  proof (cases "unat n < MAX_BITSTRING_BYTES * 8 \<and> (c = 0x31 \<or> c = 0x30)")
    case True
    then show ?thesis
      using Cons.IH [OF with_bit_wf [OF Cons.prems]] ascii_digit [OF Cons.prems, of n c]
      by (simp del: bitstring_ascii_loop.simps)
  next
    case False
    then show ?thesis
      using Cons.IH [OF Cons.prems] Cons.prems
      by (auto simp: bitstring_bits_capacity_def MAX_BITSTRING_BYTES_def)
  qed
qed simp

lemma bitstring_init_wf: "wf_bitstring b' \<and> bits_used b' = 0 \<and> \<not> bitstring_bit (Some b') i"
  if "bitstring_init (Some b) = Some b'"
proof -
  from that have "b' = b\<lparr>bits_used := 0, bit_octets := replicate MAX_BITSTRING_BYTES 0\<rparr>"
    by (simp add: bitstring_init_def)
  then show ?thesis
    by (auto simp: wf_bitstring_def bitstring_bit_iff less_mult_imp_div_less)
qed

section \<open>Comparison of bit strings\<close>

lemma compare_mask_bit:
  "bit (drop_bit (8 - k) (0xFF :: u8)) i \<longleftrightarrow> i < k" if "k < 8"
proof -
  have e: "(0xFF :: u8) = mask 8" by (simp add: mask_eq_exp_minus_1)
  show ?thesis using that unfolding e bit_drop_bit_eq o_def bit_mask_iff by auto
qed

text \<open>
  Two bit strings compare equal exactly when they have the same number of bits and agree on each of
  them; with all 120 bits in use the comparison reads behind the arrays.
\<close>

text \<open>A statement about the first \<open>8 * k\<close> bits is one about the bits of the first \<open>k\<close> octets.\<close>

lemma all_bits: "(\<forall>i < 8 * k. P (i div 8) (i mod 8)) \<longleftrightarrow> (\<forall>q < k. \<forall>j < (8 :: nat). P q j)"
proof (intro iffI allI impI)
  fix q j :: nat assume a: "\<forall>i < 8 * k. P (i div 8) (i mod 8)" "q < k" "j < 8"
  have "8 * q + j < 8 * k" using a(2,3) by simp
  with a show "P q j" by (auto dest!: spec [of _ "8 * q + j"])
qed (auto simp: less_mult_imp_div_less mult.commute)

lemma take_octets_eq:
  assumes "length xs = n" "length ys = n" "k \<le> n"
  shows "take k xs = take k (ys :: bytes) \<longleftrightarrow>
    (\<forall>i < 8 * k. bit (xs ! (i div 8)) (i mod 8) = bit (ys ! (i div 8)) (i mod 8))"
proof -
  have "take k xs = take k ys \<longleftrightarrow> (\<forall>q < k. xs ! q = ys ! q)"
    using assms by (auto simp: list_eq_iff_nth_eq)
  also have "\<dots> \<longleftrightarrow> (\<forall>q < k. \<forall>j < 8. bit (xs ! q) j = bit (ys ! q) j)"
    by (simp only: u8_eq_iff)
  also have "\<dots> \<longleftrightarrow> (\<forall>i < 8 * k. bit (xs ! (i div 8)) (i mod 8) = bit (ys ! (i div 8)) (i mod 8))"
    using all_bits [of k "\<lambda>q j. bit (xs ! q) j = bit (ys ! q) j"] by simp
  finally show ?thesis .
qed

lemma masked_eq:
  assumes "k < 8"
  shows "x AND drop_bit (8 - k) (0xFF :: u8) = y AND drop_bit (8 - k) 0xFF \<longleftrightarrow>
    (\<forall>j < k. bit x j = bit y j)"
proof -
  have "x AND drop_bit (8 - k) (0xFF :: u8) = y AND drop_bit (8 - k) 0xFF \<longleftrightarrow>
      (\<forall>j < 8. (bit x j \<and> j < k) = (bit y j \<and> j < k))"
    unfolding u8_eq_iff [of "_ AND _"] bit_and_iff compare_mask_bit [OF assms] ..
  also have "\<dots> \<longleftrightarrow> (\<forall>j < k. bit x j = bit y j)"
    using assms less_trans [of _ k 8] by blast
  finally show ?thesis .
qed

lemma all_less_word: "(\<forall>i < (w :: u8). P (unat i)) \<longleftrightarrow> (\<forall>n < unat w. P n)"
proof (intro iffI allI impI)
  fix n assume a: "\<forall>i < w. P (unat i)" "n < unat w"
  then have "unat (of_nat n :: u8) = n"
    using unsigned_less [of w, where ?'a = nat] by (simp add: unsigned_of_nat take_bit_nat_eq_self)
  with a show "P n" by (auto simp: word_less_nat_alt dest!: spec [of _ "of_nat n"])
qed (simp add: word_less_nat_alt)

lemma split_bits:
  "(\<forall>i < n. P (i div 8) (i mod 8)) \<longleftrightarrow>
   (\<forall>i < 8 * (n div 8). P (i div 8) (i mod 8)) \<and> (\<forall>j < n mod 8. P (n div 8) (j :: nat))"
proof (intro iffI conjI allI impI)
  fix j assume a: "\<forall>i < n. P (i div 8) (i mod 8)" "j < n mod 8"
  have j: "j < 8" using a(2) mod_less_divisor [of 8 n] by simp
  have "8 * (n div 8) + j < n" using a(2) mult_div_mod_eq [of 8 n] by linarith
  with a(1) j show "P (n div 8) j" by (auto dest!: spec [of _ "8 * (n div 8) + j"])
next
  fix i assume a: "(\<forall>i < 8 * (n div 8). P (i div 8) (i mod 8)) \<and> (\<forall>j < n mod 8. P (n div 8) j)" "i < n"
  show "P (i div 8) (i mod 8)"
  proof (cases "i < 8 * (n div 8)")
    case False
    then have "i div 8 = n div 8" using a(2) by (simp add: div_le_mono le_antisym less_eq_div_iff_mult_less_eq mult.commute)
    then show ?thesis using a by (metis mult_div_mod_eq nat_add_left_cancel_less)
  qed (use a in simp)
qed simp

lemma bitstring_same_iff:
  assumes "wf_bitstring a" "wf_bitstring b" "unat (bits_used a) < MAX_BITSTRING_BYTES * 8"
  shows "bitstring_same (Some a) (Some b) = Some (bits_used a = bits_used b \<and>
    (\<forall>i < bits_used a. bitstring_bit (Some a) i = bitstring_bit (Some b) i))"
proof -
  let ?n = "unat (bits_used a)"
  let ?P = "\<lambda>q j. bit (bit_octets a ! q) j = bit (bit_octets b ! q) j"
  have q: "?n div 8 < MAX_BITSTRING_BYTES" using assms(3) by (rule less_mult_imp_div_less)
  have "(\<forall>i < bits_used a. bitstring_bit (Some a) i = bitstring_bit (Some b) i) \<longleftrightarrow>
      (\<forall>i < bits_used a. ?P (unat i div 8) (unat i mod 8))"
    using assms(3) by (auto simp: bitstring_bit_iff word_less_nat_alt)
  also have "\<dots> \<longleftrightarrow> (\<forall>i < ?n. ?P (i div 8) (i mod 8))"
    using all_less_word [of "bits_used a" "\<lambda>i. ?P (i div 8) (i mod 8)"] by simp
  also have "\<dots> \<longleftrightarrow> (\<forall>i < 8 * (?n div 8). ?P (i div 8) (i mod 8)) \<and> (\<forall>j < ?n mod 8. ?P (?n div 8) j)"
    by (rule split_bits)
  also have "\<dots> \<longleftrightarrow> take (?n div 8) (bit_octets a) = take (?n div 8) (bit_octets b) \<and>
      (bit_octets a ! (?n div 8) AND drop_bit (8 - ?n mod 8) 0xFF =
       bit_octets b ! (?n div 8) AND drop_bit (8 - ?n mod 8) 0xFF)"
    using take_octets_eq [of "bit_octets a" MAX_BITSTRING_BYTES "bit_octets b" "?n div 8"] assms(1,2) q
      masked_eq [of "?n mod 8" "bit_octets a ! (?n div 8)" "bit_octets b ! (?n div 8)"]
    by (simp add: wf_bitstring_def)
  finally show ?thesis
    using assms(1,2) q by (auto simp: bitstring_same_def wf_bitstring_def Let_def)
qed

section \<open>Bit strings refine lists of bits\<close>

definition bits_of :: "BACNET_BIT_STRING \<Rightarrow> bool list" where
  "bits_of b = map (\<lambda>i. bitstring_bit (Some b) (of_nat i)) [0..<unat (bits_used b)]"

lemma length_bits_of [simp]: "length (bits_of b) = unat (bits_used b)"
  by (simp add: bits_of_def)

lemma nth_bits_of: "i < unat (bits_used b) \<Longrightarrow> bits_of b ! i = bitstring_bit (Some b) (of_nat i)"
  by (simp add: bits_of_def)

lemma bits_of_eq_iff:
  "bits_of a = bits_of b \<longleftrightarrow> bits_used a = bits_used b \<and>
     (\<forall>i < bits_used a. bitstring_bit (Some a) i = bitstring_bit (Some b) i)"
  using all_less_word [of "bits_used a" "\<lambda>i. bitstring_bit (Some a) (of_nat i) = bitstring_bit (Some b) (of_nat i)"]
  by (auto simp: list_eq_iff_nth_eq nth_bits_of word_unat_eq_iff)

lemma unat_of_nat_bits: "i \<le> unat (n :: u8) \<Longrightarrow> unat (of_nat i :: u8) = i"
  using unsigned_less [of n, where ?'a = nat] by (simp add: unsigned_of_nat take_bit_nat_eq_self)

lemma bits_of_set_bit:
  assumes "wf_bitstring b" "n \<le> bits_used b" "unat n < MAX_BITSTRING_BYTES * 8"
    and "bitstring_set_bit (Some b) n v = Some (Some b')"
  shows "bits_of b' = (if n < bits_used b then (bits_of b)[unat n := v] else bits_of b @ [v])"
proof (rule nth_equalityI)
  have b': "b' = with_bit b n v" using set_bit_in_range [OF assms(1,3), of v] assms(4) by simp
  have u: "unat (bits_used b') = max (unat (bits_used b)) (unat n + 1)"
    using bits_used_with_bit [OF assms(3), of b v] b' by simp
  then show len: "length (bits_of b') =
      length (if n < bits_used b then (bits_of b)[unat n := v] else bits_of b @ [v])"
    using assms(2) by (auto simp: word_less_nat_alt word_le_nat_alt)
  fix i assume "i < length (bits_of b')"
  then have i: "i < unat (bits_used b')" by simp
  have "of_nat i = n \<longleftrightarrow> i = unat n"
    using unat_of_nat_bits [of i "bits_used b'"] i by auto
  then have "bits_of b' ! i = (if i = unat n then v else bitstring_bit (Some b) (of_nat i))"
    using bit_with_bit [OF assms(1,3), of v "of_nat i"] b' i by (simp add: nth_bits_of)
  with i u assms(2) show "bits_of b' ! i =
      (if n < bits_used b then (bits_of b)[unat n := v] else bits_of b @ [v]) ! i"
    by (auto simp: word_less_nat_alt word_le_nat_alt nth_append nth_bits_of nth_list_update)
qed

text \<open>
  A bit string is a list of bits: setting a bit below the number in use replaces it, setting the
  next one appends it, reading a text appends its digits to nothing, and the comparison compares
  the lists. The comparison needs a bit to spare: it is defined below 120 bits.
\<close>

lemma bitstring_refines_list:
  assumes "wf_bitstring a" "wf_bitstring b" "unat (bits_used a) < MAX_BITSTRING_BYTES * 8"
    and "n \<le> bits_used a" "bitstring_set_bit (Some a) n v = Some (Some a')"
    and "length (binary_digits cs) < MAX_BITSTRING_BYTES * 8" "cs \<noteq> []"
    and "bitstring_init_ascii (Some b) cs = Some (status, Some b')"
  shows "bits_of a' = (if n < bits_used a then (bits_of a)[unat n := v] else bits_of a @ [v]) \<and>
    bits_of b' = binary_digits cs \<and> status = (binary_digits cs \<noteq> []) \<and>
    bitstring_same (Some a) (Some b) = Some (bits_of a = bits_of b)"
proof (intro conjI)
  have "unat n < MAX_BITSTRING_BYTES * 8"
    using assms(3,4) by (simp add: word_le_nat_alt)
  then show "bits_of a' = (if n < bits_used a then (bits_of a)[unat n := v] else bits_of a @ [v])"
    using bits_of_set_bit assms(1,4,5) by simp
  obtain b0 where b0: "bitstring_init (Some b) = Some b0" by (simp add: bitstring_init_def)
  note init = bitstring_init_wf [OF b0]
  have r: "bitstring_ascii_loop cs 0 False (Some b0) = Some (status, Some b')"
    using assms(7,8) b0 by (simp add: bitstring_init_ascii_def)
  have p: "parsed 0 (binary_digits cs) False b0 status b'"
    using ascii_loop [of b0 0 cs False] init assms(6) by (auto simp: r)
  have "bits_of b' = binary_digits cs"
  proof (rule nth_equalityI)
    show "length (bits_of b') = length (binary_digits cs)" using p by (simp add: parsed_def)
    fix i assume "i < length (bits_of b')"
    then have i: "i < unat (bits_used b')" by simp
    then have "bits_of b' ! i = bitstring_bit (Some b') (of_nat i)" by (rule nth_bits_of)
    also have "\<dots> = binary_digits cs ! i"
      using p i unat_of_nat_bits [of i "bits_used b'"] by (simp add: parsed_def)
    finally show "bits_of b' ! i = binary_digits cs ! i" .
  qed
  then show "bits_of b' = binary_digits cs" .
  show "status = (binary_digits cs \<noteq> [])" using p by (simp add: parsed_def)
  show "bitstring_same (Some a) (Some b) = Some (bits_of a = bits_of b)"
    using bitstring_same_iff [OF assms(1-3)] by (simp add: bits_of_eq_iff)
qed

section \<open>Types and overflows\<close>

lemma filled_wp: "n \<le> length v \<Longrightarrow> wp (filled v n cap) (\<lambda>a. n \<le> cap \<longrightarrow> length a = cap)"
  by (simp add: filled_def)

lemma write_at_wp:
  "off + length src \<le> length dst \<Longrightarrow> wp (write_at dst off src) (\<lambda>a. length a = length dst)"
  by simp

lemma characterstring_init_wp:
  "wp (characterstring_init (Some c) enc v n)
     (\<lambda>(st, c'). st = (n \<le> CHARACTER_STRING_CAPACITY) \<and> pred_option wf_charstring c')"
  if "wf_charstring c" "pred_option (\<lambda>v. n \<le> length v) v"
  using that
  by (cases v) (auto simp: characterstring_init_def wf_charstring_def Let_def CHARACTER_STRING_CAPACITY_def
      intro!: wp_mono [OF filled_wp])

lemma octetstring_init_wp:
  "wp (octetstring_init (Some c) v n)
     (\<lambda>(st, c'). st = (n \<le> MAX_OCTET_STRING_BYTES) \<and> pred_option wf_octetstring c')"
  if "wf_octetstring c" "pred_option (\<lambda>v. n \<le> length v) v"
  using that
  by (cases v) (auto simp: octetstring_init_def wf_octetstring_def intro!: wp_mono [OF filled_wp])

text \<open>Storing an octet and counting the bits in use.\<close>

lemma set_octet_wp:
  assumes "wf_bitstring b"
  shows "wp (bitstring_set_octet (Some b) i y) (\<lambda>(st, r). \<exists>b'. r = Some b' \<and> wf_bitstring b' \<and>
    st = (unat i < MAX_BITSTRING_BYTES) \<and>
    (\<forall>j. bitstring_octet (Some b') j = (if j = i \<and> st then y else bitstring_octet (Some b) j)))"
  using assms
  by (auto simp: bitstring_set_octet_def wf_bitstring_def write_at_one bitstring_octet_def nth_list_update
      word_unat_eq_iff simp del: write_at_Some)

lemma set_bits_used_wf:
  assumes "wf_bitstring b" "unat n \<le> MAX_BITSTRING_BYTES" "unat k \<le> 7"
  shows "pred_option wf_bitstring (snd (bitstring_set_bits_used (Some b) n k))"
proof (cases "n = 0")
  case False
  then have "0 < unat n" by (simp add: unat_gt_0)
  then have "k \<le> n * 8" "unat (n * 8) = unat n * 8"
    using assms(2,3) by (simp_all add: word_le_nat_alt unat_word_ariths MAX_BITSTRING_BYTES_def)
  then show ?thesis
    using assms by (auto simp: bitstring_set_bits_used_def wf_bitstring_def unat_sub MAX_BITSTRING_BYTES_def)
qed (use assms(1) in \<open>simp add: bitstring_set_bits_used_def\<close>)

lemma set_bit_wp:
  assumes "wf_bitstring b"
  shows "wp (bitstring_set_bit (Some b) i x) (\<lambda>r. \<exists>b'. r = Some b' \<and> wf_bitstring b' \<and>
    (\<forall>j. bitstring_bit (Some b') j =
      (if j = i \<and> unat i < MAX_BITSTRING_BYTES * 8 then x else bitstring_bit (Some b) j)))"
proof (cases "unat i < MAX_BITSTRING_BYTES * 8")
  case True
  then show ?thesis using with_bit_wf [OF assms True] bit_with_bit [OF assms True] by (simp add: set_bit_in_range [OF assms])
qed (use assms in \<open>simp add: set_bit_out_of_range\<close>)



text \<open>The counts that do not fit are accepted: 20 octets make 160 bits, more than the 120 there are.\<close>

lemma bits_used_unchecked:
  "\<exists>b b'. wf_bitstring b \<and> bitstring_set_bits_used (Some b) 20 0 = (True, Some b') \<and> \<not> wf_bitstring b'"
  by (rule exI [of _ "\<lparr>bits_used = 0, bit_octets = replicate MAX_BITSTRING_BYTES 0\<rparr>"])
    (simp add: bitstring_set_bits_used_def wf_bitstring_def MAX_BITSTRING_BYTES_def)

lemma hex_loop_overflows:
  assumes "octet_length c + k = MAX_OCTET_STRING_BYTES" "length (octet_value c) = MAX_OCTET_STRING_BYTES"
    "isalnum a"
  shows "hex_loop (concat (replicate (Suc k) [a, d])) st c = None"
  using assms
proof (induction k arbitrary: st c)
  case 0
  then show ?case by (simp add: write_at_def)
next
  case (Suc k)
  let ?c = "c\<lparr>octet_value := take (octet_length c) (octet_value c) @ [strtol_pair a d] @
      drop (Suc (octet_length c)) (octet_value c), octet_length := octet_length c + 1\<rparr>"
  have "hex_loop (concat (replicate (Suc k) [a, d])) True ?c = None"
    using Suc.prems by (intro Suc.IH) auto
  with Suc.prems show ?case by simp
qed

text \<open>
  Three functions leave their arrays. Copying an octet string out is refused when the caller's
  array is larger than the string, and overflows it when it is smaller. Reading a text with one hex
  pair more than an octet string holds stores that pair behind the array. Comparing two equal bit
  strings of 120 bits reads behind both.
\<close>

lemma string_overflows:
  assumes "wf_octetstring w" "length dest < octet_length w"
    and "isalnum a" "wf_bitstring b" "bits_used b = 120"
  shows "octetstring_copy_value (Some dest) (length dest) (Some w) = None \<and>
    octetstring_init_ascii_hex (Some w)
      (Some (concat (replicate (Suc MAX_OCTET_STRING_BYTES) [a, d]))) = None \<and>
    bitstring_same (Some b) (Some b) = None"
proof (intro conjI)
  show "octetstring_copy_value (Some dest) (length dest) (Some w) = None"
    using assms(1,2) by (simp add: octetstring_copy_value_def wf_octetstring_def write_at_def)
  show "octetstring_init_ascii_hex (Some w)
      (Some (concat (replicate (Suc MAX_OCTET_STRING_BYTES) [a, d]))) = None"
    using assms(1,3) hex_loop_overflows [of "w\<lparr>octet_length := 0\<rparr>" MAX_OCTET_STRING_BYTES a d False]
    by (simp add: octetstring_init_ascii_hex_def wf_octetstring_def del: hex_loop.simps)
  show "bitstring_same (Some b) (Some b) = None"
    using assms(4,5)
    by (simp add: bitstring_same_def wf_bitstring_def Let_def MAX_BITSTRING_BYTES_def rd_def)
qed

lemma string_overflows_witness:
  "octetstring_copy_value (Some [0]) (length [0 :: u8])
     (Some \<lparr>octet_length = 2, octet_value = replicate MAX_OCTET_STRING_BYTES 0\<rparr>) = None \<and>
   bitstring_same (Some \<lparr>bits_used = 120, bit_octets = replicate MAX_BITSTRING_BYTES 0\<rparr>)
     (Some \<lparr>bits_used = 120, bit_octets = replicate MAX_BITSTRING_BYTES 0\<rparr>) = None"
proof -
  have "wf_octetstring \<lparr>octet_length = 2, octet_value = replicate MAX_OCTET_STRING_BYTES 0\<rparr>"
    "length [0 :: u8] < octet_length \<lparr>octet_length = 2, octet_value = replicate MAX_OCTET_STRING_BYTES 0\<rparr>"
    "isalnum 0x30" "wf_bitstring \<lparr>bits_used = 120, bit_octets = replicate MAX_BITSTRING_BYTES 0\<rparr>"
    "bits_used \<lparr>bits_used = 120, bit_octets = replicate MAX_BITSTRING_BYTES 0\<rparr> = 120"
    by (simp_all add: wf_octetstring_def wf_bitstring_def isalnum_def MAX_BITSTRING_BYTES_def MAX_OCTET_STRING_BYTES_def MAX_APDU_def)
  from string_overflows [OF this] show ?thesis by blast
qed

end
