(* ===== verification/Bac_Primitive.thy ===== *)
theory Bac_Primitive
  imports Bac_Tag Bac_Str
begin

text \<open>
  The primitive values of \<^verbatim>\<open>src/bacnet/bacdcode.c\<close> and \<^verbatim>\<open>src/bacnet/bacreal.c\<close>, and the encoder and
  decoder of application data in \<^verbatim>\<open>src/bacnet/bacapp.c\<close> that selects among them.

  A value decoder is given the octets behind the tag and the length the tag announces. Its result is
  the return value of the C function and what it stored; pointers for results are not NULL. The
  outer \<open>None\<close> is a read outside the octets given. A floating point number is its bit pattern,
  which is all the code touches.
\<close>

section \<open>Helpers shared by all primitive types\<close>

text \<open>
  Every \<^verbatim>\<open>bacnet_X_application_encode\<close> measures the encoding and writes it only when it fits, and
  every \<^verbatim>\<open>bacnet_X_application_decode\<close> and \<^verbatim>\<open>bacnet_X_context_decode\<close> has the body \<open>tagged_decode\<close>:
  \<open>matches\<close> is its test of the tag, \<open>ok\<close> its test of what the value decoder returned.
\<close>

definition bounded :: "nat \<Rightarrow> bytes \<Rightarrow> bytes" where
  "bounded apdu_size apdu = (if length apdu > apdu_size then [] else apdu)"

definition tagged_decode ::
  "(BACNET_TAG \<Rightarrow> bool) \<Rightarrow> (int \<Rightarrow> bool) \<Rightarrow> (bytes \<Rightarrow> u32 \<Rightarrow> (int \<times> 'v option) option) \<Rightarrow> bytes
   \<Rightarrow> (int \<times> 'v option) option" where
  "tagged_decode matches ok dec apdu =
     (if length apdu = 0 then Some (0, None)
      else do {
        r \<leftarrow> bacnet_tag_decode apdu;
        case r of
          None \<Rightarrow> Some (BACNET_STATUS_ERROR, None)
        | Some (len, tag) \<Rightarrow>
            if matches tag then do {
              (n, v) \<leftarrow> dec (drop len apdu) (len_value_type tag);
              Some (if ok n then int len + n else BACNET_STATUS_ERROR, v) }
            else Some (0, None) })"

definition application_tag :: "u8 \<Rightarrow> BACNET_TAG \<Rightarrow> bool" where
  "application_tag number tag = (tag_application tag \<and> tag_number tag = number)"

definition context_tag :: "u8 \<Rightarrow> BACNET_TAG \<Rightarrow> bool" where
  "context_tag number tag = (tag_context tag \<and> tag_number tag = number)"

text \<open>A decoder of \<^verbatim>\<open>bacint.c\<close> whose result is stored after a conversion.\<close>

definition stored :: "('a \<Rightarrow> 'v) \<Rightarrow> (nat \<times> 'a) option \<Rightarrow> (int \<times> 'v option) option" where
  "stored f r = do { (n, v) \<leftarrow> r; Some (int n, Some (f v)) }"

section \<open>Boolean and Null\<close>

definition encode_application_boolean :: "bool \<Rightarrow> bytes" where
  "encode_application_boolean v = encode_tag BACNET_APPLICATION_TAG_BOOLEAN False (if v then 1 else 0)"

definition encode_context_boolean :: "u8 \<Rightarrow> bool \<Rightarrow> bytes" where
  "encode_context_boolean number v = encode_tag number True 1 @ [if v then 1 else 0]"

definition decode_boolean :: "u32 \<Rightarrow> bool" where
  "decode_boolean len_value = (len_value \<noteq> 0)"

definition bacnet_boolean_application_encode :: "nat \<Rightarrow> bool \<Rightarrow> bytes" where
  "bacnet_boolean_application_encode apdu_size v = bounded apdu_size (encode_application_boolean v)"

definition bacnet_boolean_application_decode :: "bytes \<Rightarrow> (int \<times> bool option) option" where
  "bacnet_boolean_application_decode =
     tagged_decode (application_tag BACNET_APPLICATION_TAG_BOOLEAN) (\<lambda>_. True)
       (\<lambda>_ len_value. Some (0, Some (decode_boolean len_value)))"

definition bacnet_boolean_context_value_decode :: "bytes \<Rightarrow> (int \<times> bool option) option" where
  "bacnet_boolean_context_value_decode apdu =
     (if length apdu > 0 then do { b \<leftarrow> rd apdu 0; Some (1, Some (b \<noteq> 0)) } else Some (0, None))"

definition bacnet_boolean_context_decode :: "u8 \<Rightarrow> bytes \<Rightarrow> (int \<times> bool option) option" where
  "bacnet_boolean_context_decode number =
     tagged_decode (context_tag number) (\<lambda>n. n > 0) (\<lambda>apdu _. bacnet_boolean_context_value_decode apdu)"

definition encode_application_null :: bytes where
  "encode_application_null = encode_tag BACNET_APPLICATION_TAG_NULL False 0"

definition encode_context_null :: "u8 \<Rightarrow> bytes" where
  "encode_context_null number = encode_tag number True 0"

definition bacnet_null_application_decode :: "bytes \<Rightarrow> (int \<times> unit option) option" where
  "bacnet_null_application_decode =
     tagged_decode (application_tag BACNET_APPLICATION_TAG_NULL) (\<lambda>_. True) (\<lambda>_ _. Some (0, None))"

section \<open>Unsigned and enumerated\<close>

definition bacnet_unsigned_decode :: "bytes \<Rightarrow> u32 \<Rightarrow> (int \<times> u64 option) option" where
  "bacnet_unsigned_decode apdu len_value =
     (if unat len_value \<le> length apdu then
        if len_value = 1 then do { b \<leftarrow> rd apdu 0; Some (1, Some (ucast b)) }
        else if len_value = 2 then stored ucast (decode_unsigned16 apdu)
        else if len_value = 3 then stored ucast (decode_unsigned24 apdu)
        else if len_value = 4 then stored ucast (decode_unsigned32 apdu)
        else if len_value = 5 then stored id (decode_unsigned40 apdu)
        else if len_value = 6 then stored id (decode_unsigned48 apdu)
        else if len_value = 7 then stored id (decode_unsigned56 apdu)
        else if len_value = 8 then stored id (decode_unsigned64 apdu)
        else Some (0, Some 0)
      else Some (0, None))"

definition encode_bacnet_unsigned :: "u64 \<Rightarrow> bytes" where
  "encode_bacnet_unsigned v =
     (let len = bacnet_unsigned_length v in
      if len = 1 then [ucast v]
      else if len = 2 then encode_unsigned16 (ucast v)
      else if len = 3 then encode_unsigned24 (ucast v)
      else if len = 4 then encode_unsigned32 (ucast v)
      else if len = 5 then encode_unsigned40 v
      else if len = 6 then encode_unsigned48 v
      else if len = 7 then encode_unsigned56 v
      else encode_unsigned64 v)"

definition encode_context_unsigned :: "u8 \<Rightarrow> u64 \<Rightarrow> bytes" where
  "encode_context_unsigned number v =
     encode_tag number True (of_nat (bacnet_unsigned_length v)) @ encode_bacnet_unsigned v"

definition encode_application_unsigned :: "u64 \<Rightarrow> bytes" where
  "encode_application_unsigned v =
     encode_tag BACNET_APPLICATION_TAG_UNSIGNED_INT False (of_nat (bacnet_unsigned_length v))
     @ encode_bacnet_unsigned v"

definition bacnet_unsigned_application_encode :: "nat \<Rightarrow> u64 \<Rightarrow> bytes" where
  "bacnet_unsigned_application_encode apdu_size v = bounded apdu_size (encode_application_unsigned v)"

definition bacnet_unsigned_application_decode :: "bytes \<Rightarrow> (int \<times> u64 option) option" where
  "bacnet_unsigned_application_decode =
     tagged_decode (application_tag BACNET_APPLICATION_TAG_UNSIGNED_INT) (\<lambda>n. n > 0) bacnet_unsigned_decode"

definition bacnet_unsigned_context_decode :: "u8 \<Rightarrow> bytes \<Rightarrow> (int \<times> u64 option) option" where
  "bacnet_unsigned_context_decode number =
     tagged_decode (context_tag number) (\<lambda>n. n > 0) bacnet_unsigned_decode"

text \<open>An enumerated value is stored in 32 bits; only the application decoder tests that it fits.\<close>

definition bacnet_enumerated_decode :: "bytes \<Rightarrow> u32 \<Rightarrow> (int \<times> u32 option) option" where
  "bacnet_enumerated_decode apdu len_value = do {
     (len, v) \<leftarrow> bacnet_unsigned_decode apdu len_value;
     Some (len, if len > 0 then map_option ucast v else None) }"

definition encode_bacnet_enumerated :: "u32 \<Rightarrow> bytes" where
  "encode_bacnet_enumerated v = encode_bacnet_unsigned (ucast v)"

definition encode_application_enumerated :: "u32 \<Rightarrow> bytes" where
  "encode_application_enumerated v =
     encode_tag BACNET_APPLICATION_TAG_ENUMERATED False (of_nat (bacnet_unsigned_length (ucast v)))
     @ encode_bacnet_enumerated v"

definition encode_context_enumerated :: "u8 \<Rightarrow> u32 \<Rightarrow> bytes" where
  "encode_context_enumerated number v =
     encode_tag number True (of_nat (bacnet_unsigned_length (ucast v))) @ encode_bacnet_enumerated v"

definition bacnet_enumerated_application_encode :: "nat \<Rightarrow> u32 \<Rightarrow> bytes" where
  "bacnet_enumerated_application_encode apdu_size v = bounded apdu_size (encode_application_enumerated v)"

definition bacnet_enumerated_application_decode :: "bytes \<Rightarrow> (int \<times> u32 option) option" where
  "bacnet_enumerated_application_decode apdu =
     (if length apdu = 0 then Some (0, None)
      else do {
        r \<leftarrow> bacnet_tag_decode apdu;
        case r of
          None \<Rightarrow> Some (BACNET_STATUS_ERROR, None)
        | Some (tag_len, tag) \<Rightarrow>
            if application_tag BACNET_APPLICATION_TAG_ENUMERATED tag then do {
              (len, v) \<leftarrow> bacnet_unsigned_decode (drop tag_len apdu) (len_value_type tag);
              let unsigned_value = (case v of None \<Rightarrow> 0 | Some x \<Rightarrow> x);
              Some (if len > 0 then
                      if unsigned_value > 0xFFFFFFFF then (BACNET_STATUS_ERROR, None)
                      else (int tag_len + len, Some (ucast unsigned_value))
                    else (BACNET_STATUS_ERROR, None)) }
            else Some (0, None) })"

definition bacnet_enumerated_context_decode :: "u8 \<Rightarrow> bytes \<Rightarrow> (int \<times> u32 option) option" where
  "bacnet_enumerated_context_decode number =
     tagged_decode (context_tag number) (\<lambda>n. n > 0) bacnet_enumerated_decode"

section \<open>Signed\<close>

definition bacnet_signed_decode :: "bytes \<Rightarrow> u32 \<Rightarrow> (int \<times> u32 option) option" where
  "bacnet_signed_decode apdu len_value =
     (if unat len_value \<le> length apdu then
        if len_value = 1 then stored id (decode_signed8 apdu)
        else if len_value = 2 then stored id (decode_signed16 apdu)
        else if len_value = 3 then stored id (decode_signed24 apdu)
        else if len_value = 4 then stored id (decode_signed32 apdu)
        else Some (0, Some 0)
      else Some (0, None))"

definition encode_bacnet_signed :: "u32 \<Rightarrow> bytes" where
  "encode_bacnet_signed v =
     (let len = bacnet_signed_length v in
      if len = 1 then encode_signed8 (ucast v)
      else if len = 2 then encode_signed16 (ucast v)
      else if len = 3 then encode_signed24 v
      else encode_signed32 v)"

definition encode_application_signed :: "u32 \<Rightarrow> bytes" where
  "encode_application_signed v =
     encode_tag BACNET_APPLICATION_TAG_SIGNED_INT False (of_nat (bacnet_signed_length v))
     @ encode_bacnet_signed v"

definition encode_context_signed :: "u8 \<Rightarrow> u32 \<Rightarrow> bytes" where
  "encode_context_signed number v =
     encode_tag number True (of_nat (bacnet_signed_length v)) @ encode_bacnet_signed v"

definition bacnet_signed_application_encode :: "nat \<Rightarrow> u32 \<Rightarrow> bytes" where
  "bacnet_signed_application_encode apdu_size v = bounded apdu_size (encode_application_signed v)"

definition bacnet_signed_application_decode :: "bytes \<Rightarrow> (int \<times> u32 option) option" where
  "bacnet_signed_application_decode =
     tagged_decode (application_tag BACNET_APPLICATION_TAG_SIGNED_INT) (\<lambda>n. n > 0) bacnet_signed_decode"

definition bacnet_signed_context_decode :: "u8 \<Rightarrow> bytes \<Rightarrow> (int \<times> u32 option) option" where
  "bacnet_signed_context_decode number =
     tagged_decode (context_tag number) (\<lambda>n. n > 0) bacnet_signed_decode"

section \<open>Real and Double\<close>

text \<open>The octets of the number in the order of their significance, on either kind of machine.\<close>

definition encode_bacnet_real :: "u32 \<Rightarrow> bytes" where
  "encode_bacnet_real v = encode_unsigned32 v"

definition decode_real :: "bytes \<Rightarrow> (nat \<times> u32) option" where
  "decode_real apdu = decode_unsigned32 apdu"

definition encode_bacnet_double :: "u64 \<Rightarrow> bytes" where
  "encode_bacnet_double v = encode_unsigned64 v"

definition decode_double :: "bytes \<Rightarrow> (nat \<times> u64) option" where
  "decode_double apdu = decode_unsigned64 apdu"

definition encode_application_real :: "u32 \<Rightarrow> bytes" where
  "encode_application_real v = encode_tag BACNET_APPLICATION_TAG_REAL False 4 @ encode_bacnet_real v"

definition encode_context_real :: "u8 \<Rightarrow> u32 \<Rightarrow> bytes" where
  "encode_context_real number v = encode_tag number True 4 @ encode_bacnet_real v"

definition bacnet_real_decode :: "bytes \<Rightarrow> u32 \<Rightarrow> (int \<times> u32 option) option" where
  "bacnet_real_decode apdu len_value =
     (if length apdu \<ge> 4 \<and> len_value = 4 then stored id (decode_real apdu) else Some (0, None))"

definition bacnet_real_application_encode :: "nat \<Rightarrow> u32 \<Rightarrow> bytes" where
  "bacnet_real_application_encode apdu_size v = bounded apdu_size (encode_application_real v)"

definition bacnet_real_application_decode :: "bytes \<Rightarrow> (int \<times> u32 option) option" where
  "bacnet_real_application_decode =
     tagged_decode (application_tag BACNET_APPLICATION_TAG_REAL) (\<lambda>n. n > 0) bacnet_real_decode"

definition bacnet_real_context_decode :: "u8 \<Rightarrow> bytes \<Rightarrow> (int \<times> u32 option) option" where
  "bacnet_real_context_decode number = tagged_decode (context_tag number) (\<lambda>n. n > 0) bacnet_real_decode"

definition encode_application_double :: "u64 \<Rightarrow> bytes" where
  "encode_application_double v = encode_tag BACNET_APPLICATION_TAG_DOUBLE False 8 @ encode_bacnet_double v"

definition encode_context_double :: "u8 \<Rightarrow> u64 \<Rightarrow> bytes" where
  "encode_context_double number v = encode_tag number True 8 @ encode_bacnet_double v"

definition bacnet_double_decode :: "bytes \<Rightarrow> u32 \<Rightarrow> (int \<times> u64 option) option" where
  "bacnet_double_decode apdu len_value =
     (if length apdu \<ge> 8 \<and> len_value = 8 then stored id (decode_double apdu) else Some (0, None))"

definition bacnet_double_application_encode :: "nat \<Rightarrow> u64 \<Rightarrow> bytes" where
  "bacnet_double_application_encode apdu_size v = bounded apdu_size (encode_application_double v)"

definition bacnet_double_application_decode :: "bytes \<Rightarrow> (int \<times> u64 option) option" where
  "bacnet_double_application_decode =
     tagged_decode (application_tag BACNET_APPLICATION_TAG_DOUBLE) (\<lambda>n. n > 0) bacnet_double_decode"

definition bacnet_double_context_decode :: "u8 \<Rightarrow> bytes \<Rightarrow> (int \<times> u64 option) option" where
  "bacnet_double_context_decode number =
     tagged_decode (context_tag number) (\<lambda>n. n > 0) bacnet_double_decode"

section \<open>Object identifiers\<close>

definition BACNET_INSTANCE_BITS :: nat where "BACNET_INSTANCE_BITS = 22"
definition BACNET_MAX_OBJECT :: u32 where "BACNET_MAX_OBJECT = 0x3FF"
definition BACNET_MAX_INSTANCE :: u32 where "BACNET_MAX_INSTANCE = 0x3FFFFF"

text \<open>
  \<^verbatim>\<open>decode_object_id_safe\<close> consumes four octets whatever length it is told; with another length it
  stores nothing. \<^verbatim>\<open>bacnet_object_id_decode\<close> first asks for the number of octets with a NULL pointer.
\<close>

definition decode_object_id_safe :: "bytes \<Rightarrow> u32 \<Rightarrow> (int \<times> (u32 \<times> u32) option) option" where
  "decode_object_id_safe apdu len_value = do {
     (len, v) \<leftarrow> decode_unsigned32 apdu;
     Some (int len,
       if len_value = of_nat len
       then Some (drop_bit BACNET_INSTANCE_BITS v AND BACNET_MAX_OBJECT, v AND BACNET_MAX_INSTANCE)
       else None) }"

definition bacnet_object_id_decode :: "bytes \<Rightarrow> u32 \<Rightarrow> (int \<times> (u32 \<times> u32) option) option" where
  "bacnet_object_id_decode apdu len_value =
     (if 4 \<le> length apdu then decode_object_id_safe apdu len_value else Some (0, None))"

definition encode_bacnet_object_id :: "u32 \<Rightarrow> u32 \<Rightarrow> bytes" where
  "encode_bacnet_object_id object_type instance_number =
     encode_unsigned32 (push_bit BACNET_INSTANCE_BITS (object_type AND BACNET_MAX_OBJECT) OR
       (instance_number AND BACNET_MAX_INSTANCE))"

definition encode_context_object_id :: "u8 \<Rightarrow> u32 \<Rightarrow> u32 \<Rightarrow> bytes" where
  "encode_context_object_id number object_type instance_number =
     encode_tag number True 4 @ encode_bacnet_object_id object_type instance_number"

definition encode_application_object_id :: "u32 \<Rightarrow> u32 \<Rightarrow> bytes" where
  "encode_application_object_id object_type instance_number =
     encode_tag BACNET_APPLICATION_TAG_OBJECT_ID False
       (of_nat (length (encode_bacnet_object_id object_type instance_number)))
     @ encode_bacnet_object_id object_type instance_number"

definition bacnet_object_id_application_encode :: "nat \<Rightarrow> u32 \<Rightarrow> u32 \<Rightarrow> bytes" where
  "bacnet_object_id_application_encode apdu_size object_type instance_number =
     bounded apdu_size (encode_application_object_id object_type instance_number)"

definition bacnet_object_id_application_decode :: "bytes \<Rightarrow> (int \<times> (u32 \<times> u32) option) option" where
  "bacnet_object_id_application_decode =
     tagged_decode (application_tag BACNET_APPLICATION_TAG_OBJECT_ID) (\<lambda>n. n > 0) bacnet_object_id_decode"

definition bacnet_object_id_context_decode :: "u8 \<Rightarrow> bytes \<Rightarrow> (int \<times> (u32 \<times> u32) option) option" where
  "bacnet_object_id_context_decode number =
     tagged_decode (context_tag number) (\<lambda>n. n > 0) bacnet_object_id_decode"

section \<open>Octet and character strings\<close>

text \<open>The string decoders are given the object that receives the value.\<close>

definition encode_octet_string :: "BACNET_OCTET_STRING \<Rightarrow> bytes" where
  "encode_octet_string s = take (octetstring_length (Some s)) (octet_value s)"

definition encode_application_octet_string :: "BACNET_OCTET_STRING \<Rightarrow> bytes" where
  "encode_application_octet_string s =
     encode_tag BACNET_APPLICATION_TAG_OCTET_STRING False (of_nat (octetstring_length (Some s)))
     @ encode_octet_string s"

definition encode_context_octet_string :: "u8 \<Rightarrow> BACNET_OCTET_STRING \<Rightarrow> bytes" where
  "encode_context_octet_string number s =
     encode_tag number True (of_nat (octetstring_length (Some s))) @ encode_octet_string s"

definition bacnet_octet_string_decode ::
  "BACNET_OCTET_STRING \<Rightarrow> bytes \<Rightarrow> u32 \<Rightarrow> (int \<times> BACNET_OCTET_STRING option) option" where
  "bacnet_octet_string_decode s0 apdu len_value =
     (if unat len_value \<le> length apdu then do {
        (_, s) \<leftarrow> (if len_value > 0 then octetstring_init (Some s0) (Some apdu) (unat len_value)
                   else octetstring_init (Some s0) None 0);
        Some (sint len_value, s) }
      else Some (BACNET_STATUS_ERROR, None))"

definition bacnet_octet_string_application_encode :: "nat \<Rightarrow> BACNET_OCTET_STRING \<Rightarrow> bytes" where
  "bacnet_octet_string_application_encode apdu_size s =
     bounded apdu_size (encode_application_octet_string s)"

definition bacnet_octet_string_application_decode ::
  "BACNET_OCTET_STRING \<Rightarrow> bytes \<Rightarrow> (int \<times> BACNET_OCTET_STRING option) option" where
  "bacnet_octet_string_application_decode s0 =
     tagged_decode (application_tag BACNET_APPLICATION_TAG_OCTET_STRING) (\<lambda>n. n \<ge> 0)
       (bacnet_octet_string_decode s0)"

definition bacnet_octet_string_context_decode ::
  "BACNET_OCTET_STRING \<Rightarrow> u8 \<Rightarrow> bytes \<Rightarrow> (int \<times> BACNET_OCTET_STRING option) option" where
  "bacnet_octet_string_context_decode s0 number =
     tagged_decode (context_tag number) (\<lambda>n. n \<ge> 0) (bacnet_octet_string_decode s0)"

definition encode_bacnet_character_string :: "BACNET_CHARACTER_STRING \<Rightarrow> bytes" where
  "encode_bacnet_character_string s =
     characterstring_encoding (Some s) # take (characterstring_length (Some s)) (char_value s)"

definition encode_application_character_string :: "BACNET_CHARACTER_STRING \<Rightarrow> bytes" where
  "encode_application_character_string s =
     encode_tag BACNET_APPLICATION_TAG_CHARACTER_STRING False
       (of_nat (1 + characterstring_length (Some s))) @ encode_bacnet_character_string s"

definition encode_context_character_string :: "u8 \<Rightarrow> BACNET_CHARACTER_STRING \<Rightarrow> bytes" where
  "encode_context_character_string number s =
     encode_tag number True (of_nat (1 + characterstring_length (Some s)))
     @ encode_bacnet_character_string s"

definition bacnet_character_string_decode ::
  "BACNET_CHARACTER_STRING \<Rightarrow> bytes \<Rightarrow> u32 \<Rightarrow> (int \<times> BACNET_CHARACTER_STRING option) option" where
  "bacnet_character_string_decode s0 apdu len_value =
     (if unat len_value \<le> length apdu \<and> len_value > 0 then do {
        enc \<leftarrow> rd apdu 0;
        (_, s) \<leftarrow> (if len_value > 1
                   then characterstring_init (Some s0) enc (Some (drop 1 apdu)) (unat len_value - 1)
                   else characterstring_init (Some s0) enc None 0);
        Some (sint len_value, s) }
      else Some (0, None))"

definition bacnet_character_string_application_encode :: "nat \<Rightarrow> BACNET_CHARACTER_STRING \<Rightarrow> bytes" where
  "bacnet_character_string_application_encode apdu_size s =
     bounded apdu_size (encode_application_character_string s)"

definition bacnet_character_string_application_decode ::
  "BACNET_CHARACTER_STRING \<Rightarrow> bytes \<Rightarrow> (int \<times> BACNET_CHARACTER_STRING option) option" where
  "bacnet_character_string_application_decode s0 =
     tagged_decode (application_tag BACNET_APPLICATION_TAG_CHARACTER_STRING) (\<lambda>n. n > 0)
       (bacnet_character_string_decode s0)"

definition bacnet_character_string_context_decode ::
  "BACNET_CHARACTER_STRING \<Rightarrow> u8 \<Rightarrow> bytes \<Rightarrow> (int \<times> BACNET_CHARACTER_STRING option) option" where
  "bacnet_character_string_context_decode s0 number =
     tagged_decode (context_tag number) (\<lambda>n. n > 0) (bacnet_character_string_decode s0)"

section \<open>Bit strings\<close>

definition byte_reverse_bits :: "u8 \<Rightarrow> u8" where
  "byte_reverse_bits x =
     (if bit x 0 then 0x80 else 0) OR (if bit x 1 then 0x40 else 0) OR
     (if bit x 2 then 0x20 else 0) OR (if bit x 3 then 0x10 else 0) OR
     (if bit x 4 then 0x08 else 0) OR (if bit x 5 then 0x04 else 0) OR
     (if bit x 6 then 0x02 else 0) OR (if bit x 7 then 0x01 else 0)"

definition encode_bitstring :: "BACNET_BIT_STRING \<Rightarrow> bytes" where
  "encode_bitstring b =
     (if bitstring_bits_used (Some b) = 0 then [0]
      else
        let used_bytes = bitstring_bytes_used (Some b);
            remaining_used_bits = bitstring_bits_used (Some b) - (used_bytes - 1) * 8
        in (8 - remaining_used_bits) #
           map (\<lambda>i. byte_reverse_bits (bitstring_octet (Some b) (of_nat i))) [0..<unat used_bytes])"

definition encode_application_bitstring :: "BACNET_BIT_STRING \<Rightarrow> bytes" where
  "encode_application_bitstring b =
     encode_tag BACNET_APPLICATION_TAG_BIT_STRING False (1 + ucast (bitstring_bytes_used (Some b)))
     @ encode_bitstring b"

definition encode_context_bitstring :: "u8 \<Rightarrow> BACNET_BIT_STRING \<Rightarrow> bytes" where
  "encode_context_bitstring number b =
     encode_tag number True (1 + ucast (bitstring_bytes_used (Some b))) @ encode_bitstring b"

text \<open>Storing the octets of an encoding, the first at index \<open>i\<close>.\<close>

fun set_octets :: "nat \<Rightarrow> bytes \<Rightarrow> BACNET_BIT_STRING option \<Rightarrow> BACNET_BIT_STRING option option" where
  "set_octets i [] b = Some b"
| "set_octets i (x # xs) b = do {
     (_, b) \<leftarrow> bitstring_set_octet b (of_nat i) (byte_reverse_bits x);
     set_octets (Suc i) xs b }"

definition bacnet_bitstring_decode ::
  "BACNET_BIT_STRING \<Rightarrow> bytes \<Rightarrow> u32 \<Rightarrow> (int \<times> BACNET_BIT_STRING option) option" where
  "bacnet_bitstring_decode b0 apdu len_value =
     (if unat len_value \<le> length apdu then
        let b = bitstring_init (Some b0) in
        if len_value > 0 then
          let bytes_used = unat len_value - 1 in
          if bytes_used \<le> MAX_BITSTRING_BYTES then do {
            xs \<leftarrow> read_at apdu 1 bytes_used;
            b \<leftarrow> set_octets 0 xs b;
            x0 \<leftarrow> rd apdu 0;
            Some (1 + int bytes_used, snd (bitstring_set_bits_used b (of_nat bytes_used) (x0 AND 0x07))) }
          else Some (0, b)
        else Some (0, b)
      else Some (0, None))"

definition bacnet_bitstring_application_encode :: "nat \<Rightarrow> BACNET_BIT_STRING \<Rightarrow> bytes" where
  "bacnet_bitstring_application_encode apdu_size b = bounded apdu_size (encode_application_bitstring b)"

definition bacnet_bitstring_application_decode ::
  "BACNET_BIT_STRING \<Rightarrow> bytes \<Rightarrow> (int \<times> BACNET_BIT_STRING option) option" where
  "bacnet_bitstring_application_decode b0 =
     tagged_decode (application_tag BACNET_APPLICATION_TAG_BIT_STRING) (\<lambda>n. n > 0) (bacnet_bitstring_decode b0)"

definition bacnet_bitstring_context_decode ::
  "BACNET_BIT_STRING \<Rightarrow> u8 \<Rightarrow> bytes \<Rightarrow> (int \<times> BACNET_BIT_STRING option) option" where
  "bacnet_bitstring_context_decode b0 number =
     tagged_decode (context_tag number) (\<lambda>n. n > 0) (bacnet_bitstring_decode b0)"

section \<open>Date and time\<close>

record BACNET_DATE =
  year :: u16
  month :: u8
  day :: u8
  wday :: u8

record BACNET_TIME =
  hour :: u8
  minute :: u8
  sec :: u8
  hundredths :: u8

definition encode_bacnet_time :: "BACNET_TIME \<Rightarrow> bytes" where
  "encode_bacnet_time t = [hour t, minute t, sec t, hundredths t]"

definition encode_application_time :: "BACNET_TIME \<Rightarrow> bytes" where
  "encode_application_time t = encode_tag BACNET_APPLICATION_TAG_TIME False 4 @ encode_bacnet_time t"

definition encode_context_time :: "u8 \<Rightarrow> BACNET_TIME \<Rightarrow> bytes" where
  "encode_context_time number t = encode_tag number True 4 @ encode_bacnet_time t"

definition bacnet_time_decode :: "bytes \<Rightarrow> u32 \<Rightarrow> (int \<times> BACNET_TIME option) option" where
  "bacnet_time_decode apdu len_value =
     (if length apdu \<ge> 4 \<and> len_value = 4 then do {
        b0 \<leftarrow> rd apdu 0; b1 \<leftarrow> rd apdu 1; b2 \<leftarrow> rd apdu 2; b3 \<leftarrow> rd apdu 3;
        Some (4, Some \<lparr>hour = b0, minute = b1, sec = b2, hundredths = b3\<rparr>) }
      else Some (0, None))"

definition bacnet_time_application_encode :: "nat \<Rightarrow> BACNET_TIME \<Rightarrow> bytes" where
  "bacnet_time_application_encode apdu_size t = bounded apdu_size (encode_application_time t)"

definition bacnet_time_application_decode :: "bytes \<Rightarrow> (int \<times> BACNET_TIME option) option" where
  "bacnet_time_application_decode =
     tagged_decode (application_tag BACNET_APPLICATION_TAG_TIME) (\<lambda>n. n > 0) bacnet_time_decode"

definition bacnet_time_context_decode :: "u8 \<Rightarrow> bytes \<Rightarrow> (int \<times> BACNET_TIME option) option" where
  "bacnet_time_context_decode number = tagged_decode (context_tag number) (\<lambda>n. n > 0) bacnet_time_decode"

definition encode_bacnet_date :: "BACNET_DATE \<Rightarrow> bytes" where
  "encode_bacnet_date d =
     [if year d \<ge> 1900 then ucast (year d - 1900)
      else if year d < 0x100 then ucast (year d)
      else 0xFF,
      month d, day d, wday d]"

definition encode_application_date :: "BACNET_DATE \<Rightarrow> bytes" where
  "encode_application_date d = encode_tag BACNET_APPLICATION_TAG_DATE False 4 @ encode_bacnet_date d"

definition encode_context_date :: "u8 \<Rightarrow> BACNET_DATE \<Rightarrow> bytes" where
  "encode_context_date number d = encode_tag number True 4 @ encode_bacnet_date d"

definition bacnet_date_decode :: "bytes \<Rightarrow> u32 \<Rightarrow> (int \<times> BACNET_DATE option) option" where
  "bacnet_date_decode apdu len_value =
     (if length apdu \<ge> 4 \<and> len_value = 4 then do {
        b0 \<leftarrow> rd apdu 0; b1 \<leftarrow> rd apdu 1; b2 \<leftarrow> rd apdu 2; b3 \<leftarrow> rd apdu 3;
        Some (4, Some \<lparr>year = ucast b0 + 1900, month = b1, day = b2, wday = b3\<rparr>) }
      else Some (0, None))"

definition bacnet_date_application_encode :: "nat \<Rightarrow> BACNET_DATE \<Rightarrow> bytes" where
  "bacnet_date_application_encode apdu_size d = bounded apdu_size (encode_application_date d)"

definition bacnet_date_application_decode :: "bytes \<Rightarrow> (int \<times> BACNET_DATE option) option" where
  "bacnet_date_application_decode =
     tagged_decode (application_tag BACNET_APPLICATION_TAG_DATE) (\<lambda>n. n > 0) bacnet_date_decode"

definition bacnet_date_context_decode :: "u8 \<Rightarrow> bytes \<Rightarrow> (int \<times> BACNET_DATE option) option" where
  "bacnet_date_context_decode number = tagged_decode (context_tag number) (\<lambda>n. n > 0) bacnet_date_decode"

section \<open>Application data\<close>

text \<open>
  The primitive members of \<^verbatim>\<open>BACNET_APPLICATION_DATA_VALUE\<close>, whose tag selects the member of the
  union. Constructed members, which the decoder does not produce, are not part of the model.
\<close>

datatype app_value =
    Null
  | Boolean bool
  | Unsigned_Int u64
  | Signed_Int u32
  | Real u32
  | Double u64
  | Octet_String BACNET_OCTET_STRING
  | Character_String BACNET_CHARACTER_STRING
  | Bit_String BACNET_BIT_STRING
  | Enumerated u32
  | Date BACNET_DATE
  | Time BACNET_TIME
  | Object_Id u32 u32

fun bacapp_encode_application_data :: "app_value \<Rightarrow> bytes" where
  "bacapp_encode_application_data Null = [BACNET_APPLICATION_TAG_NULL]"
| "bacapp_encode_application_data (Boolean v) = encode_application_boolean v"
| "bacapp_encode_application_data (Unsigned_Int v) = encode_application_unsigned v"
| "bacapp_encode_application_data (Signed_Int v) = encode_application_signed v"
| "bacapp_encode_application_data (Real v) = encode_application_real v"
| "bacapp_encode_application_data (Double v) = encode_application_double v"
| "bacapp_encode_application_data (Octet_String v) = encode_application_octet_string v"
| "bacapp_encode_application_data (Character_String v) = encode_application_character_string v"
| "bacapp_encode_application_data (Bit_String v) = encode_application_bitstring v"
| "bacapp_encode_application_data (Enumerated v) = encode_application_enumerated v"
| "bacapp_encode_application_data (Date v) = encode_application_date v"
| "bacapp_encode_application_data (Time v) = encode_application_time v"
| "bacapp_encode_application_data (Object_Id t i) = encode_application_object_id t i"

fun bacapp_encode_context_data_value :: "u8 \<Rightarrow> app_value \<Rightarrow> bytes" where
  "bacapp_encode_context_data_value n Null = encode_context_null n"
| "bacapp_encode_context_data_value n (Boolean v) = encode_context_boolean n v"
| "bacapp_encode_context_data_value n (Unsigned_Int v) = encode_context_unsigned n v"
| "bacapp_encode_context_data_value n (Signed_Int v) = encode_context_signed n v"
| "bacapp_encode_context_data_value n (Real v) = encode_context_real n v"
| "bacapp_encode_context_data_value n (Double v) = encode_context_double n v"
| "bacapp_encode_context_data_value n (Octet_String v) = encode_context_octet_string n v"
| "bacapp_encode_context_data_value n (Character_String v) = encode_context_character_string n v"
| "bacapp_encode_context_data_value n (Bit_String v) = encode_context_bitstring n v"
| "bacapp_encode_context_data_value n (Enumerated v) = encode_context_enumerated n v"
| "bacapp_encode_context_data_value n (Date v) = encode_context_date n v"
| "bacapp_encode_context_data_value n (Time v) = encode_context_time n v"
| "bacapp_encode_context_data_value n (Object_Id t i) = encode_context_object_id n t i"

text \<open>
  \<^verbatim>\<open>bacapp_data_decode\<close>: the length, the value where the union was written, and whether the tag of
  the object was set to \<^verbatim>\<open>MAX_BACNET_APPLICATION_TAG\<close>, the sign that nothing was decoded. The
  member of the union that receives a string is the object the caller provides, in \<open>u\<close>.
\<close>

record app_union =
  u_octets :: BACNET_OCTET_STRING
  u_chars :: BACNET_CHARACTER_STRING
  u_bits :: BACNET_BIT_STRING

definition as_value :: "('v \<Rightarrow> app_value) \<Rightarrow> (int \<times> 'v option) option \<Rightarrow> (int \<times> app_value option) option" where
  "as_value f r = do { (n, v) \<leftarrow> r; Some (n, map_option f v) }"

definition data_value_decode ::
  "app_union \<Rightarrow> bytes \<Rightarrow> u8 \<Rightarrow> u32 \<Rightarrow> (int \<times> app_value option) option" where
  "data_value_decode u apdu tag len_value =
     (if tag = BACNET_APPLICATION_TAG_NULL then Some (0, Some Null)
      else if tag = BACNET_APPLICATION_TAG_BOOLEAN then Some (0, Some (Boolean (decode_boolean len_value)))
      else if tag = BACNET_APPLICATION_TAG_UNSIGNED_INT then
        as_value Unsigned_Int (bacnet_unsigned_decode apdu len_value)
      else if tag = BACNET_APPLICATION_TAG_SIGNED_INT then
        as_value Signed_Int (bacnet_signed_decode apdu len_value)
      else if tag = BACNET_APPLICATION_TAG_REAL then as_value Real (bacnet_real_decode apdu len_value)
      else if tag = BACNET_APPLICATION_TAG_DOUBLE then
        as_value Double (bacnet_double_decode apdu len_value)
      else if tag = BACNET_APPLICATION_TAG_OCTET_STRING then
        as_value Octet_String (bacnet_octet_string_decode (u_octets u) apdu len_value)
      else if tag = BACNET_APPLICATION_TAG_CHARACTER_STRING then
        as_value Character_String (bacnet_character_string_decode (u_chars u) apdu len_value)
      else if tag = BACNET_APPLICATION_TAG_BIT_STRING then
        as_value Bit_String (bacnet_bitstring_decode (u_bits u) apdu len_value)
      else if tag = BACNET_APPLICATION_TAG_ENUMERATED then
        as_value Enumerated (bacnet_enumerated_decode apdu len_value)
      else if tag = BACNET_APPLICATION_TAG_DATE then as_value Date (bacnet_date_decode apdu len_value)
      else if tag = BACNET_APPLICATION_TAG_TIME then as_value Time (bacnet_time_decode apdu len_value)
      else if tag = BACNET_APPLICATION_TAG_OBJECT_ID then
        as_value (\<lambda>(t, i). Object_Id t i) (bacnet_object_id_decode apdu len_value)
      else Some (0, None))"

definition bacapp_data_decode ::
  "app_union \<Rightarrow> bytes \<Rightarrow> u8 \<Rightarrow> u32 \<Rightarrow> (int \<times> app_value option \<times> bool) option" where
  "bacapp_data_decode u apdu tag len_value = do {
     (len, v) \<leftarrow> data_value_decode u apdu tag len_value;
     Some (len, v, len = 0 \<and> tag \<noteq> BACNET_APPLICATION_TAG_NULL \<and> tag \<noteq> BACNET_APPLICATION_TAG_BOOLEAN \<and>
       tag \<noteq> BACNET_APPLICATION_TAG_OCTET_STRING) }"

definition bacapp_decode_application_data ::
  "app_union \<Rightarrow> bytes \<Rightarrow> (int \<times> app_value option) option" where
  "bacapp_decode_application_data u apdu = do {
     r \<leftarrow> bacnet_tag_decode apdu;
     case r of
       Some (tag_len, tag) \<Rightarrow>
         if tag_application tag then do {
           (len, v, failed) \<leftarrow>
             bacapp_data_decode u (drop tag_len apdu) (tag_number tag) (len_value_type tag);
           Some (if len \<ge> 0 \<and> \<not> failed then (int tag_len + len, v) else (BACNET_STATUS_ERROR, v)) }
         else Some (if length apdu > 0 then BACNET_STATUS_ERROR else 0, None)
     | None \<Rightarrow> Some (if length apdu > 0 then BACNET_STATUS_ERROR else 0, None) }"

end
