(* ===== verification/Bac_Primitive_Codec.thy ===== *)
theory Bac_Primitive_Codec
  imports Bac_Primitive
begin

text \<open>
  The primitive types as instances of one interface: a content encoder and a value decoder that
  recovers it and never reads outside what it is given. The round trip through a tag and the safety
  of the tagged decoder are proved once in the locale and hold for every type by interpretation.
\<close>

section \<open>The interface of a primitive type\<close>

locale primitive =
  fixes content :: "'v \<Rightarrow> bytes"
    and dec :: "bytes \<Rightarrow> u32 \<Rightarrow> (int \<times> 'w option) option"
    and wf :: "'v \<Rightarrow> bool"
    and view :: "'v \<Rightarrow> 'w"
    and ok :: "int \<Rightarrow> bool"
  assumes dec_content: "wf v \<Longrightarrow> dec (content v @ rest) (of_nat (length (content v))) =
      Some (int (length (content v)), Some (view v))"
    and ok_content: "wf v \<Longrightarrow> ok (int (length (content v)))"
    and dec_bounded: "wp (dec apdu len_value) (\<lambda>(n, _). n \<le> int (length apdu))"
begin

lemma tagged_roundtrip:
  assumes "wf v" "matches \<lparr>tag_number = number, tag_application = \<not> ctx, tag_context = ctx,
      tag_opening = False, tag_closing = False, len_value_type = of_nat (length (content v))\<rparr>"
  shows "tagged_decode matches ok dec
      (encode_tag number ctx (of_nat (length (content v))) @ content v @ rest) =
    Some (int (length (encode_tag number ctx (of_nat (length (content v))) @ content v)), Some (view v))"
  using assms by (simp add: tagged_decode_def tag_decode_encode dec_content ok_content)
    (simp add: encode_tag_def)

lemma tagged_bounded: "wp (tagged_decode matches ok dec apdu) (\<lambda>(n, _). n \<le> int (length apdu))"
proof (cases "apdu = []")
  case False
  have "wp (dec (drop len apdu) l)
      (\<lambda>x. wp (case x of (n, v) \<Rightarrow> Some (if ok n then int len + n else - 1, v))
        (\<lambda>(n, _). n \<le> int (length apdu)))"
    if "len \<le> length apdu" for len l
    using that by (intro wp_mono [OF dec_bounded]) (auto simp: of_nat_diff)
  then show ?thesis
    using False
    unfolding tagged_decode_def
    by (auto intro!: wp_mono [OF tag_decode_safe] split: option.splits)
qed (simp add: tagged_decode_def)

end

section \<open>Unsigned\<close>

lemma narrowed:
  assumes "take_bit m (v :: u64) = v" "m \<le> LENGTH('b)"
  shows "ucast (take_bit m (ucast v :: 'b::len word)) = v" "ucast (ucast v :: 'b word) = v"
proof -
  have "bit v n \<Longrightarrow> n < m" for n using assms(1) by (metis bit_take_bit_iff)
  then have "bit v n \<Longrightarrow> n < LENGTH('b)" "bit v n \<Longrightarrow> n < m" for n
    using assms(2) less_le_trans by blast+
  then show "ucast (take_bit m (ucast v :: 'b word)) = v" "ucast (ucast v :: 'b word) = v"
    by (auto intro!: bit_word_eqI simp: bit_simps)
qed

lemma stored_Some [simp]: "stored f (Some (n, v)) = Some (int n, Some (f v))"
  by (simp add: stored_def)

lemma length_encode_unsigned [simp]: "length (encode_bacnet_unsigned v) = bacnet_unsigned_length v"
  using bacnet_unsigned_length_range [of v]
  by (auto simp: encode_bacnet_unsigned_def Let_def)

lemma unsigned_length_pos [simp]: "0 < bacnet_unsigned_length v"
  using bacnet_unsigned_length_range [of v] by simp

lemma unsigned_take_bit: "take_bit (8 * bacnet_unsigned_length v) v = v"
proof -
  have "(256 :: nat) ^ k = 2 ^ (8 * k)" for k by (simp add: power_mult)
  then show ?thesis using bacnet_unsigned_length_bounds [of v] by (intro take_bit_small) simp
qed

lemma unsigned_content:
  "bacnet_unsigned_decode (encode_bacnet_unsigned v @ rest) (of_nat (bacnet_unsigned_length v)) =
     Some (int (bacnet_unsigned_length v), Some v)"
proof -
  have "bacnet_unsigned_length v \<in> {1,2,3,4,5,6,7,8}"
    using bacnet_unsigned_length_range [of v] by auto
  then show ?thesis
    using unsigned_take_bit [of v]
    by (auto simp: encode_bacnet_unsigned_def bacnet_unsigned_decode_def unsigned16_roundtrip
        unsigned24_roundtrip unsigned32_roundtrip unsigned40_roundtrip unsigned48_roundtrip
        unsigned56_roundtrip unsigned64_roundtrip narrowed)
qed

lemmas integer_decoders = decode_unsigned16_def decode_unsigned24_def decode_unsigned32_def
  decode_unsigned40_def decode_unsigned48_def decode_unsigned56_def decode_unsigned64_def
  decode_signed8_def decode_signed16_def decode_signed24_def decode_signed32_def

lemma unsigned_bounded: "wp (bacnet_unsigned_decode apdu l) (\<lambda>(n, _). n \<le> int (length apdu))"
  by (auto simp: bacnet_unsigned_decode_def stored_def integer_decoders)

interpretation prim_unsigned: primitive encode_bacnet_unsigned bacnet_unsigned_decode "\<lambda>_. True" id "\<lambda>n. n > 0"
  using bacnet_unsigned_length_range
  by unfold_locales (auto simp: unsigned_content unsigned_bounded Suc_le_eq)

section \<open>Enumerated\<close>

lemma enumerated_content:
  "bacnet_enumerated_decode (encode_bacnet_enumerated v @ rest) (of_nat (bacnet_unsigned_length (ucast v))) =
     Some (int (bacnet_unsigned_length (ucast v)), Some v)"
proof -
  have "ucast (ucast v :: u64) = v" by (rule bit_word_eqI) (simp add: bit_simps)
  then show ?thesis using bacnet_unsigned_length_range [of "ucast v"]
    by (simp add: bacnet_enumerated_decode_def encode_bacnet_enumerated_def unsigned_content)
qed

lemma enumerated_bounded: "wp (bacnet_enumerated_decode apdu l) (\<lambda>(n, _). n \<le> int (length apdu))"
  unfolding bacnet_enumerated_decode_def wp_bind
  by (rule wp_mono [OF unsigned_bounded]) auto

interpretation prim_enumerated: primitive encode_bacnet_enumerated bacnet_enumerated_decode "\<lambda>_. True" id "\<lambda>n. n > 0"
  using bacnet_unsigned_length_range
  by unfold_locales
    (auto simp: enumerated_content enumerated_bounded encode_bacnet_enumerated_def
      enumerated_content [unfolded encode_bacnet_enumerated_def] Suc_le_eq)

section \<open>Signed\<close>

lemma length_encode_signed [simp]: "length (encode_bacnet_signed v) = bacnet_signed_length v"
  by (simp add: encode_bacnet_signed_def bacnet_signed_length_def)

lemma signed_take_bit_range:
  assumes "- (2 ^ n) \<le> sint v" "sint v < 2 ^ n"
  shows "signed_take_bit n (v :: u32) = v"
proof -
  have "signed_take_bit n (of_int (sint v) :: u32) = of_int (signed_take_bit n (sint v))"
    by (rule signed_take_bit_of_int)
  also have "signed_take_bit n (sint v) = sint v" using assms by (rule signed_take_bit_int_eq_self)
  finally show ?thesis by simp
qed

lemma scast_ucast:
  assumes "LENGTH('b) \<le> 32"
  shows "scast (ucast (v :: u32) :: 'b::len word) = signed_take_bit (LENGTH('b) - 1) v"
  using assms by (auto intro!: bit_word_eqI simp: bit_simps min_def)

lemma signed_content:
  "bacnet_signed_decode (encode_bacnet_signed v @ rest) (of_nat (bacnet_signed_length v)) =
     Some (int (bacnet_signed_length v), Some v)"
  using signed_take_bit_range [of 7 v] signed_take_bit_range [of 15 v] signed_take_bit_range [of 23 v]
  by (auto simp: bacnet_signed_length_def bacnet_signed_decode_def encode_bacnet_signed_def
      signed8_roundtrip signed16_roundtrip signed24_roundtrip signed32_roundtrip scast_ucast)

lemma signed_length_pos [simp]: "0 < bacnet_signed_length v"
  by (simp add: bacnet_signed_length_def)

lemma signed_bounded: "wp (bacnet_signed_decode apdu l) (\<lambda>(n, _). n \<le> int (length apdu))"
  by (auto simp: bacnet_signed_decode_def stored_def integer_decoders)

interpretation prim_signed: primitive encode_bacnet_signed bacnet_signed_decode "\<lambda>_. True" id "\<lambda>n. n > 0"
  by unfold_locales (auto simp: signed_content signed_bounded)

section \<open>Real, Double, Date and Time\<close>

lemma encode_nonempty [simp]: "encode_unsigned32 v \<noteq> []" "encode_unsigned64 w \<noteq> []"
  by (simp_all add: encode_unsigned32_def encode_unsigned64_def)

lemma real_bounded: "wp (bacnet_real_decode apdu l) (\<lambda>(n, _). n \<le> int (length apdu))"
  by (auto simp: bacnet_real_decode_def decode_real_def stored_def integer_decoders)

interpretation prim_real: primitive encode_bacnet_real bacnet_real_decode "\<lambda>_. True" id "\<lambda>n. n > 0"
  by unfold_locales
    (simp_all add: real_bounded, simp_all add: bacnet_real_decode_def encode_bacnet_real_def
      decode_real_def unsigned32_roundtrip)

lemma double_bounded: "wp (bacnet_double_decode apdu l) (\<lambda>(n, _). n \<le> int (length apdu))"
  by (auto simp: bacnet_double_decode_def decode_double_def stored_def integer_decoders)

interpretation prim_double: primitive encode_bacnet_double bacnet_double_decode "\<lambda>_. True" id "\<lambda>n. n > 0"
  by unfold_locales
    (simp_all add: double_bounded, simp_all add: bacnet_double_decode_def encode_bacnet_double_def
      decode_double_def unsigned64_roundtrip)

interpretation prim_time: primitive encode_bacnet_time bacnet_time_decode "\<lambda>_. True" id "\<lambda>n. n > 0"
  by unfold_locales (auto simp: bacnet_time_decode_def encode_bacnet_time_def)

text \<open>A date keeps its year when it lies in the range of the encoding, 1900 to 2155.\<close>

definition wf_date :: "BACNET_DATE \<Rightarrow> bool" where
  "wf_date d \<longleftrightarrow> 1900 \<le> year d \<and> year d \<le> 2155"

lemma year_roundtrip:
  assumes "1900 \<le> (y :: u16)" "y \<le> 2155"
  shows "ucast (ucast (y - 1900) :: u8) + 1900 = y"
proof -
  have "unat (y - 1900) = unat y - 1900" using assms(1) by (simp add: unat_sub)
  then have "unat (y - 1900) < 2 ^ LENGTH(8)" using assms by (simp add: word_le_nat_alt)
  then have "ucast (ucast (y - 1900) :: u8) = y - 1900" by (rule ucast_ucast_small)
  then show ?thesis by simp
qed

interpretation prim_date: primitive encode_bacnet_date bacnet_date_decode wf_date id "\<lambda>n. n > 0"
  by unfold_locales (auto simp: bacnet_date_decode_def encode_bacnet_date_def wf_date_def year_roundtrip)

section \<open>Object identifiers\<close>

text \<open>The fields are 10 and 22 bits wide.\<close>

definition object_id_fields :: "u32 \<times> u32 \<Rightarrow> u32 \<times> u32" where
  "object_id_fields p = (fst p AND BACNET_MAX_OBJECT, snd p AND BACNET_MAX_INSTANCE)"

lemma object_id_masks:
  "BACNET_MAX_OBJECT = mask 10" "BACNET_MAX_INSTANCE = mask 22"
  by (simp_all add: BACNET_MAX_OBJECT_def BACNET_MAX_INSTANCE_def mask_eq_exp_minus_1)

lemma object_id_parts:
  "drop_bit 22 (push_bit 22 (t AND mask 10) OR (i AND mask 22)) AND mask 10 = (t :: u32) AND mask 10"
  "(push_bit 22 (t AND mask 10) OR (i AND mask 22)) AND mask 22 = (i :: u32) AND mask 22"
  by (auto intro!: bit_word_eqI simp: bit_simps)

lemma object_id_content:
  "bacnet_object_id_decode (encode_bacnet_object_id t i @ rest) 4 = Some (4, Some (object_id_fields (t, i)))"
  by (simp add: bacnet_object_id_decode_def decode_object_id_safe_def encode_bacnet_object_id_def
      unsigned32_roundtrip object_id_fields_def object_id_masks BACNET_INSTANCE_BITS_def object_id_parts
      del: push_bit_and drop_bit_and drop_bit_or)

lemma length_object_id [simp]: "length (encode_bacnet_object_id t i) = 4" "encode_bacnet_object_id t i \<noteq> []"
  by (simp_all add: encode_bacnet_object_id_def)

lemma object_id_bounded: "wp (bacnet_object_id_decode apdu l) (\<lambda>(n, _). n \<le> int (length apdu))"
  by (auto simp: bacnet_object_id_decode_def decode_object_id_safe_def decode_unsigned32_def)

interpretation prim_object_id: primitive "\<lambda>(t, i). encode_bacnet_object_id t i" bacnet_object_id_decode
  "\<lambda>_. True" object_id_fields "\<lambda>n. n > 0"
  by unfold_locales (auto simp: object_id_content object_id_bounded)

section \<open>Octet and character strings\<close>

text \<open>A decoded string has the octets of the sent one and zeros behind them.\<close>

definition received_octets :: "BACNET_OCTET_STRING \<Rightarrow> BACNET_OCTET_STRING" where
  "received_octets s = \<lparr>octet_length = octet_length s,
     octet_value = take (octet_length s) (octet_value s) @ replicate (MAX_OCTET_STRING_BYTES - octet_length s) 0\<rparr>"

lemma max_string: "MAX_OCTET_STRING_BYTES = 1470" "MAX_CHARACTER_STRING_BYTES = 1470"
  "CHARACTER_STRING_CAPACITY = 1469"
  by (simp_all add: MAX_OCTET_STRING_BYTES_def MAX_CHARACTER_STRING_BYTES_def
      CHARACTER_STRING_CAPACITY_def MAX_APDU_def)

lemma length_word: "n < 2 ^ 31 \<Longrightarrow> unat (of_nat n :: u32) = n \<and> sint (of_nat n :: u32) = int n"
  by (simp add: unsigned_of_nat take_bit_nat_eq_self signed_of_nat signed_take_bit_int_eq_self)

lemma uint_le:
  assumes "unat (w :: u32) \<le> n"
  shows "uint w \<le> int n"
proof -
  have "int (unat w) \<le> int n" using assms by (simp only: of_nat_le_iff)
  then show ?thesis by simp
qed

lemma sint_le: "unat (w :: u32) \<le> n \<Longrightarrow> sint w \<le> int n"
proof -
  assume "unat w \<le> n"
  moreover have "- 2147483648 \<le> uint w" by (rule order_trans [OF _ uint_ge_0]) simp
  then have "sint w \<le> uint w" by (simp add: sint_uint signed_take_bit_int_less_eq_self_iff)
  ultimately show ?thesis using uint_le [of w n] by simp
qed

lemma filled_append: "length xs = n \<Longrightarrow> filled (xs @ rest) n cap = Some (xs @ replicate (cap - n) 0)"
  by (simp add: filled_def)

lemma octets_content:
  assumes "wf_octetstring s"
  shows "bacnet_octet_string_decode s0 (encode_octet_string s @ rest) (of_nat (length (encode_octet_string s))) =
    Some (int (length (encode_octet_string s)), Some (received_octets s))"
proof -
  have n: "octet_length s \<le> 1470" "length (octet_value s) = 1470"
    using assms by (simp_all add: wf_octetstring_def max_string)
  then have e: "encode_octet_string s = take (octet_length s) (octet_value s)"
    by (simp add: encode_octet_string_def octetstring_length_def max_string)
  show ?thesis
    using n length_word [of "octet_length s"]
    by (auto simp: e bacnet_octet_string_decode_def octetstring_init_def max_string filled_append
        received_octets_def word_less_nat_alt)
qed

lemma octets_bounded: "wp (bacnet_octet_string_decode s0 apdu l) (\<lambda>(n, _). n \<le> int (length apdu))"
  by (auto simp: bacnet_octet_string_decode_def octetstring_init_def filled_def word_less_nat_alt sint_le)

interpretation prim_octets: primitive encode_octet_string "bacnet_octet_string_decode s0" wf_octetstring
  received_octets "\<lambda>n. n \<ge> 0"
  by unfold_locales (simp_all add: octets_content octets_bounded)

definition received_chars :: "BACNET_CHARACTER_STRING \<Rightarrow> BACNET_CHARACTER_STRING" where
  "received_chars s = \<lparr>char_length = char_length s, encoding = encoding s,
     char_value = take (char_length s) (char_value s) @ replicate (MAX_CHARACTER_STRING_BYTES - char_length s) 0\<rparr>"

lemma chars_content:
  assumes "wf_charstring s"
  shows "bacnet_character_string_decode s0 (encode_bacnet_character_string s @ rest)
      (of_nat (length (encode_bacnet_character_string s))) =
    Some (int (length (encode_bacnet_character_string s)), Some (received_chars s))"
proof -
  have n: "char_length s \<le> 1469" "length (char_value s) = 1470"
    using assms by (simp_all add: wf_charstring_def max_string)
  then have e: "encode_bacnet_character_string s = encoding s # take (char_length s) (char_value s)"
    by (simp add: encode_bacnet_character_string_def characterstring_length_def
        characterstring_encoding_def max_string)
  have l: "unat (of_nat (Suc (char_length s)) :: u32) = Suc (char_length s)"
    "sint (of_nat (Suc (char_length s)) :: u32) = int (Suc (char_length s))"
    using length_word [of "Suc (char_length s)"] n by simp_all
  show ?thesis
    using n l
    by (auto simp: e bacnet_character_string_decode_def characterstring_init_def max_string filled_append
        received_chars_def word_less_nat_alt Let_def simp del: of_nat_Suc)
qed

lemma chars_bounded: "wp (bacnet_character_string_decode s0 apdu l) (\<lambda>(n, _). n \<le> int (length apdu))"
  by (auto simp: bacnet_character_string_decode_def characterstring_init_def filled_def word_less_nat_alt Let_def sint_le)

interpretation prim_chars: primitive encode_bacnet_character_string "bacnet_character_string_decode s0"
  wf_charstring received_chars "\<lambda>n. n > 0"
  by unfold_locales (simp_all add: chars_content chars_bounded, simp add: encode_bacnet_character_string_def)

section \<open>Bit strings\<close>

lemma bit_reverse: "\<forall>n < 8. bit (byte_reverse_bits x) n = bit x (7 - n)"
  unfolding all_less_8
  by (simp add: byte_reverse_bits_def bit_or_iff if_distrib [of "\<lambda>w. bit w _"])

lemma reverse_bits: "byte_reverse_bits (byte_reverse_bits x) = x"
  by (simp add: u8_eq_iff bit_reverse)

lemma set_octets_append:
  assumes "wf_bitstring b" "i + length xs \<le> MAX_BITSTRING_BYTES"
  shows "set_octets i xs (Some b) = Some (Some (b\<lparr>bit_octets := take i (bit_octets b) @
    map byte_reverse_bits xs @ drop (i + length xs) (bit_octets b)\<rparr>))"
  using assms
proof (induction xs arbitrary: i b)
  case (Cons x xs)
  let ?b = "b\<lparr>bit_octets := (bit_octets b)[i := byte_reverse_bits x]\<rparr>"
  have i: "i < MAX_BITSTRING_BYTES" using Cons.prems(2) by simp
  then have "unat (of_nat i :: u8) = i"
    by (simp add: MAX_BITSTRING_BYTES_def unsigned_of_nat take_bit_nat_eq_self)
  then have "set_octets i (x # xs) (Some b) = set_octets (Suc i) xs (Some ?b)"
    using i Cons.prems(1) by (simp add: bitstring_set_octet_def wf_bitstring_def write_at_one del: write_at_Some)
  also have "\<dots> = Some (Some (?b\<lparr>bit_octets := take (Suc i) (bit_octets ?b) @
      map byte_reverse_bits xs @ drop (Suc i + length xs) (bit_octets ?b)\<rparr>))"
    using Cons.prems by (intro Cons.IH) (simp_all add: wf_bitstring_def)
  finally show ?case
    using i Cons.prems(1) by (simp add: wf_bitstring_def take_Suc_conv_app_nth)
qed simp

definition used_octets :: "BACNET_BIT_STRING \<Rightarrow> nat" where
  "used_octets b = (unat (bits_used b) + 7) div 8"

definition received_bits :: "BACNET_BIT_STRING \<Rightarrow> BACNET_BIT_STRING" where
  "received_bits b = \<lparr>bits_used = bits_used b, bit_octets = take (used_octets b) (bit_octets b) @
     replicate (MAX_BITSTRING_BYTES - used_octets b) 0\<rparr>"

lemma used_octets_bounds:
  "unat (bits_used b) \<le> 8 * used_octets b" "8 * used_octets b < unat (bits_used b) + 8"
  "unat (bits_used b) \<le> MAX_BITSTRING_BYTES * 8 \<Longrightarrow> used_octets b \<le> MAX_BITSTRING_BYTES"
  by (simp_all add: used_octets_def MAX_BITSTRING_BYTES_def)

lemma bytes_used: "bitstring_bytes_used (Some b) = of_nat (used_octets b)"
proof (cases "bits_used b = 0")
  case False
  then have "unat (bits_used b - 1) = unat (bits_used b) - 1" and p: "0 < unat (bits_used b)"
    by (simp_all add: unat_minus_one unat_gt_0)
  then have "unat ((bits_used b - 1) div 8) = (unat (bits_used b) - 1) div 8"
    by (simp add: unat_div)
  moreover have "(bits_used b - 1) div 8 = of_nat (unat ((bits_used b - 1) div 8))" by simp
  ultimately have "(bits_used b - 1) div 8 = of_nat ((unat (bits_used b) - 1) div 8)" by simp
  moreover have "used_octets b = Suc ((unat (bits_used b) - 1) div 8)"
    using p by (simp add: used_octets_def)
  ultimately show ?thesis using False by (simp add: bitstring_bytes_used_def)
qed (simp add: bitstring_bytes_used_def used_octets_def)

lemma map_upt_take: "n \<le> length xs \<Longrightarrow> map (\<lambda>i. f (xs ! i)) [0..<n] = map f (take n xs)"
  by (rule nth_equalityI) simp_all

lemma encode_bitstring_octets:
  assumes "wf_bitstring b"
  shows "encode_bitstring b =
    of_nat (8 * used_octets b - unat (bits_used b)) #
    map byte_reverse_bits (take (used_octets b) (bit_octets b))"
proof (cases "bits_used b = 0")
  case False
  have u: "used_octets b \<le> 15" and l: "length (bit_octets b) = 15"
    using assms used_octets_bounds(3) [of b] by (simp_all add: wf_bitstring_def MAX_BITSTRING_BYTES_def)
  then have w: "unat (of_nat i :: u8) = i" if "i \<le> used_octets b" for i
    using that by (simp add: unsigned_of_nat take_bit_nat_eq_self)
  have "of_nat (8 * used_octets b - unat (bits_used b)) = (8 * of_nat (used_octets b) - bits_used b :: u8)"
    using used_octets_bounds(1) [of b] by (simp add: of_nat_diff)
  then have "8 - (bits_used b - (of_nat (used_octets b) - 1) * 8) =
      (of_nat (8 * used_octets b - unat (bits_used b)) :: u8)"
    by (simp add: algebra_simps)
  moreover have "map (\<lambda>i. byte_reverse_bits (bitstring_octet (Some b) (of_nat i))) [0..<used_octets b] =
      map (\<lambda>i. byte_reverse_bits (bit_octets b ! i)) [0..<used_octets b]"
    using u w by (intro map_cong) (auto simp: bitstring_octet_def MAX_BITSTRING_BYTES_def)
  ultimately show ?thesis
    using False w u l map_upt_take [of "used_octets b" "bit_octets b" byte_reverse_bits]
    by (simp add: encode_bitstring_def bitstring_bits_used_def bytes_used Let_def)
qed (simp add: encode_bitstring_def bitstring_bits_used_def used_octets_def)

lemma bits_content:
  assumes "wf_bitstring b"
  shows "bacnet_bitstring_decode b0 (encode_bitstring b @ rest) (of_nat (length (encode_bitstring b))) =
    Some (int (length (encode_bitstring b)), Some (received_bits b))"
proof -
  let ?u = "used_octets b" and ?n = "unat (bits_used b)"
  have u: "?u \<le> 15" and l: "length (bit_octets b) = 15"
    using assms used_octets_bounds(3) [of b] by (simp_all add: wf_bitstring_def MAX_BITSTRING_BYTES_def)
  have m: "(of_nat (8 * ?u - ?n) :: u8) AND 0x07 = of_nat (8 * ?u - ?n)"
    using used_octets_bounds(2) [of b] unfolding and_07
    by (intro take_bit_small) (simp add: unsigned_of_nat take_bit_nat_eq_self)
  have b: "of_nat ?u * 8 - of_nat (8 * ?u - ?n) = bits_used b"
    using used_octets_bounds(1) [of b] by (simp add: of_nat_diff)
  have z: "?u = 0 \<longleftrightarrow> ?n = 0" using used_octets_bounds(1,2) [of b] by auto
  have w: "unat (of_nat (Suc ?u) :: u32) = Suc ?u" "unat (of_nat ?u :: u8) = ?u"
    using u by (simp_all add: unsigned_of_nat take_bit_nat_eq_self del: of_nat_Suc)
  then have w0: "(of_nat ?u :: u8) = 0 \<longleftrightarrow> ?u = 0" by (simp add: word_unat_eq_iff)
  have len: "length (encode_bitstring b) = Suc ?u" using u l by (simp add: encode_bitstring_octets [OF assms])
  let ?z = "\<lparr>bits_used = 0, bit_octets = replicate 15 0\<rparr>"
  have "set_octets 0 (map byte_reverse_bits (take ?u (bit_octets b))) (Some ?z) =
      Some (Some \<lparr>bits_used = 0, bit_octets = bit_octets (received_bits b)\<rparr>)"
    using u l set_octets_append [of ?z 0 "map byte_reverse_bits (take ?u (bit_octets b))"]
    by (simp add: wf_bitstring_def MAX_BITSTRING_BYTES_def received_bits_def o_def reverse_bits)
  moreover have "bitstring_init (Some b0) = Some ?z" by (simp add: bitstring_init_def MAX_BITSTRING_BYTES_def)
  ultimately show ?thesis
    using u l w m b w0 z
    by (simp add: len bacnet_bitstring_decode_def encode_bitstring_octets [OF assms] word_less_nat_alt
        MAX_BITSTRING_BYTES_def bitstring_set_bits_used_def received_bits_def Let_def del: of_nat_Suc)
      (auto simp: word_unat_eq_iff)
qed

lemma bits_bounded: "wp (bacnet_bitstring_decode b0 apdu l) (\<lambda>(n, _). n \<le> int (length apdu))"
proof -
  obtain z where z: "bitstring_init (Some b0) = Some z" by (simp add: bitstring_init_def)
  have set: "wp (set_octets 0 xs (Some z)) P" if "length xs \<le> MAX_BITSTRING_BYTES" "\<And>x. P x" for xs P
    using that set_octets_append [of z 0 xs] bitstring_init_wf [OF z] by simp
  show ?thesis
    by (auto simp: bacnet_bitstring_decode_def z Let_def word_less_nat_alt uint_le intro!: set)
qed

interpretation prim_bits: primitive encode_bitstring "bacnet_bitstring_decode b0" wf_bitstring received_bits
  "\<lambda>n. n > 0"
  by unfold_locales (simp_all add: bits_content bits_bounded, simp add: encode_bitstring_octets)

end
