(* ===== verification/Bac_App.thy ===== *)
theory Bac_App
  imports Bac_Primitive_Codec
begin

text \<open>
  Application data: what is encoded comes back, the decoder is safe on every input, and where the
  decoders of \<^verbatim>\<open>bacdcode.c\<close> report success without the value that was sent.
\<close>

fun wf_value :: "app_value \<Rightarrow> bool" where
  "wf_value (Octet_String s) = wf_octetstring s"
| "wf_value (Character_String s) = wf_charstring s"
| "wf_value (Bit_String b) = wf_bitstring b"
| "wf_value (Date d) = wf_date d"
| "wf_value _ = True"

fun received_value :: "app_value \<Rightarrow> app_value" where
  "received_value (Octet_String s) = Octet_String (received_octets s)"
| "received_value (Character_String s) = Character_String (received_chars s)"
| "received_value (Bit_String b) = Bit_String (received_bits b)"
| "received_value (Object_Id t i) = (case object_id_fields (t, i) of (t, i) \<Rightarrow> Object_Id t i)"
| "received_value v = v"

text \<open>What is received is what was sent, for the comparison functions of \<^verbatim>\<open>bacstr.c\<close>.\<close>

lemma received_same:
  "wf_octetstring s \<Longrightarrow> octetstring_value_same (Some (received_octets s)) (Some s)"
  "wf_charstring c \<Longrightarrow> characterstring_same (Some (received_chars c)) (Some c)"
  "wf_bitstring b \<Longrightarrow> bits_of (received_bits b) = bits_of b"
proof -
  show "wf_octetstring s \<Longrightarrow> octetstring_value_same (Some (received_octets s)) (Some s)"
    by (simp add: octetstring_value_same_def received_octets_def wf_octetstring_def)
  show "wf_charstring c \<Longrightarrow> characterstring_same (Some (received_chars c)) (Some c)"
    by (simp add: characterstring_same_def received_chars_def wf_charstring_def max_string)
  assume b: "wf_bitstring b"
  have "bitstring_bit (Some (received_bits b)) (of_nat i) = bitstring_bit (Some b) (of_nat i)"
    if "i < unat (bits_used b)" for i
  proof -
    have "i div 8 < used_octets b" using that by (simp add: used_octets_def)
    moreover have "i div 8 < MAX_BITSTRING_BYTES"
      using that b by (simp add: wf_bitstring_def less_mult_imp_div_less)
    ultimately show ?thesis
      using b that unat_of_nat_bits [of i "bits_used b"]
      by (simp add: bitstring_bit_iff received_bits_def nth_append wf_bitstring_def)
  qed
  then show "bits_of (received_bits b) = bits_of b"
    by (simp add: bits_of_def received_bits_def)
qed

section \<open>Encodings with their tags\<close>

lemma as_value_Some [simp]: "as_value f (Some (n, v)) = Some (n, map_option f v)"
  by (simp add: as_value_def)

lemma data_decode_tagged:
  assumes "data_value_decode u (bs @ rest) number l = Some (int (length bs), Some v)"
    and "bs \<noteq> [] \<or> number = 0 \<or> number = 1 \<or> number = 6"
  shows "bacapp_decode_application_data u (encode_tag number False l @ bs @ rest) =
    Some (int (length (encode_tag number False l @ bs)), Some v)"
  using assms by (auto simp: bacapp_decode_application_data_def bacapp_data_decode_def tag_decode_encode)

context primitive
begin

lemma application_data:
  assumes "wf v" "\<And>apdu l. data_value_decode u apdu number l = as_value f (dec apdu l)"
    and "content v \<noteq> [] \<or> number = 6"
  shows "bacapp_decode_application_data u
      (encode_tag number False (of_nat (length (content v))) @ content v @ rest) =
    Some (int (length (encode_tag number False (of_nat (length (content v))) @ content v)), Some (f (view v)))"
  using assms by (intro data_decode_tagged) (auto simp: dec_content)

end

lemma content_lengths:
  "length (encode_bacnet_real a) = 4" "length (encode_bacnet_double c) = 8"
  "length (encode_bacnet_time e) = 4" "length (encode_bacnet_date f) = 4"
  "length (encode_bacnet_enumerated g) = bacnet_unsigned_length (ucast g)"
  by (simp_all add: encode_bacnet_real_def encode_bacnet_double_def encode_bacnet_time_def
      encode_bacnet_date_def encode_bacnet_enumerated_def)

lemma string_lengths:
  "wf_octetstring s \<Longrightarrow> length (encode_octet_string s) = octetstring_length (Some s)"
  "wf_charstring c \<Longrightarrow> length (encode_bacnet_character_string c) = 1 + characterstring_length (Some c)"
  "wf_bitstring b \<Longrightarrow> of_nat (length (encode_bitstring b)) = (1 + ucast (bitstring_bytes_used (Some b)) :: u32)"
proof -
  show "wf_octetstring s \<Longrightarrow> length (encode_octet_string s) = octetstring_length (Some s)"
    by (simp add: encode_octet_string_def octetstring_length_def wf_octetstring_def)
  show "wf_charstring c \<Longrightarrow> length (encode_bacnet_character_string c) = 1 + characterstring_length (Some c)"
    by (simp add: encode_bacnet_character_string_def characterstring_length_def wf_charstring_def max_string)
  assume b: "wf_bitstring b"
  then have "used_octets b \<le> 15" "length (bit_octets b) = 15"
    using used_octets_bounds(3) [of b] by (simp_all add: wf_bitstring_def MAX_BITSTRING_BYTES_def)
  then show "of_nat (length (encode_bitstring b)) = (1 + ucast (bitstring_bytes_used (Some b)) :: u32)"
    by (simp add: encode_bitstring_octets [OF b] bytes_used unsigned_of_nat take_bit_nat_eq_self)
qed

lemma contents_nonempty [simp]:
  "encode_bacnet_unsigned a \<noteq> []" "encode_bacnet_signed b \<noteq> []" "encode_bacnet_real b \<noteq> []"
  "encode_bacnet_double a \<noteq> []" "encode_bacnet_time e \<noteq> []" "encode_bacnet_date f \<noteq> []"
  "encode_bacnet_enumerated b \<noteq> []" "encode_bacnet_character_string c \<noteq> []" "encode_bitstring d \<noteq> []"
  by (auto simp: encode_bacnet_real_def encode_bacnet_double_def encode_bacnet_time_def encode_bacnet_date_def
      encode_bacnet_enumerated_def encode_bacnet_character_string_def encode_bitstring_def Let_def
      simp flip: length_greater_0_conv)

text \<open>The round trip of one value, and the values in three groups.\<close>

definition comes_back :: "app_union \<Rightarrow> bytes \<Rightarrow> app_value \<Rightarrow> bool" where
  "comes_back u rest v \<longleftrightarrow> bacapp_decode_application_data u (bacapp_encode_application_data v @ rest) =
     Some (int (length (bacapp_encode_application_data v)), Some (received_value v))"

lemma plain_values_back: "comes_back u rest Null" "comes_back u rest (Boolean x)"
  using data_decode_tagged [of u "[]" rest 0 0 Null]
    data_decode_tagged [of u "[]" rest 1 "if x then 1 else 0" "Boolean x"]
  by (simp_all add: comes_back_def data_value_decode_def encode_tag_def number_bits_def number_octets_def
      decode_boolean_def encode_application_boolean_def)

lemma numbers_back:
  "comes_back u rest (Unsigned_Int a)" "comes_back u rest (Signed_Int b)" "comes_back u rest (Real b)"
  "comes_back u rest (Double a)" "comes_back u rest (Enumerated b)"
  using prim_unsigned.application_data [where v = a and u = u and number = 2 and f = Unsigned_Int and rest = rest]
    prim_signed.application_data [where v = b and u = u and number = 3 and f = Signed_Int and rest = rest]
    prim_real.application_data [where v = b and u = u and number = 4 and f = Real and rest = rest]
    prim_double.application_data [where v = a and u = u and number = 5 and f = Double and rest = rest]
    prim_enumerated.application_data [where v = b and u = u and number = 9 and f = Enumerated and rest = rest]
  by (simp_all add: comes_back_def data_value_decode_def content_lengths encode_application_unsigned_def
      encode_application_signed_def encode_application_real_def encode_application_double_def
      encode_application_enumerated_def)

lemma records_back:
  "wf_date d \<Longrightarrow> comes_back u rest (Date d)" "comes_back u rest (Time h)" "comes_back u rest (Object_Id x y)"
  using prim_date.application_data [where v = d and u = u and number = 10 and f = Date and rest = rest]
    prim_time.application_data [where v = h and u = u and number = 11 and f = Time and rest = rest]
    prim_object_id.application_data
      [where v = "(x, y)" and u = u and number = 12 and f = "\<lambda>(t, i). Object_Id t i" and rest = rest]
  by (simp_all add: comes_back_def data_value_decode_def content_lengths encode_application_date_def
      encode_application_time_def encode_application_object_id_def)

lemma strings_back:
  "wf_octetstring s \<Longrightarrow> comes_back u rest (Octet_String s)"
  "wf_charstring c \<Longrightarrow> comes_back u rest (Character_String c)"
  "wf_bitstring b \<Longrightarrow> comes_back u rest (Bit_String b)"
  using prim_octets.application_data
      [where v = s and u = u and number = 6 and f = Octet_String and rest = rest and ?s0.0 = "u_octets u"]
    prim_chars.application_data
      [where v = c and u = u and number = 7 and f = Character_String and rest = rest and ?s0.0 = "u_chars u"]
    prim_bits.application_data
      [where v = b and u = u and number = 8 and f = Bit_String and rest = rest and ?b0.0 = "u_bits u"]
  by (simp_all add: comes_back_def data_value_decode_def string_lengths encode_application_octet_string_def
      encode_application_character_string_def encode_application_bitstring_def)

text \<open>
  C27. Every primitive value that is encoded with its application tag is decoded again, whatever
  follows: the decoder returns the length of the encoding and the value, strings with zeros behind
  the octets in use and object identifiers reduced to their 10 and 22 bits.
\<close>

theorem application_data_roundtrip:
  assumes "wf_value v"
  shows "bacapp_decode_application_data u (bacapp_encode_application_data v @ rest) =
    Some (int (length (bacapp_encode_application_data v)), Some (received_value v))"
proof -
  have "comes_back u rest v"
    using assms by (cases v) (simp_all add: plain_values_back numbers_back records_back strings_back)
  then show ?thesis by (simp add: comes_back_def)
qed

definition empty_union :: app_union where
  "empty_union = \<lparr>u_octets = \<lparr>octet_length = 0, octet_value = replicate MAX_OCTET_STRING_BYTES 0\<rparr>,
     u_chars = \<lparr>char_length = 0, encoding = 0, char_value = replicate MAX_CHARACTER_STRING_BYTES 0\<rparr>,
     u_bits = \<lparr>bits_used = 0, bit_octets = replicate MAX_BITSTRING_BYTES 0\<rparr>\<rparr>"

theorem application_data_roundtrip_witness:
  "bacapp_decode_application_data empty_union
     (bacapp_encode_application_data (Date \<lparr>year = 2024, month = 2, day = 29, wday = 4\<rparr>) @ [1, 2]) =
   Some (5, Some (Date \<lparr>year = 2024, month = 2, day = 29, wday = 4\<rparr>))"
  using application_data_roundtrip
    [of "Date \<lparr>year = 2024, month = 2, day = 29, wday = 4\<rparr>" empty_union "[1, 2]"]
  by (simp add: wf_date_def encode_application_date_def encode_tag_def number_octets_def content_lengths)

section \<open>Safety\<close>

lemma wp_as_value: "wp (as_value f r) P = wp r (\<lambda>(n, v). P (n, map_option f v))"
  by (cases r) (auto simp: as_value_def)

lemma data_value_bounded: "wp (data_value_decode u apdu tag l) (\<lambda>(n, _). n \<le> int (length apdu))"
  by (simp add: data_value_decode_def wp_as_value unsigned_bounded signed_bounded real_bounded
      double_bounded octets_bounded chars_bounded bits_bounded enumerated_bounded object_id_bounded
      prim_date.dec_bounded prim_time.dec_bounded)

text \<open>
  C28. The decoder of application data never reads outside the octets it is given, whatever they are,
  and never reports to have consumed more of them than there are.
\<close>

theorem application_decoder_in_bounds:
  "\<exists>n v. bacapp_decode_application_data u apdu = Some (n, v) \<and> -1 \<le> n \<and> n \<le> int (length apdu)"
proof -
  have d: "wp (bacapp_data_decode u (drop len apdu) number l)
      (\<lambda>x. wp (case x of (n, v, failed) \<Rightarrow>
          Some (if n \<ge> 0 \<and> \<not> failed then (int len + n, v) else (- 1, v)))
        (\<lambda>(n, _). -1 \<le> n \<and> n \<le> int (length apdu)))" if "len \<le> length apdu" for len number l
    using that unfolding bacapp_data_decode_def wp_bind
    by (intro wp_mono [OF data_value_bounded]) (auto simp: of_nat_diff)
  have "wp (bacapp_decode_application_data u apdu) (\<lambda>(n, _). -1 \<le> n \<and> n \<le> int (length apdu))"
    unfolding bacapp_decode_application_data_def wp_bind
    by (rule wp_mono [OF tag_decode_safe]) (auto simp: d split: option.splits)
  then show ?thesis by (auto simp: wp_iff)
qed

section \<open>Success without the value\<close>

text \<open>
  Three decoders report success and lose the value. An object identifier whose tag announces any
  length but four octets is skipped and nothing is stored. An enumerated value with a context tag is
  cut to 32 bits, where the application decoder refuses it. A character string longer than the
  object holds is accepted and stored as the empty string.
\<close>

lemma decoders_lose_values:
  assumes "l \<noteq> 4" "4 \<le> length bs" "0xFFFFFFFF < v"
    and "CHARACTER_STRING_CAPACITY < length cs" "length cs < 2 ^ 16"
  shows "bacnet_object_id_context_decode n (encode_tag n True l @ bs) =
      Some (int (length (encode_tag n True l)) + 4, None) \<and>
    bacnet_enumerated_context_decode n (encode_context_unsigned n v) =
      Some (int (length (encode_context_unsigned n v)), Some (ucast v)) \<and>
    bacnet_enumerated_application_decode
      (encode_tag 9 False (of_nat (bacnet_unsigned_length v)) @ encode_bacnet_unsigned v) =
      Some (BACNET_STATUS_ERROR, None) \<and>
    bacnet_character_string_decode s0 (enc # cs) (of_nat (length (enc # cs))) =
      Some (int (length (enc # cs)), Some (s0\<lparr>char_length := 0, encoding := enc\<rparr>))"
proof (intro conjI)
  have "wp (decode_unsigned32 bs) (\<lambda>(k, _). k = 4)"
    using assms(2) by (auto simp: decode_unsigned32_def)
  then show "bacnet_object_id_context_decode n (encode_tag n True l @ bs) =
      Some (int (length (encode_tag n True l)) + 4, None)"
    using assms(1,2)
    by (auto simp: bacnet_object_id_context_decode_def tagged_decode_def tag_decode_encode context_tag_def
        bacnet_object_id_decode_def decode_object_id_safe_def wp_iff)
  have u: "bacnet_unsigned_decode (encode_bacnet_unsigned v) (of_nat (bacnet_unsigned_length v)) =
      Some (int (bacnet_unsigned_length v), Some v)"
    using unsigned_content [of v "[]"] by simp
  show "bacnet_enumerated_context_decode n (encode_context_unsigned n v) =
      Some (int (length (encode_context_unsigned n v)), Some (ucast v))"
    by (simp add: bacnet_enumerated_context_decode_def tagged_decode_def encode_context_unsigned_def
        tag_decode_encode context_tag_def bacnet_enumerated_decode_def u)
  show "bacnet_enumerated_application_decode
      (encode_tag 9 False (of_nat (bacnet_unsigned_length v)) @ encode_bacnet_unsigned v) =
      Some (BACNET_STATUS_ERROR, None)"
    using assms(3)
    by (simp add: bacnet_enumerated_application_decode_def tag_decode_encode application_tag_def u)
  have "unat (of_nat (Suc (length cs)) :: u32) = Suc (length cs)"
    "sint (of_nat (Suc (length cs)) :: u32) = int (Suc (length cs))"
    using length_word [of "Suc (length cs)"] assms(5) by simp_all
  then show "bacnet_character_string_decode s0 (enc # cs) (of_nat (length (enc # cs))) =
      Some (int (length (enc # cs)), Some (s0\<lparr>char_length := 0, encoding := enc\<rparr>))"
    using assms(4)
    by (auto simp: bacnet_character_string_decode_def characterstring_init_def Let_def word_less_nat_alt
        max_string simp del: of_nat_Suc)
qed

lemma decoders_lose_values_witness:
  "bacnet_object_id_context_decode 2 (encode_tag 2 True 3 @ [1, 2, 3, 4]) = Some (5, None) \<and>
   bacnet_enumerated_context_decode 2 (encode_context_unsigned 2 0x100000007) =
     Some (int (length (encode_context_unsigned 2 0x100000007)), Some 7)"
proof -
  have "(3 :: u32) \<noteq> 4" "4 \<le> length [1, 2, 3, 4 :: u8]" "(0xFFFFFFFF :: u64) < 0x100000007"
    "CHARACTER_STRING_CAPACITY < length (replicate 1470 (0 :: u8))" "length (replicate 1470 (0 :: u8)) < 2 ^ 16"
    by (simp_all add: max_string)
  from decoders_lose_values [OF this, of 2] show ?thesis
    by (simp add: encode_tag_def number_octets_def)
qed

end
