(* ===== verification/Bac_Dcc.thy ===== *)
theory Bac_Dcc
  imports Bac_App
begin

text \<open>
  DeviceCommunicationControl, \<^verbatim>\<open>src/bacnet/dcc.c\<close>: the state that gates the dispatch of APDUs, its
  timer, and the encoding of the service request; and \<^verbatim>\<open>src/bacnet/bacerror.c\<close>, the encoding of errors.
\<close>

section \<open>The state of communication\<close>

record DCC =
  DCC_Time_Duration_Seconds :: u32
  DCC_Enable_Disable :: nat

abbreviation (input) COMMUNICATION_ENABLE :: nat where "COMMUNICATION_ENABLE \<equiv> 0"
abbreviation (input) COMMUNICATION_DISABLE :: nat where "COMMUNICATION_DISABLE \<equiv> 1"
abbreviation (input) COMMUNICATION_DISABLE_INITIATION :: nat where
  "COMMUNICATION_DISABLE_INITIATION \<equiv> 2"
abbreviation (input) MAX_BACNET_COMMUNICATION_ENABLE_DISABLE :: nat where
  "MAX_BACNET_COMMUNICATION_ENABLE_DISABLE \<equiv> 3"

definition dcc_enable_status :: "DCC \<Rightarrow> nat" where
  "dcc_enable_status d = DCC_Enable_Disable d"

definition dcc_communication_enabled :: "DCC \<Rightarrow> bool" where
  "dcc_communication_enabled d = (DCC_Enable_Disable d = COMMUNICATION_ENABLE)"

definition dcc_communication_disabled :: "DCC \<Rightarrow> bool" where
  "dcc_communication_disabled d = (DCC_Enable_Disable d = COMMUNICATION_DISABLE)"

definition dcc_communication_initiation_disabled :: "DCC \<Rightarrow> bool" where
  "dcc_communication_initiation_disabled d =
     (DCC_Enable_Disable d = COMMUNICATION_DISABLE_INITIATION)"

definition dcc_duration_seconds :: "DCC \<Rightarrow> u32" where
  "dcc_duration_seconds d = DCC_Time_Duration_Seconds d"

definition dcc_timer_seconds :: "u32 \<Rightarrow> DCC \<Rightarrow> DCC" where
  "dcc_timer_seconds seconds d =
     (if DCC_Time_Duration_Seconds d \<noteq> 0 then
        let d = (if DCC_Time_Duration_Seconds d > seconds
                 then d\<lparr>DCC_Time_Duration_Seconds := DCC_Time_Duration_Seconds d - seconds\<rparr>
                 else d\<lparr>DCC_Time_Duration_Seconds := 0\<rparr>)
        in if DCC_Time_Duration_Seconds d = 0 then d\<lparr>DCC_Enable_Disable := COMMUNICATION_ENABLE\<rparr> else d
      else d)"

definition dcc_set_status_duration :: "nat \<Rightarrow> u16 \<Rightarrow> DCC \<Rightarrow> bool \<times> DCC" where
  "dcc_set_status_duration status minutes d =
     (if status < MAX_BACNET_COMMUNICATION_ENABLE_DISABLE then
        (True, \<lparr>DCC_Time_Duration_Seconds =
                  (if status = COMMUNICATION_ENABLE then 0 else ucast minutes * 60),
                DCC_Enable_Disable = status\<rparr>)
      else (False, d))"

section \<open>The service request\<close>

text \<open>\<^verbatim>\<open>characterstring_init_ansi\<close> of \<^verbatim>\<open>bacstr.c\<close>; a C string is the list of its characters.\<close>

definition characterstring_init_ansi ::
  "BACNET_CHARACTER_STRING option \<Rightarrow> bytes option \<Rightarrow> (bool \<times> BACNET_CHARACTER_STRING option) option" where
  "characterstring_init_ansi char_string v =
     characterstring_init char_string CHARACTER_ANSI_X34 v (case v of None \<Rightarrow> 0 | Some v \<Rightarrow> length v)"

definition dcc_apdu_encode :: "u16 \<Rightarrow> u32 \<Rightarrow> BACNET_CHARACTER_STRING option \<Rightarrow> bytes" where
  "dcc_apdu_encode timeDuration enable_disable password =
     (if timeDuration \<noteq> 0 then encode_context_unsigned 0 (ucast timeDuration) else []) @
     encode_context_enumerated 1 enable_disable @
     (case password of
        None \<Rightarrow> []
      | Some p \<Rightarrow> if char_length p \<ge> 1 \<and> char_length p \<le> 20 then encode_context_character_string 2 p else [])"

definition dcc_service_request_encode ::
  "nat \<Rightarrow> u16 \<Rightarrow> u32 \<Rightarrow> BACNET_CHARACTER_STRING option \<Rightarrow> bytes" where
  "dcc_service_request_encode apdu_size timeDuration enable_disable password =
     bounded apdu_size (dcc_apdu_encode timeDuration enable_disable password)"

definition dcc_encode_apdu :: "u8 \<Rightarrow> u16 \<Rightarrow> u32 \<Rightarrow> BACNET_CHARACTER_STRING option \<Rightarrow> bytes" where
  "dcc_encode_apdu iid timeDuration enable_disable password =
     [PDU_TYPE_CONFIRMED_SERVICE_REQUEST, encode_max_segs_max_apdu 0 (int MAX_APDU), iid, 17] @
     dcc_apdu_encode timeDuration enable_disable password"

text \<open>
  The three parts of \<^verbatim>\<open>dcc_decode_service_request\<close> in front of what is left of the request: the
  length decoded, or the negative status to return, and the value. The password is decoded into
  the object \<open>p0\<close> of the caller.
\<close>

definition dcc_decode_duration :: "bytes \<Rightarrow> (int \<times> u16) option" where
  "dcc_decode_duration apdu = do {
     (len, v) \<leftarrow> bacnet_unsigned_context_decode 0 apdu;
     let d = (case v of None \<Rightarrow> 0 | Some d \<Rightarrow> d);
     if len > 0 then if d \<le> 0xFFFF then Some (len, ucast d) else Some (BACNET_STATUS_REJECT, 0)
     else if len < 0 then Some (BACNET_STATUS_ABORT, 0)
     else Some (0, 0) }"

definition dcc_decode_state :: "bytes \<Rightarrow> (int \<times> u32) option" where
  "dcc_decode_state apdu = do {
     (len, v) \<leftarrow> bacnet_enumerated_context_decode 1 apdu;
     if len > 0 then Some (len, case v of None \<Rightarrow> 0 | Some e \<Rightarrow> e) else Some (BACNET_STATUS_ABORT, 0) }"

definition dcc_decode_password ::
  "BACNET_CHARACTER_STRING \<Rightarrow> bytes \<Rightarrow> (int \<times> BACNET_CHARACTER_STRING) option" where
  "dcc_decode_password p0 apdu = do {
     (len, v) \<leftarrow> bacnet_character_string_context_decode p0 2 apdu;
     let p = (case v of None \<Rightarrow> p0 | Some p \<Rightarrow> p);
     if len > 0 then
       let n = (if characterstring_encoding (Some p) = CHARACTER_UTF8 then characterstring_utf8_length p
                else characterstring_length (Some p))
       in Some (if n \<ge> 1 \<and> n \<le> 20 then len else BACNET_STATUS_REJECT, p)
     else if len < 0 then Some (BACNET_STATUS_ABORT, p)
     else do { (_, q) \<leftarrow> characterstring_init_ansi (Some p) None; Some (0, case q of None \<Rightarrow> p | Some q \<Rightarrow> q) } }"

definition dcc_decode_service_request ::
  "BACNET_CHARACTER_STRING \<Rightarrow> bytes \<Rightarrow> u16 \<Rightarrow> u32
   \<Rightarrow> (int \<times> u16 \<times> u32 \<times> BACNET_CHARACTER_STRING) option" where
  "dcc_decode_service_request p0 apdu timeDuration enable_disable =
     (if length apdu = 0 then Some (0, timeDuration, enable_disable, p0)
      else do {
        (n, d) \<leftarrow> dcc_decode_duration apdu;
        if n < 0 then Some (n, timeDuration, enable_disable, p0)
        else do {
          (m, e) \<leftarrow> dcc_decode_state (drop (nat n) apdu);
          if m < 0 then Some (m, d, enable_disable, p0)
          else do {
            (k, p) \<leftarrow> dcc_decode_password p0 (drop (nat (n + m)) apdu);
            Some (if k < 0 then k else n + m + k, d, e, p) } } })"

section \<open>Errors\<close>

definition bacerror_encode_apdu :: "u8 \<Rightarrow> u8 \<Rightarrow> u32 \<Rightarrow> u32 \<Rightarrow> bytes" where
  "bacerror_encode_apdu iid service error_class error_code =
     [PDU_TYPE_ERROR, iid, service] @ encode_application_enumerated error_class
     @ encode_application_enumerated error_code"

text \<open>
  The return value and the two enumerated values, which keep what they were given, \<open>cls\<close> and
  \<open>code\<close>, as far as they are not decoded.
\<close>

definition bacerror_decode_error_class_and_code ::
  "bytes \<Rightarrow> u32 \<Rightarrow> u32 \<Rightarrow> (int \<times> u32 \<times> u32) option" where
  "bacerror_decode_error_class_and_code apdu cls code = do {
     (n, c) \<leftarrow> bacnet_enumerated_application_decode apdu;
     if n \<le> 0 then Some (BACNET_STATUS_ERROR, cls, code)
     else do {
       let cls = (case c of None \<Rightarrow> 0 | Some v \<Rightarrow> v);
       (m, e) \<leftarrow> bacnet_enumerated_application_decode (drop (nat n) apdu);
       if m \<le> 0 then Some (BACNET_STATUS_ERROR, cls, code)
       else Some (n + m, cls, case e of None \<Rightarrow> cls | Some v \<Rightarrow> v) } }"

definition bacerror_decode_service_request ::
  "bytes \<Rightarrow> u8 \<Rightarrow> u8 \<Rightarrow> u32 \<Rightarrow> u32 \<Rightarrow> (int \<times> u8 \<times> u8 \<times> u32 \<times> u32) option" where
  "bacerror_decode_service_request apdu iid service cls code =
     (if length apdu > 2 then do {
        b0 \<leftarrow> rd apdu 0;
        b1 \<leftarrow> rd apdu 1;
        (len, cls, code) \<leftarrow> bacerror_decode_error_class_and_code (drop 2 apdu) cls code;
        Some (if len > 0 then 2 + len else BACNET_STATUS_ERROR, b0, b1, cls, code) }
      else Some (BACNET_STATUS_ERROR, iid, service, cls, code))"

section \<open>The decoders are safe\<close>

lemma context_bounded:
  "wp (bacnet_unsigned_context_decode n apdu) (\<lambda>(k, _). k \<le> int (length apdu))"
  "wp (bacnet_enumerated_context_decode n apdu) (\<lambda>(k, _). k \<le> int (length apdu))"
  "wp (bacnet_character_string_context_decode p n apdu) (\<lambda>(k, _). k \<le> int (length apdu))"
  unfolding bacnet_unsigned_context_decode_def bacnet_enumerated_context_decode_def
    bacnet_character_string_context_decode_def
  by (rule prim_unsigned.tagged_bounded prim_enumerated.tagged_bounded prim_chars.tagged_bounded)+

lemma enumerated_application_bounded:
  "wp (bacnet_enumerated_application_decode apdu) (\<lambda>(k, _). k \<le> int (length apdu))"
proof (cases "apdu = []")
  case False
  have "wp (bacnet_unsigned_decode (drop len apdu) l)
      (\<lambda>x. wp (case x of (k, v) \<Rightarrow> let u = (case v of None \<Rightarrow> 0 | Some x \<Rightarrow> x) in
          Some (if k > 0 then if u > 0xFFFFFFFF then (- 1, None) else (int len + k, Some (ucast u :: u32))
                else (- 1, None)))
        (\<lambda>(k, _). k \<le> int (length apdu)))" if "len \<le> length apdu" for len l
    using that by (intro wp_mono [OF unsigned_bounded]) (auto simp: of_nat_diff Let_def)
  then show ?thesis
    using False unfolding bacnet_enumerated_application_decode_def
    by (auto intro!: wp_mono [OF tag_decode_safe] split: option.splits)
qed (simp add: bacnet_enumerated_application_decode_def)

lemma error_decode_defined:
  "wp (bacerror_decode_error_class_and_code apdu cls code) (\<lambda>(n, _, _). n \<le> int (length apdu))"
proof -
  have m: "wp (bacnet_enumerated_application_decode (drop (nat n) apdu)) (\<lambda>x. wp (case x of (m, e) \<Rightarrow>
      if m \<le> 0 then Some (- 1, c, code) else Some (n + m, c, case e of None \<Rightarrow> c | Some v \<Rightarrow> v))
      (\<lambda>(n, _, _). n \<le> int (length apdu)))" if "0 < n" "n \<le> int (length apdu)" for n c
    using that by (intro wp_mono [OF enumerated_application_bounded]) auto
  show ?thesis
    unfolding bacerror_decode_error_class_and_code_def wp_bind
    by (rule wp_mono [OF enumerated_application_bounded]) (use m in \<open>auto simp: Let_def\<close>)
qed

lemma init_ansi_empty:
  "characterstring_init_ansi (Some p) None =
     Some (True, Some \<lparr>char_length = 0, encoding = 0, char_value = replicate MAX_CHARACTER_STRING_BYTES 0\<rparr>)"
  by (cases p) (simp add: characterstring_init_ansi_def characterstring_init_def Let_def)

lemma dcc_decode_defined:
  "wp (dcc_decode_service_request p0 apdu d e) (\<lambda>(n, _). 0 \<le> n \<or> n = -2 \<or> n = -3)"
proof -
  let ?ok = "\<lambda>n :: int. 0 \<le> n \<or> n = -2 \<or> n = -3"
  have d: "wp (dcc_decode_duration apdu) (\<lambda>(n, _). ?ok n)"
    unfolding dcc_decode_duration_def wp_bind
    by (rule wp_mono [OF context_bounded(1)]) (auto simp: Let_def)
  have p: "wp (dcc_decode_password p0 bs) (\<lambda>(k, _). ?ok k)" for bs
    unfolding dcc_decode_password_def wp_bind
    by (rule wp_mono [OF context_bounded(3)]) (auto simp: Let_def init_ansi_empty)
  have p': "wp (dcc_decode_password p0 bs) (\<lambda>x. wp (case x of (k, q) \<Rightarrow>
      Some (if k < 0 then k else n + m + k, t, e', q)) (\<lambda>(n, _). ?ok n))"
    if "0 \<le> n" "0 \<le> m" for bs n m t e'
    using that by (intro wp_mono [OF p]) auto
  have s: "wp (dcc_decode_state bs) (\<lambda>(m, _). 0 \<le> m \<or> m = -2)" for bs
    unfolding dcc_decode_state_def wp_bind by (rule wp_mono [OF context_bounded(2)]) auto
  have s': "wp (dcc_decode_state bs) (\<lambda>x. wp (case x of (m, e') \<Rightarrow>
      if m < 0 then Some (m, t, e, p0)
      else do { (k, q) \<leftarrow> dcc_decode_password p0 (drop (nat (n + m)) apdu);
                Some (if k < 0 then k else n + m + k, t, e', q) }) (\<lambda>(n, _). ?ok n))"
    if "0 \<le> n" for bs n t
    by (intro wp_mono [OF s]) (use that p' in auto)
  show ?thesis
    unfolding dcc_decode_service_request_def wp_if wp_bind
    by (simp, rule impI, rule wp_mono [OF d]) (use s' in auto)
qed

section \<open>Round trips\<close>

lemma enumerated_application_roundtrip:
  "bacnet_enumerated_application_decode (encode_application_enumerated v @ rest) =
     Some (int (length (encode_application_enumerated v)), Some v)"
proof -
  have "ucast (ucast v :: u64) = v" by (rule bit_word_eqI) (simp add: bit_simps)
  moreover have "unat (ucast v :: u64) = unat v" 
    using unat_bounds(3) [of v] by (simp add: unsigned_ucast_eq take_bit_nat_eq_self)
  then have "\<not> (0xFFFFFFFF :: u64) < ucast v"
    using unat_bounds(3) [of v] by (simp add: word_less_nat_alt)
  ultimately show ?thesis
    using unsigned_content [of "ucast v" rest]
    by (simp add: bacnet_enumerated_application_decode_def encode_application_enumerated_def
        encode_bacnet_enumerated_def tag_decode_encode application_tag_def Let_def)
qed

lemma error_decode_encode:
  "bacerror_decode_error_class_and_code
     (encode_application_enumerated cls @ encode_application_enumerated code @ rest) c0 d0 =
   Some (int (length (encode_application_enumerated cls @ encode_application_enumerated code)), cls, code)"
proof -
  have "0 < length (encode_application_enumerated v)" for v
    by (simp add: encode_application_enumerated_def encode_tag_def)
  then show ?thesis
    by (simp add: bacerror_decode_error_class_and_code_def enumerated_application_roundtrip Let_def)
qed

text \<open>
  A password that the encoder sends and the decoder accepts: 1 to 20 characters, none of them zero
  or the continuation of a UTF-8 sequence.
\<close>

definition password_ok :: "BACNET_CHARACTER_STRING \<Rightarrow> bool" where
  "password_ok p \<longleftrightarrow> wf_charstring p \<and> 1 \<le> char_length p \<and> char_length p \<le> 20 \<and>
     (\<forall>c \<in> set (take (char_length p) (char_value p)). c \<noteq> 0 \<and> c AND 0xC0 \<noteq> 0x80)"

definition no_password :: BACNET_CHARACTER_STRING where
  "no_password = \<lparr>char_length = 0, encoding = 0, char_value = replicate MAX_CHARACTER_STRING_BYTES 0\<rparr>"

lemma tagged_other:
  "n \<noteq> m \<Longrightarrow> tagged_decode (context_tag n) ok dec (encode_tag m True l @ rest) = Some (0, None)"
  by (simp add: tagged_decode_def tag_decode_encode context_tag_def)

lemma password_length:
  assumes "password_ok p"
  shows "characterstring_utf8_length (received_chars p) = char_length p"
    "characterstring_length (Some (received_chars p)) = char_length p"
proof -
  let ?cs = "take (char_length p) (char_value p)"
  have "takeWhile (\<lambda>b. b \<noteq> 0) (?cs @ replicate k 0) = ?cs" for k
    using assms by (auto simp: password_ok_def takeWhile_append2 takeWhile_replicate)
  moreover have "filter (\<lambda>b. b AND 0xC0 \<noteq> 0x80) ?cs = ?cs"
    using assms by (simp add: password_ok_def filter_id_conv)
  ultimately show "characterstring_utf8_length (received_chars p) = char_length p"
    using assms by (simp add: characterstring_utf8_length_def received_chars_def password_ok_def
        wf_charstring_def max_string)
  show "characterstring_length (Some (received_chars p)) = char_length p"
    using assms by (simp add: characterstring_length_def received_chars_def password_ok_def max_string)
qed

lemma password_roundtrip:
  assumes "password_ok p"
  shows "dcc_decode_password p0 (encode_context_character_string 2 p) =
    Some (int (length (encode_context_character_string 2 p)), received_chars p)"
proof -
  have wf: "wf_charstring p" using assms by (simp add: password_ok_def)
  then have "bacnet_character_string_context_decode p0 2 (encode_context_character_string 2 p) =
      Some (int (length (encode_context_character_string 2 p)), Some (received_chars p))"
    using prim_chars.tagged_roundtrip [where matches = "context_tag 2" and number = 2 and ctx = True
        and v = p and rest = "[]" and ?s0.0 = p0]
    by (simp add: bacnet_character_string_context_decode_def encode_context_character_string_def context_tag_def
        string_lengths)
  moreover have "0 < length (encode_context_character_string 2 p)"
    by (simp add: encode_context_character_string_def)
  ultimately show ?thesis
    using assms password_length [OF assms] by (simp add: dcc_decode_password_def Let_def password_ok_def)
qed

lemma duration_roundtrip:
  assumes "bs = encode_context_enumerated 1 e @ rest"
  shows "dcc_decode_duration ((if t \<noteq> 0 then encode_context_unsigned 0 (ucast t) else []) @ bs) =
    Some (int (length (if t \<noteq> 0 then encode_context_unsigned 0 (ucast t) else [])), t)"
proof -
  have u: "bacnet_unsigned_context_decode 0 (encode_context_unsigned 0 v @ bs) =
      Some (int (length (encode_context_unsigned 0 v)), Some v)" for v
    using prim_unsigned.tagged_roundtrip [where matches = "context_tag 0" and number = 0 and ctx = True
        and v = v and rest = bs]
    by (simp add: bacnet_unsigned_context_decode_def encode_context_unsigned_def context_tag_def)
  have "unat (ucast t :: u64) = unat t"
    using unat_bounds(2) [of t] by (simp add: unsigned_ucast_eq take_bit_nat_eq_self)
  then have t: "ucast t \<le> (0xFFFF :: u64)" "ucast (ucast t :: u64) = t"
    using unat_bounds(2) [of t] by (auto intro!: bit_word_eqI simp: word_le_nat_alt bit_simps)
  have "bacnet_unsigned_context_decode 0 bs = Some (0, None)"
    using assms by (simp add: bacnet_unsigned_context_decode_def encode_context_enumerated_def tagged_other)
  then show ?thesis
    using t by (auto simp: dcc_decode_duration_def u Let_def) (simp add: encode_context_unsigned_def)
qed

lemma state_roundtrip:
  "dcc_decode_state (encode_context_enumerated 1 e @ rest) = Some (int (length (encode_context_enumerated 1 e)), e)"
proof -
  have "bacnet_enumerated_context_decode 1 (encode_context_enumerated 1 e @ rest) =
      Some (int (length (encode_context_enumerated 1 e)), Some e)"
    using prim_enumerated.tagged_roundtrip [where matches = "context_tag 1" and number = 1 and ctx = True
        and v = e and rest = rest]
    by (simp add: bacnet_enumerated_context_decode_def encode_context_enumerated_def context_tag_def content_lengths)
  then show ?thesis by (simp add: dcc_decode_state_def) (simp add: encode_context_enumerated_def)
qed

lemma dcc_roundtrip:
  assumes "\<forall>q. p = Some q \<longrightarrow> password_ok q"
  shows "dcc_decode_service_request p0 (dcc_apdu_encode t e p) d0 e0 =
    Some (int (length (dcc_apdu_encode t e p)), t, e, case p of None \<Rightarrow> no_password | Some q \<Rightarrow> received_chars q)"
proof -
  define d where "d = (if t \<noteq> 0 then encode_context_unsigned 0 (ucast t) else [])"
  let ?p = "case p of None \<Rightarrow> [] | Some q \<Rightarrow> encode_context_character_string 2 q"
  have e: "dcc_apdu_encode t e p = d @ encode_context_enumerated 1 e @ ?p"
    using assms by (simp add: dcc_apdu_encode_def password_ok_def d_def split: option.split)
  have p: "dcc_decode_password p0 ?p =
      Some (int (length ?p), case p of None \<Rightarrow> no_password | Some q \<Rightarrow> received_chars q)"
  proof (cases p)
    case None
    then show ?thesis
      by (simp add: dcc_decode_password_def bacnet_character_string_context_decode_def tagged_decode_def
          init_ansi_empty no_password_def)
  qed (use assms password_roundtrip in simp)
  have "encode_context_enumerated 1 e \<noteq> []" by (simp add: encode_context_enumerated_def)
  moreover have "dcc_decode_duration (d @ encode_context_enumerated 1 e @ ?p) = Some (int (length d), t)"
    unfolding d_def by (rule duration_roundtrip [OF refl])
  ultimately show ?thesis
    by (simp add: dcc_decode_service_request_def e state_roundtrip p flip: of_nat_add)
qed

end
