(* ===== verification/Bac_Apdu.thy ===== *)
theory Bac_Apdu
  imports Bac_Tsm_Deliver Bac_Dcc
begin

text \<open>
  \<^verbatim>\<open>src/bacnet/basic/service/h_apdu.c\<close>: the dispatch of received APDUs to the transaction machine
  and to the handlers of the application, gated by the state of DeviceCommunicationControl. The
  build has client services and segmentation (\<^verbatim>\<open>BACNET_SVC_SERVER\<close> 0,
  \<^verbatim>\<open>BACNET_SEGMENTATION_ENABLED\<close> 1) and no \<^verbatim>\<open>BAC_ROUTING\<close>.

  A function pointer is a number, \<open>None\<close> for NULL, and the environment says what the function
  behind it does to the state of the stack. The tables of pointers that the source keeps in a union
  are one list each, because the same test of the service choice guards writing and reading. The
  state holds the static variables of \<^verbatim>\<open>h_apdu.c\<close>, \<^verbatim>\<open>tsm.c\<close>, \<^verbatim>\<open>dcc.c\<close> and \<^verbatim>\<open>h_dcc.c\<close>.
\<close>

section \<open>Services and their handlers\<close>

definition MAX_BACNET_CONFIRMED_SERVICE :: nat where "MAX_BACNET_CONFIRMED_SERVICE = 34"
definition MAX_BACNET_UNCONFIRMED_SERVICE :: nat where "MAX_BACNET_UNCONFIRMED_SERVICE = 15"

abbreviation (input) SERVICE_CONFIRMED_ACKNOWLEDGE_ALARM :: u8 where "SERVICE_CONFIRMED_ACKNOWLEDGE_ALARM \<equiv> 0"
abbreviation (input) SERVICE_CONFIRMED_COV_NOTIFICATION :: u8 where "SERVICE_CONFIRMED_COV_NOTIFICATION \<equiv> 1"
abbreviation (input) SERVICE_CONFIRMED_EVENT_NOTIFICATION :: u8 where "SERVICE_CONFIRMED_EVENT_NOTIFICATION \<equiv> 2"
abbreviation (input) SERVICE_CONFIRMED_SUBSCRIBE_COV :: u8 where "SERVICE_CONFIRMED_SUBSCRIBE_COV \<equiv> 5"
abbreviation (input) SERVICE_CONFIRMED_ATOMIC_WRITE_FILE :: u8 where "SERVICE_CONFIRMED_ATOMIC_WRITE_FILE \<equiv> 7"
abbreviation (input) SERVICE_CONFIRMED_ADD_LIST_ELEMENT :: u8 where "SERVICE_CONFIRMED_ADD_LIST_ELEMENT \<equiv> 8"
abbreviation (input) SERVICE_CONFIRMED_REMOVE_LIST_ELEMENT :: u8 where "SERVICE_CONFIRMED_REMOVE_LIST_ELEMENT \<equiv> 9"
abbreviation (input) SERVICE_CONFIRMED_CREATE_OBJECT :: u8 where "SERVICE_CONFIRMED_CREATE_OBJECT \<equiv> 10"
abbreviation (input) SERVICE_CONFIRMED_DELETE_OBJECT :: u8 where "SERVICE_CONFIRMED_DELETE_OBJECT \<equiv> 11"
abbreviation (input) SERVICE_CONFIRMED_READ_PROPERTY :: u8 where "SERVICE_CONFIRMED_READ_PROPERTY \<equiv> 12"
abbreviation (input) SERVICE_CONFIRMED_WRITE_PROPERTY :: u8 where "SERVICE_CONFIRMED_WRITE_PROPERTY \<equiv> 15"
abbreviation (input) SERVICE_CONFIRMED_WRITE_PROP_MULTIPLE :: u8 where "SERVICE_CONFIRMED_WRITE_PROP_MULTIPLE \<equiv> 16"
abbreviation (input) SERVICE_CONFIRMED_DEVICE_COMMUNICATION_CONTROL :: u8 where
  "SERVICE_CONFIRMED_DEVICE_COMMUNICATION_CONTROL \<equiv> 17"
abbreviation (input) SERVICE_CONFIRMED_PRIVATE_TRANSFER :: u8 where "SERVICE_CONFIRMED_PRIVATE_TRANSFER \<equiv> 18"
abbreviation (input) SERVICE_CONFIRMED_TEXT_MESSAGE :: u8 where "SERVICE_CONFIRMED_TEXT_MESSAGE \<equiv> 19"
abbreviation (input) SERVICE_CONFIRMED_REINITIALIZE_DEVICE :: u8 where "SERVICE_CONFIRMED_REINITIALIZE_DEVICE \<equiv> 20"
abbreviation (input) SERVICE_CONFIRMED_VT_CLOSE :: u8 where "SERVICE_CONFIRMED_VT_CLOSE \<equiv> 22"
abbreviation (input) SERVICE_CONFIRMED_REQUEST_KEY :: u8 where "SERVICE_CONFIRMED_REQUEST_KEY \<equiv> 25"
abbreviation (input) SERVICE_CONFIRMED_LIFE_SAFETY_OPERATION :: u8 where "SERVICE_CONFIRMED_LIFE_SAFETY_OPERATION \<equiv> 27"
abbreviation (input) SERVICE_CONFIRMED_SUBSCRIBE_COV_PROPERTY :: u8 where "SERVICE_CONFIRMED_SUBSCRIBE_COV_PROPERTY \<equiv> 28"
abbreviation (input) SERVICE_CONFIRMED_SUBSCRIBE_COV_PROPERTY_MULTIPLE :: u8 where
  "SERVICE_CONFIRMED_SUBSCRIBE_COV_PROPERTY_MULTIPLE \<equiv> 30"
abbreviation (input) SERVICE_CONFIRMED_COV_NOTIFICATION_MULTIPLE :: u8 where
  "SERVICE_CONFIRMED_COV_NOTIFICATION_MULTIPLE \<equiv> 31"
abbreviation (input) SERVICE_CONFIRMED_AUDIT_NOTIFICATION :: u8 where "SERVICE_CONFIRMED_AUDIT_NOTIFICATION \<equiv> 32"
abbreviation (input) SERVICE_UNCONFIRMED_WHO_HAS :: u8 where "SERVICE_UNCONFIRMED_WHO_HAS \<equiv> 7"
abbreviation (input) SERVICE_UNCONFIRMED_WHO_IS :: u8 where "SERVICE_UNCONFIRMED_WHO_IS \<equiv> 8"
abbreviation (input) SERVICE_UNCONFIRMED_AUDIT_NOTIFICATION :: u8 where "SERVICE_UNCONFIRMED_AUDIT_NOTIFICATION \<equiv> 12"

record APDU =
  tsm :: TSM
  dcc :: DCC
  Confirmed_Function :: "nat option list"
  Unrecognized_Service_Handler :: "nat option"
  Unconfirmed_Function :: "nat option list"
  Confirmed_ACK_Function :: "nat option list"
  Error_Function :: "nat option list"
  Abort_Function :: "nat option"
  Reject_Function :: "nat option"
  My_Password :: bytes

type_synonym apdu_result = "(BACNET_ADDRESS \<times> APDU) option"

record APDU_ENV =
  tsm_env :: TSM_ENV
  call_confirmed :: "nat \<Rightarrow> bytes option \<Rightarrow> BACNET_ADDRESS \<Rightarrow> BACNET_CONFIRMED_SERVICE_DATA \<Rightarrow> APDU \<Rightarrow> apdu_result"
  call_unconfirmed :: "nat \<Rightarrow> bytes \<Rightarrow> BACNET_ADDRESS \<Rightarrow> APDU \<Rightarrow> apdu_result"
  call_simple_ack :: "nat \<Rightarrow> BACNET_ADDRESS \<Rightarrow> u8 \<Rightarrow> APDU \<Rightarrow> apdu_result"
  call_complex_ack :: "nat \<Rightarrow> bytes \<Rightarrow> BACNET_ADDRESS \<Rightarrow> BACNET_CONFIRMED_SERVICE_ACK_DATA \<Rightarrow> APDU \<Rightarrow> apdu_result"
  call_error :: "nat \<Rightarrow> BACNET_ADDRESS \<Rightarrow> u8 \<Rightarrow> u32 \<Rightarrow> u32 \<Rightarrow> APDU \<Rightarrow> apdu_result"
  call_complex_error :: "nat \<Rightarrow> BACNET_ADDRESS \<Rightarrow> u8 \<Rightarrow> u8 \<Rightarrow> bytes \<Rightarrow> APDU \<Rightarrow> apdu_result"
  call_abort :: "nat \<Rightarrow> BACNET_ADDRESS \<Rightarrow> u8 \<Rightarrow> u8 \<Rightarrow> bool \<Rightarrow> APDU \<Rightarrow> apdu_result"
  call_reject :: "nat \<Rightarrow> BACNET_ADDRESS \<Rightarrow> u8 \<Rightarrow> u8 \<Rightarrow> APDU \<Rightarrow> apdu_result"

definition apdu_set_confirmed_handler :: "u8 \<Rightarrow> nat option \<Rightarrow> APDU \<Rightarrow> APDU" where
  "apdu_set_confirmed_handler choice f s =
     (if unat choice < MAX_BACNET_CONFIRMED_SERVICE
      then s\<lparr>Confirmed_Function := (Confirmed_Function s)[unat choice := f]\<rparr> else s)"

definition apdu_set_unrecognized_service_handler_handler :: "nat option \<Rightarrow> APDU \<Rightarrow> APDU" where
  "apdu_set_unrecognized_service_handler_handler f s = s\<lparr>Unrecognized_Service_Handler := f\<rparr>"

definition apdu_set_unconfirmed_handler :: "u8 \<Rightarrow> nat option \<Rightarrow> APDU \<Rightarrow> APDU" where
  "apdu_set_unconfirmed_handler choice f s =
     (if unat choice < MAX_BACNET_UNCONFIRMED_SERVICE
      then s\<lparr>Unconfirmed_Function := (Unconfirmed_Function s)[unat choice := f]\<rparr> else s)"

text \<open>The services of the two tables, by their bit in the property Protocol_Services_Supported.\<close>

definition confirmed_service_supported :: "nat list" where
  "confirmed_service_supported = [0, 1, 2, 3, 4, 5, 6, 7, 8, 9, 10, 11, 12, 13, 14, 15, 16, 17, 18, 19, 20,
     21, 22, 23, 24, 25, 35, 37, 38, 39, 41, 42, 44, 45]"

definition unconfirmed_service_supported :: "nat list" where
  "unconfirmed_service_supported = [26, 27, 28, 29, 30, 31, 32, 33, 34, 36, 40, 43, 46, 47, 48]"

definition MAX_BACNET_SERVICES_SUPPORTED :: nat where "MAX_BACNET_SERVICES_SUPPORTED = 49"

definition apdu_service_supported :: "nat \<Rightarrow> APDU \<Rightarrow> bool" where
  "apdu_service_supported service s =
     (if service < MAX_BACNET_SERVICES_SUPPORTED then
        let i = find_index (\<lambda>v. v = service) confirmed_service_supported;
            j = find_index (\<lambda>v. v = service) unconfirmed_service_supported
        in if i < MAX_BACNET_CONFIRMED_SERVICE then Confirmed_Function s ! i \<noteq> None
           else if j < MAX_BACNET_UNCONFIRMED_SERVICE then Unconfirmed_Function s ! j \<noteq> None
           else False
      else False)"

definition apdu_service_supported_to_index :: "nat \<Rightarrow> (nat \<times> bool) option" where
  "apdu_service_supported_to_index service =
     (if service < MAX_BACNET_SERVICES_SUPPORTED then
        let i = find_index (\<lambda>v. v = service) confirmed_service_supported;
            j = find_index (\<lambda>v. v = service) unconfirmed_service_supported
        in if i < MAX_BACNET_CONFIRMED_SERVICE then Some (i, True)
           else if j < MAX_BACNET_UNCONFIRMED_SERVICE then Some (j, False)
           else None
      else None)"

definition apdu_confirmed_simple_ack_service :: "u8 \<Rightarrow> bool" where
  "apdu_confirmed_simple_ack_service choice =
     (choice \<in> set [SERVICE_CONFIRMED_ACKNOWLEDGE_ALARM, SERVICE_CONFIRMED_AUDIT_NOTIFICATION,
        SERVICE_CONFIRMED_COV_NOTIFICATION, SERVICE_CONFIRMED_COV_NOTIFICATION_MULTIPLE,
        SERVICE_CONFIRMED_EVENT_NOTIFICATION, SERVICE_CONFIRMED_SUBSCRIBE_COV,
        SERVICE_CONFIRMED_SUBSCRIBE_COV_PROPERTY, SERVICE_CONFIRMED_SUBSCRIBE_COV_PROPERTY_MULTIPLE,
        SERVICE_CONFIRMED_LIFE_SAFETY_OPERATION, SERVICE_CONFIRMED_ADD_LIST_ELEMENT,
        SERVICE_CONFIRMED_REMOVE_LIST_ELEMENT, SERVICE_CONFIRMED_DELETE_OBJECT,
        SERVICE_CONFIRMED_WRITE_PROPERTY, SERVICE_CONFIRMED_WRITE_PROP_MULTIPLE,
        SERVICE_CONFIRMED_DEVICE_COMMUNICATION_CONTROL, SERVICE_CONFIRMED_TEXT_MESSAGE,
        SERVICE_CONFIRMED_REINITIALIZE_DEVICE, SERVICE_CONFIRMED_VT_CLOSE, SERVICE_CONFIRMED_REQUEST_KEY])"

definition apdu_set_confirmed_simple_ack_handler :: "u8 \<Rightarrow> nat option \<Rightarrow> APDU \<Rightarrow> APDU" where
  "apdu_set_confirmed_simple_ack_handler choice f s =
     (if apdu_confirmed_simple_ack_service choice
      then s\<lparr>Confirmed_ACK_Function := (Confirmed_ACK_Function s)[unat choice := f]\<rparr> else s)"

definition apdu_set_confirmed_ack_handler :: "u8 \<Rightarrow> nat option \<Rightarrow> APDU \<Rightarrow> APDU" where
  "apdu_set_confirmed_ack_handler choice f s =
     (if \<not> apdu_confirmed_simple_ack_service choice \<and> unat choice < MAX_BACNET_CONFIRMED_SERVICE
      then s\<lparr>Confirmed_ACK_Function := (Confirmed_ACK_Function s)[unat choice := f]\<rparr> else s)"

definition apdu_complex_error :: "u8 \<Rightarrow> bool" where
  "apdu_complex_error choice =
     (choice \<in> set [SERVICE_CONFIRMED_SUBSCRIBE_COV_PROPERTY_MULTIPLE, SERVICE_CONFIRMED_ADD_LIST_ELEMENT,
        SERVICE_CONFIRMED_REMOVE_LIST_ELEMENT, SERVICE_CONFIRMED_CREATE_OBJECT,
        SERVICE_CONFIRMED_WRITE_PROP_MULTIPLE, SERVICE_CONFIRMED_PRIVATE_TRANSFER, SERVICE_CONFIRMED_VT_CLOSE])"

definition apdu_set_error_handler :: "u8 \<Rightarrow> nat option \<Rightarrow> APDU \<Rightarrow> APDU" where
  "apdu_set_error_handler choice f s =
     (if unat choice < MAX_BACNET_CONFIRMED_SERVICE \<and> \<not> apdu_complex_error choice
      then s\<lparr>Error_Function := (Error_Function s)[unat choice := f]\<rparr> else s)"

definition apdu_set_complex_error_handler :: "u8 \<Rightarrow> nat option \<Rightarrow> APDU \<Rightarrow> APDU" where
  "apdu_set_complex_error_handler choice f s =
     (if apdu_complex_error choice
      then s\<lparr>Error_Function := (Error_Function s)[unat choice := f]\<rparr> else s)"

definition apdu_set_abort_handler :: "nat option \<Rightarrow> APDU \<Rightarrow> APDU" where
  "apdu_set_abort_handler f s = s\<lparr>Abort_Function := f\<rparr>"

definition apdu_set_reject_handler :: "nat option \<Rightarrow> APDU \<Rightarrow> APDU" where
  "apdu_set_reject_handler f s = s\<lparr>Reject_Function := f\<rparr>"

section \<open>The gate\<close>

text \<open>
  The second switch of \<^verbatim>\<open>apdu_confirmed_dcc_disabled\<close> has three unconfirmed services among its labels;
  they are compared with a confirmed service choice.
\<close>

definition apdu_confirmed_dcc_disabled :: "u8 \<Rightarrow> DCC \<Rightarrow> bool" where
  "apdu_confirmed_dcc_disabled choice d =
     (if dcc_communication_disabled d then
        choice \<notin> set [SERVICE_CONFIRMED_DEVICE_COMMUNICATION_CONTROL, SERVICE_CONFIRMED_REINITIALIZE_DEVICE]
      else if dcc_communication_initiation_disabled d then
        choice \<notin> set [SERVICE_CONFIRMED_DEVICE_COMMUNICATION_CONTROL, SERVICE_CONFIRMED_REINITIALIZE_DEVICE,
          SERVICE_UNCONFIRMED_WHO_IS, SERVICE_UNCONFIRMED_WHO_HAS, SERVICE_CONFIRMED_AUDIT_NOTIFICATION,
          SERVICE_UNCONFIRMED_AUDIT_NOTIFICATION]
      else False)"

definition apdu_unconfirmed_dcc_disabled :: "u8 \<Rightarrow> DCC \<Rightarrow> bool" where
  "apdu_unconfirmed_dcc_disabled choice d =
     (if dcc_communication_disabled d then True
      else if dcc_communication_initiation_disabled d then
        choice \<notin> set [SERVICE_UNCONFIRMED_WHO_IS, SERVICE_UNCONFIRMED_WHO_HAS]
      else False)"

section \<open>Dispatch\<close>

text \<open>Calling the function behind a pointer, if there is one.\<close>

definition invoke :: "nat option \<Rightarrow> (nat \<Rightarrow> apdu_result) \<Rightarrow> BACNET_ADDRESS \<Rightarrow> APDU \<Rightarrow> apdu_result" where
  "invoke f call src s = (case f of None \<Rightarrow> Some (src, s) | Some f \<Rightarrow> call f)"

definition invoke_confirmed_service_service_request ::
  "APDU_ENV \<Rightarrow> BACNET_ADDRESS \<Rightarrow> BACNET_CONFIRMED_SERVICE_DATA \<Rightarrow> u8 \<Rightarrow> bytes option \<Rightarrow> APDU \<Rightarrow> apdu_result"
where
  "invoke_confirmed_service_service_request env src sd choice req s =
     (if apdu_confirmed_dcc_disabled choice (dcc s) then Some (src, s)
      else if unat choice < MAX_BACNET_CONFIRMED_SERVICE \<and> Confirmed_Function s ! unat choice \<noteq> None then
        invoke (Confirmed_Function s ! unat choice) (\<lambda>f. call_confirmed env f req src sd s) src s
      else invoke (Unrecognized_Service_Handler s) (\<lambda>f. call_confirmed env f req src sd s) src s)"

definition lift_tsm :: "(TSM \<Rightarrow> (BACNET_ADDRESS \<times> TSM) option) \<Rightarrow> APDU \<Rightarrow> apdu_result" where
  "lift_tsm f s = do { (src, t) \<leftarrow> f (tsm s); Some (src, s\<lparr>tsm := t\<rparr>) }"

definition apdu_handler_confirmed_service_segment ::
  "APDU_ENV \<Rightarrow> BACNET_ADDRESS \<Rightarrow> bytes \<Rightarrow> APDU \<Rightarrow> apdu_result" where
  "apdu_handler_confirmed_service_segment env src apdu s = do {
     (len, sd, choice, req) \<leftarrow> apdu_decode_confirmed_service_request
        (apdu_network_priority (tsm s)) apdu (length apdu) zero_service_data 0 None;
     if len = 0 then Some (src, s)
     else do {
       (segment_ok, internal, req, src, t) \<leftarrow>
         tsm_set_segmented_confirmed_service_received (tsm_env env) src sd req (tsm s);
       let s = s\<lparr>tsm := t\<rparr>;
       if segment_ok \<and> \<not> more_follows sd then do {
         let s = s\<lparr>tsm := tsm_clear_peer_id internal (tsm s)\<rparr>;
         (src, s) \<leftarrow> invoke_confirmed_service_service_request env src sd choice req s;
         Some (src, s\<lparr>tsm := tsm_free_invoke_id_check internal None True (tsm s)\<rparr>) }
       else Some (src, s) } }"

definition apdu_handler_confirmed_service ::
  "APDU_ENV \<Rightarrow> BACNET_ADDRESS \<Rightarrow> bytes \<Rightarrow> APDU \<Rightarrow> apdu_result" where
  "apdu_handler_confirmed_service env src apdu s = do {
     (len, sd, choice, req) \<leftarrow> apdu_decode_confirmed_service_request
        (apdu_network_priority (tsm s)) apdu (length apdu) zero_service_data 0 None;
     (unexpected, src, t) \<leftarrow> check_unexpected_pdu_received (tsm_env env) src sd (tsm s);
     let s = s\<lparr>tsm := t\<rparr>;
     if unexpected then Some (src, s)
     else invoke_confirmed_service_service_request env src sd choice req s }"

text \<open>The cases of the switch in \<^verbatim>\<open>apdu_handler\<close>, in the order of the source.\<close>

definition handle_unconfirmed :: "APDU_ENV \<Rightarrow> BACNET_ADDRESS \<Rightarrow> bytes \<Rightarrow> APDU \<Rightarrow> apdu_result" where
  "handle_unconfirmed env src apdu s =
     (if length apdu < 2 then Some (src, s)
      else do {
        choice \<leftarrow> rd apdu 1;
        if apdu_unconfirmed_dcc_disabled choice (dcc s) then Some (src, s)
        else if unat choice < MAX_BACNET_UNCONFIRMED_SERVICE then
          invoke (Unconfirmed_Function s ! unat choice) (\<lambda>f. call_unconfirmed env f (drop 2 apdu) src s) src s
        else Some (src, s) })"

definition handle_simple_ack :: "APDU_ENV \<Rightarrow> BACNET_ADDRESS \<Rightarrow> bytes \<Rightarrow> APDU \<Rightarrow> apdu_result" where
  "handle_simple_ack env src apdu s =
     (if length apdu < 3 then Some (src, s)
      else do {
        iid \<leftarrow> rd apdu 1;
        choice \<leftarrow> rd apdu 2;
        if apdu_confirmed_simple_ack_service choice then do {
          (src, s) \<leftarrow> invoke (Confirmed_ACK_Function s ! unat choice) (\<lambda>f. call_simple_ack env f src iid s) src s;
          Some (src, s\<lparr>tsm := tsm_free_invoke_id iid (tsm s)\<rparr>) }
        else Some (src, s) })"

definition handle_complex_ack :: "APDU_ENV \<Rightarrow> BACNET_ADDRESS \<Rightarrow> bytes \<Rightarrow> APDU \<Rightarrow> apdu_result" where
  "handle_complex_ack env src apdu s =
     (if length apdu < 3 then Some (src, s)
      else do {
        b0 \<leftarrow> rd apdu 0;
        iid \<leftarrow> rd apdu 1;
        let ack = zero_ack_data\<lparr>ack_segmented_message := bit b0 3, ack_more_follows := bit b0 2,
                    ack_invoke_id := iid\<rparr>;
        if bit b0 3 \<and> length apdu < 5 then Some (src, s)
        else do {
          (len, ack) \<leftarrow>
            (if bit b0 3 then do {
               n \<leftarrow> rd apdu 2;
               w \<leftarrow> rd apdu 3;
               Some (4, ack\<lparr>ack_sequence_number := n, ack_proposed_window_number := w\<rparr>) }
             else Some (2, ack));
          choice \<leftarrow> rd apdu len;
          if \<not> apdu_confirmed_simple_ack_service choice then do {
            (src, s) \<leftarrow>
              (if unat choice < MAX_BACNET_CONFIRMED_SERVICE then
                 invoke (Confirmed_ACK_Function s ! unat choice)
                   (\<lambda>f. call_complex_ack env f (drop (len + 1) apdu) src ack s) src s
               else Some (src, s));
            Some (src, s\<lparr>tsm := tsm_free_invoke_id iid (tsm s)\<rparr>) }
          else Some (src, s) } })"

definition handle_segment_ack :: "APDU_ENV \<Rightarrow> BACNET_ADDRESS \<Rightarrow> bytes \<Rightarrow> APDU \<Rightarrow> apdu_result" where
  "handle_segment_ack env src apdu s =
     (if length apdu < 4 then Some (src, s)
      else do {
        b0 \<leftarrow> rd apdu 0;
        iid \<leftarrow> rd apdu 1;
        n \<leftarrow> rd apdu 2;
        w \<leftarrow> rd apdu 3;
        lift_tsm (tsm_segmentack_received (tsm_env env) iid n w (bit b0 1) (bit b0 0) src) s })"

definition free_segmentation :: "BACNET_ADDRESS \<Rightarrow> u8 \<Rightarrow> APDU \<Rightarrow> apdu_result" where
  "free_segmentation src iid s =
     lift_tsm (\<lambda>t. do { t \<leftarrow> tsm_free_invoke_id_segmentation src iid t; Some (src, t) }) s"

abbreviation (input) ERROR_CODE_SUCCESS :: u32 where "ERROR_CODE_SUCCESS \<equiv> 84"
abbreviation (input) ERROR_CLASS_SERVICES :: u32 where "ERROR_CLASS_SERVICES \<equiv> 5"

definition handle_error :: "APDU_ENV \<Rightarrow> BACNET_ADDRESS \<Rightarrow> bytes \<Rightarrow> APDU \<Rightarrow> apdu_result" where
  "handle_error env src apdu s =
     (if length apdu < 3 then Some (src, s)
      else do {
        iid \<leftarrow> rd apdu 1;
        choice \<leftarrow> rd apdu 2;
        (src, s) \<leftarrow>
          (if apdu_complex_error choice then
             invoke (Error_Function s ! unat choice)
               (\<lambda>f. call_complex_error env f src iid choice (drop 3 apdu) s) src s
           else if unat choice < MAX_BACNET_CONFIRMED_SERVICE then do {
             (len, cls, code) \<leftarrow>
               bacerror_decode_error_class_and_code (drop 3 apdu) ERROR_CLASS_SERVICES ERROR_CODE_SUCCESS;
             if len \<noteq> 0 then
               invoke (Error_Function s ! unat choice) (\<lambda>f. call_error env f src iid cls code s) src s
             else Some (src, s) }
           else Some (src, s));
        free_segmentation src iid s })"

definition handle_reject :: "APDU_ENV \<Rightarrow> BACNET_ADDRESS \<Rightarrow> bytes \<Rightarrow> APDU \<Rightarrow> apdu_result" where
  "handle_reject env src apdu s =
     (if length apdu < 3 then Some (src, s)
      else do {
        iid \<leftarrow> rd apdu 1;
        reason \<leftarrow> rd apdu 2;
        (src, s) \<leftarrow> invoke (Reject_Function s) (\<lambda>f. call_reject env f src iid reason s) src s;
        free_segmentation src iid s })"

definition handle_abort :: "APDU_ENV \<Rightarrow> BACNET_ADDRESS \<Rightarrow> bytes \<Rightarrow> APDU \<Rightarrow> apdu_result" where
  "handle_abort env src apdu s =
     (if length apdu < 3 then Some (src, s)
      else do {
        b0 \<leftarrow> rd apdu 0;
        iid \<leftarrow> rd apdu 1;
        reason \<leftarrow> rd apdu 2;
        let server = bit b0 0;
        (src, s) \<leftarrow>
          (if \<not> server then
             invoke (Abort_Function s) (\<lambda>f. call_abort env f src iid reason server s) src s
           else lift_tsm (abort_pdu_send (tsm_env env) iid src (uint reason) server) s);
        free_segmentation src iid s })"

definition apdu_handler :: "APDU_ENV \<Rightarrow> BACNET_ADDRESS \<Rightarrow> bytes option \<Rightarrow> APDU \<Rightarrow> apdu_result" where
  "apdu_handler env src apdu s =
     (case apdu of
        None \<Rightarrow> Some (src, s)
      | Some apdu \<Rightarrow>
          if length apdu = 0 then Some (src, s)
          else do {
            b0 \<leftarrow> rd apdu 0;
            let ty = b0 AND 0xF0;
            if ty = PDU_TYPE_CONFIRMED_SERVICE_REQUEST then
              if bit b0 3 then apdu_handler_confirmed_service_segment env src apdu s
              else apdu_handler_confirmed_service env src apdu s
            else if ty = PDU_TYPE_UNCONFIRMED_SERVICE_REQUEST then handle_unconfirmed env src apdu s
            else if ty = PDU_TYPE_SIMPLE_ACK then handle_simple_ack env src apdu s
            else if ty = PDU_TYPE_COMPLEX_ACK then handle_complex_ack env src apdu s
            else if ty = PDU_TYPE_SEGMENT_ACK then handle_segment_ack env src apdu s
            else if ty = PDU_TYPE_ERROR then handle_error env src apdu s
            else if ty = PDU_TYPE_REJECT then handle_reject env src apdu s
            else if ty = PDU_TYPE_ABORT then handle_abort env src apdu s
            else Some (src, s) })"

end
