(* ===== verification/Bac_Handlers.thy ===== *)
theory Bac_Handlers
  imports Bac_Apdu
begin

text \<open>
  Two service handlers of the server: \<^verbatim>\<open>src/bacnet/basic/service/h_noserv.c\<close>, which rejects services
  without a handler, and \<^verbatim>\<open>src/bacnet/basic/service/h_dcc.c\<close>, DeviceCommunicationControl, for
  \<^verbatim>\<open>BACNET_PROTOCOL_REVISION\<close> 24, the default.
\<close>

section \<open>Replies\<close>

text \<open>
  A handler builds its reply in \<^verbatim>\<open>Handler_Transmit_Buffer\<close>, of \<^verbatim>\<open>MAX_PDU\<close> octets, and ignores the
  result of the data link. A network message is built the same way in a smaller buffer.
\<close>

definition transmit ::
  "TSM_ENV \<Rightarrow> nat \<Rightarrow> BACNET_ADDRESS \<Rightarrow> BACNET_NPDU_DATA \<Rightarrow> bytes \<Rightarrow> TSM \<Rightarrow> (BACNET_ADDRESS \<times> TSM) option" where
  "transmit env limit d n bs s =
     (let (npdu, d', _) = npdu_encode_pdu (Some d) (Some (my_address env)) n
      in do {
        ensure (length npdu + length bs \<le> limit);
        Some (the d', log_sent [(the d', n, npdu @ bs)] s) })"

definition reply :: "TSM_ENV \<Rightarrow> BACNET_ADDRESS \<Rightarrow> u8 \<Rightarrow> bytes \<Rightarrow> APDU \<Rightarrow> apdu_result" where
  "reply env d prio bs = lift_tsm (transmit env MAX_PDU d (npdu_encode_npdu_data False (ucast prio)) bs)"

section \<open>Services without a handler\<close>

definition handler_unrecognized_service ::
  "TSM_ENV \<Rightarrow> bytes option \<Rightarrow> BACNET_ADDRESS \<Rightarrow> BACNET_CONFIRMED_SERVICE_DATA \<Rightarrow> APDU \<Rightarrow> apdu_result" where
  "handler_unrecognized_service env req src sd s =
     reply env src (service_priority sd)
       (reject_encode_apdu (invoke_id sd) (of_int REJECT_REASON_UNRECOGNIZED_SERVICE)) s"

section \<open>DeviceCommunicationControl\<close>

text \<open>\<^verbatim>\<open>strlen\<close> of an array of characters, which has to end inside it.\<close>

definition strlen :: "bytes \<Rightarrow> nat option" where
  "strlen a = (if 0 \<in> set a then Some (length (takeWhile (\<lambda>c. c \<noteq> 0) a)) else None)"

definition characterstring_ansi_same ::
  "BACNET_CHARACTER_STRING option \<Rightarrow> bytes option \<Rightarrow> bool option" where
  "characterstring_ansi_same dest src =
     (case (src, dest) of
        (Some a, Some d) \<Rightarrow> do {
          n \<leftarrow> strlen a;
          Some (encoding d = CHARACTER_ANSI_X34 \<and> char_length d = n \<and>
                char_length d \<le> MAX_CHARACTER_STRING_BYTES \<and>
                take (char_length d) a = take (char_length d) (char_value d)) }
      | (Some a, None) \<Rightarrow> do { n \<leftarrow> strlen a; Some (n = 0) }
      | (None, Some d) \<Rightarrow> Some (char_length d = 0)
      | (None, None) \<Rightarrow> Some False)"

text \<open>The password is an array of 81 characters.\<close>

definition PASSWORD_SIZE :: nat where "PASSWORD_SIZE = 20 * 4 + 1"

fun password_loop :: "nat \<Rightarrow> bytes \<Rightarrow> bytes \<Rightarrow> bytes option" where
  "password_loop i [] a = (if i < PASSWORD_SIZE - 1 then None else Some a)"
| "password_loop i (c # cs) a =
     (if i < PASSWORD_SIZE - 1 then
        let a = a[i := c, i + 1 := 0]
        in if c = 0 then Some a else password_loop (i + 1) cs a
      else Some a)"

definition handler_dcc_password_set :: "bytes option \<Rightarrow> APDU \<Rightarrow> APDU option" where
  "handler_dcc_password_set new_password s =
     (case new_password of
        Some cs \<Rightarrow> do { a \<leftarrow> password_loop 0 cs (My_Password s); Some (s\<lparr>My_Password := a\<rparr>) }
      | None \<Rightarrow> Some (s\<lparr>My_Password := replicate PASSWORD_SIZE 0\<rparr>))"

definition handler_dcc_password :: "APDU \<Rightarrow> bytes" where
  "handler_dcc_password s = My_Password s"

abbreviation (input) ERROR_CLASS_SECURITY :: u32 where "ERROR_CLASS_SECURITY \<equiv> 4"
abbreviation (input) ERROR_CODE_PASSWORD_FAILURE :: u32 where "ERROR_CODE_PASSWORD_FAILURE \<equiv> 26"
abbreviation (input) ERROR_CODE_SERVICE_REQUEST_DENIED :: u32 where "ERROR_CODE_SERVICE_REQUEST_DENIED \<equiv> 29"

text \<open>
  The reply of \<^verbatim>\<open>handler_device_communication_control\<close> and the state it leaves; \<open>p0\<close> is the content
  of its uninitialised variable \<^verbatim>\<open>password\<close>. A failure of the decoder other than
  \<^verbatim>\<open>BACNET_STATUS_ABORT\<close> and \<^verbatim>\<open>BACNET_STATUS_REJECT\<close> would make the length of the reply negative.
\<close>

definition dcc_reply ::
  "BACNET_CHARACTER_STRING \<Rightarrow> bytes \<Rightarrow> u8 \<Rightarrow> APDU \<Rightarrow> (bytes \<times> DCC) option" where
  "dcc_reply p0 req iid s =
     (if length req = 0 then
        Some (reject_encode_apdu iid (of_int REJECT_REASON_MISSING_REQUIRED_PARAMETER), dcc s)
      else do {
        (len, timeDuration, state, password) \<leftarrow> dcc_decode_service_request p0 req 0 0;
        if len < 0 then
          if len = BACNET_STATUS_ABORT then
            Some (abort_encode_apdu iid (of_int ABORT_REASON_OTHER) True, dcc s)
          else if len = BACNET_STATUS_REJECT then
            Some (reject_encode_apdu iid (of_int REJECT_REASON_PARAMETER_OUT_OF_RANGE), dcc s)
          else None
        else if unat state = COMMUNICATION_DISABLE then
          Some (bacerror_encode_apdu iid SERVICE_CONFIRMED_DEVICE_COMMUNICATION_CONTROL
                  ERROR_CLASS_SERVICES ERROR_CODE_SERVICE_REQUEST_DENIED, dcc s)
        else if unat state \<ge> MAX_BACNET_COMMUNICATION_ENABLE_DISABLE then
          Some (reject_encode_apdu iid (of_int REJECT_REASON_UNDEFINED_ENUMERATION), dcc s)
        else do {
          c \<leftarrow> rd (My_Password s) 0;
          same \<leftarrow> (if c = 0 then Some True
                     else characterstring_ansi_same (Some password) (Some (My_Password s)));
          if same then
            Some (encode_simple_ack iid SERVICE_CONFIRMED_DEVICE_COMMUNICATION_CONTROL,
                  snd (dcc_set_status_duration (unat state) timeDuration (dcc s)))
          else
            Some (bacerror_encode_apdu iid SERVICE_CONFIRMED_DEVICE_COMMUNICATION_CONTROL
                    ERROR_CLASS_SECURITY ERROR_CODE_PASSWORD_FAILURE, dcc s) } })"

definition handler_device_communication_control ::
  "TSM_ENV \<Rightarrow> BACNET_CHARACTER_STRING \<Rightarrow> bytes option \<Rightarrow> BACNET_ADDRESS \<Rightarrow> BACNET_CONFIRMED_SERVICE_DATA
   \<Rightarrow> APDU \<Rightarrow> apdu_result" where
  "handler_device_communication_control env p0 req src sd s = do {
     (bs, d) \<leftarrow> dcc_reply p0 (request_bytes req) (invoke_id sd) s;
     reply env src (service_priority sd) bs (s\<lparr>dcc := d\<rparr>) }"

end
