(* ===== verification/Bac_Stack.thy ===== *)
theory Bac_Stack
  imports Bac_Handlers
begin

text \<open>
  \<^verbatim>\<open>src/bacnet/basic/npdu/h_npdu.c\<close>: what a device that is not a router does with a received network
  PDU. It answers the network layer messages on the local network number and passes APDUs on.
\<close>

record STACK =
  apdu_state :: APDU
  Local_Network_Number :: u16
  Local_Network_Number_Status :: u8

abbreviation (input) NETWORK_MESSAGE_REJECT_MESSAGE_TO_NETWORK :: u32 where
  "NETWORK_MESSAGE_REJECT_MESSAGE_TO_NETWORK \<equiv> 3"
abbreviation (input) NETWORK_MESSAGE_WHAT_IS_NETWORK_NUMBER :: u32 where
  "NETWORK_MESSAGE_WHAT_IS_NETWORK_NUMBER \<equiv> 18"
abbreviation (input) NETWORK_MESSAGE_NETWORK_NUMBER_IS :: u32 where "NETWORK_MESSAGE_NETWORK_NUMBER_IS \<equiv> 19"
abbreviation (input) NETWORK_MESSAGE_ASHRAE_RESERVED_MIN :: u32 where "NETWORK_MESSAGE_ASHRAE_RESERVED_MIN \<equiv> 20"
abbreviation (input) NETWORK_MESSAGE_ASHRAE_RESERVED_MAX :: u32 where "NETWORK_MESSAGE_ASHRAE_RESERVED_MAX \<equiv> 127"
abbreviation (input) NETWORK_REJECT_UNKNOWN_MESSAGE_TYPE :: u8 where "NETWORK_REJECT_UNKNOWN_MESSAGE_TYPE \<equiv> 3"

definition npdu_network_number :: "STACK \<Rightarrow> u16" where
  "npdu_network_number s = Local_Network_Number s"

definition npdu_network_number_set :: "u16 \<Rightarrow> STACK \<Rightarrow> STACK" where
  "npdu_network_number_set n s = s\<lparr>Local_Network_Number := n\<rparr>"

text \<open>
  The two messages are built in local buffers of \<^verbatim>\<open>MAX_NPDU + 2 + 1\<close> octets. The result is the value
  of \<^verbatim>\<open>datalink_send_pdu\<close>, 0 when nothing is sent, and the address, which the encoder may shorten.
\<close>

definition npdu_send_network_number_is ::
  "TSM_ENV \<Rightarrow> BACNET_ADDRESS \<Rightarrow> u16 \<Rightarrow> u8 \<Rightarrow> TSM \<Rightarrow> (int \<times> BACNET_ADDRESS \<times> TSM) option" where
  "npdu_send_network_number_is env dst n status s =
     (let nd = npdu_encode_npdu_network NETWORK_MESSAGE_NETWORK_NUMBER_IS False MESSAGE_PRIORITY_NORMAL;
          (npdu, dst', _) = npdu_encode_pdu (Some dst) (Some (my_address env)) nd;
          pdu = npdu @ encode_unsigned16 n @ [status]
      in if length npdu > 0 \<and> length npdu \<le> MAX_NPDU then do {
           ensure (length pdu \<le> MAX_NPDU + 2 + 1);
           Some (datalink_send_pdu env (the dst') nd pdu, the dst', log_sent [(the dst', nd, pdu)] s) }
         else Some (0, the dst', s))"

definition npdu_send_reject_message_to_network ::
  "TSM_ENV \<Rightarrow> BACNET_ADDRESS \<Rightarrow> u16 \<Rightarrow> TSM \<Rightarrow> (int \<times> BACNET_ADDRESS \<times> TSM) option" where
  "npdu_send_reject_message_to_network env dst n s =
     (let nd = npdu_encode_npdu_network NETWORK_MESSAGE_REJECT_MESSAGE_TO_NETWORK False MESSAGE_PRIORITY_NORMAL;
          (npdu, dst', _) = npdu_encode_pdu (Some dst) (Some (my_address env)) nd;
          npdu = npdu @ [NETWORK_REJECT_UNKNOWN_MESSAGE_TYPE];
          pdu = npdu @ encode_unsigned16 n
      in do {
        ensure (length npdu \<le> MAX_NPDU + 2 + 1);
        if length npdu > 0 \<and> length npdu \<le> MAX_NPDU then do {
          ensure (length pdu \<le> MAX_NPDU + 2 + 1);
          Some (datalink_send_pdu env (the dst') nd pdu, the dst', log_sent [(the dst', nd, pdu)] s) }
        else Some (0, the dst', s) })"

text \<open>
  The message follows at \<open>offset\<close>; what is read outside the buffer is undefined.
\<close>

definition rd_at :: "bytes \<Rightarrow> int \<Rightarrow> u8 option" where
  "rd_at bs i = (if i < 0 then None else rd bs (nat i))"

definition send_network :: "(TSM \<Rightarrow> (int \<times> BACNET_ADDRESS \<times> TSM) option) \<Rightarrow> STACK \<Rightarrow> (BACNET_ADDRESS \<times> STACK) option" where
  "send_network f s = do {
     (_, d, t) \<leftarrow> f (tsm (apdu_state s));
     Some (d, s\<lparr>apdu_state := (apdu_state s)\<lparr>tsm := t\<rparr>\<rparr>) }"

definition network_control_handler ::
  "TSM_ENV \<Rightarrow> BACNET_ADDRESS \<Rightarrow> BACNET_NPDU_DATA \<Rightarrow> bytes \<Rightarrow> int \<Rightarrow> STACK \<Rightarrow> (BACNET_ADDRESS \<times> STACK) option" where
  "network_control_handler env src nd pdu offset s = do {
     let npdu_len = (int (length pdu) - offset) mod 2 ^ 16;
     (dnet, src, s) \<leftarrow>
       (if network_message_type nd = NETWORK_MESSAGE_WHAT_IS_NETWORK_NUMBER then
          if net src = 0 \<and> Local_Network_Number s \<noteq> 0 then do {
            (src, s) \<leftarrow> send_network (npdu_send_network_number_is env src (Local_Network_Number s)
                           (Local_Network_Number_Status s)) s;
            Some (0, src, s) }
          else Some (0, src, s)
        else if network_message_type nd = NETWORK_MESSAGE_NETWORK_NUMBER_IS then
          if net src = 0 \<and> npdu_len \<ge> 2 then do {
            hi \<leftarrow> rd_at pdu offset;
            lo \<leftarrow> rd_at pdu (offset + 1);
            (_, dnet) \<leftarrow> decode_unsigned16 [hi, lo];
            status \<leftarrow> (if npdu_len \<ge> 3 then rd_at pdu (offset + 2) else Some 0);
            Some (dnet, src, s\<lparr>Local_Network_Number := dnet\<rparr>) }
          else Some (0, src, s)
        else Some (0, src, s));
     if network_message_type nd \<ge> NETWORK_MESSAGE_ASHRAE_RESERVED_MIN \<and>
        network_message_type nd \<le> NETWORK_MESSAGE_ASHRAE_RESERVED_MAX
     then send_network (npdu_send_reject_message_to_network env src dnet) s
     else Some (src, s) }"

text \<open>
  The decoder returns -1 for a header whose addresses are cut off or too long. \<^verbatim>\<open>&pdu[apdu_offset]\<close> is
  then a pointer in front of the buffer, which the code forms, and forming it is undefined.
\<close>

definition npdu_handler ::
  "APDU_ENV \<Rightarrow> BACNET_ADDRESS \<Rightarrow> bytes \<Rightarrow> STACK \<Rightarrow> (BACNET_ADDRESS \<times> STACK) option" where
  "npdu_handler env src pdu s =
     (if length pdu < 1 then Some (src, s)
      else do {
        version \<leftarrow> rd pdu 0;
        if version = BACNET_PROTOCOL_VERSION then do {
          (offset, dest, src', nd) \<leftarrow>
            bacnet_npdu_decode pdu (length pdu) (Some zero_address) (Some src) zero_npdu_data;
          let dest = the dest;
          let src = the src';
          if network_layer_message nd then
            if net dest = 0 \<or> net dest = BACNET_BROADCAST_NETWORK then do {
              ensure (0 \<le> offset);
              network_control_handler (tsm_env env) src nd pdu offset s }
            else Some (src, s)
          else if offset > 0 \<and> offset < int (length pdu) then
            if net dest = 0 \<or> net dest = BACNET_BROADCAST_NETWORK then do {
              ty \<leftarrow> rd pdu (nat offset);
              if net dest = BACNET_BROADCAST_NETWORK \<and> ty AND 0xF0 = PDU_TYPE_CONFIRMED_SERVICE_REQUEST
              then Some (src, s)
              else do {
                let a = apdu_state s;
                let a = a\<lparr>tsm := apdu_network_priority_set
                          (if data_expecting_reply nd then ucast (priority nd) else ucast MESSAGE_PRIORITY_NORMAL)
                          (tsm a)\<rparr>;
                (src, a) \<leftarrow> apdu_handler env src (Some (drop (nat offset) pdu)) a;
                Some (src, s\<lparr>apdu_state := a\<rparr>) } }
            else Some (src, s)
          else Some (src, s) }
        else Some (src, s) })"

end
