(* ===== verification/Bac_Dispatch.thy ===== *)
theory Bac_Dispatch
  imports Bac_Stack
begin

text \<open>
  What the dispatch promises. It relies on the handlers of the application: their contract is the
  locale \<open>service_handlers\<close>, in which the dispatch is proved to be defined on every PDU, as far as the
  segments of a request can be stored, and to keep the state in order, and which is interpreted on the
  handlers of the server.
\<close>

definition apdu_inv :: "APDU \<Rightarrow> bool" where
  "apdu_inv s \<longleftrightarrow> tsm_inv (tsm s) \<and> DCC_Enable_Disable (dcc s) < MAX_BACNET_COMMUNICATION_ENABLE_DISABLE \<and>
     length (Confirmed_Function s) = MAX_BACNET_CONFIRMED_SERVICE \<and>
     length (Unconfirmed_Function s) = MAX_BACNET_UNCONFIRMED_SERVICE \<and>
     length (Confirmed_ACK_Function s) = MAX_BACNET_CONFIRMED_SERVICE \<and>
     length (Error_Function s) = MAX_BACNET_CONFIRMED_SERVICE \<and>
     length (My_Password s) = PASSWORD_SIZE \<and> 0 \<in> set (My_Password s)"

abbreviation kept :: "apdu_result \<Rightarrow> bool" where
  "kept m \<equiv> wp m (\<lambda>(_, s'). apdu_inv s')"

lemma apdu_inv_tsm [simp]: "apdu_inv s \<Longrightarrow> tsm_inv (tsm s)"
  by (simp add: apdu_inv_def)

lemma apdu_inv_upd: "apdu_inv s \<Longrightarrow> tsm_inv t \<Longrightarrow> apdu_inv (s\<lparr>tsm := t\<rparr>)"
  by (simp add: apdu_inv_def)

lemma lift_tsm_keeps: "apdu_inv s \<Longrightarrow> wp (f (tsm s)) (\<lambda>(_, t). tsm_inv t) \<Longrightarrow> kept (lift_tsm f s)"
  by (auto simp: lift_tsm_def apdu_inv_upd elim!: wp_mono)

lemma free_segmentation_kept: "apdu_inv s \<Longrightarrow> kept (free_segmentation src iid s)"
  using free_segmentation_keeps [of "tsm s" src iid]
  by (auto simp: free_segmentation_def intro!: lift_tsm_keeps elim!: wp_mono)

text \<open>
  What the dispatch promises a handler of confirmed requests: an address of the declared size, and a
  maximum length that the capability octet can encode.
\<close>

definition peer_ok :: "BACNET_ADDRESS \<Rightarrow> bool" where
  "peer_ok src \<longleftrightarrow> wf_address src \<and> unat (adr_len src) \<le> MAX_MAC_LEN"

definition request_ok :: "BACNET_CONFIRMED_SERVICE_DATA \<Rightarrow> bool" where
  "request_ok sd \<longleftrightarrow> max_resp sd \<in> {0, 50, 128, 206, 480, 1024, 1476}"

lemma peer_wire [simp]: "peer_ok src \<Longrightarrow> wire_address src = src"
  by (simp add: peer_ok_def wire_address_short)

lemma decoded_request:
  "wp (apdu_decode_confirmed_service_request np apdu (length apdu) zero_service_data 0 None)
    (\<lambda>(len, sd, _, req). request_ok sd \<and> (0 < len \<longrightarrow> (\<forall>r. req = Some r \<longrightarrow> length r \<le> MAX_APDU)))"
proof -
  obtain len sd c req where d: "apdu_decode_confirmed_service_request np apdu (length apdu) zero_service_data 0 None =
      Some (len, sd, c, req)" "0 < len \<longrightarrow> (\<forall>r. req = Some r \<longrightarrow> length r \<le> MAX_APDU)"
    using apdu_decode_request_safe [of "length apdu" apdu np zero_service_data 0 None] by (auto simp: wp_iff)
  moreover have "request_ok sd"
    using apdu_decode_request_caps [of "length apdu" apdu np 0 None] d(1) by (simp add: request_ok_def)
  ultimately show ?thesis by simp
qed

text \<open>The state machine leaves the address of such a peer alone.\<close>

lemma segment_received_peer:
  assumes "peer_ok src" "tsm_set_segmented_confirmed_service_received env src sd req s = Some (ok, iid, req', src', s')"
  shows "src' = src"
  using assms
  by (auto simp: tsm_set_segmented_confirmed_service_received_def segment_in_idle_def segment_in_request_def
      segment_in_sequence_def new_segment_received_def duplicate_segment_received_def Let_def Option.bind_eq_Some_conv
      split: if_splits BACNET_TSM_STATE.splits)

lemma check_unexpected_peer:
  assumes "peer_ok src" "check_unexpected_pdu_received env src sd s = Some (b, src', s')"
  shows "src' = src"
  using assms
  by (auto simp: check_unexpected_pdu_received_def Let_def Option.bind_eq_Some_conv split: if_splits option.splits)

text \<open>An APDU that is a segment of a request: the only one for which the stack needs an allocation to succeed.\<close>

definition is_segment :: "bytes \<Rightarrow> bool" where
  "is_segment apdu \<longleftrightarrow> (case apdu of [] \<Rightarrow> False | b # _ \<Rightarrow> b AND 0xF0 = PDU_TYPE_CONFIRMED_SERVICE_REQUEST \<and> bit b 3)"

locale service_handlers =
  fixes env :: APDU_ENV
  assumes confirmed: "apdu_inv s \<Longrightarrow> peer_ok src \<Longrightarrow> request_ok sd \<Longrightarrow> kept (call_confirmed env f req src sd s)"
    and unconfirmed: "apdu_inv s \<Longrightarrow> kept (call_unconfirmed env f bs src s)"
    and simple_ack: "apdu_inv s \<Longrightarrow> kept (call_simple_ack env f src iid s)"
    and complex_ack: "apdu_inv s \<Longrightarrow> kept (call_complex_ack env f bs src ack s)"
    and error: "apdu_inv s \<Longrightarrow> kept (call_error env f src iid cls code s)"
    and complex_error: "apdu_inv s \<Longrightarrow> kept (call_complex_error env f src iid choice bs s)"
    and abort: "apdu_inv s \<Longrightarrow> kept (call_abort env f src iid reason server s)"
    and reject: "apdu_inv s \<Longrightarrow> kept (call_reject env f src iid reason s)"
begin

lemma invoke_kept: "apdu_inv s \<Longrightarrow> (\<And>f. kept (call f)) \<Longrightarrow> kept (invoke p call src s)"
  by (simp add: invoke_def split: option.splits)

lemma request_kept:
  "apdu_inv s \<Longrightarrow> peer_ok src \<Longrightarrow> request_ok sd \<Longrightarrow> kept (invoke_confirmed_service_service_request env src sd choice req s)"
  by (auto simp: invoke_confirmed_service_service_request_def intro!: invoke_kept confirmed)

lemma segment_kept:
  assumes inv: "apdu_inv s" and peer: "peer_ok src" and memory: "memory_available (tsm_env env)"
  shows "kept (apdu_handler_confirmed_service_segment env src apdu s)"
proof -
  have seg: "wp (tsm_set_segmented_confirmed_service_received (tsm_env env) src sd req (tsm s))
      (\<lambda>(_, _, _, src', t). src' = src \<and> tsm_inv t)" if "\<forall>r. req = Some r \<longrightarrow> length r \<le> MAX_APDU" for sd req
    using segment_received_keeps [OF apdu_inv_tsm [OF inv] memory, of req src sd] that segment_received_peer [OF peer]
    by (cases req) (fastforce simp: request_bytes_def wp_iff)+
  show ?thesis
    unfolding apdu_handler_confirmed_service_segment_def
    by (rule wp_bind [THEN iffD2], rule wp_mono [OF decoded_request])
      (auto simp: Let_def apdu_inv_upd inv peer free_invoke_id_check_keeps
        intro!: seg [THEN wp_mono] request_kept [THEN wp_mono])
qed

lemma confirmed_kept:
  assumes inv: "apdu_inv s" and peer: "peer_ok src"
  shows "kept (apdu_handler_confirmed_service env src apdu s)"
proof -
  have c: "wp (check_unexpected_pdu_received (tsm_env env) src sd (tsm s)) (\<lambda>(_, src', t). src' = src \<and> tsm_inv t)" for sd
    using check_unexpected_keeps [OF apdu_inv_tsm [OF inv], of "tsm_env env" src sd] check_unexpected_peer [OF peer]
    by (fastforce simp: wp_iff)
  show ?thesis
    unfolding apdu_handler_confirmed_service_def
    by (rule wp_bind [THEN iffD2], rule wp_mono [OF decoded_request])
      (auto simp: Let_def apdu_inv_upd inv peer intro!: c [THEN wp_mono] request_kept)
qed

lemma unconfirmed_kept: "apdu_inv s \<Longrightarrow> kept (handle_unconfirmed env src apdu s)"
  by (auto simp: handle_unconfirmed_def intro!: invoke_kept unconfirmed)

lemma simple_ack_kept: "apdu_inv s \<Longrightarrow> kept (handle_simple_ack env src apdu s)"
  by (auto simp: handle_simple_ack_def apdu_inv_upd free_invoke_id_keeps
      intro!: invoke_kept [THEN wp_mono] simple_ack)

lemma complex_ack_kept: "apdu_inv s \<Longrightarrow> kept (handle_complex_ack env src apdu s)"
  by (auto simp: handle_complex_ack_def Let_def apdu_inv_upd free_invoke_id_keeps
      intro!: invoke_kept [THEN wp_mono] complex_ack)

lemma segment_ack_kept: "apdu_inv s \<Longrightarrow> kept (handle_segment_ack env src apdu s)"
  by (auto simp: handle_segment_ack_def intro!: lift_tsm_keeps segmentack_received_keeps)

lemma error_kept: "apdu_inv s \<Longrightarrow> kept (handle_error env src apdu s)"
  by (auto simp: handle_error_def intro!: invoke_kept [THEN wp_mono] error complex_error
      free_segmentation_kept error_decode_defined [THEN wp_mono])

lemma reject_kept: "apdu_inv s \<Longrightarrow> kept (handle_reject env src apdu s)"
  by (auto simp: handle_reject_def intro!: invoke_kept [THEN wp_mono] reject free_segmentation_kept)

lemma abort_kept: "apdu_inv s \<Longrightarrow> kept (handle_abort env src apdu s)"
  by (auto simp: handle_abort_def Let_def intro!: invoke_kept [THEN wp_mono] abort
      lift_tsm_keeps [THEN wp_mono] free_segmentation_kept)

lemmas cases_kept = segment_kept confirmed_kept unconfirmed_kept simple_ack_kept complex_ack_kept
  segment_ack_kept error_kept reject_kept abort_kept

lemma apdu_kept:
  assumes "apdu_inv s" "peer_ok src" "\<forall>bs. apdu = Some bs \<and> is_segment bs \<longrightarrow> memory_available (tsm_env env)"
  shows "kept (apdu_handler env src apdu s)"
proof (cases apdu)
  case (Some bs)
  have seg: "kept (apdu_handler_confirmed_service_segment env src bs s)"
    if "bs \<noteq> []" "bs ! 0 AND 0xF0 = 0" "bit (bs ! 0) 3"
  proof -
    have "is_segment bs" using that by (cases bs) (simp_all add: is_segment_def)
    with Some assms(3) have "memory_available (tsm_env env)" by blast
    then show ?thesis by (rule segment_kept [OF assms(1,2)])
  qed
  show ?thesis
    unfolding Some apdu_handler_def using assms(1,2) seg by (simp add: cases_kept Let_def rd_def)
qed (simp add: apdu_handler_def assms(1))

end

section \<open>The handlers of the server\<close>

lemma transmit_eq:
  assumes "length bs + MAX_NPDU \<le> limit"
  shows "transmit env limit d n bs s =
    Some (wire_address d, log_sent [(wire_address d, n, fst (npdu_encode_pdu (Some d) (Some (my_address env)) n) @ bs)] s)"
proof -
  obtain h d' r where e: "npdu_encode_pdu (Some d) (Some (my_address env)) n = (h, d', r)"
    by (metis prod.exhaust)
  have "length h \<le> MAX_NPDU" using length_npdu_encode_pdu [of d "my_address env" n] e by simp
  moreover have "d' = Some (wire_address d)"
    using e by (auto simp: npdu_encode_pdu_def has_dest_def wire_address_def Let_def)
  ultimately show ?thesis using assms e by (simp add: transmit_def Let_def)
qed

definition reply_pdu :: "TSM_ENV \<Rightarrow> BACNET_ADDRESS \<Rightarrow> u8 \<Rightarrow> bytes \<Rightarrow> sent_pdu" where
  "reply_pdu env d prio bs =
     (let n = npdu_encode_npdu_data False (ucast prio)
      in (wire_address d, n, fst (npdu_encode_pdu (Some d) (Some (my_address env)) n) @ bs))"

lemma reply_eq:
  assumes "length bs \<le> MAX_APDU"
  shows "reply env d prio bs s = Some (wire_address d, s\<lparr>tsm := log_sent [reply_pdu env d prio bs] (tsm s)\<rparr>)"
proof -
  have "length bs + MAX_NPDU \<le> MAX_PDU" using assms by (simp add: MAX_PDU_def MAX_SEGMENTS_ACCEPTED_def)
  then show ?thesis by (simp add: reply_def lift_tsm_def reply_pdu_def transmit_eq Let_def)
qed

lemma reply_kept: "apdu_inv s \<Longrightarrow> length bs \<le> MAX_APDU \<Longrightarrow> kept (reply env d prio bs s)"
  by (simp add: reply_eq apdu_inv_def)

lemma unrecognized_kept: "apdu_inv s \<Longrightarrow> kept (handler_unrecognized_service env req src sd s)"
  by (simp add: handler_unrecognized_service_def reply_kept reject_encode_apdu_def MAX_APDU_def)

lemma error_pdu_short: "length (bacerror_encode_apdu iid choice cls code) \<le> MAX_APDU"
proof -
  have "length (encode_application_enumerated v) \<le> 15" for v
    using bacnet_unsigned_length_range [of "ucast v"]
    by (auto simp: encode_application_enumerated_def encode_tag_def encode_bacnet_enumerated_def number_octets_def)
  then have "length (encode_application_enumerated cls) + length (encode_application_enumerated code) \<le> 15 + 15"
    by (intro add_mono)
  then show ?thesis by (simp add: bacerror_encode_apdu_def MAX_APDU_def)
qed

lemma dcc_reply_defined:
  assumes "apdu_inv s"
  shows "wp (dcc_reply p0 req iid s) (\<lambda>(bs, d). length bs \<le> MAX_APDU \<and> apdu_inv (s\<lparr>dcc := d\<rparr>))"
proof -
  have p: "My_Password s \<noteq> []" "wp (characterstring_ansi_same (Some q) (Some (My_Password s))) (\<lambda>_. True)" for q
    using assms by (auto simp: apdu_inv_def PASSWORD_SIZE_def characterstring_ansi_same_def strlen_def)
  have i: "apdu_inv (s\<lparr>dcc := dcc s\<rparr>)" "apdu_inv (s\<lparr>dcc := snd (dcc_set_status_duration st m (dcc s))\<rparr>)" for st m
    using assms by (simp_all add: apdu_inv_def dcc_set_status_duration_def)
  have short: "length (reject_encode_apdu iid x) \<le> MAX_APDU" "length (abort_encode_apdu iid x True) \<le> MAX_APDU"
    "length (encode_simple_ack iid x) \<le> MAX_APDU" for x
    by (simp_all add: reject_encode_apdu_def abort_encode_apdu_def encode_simple_ack_def MAX_APDU_def)
  show ?thesis
    unfolding dcc_reply_def
    by (auto simp: assms i p(1) short error_pdu_short
        intro!: dcc_decode_defined [THEN wp_mono] p(2) [THEN wp_mono])
qed

lemma dcc_kept: "apdu_inv s \<Longrightarrow> kept (handler_device_communication_control env p0 req src sd s)"
  by (auto simp: handler_device_communication_control_def reply_kept intro!: dcc_reply_defined [THEN wp_mono])

text \<open>
  A server that has registered the two handlers, number 0 for services without a handler and number
  1 for DeviceCommunicationControl, and nothing else.
\<close>

definition server_env :: "TSM_ENV \<Rightarrow> BACNET_CHARACTER_STRING \<Rightarrow> APDU_ENV" where
  "server_env env p0 =
     \<lparr>tsm_env = env,
      call_confirmed = (\<lambda>f. if f = 0 then handler_unrecognized_service env
                            else handler_device_communication_control env p0),
      call_unconfirmed = (\<lambda>_ _ src s. Some (src, s)), call_simple_ack = (\<lambda>_ src _ s. Some (src, s)),
      call_complex_ack = (\<lambda>_ _ src _ s. Some (src, s)), call_error = (\<lambda>_ src _ _ _ s. Some (src, s)),
      call_complex_error = (\<lambda>_ src _ _ _ s. Some (src, s)), call_abort = (\<lambda>_ src _ _ _ s. Some (src, s)),
      call_reject = (\<lambda>_ src _ _ s. Some (src, s))\<rparr>"

lemma server_env_handlers: "service_handlers (server_env env p0)"
  by unfold_locales (simp_all add: server_env_def unrecognized_kept dcc_kept)

interpretation server: service_handlers "server_env env p0" for env p0
  by (rule server_env_handlers)

text \<open>The state of such a server at its start, with the initial password of \<^verbatim>\<open>h_dcc.c\<close>.\<close>

definition initial_password :: bytes where
  "initial_password = [0x66, 0x69, 0x6C, 0x69, 0x73, 0x74, 0x65, 0x72] @ replicate (PASSWORD_SIZE - 8) 0"

definition server_start :: "nat \<Rightarrow> nat \<Rightarrow> APDU" where
  "server_start n p =
     apdu_set_confirmed_handler SERVICE_CONFIRMED_DEVICE_COMMUNICATION_CONTROL (Some 1)
       (apdu_set_unrecognized_service_handler_handler (Some 0)
         \<lparr>tsm = tsm_start n p, dcc = \<lparr>DCC_Time_Duration_Seconds = 0, DCC_Enable_Disable = COMMUNICATION_ENABLE\<rparr>,
          Confirmed_Function = replicate MAX_BACNET_CONFIRMED_SERVICE None, Unrecognized_Service_Handler = None,
          Unconfirmed_Function = replicate MAX_BACNET_UNCONFIRMED_SERVICE None,
          Confirmed_ACK_Function = replicate MAX_BACNET_CONFIRMED_SERVICE None,
          Error_Function = replicate MAX_BACNET_CONFIRMED_SERVICE None,
          Abort_Function = None, Reject_Function = None, My_Password = initial_password\<rparr>)"

lemma server_start_simps [simp]:
  "tsm (server_start n p) = tsm_start n p" "My_Password (server_start n p) = initial_password"
  "dcc (server_start n p) = \<lparr>DCC_Time_Duration_Seconds = 0, DCC_Enable_Disable = COMMUNICATION_ENABLE\<rparr>"
  "Confirmed_Function (server_start n p) ! 17 = Some 1"
  by (simp_all add: server_start_def apdu_set_confirmed_handler_def apdu_set_unrecognized_service_handler_handler_def
      MAX_BACNET_CONFIRMED_SERVICE_def)

lemma server_start_inv: "n \<le> 255 \<Longrightarrow> apdu_inv (server_start n p)"
  by (simp add: apdu_inv_def server_start_def apdu_set_confirmed_handler_def tsm_start_inv
      apdu_set_unrecognized_service_handler_handler_def initial_password_def PASSWORD_SIZE_def)

text \<open>The setters of the handlers keep the tables in order.\<close>

lemma setters_keep:
  assumes "apdu_inv s"
  shows "apdu_inv (apdu_set_confirmed_handler c f s)" "apdu_inv (apdu_set_unrecognized_service_handler_handler f s)"
    "apdu_inv (apdu_set_unconfirmed_handler c f s)" "apdu_inv (apdu_set_confirmed_simple_ack_handler c f s)"
    "apdu_inv (apdu_set_confirmed_ack_handler c f s)" "apdu_inv (apdu_set_error_handler c f s)"
    "apdu_inv (apdu_set_complex_error_handler c f s)" "apdu_inv (apdu_set_abort_handler f s)"
    "apdu_inv (apdu_set_reject_handler f s)"
  using assms
  by (simp_all add: apdu_inv_def apdu_set_confirmed_handler_def apdu_set_unrecognized_service_handler_handler_def
      apdu_set_unconfirmed_handler_def apdu_set_confirmed_simple_ack_handler_def apdu_set_confirmed_ack_handler_def
      apdu_set_error_handler_def apdu_set_complex_error_handler_def apdu_set_abort_handler_def
      apdu_set_reject_handler_def)

end
