(* ===== verification/Bac_Segmented.thy ===== *)
theory Bac_Segmented
  imports Bac_Dispatch
begin

text \<open>
  Segmented requests through the dispatch: the PDUs of a request in segments lead to one call of
  the service handler, with the whole request.
\<close>

definition segment_apdu :: "u8 \<Rightarrow> u8 \<Rightarrow> u8 \<Rightarrow> u8 \<Rightarrow> nat \<Rightarrow> nat \<Rightarrow> bytes \<Rightarrow> bytes" where
  "segment_apdu cap pid w choice n k x =
     [PDU_TYPE_CONFIRMED_SERVICE_REQUEST OR 0x08 OR (if k + 1 < n then 0x04 else 0), cap, pid, of_nat k, w, choice] @ x"

definition segment_service_data :: "u8 \<Rightarrow> u8 \<Rightarrow> u8 \<Rightarrow> u8 \<Rightarrow> nat \<Rightarrow> nat \<Rightarrow> BACNET_CONFIRMED_SERVICE_DATA" where
  "segment_service_data prio cap pid w n k = (segment_header pid w n k)\<lparr>max_segs := decode_max_segs cap,
     max_resp := decode_max_apdu cap, service_priority := prio\<rparr>"

lemma segment_octet:
  "bit (0x08 OR (if b then 0x04 else 0) :: u8) 3" "bit (0x08 OR (if b then 0x04 else 0) :: u8) 2 = b"
  "\<not> bit (0x08 OR (if b then 0x04 else 0) :: u8) 1" "(0x08 OR (if b then 0x04 else 0) :: u8) AND 0xF0 = 0"
  by (cases b; simp)+

lemma decode_segment:
  assumes "x \<noteq> []" "6 + length x \<le> MAX_APDU"
  shows "apdu_decode_confirmed_service_request prio (segment_apdu cap pid w choice n k x)
      (length (segment_apdu cap pid w choice n k x)) zero_service_data c0 r0 =
    Some (6, segment_service_data prio cap pid w n k, choice, Some x)"
  using assms
  by (cases x) (auto simp: apdu_decode_confirmed_service_request_def segment_apdu_def segment_service_data_def
      segment_header_def zero_service_data_def segment_octet Let_def read_at_def)

text \<open>One segment: the transaction machine sees its header and, after the last one, the handler is called.\<close>

lemma segment_dispatched:
  assumes "x \<noteq> []" "6 + length x \<le> MAX_APDU"
  shows "apdu_handler env src (Some (segment_apdu cap pid w choice n k x)) s =
    (do { (ok, iid, req, src, t) \<leftarrow> tsm_set_segmented_confirmed_service_received (tsm_env env) src
            (segment_header pid w n k) (Some x) (tsm s);
          if ok \<and> \<not> k + 1 < n then do {
            (src, s) \<leftarrow> invoke_confirmed_service_service_request env src
               (segment_service_data (apdu_network_priority (tsm s)) cap pid w n k) choice req
               (s\<lparr>tsm := tsm_clear_peer_id iid t\<rparr>);
            Some (src, s\<lparr>tsm := tsm_free_invoke_id_check iid None True (tsm s)\<rparr>) }
          else Some (src, s\<lparr>tsm := t\<rparr>) })"
proof -
  let ?p = "segment_apdu cap pid w choice n k x"
  have hd: "?p \<noteq> []" "rd ?p 0 = Some (0x08 OR (if k + 1 < n then 0x04 else 0))"
    by (simp_all add: segment_apdu_def)
  have more: "more_follows (segment_service_data prio cap pid w n k) = (k + 1 < n)" for prio
    by (simp add: segment_service_data_def segment_header_def)
  have "tsm_set_segmented_confirmed_service_received (tsm_env env) src
      (segment_service_data prio cap pid w n k) req t = tsm_set_segmented_confirmed_service_received (tsm_env env) src
      (segment_header pid w n k) req t" for prio req t
    by (rule segment_received_cong) (simp_all add: segment_service_data_def)
  then show ?thesis
    using decode_segment [OF assms, of "apdu_network_priority (tsm s)" cap pid w choice n k 0 None]
    by (cases "tsm_set_segmented_confirmed_service_received (tsm_env env) src (segment_header pid w n k) (Some x) (tsm s)")
      (auto simp: apdu_handler_def hd segment_octet apdu_handler_confirmed_service_segment_def Let_def more)
qed

fun deliver :: "APDU_ENV \<Rightarrow> BACNET_ADDRESS \<Rightarrow> bytes list \<Rightarrow> APDU \<Rightarrow> APDU option" where
  "deliver env src [] s = Some s"
| "deliver env src (p # ps) s = do { (_, s) \<leftarrow> apdu_handler env src (Some p) s; deliver env src ps s }"

text \<open>The PDUs of the segments \<open>k\<close>, \<open>k + 1\<close>, \<dots> of \<open>n\<close>.\<close>

fun segment_apdus :: "u8 \<Rightarrow> u8 \<Rightarrow> u8 \<Rightarrow> u8 \<Rightarrow> nat \<Rightarrow> nat \<Rightarrow> bytes list \<Rightarrow> bytes list" where
  "segment_apdus cap pid w choice n k [] = []"
| "segment_apdus cap pid w choice n k (x # xs) =
     segment_apdu cap pid w choice n k x # segment_apdus cap pid w choice n (k + 1) xs"

text \<open>The call of the handler at the end of a request, and what is released behind it.\<close>

definition served :: "APDU_ENV \<Rightarrow> nat \<Rightarrow> bytes \<Rightarrow> BACNET_ADDRESS \<Rightarrow> BACNET_CONFIRMED_SERVICE_DATA \<Rightarrow> u8 \<Rightarrow> APDU
    \<Rightarrow> APDU option" where
  "served env f req src sd iid s = do {
     (_, s) \<leftarrow> call_confirmed env f (Some req) src sd (s\<lparr>tsm := tsm_clear_peer_id iid (tsm s)\<rparr>);
     Some (s\<lparr>tsm := tsm_free_invoke_id_check iid None True (tsm s)\<rparr>) }"

lemma deliver_rest:
  assumes "receiving (tsm s) src pid index iid k bs" "memory_available (tsm_env env)" "timers_compatible (tsm s)"
    and "\<forall>x \<in> set xs. x \<noteq> [] \<and> 6 + length x \<le> MAX_APDU" "n = k + length xs" "n \<le> MAX_SEGMENTS_ACCEPTED"
    and "xs \<noteq> []" "bs \<noteq> []"
    and gate: "\<not> apdu_confirmed_dcc_disabled choice (dcc s)"
    and f: "unat choice < MAX_BACNET_CONFIRMED_SERVICE" "Confirmed_Function s ! unat choice = Some f"
  shows "\<exists>t. deliver env src (segment_apdus cap pid w choice n k xs) s =
      served env f (bs @ concat xs) (wire_address src)
        (segment_service_data (apdu_network_priority (tsm s)) cap pid w n (n - 1)) iid (s\<lparr>tsm := t\<rparr>) \<and>
    receiving t src pid index iid n (bs @ concat xs)"
  using assms
proof (induction xs arbitrary: s k bs)
  case (Cons x xs)
  have x: "x \<noteq> []" "6 + length x \<le> MAX_APDU" using Cons.prems(4) by simp_all
  then have len: "length x \<le> MAX_APDU" and k: "k < MAX_SEGMENTS_ACCEPTED" and ne: "bs @ x \<noteq> []"
    using Cons.prems(5,6,8) by simp_all
  obtain t src' where t: "tsm_set_segmented_confirmed_service_received (tsm_env env) src
        (segment_header pid w n k) (Some x) (tsm s)
      = Some (\<not> k + 1 < n, iid, Some (if k + 1 < n then x else bs @ x), src', t)"
    "receiving t src pid index iid (k + 1) (bs @ x)" "config t = config (tsm s)"
    "\<not> k + 1 < n \<longrightarrow> src' = wire_address src"
    by (rule next_segment [OF Cons.prems(1,2) len k Cons.prems(3) ne, of w n])
  show ?case
  proof (cases "xs = []")
    case True
    then have "\<not> k + 1 < n" "k + 1 = n" "n - 1 = k" using Cons.prems(5) by simp_all
    then show ?thesis
      using True t Cons.prems(9-11)
      by (auto simp: segment_dispatched [OF x] served_def invoke_confirmed_service_service_request_def invoke_def
          split_def intro!: exI [of _ t])
  next
    case False
    then have "k + 1 < n" using Cons.prems(5) by (cases xs) simp_all
    then have "deliver env src (segment_apdus cap pid w choice n k (x # xs)) s =
        deliver env src (segment_apdus cap pid w choice n (k + 1) xs) (s\<lparr>tsm := t\<rparr>)"
      using t(1) by (simp add: segment_dispatched [OF x])
    with Cons.IH [of "s\<lparr>tsm := t\<rparr>" "k + 1" "bs @ x"] t(2,3) Cons.prems False show ?thesis
      by (simp add: timers_compatible_cong [OF t(3)] apdu_network_priority_def)
  qed
qed simp

text \<open>
  C2. A request in 2 to 25 segments, delivered in order to a server with a free transaction, reaches
  the handler registered for its service: after the last segment the handler is called, once, with
  the concatenation of the segments, the address the segments came from (as the network layer writes
  it) and the service data of the last segment: the invoke identifier of the peer and what the peer
  accepts as a response. No other segment calls it. Behind the call the transaction is released.

  The segments are not empty and fit one APDU, the window the peer proposes is 1 to 127, the
  allocations succeed and DeviceCommunicationControl lets the service through. The theorem is about
  a configuration in which four segment timeouts are at most one APDU timeout: with the default
  timeouts (5000 ms and 3000 ms) the second segment aborts the request instead.
\<close>

theorem segmented_request_dispatched:
  assumes "apdu_inv s" "memory_available (tsm_env env)" "timers_compatible (tsm s)" "0 < free_slots (tsm s)"
    and "\<exists>q \<in> set (TSM_Peer_Ids (tsm s)). InternalInvokeID q = 0"
    and "\<forall>q \<in> set (TSM_Peer_Ids (tsm s)). \<not> peer_matches src pid q"
    and "0 < w" "w \<le> 127" "2 \<le> length segs" "length segs \<le> MAX_SEGMENTS_ACCEPTED"
    and "\<forall>x \<in> set segs. x \<noteq> [] \<and> 6 + length x \<le> MAX_APDU"
    and "\<not> apdu_confirmed_dcc_disabled choice (dcc s)" "unat choice < MAX_BACNET_CONFIRMED_SERVICE"
    and "Confirmed_Function s ! unat choice = Some f"
  shows "\<exists>t iid. deliver env src (segment_apdus cap pid w choice (length segs) 0 segs) s =
      served env f (concat segs) (wire_address src)
        (segment_service_data (apdu_network_priority (tsm s)) cap pid w (length segs) (length segs - 1)) iid
        (s\<lparr>tsm := t\<rparr>) \<and>
    tsm_inv t \<and> iid \<notin> held_ids (tsm s) \<and> iid \<in> held_ids t"
proof -
  obtain x xs where segs: "segs = x # xs" "xs \<noteq> []" using assms(9) by (cases segs; cases "tl segs") auto
  have x: "x \<noteq> []" "6 + length x \<le> MAX_APDU" using assms(11) segs by simp_all
  then have "length x \<le> MAX_APDU" by simp
  from first_segment_received [OF apdu_inv_tsm [OF assms(1)] assms(2,4-8) this]
  obtain index iid t where t: "tsm_set_segmented_confirmed_service_received (tsm_env env) src
        (segment_header pid w (length segs) 0) (Some x) (tsm s) = Some (False, iid, Some x, wire_address src, t)"
      "receiving t src pid index iid 1 x" "config t = config (tsm s)" "iid \<notin> held_ids (tsm s)"
    by metis
  have "deliver env src (segment_apdus cap pid w choice (length segs) 0 segs) s =
      deliver env src (segment_apdus cap pid w choice (length segs) 1 xs) (s\<lparr>tsm := t\<rparr>)"
    using t(1) segs(1) by (simp add: segment_dispatched [OF x])
  moreover have "timers_compatible t" using assms(3) t(3) timers_compatible_cong by metis
  then obtain t' where r: "deliver env src (segment_apdus cap pid w choice (length segs) 1 xs) (s\<lparr>tsm := t\<rparr>) =
      served env f (x @ concat xs) (wire_address src)
        (segment_service_data (apdu_network_priority (tsm s)) cap pid w (length segs) (length segs - 1)) iid
        (s\<lparr>tsm := t'\<rparr>)"
      "receiving t' src pid index iid (length segs) (x @ concat xs)"
    using deliver_rest [of "s\<lparr>tsm := t\<rparr>" src pid index iid 1 x env xs "length segs" choice f cap w]
      t(2,3) assms(2,10-14) segs x by (auto simp: apdu_network_priority_def)
  moreover have "tsm_inv t'" "iid \<in> held_ids t'"
    using r(2) by (auto simp: receiving_def serving_def find_invokeID_held)
  ultimately show ?thesis
    using segs(1) t(4) by (intro exI [of _ t'] exI [of _ iid]) simp
qed

theorem segmented_request_dispatched_witness:
  "\<exists>t iid. deliver (server_env quiet_env no_password) zero_address
      (segment_apdus 5 9 4 17 (length [[0x19 :: u8], [0]]) 0 [[0x19], [0]]) (server_start 2 2\<lparr>tsm := apdu_timeout_set 20000 (tsm_start 2 2)\<rparr>) =
    served (server_env quiet_env no_password) 1 [0x19, 0] (wire_address zero_address)
      (segment_service_data (apdu_network_priority (apdu_timeout_set 20000 (tsm_start 2 2))) 5 9 4 (length [[0x19 :: u8], [0]]) 1) iid
      (server_start 2 2\<lparr>tsm := t\<rparr>) \<and> iid \<in> held_ids t"
proof -
  let ?t = "apdu_timeout_set 20000 (tsm_start 2 2)"
  let ?s = "server_start 2 2\<lparr>tsm := ?t\<rparr>"
  have "apdu_inv ?s"
    using server_start_inv [of 2 2] by (simp add: apdu_inv_def apdu_timeout_set_def)
  moreover have "timers_compatible ?t"
    by (simp add: timers_compatible_def apdu_timeout_def apdu_segment_timeout_def apdu_timeout_set_def
        default_config_def)
  moreover have "0 < free_slots ?t \<and> (\<exists>q \<in> set (TSM_Peer_Ids ?t). InternalInvokeID q = 0) \<and>
      (\<forall>q \<in> set (TSM_Peer_Ids ?t). \<not> peer_matches zero_address 9 q)"
    by (rule fresh_table_room [of 2 2]) (simp_all add: apdu_timeout_set_def)
  moreover have "memory_available (tsm_env (server_env quiet_env no_password))" by (simp add: server_env_def)
  ultimately show ?thesis
    using segmented_request_dispatched [of ?s "server_env quiet_env no_password" zero_address 9 4
        "[[0x19], [0]]" 17 1 5]
    by (auto simp: MAX_SEGMENTS_ACCEPTED_def MAX_APDU_def apdu_confirmed_dcc_disabled_def
        dcc_communication_disabled_def dcc_communication_initiation_disabled_def
        MAX_BACNET_CONFIRMED_SERVICE_def)
qed

end
