(* ===== verification/Bac_Server.thy ===== *)
theory Bac_Server
  imports Bac_Dispatch
begin

text \<open>
  The stack as a server: from a received network PDU through the dispatch to the handler and the
  reply. Every PDU is handled without undefined behaviour, DeviceCommunicationControl requests and
  segmented requests reach their handler, and what the gate does to other requests.
\<close>

section \<open>Network PDUs\<close>

text \<open>The address of the source, where there is an APDU behind the header, has the declared size.\<close>

lemma npdu_decode_peer:
  assumes "pdu_len \<le> length npdu" "peer_ok src"
  shows "wp (bacnet_npdu_decode npdu pdu_len dest (Some src) n) (\<lambda>(r, _, src', n').
    (r = -1 \<and> network_message_type n' = network_message_type n \<or> 0 \<le> r \<and> r \<le> int pdu_len) \<and>
    (0 < r \<longrightarrow> peer_ok (the src')))"
proof -
  have p: "wp (npdu_decode_src npdu pdu_len c pos (Some src))
      (\<lambda>(ok, pos', _, a). pos \<le> pos' \<and> pos' \<le> pdu_len \<and> (ok \<longrightarrow> peer_ok (the a)))" if "pos \<le> pdu_len" for pos c
    using assms that
    by (auto simp: npdu_decode_src_def npdu_decode_specifier_def Let_def peer_ok_def wf_address_def
        intro!: wp_decode_unsigned16)
  show ?thesis
    using assms
    by (auto simp: bacnet_npdu_decode_def npdu_decode_dest_def Let_def
        intro!: npdu_decode_specifier_safe [THEN wp_mono] npdu_decode_message_safe [THEN wp_mono] p [THEN wp_mono])
qed

lemma npdu_encode_dest:
  "npdu_encode_pdu (Some d) (Some m) n = (fst (npdu_encode_pdu (Some d) (Some m) n), Some (wire_address d),
     snd (snd (npdu_encode_pdu (Some d) (Some m) n)))"
  by (auto simp: npdu_encode_pdu_def has_dest_def wire_address_def Let_def)

lemma network_number_sent:
  "wp (npdu_send_network_number_is env d v st t) (\<lambda>(_, _, t'). \<exists>ps. t' = log_sent ps t)"
  using length_npdu_encode_pdu [of d "my_address env"]
  by (subst npdu_send_network_number_is_def, subst npdu_encode_dest)
    (auto simp: Let_def encode_unsigned16_def log_sent_def intro: exI [of _ "[]"])

lemma network_reject_sent:
  "wp (npdu_send_reject_message_to_network env d v t) (\<lambda>(_, _, t'). \<exists>ps. t' = log_sent ps t)"
  using length_npdu_encode_pdu [of d "my_address env", THEN le_SucI, THEN le_SucI]
  by (subst npdu_send_reject_message_to_network_def, subst npdu_encode_dest)
    (auto simp: Let_def encode_unsigned16_def log_sent_def intro: exI [of _ "[]"])

lemma tsm_inv_log [simp]: "apdu_inv (a\<lparr>tsm := log_sent ps (tsm a)\<rparr>) = apdu_inv a"
  by (simp add: apdu_inv_def)

lemma send_network_kept:
  assumes "apdu_inv (apdu_state s)" "\<And>t. wp (f t) (\<lambda>(_, _, t'). \<exists>ps. t' = log_sent ps t)"
  shows "wp (send_network f s) (\<lambda>(_, s'). apdu_inv (apdu_state s'))"
  using assms(1) by (auto simp: send_network_def intro!: assms(2) [THEN wp_mono])

lemma network_control_kept:
  assumes "apdu_inv (apdu_state s)"
    and "0 \<le> offset" "offset \<le> int (length pdu)"
  shows "wp (network_control_handler env src nd pdu offset s) (\<lambda>(_, s'). apdu_inv (apdu_state s'))"
proof -
  have r: "nat (offset + j) < length pdu \<and> \<not> offset + j < 0"
    if "j + 1 \<le> (int (length pdu) - offset) mod 65536" "0 \<le> offset" "offset \<le> int (length pdu)" "0 \<le> j" for j
    using that zmod_le_nonneg_dividend [of "int (length pdu) - offset" 65536] by linarith
  show ?thesis
    using assms r [of 0] r [of 1] r [of 2]
    by (auto simp: network_control_handler_def Let_def rd_at_def decode_unsigned16_def
        intro!: send_network_kept [THEN wp_mono] send_network_kept network_number_sent network_reject_sent
        split: if_splits)
qed

text \<open>
  The two kinds of PDU the stack does not handle under all circumstances. A network layer message for
  this device whose header the decoder refuses: the handler forms a pointer in front of the buffer. And
  a segment of a request: it must be possible to allocate the buffer for it.
\<close>

definition header_of :: "BACNET_ADDRESS \<Rightarrow> bytes \<Rightarrow> int \<times> BACNET_ADDRESS \<times> BACNET_NPDU_DATA" where
  "header_of src pdu =
     (case bacnet_npdu_decode pdu (length pdu) (Some zero_address) (Some src) zero_npdu_data of
        None \<Rightarrow> (0, zero_address, zero_npdu_data)
      | Some (offset, dest, _, nd) \<Rightarrow> (offset, the dest, nd))"

definition refused_network_message :: "BACNET_ADDRESS \<Rightarrow> bytes \<Rightarrow> bool" where
  "refused_network_message src pdu \<longleftrightarrow>
     (case header_of src pdu of (offset, dest, nd) \<Rightarrow>
        pdu \<noteq> [] \<and> hd pdu = BACNET_PROTOCOL_VERSION \<and> offset < 0 \<and> network_layer_message nd \<and>
        (net dest = 0 \<or> net dest = BACNET_BROADCAST_NETWORK))"

definition carries_segment :: "BACNET_ADDRESS \<Rightarrow> bytes \<Rightarrow> bool" where
  "carries_segment src pdu \<longleftrightarrow>
     (case header_of src pdu of (offset, _, nd) \<Rightarrow>
        \<not> network_layer_message nd \<and> 0 < offset \<and> is_segment (drop (nat offset) pdu))"

lemma refused_undefined: "refused_network_message src pdu \<Longrightarrow> npdu_handler env src pdu s = None"
  by (auto simp: refused_network_message_def header_of_def npdu_handler_def rd_def hd_conv_nth ensure_def Let_def
      split: option.splits)

context service_handlers
begin

lemma network_kept:
  assumes "apdu_inv (apdu_state s)" "peer_ok src" "\<not> refused_network_message src pdu"
    and "carries_segment src pdu \<longrightarrow> memory_available (tsm_env env)"
  shows "wp (npdu_handler env src pdu s) (\<lambda>(_, s'). apdu_inv (apdu_state s'))"
proof (cases "pdu \<noteq> [] \<and> hd pdu = BACNET_PROTOCOL_VERSION")
  case True
  obtain offset dest src' nd where d: "bacnet_npdu_decode pdu (length pdu) (Some zero_address) (Some src) zero_npdu_data
        = Some (offset, dest, src', nd)" "offset = -1 \<or> 0 \<le> offset \<and> offset \<le> int (length pdu)"
      "0 < offset \<longrightarrow> peer_ok (the src')"
    using npdu_decode_peer [OF order_refl assms(2), of pdu "Some zero_address" zero_npdu_data] by (auto simp: wp_iff)
  have h: "header_of src pdu = (offset, the dest, nd)" by (simp add: header_of_def d(1))
  have a: "kept (apdu_handler env (the src') (Some (drop (nat offset) pdu)) (a\<lparr>tsm := apdu_network_priority_set p (tsm a)\<rparr>))"
    if "apdu_inv a" "0 < offset" "\<not> network_layer_message nd" for a p
    using that d(3) assms(4) h
    by (intro apdu_kept) (auto simp: apdu_inv_def apdu_network_priority_set_def carries_segment_def)
  show ?thesis
    using True assms(1,3) d h
    by (auto simp: npdu_handler_def rd_def hd_conv_nth Let_def refused_network_message_def
        intro!: network_control_kept a [THEN wp_mono])
next
  case False
  then show ?thesis using assms(1) by (cases pdu) (auto simp: npdu_handler_def rd_def)
qed

end

text \<open>
  C3. Network PDUs, however malformed. A network layer message whose header the decoder refuses makes
  the handler form a pointer in front of the buffer, which is undefined. Every other PDU is handled
  without a read or write outside a buffer, a NULL dereference or an endless loop, and leaves the
  state of the stack in order: transactions, tables of handlers, state of communication and password.
  This holds whether or not allocations succeed, but for a segment of a request, which needs memory:
  the result of the allocation of its buffer is not tested. The registered handlers are asked to be
  defined and to keep the state in order, the data link to give an address of the declared size.
\<close>

theorem network_pdu_handled:
  assumes "service_handlers env" "apdu_inv (apdu_state s)" "peer_ok src"
  shows "(refused_network_message src pdu \<longrightarrow> npdu_handler env src pdu s = None) \<and>
    (\<not> refused_network_message src pdu \<and> (carries_segment src pdu \<longrightarrow> memory_available (tsm_env env)) \<longrightarrow>
      (\<exists>src' s'. npdu_handler env src pdu s = Some (src', s') \<and> apdu_inv (apdu_state s')))"
  using refused_undefined [of src pdu env s] service_handlers.network_kept [OF assms, of pdu] by (auto simp: wp_iff)

text \<open>A Network-Number-Is message, and the same behind a source address that is cut off.\<close>

theorem network_pdu_handled_witness:
  "(\<exists>src' s'. npdu_handler (server_env quiet_env no_password) zero_address [1, 0x80, 0x13, 0, 5]
      \<lparr>apdu_state = server_start 2 2, Local_Network_Number = 0, Local_Network_Number_Status = 0\<rparr> = Some (src', s') \<and>
      apdu_inv (apdu_state s')) \<and>
   npdu_handler (server_env quiet_env no_password) zero_address [1, 0x88, 0, 5, 1]
      \<lparr>apdu_state = server_start 2 2, Local_Network_Number = 0, Local_Network_Number_Status = 0\<rparr> = None"
proof -
  let ?s = "\<lparr>apdu_state = server_start 2 2, Local_Network_Number = 0, Local_Network_Number_Status = 0\<rparr>"
  have "peer_ok zero_address" by (simp add: peer_ok_def zero_address_def wf_address_def)
  note h = network_pdu_handled [OF server.service_handlers_axioms [of quiet_env no_password], of ?s zero_address, OF _ this]
  have "\<not> refused_network_message zero_address [1, 0x80, 0x13, 0, 5]" "\<not> carries_segment zero_address [1, 0x80, 0x13, 0, 5]"
      "refused_network_message zero_address [1, 0x88, 0, 5, 1]"
    by code_simp+
  with h [of "[1, 0x80, 0x13, 0, 5]"] h [of "[1, 0x88, 0, 5, 1]"] show ?thesis by (simp add: server_start_inv)
qed

section \<open>Unsegmented requests\<close>

definition plain_request :: "u8 \<Rightarrow> u8 \<Rightarrow> u8 \<Rightarrow> BACNET_CONFIRMED_SERVICE_DATA" where
  "plain_request prio cap iid = zero_service_data\<lparr>max_segs := decode_max_segs cap, max_resp := decode_max_apdu cap,
     invoke_id := iid, service_priority := prio\<rparr>"

lemma decode_plain:
  assumes "4 + length body \<le> MAX_APDU"
  shows "apdu_decode_confirmed_service_request prio ([0, cap, iid, choice] @ body)
      (length ([0, cap, iid, choice] @ body)) zero_service_data c0 r0 =
    Some (4, plain_request prio cap iid, choice, if body = [] then None else Some body)"
  using assms
  by (cases body) (auto simp: apdu_decode_confirmed_service_request_def plain_request_def zero_service_data_def
      Let_def read_at_def)

definition no_transaction :: "BACNET_ADDRESS \<Rightarrow> u8 \<Rightarrow> APDU \<Rightarrow> bool" where
  "no_transaction src iid s \<longleftrightarrow> (\<forall>p \<in> set (TSM_Peer_Ids (tsm s)). \<not> peer_matches src iid p)"

lemma no_peer_found: "no_transaction src iid s \<Longrightarrow> tsm_get_peer_id_data src iid False (tsm s) = Some (None, tsm s)"
  by (simp add: no_transaction_def tsm_get_peer_id_data_def Let_def find_index_less)

lemma plain_request_dispatched:
  assumes "no_transaction src iid s" "4 + length body \<le> MAX_APDU"
  shows "apdu_handler env src (Some ([0, cap, iid, choice] @ body)) s =
    invoke_confirmed_service_service_request env src (plain_request (apdu_network_priority (tsm s)) cap iid) choice
      (if body = [] then None else Some body) s"
proof -
  have "invoke_id (plain_request prio cap iid) = iid" for prio by (simp add: plain_request_def)
  then show ?thesis
    using assms decode_plain [OF assms(2), of "apdu_network_priority (tsm s)" cap iid choice 0 None]
    by (simp add: apdu_handler_def apdu_handler_confirmed_service_def check_unexpected_pdu_received_def
        no_peer_found)
qed

section \<open>DeviceCommunicationControl\<close>

definition password_accepted :: "BACNET_CHARACTER_STRING \<Rightarrow> APDU \<Rightarrow> bool" where
  "password_accepted p s \<longleftrightarrow> hd (My_Password s) = 0 \<or>
     encoding p = CHARACTER_ANSI_X34 \<and>
     takeWhile (\<lambda>c. c \<noteq> 0) (My_Password s) = take (char_length p) (char_value p)"

lemma ansi_same_received:
  assumes "wf_charstring p" "0 \<in> set a"
  shows "characterstring_ansi_same (Some (received_chars p)) (Some a) =
    Some (encoding p = 0 \<and> takeWhile (\<lambda>c. c \<noteq> 0) a = take (char_length p) (char_value p))"
proof -
  let ?w = "takeWhile (\<lambda>c. c \<noteq> 0) a"
  have "take (length ?w) a = ?w" by (rule takeWhile_eq_take [symmetric])
  moreover have "char_length p \<le> MAX_CHARACTER_STRING_BYTES" "length (take (char_length p) (char_value p)) = char_length p"
    using assms(1) by (simp_all add: wf_charstring_def max_string)
  ultimately show ?thesis
    using assms(2)
    by (auto simp: characterstring_ansi_same_def strlen_def received_chars_def)
qed

lemma dcc_body_short: "4 + length (dcc_apdu_encode t e p) \<le> MAX_APDU" "dcc_apdu_encode t e p \<noteq> []"
proof -
  have tag: "length (encode_tag n c l) \<le> 7" for n c l
    by (simp add: encode_tag_def number_octets_def encode_unsigned16_def encode_unsigned32_def)
  have n: "length (encode_context_unsigned 0 v) \<le> 15" "length (encode_context_enumerated 1 w) \<le> 15" for v w
    using bacnet_unsigned_length_range [of v] bacnet_unsigned_length_range [of "ucast w"]
      tag [of 0 True "of_nat (bacnet_unsigned_length v)"]
      tag [of 1 True "of_nat (bacnet_unsigned_length (ucast w))"]
    by (auto simp: encode_context_unsigned_def encode_context_enumerated_def content_lengths)
  have s: "length (encode_context_character_string 2 q) \<le> 28" if "char_length q \<le> 20" for q
    using that tag [of 2 True "of_nat (1 + characterstring_length (Some q))"]
    by (auto simp: encode_context_character_string_def encode_bacnet_character_string_def characterstring_length_def)
  have "length (dcc_apdu_encode t e p) \<le> 15 + (15 + 28)"
    unfolding dcc_apdu_encode_def length_append
    by (intro add_mono) (auto simp: n s split: option.split)
  then show "4 + length (dcc_apdu_encode t e p) \<le> MAX_APDU" by (simp add: MAX_APDU_def)
  show "dcc_apdu_encode t e p \<noteq> []" by (simp add: dcc_apdu_encode_def encode_context_enumerated_def)
qed

text \<open>What the handler does with a request: the reply and the state of communication.\<close>

definition dcc_outcome :: "u8 \<Rightarrow> u16 \<Rightarrow> u32 \<Rightarrow> BACNET_CHARACTER_STRING \<Rightarrow> APDU \<Rightarrow> bytes \<times> DCC" where
  "dcc_outcome iid t e p s =
     (if e = 1 then (bacerror_encode_apdu iid 17 ERROR_CLASS_SERVICES ERROR_CODE_SERVICE_REQUEST_DENIED, dcc s)
      else if 3 \<le> e then (reject_encode_apdu iid (of_int REJECT_REASON_UNDEFINED_ENUMERATION), dcc s)
      else if password_accepted p s then
        (encode_simple_ack iid 17,
         \<lparr>DCC_Time_Duration_Seconds = (if e = 0 then 0 else ucast t * 60), DCC_Enable_Disable = unat e\<rparr>)
      else (bacerror_encode_apdu iid 17 ERROR_CLASS_SECURITY ERROR_CODE_PASSWORD_FAILURE, dcc s))"

lemma dcc_reply_outcome:
  assumes "apdu_inv s" "password_ok p"
  shows "dcc_reply p0 (dcc_apdu_encode t e (Some p)) iid s = Some (dcc_outcome iid t e p s)"
proof -
  have pw: "My_Password s \<noteq> []" "0 \<in> set (My_Password s)" "wf_charstring p"
    using assms by (auto simp: apdu_inv_def password_ok_def)
  have e: "unat e = Suc 0 \<longleftrightarrow> e = 1" "3 \<le> unat e \<longleftrightarrow> 3 \<le> e" "unat e = 0 \<longleftrightarrow> e = 0"
    "unat e < 3 \<longleftrightarrow> \<not> 3 \<le> e"
    by (metis One_nat_def unsigned_1 unsigned_word_eqI, simp_all add: word_le_nat_alt unat_eq_zero not_le)
  show ?thesis
    using dcc_roundtrip [of "Some p" p0 t e 0 0] assms(2) dcc_body_short(2) [of t e "Some p"]
    by (simp add: dcc_reply_def dcc_outcome_def e pw(1) ansi_same_received pw password_accepted_def
        hd_conv_nth dcc_set_status_duration_def del: not_le)
qed

text \<open>
  C17. A DeviceCommunicationControl request is served from the PDU to the reply, whatever the state of
  communication is, and the sender gets exactly one reply. A request to enable (0) or to disable
  initiation (2) with the password of the device (any password, when the device has none) is
  acknowledged, and sets the state of communication and the duration that are requested. Every other
  request changes nothing: with a wrong password it is answered with an Error, password failure; the
  deprecated request to disable (1), whatever its password, with an Error, service request denied; and
  a number that is no state (3 or more) with a Reject, undefined enumeration, where the comment of the
  handler announces an Abort.
\<close>

theorem dcc_request_served:
  assumes "apdu_inv s" "Confirmed_Function s ! 17 = Some 1" "no_transaction src iid s" "password_ok p"
  shows "apdu_handler (server_env env p0) src (Some (dcc_encode_apdu iid t e (Some p))) s =
    (case dcc_outcome iid t e p s of (out, d) \<Rightarrow>
       Some (wire_address src, s\<lparr>dcc := d,
         tsm := log_sent [reply_pdu env src (apdu_network_priority (tsm s)) out] (tsm s)\<rparr>))"
proof -
  let ?cap = "encode_max_segs_max_apdu 0 (int MAX_APDU)" and ?body = "dcc_apdu_encode t e (Some p)"
  have pdu: "dcc_encode_apdu iid t e (Some p) = [0, ?cap, iid, 17] @ ?body" by (simp add: dcc_encode_apdu_def)
  have open17: "\<not> apdu_confirmed_dcc_disabled 17 d" for d by (simp add: apdu_confirmed_dcc_disabled_def)
  obtain out d where o: "dcc_outcome iid t e p s = (out, d)" by fastforce
  have "wp (dcc_reply p0 ?body iid s) (\<lambda>(bs, d). length bs \<le> MAX_APDU \<and> apdu_inv (s\<lparr>dcc := d\<rparr>))"
    by (rule dcc_reply_defined [OF assms(1)])
  then have "length out \<le> MAX_APDU" by (simp add: dcc_reply_outcome [OF assms(1,4)] o)
  then show ?thesis
    unfolding pdu plain_request_dispatched [OF assms(3) dcc_body_short(1)]
    using assms(2) dcc_body_short(2) [of t e "Some p"]
    by (simp add: invoke_confirmed_service_service_request_def open17 invoke_def server_env_def o
        MAX_BACNET_CONFIRMED_SERVICE_def handler_device_communication_control_def request_bytes_def
        dcc_reply_outcome [OF assms(1,4)] reply_eq plain_request_def)
qed

definition filister :: BACNET_CHARACTER_STRING where
  "filister = \<lparr>char_length = 8, encoding = 0,
     char_value = [0x66, 0x69, 0x6C, 0x69, 0x73, 0x74, 0x65, 0x72] @ replicate (MAX_CHARACTER_STRING_BYTES - 8) 0\<rparr>"

lemma filister_accepted: "password_ok filister" "password_accepted filister (server_start n p)"
  by (simp_all add: filister_def password_ok_def wf_charstring_def max_string password_accepted_def
      initial_password_def takeWhile_append2)

theorem dcc_request_served_witness:
  "\<exists>s'. apdu_handler (server_env quiet_env no_password) zero_address
      (Some (dcc_encode_apdu 7 5 2 (Some filister))) (server_start 2 2) = Some (wire_address zero_address, s') \<and>
    dcc s' = \<lparr>DCC_Time_Duration_Seconds = 300, DCC_Enable_Disable = 2\<rparr>"
proof -
  have "no_transaction zero_address 7 (server_start 2 2)"
    using fresh_table_room [of 2 2 "tsm_start 2 2"] by (simp add: no_transaction_def)
  from dcc_request_served [OF server_start_inv _ this filister_accepted(1), of quiet_env no_password 5 2]
  show ?thesis by (simp add: dcc_outcome_def filister_accepted(2))
qed

lemma timer_stopped: "DCC_Time_Duration_Seconds d = 0 \<Longrightarrow> fold dcc_timer_seconds ticks d = d"
  by (induction ticks) (simp_all add: dcc_timer_seconds_def)

lemma timer_runs:
  assumes "0 < DCC_Time_Duration_Seconds d"
  shows "if (\<Sum>x \<leftarrow> ticks. unat x) < unat (DCC_Time_Duration_Seconds d) then
      DCC_Enable_Disable (fold dcc_timer_seconds ticks d) = DCC_Enable_Disable d \<and>
      unat (DCC_Time_Duration_Seconds (fold dcc_timer_seconds ticks d)) =
        unat (DCC_Time_Duration_Seconds d) - (\<Sum>x \<leftarrow> ticks. unat x)
    else fold dcc_timer_seconds ticks d =
      \<lparr>DCC_Time_Duration_Seconds = 0, DCC_Enable_Disable = COMMUNICATION_ENABLE\<rparr>"
  using assms
proof (induction ticks arbitrary: d)
  case Nil
  then show ?case by (simp add: word_less_nat_alt)
next
  case (Cons x ticks)
  show ?case
  proof (cases "x < DCC_Time_Duration_Seconds d")
    case True
    then have u: "unat (DCC_Time_Duration_Seconds d - x) = unat (DCC_Time_Duration_Seconds d) - unat x"
      by (simp add: unat_sub)
    with True have "0 < DCC_Time_Duration_Seconds d - x" by (simp add: word_less_nat_alt)
    note u = u this
    then have t: "dcc_timer_seconds x d = d\<lparr>DCC_Time_Duration_Seconds := DCC_Time_Duration_Seconds d - x\<rparr>"
      using True Cons.prems by (auto simp: dcc_timer_seconds_def Let_def)
    show ?thesis
      using Cons.IH [of "dcc_timer_seconds x d"] u
      by (simp add: t less_diff_conv add.commute [of "unat x"] split: if_splits)
  next
    case False
    then have t: "dcc_timer_seconds x d = \<lparr>DCC_Time_Duration_Seconds = 0, DCC_Enable_Disable = COMMUNICATION_ENABLE\<rparr>"
      using Cons.prems by (cases d) (auto simp: dcc_timer_seconds_def Let_def)
    with False show ?thesis by (simp add: timer_stopped word_less_nat_alt)
  qed
qed

text \<open>
  Communication that was disabled for a number of minutes is enabled again as soon as the seconds
  reported to the timer add up to that time, in whatever portions, and not before; with a duration
  of zero it stays disabled.
\<close>

lemma communication_returns:
  assumes "status \<in> {COMMUNICATION_DISABLE, COMMUNICATION_DISABLE_INITIATION}"
    and "d = fold dcc_timer_seconds ticks (snd (dcc_set_status_duration status minutes d0))"
  shows "(dcc_communication_enabled d \<longleftrightarrow> minutes \<noteq> 0 \<and> 60 * unat minutes \<le> (\<Sum>x \<leftarrow> ticks. unat x)) \<and>
    (\<not> dcc_communication_enabled d \<longrightarrow> dcc_enable_status d = status \<and>
       unat (dcc_duration_seconds d) = 60 * unat minutes - (\<Sum>x \<leftarrow> ticks. unat x))"
proof (cases "minutes = 0")
  case True
  with assms show ?thesis
    by (auto simp: dcc_set_status_duration_def timer_stopped dcc_communication_enabled_def dcc_enable_status_def
        dcc_duration_seconds_def)
next
  case False
  have u: "unat (ucast minutes * 60 :: u32) = 60 * unat minutes"
    using unat_bounds(2) [of minutes]
    by (simp add: unat_word_ariths unsigned_ucast_eq take_bit_nat_eq_self)
  moreover have "0 < unat minutes" using False by (simp add: unat_gt_0)
  ultimately have "0 < (ucast minutes * 60 :: u32)" by (simp add: word_less_nat_alt)
  then show ?thesis
    using timer_runs [of "\<lparr>DCC_Time_Duration_Seconds = ucast minutes * 60, DCC_Enable_Disable = status\<rparr>" ticks]
      assms u False
    by (auto simp: dcc_set_status_duration_def dcc_communication_enabled_def dcc_enable_status_def
        dcc_duration_seconds_def split: if_splits)
qed

lemma communication_returns_witness:
  "dcc_communication_enabled (fold dcc_timer_seconds [100, 100, 100]
     (snd (dcc_set_status_duration 2 5 \<lparr>DCC_Time_Duration_Seconds = 0, DCC_Enable_Disable = 0\<rparr>)))"
  using communication_returns [OF _ refl, of 2 "[100, 100, 100]" 5
      "\<lparr>DCC_Time_Duration_Seconds = 0, DCC_Enable_Disable = 0\<rparr>"] by simp

text \<open>
  C38. While only the initiation of communication is disabled, when requests should still be answered,
  the dispatch drops every confirmed request except those of six services, without a reply and
  without a change of the state. Three of the six, AtomicWriteFile, AddListElement and
  ReadProperty, pass because their numbers are those of WhoHas, WhoIs and UnconfirmedAuditNotification.
\<close>

theorem initiation_disabled_drops_requests:
  assumes "dcc_communication_initiation_disabled (dcc s)" "no_transaction src iid s" "4 + length body \<le> MAX_APDU"
  shows "apdu_handler env src (Some ([0, cap, iid, choice] @ body)) s =
    (if choice \<in> {SERVICE_CONFIRMED_ATOMIC_WRITE_FILE, SERVICE_CONFIRMED_ADD_LIST_ELEMENT,
          SERVICE_CONFIRMED_READ_PROPERTY, SERVICE_CONFIRMED_DEVICE_COMMUNICATION_CONTROL,
          SERVICE_CONFIRMED_REINITIALIZE_DEVICE, SERVICE_CONFIRMED_AUDIT_NOTIFICATION}
     then invoke (if Confirmed_Function s ! unat choice \<noteq> None then Confirmed_Function s ! unat choice
                  else Unrecognized_Service_Handler s)
            (\<lambda>f. call_confirmed env f (if body = [] then None else Some body) src
               (plain_request (apdu_network_priority (tsm s)) cap iid) s) src s
     else Some (src, s))"
proof -
  have "apdu_confirmed_dcc_disabled choice (dcc s) \<longleftrightarrow> choice \<notin> {7, 8, 12, 17, 20, 32}"
    using assms(1)
    by (auto simp: apdu_confirmed_dcc_disabled_def dcc_communication_initiation_disabled_def
        dcc_communication_disabled_def)
  then show ?thesis
    unfolding plain_request_dispatched [OF assms(2,3)]
    by (auto simp: invoke_confirmed_service_service_request_def MAX_BACNET_CONFIRMED_SERVICE_def)
qed

theorem initiation_disabled_drops_requests_witness:
  "apdu_handler (server_env quiet_env no_password) zero_address (Some ([0, 5, 7, 14] @ [1, 2]))
     (server_start 2 2\<lparr>dcc := \<lparr>DCC_Time_Duration_Seconds = 0, DCC_Enable_Disable = 2\<rparr>\<rparr>) =
   Some (zero_address, server_start 2 2\<lparr>dcc := \<lparr>DCC_Time_Duration_Seconds = 0, DCC_Enable_Disable = 2\<rparr>\<rparr>)"
proof -
  let ?s = "server_start 2 2\<lparr>dcc := \<lparr>DCC_Time_Duration_Seconds = 0, DCC_Enable_Disable = 2\<rparr>\<rparr>"
  have "dcc_communication_initiation_disabled (dcc ?s)" by (simp add: dcc_communication_initiation_disabled_def)
  moreover have "no_transaction zero_address 7 ?s"
    using fresh_table_room [of 2 2 "tsm_start 2 2"] by (simp add: no_transaction_def)
  moreover have "4 + length [1, 2 :: u8] \<le> MAX_APDU" by (simp add: MAX_APDU_def)
  ultimately show ?thesis
    using initiation_disabled_drops_requests [of ?s zero_address 7 "[1, 2]" _ 5 14] by simp
qed

section \<open>Aborts\<close>

lemma next_id_silent: "invoke_ids_ok s \<Longrightarrow> wp (tsm_next_free_invokeID s) (\<lambda>(_, s'). sent s' = sent s)"
  using next_free_invokeID_room [of s] next_free_invokeID_full [of s]
  by (cases "free_slots s = 0") (auto simp: reserve_slot_def)

lemma free_silent [simp]: "sent (tsm_free_invoke_id_check iid a c s) = sent s"
  by (simp add: tsm_free_invoke_id_check_def tsm_clear_peer_id_def Let_def)

lemma free_segmentation_silent:
  assumes "tsm_inv s"
  shows "wp (tsm_free_invoke_id_segmentation src iid s) (\<lambda>s'. sent s' = sent s)"
proof -
  have n: "wp (tsm_next_free_invokeID (upd_peer s i f)) (\<lambda>(_, s'). sent s' = sent s)" for i f
    using next_id_silent [of "upd_peer s i f"] tsm_inv_ids [of "upd_peer s i f"] assms by simp
  show ?thesis
    by (auto simp: tsm_free_invoke_id_segmentation_def tsm_get_peer_id_def tsm_get_peer_id_data_def Let_def
        intro!: n [THEN wp_mono] split: option.splits)
qed

text \<open>
  C39. An Abort PDU sent by a server is answered with the same Abort PDU: the APDU sent back is the
  APDU received. Two stacks that receive an Abort of each other exchange it for ever.
\<close>

theorem abort_echoed:
  assumes "apdu_inv s"
  shows "\<exists>src' s'. apdu_handler env src (Some (abort_encode_apdu iid reason True)) s = Some (src', s') \<and>
    sent (tsm s') = sent (tsm s) @ [short_pdu (tsm_env env) src (abort_encode_apdu iid reason True)]"
proof -
  let ?t = "log_sent [short_pdu (tsm_env env) src (abort_encode_apdu iid reason True)] (tsm s)"
  have "tsm_inv ?t" using assms by simp
  from wp_D [OF free_segmentation_silent [OF this, of "wire_address src" iid]]
  obtain t' where "tsm_free_invoke_id_segmentation (wire_address src) iid ?t = Some t'" "sent t' = sent ?t" by blast
  then show ?thesis
    by (auto simp: apdu_handler_def abort_encode_apdu_def handle_abort_def Let_def lift_tsm_def free_segmentation_def)
qed

theorem abort_echoed_witness:
  "\<exists>src' s'. apdu_handler (server_env quiet_env no_password) zero_address (Some [0x71, 7, 4]) (server_start 2 2) =
      Some (src', s') \<and> sent (tsm s') = [short_pdu quiet_env zero_address [0x71, 7, 4]]"
proof -
  have "sent (tsm_start 2 2) = []" by (simp add: tsm_start_def)
  then show ?thesis
    using abort_echoed [OF server_start_inv [of 2 2], of "server_env quiet_env no_password" zero_address 7 4]
    by (simp add: abort_encode_apdu_def server_env_def)
qed

end
