(* ===== verification/Bac_Discovery.thy ===== *)
theory Bac_Discovery
  imports Bac_Binding Bac_Dispatch
begin

text \<open>
  Device discovery: the services Who-Is (\<^verbatim>\<open>src/bacnet/whois.c\<close>) and I-Am (\<^verbatim>\<open>src/bacnet/iam.c\<close>), their
  handlers \<^verbatim>\<open>h_whois.c\<close> and \<^verbatim>\<open>h_iam.c\<close>, the sender \<^verbatim>\<open>s_iam.c\<close> (\<^verbatim>\<open>src/bacnet/basic/service\<close>), and what
  they read of the device object. A handler of I-Am works on the address cache. Shown here: a device
  that is asked for answers, and its answer binds it to its address.
\<close>

section \<open>The device\<close>

text \<open>The part of the device object that discovery reads, in the build without routing.\<close>

record DEVICE =
  Object_Instance_Number :: u32
  Vendor_Identifier :: u16
  Database_Revision :: u32

definition Device_Object_Instance_Number :: "DEVICE \<Rightarrow> u32" where
  "Device_Object_Instance_Number dev = Object_Instance_Number dev"

definition Device_Database_Revision :: "DEVICE \<Rightarrow> u32" where
  "Device_Database_Revision dev = Database_Revision dev"

definition Device_Set_Database_Revision :: "u32 \<Rightarrow> DEVICE \<Rightarrow> DEVICE" where
  "Device_Set_Database_Revision revision dev = dev\<lparr>Database_Revision := revision\<rparr>"

definition Device_Inc_Database_Revision :: "DEVICE \<Rightarrow> DEVICE" where
  "Device_Inc_Database_Revision dev = dev\<lparr>Database_Revision := Database_Revision dev + 1\<rparr>"

definition Device_Set_Object_Instance_Number :: "u32 \<Rightarrow> DEVICE \<Rightarrow> bool \<times> DEVICE" where
  "Device_Set_Object_Instance_Number object_id dev =
     (if object_id \<le> BACNET_MAX_INSTANCE
      then (True, Device_Inc_Database_Revision (dev\<lparr>Object_Instance_Number := object_id\<rparr>))
      else (False, dev))"

definition Device_Vendor_Identifier :: "DEVICE \<Rightarrow> u16" where
  "Device_Vendor_Identifier dev = Vendor_Identifier dev"

definition Device_Set_Vendor_Identifier :: "u16 \<Rightarrow> DEVICE \<Rightarrow> DEVICE" where
  "Device_Set_Vendor_Identifier vendor dev = dev\<lparr>Vendor_Identifier := vendor\<rparr>"

section \<open>Who-Is\<close>

definition whois_request_encode :: "int \<Rightarrow> int \<Rightarrow> bytes" where
  "whois_request_encode low_limit high_limit =
     (if low_limit \<ge> 0 \<and> low_limit \<le> uint BACNET_MAX_INSTANCE \<and>
         high_limit \<ge> 0 \<and> high_limit \<le> uint BACNET_MAX_INSTANCE
      then encode_context_unsigned 0 (of_int low_limit) @ encode_context_unsigned 1 (of_int high_limit)
      else [])"

abbreviation (input) SERVICE_UNCONFIRMED_I_AM :: u8 where "SERVICE_UNCONFIRMED_I_AM \<equiv> 0"

definition whois_encode_apdu :: "int \<Rightarrow> int \<Rightarrow> bytes" where
  "whois_encode_apdu low_limit high_limit =
     [PDU_TYPE_UNCONFIRMED_SERVICE_REQUEST, SERVICE_UNCONFIRMED_WHO_IS] @ whois_request_encode low_limit high_limit"

text \<open>One of the two limits: the length, or the negative status to return, and the value.\<close>

definition whois_decode_limit :: "u8 \<Rightarrow> bytes \<Rightarrow> (int \<times> int) option" where
  "whois_decode_limit number apdu = do {
     (len, v) \<leftarrow> bacnet_unsigned_context_decode number apdu;
     let value = (case v of None \<Rightarrow> 0 | Some x \<Rightarrow> x);
     if len > 0 \<and> uint value \<le> uint BACNET_MAX_INSTANCE then Some (len, uint value)
     else Some (BACNET_STATUS_ERROR, 0) }"

definition whois_decode_service_request :: "bytes \<Rightarrow> int \<Rightarrow> int \<Rightarrow> (int \<times> int \<times> int) option" where
  "whois_decode_service_request apdu low high =
     (if length apdu > 0 then do {
        (len, low') \<leftarrow> whois_decode_limit 0 apdu;
        if len < 0 then Some (BACNET_STATUS_ERROR, low, high)
        else do {
          (n, high') \<leftarrow> whois_decode_limit 1 (drop (nat len) apdu);
          Some (if n < 0 then (BACNET_STATUS_ERROR, low', high) else (len + n, low', high')) } }
      else Some (0, -1, -1))"

section \<open>I-Am\<close>

abbreviation (input) OBJECT_DEVICE :: u32 where "OBJECT_DEVICE \<equiv> 8"
abbreviation (input) MAX_BACNET_SEGMENTATION :: u32 where "MAX_BACNET_SEGMENTATION \<equiv> 4"

definition bacnet_iam_request_encode :: "u32 \<Rightarrow> u32 \<Rightarrow> u32 \<Rightarrow> u16 \<Rightarrow> bytes" where
  "bacnet_iam_request_encode dev_id max_apdu seg vendor =
     encode_application_object_id OBJECT_DEVICE dev_id @ encode_application_unsigned (ucast max_apdu) @
     encode_application_enumerated seg @ encode_application_unsigned (ucast vendor)"

definition bacnet_iam_service_request_encode :: "nat \<Rightarrow> u32 \<Rightarrow> u32 \<Rightarrow> u32 \<Rightarrow> u16 \<Rightarrow> bytes" where
  "bacnet_iam_service_request_encode apdu_size dev_id max_apdu seg vendor =
     bounded apdu_size (bacnet_iam_request_encode dev_id max_apdu seg vendor)"

definition iam_encode_apdu :: "u32 \<Rightarrow> u32 \<Rightarrow> u32 \<Rightarrow> u16 \<Rightarrow> bytes" where
  "iam_encode_apdu dev_id max_apdu seg vendor =
     [PDU_TYPE_UNCONFIRMED_SERVICE_REQUEST, SERVICE_UNCONFIRMED_I_AM] @
     bacnet_iam_request_encode dev_id max_apdu seg vendor"

text \<open>
  The decoder reads four values in a row and returns at the first that is missing or out of range;
  the results keep what the caller put there, here zero, as far as they are not decoded.
\<close>

record IAM =
  iam_device_id :: u32
  iam_max_apdu :: u32
  iam_segmentation :: u32
  iam_vendor_id :: u16

definition zero_iam :: IAM where
  "zero_iam = \<lparr>iam_device_id = 0, iam_max_apdu = 0, iam_segmentation = 0, iam_vendor_id = 0\<rparr>"

definition iam_decode_vendor :: "int \<Rightarrow> IAM \<Rightarrow> bytes \<Rightarrow> (int \<times> IAM) option" where
  "iam_decode_vendor apdu_len m apdu = do {
     (len, v) \<leftarrow> bacnet_unsigned_application_decode (drop (nat apdu_len) apdu);
     let value = (case v of None \<Rightarrow> 0 | Some x \<Rightarrow> x);
     if len \<le> 0 \<or> value > 0xFFFF then Some (BACNET_STATUS_ERROR, m)
     else Some (apdu_len + len, m\<lparr>iam_vendor_id := ucast value\<rparr>) }"

definition iam_decode_segmentation :: "int \<Rightarrow> IAM \<Rightarrow> bytes \<Rightarrow> (int \<times> IAM) option" where
  "iam_decode_segmentation apdu_len m apdu = do {
     (len, v) \<leftarrow> bacnet_enumerated_application_decode (drop (nat apdu_len) apdu);
     let value = (case v of None \<Rightarrow> 0 | Some x \<Rightarrow> x);
     if len \<le> 0 \<or> value \<ge> MAX_BACNET_SEGMENTATION then Some (BACNET_STATUS_ERROR, m)
     else iam_decode_vendor (apdu_len + len) (m\<lparr>iam_segmentation := value\<rparr>) apdu }"

definition iam_decode_max_apdu :: "int \<Rightarrow> IAM \<Rightarrow> bytes \<Rightarrow> (int \<times> IAM) option" where
  "iam_decode_max_apdu apdu_len m apdu = do {
     (len, v) \<leftarrow> bacnet_unsigned_application_decode (drop (nat apdu_len) apdu);
     if len \<le> 0 then Some (BACNET_STATUS_ERROR, m)
     else iam_decode_segmentation (apdu_len + len)
            (m\<lparr>iam_max_apdu := ucast (case v of None \<Rightarrow> 0 | Some x \<Rightarrow> x)\<rparr>) apdu }"

definition bacnet_iam_request_decode :: "bytes \<Rightarrow> (int \<times> IAM) option" where
  "bacnet_iam_request_decode apdu = do {
     (len, v) \<leftarrow> bacnet_object_id_application_decode apdu;
     let (object_type, object_instance) = (case v of None \<Rightarrow> (0xFFFF, 0) | Some x \<Rightarrow> x);
     if len \<le> 0 \<or> object_type \<noteq> OBJECT_DEVICE then Some (BACNET_STATUS_ERROR, zero_iam)
     else iam_decode_max_apdu len (zero_iam\<lparr>iam_device_id := object_instance\<rparr>) apdu }"

section \<open>Sending I-Am\<close>

text \<open>
  \<^verbatim>\<open>Device_Segmentation_Supported\<close> is \<^verbatim>\<open>SEGMENTATION_BOTH\<close> in a build with segmentation. The broadcast
  address is the one the data link reports.
\<close>

definition Device_Segmentation_Supported :: u32 where "Device_Segmentation_Supported = 0"

definition device_iam :: "DEVICE \<Rightarrow> bytes" where
  "device_iam dev = iam_encode_apdu (Device_Object_Instance_Number dev) (of_nat MAX_APDU)
     Device_Segmentation_Supported (Device_Vendor_Identifier dev)"

definition send_iam :: "TSM_ENV \<Rightarrow> BACNET_ADDRESS \<Rightarrow> bytes \<Rightarrow> APDU \<Rightarrow> APDU option" where
  "send_iam env dest apdu s = do {
     (_, t) \<leftarrow> transmit env MAX_PDU dest (npdu_encode_npdu_data False MESSAGE_PRIORITY_NORMAL) apdu (tsm s);
     Some (s\<lparr>tsm := t\<rparr>) }"

definition Send_I_Am_To_Network :: "TSM_ENV \<Rightarrow> BACNET_ADDRESS \<Rightarrow> u32 \<Rightarrow> u32 \<Rightarrow> u32 \<Rightarrow> u16 \<Rightarrow> APDU \<Rightarrow> APDU option" where
  "Send_I_Am_To_Network env target dev_id max_apdu seg vendor s =
     send_iam env target (iam_encode_apdu dev_id max_apdu seg vendor) s"

definition Send_I_Am_Broadcast :: "TSM_ENV \<Rightarrow> BACNET_ADDRESS \<Rightarrow> DEVICE \<Rightarrow> APDU \<Rightarrow> APDU option" where
  "Send_I_Am_Broadcast env bcast dev s = send_iam env bcast (device_iam dev) s"

definition Send_I_Am :: "TSM_ENV \<Rightarrow> BACNET_ADDRESS \<Rightarrow> DEVICE \<Rightarrow> APDU \<Rightarrow> APDU option" where
  "Send_I_Am env bcast dev s =
     (if dcc_communication_initiation_disabled (dcc s) then Some s
      else Send_I_Am_Broadcast env bcast dev s)"

definition Send_I_Am_Unicast :: "TSM_ENV \<Rightarrow> BACNET_ADDRESS \<Rightarrow> DEVICE \<Rightarrow> APDU \<Rightarrow> APDU option" where
  "Send_I_Am_Unicast env src dev s = send_iam env (bacnet_address_copy src src) (device_iam dev) s"

section \<open>Handlers\<close>

definition who_is_answer :: "(APDU \<Rightarrow> APDU option) \<Rightarrow> DEVICE \<Rightarrow> bytes \<Rightarrow> APDU \<Rightarrow> APDU option" where
  "who_is_answer send dev req s = do {
     (len, low_limit, high_limit) \<leftarrow> whois_decode_service_request req 0 0;
     if len = 0 then send s
     else if len \<noteq> BACNET_STATUS_ERROR then
       if Device_Object_Instance_Number dev \<ge> of_int low_limit \<and>
          Device_Object_Instance_Number dev \<le> of_int high_limit then send s
       else Some s
     else Some s }"

definition handler_who_is :: "TSM_ENV \<Rightarrow> BACNET_ADDRESS \<Rightarrow> DEVICE \<Rightarrow> bytes \<Rightarrow> APDU \<Rightarrow> APDU option" where
  "handler_who_is env bcast dev req s = who_is_answer (Send_I_Am_Broadcast env bcast dev) dev req s"

definition handler_who_is_unicast :: "TSM_ENV \<Rightarrow> BACNET_ADDRESS \<Rightarrow> DEVICE \<Rightarrow> bytes \<Rightarrow> APDU \<Rightarrow> APDU option" where
  "handler_who_is_unicast env src dev req s = who_is_answer (Send_I_Am_Unicast env src dev) dev req s"

definition handler_i_am_add :: "ADDRESS_CACHE \<Rightarrow> bytes \<Rightarrow> BACNET_ADDRESS \<Rightarrow> ADDRESS_CACHE option" where
  "handler_i_am_add c req src = do {
     (len, m) \<leftarrow> bacnet_iam_request_decode req;
     Some (if len \<noteq> -1 then address_add c (iam_device_id m) (iam_max_apdu m) src else c) }"

definition handler_i_am_bind :: "ADDRESS_CACHE \<Rightarrow> bytes \<Rightarrow> BACNET_ADDRESS \<Rightarrow> ADDRESS_CACHE option" where
  "handler_i_am_bind c req src = do {
     (len, m) \<leftarrow> bacnet_iam_request_decode req;
     Some (if len > 0 then address_add_binding c (iam_device_id m) (iam_max_apdu m) src else c) }"

section \<open>Round trips\<close>

lemma unsigned_application_roundtrip:
  "bacnet_unsigned_application_decode (encode_application_unsigned v @ rest) =
     Some (int (length (encode_application_unsigned v)), Some v)"
  using prim_unsigned.tagged_roundtrip [where matches = "application_tag 2" and number = 2 and ctx = False
      and v = v and rest = rest]
  by (simp add: bacnet_unsigned_application_decode_def encode_application_unsigned_def application_tag_def)

lemma object_id_application_roundtrip:
  "bacnet_object_id_application_decode (encode_application_object_id ty i @ rest) =
     Some (int (length (encode_application_object_id ty i)), Some (object_id_fields (ty, i)))"
  using prim_object_id.tagged_roundtrip [where matches = "application_tag 12" and number = 12 and ctx = False
      and v = "(ty, i)" and rest = rest]
  by (simp add: bacnet_object_id_application_decode_def encode_application_object_id_def application_tag_def)

lemma instance_field: "i \<le> BACNET_MAX_INSTANCE \<Longrightarrow> object_id_fields (8, i) = (8, i)"
proof -
  assume "i \<le> BACNET_MAX_INSTANCE"
  then have "unat i < 2 ^ 22" by (simp add: BACNET_MAX_INSTANCE_def word_le_nat_alt)
  then have "take_bit 22 i = i" by (intro take_bit_small) simp
  then show ?thesis
    by (simp add: object_id_fields_def object_id_masks BACNET_MAX_OBJECT_def flip: take_bit_eq_mask)
qed

lemma encode_nonempty_tags [simp]: "encode_application_unsigned v \<noteq> []"
    "encode_application_object_id ty i \<noteq> []" "encode_application_enumerated e \<noteq> []"
    "encode_context_unsigned n v \<noteq> []"
  by (simp_all add: encode_application_unsigned_def encode_application_object_id_def
      encode_application_enumerated_def encode_context_unsigned_def)

lemma widened: "unat (ucast (v :: u16) :: u64) = unat v" "ucast (ucast (v :: u16) :: u64) = v"
    "ucast (ucast (w :: u32) :: u64) = w"
  using unat_bounds(2) [of v]
  by (simp_all add: unsigned_ucast_eq take_bit_nat_eq_self) (auto intro!: bit_word_eqI simp: bit_simps)

lemma iam_roundtrip:
  assumes "d \<le> BACNET_MAX_INSTANCE" "seg < MAX_BACNET_SEGMENTATION"
  shows "bacnet_iam_request_decode (bacnet_iam_request_encode d m seg v @ rest) =
    Some (int (length (bacnet_iam_request_encode d m seg v)),
      \<lparr>iam_device_id = d, iam_max_apdu = m, iam_segmentation = seg, iam_vendor_id = v\<rparr>)"
proof -
  have "\<not> (0xFFFF :: u64) < ucast v"
    using unat_bounds(2) [of v] by (simp add: word_less_nat_alt widened)
  then show ?thesis
    using assms
    by (simp add: bacnet_iam_request_decode_def bacnet_iam_request_encode_def object_id_application_roundtrip
        instance_field iam_decode_max_apdu_def iam_decode_segmentation_def iam_decode_vendor_def
        unsigned_application_roundtrip enumerated_application_roundtrip widened not_le zero_iam_def Let_def
        flip: of_nat_add)
qed

lemma unsigned_context_roundtrip:
  "bacnet_unsigned_context_decode number (encode_context_unsigned number v @ rest) =
     Some (int (length (encode_context_unsigned number v)), Some v)"
  using prim_unsigned.tagged_roundtrip [where matches = "context_tag number" and number = number and ctx = True
      and v = v and rest = rest]
  by (simp add: bacnet_unsigned_context_decode_def encode_context_unsigned_def context_tag_def)

lemma whois_limit_roundtrip:
  assumes "0 \<le> x" "x \<le> uint BACNET_MAX_INSTANCE"
  shows "whois_decode_limit number (encode_context_unsigned number (of_int x) @ rest) =
    Some (int (length (encode_context_unsigned number (of_int x))), x)"
proof -
  have "uint (of_int x :: u64) = x"
    using assms by (simp add: uint_word_of_int BACNET_MAX_INSTANCE_def)
  then show ?thesis using assms by (simp add: whois_decode_limit_def unsigned_context_roundtrip)
qed

lemma whois_roundtrip:
  assumes "0 \<le> low" "low \<le> uint BACNET_MAX_INSTANCE" "0 \<le> high" "high \<le> uint BACNET_MAX_INSTANCE"
  shows "whois_decode_service_request (whois_request_encode low high) l0 h0 =
    Some (int (length (whois_request_encode low high)), low, high)"
    "whois_request_encode low high \<noteq> []"
  using assms whois_limit_roundtrip [where number = 1 and x = high and rest = "[]"]
  by (simp_all add: whois_decode_service_request_def whois_request_encode_def whois_limit_roundtrip)

section \<open>Discovery\<close>

lemma instance_compare:
  assumes "0 \<le> x" "x \<le> uint BACNET_MAX_INSTANCE"
  shows "(of_int x \<le> (d :: u32)) = (x \<le> uint d)" "(d \<le> of_int x) = (uint d \<le> x)"
proof -
  have "uint (of_int x :: u32) = x" using assms by (simp add: uint_word_of_int BACNET_MAX_INSTANCE_def)
  then show "(of_int x \<le> d) = (x \<le> uint d)" "(d \<le> of_int x) = (uint d \<le> x)" by (simp_all add: word_le_def)
qed

lemma who_is_answer_eq:
  assumes "0 \<le> low" "low \<le> uint BACNET_MAX_INSTANCE" "0 \<le> high" "high \<le> uint BACNET_MAX_INSTANCE"
  shows "who_is_answer send dev (whois_request_encode low high) s =
    (if low \<le> uint (Object_Instance_Number dev) \<and> uint (Object_Instance_Number dev) \<le> high then send s else Some s)"
  using assms
  by (simp add: who_is_answer_def whois_roundtrip Device_Object_Instance_Number_def instance_compare)

lemma length_device_iam: "length (device_iam dev) \<le> MAX_APDU"
proof -
  have u: "length (encode_application_unsigned v) \<le> 15" for v
    using bacnet_unsigned_length_range [of v]
    by (auto simp: encode_application_unsigned_def encode_tag_def number_octets_def)
  have e: "length (encode_application_enumerated v) \<le> 15" for v
    using bacnet_unsigned_length_range [of "ucast v"]
    by (auto simp: encode_application_enumerated_def encode_tag_def encode_bacnet_enumerated_def number_octets_def)
  have o: "length (encode_application_object_id ty i) \<le> 15" for ty i
    by (simp add: encode_application_object_id_def encode_tag_def number_octets_def)
  have "length (device_iam dev) \<le> 2 + (15 + (15 + (15 + 15)))"
    unfolding device_iam_def iam_encode_apdu_def bacnet_iam_request_encode_def length_append
    by (intro add_mono u e o) simp
  then show ?thesis by (simp add: MAX_APDU_def)
qed

lemma send_iam_eq:
  "send_iam env dest (device_iam dev) s =
     Some (s\<lparr>tsm := log_sent [reply_pdu env dest 0 (device_iam dev)] (tsm s)\<rparr>)"
proof -
  have "length (device_iam dev) + MAX_NPDU \<le> MAX_PDU"
    using length_device_iam [of dev] by (simp add: MAX_PDU_def MAX_SEGMENTS_ACCEPTED_def)
  then show ?thesis by (simp add: send_iam_def reply_pdu_def transmit_eq MESSAGE_PRIORITY_NORMAL_def Let_def)
qed

lemma iam_added:
  assumes "Object_Instance_Number dev \<le> BACNET_MAX_INSTANCE"
  shows "handler_i_am_add c (drop 2 (device_iam dev)) src =
      Some (address_add c (Object_Instance_Number dev) (of_nat MAX_APDU) src)"
  using assms iam_roundtrip [of "Object_Instance_Number dev" 0 "of_nat MAX_APDU" "Vendor_Identifier dev" "[]"]
  by (simp add: handler_i_am_add_def device_iam_def iam_encode_apdu_def
      Device_Segmentation_Supported_def Device_Object_Instance_Number_def Device_Vendor_Identifier_def)

text \<open>
  C18. Discovery binds a device to its address. Asked for the devices of a range of instance numbers, a
  device answers the asker with its I-Am when its own number is in the range, and stays silent
  otherwise; and the client that receives the service data of that I-Am, from any cache it can have
  reached with a free entry or one of this device, binds the device's instance number to the peer's
  address and the APDU size of the build, and changes no other binding.
\<close>

theorem device_discovered:
  assumes "Object_Instance_Number dev \<le> BACNET_MAX_INSTANCE" "wf_address asker" "wf_address peer"
    and "0 \<le> low" "low \<le> uint BACNET_MAX_INSTANCE" "0 \<le> high" "high \<le> uint BACNET_MAX_INSTANCE"
    and "cache_step\<^sup>*\<^sup>* (initial_cache n) c" "has_room c (Object_Instance_Number dev)"
  shows "handler_who_is_unicast env asker dev (whois_request_encode low high) s =
      Some (if low \<le> uint (Object_Instance_Number dev) \<and> uint (Object_Instance_Number dev) \<le> high
        then s\<lparr>tsm := log_sent [reply_pdu env asker 0 (device_iam dev)] (tsm s)\<rparr> else s) \<and>
    map_option binding (handler_i_am_add c (drop 2 (device_iam dev)) peer) =
      Some ((binding c)(Object_Instance_Number dev \<mapsto> (1476, peer)))"
  using assms bnd.get_put [of c "(1476, peer)" "Object_Instance_Number dev"] cache_reachable_inv [of n c]
  by (simp add: handler_who_is_unicast_def who_is_answer_eq Send_I_Am_Unicast_def send_iam_eq
      bacnet_address_copy_eq iam_added MAX_APDU_def)

definition sample_device :: DEVICE where
  "sample_device = \<lparr>Object_Instance_Number = 260001, Vendor_Identifier = 260, Database_Revision = 1\<rparr>"

theorem device_discovered_witness:
  "handler_who_is_unicast quiet_env zero_address sample_device (whois_request_encode 0 4194303) (server_start 2 2) =
     Some ((server_start 2 2)\<lparr>tsm :=
       log_sent [reply_pdu quiet_env zero_address 0 (device_iam sample_device)] (tsm (server_start 2 2))\<rparr>) \<and>
   map_option binding (handler_i_am_add (initial_cache 2) (drop 2 (device_iam sample_device)) zero_address) =
     Some ((binding (initial_cache 2))(260001 \<mapsto> (1476, zero_address)))"
  using device_discovered [of sample_device zero_address zero_address 0 4194303 2 "initial_cache 2" quiet_env
      "server_start 2 2"]
  by (simp add: sample_device_def BACNET_MAX_INSTANCE_def zero_address_def wf_address_def has_room_def
      initial_cache_def zero_entry_def for_device_def in_use_def)

end
