(* ===== verification/Bac_Keylist.thy ===== *)
theory Bac_Keylist
  imports Bac_Prelude
begin

text \<open>
  \<^verbatim>\<open>src/bacnet/basic/sys/keylist.c\<close>: the sorted array of nodes in which the objects of a device and the
  entries of their lists are kept. A list is never the NULL pointer here: with NULL every function
  returns at once. Whether \<^verbatim>\<open>calloc\<close> succeeds is a parameter of the functions that call it. Shown here:
  the binary search finds a key or the place where it belongs, and what adding and deleting do to the
  sequence of nodes.
\<close>

section \<open>State\<close>

text \<open>
  A pointer to data is an option, \<open>None\<close> for NULL, and so is a pointer to a node. \<^verbatim>\<open>size\<close> is always the
  number of pointers the array was allocated for, its length here; the list has no array at first,
  which is the empty one. An array in memory has less than \<open>2 ^ 30\<close> pointers, so indices do not
  overflow the type \<^verbatim>\<open>int\<close>.
\<close>

record 'a Keylist_Node =
  node_key :: u32
  node_data :: "'a option"

record 'a Keylist =
  array :: "'a Keylist_Node option list"
  node_count :: nat

definition KEY_ID_MASK :: u32 where "KEY_ID_MASK = 0x003FFFFF"
definition KEY_ID_MAX :: int where "KEY_ID_MAX = 0x003FFFFF + 1"

definition KEY_LAST :: "u32 \<Rightarrow> bool" where
  "KEY_LAST key = (uint (key AND KEY_ID_MASK) = KEY_ID_MAX)"

definition KEY_ENCODE :: "u32 \<Rightarrow> u32 \<Rightarrow> u32" where
  "KEY_ENCODE type instance = (push_bit 22 (type AND 0x3FF) OR (instance AND KEY_ID_MASK))"

definition KEY_DECODE_TYPE :: "u32 \<Rightarrow> u32" where
  "KEY_DECODE_TYPE key = drop_bit 22 key AND 0x3FF"

definition KEY_DECODE_ID :: "u32 \<Rightarrow> u32" where
  "KEY_DECODE_ID key = key AND KEY_ID_MASK"

section \<open>Operations\<close>

definition node_at :: "'a Keylist_Node option list \<Rightarrow> int \<Rightarrow> 'a Keylist_Node option option" where
  "node_at a i = (if 0 \<le> i \<and> nat i < length a then Some (a ! nat i) else None)"

definition store :: "'a Keylist_Node option list \<Rightarrow> int \<Rightarrow> 'a Keylist_Node option
    \<Rightarrow> 'a Keylist_Node option list option" where
  "store a i n = (if 0 \<le> i \<and> nat i < length a then Some (a[nat i := n]) else None)"

definition chunk :: nat where "chunk = 8"

definition CheckArraySize :: "bool \<Rightarrow> 'a Keylist \<Rightarrow> 'a Keylist option" where
  "CheckArraySize mem l =
     (let n = length (array l);
          new_size = (if node_count l = n then n + chunk
                      else if n > chunk \<and> node_count l < n - chunk then n - chunk else 0)
      in if new_size > 0 \<and> mem then do {
           ensure (node_count l \<le> n \<and> node_count l \<le> new_size);
           Some (l\<lparr>array := take (node_count l) (array l) @ replicate (new_size - node_count l) None\<rparr>) }
         else Some l)"

text \<open>The loop of \<^verbatim>\<open>FindIndex\<close>: the last index and the key that was seen there.\<close>

function find_loop :: "'a Keylist_Node option list \<Rightarrow> u32 \<Rightarrow> int \<Rightarrow> int \<Rightarrow> u32 \<Rightarrow> (int \<times> u32) option" where
  "find_loop a key left right current =
     (let index = (left + right) div 2 in
      case node_at a index of
        None \<Rightarrow> None
      | Some None \<Rightarrow> Some (index, current)
      | Some (Some node) \<Rightarrow>
          let current = node_key node;
              right = (if key < current then index - 1 else right);
              left = (if key < current then left else index + 1)
          in if key \<noteq> current \<and> left \<le> right then find_loop a key left right current
             else Some (index, current))"
  by pat_completeness auto
termination by (relation "measure (\<lambda>(_, _, left, right, _). nat (right + 1 - left))") (auto split: if_splits)

definition FindIndex :: "'a Keylist \<Rightarrow> u32 \<Rightarrow> (bool \<times> int) option" where
  "FindIndex l key =
     (if array l = [] \<or> node_count l = 0 then Some (False, 0)
      else do {
        (index, current) \<leftarrow> find_loop (array l) key 0 (int (node_count l) - 1) 0;
        Some (if key = current then (True, index)
              else if key > current then (False, index + 1) else (False, index)) })"

text \<open>The loops that move nodes up, from the end down to \<open>index\<close>, and down, from \<open>index\<close> on.\<close>

fun move_up :: "int \<Rightarrow> nat \<Rightarrow> 'a Keylist_Node option list \<Rightarrow> 'a Keylist_Node option list option" where
  "move_up index i a =
     (if int i > index \<and> i > 0 then do {
        n \<leftarrow> node_at a (int i - 1);
        a \<leftarrow> store a (int i) n;
        move_up index (i - 1) a }
      else Some a)"

function move_down :: "nat \<Rightarrow> nat \<Rightarrow> 'a Keylist_Node option list \<Rightarrow> 'a Keylist_Node option list option" where
  "move_down i last_index a =
     (if i < last_index then do {
        n \<leftarrow> node_at a (int i + 1);
        a \<leftarrow> store a (int i) n;
        move_down (Suc i) last_index a }
      else Some a)"
  by pat_completeness auto
termination by (relation "measure (\<lambda>(i, last_index, _). last_index - i)") auto

definition Keylist_Data_Add ::
  "bool \<Rightarrow> bool \<Rightarrow> 'a Keylist \<Rightarrow> u32 \<Rightarrow> 'a option \<Rightarrow> (int \<times> 'a Keylist) option" where
  "Keylist_Data_Add array_mem node_mem l key data = do {
     l \<leftarrow> CheckArraySize array_mem l;
     (index, a) \<leftarrow>
       (if node_count l \<noteq> 0 then do {
          (_, index) \<leftarrow> FindIndex l key;
          let index = (if index < 0 then 0 else if index > int (node_count l) then int (node_count l) else index);
          a \<leftarrow> move_up index (node_count l) (array l);
          Some (index, a) }
        else Some (0, array l));
     if node_mem then do {
       a \<leftarrow> store a index (Some \<lparr>node_key = key, node_data = data\<rparr>);
       Some (index, l\<lparr>array := a, node_count := node_count l + 1\<rparr>) }
     else Some (index, l\<lparr>array := a\<rparr>) }"

definition Keylist_Data_Delete_By_Index :: "bool \<Rightarrow> 'a Keylist \<Rightarrow> int \<Rightarrow> ('a option \<times> 'a Keylist) option" where
  "Keylist_Data_Delete_By_Index mem l index =
     (if array l \<noteq> [] \<and> node_count l \<noteq> 0 \<and> index \<ge> 0 \<and> index < int (node_count l) then do {
        node \<leftarrow> node_at (array l) index;
        let data = (case node of Some n \<Rightarrow> node_data n | None \<Rightarrow> None);
        a \<leftarrow> (if node_count l = 1 \<or> index = int (node_count l) - 1 then Some (array l)
               else move_down (nat index) (node_count l - 1) (array l));
        l \<leftarrow> CheckArraySize mem (l\<lparr>array := a, node_count := node_count l - 1\<rparr>);
        Some (data, l) }
      else Some (None, l))"

definition Keylist_Data_Delete :: "bool \<Rightarrow> 'a Keylist \<Rightarrow> u32 \<Rightarrow> ('a option \<times> 'a Keylist) option" where
  "Keylist_Data_Delete mem l key = do {
     (found, index) \<leftarrow> FindIndex l key;
     if found then Keylist_Data_Delete_By_Index mem l index else Some (None, l) }"

definition Keylist_Data_Pop :: "bool \<Rightarrow> 'a Keylist \<Rightarrow> ('a option \<times> 'a Keylist) option" where
  "Keylist_Data_Pop mem l =
     (if node_count l \<noteq> 0 then Keylist_Data_Delete_By_Index mem l (int (node_count l) - 1) else Some (None, l))"

definition Keylist_Count :: "'a Keylist \<Rightarrow> nat" where
  "Keylist_Count l = node_count l"

text \<open>
  The data that \<^verbatim>\<open>Keylist_Data_Free\<close> frees, in order, and the list it leaves. Each round has a list of
  another length, so \<open>mem\<close> says by that length whether \<^verbatim>\<open>calloc\<close> succeeds.
\<close>

partial_function (option) Keylist_Data_Free :: "(nat \<Rightarrow> bool) \<Rightarrow> 'a Keylist \<Rightarrow> ('a option list \<times> 'a Keylist) option" where
  "Keylist_Data_Free mem l =
     (if Keylist_Count l > 0 then
        Option.bind (Keylist_Data_Pop (mem (Keylist_Count l)) l) (\<lambda>r.
          Option.bind (Keylist_Data_Free mem (snd r)) (\<lambda>r'. Some (fst r # fst r', snd r')))
      else Some ([], l))"

definition Keylist_Data :: "'a Keylist \<Rightarrow> u32 \<Rightarrow> 'a option option" where
  "Keylist_Data l key =
     (if array l \<noteq> [] \<and> node_count l \<noteq> 0 then do {
        (found, index) \<leftarrow> FindIndex l key;
        if found then do {
          node \<leftarrow> node_at (array l) index;
          Some (case node of Some n \<Rightarrow> node_data n | None \<Rightarrow> None) }
        else Some None }
      else Some None)"

definition Keylist_Index :: "'a Keylist \<Rightarrow> u32 \<Rightarrow> int option" where
  "Keylist_Index l key =
     (if array l \<noteq> [] \<and> node_count l \<noteq> 0 then do {
        (found, index) \<leftarrow> FindIndex l key;
        Some (if found then index else - 1) }
      else Some (- 1))"

definition indexed_node :: "'a Keylist \<Rightarrow> int \<Rightarrow> 'a Keylist_Node option option" where
  "indexed_node l index =
     (if array l \<noteq> [] \<and> node_count l \<noteq> 0 \<and> index \<ge> 0 \<and> index < int (node_count l)
      then node_at (array l) index else Some None)"

definition Keylist_Data_Index :: "'a Keylist \<Rightarrow> int \<Rightarrow> 'a option option" where
  "Keylist_Data_Index l index = do {
     node \<leftarrow> indexed_node l index;
     Some (case node of Some n \<Rightarrow> node_data n | None \<Rightarrow> None) }"

definition Keylist_Key :: "'a Keylist \<Rightarrow> int \<Rightarrow> u32 option" where
  "Keylist_Key l index = do {
     node \<leftarrow> indexed_node l index;
     Some (case node of Some n \<Rightarrow> node_key n | None \<Rightarrow> 0xFFFFFFFF) }"

definition Keylist_Index_Key :: "'a Keylist \<Rightarrow> int \<Rightarrow> u32 option option" where
  "Keylist_Index_Key l index = do {
     node \<leftarrow> indexed_node l index;
     Some (map_option node_key node) }"

partial_function (option) Keylist_Next_Empty_Key :: "'a Keylist \<Rightarrow> u32 \<Rightarrow> u32 option" where
  "Keylist_Next_Empty_Key l key =
     Option.bind (FindIndex l key) (\<lambda>r.
       if fst r then if KEY_LAST key then Some key else Keylist_Next_Empty_Key l (key + 1)
       else Some key)"

definition Keylist_Create :: "bool \<Rightarrow> bool \<Rightarrow> 'a Keylist option option" where
  "Keylist_Create list_mem array_mem =
     (if list_mem then map_option Some (CheckArraySize array_mem \<lparr>array = [], node_count = 0\<rparr>) else Some None)"

text \<open>What \<^verbatim>\<open>Keylist_Delete\<close> does before it frees the array and the list.\<close>

partial_function (option) Keylist_Delete :: "(nat \<Rightarrow> bool) \<Rightarrow> 'a Keylist \<Rightarrow> 'a Keylist option" where
  "Keylist_Delete mem l =
     (if node_count l \<noteq> 0 then
        Option.bind (Keylist_Data_Delete_By_Index (mem (node_count l)) l 0) (\<lambda>r. Keylist_Delete mem (snd r))
      else Some l)"

declare find_loop.simps [simp del] move_up.simps [simp del] move_down.simps [simp del]

lemma key_fields: "KEY_DECODE_TYPE (KEY_ENCODE t i) = t AND 0x3FF" "KEY_DECODE_ID (KEY_ENCODE t i) = i AND KEY_ID_MASK"
proof -
  have m: "(0x3FF :: u32) = mask 10" "KEY_ID_MASK = mask 22" by (simp_all add: mask_numeral KEY_ID_MASK_def)
  show "KEY_DECODE_TYPE (KEY_ENCODE t i) = t AND 0x3FF" "KEY_DECODE_ID (KEY_ENCODE t i) = i AND KEY_ID_MASK"
    unfolding KEY_DECODE_TYPE_def KEY_DECODE_ID_def KEY_ENCODE_def m
    by (rule bit_word_eqI, auto simp: bit_simps)+
qed

section \<open>The invariant\<close>

text \<open>
  The first \<open>node_count\<close> pointers are not NULL and their keys ascend. \<open>entries\<close> is the content of the
  list.
\<close>

definition nodes :: "'a Keylist \<Rightarrow> 'a Keylist_Node list" where
  "nodes l = map the (take (node_count l) (array l))"

definition list_keys :: "'a Keylist \<Rightarrow> u32 list" where
  "list_keys l = map node_key (nodes l)"

definition keylist_inv :: "'a Keylist \<Rightarrow> bool" where
  "keylist_inv l \<longleftrightarrow> node_count l \<le> length (array l) \<and> None \<notin> set (take (node_count l) (array l)) \<and>
     sorted (list_keys l)"

lemma length_nodes [simp]: "node_count l \<le> length (array l) \<Longrightarrow> length (nodes l) = node_count l"
  by (simp add: nodes_def)

lemma take_nodes: "keylist_inv l \<Longrightarrow> take (node_count l) (array l) = map Some (nodes l)"
  unfolding nodes_def map_map by (rule map_idI [symmetric]) (metis comp_apply keylist_inv_def option.collapse)

lemma nodes_eqI: "take (node_count l) (array l) = map Some ns \<Longrightarrow> nodes l = ns"
  by (simp add: nodes_def comp_def)

lemma keylist_inv_iff:
  "keylist_inv l \<longleftrightarrow> (\<exists>ns rest. array l = map Some ns @ rest \<and> node_count l = length ns \<and> sorted (map node_key ns))"
proof
  assume "keylist_inv l"
  then show "\<exists>ns rest. array l = map Some ns @ rest \<and> node_count l = length ns \<and> sorted (map node_key ns)"
    using take_nodes [of l] append_take_drop_id [of "node_count l" "array l"]
    by (metis keylist_inv_def length_nodes list_keys_def)
qed (auto simp: keylist_inv_def list_keys_def nodes_def comp_def)

lemma nodes_append [simp]: "nodes \<lparr>array = map Some ns @ rest, node_count = length ns\<rparr> = ns"
  by (simp add: nodes_def comp_def)

lemma inv_append: "sorted (map node_key ns) \<Longrightarrow> keylist_inv \<lparr>array = map Some ns @ rest, node_count = length ns\<rparr>"
  by (auto simp: keylist_inv_iff)

lemma node_at_nodes: "0 \<le> i \<Longrightarrow> nat i < length ns \<Longrightarrow> node_at (map Some ns @ rest) i = Some (Some (ns ! nat i))"
  by (simp add: node_at_def nth_append)

section \<open>The search\<close>

text \<open>\<open>place ks key\<close>: the number of keys below the given one.\<close>

definition place :: "u32 list \<Rightarrow> u32 \<Rightarrow> nat" where
  "place ks key = length (filter (\<lambda>k. k < key) ks)"

text \<open>What the loop has found when it ends: a node with the key, or a neighbour of its place.\<close>

definition found_at :: "u32 list \<Rightarrow> u32 \<Rightarrow> int \<Rightarrow> u32 \<Rightarrow> bool" where
  "found_at ks key i c \<longleftrightarrow> 0 \<le> i \<and> i < int (length ks) \<and> c = ks ! nat i \<and>
    (c < key \<longrightarrow> (\<forall>j < length ks. if j < Suc (nat i) then ks ! j < key else key < ks ! j)) \<and>
    (key < c \<longrightarrow> (\<forall>j < length ks. if j < nat i then ks ! j < key else key < ks ! j))"

lemma find_loop_spec:
  fixes ns :: "'a Keylist_Node list"
  defines "ks \<equiv> map node_key ns"
  assumes "sorted ks" "0 \<le> left" "left \<le> right" "right < int (length ns)"
    and "\<And>j. int j < left \<Longrightarrow> ks ! j < key" "\<And>j. right < int j \<Longrightarrow> j < length ks \<Longrightarrow> key < ks ! j"
  shows "wp (find_loop (map Some ns @ rest) key left right current) (\<lambda>(i, c). found_at ks key i c)"
  using assms(2-)
proof (induction "nat (right + 1 - left)" arbitrary: left right current rule: less_induct)
  case less
  define index where "index = (left + right) div 2"
  have range: "left \<le> index" "index \<le> right" "0 \<le> index" "nat index < length ns" "index < int (length ks)"
    using less.prems(2-4) by (auto simp: index_def ks_def)
  define node where "node = ns ! nat index"
  have node: "node_at (map Some ns @ rest) index = Some (Some node)"
    using range by (simp add: node_at_nodes node_def)
  have key_at: "ks ! nat index = node_key node" using range by (simp add: ks_def node_def)
  have below: "ks ! j \<le> node_key node" if "j \<le> nat index" for j
    using that less.prems(1) range key_at by (metis ks_def length_map sorted_nth_mono)
  have above: "node_key node \<le> ks ! j" if "nat index \<le> j" "j < length ks" for j
    using that less.prems(1) range key_at by (metis sorted_nth_mono)
  show ?case
  proof (cases "key < node_key node")
    case True
    have "key < ks ! j" if "index - 1 < int j" "j < length ks" for j
      using True above [of j] that by fastforce
    with True less.prems range less.hyps [of "index - 1" left "node_key node"] node key_at show ?thesis
      by (subst find_loop.simps) (auto simp: Let_def index_def [symmetric] found_at_def)
  next
    case False
    have "ks ! j < key" if "int j < index + 1" "key \<noteq> node_key node" for j
      using False below [of j] that by fastforce
    with False less.prems range less.hyps [of right "index + 1" "node_key node"] node key_at show ?thesis
      by (subst find_loop.simps) (auto simp: Let_def index_def [symmetric] found_at_def)
  qed
qed

lemma place_split:
  assumes "p \<le> length ks" "\<And>j. j < length ks \<Longrightarrow> if j < p then ks ! j < key else key < ks ! j"
  shows "place ks key = p" "key \<notin> set ks"
proof -
  have "\<forall>k \<in> set (take p ks). k < key" "\<forall>k \<in> set (drop p ks). key < k"
    using assms by (fastforce simp: in_set_conv_nth)+
  then have parts: "filter (\<lambda>k. k < key) (take p ks) = take p ks" "filter (\<lambda>k. k < key) (drop p ks) = []"
      "key \<notin> set (take p ks)" "key \<notin> set (drop p ks)"
    by (auto simp: filter_empty_conv filter_id_conv)
  have "filter (\<lambda>k. k < key) ks = take p ks" "key \<notin> set ks"
    using parts filter_append [of "\<lambda>k. k < key" "take p ks" "drop p ks"] set_append [of "take p ks" "drop p ks"]
    by simp_all
  then show "place ks key = p" "key \<notin> set ks" using assms(1) by (simp_all add: place_def)
qed

lemma found_at_place:
  assumes "found_at ks key i c"
  shows "0 \<le> i" "i < int (length ks)" "c = ks ! nat i"
    "c \<noteq> key \<Longrightarrow> key \<notin> set ks \<and> (if key > c then i + 1 else i) = int (place ks key)"
proof -
  show i: "0 \<le> i" "i < int (length ks)" "c = ks ! nat i" using assms by (auto simp: found_at_def)
  assume "c \<noteq> key"
  then consider "c < key" | "key < c" by (metis neqE)
  then show "key \<notin> set ks \<and> (if key > c then i + 1 else i) = int (place ks key)"
  proof cases
    case 1
    then show ?thesis using place_split [of "Suc (nat i)" ks key] assms i by (simp add: found_at_def)
  next
    case 2
    then show ?thesis using place_split [of "nat i" ks key] assms i by (simp add: found_at_def not_less less_imp_le)
  qed
qed

lemma FindIndex_spec:
  assumes "keylist_inv l"
  shows "wp (FindIndex l key) (\<lambda>(found, i). found = (key \<in> set (list_keys l)) \<and>
    (if found then 0 \<le> i \<and> i < int (node_count l) \<and> list_keys l ! nat i = key
     else i = int (place (list_keys l) key)))"
proof -
  obtain ns rest where l: "array l = map Some ns @ rest" "node_count l = length ns" "sorted (map node_key ns)"
    using assms by (auto simp: keylist_inv_iff)
  have keys: "list_keys l = map node_key ns" by (simp add: list_keys_def nodes_def l comp_def)
  show ?thesis
  proof (cases "ns = []")
    case False
    have "wp (find_loop (array l) key 0 (int (length ns) - 1) 0) (\<lambda>(i, c). found_at (list_keys l) key i c)"
      unfolding l(1) keys using False l(3) by (intro find_loop_spec) auto
    then obtain i c where r: "find_loop (array l) key 0 (int (length ns) - 1) 0 = Some (i, c)"
        "found_at (list_keys l) key i c"
      by (auto simp: wp_iff)
    show ?thesis
      using False r(1) l found_at_place [OF r(2)]
      by (cases "key = c") (simp_all add: FindIndex_def keys split: if_splits)
  qed (use l keys in \<open>simp add: FindIndex_def place_def\<close>)
qed

section \<open>What the operations do\<close>

lemma CheckArraySize_spec:
  assumes "array l = map Some ns @ rest" "node_count l = length ns"
  shows "wp (CheckArraySize mem l) (\<lambda>l'. \<exists>rest'. l' = \<lparr>array = map Some ns @ rest', node_count = length ns\<rparr> \<and>
    (mem \<or> rest \<noteq> [] \<longrightarrow> rest' \<noteq> []) \<and> (\<not> mem \<longrightarrow> rest' = rest))"
  using assms by (cases l) (auto simp: CheckArraySize_def chunk_def Let_def)

lemma move_up_spec:
  assumes "p \<le> i" "i < length a"
  shows "move_up (int p) i a = Some (take (Suc p) a @ take (i - p) (drop p a) @ drop (Suc i) a)"
  using assms
proof (induction i arbitrary: a)
  case 0
  then show ?case by (simp add: move_up.simps take_Suc_conv_app_nth Cons_nth_drop_Suc flip: append_take_drop_id)
next
  case (Suc i)
  show ?case
  proof (cases "p = Suc i")
    case True
    then show ?thesis using Suc.prems by (simp add: move_up.simps)
  next
    case False
    let ?b = "a[Suc i := a ! i]"
    have "drop (Suc i) ?b = a ! i # drop (Suc (Suc i)) a"
      using Suc.prems by (simp add: drop_update_swap Cons_nth_drop_Suc [symmetric])
    moreover have "take (i - p) (drop p a) @ [a ! i] = take (Suc i - p) (drop p a)"
      using False Suc.prems by (simp add: Suc_diff_le take_Suc_conv_app_nth)
    ultimately show ?thesis
      using Suc False by (subst move_up.simps) (simp add: node_at_def store_def nat_add_distrib drop_update_swap)
  qed
qed

lemma move_down_spec:
  assumes "i \<le> n" "n < length a"
  shows "move_down i n a = Some (take i a @ take (n - i) (drop (Suc i) a) @ drop n a)"
  using assms
proof (induction "n - i" arbitrary: i a)
  case 0
  then show ?case by (simp add: move_down.simps)
next
  case (Suc k)
  let ?b = "a[i := a ! Suc i]"
  have "take (Suc i) ?b = take i a @ [a ! Suc i]"
    using Suc by (simp add: take_Suc_conv_app_nth)
  moreover have "a ! Suc i # take (n - Suc i) (drop (Suc (Suc i)) a) = take (n - i) (drop (Suc i) a)"
    using Suc by (simp add: take_Cons' Cons_nth_drop_Suc [symmetric])
  ultimately show ?case
    using Suc by (subst move_down.simps) (simp add: node_at_def store_def nat_add_distrib)
qed

lemma store_take: "p < length b \<Longrightarrow> store (take (Suc p) b @ r) (int p) x = Some (take p b @ x # r)"
  by (simp add: store_def take_Suc_conv_app_nth list_update_append)

lemma sorted_around:
  assumes "sorted ks" "p < length ks"
  shows "(\<forall>k \<in> set (take p ks). k \<le> ks ! p) \<and> (\<forall>k \<in> set (drop p ks). ks ! p \<le> k)"
  using assms id_take_nth_drop [OF assms(2)] sorted_append [of "take p ks" "drop p ks"]
  by (auto simp: Cons_nth_drop_Suc [symmetric])

lemma sorted_insert:
  assumes "sorted ks" "p \<le> length ks" "p < length ks \<and> ks ! p = key \<or> p = place ks key"
  shows "sorted (take p ks @ key # drop p ks)"
proof -
  have "(\<forall>k \<in> set (take p ks). k \<le> key) \<and> (\<forall>k \<in> set (drop p ks). key \<le> k)"
    using assms(3)
  proof
    assume "p < length ks \<and> ks ! p = key"
    then show ?thesis using sorted_around [OF assms(1), of p] by simp
  next
    assume p: "p = place ks key"
    have "filter (\<lambda>k. k < key) ks = takeWhile (\<lambda>k. k < key) ks"
      using assms(1) by (induction ks) (auto simp: takeWhile_eq_Nil_iff, metis hd_in_set order_le_less_trans)
    then have "take p ks = takeWhile (\<lambda>k. k < key) ks" "drop p ks = dropWhile (\<lambda>k. k < key) ks"
      by (simp_all add: p place_def takeWhile_eq_take [symmetric] dropWhile_eq_drop)
    moreover have "\<forall>k \<in> set (dropWhile (\<lambda>k. k < key) ks). key \<le> k"
      using assms(1) by (induction ks) (auto simp: not_less)
    ultimately show ?thesis by (auto dest: set_takeWhileD)
  qed
  moreover have "sorted (take p ks)" "sorted (drop p ks)" using assms(1) by (simp_all add: sorted_wrt_take sorted_wrt_drop)
  ultimately show ?thesis by (fastforce simp: sorted_append)
qed

lemma sorted_remove: "sorted ks \<Longrightarrow> sorted (take p ks @ drop (Suc p) ks)"
  using sorted_append [of "take p ks" "drop p ks"] set_drop_subset_set_drop [of p "Suc p" ks]
  by (auto simp: sorted_append sorted_wrt_drop)

lemma Keylist_Data_Add_spec:
  assumes inv: "keylist_inv l" and room: "array_mem \<or> node_count l < length (array l)"
  shows "wp (Keylist_Data_Add array_mem True l key data) (\<lambda>(i, l'). keylist_inv l' \<and>
    (\<exists>p \<le> node_count l. i = int p \<and> (key \<notin> set (list_keys l) \<longrightarrow> p = place (list_keys l) key) \<and>
       nodes l' = take p (nodes l) @ \<lparr>node_key = key, node_data = data\<rparr> # drop p (nodes l)))"
proof -
  obtain ns rest where l: "array l = map Some ns @ rest" "node_count l = length ns" "sorted (map node_key ns)"
    using inv by (auto simp: keylist_inv_iff)
  have ns: "nodes l = ns" "list_keys l = map node_key ns" by (simp_all add: list_keys_def nodes_def l comp_def)
  obtain rest' where c: "CheckArraySize array_mem l = Some \<lparr>array = map Some ns @ rest', node_count = length ns\<rparr>" "rest' \<noteq> []"
    using CheckArraySize_spec [OF l(1,2), of array_mem] room l by (auto simp: wp_iff)
  obtain y ys where y: "rest' = y # ys" using c(2) by (cases rest') auto
  let ?l = "\<lparr>array = map Some ns @ rest', node_count = length ns\<rparr>"
  have "keylist_inv ?l" using l(3) by (auto simp: keylist_inv_iff)
  note find = FindIndex_spec [OF this, of key]
  show ?thesis
  proof (cases "ns = []")
    case True
    then show ?thesis
      using y by (simp add: Keylist_Data_Add_def c store_def keylist_inv_def list_keys_def nodes_def ns place_def l)
  next
    case False
    obtain found i where f: "FindIndex ?l key = Some (found, i)" using find by (auto simp: wp_iff)
    define p where "p = nat i"
    have p: "i = int p" "p \<le> length ns" "p < length ns \<and> map node_key ns ! p = key \<or> p = place (map node_key ns) key"
        "key \<notin> set (map node_key ns) \<longrightarrow> p = place (map node_key ns) key"
      using find f by (auto simp: p_def list_keys_def place_def length_filter_le [THEN order_trans] split: if_splits)
    have up: "move_up (int p) (length ns) (map Some ns @ rest') =
        Some (take (Suc p) (map Some ns @ rest') @ map Some (drop p ns) @ ys)"
      using p(2) by (subst move_up_spec) (auto simp: y drop_map)
    have put: "store (take (Suc p) (map Some ns @ rest') @ map Some (drop p ns) @ ys) (int p) x =
        Some (map Some (take p ns) @ x # map Some (drop p ns) @ ys)" for x
      using p(2) store_take [of p "map Some ns @ rest'"] by (simp add: y take_map)
    define ms where "ms = take p ns @ \<lparr>node_key = key, node_data = data\<rparr> # drop p ns"
    have "Keylist_Data_Add array_mem True l key data = Some (int p, \<lparr>array = map Some ms @ ys, node_count = length ms\<rparr>)"
      using False p(1,2) up put by (simp add: Keylist_Data_Add_def c f ms_def)
    moreover have "sorted (map node_key ms)"
      using sorted_insert [OF l(3), of p key] p(2,3) by (simp add: take_map drop_map ms_def)
    ultimately show ?thesis
      using p(2,4) by (simp add: ns l(2) inv_append del: set_map) (simp only: ms_def)
  qed
qed

lemma Keylist_Data_Delete_By_Index_spec:
  assumes inv: "keylist_inv l" and i: "0 \<le> index" "index < int (node_count l)"
  shows "wp (Keylist_Data_Delete_By_Index mem l index) (\<lambda>(d, l'). keylist_inv l' \<and>
    d = node_data (nodes l ! nat index) \<and>
    nodes l' = take (nat index) (nodes l) @ drop (Suc (nat index)) (nodes l))"
proof -
  obtain ns rest where l: "array l = map Some ns @ rest" "node_count l = length ns" "sorted (map node_key ns)"
    using inv by (auto simp: keylist_inv_iff)
  define p where "p = nat index"
  have p: "index = int p" "p < length ns" using i l by (auto simp: p_def)
  have ns: "nodes l = ns" by (simp add: nodes_def l comp_def)
  have at: "node_at (array l) index = Some (Some (ns ! p))" using p by (simp add: l node_at_nodes)
  define ms where "ms = take p ns @ drop (Suc p) ns"
  define a where "a = (if length ns = 1 \<or> index = int (length ns) - 1 then array l
      else map Some ms @ drop (length ns - 1) (array l))"
  have a: "(if length ns = 1 \<or> index = int (length ns) - 1 then Some (array l)
      else move_down (nat index) (length ns - 1) (array l)) = Some a"
    using p by (auto simp: a_def l move_down_spec take_map drop_map ms_def)
  have "\<exists>rest'. a = map Some ms @ rest'"
  proof (cases "Suc p = length ns")
    case True
    then have "a = array l" using p by (auto simp: a_def)
    also have "\<dots> = map Some ms @ drop p (map Some ns) @ rest"
      using True by (simp add: l ms_def take_map [symmetric] del: append_assoc)
    finally show ?thesis by blast
  qed (use p in \<open>auto simp: a_def\<close>)
  moreover have len: "length ns - 1 = length ms" using p by (simp add: ms_def)
  ultimately obtain r where c: "CheckArraySize mem (l\<lparr>array := a, node_count := length ns - 1\<rparr>) =
      Some \<lparr>array = map Some ms @ r, node_count = length ms\<rparr>"
    using CheckArraySize_spec [of "l\<lparr>array := a, node_count := length ms\<rparr>" ms _ mem] by (auto simp: wp_iff)
  have "Keylist_Data_Delete_By_Index mem l index =
      Some (node_data (ns ! p), \<lparr>array = map Some ms @ r, node_count = length ms\<rparr>)"
    using p at a c l(1,2) unfolding Keylist_Data_Delete_By_Index_def by auto
  moreover have "sorted (map node_key ms)"
    using sorted_remove [OF l(3), of p] by (simp add: take_map drop_map ms_def)
  ultimately show ?thesis by (simp add: inv_append ns flip: p_def) (simp only: ms_def)
qed

end
