(* ===== verification/Bac_Keylist_Map.thy ===== *)
theory Bac_Keylist_Map
  imports Bac_Keylist
begin

text \<open>
  The key list as a map. The interface \<open>sorted_map\<close> says what a client relies on: while there is memory
  the list is a finite map whose keys are enumerated in ascending order. Shown as well: the loops that
  empty a list and that look for a free key end, and what a failed allocation does to the list.
\<close>

section \<open>The interface of a sorted map\<close>

text \<open>
  Operations that may be undefined on a state that lists its keys: a new key is added with a value, a
  key is deleted, and the value of a key is looked up. From these laws alone the order of the keys
  follows, whatever the order of the additions.
\<close>

fun add_all :: "('s \<Rightarrow> 'k \<Rightarrow> 'v \<Rightarrow> 's option) \<Rightarrow> ('k \<times> 'v) list \<Rightarrow> 's \<Rightarrow> 's option" where
  "add_all add [] s = Some s"
| "add_all add ((k, v) # kvs) s = Option.bind (add s k v) (add_all add kvs)"

locale sorted_map =
  fixes inv :: "'s \<Rightarrow> bool"
    and keys :: "'s \<Rightarrow> 'k :: linorder list"
    and look :: "'s \<Rightarrow> 'k \<Rightarrow> 'v option option"
    and add :: "'s \<Rightarrow> 'k \<Rightarrow> 'v \<Rightarrow> 's option"
    and del :: "'s \<Rightarrow> 'k \<Rightarrow> 's option"
  assumes strict: "inv s \<Longrightarrow> sorted (keys s) \<and> distinct (keys s)"
    and look_keys: "inv s \<Longrightarrow> wp (look s k) (\<lambda>v. (v \<noteq> None) = (k \<in> set (keys s)))"
    and add_law: "inv s \<Longrightarrow> k \<notin> set (keys s) \<Longrightarrow> wp (add s k v) (\<lambda>s'. inv s' \<and> look s' = (look s)(k := Some (Some v)))"
    and del_law: "inv s \<Longrightarrow> wp (del s k) (\<lambda>s'. inv s' \<and> look s' = (look s)(k := Some None))"
begin

lemma keys_update:
  assumes "inv s" "inv t" "look t = (look s)(k := Some v)"
  shows "keys t = (if v = None then remove1 k (keys s) else if k \<in> set (keys s) then keys s else insort k (keys s))"
proof (rule sorted_distinct_set_unique)
  have "j \<in> set (keys t) \<longleftrightarrow> (if j = k then v \<noteq> None else j \<in> set (keys s))" for j
    using look_keys [OF assms(1), of j] look_keys [OF assms(2), of j] assms(3)
    by (cases "look s j"; cases "j = k") simp_all
  then have "set (keys t) = (if v = None then set (keys s) - {k} else insert k (set (keys s)))"
    unfolding set_eq_iff by simp
  then show "set (keys t) = set (if v = None then remove1 k (keys s)
      else if k \<in> set (keys s) then keys s else insort k (keys s))"
    using strict [OF assms(1)] by (simp add: set_insort_key insert_absorb)
qed (use strict [OF assms(1)] strict [OF assms(2)] in
      \<open>auto simp: sorted_insort sorted_remove1 distinct_insort distinct_remove1\<close>)

lemma added:
  assumes "inv s" "k \<notin> set (keys s)"
  shows "wp (add s k v) (\<lambda>s'. inv s' \<and> look s' = (look s)(k := Some (Some v)) \<and> keys s' = insort k (keys s))"
  using add_law [OF assms] by (rule wp_mono) (use keys_update [OF assms(1)] assms(2) in auto)

lemma deleted:
  assumes "inv s"
  shows "wp (del s k) (\<lambda>s'. inv s' \<and> look s' = (look s)(k := Some None) \<and> keys s' = remove1 k (keys s))"
  using del_law [OF assms] by (rule wp_mono) (use keys_update [OF assms] in auto)

lemma all_added:
  assumes "inv s" "distinct (map fst kvs)" "set (map fst kvs) \<inter> set (keys s) = {}"
  shows "wp (add_all add kvs s) (\<lambda>s'. inv s' \<and> set (keys s') = set (keys s) \<union> fst ` set kvs \<and>
    (\<forall>k. look s' k = (case map_of kvs k of None \<Rightarrow> look s k | Some v \<Rightarrow> Some (Some v))))"
  using assms
proof (induction kvs arbitrary: s)
  case (Cons kv kvs)
  obtain k v where kv: "kv = (k, v)" by (cases kv)
  have "wp (add s k v) (\<lambda>t. inv t \<and> look t = (look s)(k := Some (Some v)) \<and> keys t = insort k (keys s))"
    using Cons.prems kv by (intro added) auto
  then show ?case
    unfolding kv add_all.simps wp_bind
  proof (rule wp_mono)
    fix t assume t: "inv t \<and> look t = (look s)(k := Some (Some v)) \<and> keys t = insort k (keys s)"
    moreover have "k \<notin> fst ` set kvs" using Cons.prems kv by auto
    ultimately show "wp (add_all add kvs t) (\<lambda>s'. inv s' \<and> set (keys s') = set (keys s) \<union> fst ` set ((k, v) # kvs) \<and>
        (\<forall>j. look s' j = (case map_of ((k, v) # kvs) j of None \<Rightarrow> look s j | Some v \<Rightarrow> Some (Some v))))"
      using Cons.prems kv Cons.IH [of t]
      by (auto simp: set_insort_key map_of_eq_None_iff split: option.splits elim!: wp_mono)
  qed
qed simp

lemma keys_sort: "inv s \<Longrightarrow> distinct ks \<Longrightarrow> set (keys s) = set ks \<Longrightarrow> keys s = sort ks"
  using strict [of s] by (intro sorted_distinct_set_unique) auto

end

section \<open>The list as a sorted map\<close>

definition entries :: "'a Keylist \<Rightarrow> (u32 \<times> 'a option) list" where
  "entries l = map (\<lambda>n. (node_key n, node_data n)) (nodes l)"

definition map_inv :: "'a Keylist \<Rightarrow> bool" where
  "map_inv l \<longleftrightarrow> keylist_inv l \<and> distinct (list_keys l) \<and> None \<notin> set (map node_data (nodes l))"

lemma entries_keys: "map fst (entries l) = list_keys l" "fst ` set (entries l) = set (list_keys l)"
  by (auto simp: entries_def list_keys_def image_image)

lemma entry_none: "k \<notin> set (list_keys l) \<Longrightarrow> map_of (entries l) k = None"
  by (simp add: map_of_eq_None_iff entries_keys)

lemma node_found:
  assumes "keylist_inv l" "0 \<le> i" "i < int (node_count l)"
  shows "node_at (array l) i = Some (Some (nodes l ! nat i))" "list_keys l ! nat i = node_key (nodes l ! nat i)"
    "nat i < length (nodes l)"
proof -
  obtain ns rest where l: "array l = map Some ns @ rest" "node_count l = length ns"
    using assms(1) by (auto simp: keylist_inv_iff)
  have "nodes l = ns" by (simp add: nodes_def l comp_def)
  with assms l show "node_at (array l) i = Some (Some (nodes l ! nat i))"
      "list_keys l ! nat i = node_key (nodes l ! nat i)" "nat i < length (nodes l)"
    by (simp_all add: node_at_nodes list_keys_def)
qed

lemma Keylist_Data_spec:
  assumes "keylist_inv l" "distinct (list_keys l)"
  shows "Keylist_Data l k = Some (case map_of (entries l) k of None \<Rightarrow> None | Some d \<Rightarrow> d)"
proof -
  obtain found i where f: "FindIndex l k = Some (found, i)" "found = (k \<in> set (list_keys l))"
      "if found then 0 \<le> i \<and> i < int (node_count l) \<and> list_keys l ! nat i = k else i = int (place (list_keys l) k)"
    using FindIndex_spec [OF assms(1), of k] by (auto simp: wp_iff)
  show ?thesis
  proof (cases found)
    case True
    then have i: "0 \<le> i" "i < int (node_count l)" "list_keys l ! nat i = k" using f by auto
    note n = node_found [OF assms(1) i(1,2)]
    have "(k, node_data (nodes l ! nat i)) \<in> set (entries l)"
      using n i(3) by (auto simp: entries_def intro!: image_eqI [of _ _ "nodes l ! nat i"])
    then have "map_of (entries l) k = Some (node_data (nodes l ! nat i))"
      using assms(2) by (simp add: map_of_is_SomeI entries_keys)
    moreover have "array l \<noteq> []" using n(1) by (auto simp: node_at_def)
    ultimately show ?thesis using f(1) True i n(1) by (simp add: Keylist_Data_def)
  next
    case False
    then have "map_of (entries l) k = None" using f(2) by (simp add: entry_none)
    then show ?thesis using f(1) False by (simp add: Keylist_Data_def)
  qed
qed

lemma Keylist_Data_Delete_spec:
  assumes "keylist_inv l"
  shows "wp (Keylist_Data_Delete mem l k) (\<lambda>(d, l'). keylist_inv l' \<and>
    (if k \<in> set (list_keys l) then \<exists>n xs ys. nodes l = xs @ n # ys \<and> node_key n = k \<and> d = node_data n \<and> nodes l' = xs @ ys
     else d = None \<and> l' = l))"
proof -
  obtain found i where f: "FindIndex l k = Some (found, i)" "found = (k \<in> set (list_keys l))"
      "if found then 0 \<le> i \<and> i < int (node_count l) \<and> list_keys l ! nat i = k else i = int (place (list_keys l) k)"
    using FindIndex_spec [OF assms(1), of k] by (auto simp: wp_iff)
  show ?thesis
  proof (cases found)
    case True
    then have i: "0 \<le> i" "i < int (node_count l)" "list_keys l ! nat i = k" using f by auto
    note n = node_found [OF assms i(1,2)]
    show ?thesis
      using Keylist_Data_Delete_By_Index_spec [OF assms i(1,2), of mem] f True n i(3) id_take_nth_drop [OF n(3)]
      by (auto simp: Keylist_Data_Delete_def elim!: wp_mono)
  qed (use f assms in \<open>simp add: Keylist_Data_Delete_def\<close>)
qed

lemma keylist_look:
  assumes "map_inv l"
  shows "wp (Keylist_Data l k) (\<lambda>v. (v \<noteq> None) = (k \<in> set (list_keys l)))"
proof (cases "map_of (entries l) k")
  case None
  then have "k \<notin> set (list_keys l)" by (simp add: map_of_eq_None_iff entries_keys)
  with None assms show ?thesis by (simp add: map_inv_def Keylist_Data_spec)
next
  case (Some d)
  then have "(k, d) \<in> set (entries l)" by (rule map_of_SomeD)
  then have "k \<in> set (list_keys l)" "d \<noteq> None"
    using assms by (force simp: entries_def list_keys_def map_inv_def)+
  with Some assms show ?thesis by (simp add: map_inv_def Keylist_Data_spec)
qed

text \<open>Inserting a node between others and taking it out again, as an update of the map.\<close>

lemma node_between:
  assumes "map_inv l" "keylist_inv m" "nodes l = xs @ ys" "nodes m = xs @ n # ys"
    "node_key n \<notin> set (list_keys l)" "node_data n = Some v"
  shows "map_inv m" "Keylist_Data m = (Keylist_Data l)(node_key n := Some (Some v))"
proof -
  show m: "map_inv m" using assms by (auto simp: map_inv_def list_keys_def)
  have "map_of (entries m) k = ((map_of (entries l))(node_key n \<mapsto> Some v)) k" for k
    using assms(3-6) entry_none [OF assms(5)]
    by (auto simp: entries_def map_add_def split: option.splits)
  then show "Keylist_Data m = (Keylist_Data l)(node_key n := Some (Some v))"
    using m assms(1) by (auto simp: map_inv_def Keylist_Data_spec)
qed

lemma node_taken:
  assumes "map_inv l" "keylist_inv m" "nodes l = xs @ n # ys" "nodes m = xs @ ys"
  shows "map_inv m" "Keylist_Data m = (Keylist_Data l)(node_key n := Some None)"
proof -
  show m: "map_inv m" using assms by (auto simp: map_inv_def list_keys_def)
  have out: "node_key n \<notin> set (list_keys m)" using assms by (auto simp: map_inv_def list_keys_def)
  then have "Keylist_Data m (node_key n) = Some None"
    using m by (simp add: map_inv_def Keylist_Data_spec entry_none)
  moreover obtain v where "node_data n = Some v" using assms by (cases "node_data n") (auto simp: map_inv_def)
  ultimately show "Keylist_Data m = (Keylist_Data l)(node_key n := Some None)"
    using node_between(2) [OF m _ assms(4,3) out, of v] assms(1) by (auto simp: map_inv_def)
qed

lemma keylist_add:
  assumes "map_inv l" "k \<notin> set (list_keys l)"
  shows "wp (Keylist_Data_Add True True l k (Some v)) (\<lambda>(_, m). map_inv m \<and> Keylist_Data m = (Keylist_Data l)(k := Some (Some v)))"
proof -
  have "keylist_inv l" using assms(1) by (simp add: map_inv_def)
  from Keylist_Data_Add_spec [OF this, of True k "Some v"] show ?thesis
  proof (rule wp_mono)
    fix r assume "case r of (i, l') \<Rightarrow> keylist_inv l' \<and> (\<exists>p \<le> node_count l. i = int p \<and>
        (k \<notin> set (list_keys l) \<longrightarrow> p = place (list_keys l) k) \<and>
        nodes l' = take p (nodes l) @ \<lparr>node_key = k, node_data = Some v\<rparr> # drop p (nodes l))"
    then obtain i m p where r: "r = (i, m)" "keylist_inv m"
        "nodes m = take p (nodes l) @ \<lparr>node_key = k, node_data = Some v\<rparr> # drop p (nodes l)"
      by (cases r) auto
    show "case r of (_, m) \<Rightarrow> map_inv m \<and> Keylist_Data m = (Keylist_Data l)(k := Some (Some v))"
      using node_between [OF assms(1) r(2) _ r(3), of v] assms(2) r(1) by simp
  qed simp
qed

lemma keylist_del:
  assumes "map_inv l"
  shows "wp (Keylist_Data_Delete mem l k) (\<lambda>(d, m). Keylist_Data l k = Some d \<and> map_inv m \<and>
    Keylist_Data m = (Keylist_Data l)(k := Some None))"
proof -
  have inv: "keylist_inv l" using assms by (simp add: map_inv_def)
  from Keylist_Data_Delete_spec [OF inv, of mem k] show ?thesis
  proof (rule wp_mono)
    fix r assume r: "case r of (d, l') \<Rightarrow> keylist_inv l' \<and> (if k \<in> set (list_keys l) then
        \<exists>n xs ys. nodes l = xs @ n # ys \<and> node_key n = k \<and> d = node_data n \<and> nodes l' = xs @ ys
        else d = None \<and> l' = l)"
    show "case r of (d, m) \<Rightarrow> Keylist_Data l k = Some d \<and> map_inv m \<and> Keylist_Data m = (Keylist_Data l)(k := Some None)"
    proof (cases "k \<in> set (list_keys l)")
      case True
      then obtain n xs ys m where n: "nodes l = xs @ n # ys" "node_key n = k" "r = (node_data n, m)"
          "nodes m = xs @ ys" "keylist_inv m"
        using r by (auto split: prod.splits)
      have "map_of (entries l) k = Some (node_data n)"
        using n(1,2) assms by (intro map_of_is_SomeI) (auto simp: entries_keys map_inv_def, simp add: entries_def)
      then show ?thesis
        using node_taken [OF assms n(5,1,4)] n(2,3) assms by (simp add: map_inv_def Keylist_Data_spec)
    next
      case False
      then have "Keylist_Data l k = Some None" using assms by (simp add: map_inv_def Keylist_Data_spec entry_none)
      then show ?thesis using False r assms by (auto split: prod.splits)
    qed
  qed
qed

interpretation keylist: sorted_map map_inv list_keys Keylist_Data
  "\<lambda>l k v. map_option snd (Keylist_Data_Add True True l k (Some v))"
  "\<lambda>l k. map_option snd (Keylist_Data_Delete mem l k)" for mem
proof (unfold_locales, goal_cases)
  case (1 s)
  then show ?case by (simp add: map_inv_def keylist_inv_def)
next
  case (3 s k v)
  then show ?case using keylist_add [of s k v] by (auto simp: wp_iff)
next
  case (4 s k)
  then show ?case using keylist_del [of s mem k] by (auto simp: wp_iff)
qed (rule keylist_look)

section \<open>Properties\<close>

definition keylist_put :: "'a Keylist \<Rightarrow> u32 \<Rightarrow> 'a \<Rightarrow> 'a Keylist option" where
  "keylist_put l k v = map_option snd (Keylist_Data_Add True True l k (Some v))"

lemma index_key:
  assumes "keylist_inv l" "i < node_count l"
  shows "Keylist_Index_Key l (int i) = Some (Some (list_keys l ! i))"
proof -
  have "array l \<noteq> []" using assms by (auto simp: keylist_inv_def)
  then show ?thesis
    using assms node_found [OF assms(1), of "int i"] by (simp add: Keylist_Index_Key_def indexed_node_def)
qed

lemma length_list_keys: "keylist_inv l \<Longrightarrow> length (list_keys l) = node_count l"
  by (simp add: list_keys_def keylist_inv_def)

lemma empty_list: "Keylist_Create True True = Some (Some \<lparr>array = replicate 8 None, node_count = 0\<rparr>)"
  by (simp add: Keylist_Create_def CheckArraySize_def chunk_def)

lemma empty_inv: "map_inv \<lparr>array = replicate n None, node_count = 0\<rparr>"
    "list_keys \<lparr>array = replicate n None, node_count = 0\<rparr> = []"
    "Keylist_Data \<lparr>array = replicate n None, node_count = 0\<rparr> k = Some None"
  by (simp_all add: map_inv_def keylist_inv_def list_keys_def nodes_def Keylist_Data_def)

text \<open>
  C21. While there is memory, a list to which data are added under distinct keys, in any order, is the
  finite map from the keys to the data: every key is found with its data and no other key is; the
  keys are enumerated in ascending order; and deleting a key returns its data and takes out that key
  only.
\<close>

theorem keylist_sorted_map:
  assumes "distinct (map fst kvs)"
  shows "wp (Keylist_Create True True) (\<lambda>l0. wp (add_all keylist_put kvs (the l0)) (\<lambda>l.
    Keylist_Count l = length kvs \<and>
    (\<forall>k. Keylist_Data l k = Some (map_of kvs k)) \<and>
    (\<forall>i < length kvs. Keylist_Index_Key l (int i) = Some (Some (sort (map fst kvs) ! i))) \<and>
    (\<forall>k. wp (Keylist_Data_Delete mem l k) (\<lambda>(d, m). d = map_of kvs k \<and>
       list_keys m = remove1 k (sort (map fst kvs)) \<and>
       (\<forall>j. Keylist_Data m j = Some (if j = k then None else map_of kvs j))))))"
proof -
  let ?l0 = "\<lparr>array = replicate 8 None, node_count = 0\<rparr>"
  have "wp (add_all keylist_put kvs ?l0) (\<lambda>l. map_inv l \<and> set (list_keys l) = fst ` set kvs \<and>
      (\<forall>k. Keylist_Data l k = Some (map_of kvs k)))"
  proof -
    have "(case x of None \<Rightarrow> Some None | Some v \<Rightarrow> Some (Some v)) = Some x" for x :: "'a option"
      by (cases x) simp_all
    with keylist.all_added [OF empty_inv(1), of kvs 8] assms show ?thesis
      by (simp add: empty_inv keylist_put_def [abs_def] cong: option.case_cong)
  qed
  then show ?thesis
    unfolding empty_list wp_Some option.sel
  proof (rule wp_mono)
    fix l assume l: "map_inv l \<and> set (list_keys l) = fst ` set kvs \<and> (\<forall>k. Keylist_Data l k = Some (map_of kvs k))"
    then have keys: "list_keys l = sort (map fst kvs)" using keylist.keys_sort [of l "map fst kvs"] assms by auto
    have n: "node_count l = length kvs" using l length_list_keys [of l] by (simp add: keys map_inv_def)
    have "wp (Keylist_Data_Delete mem l k) (\<lambda>(d, m). d = map_of kvs k \<and> list_keys m = remove1 k (sort (map fst kvs)) \<and>
        (\<forall>j. Keylist_Data m j = Some (if j = k then None else map_of kvs j)))" for k
      using keylist_del [of l mem k] keylist.deleted [of l mem k] l keys by (auto simp: wp_iff)
    then show "Keylist_Count l = length kvs \<and> (\<forall>k. Keylist_Data l k = Some (map_of kvs k)) \<and>
        (\<forall>i < length kvs. Keylist_Index_Key l (int i) = Some (Some (sort (map fst kvs) ! i))) \<and>
        (\<forall>k. wp (Keylist_Data_Delete mem l k) (\<lambda>(d, m). d = map_of kvs k \<and>
           list_keys m = remove1 k (sort (map fst kvs)) \<and>
           (\<forall>j. Keylist_Data m j = Some (if j = k then None else map_of kvs j))))"
      using l n keys index_key [of l] by (simp add: Keylist_Count_def map_inv_def)
  qed
qed

definition sample_entries :: "(u32 \<times> string) list" where
  "sample_entries = [(7, ''b''), (3, ''a'')]"

theorem keylist_sorted_map_witness:
  "wp (Keylist_Create True True) (\<lambda>l0. wp (add_all keylist_put sample_entries (the l0)) (\<lambda>l.
    Keylist_Count l = length sample_entries \<and>
    (\<forall>k. Keylist_Data l k = Some (map_of sample_entries k)) \<and>
    (\<forall>i < length sample_entries. Keylist_Index_Key l (int i) = Some (Some (sort (map fst sample_entries) ! i))) \<and>
    (\<forall>k. wp (Keylist_Data_Delete True l k) (\<lambda>(d, m). d = map_of sample_entries k \<and>
       list_keys m = remove1 k (sort (map fst sample_entries)) \<and>
       (\<forall>j. Keylist_Data m j = Some (if j = k then None else map_of sample_entries j))))))"
  by (rule keylist_sorted_map) (simp add: sample_entries_def)

text \<open>No key is the last one: the mask cuts off the bit that \<open>KEY_ID_MAX\<close> has.\<close>

lemma never_last: "KEY_LAST key = False"
proof -
  have "key AND KEY_ID_MASK = take_bit 22 key" by (simp add: KEY_ID_MASK_def take_bit_eq_mask mask_numeral)
  then have "uint (key AND KEY_ID_MASK) < 2 ^ 22" using take_bit_int_less_exp [of 22 "uint key"] by (simp add: unsigned_take_bit_eq)
  then show ?thesis by (simp add: KEY_LAST_def KEY_ID_MAX_def)
qed

text \<open>The search for a free key meets one after at most as many steps as there are nodes.\<close>

lemma next_empty_key:
  assumes "keylist_inv l" "key + of_nat n \<notin> set (list_keys l)" "\<forall>m < n. key + of_nat m \<in> set (list_keys l)"
  shows "Keylist_Next_Empty_Key l key = Some (key + of_nat n)"
  using assms(2,3)
proof (induction n arbitrary: key)
  case 0
  then show ?case
    using FindIndex_spec [OF assms(1), of key] by (subst Keylist_Next_Empty_Key.simps) (auto simp: wp_iff)
next
  case (Suc n)
  note never_last [of key]
  moreover have step: "key + 1 + of_nat m = key + of_nat (Suc m)" for m by simp
  moreover have "Keylist_Next_Empty_Key l (key + 1) = Some (key + 1 + of_nat n)"
    by (intro Suc.IH) (use Suc.prems in \<open>simp_all only: step, auto\<close>)
  ultimately show ?case
    using FindIndex_spec [OF assms(1), of key] Suc.prems(2)
    by (subst Keylist_Next_Empty_Key.simps) (auto simp: wp_iff add.assoc)
qed

lemma some_key_free:
  assumes "keylist_inv l" "node_count l < 2 ^ 32"
  shows "\<exists>n \<le> node_count l. key + of_nat n \<notin> set (list_keys l) \<and> (\<forall>m < n. key + of_nat m \<in> set (list_keys l))"
proof -
  let ?P = "\<lambda>n. n \<le> node_count l \<and> key + of_nat n \<notin> set (list_keys l)"
  have "\<exists>n. ?P n"
  proof (rule ccontr)
    assume "\<nexists>n. ?P n"
    then have "(\<lambda>n. key + of_nat n) ` {..node_count l} \<subseteq> set (list_keys l)" by auto
    moreover have "inj_on (\<lambda>n. key + of_nat n) {..node_count l}"
      using assms(2) by (auto simp: inj_on_def word_of_nat_eq_iff take_bit_nat_eq_self)
    ultimately have "Suc (node_count l) \<le> card (set (list_keys l))"
      using card_inj_on_le [of "\<lambda>n. key + of_nat n" "{..node_count l}" "set (list_keys l)"] by simp
    with length_list_keys [OF assms(1)] card_length [of "list_keys l"] show False by simp
  qed
  then have "?P (LEAST n. ?P n)" by (rule LeastI_ex)
  moreover have "\<forall>m < (LEAST n. ?P n). key + of_nat m \<in> set (list_keys l)"
    using calculation not_less_Least [of _ ?P] by fastforce
  ultimately show ?thesis by blast
qed

lemma data_free:
  assumes "keylist_inv l"
  shows "wp (Keylist_Data_Free mem l) (\<lambda>(ds, m). ds = map node_data (rev (nodes l)) \<and> node_count m = 0)"
  using assms
proof (induction "node_count l" arbitrary: l)
  case 0
  then show ?case by (subst Keylist_Data_Free.simps) (simp add: Keylist_Count_def nodes_def)
next
  case (Suc n)
  then have len: "length (nodes l) = Suc n" by (simp add: keylist_inv_def)
  then have snoc: "nodes l = take n (nodes l) @ [nodes l ! n]" by (metis lessI take_Suc_conv_app_nth take_all order_refl)
  have "int (node_count l) - 1 = int n" using Suc.hyps(2) by linarith
  then obtain d m where p: "Keylist_Data_Pop (mem (node_count l)) l = Some (d, m)" "keylist_inv m"
      "d = node_data (nodes l ! n)" "nodes m = take n (nodes l)"
    using Keylist_Data_Delete_By_Index_spec [OF Suc.prems, of "int n" "mem (node_count l)"] Suc.hyps(2) len
    by (auto simp: Keylist_Data_Pop_def wp_iff)
  have "n = node_count m" using p(2,4) len length_nodes [of m] by (simp add: keylist_inv_def)
  from Suc.hyps(1) [OF this p(2)] obtain m' where
      "Keylist_Data_Free mem m = Some (map node_data (rev (nodes m)), m')" "node_count m' = 0"
    by (auto simp: wp_iff)
  moreover have "map node_data (rev (nodes l)) = d # map node_data (rev (nodes m))"
    by (subst snoc) (simp add: p)
  ultimately show ?case
    using Suc.hyps(2) p(1) by (subst Keylist_Data_Free.simps) (simp add: Keylist_Count_def)
qed

lemma delete_all:
  assumes "keylist_inv l"
  shows "wp (Keylist_Delete mem l) (\<lambda>m. node_count m = 0)"
  using assms
proof (induction "node_count l" arbitrary: l)
  case 0
  then show ?case by (subst Keylist_Delete.simps) simp
next
  case (Suc n)
  obtain d m where d: "Keylist_Data_Delete_By_Index (mem (node_count l)) l 0 = Some (d, m)" "keylist_inv m"
      "nodes m = drop 1 (nodes l)"
    using Keylist_Data_Delete_By_Index_spec [OF Suc.prems, of 0 "mem (node_count l)"] Suc.hyps(2)
    by (auto simp: wp_iff)
  have "n = node_count m"
    using d(2,3) Suc.hyps(2) Suc.prems length_nodes [of m] length_nodes [of l] by (simp add: keylist_inv_def)
  from Suc.hyps(1) [OF this d(2)] show ?case
    using Suc.hyps(2) d(1) by (subst Keylist_Delete.simps) simp
qed

text \<open>
  The loops over a list end. The search for the next empty key returns the first key from the given
  one on that is not in the list, counting modulo \<open>2 ^ 32\<close>, after at most as many steps as there are
  nodes; freeing the data frees each exactly once, from the last to the first; deleting the list
  leaves no node. This holds whether or not the arrays can be shrunk on the way.
\<close>

lemma keylist_loops_end:
  assumes "keylist_inv l" "node_count l < 2 ^ 32"
  shows "(\<exists>n \<le> node_count l. Keylist_Next_Empty_Key l key = Some (key + of_nat n) \<and>
      key + of_nat n \<notin> set (list_keys l) \<and> (\<forall>m < n. key + of_nat m \<in> set (list_keys l))) \<and>
    wp (Keylist_Data_Free mem l) (\<lambda>(ds, m). ds = map node_data (rev (nodes l)) \<and> node_count m = 0) \<and>
    wp (Keylist_Delete mem l) (\<lambda>m. node_count m = 0)"
  using some_key_free [OF assms, of key] next_empty_key [OF assms(1)] data_free [OF assms(1)] delete_all [OF assms(1)]
  by blast

definition full_list :: "string Keylist" where
  "full_list = \<lparr>array = map (\<lambda>k. Some \<lparr>node_key = k, node_data = Some ''x''\<rparr>) [1, 2, 4, 5, 6, 7, 8, 9],
     node_count = 8\<rparr>"

lemma full_list_inv: "keylist_inv full_list"
  by (simp add: keylist_inv_def full_list_def list_keys_def nodes_def)

lemma keylist_loops_end_witness:
  "(\<exists>n \<le> 8. Keylist_Next_Empty_Key full_list 1 = Some (1 + of_nat n) \<and>
      1 + of_nat n \<notin> set (list_keys full_list) \<and> (\<forall>m < n. 1 + of_nat m \<in> set (list_keys full_list))) \<and>
    wp (Keylist_Data_Free (\<lambda>_. True) full_list) (\<lambda>(ds, m). ds = map node_data (rev (nodes full_list)) \<and> node_count m = 0) \<and>
    wp (Keylist_Delete (\<lambda>_. True) full_list) (\<lambda>m. node_count m = 0)"
  using keylist_loops_end [OF full_list_inv, of 1 "\<lambda>_. True"] by (simp add: full_list_def)

lemma array_unchanged: "CheckArraySize False l = Some l"
  by (simp add: CheckArraySize_def Let_def)

lemma place_le: "place ks key \<le> length ks"
  by (simp add: place_def)

lemma add_to_full:
  assumes "keylist_inv l" "node_count l = length (array l)"
  shows "Keylist_Data_Add False True l key data = None"
proof (cases "node_count l = 0")
  case False
  obtain found i where f: "FindIndex l key = Some (found, i)" "0 \<le> i" "i \<le> int (node_count l)"
    using FindIndex_spec [OF assms(1), of key] place_le [of "list_keys l" key] length_list_keys [OF assms(1)]
    by (auto simp: wp_iff split: if_splits)
  then obtain p where p: "i = int p" "p \<le> node_count l" by (metis nat_int_comparison(3) zero_le_imp_eq_int)
  have "move_up i (node_count l) (array l) = (if p = node_count l then Some (array l) else None)"
    using assms(2) p False by (subst move_up.simps) (auto simp: node_at_def store_def)
  then show ?thesis
    using False f assms(2) p by (auto simp: Keylist_Data_Add_def array_unchanged store_def)
qed (use assms in \<open>simp add: Keylist_Data_Add_def array_unchanged store_def\<close>)

lemma add_without_node:
  assumes "keylist_inv l" "node_count l < length (array l)" "key \<notin> set (list_keys l)"
    and p: "p = place (list_keys l) key" "p < node_count l"
  shows "wp (Keylist_Data_Add False False l key data) (\<lambda>(i, m). i = int p \<and>
    nodes m = take (Suc p) (nodes l) @ butlast (drop p (nodes l)))"
proof -
  obtain ns rest where l: "array l = map Some ns @ rest" "node_count l = length ns"
    using assms(1) by (auto simp: keylist_inv_iff)
  have ns: "nodes l = ns" by (simp add: nodes_def l comp_def)
  have "FindIndex l key = Some (False, int p)"
    using FindIndex_spec [OF assms(1), of key] assms(3) p(1) by (auto simp: wp_iff)
  moreover have "move_up (int p) (length ns) (array l) =
      Some (take (Suc p) (map Some ns @ rest) @ take (length ns - p) (drop p (map Some ns @ rest)) @ drop (Suc (length ns)) (array l))"
    using move_up_spec [of p "length ns" "array l"] p(2) assms(2) l by simp
  moreover have "take (length ns - Suc p) (map Some (drop p ns)) = map Some (butlast (drop p ns))"
    by (simp add: butlast_conv_take take_map)
  ultimately show ?thesis
    using p(2) l ns
    by (auto simp: Keylist_Data_Add_def array_unchanged nodes_def comp_def take_map drop_map min_def)
qed

text \<open>
  Two failed allocations go wrong. When the array is full and cannot grow, \<^verbatim>\<open>CheckArraySize\<close> still
  reports success and the addition writes past the end of the array. When the new node cannot be
  allocated, the nodes behind its place have already been moved: the node at the place is in the list
  twice, the last node is lost, and the index that is returned does not tell.
\<close>

lemma keylist_out_of_memory:
  assumes "keylist_inv l"
  shows "(node_count l = length (array l) \<longrightarrow> Keylist_Data_Add False True l key data = None) \<and>
    (node_count l < length (array l) \<and> key \<notin> set (list_keys l) \<and> place (list_keys l) key < node_count l \<longrightarrow>
      wp (Keylist_Data_Add False False l key data) (\<lambda>(i, m). i = int (place (list_keys l) key) \<and>
        nodes m = take (Suc (place (list_keys l) key)) (nodes l) @ butlast (drop (place (list_keys l) key) (nodes l))))"
  using add_to_full [OF assms] add_without_node [OF assms] by blast

definition spare_list :: "string Keylist" where
  "spare_list = \<lparr>array = map (\<lambda>k. Some \<lparr>node_key = k, node_data = Some ''x''\<rparr>) [1, 2, 4] @ replicate 5 None,
     node_count = 3\<rparr>"

lemma keylist_out_of_memory_witness:
  "Keylist_Data_Add False True full_list 3 (Some ''y'') = None \<and>
   wp (Keylist_Data_Add False False spare_list 0 (Some ''y'')) (\<lambda>(i, m). i = 0 \<and> list_keys m = [1, 1, 2])"
proof -
  have "keylist_inv spare_list" by (simp add: keylist_inv_def spare_list_def list_keys_def nodes_def)
  from keylist_out_of_memory [OF this, of 0 "Some ''y''"] keylist_out_of_memory [OF full_list_inv, of 3 "Some ''y''"]
  show ?thesis
    by (auto simp: full_list_def spare_list_def list_keys_def nodes_def place_def elim!: wp_mono)
qed

end
