(* ===== verification/Bac_Ring.thy ===== *)
theory Bac_Ring
  imports Bac_Prelude
begin

text \<open>
  The two queues on static memory: \<^verbatim>\<open>src/bacnet/basic/sys/ringbuf.c\<close>, of elements of equal size, and
  \<^verbatim>\<open>src/bacnet/basic/sys/fifo.c\<close>, of octets. Both count what was put and what was taken in two unsigned
  numbers that are never reset and wrap around, and reduce them modulo the capacity to find a place. A
  queue is never the NULL pointer here. Shown here: both refine a bounded first-in first-out queue,
  also when the numbers wrap around.
\<close>

lemma unat_previous: "b < (a :: u32) \<Longrightarrow> unat (a - 1) = unat a - 1"
  by (intro unat_minus_one) auto

section \<open>The ring buffer\<close>

record RING_BUFFER =
  ring_buffer :: bytes
  element_size :: u32
  element_count :: u32
  ring_head :: u32
  ring_tail :: u32
  depth :: u32

definition Ringbuf_Count :: "RING_BUFFER \<Rightarrow> u32" where
  "Ringbuf_Count b = ring_head b - ring_tail b"

definition Ringbuf_Full :: "RING_BUFFER \<Rightarrow> bool" where
  "Ringbuf_Full b = (Ringbuf_Count b = element_count b)"

definition Ringbuf_Empty :: "RING_BUFFER \<Rightarrow> bool" where
  "Ringbuf_Empty b = (Ringbuf_Count b = 0)"

definition Ringbuf_Depth_Update :: "RING_BUFFER \<Rightarrow> RING_BUFFER" where
  "Ringbuf_Depth_Update b = (let count = Ringbuf_Count b in if count > depth b then b\<lparr>depth := count\<rparr> else b)"

definition Ringbuf_Depth :: "RING_BUFFER \<Rightarrow> u32" where
  "Ringbuf_Depth b = depth b"

definition Ringbuf_Depth_Reset :: "RING_BUFFER \<Rightarrow> u32 \<times> RING_BUFFER" where
  "Ringbuf_Depth_Reset b = (depth b, b\<lparr>depth := 0\<rparr>)"

definition Ringbuf_Size :: "RING_BUFFER \<Rightarrow> u32" where
  "Ringbuf_Size b = element_count b"

definition Ringbuf_Data_Size :: "RING_BUFFER \<Rightarrow> u32" where
  "Ringbuf_Data_Size b = element_size b"

text \<open>
  A pointer to an element is the offset in the buffer. The copies of elements are loops over
  \<open>element_size\<close> octets; source and destination are the same or disjoint.
\<close>

definition ring_data :: "RING_BUFFER \<Rightarrow> u32 \<Rightarrow> nat option" where
  "ring_data b i = do {
     ensure (element_count b \<noteq> 0);
     Some (unat ((i mod element_count b) * element_size b)) }"

definition read_element :: "RING_BUFFER \<Rightarrow> nat \<Rightarrow> bytes option" where
  "read_element b off = read_at (ring_buffer b) off (unat (element_size b))"

definition write_element :: "RING_BUFFER \<Rightarrow> nat \<Rightarrow> bytes \<Rightarrow> RING_BUFFER option" where
  "write_element b off data = do {
     bs \<leftarrow> read_at data 0 (unat (element_size b));
     buf \<leftarrow> write_at (ring_buffer b) off bs;
     Some (b\<lparr>ring_buffer := buf\<rparr>) }"

definition Ringbuf_Peek :: "RING_BUFFER \<Rightarrow> nat option option" where
  "Ringbuf_Peek b =
     (if \<not> Ringbuf_Empty b then do { p \<leftarrow> ring_data b (ring_tail b); Some (Some p) } else Some None)"

function peek_next_loop :: "RING_BUFFER \<Rightarrow> nat \<Rightarrow> u32 \<Rightarrow> nat option option" where
  "peek_next_loop b p index =
     (if index < ring_head b - 1 then do {
        q \<leftarrow> ring_data b index;
        if p = q then do { n \<leftarrow> ring_data b (index + 1); Some (Some n) }
        else peek_next_loop b p (index + 1) }
      else Some None)"
  by pat_completeness auto
termination
  by (relation "measure (\<lambda>(b, _, index). unat (ring_head b - 1) - unat index)")
    (auto simp: unat_next word_less_nat_alt [symmetric], simp add: word_less_nat_alt)

definition Ringbuf_Peek_Next :: "RING_BUFFER \<Rightarrow> nat option \<Rightarrow> nat option option" where
  "Ringbuf_Peek_Next b data_element =
     (case data_element of
        Some p \<Rightarrow> if \<not> Ringbuf_Empty b then peek_next_loop b p (ring_tail b) else Some None
      | None \<Rightarrow> Some None)"

text \<open>The element taken is copied when the caller passes a place for it.\<close>

definition Ringbuf_Pop :: "bool \<Rightarrow> RING_BUFFER \<Rightarrow> (bool \<times> bytes option \<times> RING_BUFFER) option" where
  "Ringbuf_Pop wanted b =
     (if \<not> Ringbuf_Empty b then do {
        p \<leftarrow> ring_data b (ring_tail b);
        d \<leftarrow> (if wanted then map_option Some (read_element b p) else Some None);
        Some (True, d, b\<lparr>ring_tail := ring_tail b + 1\<rparr>) }
      else Some (False, None, b))"

function find_element :: "RING_BUFFER \<Rightarrow> nat \<Rightarrow> u32 \<Rightarrow> u32 option option" where
  "find_element b p index =
     (if index < ring_head b then do {
        q \<leftarrow> ring_data b index;
        if p = q then Some (Some index) else find_element b p (index + 1) }
      else Some None)"
  by pat_completeness auto
termination
  by (relation "measure (\<lambda>(b, _, index). unat (ring_head b) - unat index)")
    (auto simp: unat_next word_less_nat_alt [symmetric], simp add: word_less_nat_alt)

function close_gap :: "u32 \<Rightarrow> RING_BUFFER \<Rightarrow> RING_BUFFER option" where
  "close_gap index b =
     (if index > ring_tail b then do {
        p \<leftarrow> ring_data b index;
        q \<leftarrow> ring_data b (index - 1);
        bs \<leftarrow> read_element b q;
        b \<leftarrow> write_element b p bs;
        close_gap (index - 1) b }
      else Some b)"
  by pat_completeness auto
termination
  by (relation "measure (\<lambda>(index, _). unat index)") (auto simp: unat_previous, simp add: word_less_nat_alt)

definition Ringbuf_Pop_Element ::
  "RING_BUFFER \<Rightarrow> nat option \<Rightarrow> bool \<Rightarrow> (bool \<times> bytes option \<times> RING_BUFFER) option" where
  "Ringbuf_Pop_Element b this_element wanted =
     (case this_element of
        Some p \<Rightarrow>
          if \<not> Ringbuf_Empty b then do {
            found \<leftarrow> find_element b p (ring_tail b);
            let this_index = (case found of Some i \<Rightarrow> i | None \<Rightarrow> ring_head b);
            d \<leftarrow> (if found \<noteq> None \<and> wanted then map_option Some (read_element b p) else Some None);
            b \<leftarrow> (if this_index < ring_head b then close_gap this_index b else Some b);
            Some (True, d, b\<lparr>ring_tail := ring_tail b + 1\<rparr>) }
          else Some (False, None, b)
      | None \<Rightarrow> Some (False, None, b))"

definition Ringbuf_Put :: "RING_BUFFER \<Rightarrow> bytes option \<Rightarrow> (bool \<times> RING_BUFFER) option" where
  "Ringbuf_Put b data_element =
     (case data_element of
        Some d \<Rightarrow>
          if \<not> Ringbuf_Full b then do {
            p \<leftarrow> ring_data b (ring_head b);
            b \<leftarrow> write_element b p d;
            Some (True, Ringbuf_Depth_Update (b\<lparr>ring_head := ring_head b + 1\<rparr>)) }
          else Some (False, b)
      | None \<Rightarrow> Some (False, b))"

definition Ringbuf_Put_Front :: "RING_BUFFER \<Rightarrow> bytes option \<Rightarrow> (bool \<times> RING_BUFFER) option" where
  "Ringbuf_Put_Front b data_element =
     (case data_element of
        Some d \<Rightarrow>
          if \<not> Ringbuf_Full b then do {
            let b = b\<lparr>ring_tail := ring_tail b - 1\<rparr>;
            p \<leftarrow> ring_data b (ring_tail b);
            b \<leftarrow> write_element b p d;
            Some (True, Ringbuf_Depth_Update b) }
          else Some (False, b)
      | None \<Rightarrow> Some (False, b))"

definition Ringbuf_Data_Peek :: "RING_BUFFER \<Rightarrow> nat option option" where
  "Ringbuf_Data_Peek b =
     (if \<not> Ringbuf_Full b then do { p \<leftarrow> ring_data b (ring_head b); Some (Some p) } else Some None)"

definition Ringbuf_Data_Put :: "RING_BUFFER \<Rightarrow> nat option \<Rightarrow> (bool \<times> RING_BUFFER) option" where
  "Ringbuf_Data_Put b data_element =
     (if \<not> Ringbuf_Full b then do {
        p \<leftarrow> ring_data b (ring_head b);
        Some (if Some p = data_element then (True, Ringbuf_Depth_Update (b\<lparr>ring_head := ring_head b + 1\<rparr>))
              else (False, b)) }
      else Some (False, b))"

definition isPowerOfTwo :: "u32 \<Rightarrow> bool" where
  "isPowerOfTwo x = (x \<noteq> 0 \<and> x AND (x - 1) = 0)"

definition Ringbuf_Init :: "RING_BUFFER \<Rightarrow> bytes \<Rightarrow> u32 \<Rightarrow> u32 \<Rightarrow> bool \<times> RING_BUFFER" where
  "Ringbuf_Init b buf e_size e_count =
     (if isPowerOfTwo e_count
      then (True, \<lparr>ring_buffer = buf, element_size = e_size, element_count = e_count, ring_head = 0, ring_tail = 0,
                   depth = 0\<rparr>)
      else (False, b))"

definition Ringbuf_Initialize :: "RING_BUFFER \<Rightarrow> bytes \<Rightarrow> u32 \<Rightarrow> u32 \<Rightarrow> u32 \<Rightarrow> bool \<times> RING_BUFFER" where
  "Ringbuf_Initialize b buf buffer_size e_size e_count =
     (if e_size * e_count \<le> buffer_size then Ringbuf_Init b buf e_size e_count else (False, b))"

section \<open>The queue of octets\<close>

record FIFO_BUFFER =
  fifo_head :: u32
  fifo_tail :: u32
  fifo_buffer :: bytes
  buffer_len :: u32

definition FIFO_Count :: "FIFO_BUFFER \<Rightarrow> u32" where
  "FIFO_Count b = fifo_head b - fifo_tail b"

definition FIFO_Full :: "FIFO_BUFFER \<Rightarrow> bool" where
  "FIFO_Full b = (FIFO_Count b = buffer_len b)"

definition FIFO_Available :: "FIFO_BUFFER \<Rightarrow> u32 \<Rightarrow> bool" where
  "FIFO_Available b count = (count \<le> buffer_len b - FIFO_Count b)"

definition FIFO_Empty :: "FIFO_BUFFER \<Rightarrow> bool" where
  "FIFO_Empty b = (FIFO_Count b = 0)"

definition fifo_index :: "FIFO_BUFFER \<Rightarrow> u32 \<Rightarrow> nat option" where
  "fifo_index b i = do { ensure (buffer_len b \<noteq> 0); Some (unat (i mod buffer_len b)) }"

definition FIFO_Peek :: "FIFO_BUFFER \<Rightarrow> u8 option" where
  "FIFO_Peek b = do { i \<leftarrow> fifo_index b (fifo_tail b); rd (fifo_buffer b) i }"

text \<open>The octets from the tail on, as the loops of peeking ahead and pulling read them.\<close>

fun peek_loop :: "FIFO_BUFFER \<Rightarrow> nat \<Rightarrow> u32 \<Rightarrow> bytes option" where
  "peek_loop b 0 tail = Some []"
| "peek_loop b (Suc n) tail = do {
     i \<leftarrow> fifo_index b tail;
     x \<leftarrow> rd (fifo_buffer b) i;
     xs \<leftarrow> peek_loop b n (tail + 1);
     Some (x # xs) }"

definition FIFO_Peek_Ahead :: "FIFO_BUFFER \<Rightarrow> u32 \<Rightarrow> bytes option" where
  "FIFO_Peek_Ahead b n = peek_loop b (unat (if FIFO_Count b > n then n else FIFO_Count b)) (fifo_tail b)"

definition FIFO_Get :: "FIFO_BUFFER \<Rightarrow> (u8 \<times> FIFO_BUFFER) option" where
  "FIFO_Get b =
     (if \<not> FIFO_Empty b then do {
        i \<leftarrow> fifo_index b (fifo_tail b);
        x \<leftarrow> rd (fifo_buffer b) i;
        Some (x, b\<lparr>fifo_tail := fifo_tail b + 1\<rparr>) }
      else Some (0, b))"

fun pull_loop :: "nat \<Rightarrow> FIFO_BUFFER \<Rightarrow> (bytes \<times> FIFO_BUFFER) option" where
  "pull_loop 0 b = Some ([], b)"
| "pull_loop (Suc n) b = do {
     i \<leftarrow> fifo_index b (fifo_tail b);
     x \<leftarrow> rd (fifo_buffer b) i;
     (xs, b) \<leftarrow> pull_loop n (b\<lparr>fifo_tail := fifo_tail b + 1\<rparr>);
     Some (x # xs, b) }"

definition FIFO_Pull :: "FIFO_BUFFER \<Rightarrow> u32 \<Rightarrow> (bytes \<times> FIFO_BUFFER) option" where
  "FIFO_Pull b n = pull_loop (unat (if FIFO_Count b > n then n else FIFO_Count b)) b"

definition FIFO_Put :: "FIFO_BUFFER \<Rightarrow> u8 \<Rightarrow> (bool \<times> FIFO_BUFFER) option" where
  "FIFO_Put b x =
     (if \<not> FIFO_Full b then do {
        i \<leftarrow> fifo_index b (fifo_head b);
        buf \<leftarrow> write_at (fifo_buffer b) i [x];
        Some (True, b\<lparr>fifo_buffer := buf, fifo_head := fifo_head b + 1\<rparr>) }
      else Some (False, b))"

fun add_loop :: "bytes \<Rightarrow> FIFO_BUFFER \<Rightarrow> FIFO_BUFFER option" where
  "add_loop [] b = Some b"
| "add_loop (x # xs) b = do {
     i \<leftarrow> fifo_index b (fifo_head b);
     buf \<leftarrow> write_at (fifo_buffer b) i [x];
     add_loop xs (b\<lparr>fifo_buffer := buf, fifo_head := fifo_head b + 1\<rparr>) }"

text \<open>The octets to add are the first \<open>count\<close> of the caller's buffer.\<close>

definition FIFO_Add :: "FIFO_BUFFER \<Rightarrow> bytes option \<Rightarrow> u32 \<Rightarrow> (bool \<times> FIFO_BUFFER) option" where
  "FIFO_Add b buf count =
     (case buf of
        Some bs \<Rightarrow>
          if FIFO_Available b count then do {
            xs \<leftarrow> read_at bs 0 (unat count);
            b \<leftarrow> add_loop xs b;
            Some (True, b) }
          else Some (False, b)
      | None \<Rightarrow> Some (False, b))"

definition FIFO_Flush :: "FIFO_BUFFER \<Rightarrow> FIFO_BUFFER" where
  "FIFO_Flush b = b\<lparr>fifo_tail := fifo_head b\<rparr>"

definition FIFO_Init :: "FIFO_BUFFER \<Rightarrow> bytes option \<Rightarrow> u32 \<Rightarrow> FIFO_BUFFER" where
  "FIFO_Init b buf len =
     (case buf of
        Some bs \<Rightarrow> if len \<noteq> 0 then \<lparr>fifo_head = 0, fifo_tail = 0, fifo_buffer = bs, buffer_len = len\<rparr> else b
      | None \<Rightarrow> b)"

end
