(* ===== verification/Bac_Queue.thy ===== *)
theory Bac_Queue
  imports Bac_Ring
begin

text \<open>
  The queues of \<open>Bac_Ring\<close> against a bounded first-in first-out queue: the interface \<open>bounded_queue\<close>, its
  interpretation for both, and what one entry point of the ring buffer does when it does not find the
  element it is asked for.
\<close>

section \<open>The interface of a bounded queue\<close>

text \<open>
  A client puts items and gets them; a put is refused when the queue is full, a get when it is empty.
  A history is a list of calls; its results are the items accepted and the items delivered. The
  specification is the same history on a list.
\<close>

datatype 'a call = Put 'a | Get

fun run :: "('s \<Rightarrow> 'a \<Rightarrow> (bool \<times> 's) option) \<Rightarrow> ('s \<Rightarrow> ('a option \<times> 's) option) \<Rightarrow> 'a call list \<Rightarrow> 's
    \<Rightarrow> ('a list \<times> 'a list \<times> 's) option" where
  "run put get [] s = Some ([], [], s)"
| "run put get (Put x # cs) s = do {
     (accepted, s) \<leftarrow> put s x;
     (ins, outs, s) \<leftarrow> run put get cs s;
     Some (if accepted then x # ins else ins, outs, s) }"
| "run put get (Get # cs) s = do {
     (r, s) \<leftarrow> get s;
     (ins, outs, s) \<leftarrow> run put get cs s;
     Some (ins, (case r of None \<Rightarrow> outs | Some x \<Rightarrow> x # outs), s) }"

fun queue_run :: "nat \<Rightarrow> 'a call list \<Rightarrow> 'a list \<Rightarrow> 'a list \<times> 'a list \<times> 'a list" where
  "queue_run n [] q = ([], [], q)"
| "queue_run n (Put x # cs) q =
     (if length q < n then let (ins, outs, q') = queue_run n cs (q @ [x]) in (x # ins, outs, q')
      else queue_run n cs q)"
| "queue_run n (Get # cs) [] = queue_run n cs []"
| "queue_run n (Get # cs) (x # q) = (let (ins, outs, q') = queue_run n cs q in (ins, x # outs, q'))"

lemma queue_run_order: "queue_run n cs q = (ins, outs, q') \<Longrightarrow> q @ ins = outs @ q'"
  by (induction n cs q arbitrary: ins outs q' rule: queue_run.induct)
    (fastforce split: if_splits prod.splits)+

locale bounded_queue =
  fixes inv :: "'s \<Rightarrow> bool"
    and items :: "'s \<Rightarrow> 'a list"
    and capacity :: "'s \<Rightarrow> nat"
    and ok :: "'s \<Rightarrow> 'a \<Rightarrow> bool"
    and put :: "'s \<Rightarrow> 'a \<Rightarrow> (bool \<times> 's) option"
    and get :: "'s \<Rightarrow> ('a option \<times> 's) option"
  assumes put_law: "inv s \<Longrightarrow> ok s x \<Longrightarrow> wp (put s x) (\<lambda>(r, t). inv t \<and> capacity t = capacity s \<and> ok t = ok s \<and>
      r = (length (items s) < capacity s) \<and> items t = items s @ (if r then [x] else []))"
    and get_law: "inv s \<Longrightarrow> wp (get s) (\<lambda>(r, t). inv t \<and> capacity t = capacity s \<and> ok t = ok s \<and>
      items s = (case r of None \<Rightarrow> [] | Some x \<Rightarrow> [x]) @ items t \<and> (r = None \<longrightarrow> items s = []))"
    and bounded: "inv s \<Longrightarrow> length (items s) \<le> capacity s"
begin

lemma refines:
  assumes "inv s" "\<And>x. Put x \<in> set cs \<Longrightarrow> ok s x"
  shows "wp (run put get cs s) (\<lambda>(ins, outs, t). inv t \<and> capacity t = capacity s \<and>
    (ins, outs, items t) = queue_run (capacity s) cs (items s))"
  using assms
proof (induction cs arbitrary: s)
  case (Cons c cs)
  show ?case
  proof (cases c)
    case (Put x)
    have "wp (put s x) (\<lambda>(r, t). inv t \<and> capacity t = capacity s \<and> ok t = ok s \<and>
        r = (length (items s) < capacity s) \<and> items t = items s @ (if r then [x] else []))"
      using Cons.prems Put by (intro put_law) auto
    then obtain t where t: "put s x = Some (length (items s) < capacity s, t)" "inv t" "capacity t = capacity s"
        "ok t = ok s" "items t = items s @ (if length (items s) < capacity s then [x] else [])"
      by (auto simp: wp_iff)
    have "wp (run put get cs t) (\<lambda>(ins, outs, u). inv u \<and> capacity u = capacity t \<and>
        (ins, outs, items u) = queue_run (capacity t) cs (items t))"
      using t Cons.prems by (intro Cons.IH) auto
    then show ?thesis using t Put by (auto elim!: wp_mono split: prod.splits)
  next
    case Get
    obtain r t where t: "get s = Some (r, t)" "inv t" "capacity t = capacity s" "ok t = ok s"
        "items s = (case r of None \<Rightarrow> [] | Some x \<Rightarrow> [x]) @ items t" "r = None \<longrightarrow> items s = []"
      using get_law [OF Cons.prems(1)] by (auto simp: wp_iff)
    have "wp (run put get cs t) (\<lambda>(ins, outs, u). inv u \<and> capacity u = capacity t \<and>
        (ins, outs, items u) = queue_run (capacity t) cs (items t))"
      using t Cons.prems by (intro Cons.IH) auto
    then show ?thesis using t Get by (cases r) (auto elim!: wp_mono split: prod.splits)
  qed
qed simp

end

section \<open>Places in a ring\<close>

lemma power_of_two_nat: "n > 0 \<Longrightarrow> n AND (n - 1) = 0 \<Longrightarrow> \<exists>k. n = (2 :: nat) ^ k"
proof (induction n rule: less_induct)
  case (less n)
  have half: "n div 2 AND (n - 1) div 2 = 0"
    using arg_cong [OF less.prems(2), of "drop_bit (Suc 0)"] by (simp add: drop_bit_and drop_bit_Suc)
  show ?case
  proof (cases "even n")
    case True
    then obtain m where m: "n = 2 * m" by blast
    then have "m AND (m - 1) = 0" using half less.prems(1) by (cases m) auto
    then obtain k where "m = 2 ^ k" using less.IH [of m] m less.prems(1) by auto
    then show ?thesis using m by (metis power_Suc)
  next
    case False
    then obtain m where m: "n = 2 * m + 1" by (elim oddE)
    then have "n div 2 = m" "(n - 1) div 2 = m" by simp_all
    then have "n div 2 = 0" using half by simp
    then show ?thesis using less.prems(1) by (intro exI [of _ 0]) auto
  qed
qed

lemma isPowerOfTwo_power: "isPowerOfTwo n \<Longrightarrow> \<exists>k < 32. unat n = 2 ^ k"
proof -
  assume n: "isPowerOfTwo n"
  then have "unat n AND (unat n - 1) = 0"
    unfolding isPowerOfTwo_def by (metis unat_minus_one unsigned_and_eq unsigned_0)
  moreover have "unat n > 0" using n by (simp add: isPowerOfTwo_def unat_gt_0)
  ultimately obtain k where k: "unat n = 2 ^ k" using power_of_two_nat by blast
  moreover have "k < 32" using unat_bounds(3) [of n] k power_less_imp_less_exp [of 2 k 32] by simp
  ultimately show ?thesis by blast
qed

text \<open>
  The content of a ring of \<open>n\<close> places, from \<open>tail\<close> up to \<open>head\<close>, when \<open>f\<close> gives the element at a place.
\<close>

definition ring_place :: "u32 \<Rightarrow> u32 \<Rightarrow> nat" where
  "ring_place n i = unat (i mod n)"

definition ring_items :: "u32 \<Rightarrow> (nat \<Rightarrow> 'a) \<Rightarrow> u32 \<Rightarrow> u32 \<Rightarrow> 'a list" where
  "ring_items n f tail head = map (\<lambda>i. f (ring_place n (tail + of_nat i))) [0..<unat (head - tail)]"

lemma length_ring_items [simp]: "length (ring_items n f tail head) = unat (head - tail)"
  by (simp add: ring_items_def)

lemma ring_place_less: "isPowerOfTwo n \<Longrightarrow> ring_place n i < unat n"
  by (simp add: ring_place_def isPowerOfTwo_def unat_mod unat_gt_0)

lemma ring_place_plus:
  assumes "isPowerOfTwo n"
  shows "ring_place n (t + of_nat i) = (unat t + i) mod unat n"
proof -
  obtain k where k: "unat n = 2 ^ k" "k < 32" using isPowerOfTwo_power [OF assms] by blast
  then have "unat n dvd 2 ^ 32" using le_imp_power_dvd [of k 32 "2 :: nat"] by simp
  moreover have "unat (t + of_nat i) = (unat t + i) mod 2 ^ 32"
    by (simp add: unat_word_ariths unat_of_nat mod_simps)
  ultimately show ?thesis by (simp add: ring_place_def unat_mod mod_mod_cancel)
qed

lemma ring_place_distinct:
  assumes "isPowerOfTwo n" "i < unat n" "j < unat n" "ring_place n (t + of_nat i) = ring_place n (t + of_nat j)"
  shows "i = j"
proof -
  have eq: "(unat t + i) mod unat n = (unat t + j) mod unat n" using assms(1,4) by (simp add: ring_place_plus)
  have "b \<le> a" if "(unat t + a) mod unat n = (unat t + b) mod unat n" "a \<le> b" "b < unat n" for a b
    using that mod_eq_dvd_iff_nat [of "unat t + a" "unat t + b" "unat n"] by (auto dest: dvd_imp_le)
  from this [OF eq] this [OF eq [symmetric]] assms(2,3) show ?thesis by (meson le_antisym nat_le_linear)
qed

lemma ring_items_put:
  assumes "isPowerOfTwo n" "unat (head - tail) < unat n"
    and "g (ring_place n head) = x" "\<And>p. p \<noteq> ring_place n head \<Longrightarrow> p < unat n \<Longrightarrow> g p = f p"
  shows "ring_items n g tail (head + 1) = ring_items n f tail head @ [x]"
proof -
  let ?c = "unat (head - tail)"
  have "head - tail < n" using assms(2) by (simp add: word_less_nat_alt)
  from unat_next [OF this] have c: "unat (head + 1 - tail) = Suc ?c" by (simp add: algebra_simps)
  have h: "tail + of_nat ?c = head" by simp
  have "g (ring_place n (tail + of_nat i)) = f (ring_place n (tail + of_nat i))" if "i < ?c" for i
    using that assms(2) ring_place_distinct [OF assms(1), of i ?c tail] ring_place_less [OF assms(1)]
    by (intro assms(4)) (auto simp: h)
  then show ?thesis using assms(3) by (simp add: ring_items_def c h)
qed

lemma ring_items_get:
  assumes "head \<noteq> tail"
  shows "ring_items n f tail head = f (ring_place n tail) # ring_items n f (tail + 1) head"
proof -
  have "head - tail \<noteq> 0" using assms by simp
  then have "unat (head - tail) > 0" "unat (head - tail - 1) = unat (head - tail) - 1"
    by (simp_all add: unat_gt_0 unat_minus_one)
  moreover have "head - tail - 1 = head - (tail + 1)" by simp
  ultimately have "unat (head - tail) = Suc (unat (head - (tail + 1)))" by simp
  then show ?thesis by (simp add: ring_items_def upt_conv_Cons map_Suc_upt [symmetric] comp_def add.assoc del: upt_Suc)
qed

lemma ring_items_put_front:
  assumes "isPowerOfTwo n" "unat (head - tail) < unat n"
    and "g (ring_place n (tail - 1)) = x" "\<And>p. p \<noteq> ring_place n (tail - 1) \<Longrightarrow> p < unat n \<Longrightarrow> g p = f p"
  shows "ring_items n g (tail - 1) head = x # ring_items n f tail head"
proof -
  have "head \<noteq> tail - 1"
  proof
    assume "head = tail - 1"
    then have "unat (head - tail) = 4294967295" by (simp add: unsigned_minus_1_eq_mask mask_numeral)
    then show False using assms(2) unat_bounds(3) [of n] by simp
  qed
  then have "ring_items n g (tail - 1) head = g (ring_place n (tail - 1)) # ring_items n g tail head"
    using ring_items_get [of head "tail - 1" n g] by simp
  moreover have "g (ring_place n (tail + of_nat i)) = f (ring_place n (tail + of_nat i))" if "i < unat (head - tail)" for i
  proof (rule assms(4) [OF _ ring_place_less [OF assms(1)]])
    have "tail + of_nat i = (tail - 1) + of_nat (Suc i)" "tail - 1 = (tail - 1) + of_nat 0" by simp_all
    then show "ring_place n (tail + of_nat i) \<noteq> ring_place n (tail - 1)"
      using that assms(2) ring_place_distinct [OF assms(1), of "Suc i" 0 "tail - 1"] by fastforce
  qed
  then have "ring_items n g tail head = ring_items n f tail head" by (simp add: ring_items_def)
  ultimately show ?thesis using assms(3) by simp
qed

section \<open>The queue of octets\<close>

definition fifo_inv :: "FIFO_BUFFER \<Rightarrow> bool" where
  "fifo_inv b \<longleftrightarrow> isPowerOfTwo (buffer_len b) \<and> unat (buffer_len b) \<le> length (fifo_buffer b) \<and>
     FIFO_Count b \<le> buffer_len b"

definition fifo_items :: "FIFO_BUFFER \<Rightarrow> bytes" where
  "fifo_items b = ring_items (buffer_len b) (\<lambda>p. fifo_buffer b ! p) (fifo_tail b) (fifo_head b)"

definition fifo_get :: "FIFO_BUFFER \<Rightarrow> (u8 option \<times> FIFO_BUFFER) option" where
  "fifo_get b = (if FIFO_Empty b then Some (None, b) else map_option (apfst Some) (FIFO_Get b))"

lemma fifo_place: "fifo_inv b \<Longrightarrow> fifo_index b i = Some (ring_place (buffer_len b) i)"
    "fifo_inv b \<Longrightarrow> ring_place (buffer_len b) i < length (fifo_buffer b)"
  using ring_place_less [of "buffer_len b" i]
  by (auto simp: fifo_inv_def fifo_index_def ring_place_def isPowerOfTwo_def)

lemma fifo_write:
  fixes x :: u8
  assumes inv: "fifo_inv b" and room: "FIFO_Count b < buffer_len b"
  defines "c \<equiv> b\<lparr>fifo_buffer := (fifo_buffer b)[ring_place (buffer_len b) (fifo_head b) := x], fifo_head := fifo_head b + 1\<rparr>"
  shows "fifo_inv c" "fifo_items c = fifo_items b @ [x]" "FIFO_Count c = FIFO_Count b + 1"
    "write_at (fifo_buffer b) (ring_place (buffer_len b) (fifo_head b)) [x] = Some (fifo_buffer c)"
proof -
  have small: "unat (fifo_head b - fifo_tail b) < unat (buffer_len b)"
    using room by (simp add: FIFO_Count_def word_less_nat_alt)
  show n: "FIFO_Count c = FIFO_Count b + 1" by (simp add: FIFO_Count_def c_def)
  have "FIFO_Count b + 1 \<le> buffer_len b" using room unat_next [OF room] by (simp add: word_less_nat_alt word_le_nat_alt)
  with inv n show "fifo_inv c" by (simp add: fifo_inv_def c_def)
  show "fifo_items c = fifo_items b @ [x]"
    using inv small fifo_place(2) [OF inv, of "fifo_head b"] unfolding fifo_items_def c_def
    by (auto simp: fifo_inv_def intro!: ring_items_put)
  show "write_at (fifo_buffer b) (ring_place (buffer_len b) (fifo_head b)) [x] = Some (fifo_buffer c)"
    using fifo_place(2) [OF inv, of "fifo_head b"] by (simp add: c_def write_at_def upd_conv_take_nth_drop)
qed

lemma fifo_read:
  assumes inv: "fifo_inv b" and some: "FIFO_Count b \<noteq> 0"
  defines "c \<equiv> b\<lparr>fifo_tail := fifo_tail b + 1\<rparr>"
  shows "fifo_inv c" "fifo_items b = fifo_buffer b ! ring_place (buffer_len b) (fifo_tail b) # fifo_items c"
    "unat (FIFO_Count b) = Suc (unat (FIFO_Count c))"
proof -
  have "fifo_head b \<noteq> fifo_tail b" using some by (auto simp: FIFO_Count_def)
  from ring_items_get [OF this] show eq: "fifo_items b =
      fifo_buffer b ! ring_place (buffer_len b) (fifo_tail b) # fifo_items c"
    by (simp add: fifo_items_def c_def)
  from arg_cong [OF eq, of length] show n: "unat (FIFO_Count b) = Suc (unat (FIFO_Count c))"
    by (simp add: fifo_items_def FIFO_Count_def c_def)
  then have "FIFO_Count c \<le> FIFO_Count b" by (simp add: word_le_nat_alt)
  with inv show "fifo_inv c" by (auto simp: fifo_inv_def c_def)
qed

lemma FIFO_Put_spec:
  assumes "fifo_inv b"
  shows "wp (FIFO_Put b x) (\<lambda>(r, c). fifo_inv c \<and> buffer_len c = buffer_len b \<and>
    r = (length (fifo_items b) < unat (buffer_len b)) \<and> fifo_items c = fifo_items b @ (if r then [x] else []))"
proof (cases "FIFO_Full b")
  case True
  then show ?thesis using assms by (simp add: FIFO_Put_def FIFO_Full_def fifo_items_def FIFO_Count_def)
next
  case False
  then have "FIFO_Count b < buffer_len b" using assms by (auto simp: FIFO_Full_def fifo_inv_def)
  from fifo_write [OF assms this, of x] this False assms show ?thesis
    by (simp add: FIFO_Put_def fifo_place fifo_items_def FIFO_Count_def word_less_nat_alt)
qed

lemma fifo_get_spec:
  assumes "fifo_inv b"
  shows "wp (fifo_get b) (\<lambda>(r, c). fifo_inv c \<and> buffer_len c = buffer_len b \<and>
    fifo_items b = (case r of None \<Rightarrow> [] | Some x \<Rightarrow> [x]) @ fifo_items c \<and> (r = None \<longrightarrow> fifo_items b = []))"
proof (cases "FIFO_Empty b")
  case True
  then show ?thesis using assms by (simp add: fifo_get_def FIFO_Empty_def fifo_items_def ring_items_def FIFO_Count_def)
next
  case False
  then have "FIFO_Count b \<noteq> 0" by (simp add: FIFO_Empty_def)
  from fifo_read [OF assms this] False assms show ?thesis by (simp add: fifo_get_def FIFO_Get_def fifo_place)
qed

interpretation octets: bounded_queue fifo_inv fifo_items "\<lambda>b. unat (buffer_len b)" "\<lambda>_ _. True" FIFO_Put fifo_get
proof (unfold_locales, goal_cases)
  case (1 s x)
  then show ?case using FIFO_Put_spec [of s x] by (auto elim!: wp_mono)
next
  case (2 s)
  then show ?case using fifo_get_spec [of s] by (auto elim!: wp_mono)
next
  case (3 s)
  then show ?case by (simp add: fifo_inv_def fifo_items_def FIFO_Count_def word_le_nat_alt)
qed

text \<open>Adding and pulling several octets at once.\<close>

lemma add_loop_spec:
  assumes "fifo_inv b" "unat (FIFO_Count b) + length xs \<le> unat (buffer_len b)"
  shows "wp (add_loop xs b) (\<lambda>c. fifo_inv c \<and> buffer_len c = buffer_len b \<and> fifo_items c = fifo_items b @ xs)"
  using assms
proof (induction xs arbitrary: b)
  case (Cons x xs)
  then have room: "FIFO_Count b < buffer_len b" by (simp add: word_less_nat_alt)
  from Cons.IH [OF fifo_write(1) [OF Cons.prems(1) this, of x]] fifo_write [OF Cons.prems(1) this, of x]
    unat_next [OF this] Cons.prems
  show ?case by (simp add: fifo_place)
qed simp

lemma pull_loop_spec:
  assumes "fifo_inv b" "n \<le> unat (FIFO_Count b)"
  shows "wp (pull_loop n b) (\<lambda>(xs, c). fifo_inv c \<and> buffer_len c = buffer_len b \<and> length xs = n \<and> fifo_items b = xs @ fifo_items c)"
  using assms
proof (induction n arbitrary: b)
  case (Suc n)
  then have "FIFO_Count b \<noteq> 0" by auto
  from Suc.IH [OF fifo_read(1) [OF Suc.prems(1) this]] fifo_read [OF Suc.prems(1) this] Suc.prems
  show ?case by (simp add: fifo_place) (auto elim!: wp_mono)
qed simp

lemma FIFO_Add_spec:
  assumes "fifo_inv b" "unat count \<le> length bs"
  shows "wp (FIFO_Add b (Some bs) count) (\<lambda>(r, c). fifo_inv c \<and>
    r = (length (fifo_items b) + unat count \<le> unat (buffer_len b)) \<and>
    fifo_items c = fifo_items b @ (if r then take (unat count) bs else []))"
proof -
  have "FIFO_Count b \<le> buffer_len b" using assms(1) by (simp add: fifo_inv_def)
  then have "FIFO_Available b count = (unat (FIFO_Count b) + unat count \<le> unat (buffer_len b))"
    by (auto simp: FIFO_Available_def word_le_nat_alt unat_sub)
  moreover have "length (fifo_items b) = unat (FIFO_Count b)" by (simp add: fifo_items_def FIFO_Count_def)
  ultimately show ?thesis
    using assms add_loop_spec [OF assms(1), of "take (unat count) bs"]
    by (auto simp: FIFO_Add_def read_at_def elim!: wp_mono)
qed

lemma FIFO_Pull_spec:
  assumes "fifo_inv b"
  shows "wp (FIFO_Pull b n) (\<lambda>(xs, c). fifo_inv c \<and> xs = take (unat n) (fifo_items b) \<and>
    fifo_items c = drop (unat n) (fifo_items b))"
proof -
  define m where "m = min (unat n) (length (fifo_items b))"
  have count: "unat (FIFO_Count b) = length (fifo_items b)" by (simp add: fifo_items_def FIFO_Count_def)
  have m: "unat (if FIFO_Count b > n then n else FIFO_Count b) = m"
    using count by (auto simp: m_def word_less_nat_alt min_def)
  have "m \<le> unat (FIFO_Count b)" using count by (simp add: m_def)
  from pull_loop_spec [OF assms this] obtain xs c where
      c: "pull_loop m b = Some (xs, c)" "fifo_inv c" "length xs = m" "fifo_items b = xs @ fifo_items c"
    by (auto simp: wp_iff)
  have "xs = take m (fifo_items b)" "fifo_items c = drop m (fifo_items b)" using c(3,4) by simp_all
  moreover have "take m q = take (unat n) q" "drop m q = drop (unat n) q" if "m = min (unat n) (length q)" for q :: bytes
    using that by (auto simp: min_def)
  ultimately have "xs = take (unat n) (fifo_items b)" "fifo_items c = drop (unat n) (fifo_items b)"
    by (metis m_def)+
  then show ?thesis using c(1,2) unfolding FIFO_Pull_def m by simp
qed

lemma peek_loop_pull: "peek_loop b n t = map_option fst (pull_loop n (b\<lparr>fifo_tail := t\<rparr>))"
proof (induction n arbitrary: t)
  case (Suc n)
  show ?case
    by (cases "pull_loop n (b\<lparr>fifo_tail := t + 1\<rparr>)") (auto simp: Suc fifo_index_def ensure_def rd_def)
qed simp

lemma FIFO_Peek_Ahead_spec:
  assumes "fifo_inv b"
  shows "FIFO_Peek_Ahead b n = Some (take (unat n) (fifo_items b))"
  using FIFO_Pull_spec [OF assms, of n] by (auto simp: FIFO_Peek_Ahead_def FIFO_Pull_def peek_loop_pull wp_iff)

section \<open>The ring buffer\<close>

text \<open>
  The elements lie one after the other in the data store, whose size is an unsigned number.
\<close>

definition slot :: "nat \<Rightarrow> bytes \<Rightarrow> nat \<Rightarrow> bytes" where
  "slot n buf p = take n (drop (p * n) buf)"

definition ring_inv :: "RING_BUFFER \<Rightarrow> bool" where
  "ring_inv b \<longleftrightarrow> isPowerOfTwo (element_count b) \<and>
     unat (element_count b) * unat (element_size b) \<le> length (ring_buffer b) \<and>
     unat (element_count b) * unat (element_size b) < 2 ^ 32 \<and> Ringbuf_Count b \<le> element_count b"

definition ring_content :: "RING_BUFFER \<Rightarrow> bytes list" where
  "ring_content b = ring_items (element_count b) (slot (unat (element_size b)) (ring_buffer b)) (ring_tail b) (ring_head b)"

definition element_ok :: "RING_BUFFER \<Rightarrow> bytes \<Rightarrow> bool" where
  "element_ok b d \<longleftrightarrow> length d = unat (element_size b)"

definition ring_get :: "RING_BUFFER \<Rightarrow> (bytes option \<times> RING_BUFFER) option" where
  "ring_get b = map_option snd (Ringbuf_Pop True b)"

definition ring_put :: "RING_BUFFER \<Rightarrow> bytes \<Rightarrow> (bool \<times> RING_BUFFER) option" where
  "ring_put b d = Ringbuf_Put b (Some d)"

lemma slot_end:
  assumes "p < c" "c * n \<le> m"
  shows "p * n + n \<le> (m :: nat)"
proof -
  have "Suc p * n \<le> c * n" using assms(1) by (intro mult_le_mono1) simp
  with assms(2) show ?thesis by simp
qed

lemma slot_write:
  assumes "p * n + n \<le> length buf" "length d = n"
  defines "buf' \<equiv> take (p * n) buf @ d @ drop (p * n + n) buf"
  shows "slot n buf' p = d" "q \<noteq> p \<Longrightarrow> slot n buf' q = slot n buf q"
proof -
  show "slot n buf' p = d" using assms by (simp add: slot_def min_def)
  assume "q \<noteq> p"
  then consider "Suc q \<le> p" | "Suc p \<le> q" by linarith
  then show "slot n buf' q = slot n buf q"
  proof cases
    case 1
    from mult_le_mono1 [OF this, of n] have "q * n + n \<le> p * n" by simp
    with assms show ?thesis by (auto simp: slot_def min_def drop_take)
  next
    case 2
    from mult_le_mono1 [OF this, of n] have "p * n + n \<le> q * n" "p * n - q * n = 0" using 2 by simp_all
    with assms show ?thesis by (auto simp: slot_def min_def drop_take)
  qed
qed

lemma ring_slot:
  assumes "ring_inv b"
  defines "p \<equiv> \<lambda>i. ring_place (element_count b) i" and "n \<equiv> unat (element_size b)"
  shows "ring_data b i = Some (p i * n)" "p i * n + n \<le> length (ring_buffer b)"
    "read_element b (p i * n) = Some (slot n (ring_buffer b) (p i))"
proof -
  have less: "p i < unat (element_count b)" using assms by (simp add: ring_inv_def ring_place_less)
  from slot_end [OF this] assms show bound: "p i * n + n \<le> length (ring_buffer b)" by (simp add: ring_inv_def)
  have "p i * n < 2 ^ 32"
    using less assms(1) le_less_trans [OF mult_le_mono1 [OF less_imp_le [OF less], of n]] by (simp add: ring_inv_def n_def)
  then show "ring_data b i = Some (p i * n)"
    using assms by (simp add: ring_data_def ring_inv_def isPowerOfTwo_def ring_place_def unat_word_ariths)
  show "read_element b (p i * n) = Some (slot n (ring_buffer b) (p i))"
    using bound by (simp add: read_element_def slot_def n_def)
qed

lemma ring_write:
  assumes inv: "ring_inv b" and d: "length d = unat (element_size b)"
  shows "write_element b (ring_place (element_count b) i * unat (element_size b)) d =
      Some (b\<lparr>ring_buffer := (let off = ring_place (element_count b) i * unat (element_size b)
        in take off (ring_buffer b) @ d @ drop (off + unat (element_size b)) (ring_buffer b))\<rparr>)"
  using ring_slot(2) [OF inv, of i] d by (simp add: write_element_def write_at_def read_at_def Let_def)

lemma depth_update [simp]:
  "ring_inv (Ringbuf_Depth_Update b) = ring_inv b" "ring_content (Ringbuf_Depth_Update b) = ring_content b"
  "element_count (Ringbuf_Depth_Update b) = element_count b" "element_size (Ringbuf_Depth_Update b) = element_size b"
  by (simp_all add: Ringbuf_Depth_Update_def ring_inv_def ring_content_def Ringbuf_Count_def Let_def)

lemma ring_not_full:
  assumes "ring_inv b" "\<not> Ringbuf_Full b"
  shows "Ringbuf_Count b < element_count b" "Ringbuf_Count b + 1 \<le> element_count b"
    "unat (ring_head b - ring_tail b) < unat (element_count b)"
proof -
  show less: "Ringbuf_Count b < element_count b" using assms by (auto simp: ring_inv_def Ringbuf_Full_def)
  with unat_next [OF less] show "Ringbuf_Count b + 1 \<le> element_count b"
    "unat (ring_head b - ring_tail b) < unat (element_count b)"
    by (simp_all add: word_less_nat_alt word_le_nat_alt Ringbuf_Count_def)
qed

lemma Ringbuf_Put_spec:
  assumes inv: "ring_inv b" and d: "length d = unat (element_size b)"
  shows "wp (Ringbuf_Put b (Some d)) (\<lambda>(r, c). ring_inv c \<and> element_count c = element_count b \<and> element_size c = element_size b \<and>
    r = (length (ring_content b) < unat (element_count b)) \<and> ring_content c = ring_content b @ (if r then [d] else []))"
proof (cases "Ringbuf_Full b")
  case True
  then show ?thesis using inv by (simp add: Ringbuf_Put_def Ringbuf_Full_def ring_content_def Ringbuf_Count_def)
next
  case False
  note room = ring_not_full [OF inv False]
  define buf where "buf = (let off = ring_place (element_count b) (ring_head b) * unat (element_size b)
        in take off (ring_buffer b) @ d @ drop (off + unat (element_size b)) (ring_buffer b))"
  note w = slot_write [OF ring_slot(2) [OF inv, of "ring_head b"] d]
  have "ring_items (element_count b) (slot (unat (element_size b)) buf) (ring_tail b) (ring_head b + 1) = ring_content b @ [d]"
    unfolding ring_content_def using inv room(3) w by (intro ring_items_put) (auto simp: ring_inv_def buf_def Let_def)
  moreover have "length buf = length (ring_buffer b)"
    using ring_slot(2) [OF inv, of "ring_head b"] d by (simp add: buf_def Let_def)
  ultimately show ?thesis
    using False room inv ring_write [OF inv d, of "ring_head b"] ring_slot(1) [OF inv, of "ring_head b"]
    by (simp add: Ringbuf_Put_def flip: buf_def)
      (simp add: ring_content_def ring_inv_def Ringbuf_Count_def algebra_simps)
qed

lemma Ringbuf_Put_Front_spec:
  assumes inv: "ring_inv b" and d: "length d = unat (element_size b)"
  shows "wp (Ringbuf_Put_Front b (Some d)) (\<lambda>(r, c). ring_inv c \<and> element_count c = element_count b \<and> element_size c = element_size b \<and>
    r = (length (ring_content b) < unat (element_count b)) \<and> ring_content c = (if r then [d] else []) @ ring_content b)"
proof (cases "Ringbuf_Full b")
  case True
  then show ?thesis using inv by (simp add: Ringbuf_Put_Front_def Ringbuf_Full_def ring_content_def Ringbuf_Count_def)
next
  case False
  note room = ring_not_full [OF inv False]
  let ?b = "b\<lparr>ring_tail := ring_tail b - 1\<rparr>"
  have inv': "ring_inv ?b" using inv room(2) by (simp add: ring_inv_def Ringbuf_Count_def algebra_simps)
  define buf where "buf = (let off = ring_place (element_count b) (ring_tail b - 1) * unat (element_size b)
        in take off (ring_buffer b) @ d @ drop (off + unat (element_size b)) (ring_buffer b))"
  note w = slot_write [OF ring_slot(2) [OF inv, of "ring_tail b - 1"] d]
  have "ring_items (element_count b) (slot (unat (element_size b)) buf) (ring_tail b - 1) (ring_head b) = d # ring_content b"
    unfolding ring_content_def using inv room(3) w by (intro ring_items_put_front) (auto simp: ring_inv_def buf_def Let_def)
  moreover have "length buf = length (ring_buffer b)"
    using ring_slot(2) [OF inv, of "ring_tail b - 1"] d by (simp add: buf_def Let_def)
  ultimately show ?thesis
    using False room inv' ring_write [OF inv', of d "ring_tail b - 1"] d ring_slot(1) [OF inv', of "ring_tail b - 1"]
    by (simp add: Ringbuf_Put_Front_def flip: buf_def)
      (simp add: ring_content_def ring_inv_def Ringbuf_Count_def)
qed

lemma ring_content_front:
  assumes "ring_head c \<noteq> ring_tail c"
  shows "ring_content c = slot (unat (element_size c)) (ring_buffer c) (ring_place (element_count c) (ring_tail c)) #
    ring_content (c\<lparr>ring_tail := ring_tail c + 1\<rparr>)"
  using ring_items_get [OF assms, of "element_count c" "slot (unat (element_size c)) (ring_buffer c)"]
  by (simp add: ring_content_def)

lemma Ringbuf_Pop_spec:
  assumes inv: "ring_inv b"
  shows "wp (Ringbuf_Pop True b) (\<lambda>(r, d, c). ring_inv c \<and> element_count c = element_count b \<and> element_size c = element_size b \<and>
    r = (d \<noteq> None) \<and> ring_content b = (case d of None \<Rightarrow> [] | Some x \<Rightarrow> [x]) @ ring_content c \<and>
    (d = None \<longrightarrow> ring_content b = []))"
proof (cases "Ringbuf_Empty b")
  case True
  then show ?thesis
    using inv by (simp add: Ringbuf_Pop_def Ringbuf_Empty_def ring_content_def ring_items_def Ringbuf_Count_def)
next
  case False
  then have "ring_head b \<noteq> ring_tail b" by (auto simp: Ringbuf_Empty_def Ringbuf_Count_def)
  note eq = ring_content_front [OF this]
  from arg_cong [OF this, of length] have "ring_head b - (ring_tail b + 1) \<le> ring_head b - ring_tail b"
    by (simp add: ring_content_def word_le_nat_alt)
  then have "ring_inv (b\<lparr>ring_tail := ring_tail b + 1\<rparr>)"
    using inv by (auto simp: ring_inv_def Ringbuf_Count_def)
  then show ?thesis using False eq ring_slot [OF inv, of "ring_tail b"] by (simp add: Ringbuf_Pop_def)
qed

interpretation elements: bounded_queue ring_inv ring_content "\<lambda>b. unat (element_count b)" element_ok ring_put ring_get
proof (unfold_locales, goal_cases)
  case (1 s x)
  then show ?case
    using Ringbuf_Put_spec [of s x] by (auto simp: ring_put_def element_ok_def [abs_def] elim!: wp_mono)
next
  case (2 s)
  then show ?case
    using Ringbuf_Pop_spec [of s] by (auto simp: ring_get_def element_ok_def [abs_def] wp_iff)
next
  case (3 s)
  then show ?case by (simp add: ring_inv_def ring_content_def Ringbuf_Count_def word_le_nat_alt)
qed

section \<open>Taking an element out of the middle\<close>

declare find_element.simps [simp del] close_gap.simps [simp del] peek_next_loop.simps [simp del]

lemma ring_items_update:
  assumes "isPowerOfTwo n" "unat (head - tail) \<le> unat n" "k < unat (head - tail)"
    and "g (ring_place n (tail + of_nat k)) = x"
    and "\<And>p. p \<noteq> ring_place n (tail + of_nat k) \<Longrightarrow> p < unat n \<Longrightarrow> g p = f p"
  shows "ring_items n g tail head = (ring_items n f tail head)[k := x]"
proof (rule nth_equalityI)
  fix j assume "j < length (ring_items n g tail head)"
  then have j: "j < unat (head - tail)" by simp
  show "ring_items n g tail head ! j = (ring_items n f tail head)[k := x] ! j"
  proof (cases "j = k")
    case False
    then have "ring_place n (tail + of_nat j) \<noteq> ring_place n (tail + of_nat k)"
      using ring_place_distinct [OF assms(1), of j k tail] j assms(2,3) by auto
    then show ?thesis using j False assms(5) ring_place_less [OF assms(1)] by (simp add: ring_items_def)
  qed (use j assms(4) in \<open>simp add: ring_items_def\<close>)
qed simp

text \<open>The position of an element whose index has not wrapped around.\<close>

definition straight :: "RING_BUFFER \<Rightarrow> bool" where
  "straight b \<longleftrightarrow> ring_inv b \<and> element_size b \<noteq> 0 \<and> ring_tail b \<le> ring_head b"

definition element_at :: "RING_BUFFER \<Rightarrow> nat \<Rightarrow> nat" where
  "element_at b k = ring_place (element_count b) (ring_tail b + of_nat k) * unat (element_size b)"

lemma straight_index:
  assumes "straight b" "k < length (ring_content b)"
  shows "unat (ring_tail b + of_nat k) = unat (ring_tail b) + k" "ring_tail b + of_nat k < ring_head b"
proof -
  have "unat (ring_head b - ring_tail b) = unat (ring_head b) - unat (ring_tail b)"
    using assms(1) by (simp add: straight_def unat_sub)
  with assms(2) have "unat (ring_tail b) + k < unat (ring_head b)" by (simp add: ring_content_def)
  moreover from this show "unat (ring_tail b + of_nat k) = unat (ring_tail b) + k"
    using unat_bounds(3) [of "ring_head b"] by (simp add: unat_word_ariths unat_of_nat)
  ultimately show "ring_tail b + of_nat k < ring_head b" by (simp add: word_less_nat_alt)
qed

lemma find_element_spec:
  assumes "straight b" "k < length (ring_content b)" "j \<le> k"
  shows "find_element b (element_at b k) (ring_tail b + of_nat j) = Some (Some (ring_tail b + of_nat k))"
  using assms(3)
proof (induction "k - j" arbitrary: j)
  case 0
  then show ?case
    using assms ring_slot(1) [of b "ring_tail b + of_nat k"] straight_index [OF assms(1,2)]
    by (subst find_element.simps) (simp add: straight_def element_at_def)
next
  case (Suc m)
  have j: "j < length (ring_content b)" using Suc assms(2) by simp
  have "length (ring_content b) \<le> unat (element_count b)"
    using assms(1) elements.bounded [of b] by (simp add: straight_def)
  then have "ring_place (element_count b) (ring_tail b + of_nat j) \<noteq> ring_place (element_count b) (ring_tail b + of_nat k)"
    using Suc j assms(1,2) ring_place_distinct [of "element_count b" j k "ring_tail b"]
    by (auto simp: straight_def ring_inv_def)
  then have "element_at b k \<noteq> element_at b j" using assms(1) by (simp add: element_at_def straight_def unat_eq_zero)
  moreover have "find_element b (element_at b k) (ring_tail b + of_nat (Suc j)) = Some (Some (ring_tail b + of_nat k))"
    using Suc by (intro Suc.hyps(1)) auto
  moreover have "ring_tail b + of_nat (Suc j) = ring_tail b + of_nat j + 1" by simp
  moreover have "ring_data b (ring_tail b + of_nat j) = Some (element_at b j)"
    using assms(1) ring_slot(1) [of b "ring_tail b + of_nat j"] by (simp add: straight_def element_at_def)
  ultimately show ?case
    using straight_index(2) [OF assms(1) j] by (subst find_element.simps) (simp del: of_nat_Suc)
qed

lemma element_written:
  assumes "straight b" "k < length (ring_content b)" "length d = unat (element_size b)"
  shows "wp (write_element b (element_at b k) d) (\<lambda>c. straight c \<and> ring_content c = (ring_content b)[k := d] \<and>
    element_size c = element_size b \<and> element_count c = element_count b \<and> ring_tail c = ring_tail b \<and> ring_head c = ring_head b)"
proof -
  have inv: "ring_inv b" using assms(1) by (simp add: straight_def)
  define buf where "buf = (let off = ring_place (element_count b) (ring_tail b + of_nat k) * unat (element_size b)
        in take off (ring_buffer b) @ d @ drop (off + unat (element_size b)) (ring_buffer b))"
  note w = slot_write [OF ring_slot(2) [OF inv, of "ring_tail b + of_nat k"] assms(3)]
  have "ring_items (element_count b) (slot (unat (element_size b)) buf) (ring_tail b) (ring_head b) = (ring_content b)[k := d]"
    unfolding ring_content_def using inv w assms(2)
    by (intro ring_items_update) (auto simp: ring_inv_def buf_def Let_def Ringbuf_Count_def word_le_nat_alt ring_content_def)
  moreover have "length buf = length (ring_buffer b)"
    using ring_slot(2) [OF inv, of "ring_tail b + of_nat k"] assms(3) by (simp add: buf_def Let_def)
  ultimately show ?thesis
    using assms(1) ring_write [OF inv assms(3), of "ring_tail b + of_nat k"]
    by (simp add: element_at_def flip: buf_def) (simp add: straight_def ring_content_def ring_inv_def Ringbuf_Count_def)
qed

lemma close_gap_spec:
  assumes "straight b" "k < length (ring_content b)"
  shows "wp (close_gap (ring_tail b + of_nat k) b) (\<lambda>c. straight c \<and> ring_tail c = ring_tail b \<and>
    ring_content c = hd (ring_content b) # take k (ring_content b) @ drop (Suc k) (ring_content b))"
  using assms
proof (induction k arbitrary: b)
  case 0
  then show ?case by (subst close_gap.simps) (auto simp: neq_Nil_conv)
next
  case (Suc k)
  have inv: "ring_inv b" using Suc.prems(1) by (simp add: straight_def)
  have k: "k < length (ring_content b)" using Suc.prems by simp
  have up: "ring_tail b + of_nat (Suc k) > ring_tail b"
    using straight_index(1) [OF Suc.prems] by (simp add: word_less_nat_alt)
  have el: "slot (unat (element_size b)) (ring_buffer b) (ring_place (element_count b) (ring_tail b + of_nat k)) =
      ring_content b ! k"
    using k by (simp add: ring_content_def ring_items_def)
  have len: "length (ring_content b ! k) = unat (element_size b)"
    using ring_slot(2) [OF inv, of "ring_tail b + of_nat k"] unfolding el [symmetric] by (simp add: slot_def)
  obtain c where c: "write_element b (element_at b (Suc k)) (ring_content b ! k) = Some c" "straight c"
      "ring_content c = (ring_content b)[Suc k := ring_content b ! k]" "ring_tail c = ring_tail b"
    using element_written [OF Suc.prems len] by (auto simp: wp_iff)
  have "wp (close_gap (ring_tail c + of_nat k) c) (\<lambda>d. straight d \<and> ring_tail d = ring_tail c \<and>
      ring_content d = hd (ring_content c) # take k (ring_content c) @ drop (Suc k) (ring_content c))"
    using c k by (intro Suc.IH) simp_all
  moreover have "hd (ring_content c) = hd (ring_content b)" using k by (cases "ring_content b") (auto simp: c)
  moreover have "take k (ring_content c) @ drop (Suc k) (ring_content c) =
      take (Suc k) (ring_content b) @ drop (Suc (Suc k)) (ring_content b)"
    using Suc.prems k by (simp add: c take_Suc_conv_app_nth drop_update_swap Cons_nth_drop_Suc [symmetric])
  moreover have "ring_tail b + of_nat (Suc k) - 1 = ring_tail b + of_nat k" by simp
  ultimately show ?case
    using up ring_slot [OF inv] c(1,4) el by (subst close_gap.simps) (simp add: element_at_def)
qed

lemma tail_advanced:
  assumes "ring_content c \<noteq> []"
  shows "ring_content (c\<lparr>ring_tail := ring_tail c + 1\<rparr>) = tl (ring_content c)"
proof -
  have "ring_head c \<noteq> ring_tail c" using assms by (auto simp: ring_content_def ring_items_def)
  from ring_content_front [OF this] show ?thesis by simp
qed

lemma element_popped:
  assumes "straight b" "k < length (ring_content b)"
  shows "wp (Ringbuf_Pop_Element b (Some (element_at b k)) True) (\<lambda>(r, d, c). r \<and> d = Some (ring_content b ! k) \<and>
    ring_content c = take k (ring_content b) @ drop (Suc k) (ring_content b))"
proof -
  have f: "find_element b (element_at b k) (ring_tail b) = Some (Some (ring_tail b + of_nat k))"
    using find_element_spec [OF assms, of 0] by simp
  have r: "read_element b (element_at b k) = Some (ring_content b ! k)"
    using ring_slot(3) [of b "ring_tail b + of_nat k"] assms
    by (simp add: straight_def element_at_def ring_content_def ring_items_def)
  have ne: "\<not> Ringbuf_Empty b" using assms(2) by (auto simp: Ringbuf_Empty_def Ringbuf_Count_def ring_content_def)
  obtain c where c: "close_gap (ring_tail b + of_nat k) b = Some c" "ring_tail c = ring_tail b"
      "ring_content c = hd (ring_content b) # take k (ring_content b) @ drop (Suc k) (ring_content b)"
    using close_gap_spec [OF assms] by (auto simp: wp_iff)
  show ?thesis
    using f r ne c straight_index(2) [OF assms] tail_advanced [of c] by (simp add: Ringbuf_Pop_Element_def)
qed

lemma oldest_dropped:
  assumes "ring_inv b" "ring_head b < ring_tail b"
  shows "wp (Ringbuf_Pop_Element b (Some p) True) (\<lambda>(r, d, c). r \<and> d = None \<and> ring_content c = tl (ring_content b))"
proof -
  have ne: "\<not> Ringbuf_Empty b" using assms(2) by (auto simp: Ringbuf_Empty_def Ringbuf_Count_def)
  moreover have "ring_content b \<noteq> []" using ring_content_front [of b] assms(2) by auto
  moreover have "find_element b p (ring_tail b) = Some None"
    using assms(2) by (subst find_element.simps) auto
  ultimately show ?thesis using tail_advanced [of b] by (simp add: Ringbuf_Pop_Element_def)
qed

section \<open>Properties\<close>

text \<open>
  C22. Both queues refine a bounded first-in first-out queue: for every history of puts and gets, the
  elements accepted, the elements delivered and the elements that remain are those of a list of the
  same capacity, whatever the counters are, so also when they wrap around.
\<close>

theorem queues_refine_lists:
  assumes "ring_inv b" "fifo_inv f" "\<And>x. Put x \<in> set cs \<Longrightarrow> length x = unat (element_size b)"
  shows "wp (run ring_put ring_get cs b) (\<lambda>(ins, outs, c).
      (ins, outs, ring_content c) = queue_run (unat (element_count b)) cs (ring_content b)) \<and>
    wp (run FIFO_Put fifo_get ds f) (\<lambda>(ins, outs, g).
      (ins, outs, fifo_items g) = queue_run (unat (buffer_len f)) ds (fifo_items f))"
  using elements.refines [OF assms(1), of cs] octets.refines [OF assms(2), of ds] assms(3)
  by (auto simp: element_ok_def elim!: wp_mono)

definition sample_ring :: RING_BUFFER where
  "sample_ring = \<lparr>ring_buffer = [0, 0, 0, 0], element_size = 2, element_count = 2, ring_head = 0xFFFFFFFF,
     ring_tail = 0xFFFFFFFF, depth = 0\<rparr>"

definition sample_fifo :: FIFO_BUFFER where
  "sample_fifo = \<lparr>fifo_head = 0xFFFFFFFF, fifo_tail = 0xFFFFFFFF, fifo_buffer = [0, 0], buffer_len = 2\<rparr>"

lemma sample_ring_inv: "ring_inv sample_ring"
  by (simp add: ring_inv_def sample_ring_def isPowerOfTwo_def Ringbuf_Count_def)

theorem queues_refine_lists_witness:
  "wp (run ring_put ring_get [Put [1, 2], Put [3, 4], Put [5, 6], Get] sample_ring) (\<lambda>(ins, outs, c).
      ins = [[1, 2], [3, 4]] \<and> outs = [[1, 2]] \<and> ring_content c = [[3, 4]]) \<and>
   wp (run FIFO_Put fifo_get [Put 7, Get, Get, Put 8] sample_fifo) (\<lambda>(ins, outs, g).
      ins = [7, 8] \<and> outs = [7] \<and> fifo_items g = [8])"
proof -
  have "fifo_inv sample_fifo" by (simp add: fifo_inv_def sample_fifo_def isPowerOfTwo_def FIFO_Count_def)
  moreover have "ring_content sample_ring = []" "fifo_items sample_fifo = []"
    by (simp_all add: ring_content_def fifo_items_def ring_items_def sample_ring_def sample_fifo_def)
  moreover have "length x = unat (element_size sample_ring)"
    if "Put x \<in> set [Put [1, 2], Put [3, 4], Put [5, 6], Get]" for x :: bytes
    using that by (auto simp: sample_ring_def)
  moreover have "unat (element_count sample_ring) = 2" "unat (buffer_len sample_fifo) = 2"
    by (simp_all add: sample_ring_def sample_fifo_def)
  ultimately show ?thesis
    using queues_refine_lists [OF sample_ring_inv, of sample_fifo "[Put [1, 2], Put [3, 4], Put [5, 6], Get]"
        "[Put 7, Get, Get, Put 8]"]
    by (simp del: run.simps)
qed

text \<open>
  \<^verbatim>\<open>Ringbuf_Pop_Element\<close> takes an element out of the middle, copies it and keeps the order of the
  others, as long as the counter has not wrapped around between the oldest and the newest element.
  After it has, and \<^verbatim>\<open>head\<close> is below \<^verbatim>\<open>tail\<close>, no element is found: the oldest one is dropped instead of
  the one asked for, nothing is copied, and the call reports success.
\<close>

lemma ring_pop_element:
  assumes "ring_inv b" "element_size b \<noteq> 0"
  shows "(ring_tail b \<le> ring_head b \<and> k < length (ring_content b) \<longrightarrow>
      wp (Ringbuf_Pop_Element b (Some (element_at b k)) True) (\<lambda>(r, d, c). r \<and> d = Some (ring_content b ! k) \<and>
        ring_content c = take k (ring_content b) @ drop (Suc k) (ring_content b))) \<and>
    (ring_head b < ring_tail b \<longrightarrow>
      wp (Ringbuf_Pop_Element b (Some p) True) (\<lambda>(r, d, c). r \<and> d = None \<and> ring_content c = tl (ring_content b)))"
  using element_popped [of b k] oldest_dropped [OF assms(1)] assms by (simp add: straight_def)

lemma ring_pop_element_witness:
  "wp (Ringbuf_Pop_Element
        \<lparr>ring_buffer = [1, 2, 3, 4], element_size = 1, element_count = 4, ring_head = 3, ring_tail = 0, depth = 3\<rparr>
        (Some 1) True)
     (\<lambda>(r, d, c). r \<and> d = Some [2] \<and> ring_content c = [[1], [3]]) \<and>
   wp (Ringbuf_Pop_Element
        \<lparr>ring_buffer = [1, 2, 3, 4], element_size = 1, element_count = 4, ring_head = 2, ring_tail = 0xFFFFFFFF, depth = 3\<rparr>
        (Some 1) True)
     (\<lambda>(r, d, c). r \<and> d = None \<and> ring_content c = [[1], [2]])"
proof -
  let ?b = "\<lambda>h t. \<lparr>ring_buffer = [1, 2, 3, 4], element_size = 1, element_count = 4, ring_head = h, ring_tail = t, depth = 3\<rparr>"
  have "ring_inv (?b 3 0)" "ring_inv (?b 2 0xFFFFFFFF)"
    by (simp_all add: ring_inv_def isPowerOfTwo_def Ringbuf_Count_def)
  moreover have "ring_content (?b 3 0) = [[1], [2], [3]]" "ring_content (?b 2 0xFFFFFFFF) = [[4], [1], [2]]"
    by (simp_all add: ring_content_def ring_items_def ring_place_def slot_def upt_rec)
  moreover have "element_at (?b 3 0) 1 = 1" by (simp add: element_at_def ring_place_def)
  ultimately show ?thesis
    using ring_pop_element [of "?b 3 0" 1 0] ring_pop_element [of "?b 2 0xFFFFFFFF" 0 1] by simp
qed

lemma initialize_overflows:
  "fst (Ringbuf_Initialize b [] 0 0x10000 0x10000)"
  by (simp add: Ringbuf_Initialize_def Ringbuf_Init_def isPowerOfTwo_def)

end
