(* ===== verification/Bac_Cobs.thy ===== *)
theory Bac_Cobs
  imports Bac_Prelude
begin

text \<open>
  \<^verbatim>\<open>src/bacnet/datalink/cobs.c\<close>: frames of the MS/TP data link without the octet \<open>0x55\<close>, by consistent
  overhead byte stuffing, with a check sum of 32 bits. A buffer of the caller is a list whose length
  is its size. Shown here: a frame that is encoded is decoded again, its check sum is accepted, it does
  not contain the octet \<open>0x55\<close>, and a buffer that is too small can be overrun by the encoder.
\<close>

section \<open>The check sum\<close>

definition cobs_crc32k_encode :: "bytes \<Rightarrow> u32 \<Rightarrow> nat \<times> bytes" where
  "cobs_crc32k_encode buffer crc =
     (if length buffer \<ge> 4
      then (4, [ucast (crc AND 0x000000FF), ucast (drop_bit 8 (crc AND 0x0000FF00)),
                ucast (drop_bit 16 (crc AND 0x00FF0000)), ucast (drop_bit 24 (crc AND 0xFF000000))] @ drop 4 buffer)
      else (0, buffer))"

text \<open>The loop over the eight bits of an octet.\<close>

fun crc32k_bits :: "nat \<Rightarrow> u8 \<Rightarrow> u32 \<Rightarrow> u32" where
  "crc32k_bits 0 data crc = crc"
| "crc32k_bits (Suc b) data crc =
     crc32k_bits b (drop_bit 1 data)
       (if ucast (data AND 1) XOR (crc AND 1) \<noteq> 0 then drop_bit 1 crc XOR 0xEB31D82E else drop_bit 1 crc)"

definition cobs_crc32k :: "u8 \<Rightarrow> u32 \<Rightarrow> u32" where
  "cobs_crc32k dataValue crc32kValue = crc32k_bits 8 dataValue crc32kValue"

definition CRC32K_INITIAL_VALUE :: u32 where "CRC32K_INITIAL_VALUE = 0xFFFFFFFF"
definition CRC32K_RESIDUE :: u32 where "CRC32K_RESIDUE = 0x0843323B"
definition MSTP_PREAMBLE_X55 :: u8 where "MSTP_PREAMBLE_X55 = 0x55"
definition COBS_ENCODED_CRC_SIZE :: nat where "COBS_ENCODED_CRC_SIZE = 5"

section \<open>Encoding\<close>

text \<open>
  The loop of \<^verbatim>\<open>cobs_encode\<close>. It ends with the buffer when it returns 0 because the buffer is too small,
  and with the buffer, \<^verbatim>\<open>code_index\<close>, \<^verbatim>\<open>write_index\<close>, \<^verbatim>\<open>code\<close> and \<^verbatim>\<open>last_code\<close> otherwise.
\<close>

fun encode_loop :: "u8 \<Rightarrow> bytes \<Rightarrow> bytes \<Rightarrow> nat \<Rightarrow> nat \<Rightarrow> u8 \<Rightarrow> u8
    \<Rightarrow> (bytes + bytes \<times> nat \<times> nat \<times> u8 \<times> u8) option" where
  "encode_loop msk [] buffer code_index write_index code last_code =
     Some (Inr (buffer, code_index, write_index, code, last_code))"
| "encode_loop msk (data # from) buffer code_index write_index code last_code =
     (if data \<noteq> 0 \<and> write_index = length buffer then Some (Inl buffer)
      else do {
        buffer \<leftarrow> (if data \<noteq> 0 then write_at buffer write_index [data XOR msk] else Some buffer);
        let write_index = (if data \<noteq> 0 then write_index + 1 else write_index);
        let code = (if data \<noteq> 0 then code + 1 else code);
        if data \<noteq> 0 \<and> code \<noteq> 255 then encode_loop msk from buffer code_index write_index code last_code
        else if code_index = length buffer then Some (Inl buffer)
        else do {
          buffer \<leftarrow> write_at buffer code_index [code XOR msk];
          encode_loop msk from buffer write_index (write_index + 1) 1 code } })"

definition encode_last :: "u8 \<Rightarrow> bytes + bytes \<times> nat \<times> nat \<times> u8 \<times> u8 \<Rightarrow> (nat \<times> bytes) option" where
  "encode_last msk r =
     (case r of
        Inl buffer \<Rightarrow> Some (0, buffer)
      | Inr (buffer, code_index, write_index, code, last_code) \<Rightarrow>
          if last_code = 255 \<and> code = 1 then Some (write_index - 1, buffer)
          else if code_index = length buffer then Some (0, buffer)
          else do {
            buffer \<leftarrow> write_at buffer code_index [code XOR msk];
            Some (write_index, buffer) })"

definition cobs_encode :: "bytes \<Rightarrow> bytes \<Rightarrow> u8 \<Rightarrow> (nat \<times> bytes) option" where
  "cobs_encode buffer from msk =
     (if length buffer < 1 \<or> length from < 1 then Some (0, buffer)
      else do { r \<leftarrow> encode_loop msk from buffer 0 1 1 0; encode_last msk r })"

definition cobs_frame_encode :: "bytes \<Rightarrow> bytes \<Rightarrow> (nat \<times> bytes) option" where
  "cobs_frame_encode buffer from = do {
     (cobs_data_len, buffer) \<leftarrow> cobs_encode buffer from MSTP_PREAMBLE_X55;
     if cobs_data_len = 0 then Some (0, buffer)
     else do {
       encoded \<leftarrow> read_at buffer 0 cobs_data_len;
       let crc32K = NOT (foldl (\<lambda>crc x. cobs_crc32k x crc) CRC32K_INITIAL_VALUE encoded);
       let (_, crc_buffer) = cobs_crc32k_encode (replicate 4 0) crc32K;
       (cobs_crc_len, tail) \<leftarrow> cobs_encode (drop cobs_data_len buffer) crc_buffer MSTP_PREAMBLE_X55;
       let buffer = take cobs_data_len buffer @ tail;
       Some (if cobs_crc_len = 0 then 0 else cobs_data_len + cobs_crc_len, buffer) } }"

section \<open>Decoding\<close>

text \<open>
  The inner loop copies the octets of a block. It ends with the buffer when it returns 0, and otherwise
  with the octets not yet read, the buffer and \<^verbatim>\<open>write_index\<close>.
\<close>

fun copy_block :: "u8 \<Rightarrow> nat \<Rightarrow> bytes \<Rightarrow> bytes \<Rightarrow> nat \<Rightarrow> (bytes + bytes \<times> bytes \<times> nat) option" where
  "copy_block msk 0 from buffer write_index = Some (Inr (from, buffer, write_index))"
| "copy_block msk (Suc n) from buffer write_index =
     (if write_index = length buffer then Some (Inl buffer)
      else case from of
        [] \<Rightarrow> Some (Inl buffer)
      | x # from \<Rightarrow> do {
          buffer \<leftarrow> write_at buffer write_index [x XOR msk];
          copy_block msk n from buffer (write_index + 1) })"

lemma copy_block_shorter:
  "copy_block msk n from buffer wi = Some (Inr (from', buffer', wi')) \<Longrightarrow> length from' \<le> length from"
  by (induction msk n "from" buffer wi rule: copy_block.induct)
    (auto split: if_splits list.splits simp: bind_eq_Some_conv intro: le_SucI)

function decode_loop :: "u8 \<Rightarrow> bytes \<Rightarrow> bytes \<Rightarrow> nat \<Rightarrow> (nat \<times> bytes) option" where
  "decode_loop msk [] buffer write_index = Some (write_index, buffer)"
| "decode_loop msk (c # from) buffer write_index =
     (let code = c XOR msk in
      if code = 0 \<or> unat code > length (c # from) then Some (0, buffer)
      else case copy_block msk (unat code - 1) from buffer write_index of
        None \<Rightarrow> None
      | Some (Inl buffer) \<Rightarrow> Some (0, buffer)
      | Some (Inr (from', buffer, write_index)) \<Rightarrow>
          if code \<noteq> 255 \<and> from' \<noteq> [] then
            if write_index = length buffer then Some (0, buffer)
            else (case write_at buffer write_index [0] of
                    None \<Rightarrow> None
                  | Some buffer \<Rightarrow> decode_loop msk from' buffer (write_index + 1))
          else decode_loop msk from' buffer write_index)"
  by pat_completeness auto
termination
  by (relation "measure (\<lambda>(_, from, _, _). length from)") (auto dest!: copy_block_shorter)

definition cobs_decode :: "bytes \<Rightarrow> bytes \<Rightarrow> u8 \<Rightarrow> (nat \<times> bytes) option" where
  "cobs_decode buffer from msk = decode_loop msk from buffer 0"

text \<open>The four octets of \<^verbatim>\<open>crc_buffer\<close> are read only after all of them have been written.\<close>

definition cobs_frame_decode :: "bytes \<Rightarrow> bytes \<Rightarrow> (nat \<times> bytes) option" where
  "cobs_frame_decode buffer from =
     (if length from < COBS_ENCODED_CRC_SIZE then Some (0, buffer)
      else do {
        let data = take (length from - COBS_ENCODED_CRC_SIZE) from;
        let crc32K = foldl (\<lambda>crc x. cobs_crc32k x crc) CRC32K_INITIAL_VALUE data;
        (data_len, buffer) \<leftarrow> cobs_decode buffer data MSTP_PREAMBLE_X55;
        if data_len = 0 then Some (0, buffer)
        else do {
          (crc_len, crc_buffer) \<leftarrow>
            cobs_decode (replicate 4 0) (drop (length from - COBS_ENCODED_CRC_SIZE) from) MSTP_PREAMBLE_X55;
          Some (if crc_len \<noteq> 4 then 0
                else if foldl (\<lambda>crc x. cobs_crc32k x crc) crc32K crc_buffer = CRC32K_RESIDUE then data_len else 0,
                buffer) } })"

section \<open>The encoding of a list\<close>

text \<open>
  What the encoder writes, without the mask, when a block with the non-zero octets \<open>r\<close> has been begun;
  \<open>full\<close> says that the block before it had the maximal size.
\<close>

fun stuffed :: "bool \<Rightarrow> bytes \<Rightarrow> bytes \<Rightarrow> bytes" where
  "stuffed full r [] = (if full \<and> r = [] then [] else of_nat (length r + 1) # r)"
| "stuffed full r (x # xs) =
     (if x \<noteq> 0 then
        if length r = 253 then 255 # r @ x # stuffed True [] xs else stuffed full (r @ [x]) xs
      else of_nat (length r + 1) # r @ stuffed False [] xs)"

abbreviation masked :: "u8 \<Rightarrow> bytes \<Rightarrow> bytes" where
  "masked msk xs \<equiv> map (\<lambda>x. x XOR msk) xs"

lemma stuffed_length: "r \<noteq> [] \<or> \<not> full \<Longrightarrow> length r + 1 \<le> length (stuffed full r xs)"
  by (induction full r xs rule: stuffed.induct) auto

lemma stuffed_bound: "length r < 254 \<Longrightarrow> length (stuffed full r xs) \<le> length r + length xs + 1 + (length r + length xs) div 254"
proof (induction full r xs rule: stuffed.induct)
  case (2 full r x xs)
  then show ?case by (auto simp: div_add_self1) 
qed simp

lemma code_word: "n < 255 \<Longrightarrow> unat (of_nat n :: u8) = n"
  by (simp add: unat_of_nat)

lemma code_nonzero: "n < 254 \<Longrightarrow> (of_nat (n + 1) :: u8) \<noteq> 0"
  using code_word [of "n + 1"] by auto

lemma stuffed_nonzero: "length r < 254 \<Longrightarrow> 0 \<notin> set r \<Longrightarrow> 0 \<notin> set (stuffed full r xs)"
proof (induction full r xs rule: stuffed.induct)
  case (1 full r)
  then show ?case using code_nonzero [of "length r"] by simp
next
  case (2 full r x xs)
  then show ?case using code_nonzero [of "length r"] by auto
qed

lemma write_octet: "i < length b \<Longrightarrow> write_at b i [x] = Some (b[i := x])"
  by (simp add: write_at_def upd_conv_take_nth_drop)

text \<open>A block in progress: the octets before it, a place for its code, and the octets of the block.\<close>

definition block_at :: "u8 \<Rightarrow> bytes \<Rightarrow> nat \<Rightarrow> bytes \<Rightarrow> bytes \<Rightarrow> bool" where
  "block_at msk buffer ci p r \<longleftrightarrow> ci = length p \<and> take ci buffer = p \<and>
     take (length r) (drop (Suc ci) buffer) = masked msk r"

lemma block_code:
  assumes "block_at msk buffer ci p r" "ci + length r < length buffer"
  shows "take (Suc ci + length r) (buffer[ci := c]) = p @ c # masked msk r"
  using assms by (auto simp: block_at_def take_add upd_conv_take_nth_drop min_def take_Cons')

lemma block_grows:
  assumes "block_at msk buffer ci p r" "Suc ci + length r < length buffer"
  shows "block_at msk (buffer[Suc ci + length r := x XOR msk]) ci p (r @ [x])"
  using assms by (auto simp: block_at_def take_Suc_conv_app_nth drop_update_swap)

lemma block_closed:
  assumes "block_at msk buffer ci p r" "ci + length r < length buffer"
  shows "block_at msk (buffer[ci := c]) (Suc ci + length r) (p @ c # masked msk r) []"
  using block_code [OF assms, of c] assms by (simp add: block_at_def)

text \<open>What the encoder has to leave in the buffer.\<close>

definition encoded :: "u8 \<Rightarrow> bytes \<Rightarrow> bytes \<Rightarrow> nat \<Rightarrow> nat \<times> bytes \<Rightarrow> bool" where
  "encoded msk p ys sz = (\<lambda>(n, b). n = length p + length ys \<and> length b = sz \<and> take n b = p @ masked msk ys)"

lemma encode_loop_spec:
  assumes "block_at msk buffer ci p r" "length r < 254"
    and "ci + length (stuffed (last_code = 255) r xs) \<le> length buffer"
  shows "wp (encode_loop msk xs buffer ci (Suc ci + length r) (of_nat (length r + 1)) last_code)
    (\<lambda>st. wp (encode_last msk st) (encoded msk p (stuffed (last_code = 255) r xs) (length buffer)))"
  using assms
proof (induction xs arbitrary: buffer ci p r last_code)
  case Nil
  have one: "(of_nat (length r + 1) :: u8) = 1 \<longleftrightarrow> r = []"
    using Nil.prems(2) code_word [of "length r + 1"] by (auto simp: word_unat_eq_iff)
  have ci: "ci = length p" "take ci buffer = p" using Nil.prems(1) by (auto simp: block_at_def)
  show ?case
  proof (cases "last_code = 255 \<and> r = []")
    case True
    then show ?thesis using ci by (simp add: encode_last_def encoded_def)
  next
    case False
    then have "ci + length r < length buffer" using Nil.prems(3) by auto
    with False one block_code [OF Nil.prems(1) this] Nil.prems(1) ci show ?thesis
      by (auto simp: encode_last_def encoded_def write_octet block_at_def)
  qed
next
  case (Cons x xs)
  have ci: "ci = length p" using Cons.prems(1) by (simp add: block_at_def)
  consider (zero) "x = 0" | (full) "x \<noteq> 0" "length r = 253" | (more) "x \<noteq> 0" "length r < 253"
    using Cons.prems(2) by linarith
  then show ?case
  proof cases
    case zero
    let ?c = "of_nat (length r + 1) :: u8"
    have room: "ci + length r < length buffer" using Cons.prems(3) zero by simp
    have "?c \<noteq> 255" using Cons.prems(2) code_word [of "length r + 1"] by (auto simp: word_unat_eq_iff)
    moreover have "wp (encode_loop msk xs (buffer[ci := ?c XOR msk]) (Suc ci + length r) (Suc (Suc ci + length r) + length ([] :: bytes))
        (of_nat (length ([] :: bytes) + 1)) ?c) (\<lambda>st. wp (encode_last msk st)
        (encoded msk (p @ (?c XOR msk) # masked msk r) (stuffed (?c = 255) [] xs) (length (buffer[ci := ?c XOR msk]))))"
      using Cons.prems(3) zero calculation
      by (intro Cons.IH block_closed [OF Cons.prems(1) room]) auto
    ultimately show ?thesis
      using zero room by (simp add: write_octet encoded_def ci Let_def ac_simps del: write_at_Some)
  next
    case full
    let ?b = "buffer[Suc ci + length r := x XOR msk]"
    have room: "Suc ci + length r < length buffer" "ci + length (r @ [x]) < length ?b"
      using Cons.prems(3) full by simp_all
    have "wp (encode_loop msk xs (?b[ci := 255 XOR msk]) (Suc ci + length (r @ [x]))
        (Suc (Suc ci + length (r @ [x])) + length ([] :: bytes)) (of_nat (length ([] :: bytes) + 1)) 255) (\<lambda>st. wp (encode_last msk st)
        (encoded msk (p @ (255 XOR msk) # masked msk (r @ [x])) (stuffed (255 = (255 :: u8)) [] xs)
          (length (?b[ci := 255 XOR msk]))))"
      using Cons.prems(3) full
      by (intro Cons.IH block_closed [OF block_grows [OF Cons.prems(1) room(1)] room(2)]) auto
    then show ?thesis
      using full room by (simp add: write_octet encoded_def ci Let_def ac_simps del: write_at_Some)
  next
    case more
    let ?b = "buffer[Suc ci + length r := x XOR msk]"
    have room: "Suc ci + length r < length buffer"
      using Cons.prems(3) more stuffed_length [of "r @ [x]" "last_code = 255" xs] by simp
    have "wp (encode_loop msk xs ?b ci (Suc ci + length (r @ [x])) (of_nat (length (r @ [x]) + 1)) last_code)
        (\<lambda>st. wp (encode_last msk st) (encoded msk p (stuffed (last_code = 255) (r @ [x]) xs) (length ?b)))"
      using Cons.prems(3) more by (intro Cons.IH block_grows [OF Cons.prems(1) room]) auto
    moreover have "(of_nat (length (r @ [x]) + 1) :: u8) \<noteq> 255"
      using more code_word [of "length (r @ [x]) + 1"] by (auto simp: word_unat_eq_iff)
    ultimately show ?thesis
      using more room by (simp add: write_octet ci Let_def ac_simps del: write_at_Some)
  qed
qed

lemma cobs_encode_spec:
  assumes "xs \<noteq> []" "length (stuffed False [] xs) \<le> length buffer"
  shows "wp (cobs_encode buffer xs msk) (encoded msk [] (stuffed False [] xs) (length buffer))"
proof -
  have "buffer \<noteq> []" using assms(2) stuffed_length [of "[]" False xs] by auto
  then show ?thesis
    using encode_loop_spec [of msk buffer 0 "[]" "[]" 0 xs] assms by (simp add: cobs_encode_def block_at_def not_less)
qed

section \<open>Decoding what was encoded\<close>

lemma unmask [simp]: "(x XOR m) XOR m = (x :: u8)"
  by (simp add: xor.assoc)

lemma copy_block_spec:
  assumes "wi + length r \<le> length buffer"
  shows "\<exists>b. copy_block msk (length r) (masked msk r @ rest) buffer wi = Some (Inr (rest, b, wi + length r)) \<and>
    length b = length buffer \<and> take (wi + length r) b = take wi buffer @ r"
  using assms
proof (induction r arbitrary: buffer wi)
  case (Cons x r)
  let ?b = "buffer[wi := x]"
  have "\<exists>b. copy_block msk (length r) (masked msk r @ rest) ?b (Suc wi) = Some (Inr (rest, b, Suc wi + length r)) \<and>
      length b = length ?b \<and> take (Suc wi + length r) b = take (Suc wi) ?b @ r"
    using Cons.prems by (intro Cons.IH) simp
  moreover have "take (Suc wi) ?b = take wi buffer @ [x]" using Cons.prems by (simp add: take_Suc_conv_app_nth)
  ultimately show ?case using Cons.prems by (auto simp: write_octet simp del: write_at_Some)
qed simp

lemma decode_block:
  assumes c: "unat c = Suc (length r)" and z: "z = (if c \<noteq> 255 \<and> rest \<noteq> [] then [0] else [])"
    and room: "wi + length (r @ z) \<le> length buffer"
    and next_block: "\<And>b. length b = length buffer \<Longrightarrow> take (wi + length (r @ z)) b = take wi buffer @ r @ z \<Longrightarrow>
      wp (decode_loop msk (masked msk rest) b (wi + length (r @ z))) Q"
  shows "wp (decode_loop msk (masked msk (c # r @ rest)) buffer wi) Q"
proof -
  have "wi + length r \<le> length buffer" using room by simp
  from copy_block_spec [OF this, of msk "masked msk rest"] obtain b where
    b: "copy_block msk (length r) (masked msk r @ masked msk rest) buffer wi = Some (Inr (masked msk rest, b, wi + length r))"
      "length b = length buffer" "take (wi + length r) b = take wi buffer @ r" by blast
  have nz: "c \<noteq> 0" using c by auto
  show ?thesis
  proof (cases "c \<noteq> 255 \<and> rest \<noteq> []")
    case True
    have wi: "wi + length r < length b" using room b(2) True z by simp
    then have "take (wi + length (r @ z)) (b[wi + length r := 0]) = take wi buffer @ r @ z"
      using b(3) z True by (simp add: take_Suc_conv_app_nth)
    with next_block [of "b[wi + length r := 0]"] wi b nz c True z show ?thesis
      by (simp add: write_octet del: write_at_Some)
  next
    case False
    with next_block [of b] b nz c z show ?thesis by auto
  qed
qed

lemma decode_loop_spec:
  assumes "length r < 254" "wi + length r + length xs \<le> length buffer"
  shows "wp (decode_loop msk (masked msk (stuffed full r xs)) buffer wi)
    (\<lambda>(n, b). n = wi + length r + length xs \<and> length b = length buffer \<and> take n b = take wi buffer @ r @ xs)"
  using assms
proof (induction full r xs arbitrary: buffer wi rule: stuffed.induct)
  case (1 full r)
  show ?case
  proof (cases "full \<and> r = []")
    case False
    have "wp (decode_loop msk (masked msk (of_nat (length r + 1) # r @ [])) buffer wi)
      (\<lambda>(n, b). n = wi + length r + length [] \<and> length b = length buffer \<and> take n b = take wi buffer @ r @ [])"
      by (rule decode_block [where z = "[]"]) (use 1 code_word [of "length r + 1"] in auto)
    with False show ?thesis by auto
  qed (use 1 in auto)
next
  case (2 full r x xs)
  consider (zero) "x = 0" | (full) "x \<noteq> 0" "length r = 253" | (more) "x \<noteq> 0" "length r < 253"
    using 2(4) by linarith
  then show ?case
  proof cases
    case zero
    have "stuffed False [] xs \<noteq> []" using stuffed_length [of "[]" False xs] by auto
    moreover have c: "unat (of_nat (length r + 1) :: u8) = Suc (length r)" using 2(4) code_word [of "length r + 1"] by simp
    moreover from c have "(of_nat (length r + 1) :: u8) \<noteq> 255" using 2(4) by auto
    ultimately have "wp (decode_loop msk (masked msk (of_nat (length r + 1) # r @ stuffed False [] xs)) buffer wi)
      (\<lambda>(n, b). n = wi + length r + length (x # xs) \<and> length b = length buffer \<and> take n b = take wi buffer @ r @ x # xs)"
    proof (intro decode_block [where z = "[0]"], goal_cases)
      case (4 b)
      then show ?case using 2(3) [of "wi + length r + 1" b] zero 2(5) by (auto elim!: wp_mono)
    qed (use 2(5) in auto)
    with zero show ?thesis by simp
  next
    case full
    have "wp (decode_loop msk (masked msk (255 # (r @ [x]) @ stuffed True [] xs)) buffer wi)
      (\<lambda>(n, b). n = wi + length r + length (x # xs) \<and> length b = length buffer \<and> take n b = take wi buffer @ r @ x # xs)"
    proof (intro decode_block [where z = "[]"], goal_cases)
      case (4 b)
      then show ?case using 2(1) [OF full, of "wi + length (r @ [x])" b] 2(5) by (auto elim!: wp_mono)
    qed (use 2(5) full in auto)
    with full show ?thesis by simp
  next
    case more
    then show ?thesis using 2(2) [OF more(1)] 2(4,5) by auto
  qed
qed

lemma cobs_decode_spec:
  assumes "length xs \<le> length buffer"
  shows "wp (cobs_decode buffer (masked msk (stuffed False [] xs)) msk)
    (\<lambda>(n, b). n = length xs \<and> length b = length buffer \<and> take n b = xs)"
  using decode_loop_spec [of "[]" 0 xs buffer msk False] assms by (auto simp: cobs_decode_def elim!: wp_mono)

section \<open>The residue of the check sum\<close>

text \<open>
  One step of the register without input. Input octets are added to the low end of the register, so
  what is shifted in behind the bits that are still to be processed passes unchanged.
\<close>

definition crc_step :: "u32 \<Rightarrow> u32" where
  "crc_step x = (if bit x 0 then drop_bit 1 x XOR 0xEB31D82E else drop_bit 1 x)"

lemma drop_push:
  assumes "take_bit (32 - k) m = (m :: u32)" "k \<le> 32"
  shows "drop_bit k (push_bit k m) = m"
proof (rule bit_word_eqI)
  fix n assume "n < LENGTH(32)"
  moreover have "bit m n \<Longrightarrow> n < 32 - k" using assms(1) by (metis bit_take_bit_iff)
  ultimately show "bit (drop_bit k (push_bit k m)) n = bit m n" using assms(2) by (auto simp: bit_simps)
qed

lemma crc_step_shift:
  assumes "take_bit 31 m = m"
  shows "crc_step (y XOR push_bit 1 m) = crc_step y XOR m"
proof -
  have "bit (y XOR push_bit 1 m) 0 = bit y 0" by (simp add: bit_0 even_xor_iff)
  moreover have "drop_bit 1 (y XOR push_bit 1 m) = drop_bit 1 y XOR m"
    using drop_push [of 1 m] assms by (simp only: drop_bit_xor) simp
  ultimately show ?thesis by (simp add: crc_step_def ac_simps)
qed

lemma crc_steps_shift:
  "n \<le> 32 \<Longrightarrow> take_bit (32 - n) m = m \<Longrightarrow> (crc_step ^^ n) (y XOR push_bit n m) = (crc_step ^^ n) y XOR m"
proof (induction n arbitrary: y)
  case (Suc n)
  have m: "k < 31 - n" if "bit m k" for k
  proof -
    have "bit (take_bit (32 - Suc n) m) k" using that Suc.prems(2) by simp
    then show ?thesis by (simp add: bit_take_bit_iff)
  qed
  have "take_bit 31 (push_bit n m) = push_bit n m"
    by (rule bit_word_eqI) (use m in \<open>force simp: bit_simps\<close>)
  then have "crc_step (y XOR push_bit (Suc n) m) = crc_step y XOR push_bit n m"
    using crc_step_shift [of "push_bit n m" y] by simp
  moreover have "take_bit (32 - n) m = m"
    by (rule bit_word_eqI) (use m in \<open>force simp: bit_simps\<close>)
  ultimately show ?case using Suc by (simp add: funpow_Suc_right del: funpow.simps)
qed simp

lemma crc_input:
  "(if ucast (data AND 1 :: u8) XOR (crc AND 1) \<noteq> 0 then drop_bit 1 crc XOR 0xEB31D82E else drop_bit 1 crc) =
     crc_step (crc XOR ucast (data AND 1))"
proof -
  have "data AND 1 = of_bool (odd data)" "crc AND 1 = of_bool (odd crc)"
    by (simp_all add: and_one_eq mod_2_eq_odd)
  moreover have "drop_bit 1 (crc XOR 1) = drop_bit 1 crc"
    by (rule bit_word_eqI) (simp add: bit_simps)
  ultimately show ?thesis by (auto simp: crc_step_def bit_0 even_xor_iff)
qed

lemma octet_bits:
  "(ucast (take_bit (Suc n) data) :: u32) =
     ucast (data AND 1) XOR push_bit 1 (ucast (take_bit n (drop_bit 1 (data :: u8))))"
proof (rule bit_word_eqI)
  fix k assume "k < LENGTH(32)"
  then show "bit (ucast (take_bit (Suc n) data) :: u32) k =
      bit (ucast (data AND 1) XOR push_bit 1 (ucast (take_bit n (drop_bit 1 data))) :: u32) k"
    by (cases k) (auto simp: bit_simps simp del: push_bit_Suc push_bit_of_1)
qed

lemma crc32k_bits_steps: "n \<le> 8 \<Longrightarrow> crc32k_bits n data crc = (crc_step ^^ n) (crc XOR ucast (take_bit n data))"
proof (induction n arbitrary: data crc)
  case (Suc n)
  have "(if ucast (data AND 1) XOR (crc AND 1) \<noteq> 0 then drop_bit 1 crc XOR 0xEB31D82E else drop_bit 1 crc) =
      crc_step (crc XOR ucast (data AND 1))"
    by (rule crc_input)
  moreover have "crc XOR ucast (take_bit (Suc n) data) =
      (crc XOR ucast (data AND 1)) XOR push_bit 1 (ucast (take_bit n (drop_bit 1 data)))"
    using octet_bits [of n data] by (simp only: xor.assoc)
  moreover have "take_bit 31 (ucast (take_bit n (drop_bit 1 data)) :: u32) = ucast (take_bit n (drop_bit 1 data))" 
    using Suc.prems by (intro bit_word_eqI) (auto simp: bit_simps)
  ultimately show ?case
    using Suc crc_step_shift [of "ucast (take_bit n (drop_bit 1 data))" "crc XOR ucast (data AND 1)"]
    by (simp add: funpow_Suc_right del: funpow.simps)
qed simp

lemma crc_step_odd: "crc_step x = (if odd x then drop_bit 1 x XOR 0xEB31D82E else drop_bit 1 x)"
  by (simp add: crc_step_def bit_0)

lemma eight_steps: "(crc_step ^^ 8) x =
    crc_step (crc_step (crc_step (crc_step (crc_step (crc_step (crc_step (crc_step x)))))))"
  by (simp add: eval_nat_numeral)

lemma residue_steps:
  "(crc_step ^^ 8) 0xFFFFFFFF = 0xC0ADD38D" "(crc_step ^^ 8) 0xC0ADD38D = 0x1C70F566"
  "(crc_step ^^ 8) 0x1C70F566 = 0x7FC2C8C1" "(crc_step ^^ 8) 0x7FC2C8C1 = CRC32K_RESIDUE"
  by (simp_all add: eight_steps crc_step_odd CRC32K_RESIDUE_def)

lemma octet_steps: "cobs_crc32k b c = (crc_step ^^ 8) (c XOR ucast b)"
  using crc32k_bits_steps [of 8 b c] by (simp add: cobs_crc32k_def take_bit_word_eq_self)

lemma steps_add: "take_bit 24 m = m \<Longrightarrow> (crc_step ^^ 8) y XOR m = (crc_step ^^ 8) (y XOR push_bit 8 m)"
  using crc_steps_shift [of 8 m y] by simp

lemma octet_small: "take_bit 24 (ucast (b :: u8) :: u32) = ucast b"
    "take_bit 24 (push_bit 8 (ucast (b :: u8) :: u32)) = push_bit 8 (ucast b)"
    "take_bit 24 (push_bit 16 (ucast (b :: u8) :: u32)) = push_bit 16 (ucast b)"
  by (rule bit_word_eqI, auto simp: bit_simps dest: bit_imp_le_length)+

lemma four_octets:
  "foldl (\<lambda>crc x. cobs_crc32k x crc) c [b0, b1, b2, b3] =
     (crc_step ^^ 8) ((crc_step ^^ 8) ((crc_step ^^ 8) ((crc_step ^^ 8)
       (c XOR ucast b0 XOR push_bit 8 (ucast b1) XOR push_bit 16 (ucast b2) XOR push_bit 24 (ucast b3)))))"
  by (simp add: octet_steps steps_add octet_small xor.assoc)

lemma crc_octets: "snd (cobs_crc32k_encode (replicate 4 0) v) =
    [ucast v, ucast (drop_bit 8 v), ucast (drop_bit 16 v), ucast (drop_bit 24 v)]"
proof -
  have m: "(0xFF :: u32) = mask 8" "(0xFF00 :: u32) = push_bit 8 (mask 8)" "(0xFF0000 :: u32) = push_bit 16 (mask 8)"
      "(0xFF000000 :: u32) = push_bit 24 (mask 8)"
    by (simp_all add: mask_numeral)
  show ?thesis
    by (auto simp: cobs_crc32k_encode_def m bit_simps intro!: bit_word_eqI)
qed

lemma octets_of_word:
  "(ucast (ucast (v :: u32) :: u8) :: u32) XOR push_bit 8 (ucast (ucast (drop_bit 8 v) :: u8))
     XOR push_bit 16 (ucast (ucast (drop_bit 16 v) :: u8)) XOR push_bit 24 (ucast (ucast (drop_bit 24 v) :: u8)) = v"
  by (rule bit_word_eqI) (auto simp: bit_simps)

lemma crc_accepted:
  "foldl (\<lambda>crc x. cobs_crc32k x crc) c (snd (cobs_crc32k_encode (replicate 4 0) (NOT c))) = CRC32K_RESIDUE"
proof -
  have "c XOR NOT c = - 1" by (rule bit_word_eqI) (simp add: bit_simps)
  then have "c XOR NOT c = 0xFFFFFFFF" by simp
  then show ?thesis
    using octets_of_word [of "NOT c"] by (simp only: crc_octets four_octets xor.assoc residue_steps)
qed

section \<open>Frames\<close>

lemma stuffed_short:
  "length r + length xs < 254 \<Longrightarrow> r \<noteq> [] \<or> \<not> full \<Longrightarrow> length (stuffed full r xs) = length r + length xs + 1"
  by (induction full r xs rule: stuffed.induct) auto

definition crc_of :: "bytes \<Rightarrow> u32" where
  "crc_of xs = foldl (\<lambda>crc x. cobs_crc32k x crc) CRC32K_INITIAL_VALUE xs"

definition crc_field :: "bytes \<Rightarrow> bytes" where
  "crc_field xs = snd (cobs_crc32k_encode (replicate 4 0) (NOT (crc_of xs)))"

lemma length_crc_field: "length (crc_field xs) = 4"
  by (simp add: crc_field_def crc_octets)

text \<open>The two fields of a frame.\<close>

definition data_field :: "bytes \<Rightarrow> bytes" where
  "data_field xs = masked MSTP_PREAMBLE_X55 (stuffed False [] xs)"

definition check_field :: "bytes \<Rightarrow> bytes" where
  "check_field xs = masked MSTP_PREAMBLE_X55 (stuffed False [] (crc_field (data_field xs)))"

lemma length_check_field: "length (check_field xs) = 5"
  using stuffed_short [of "[]" "crc_field (data_field xs)" False] by (simp add: check_field_def length_crc_field)

lemma length_data_field: "length (data_field xs) \<le> length xs + length xs div 254 + 1" "data_field xs \<noteq> []"
  using stuffed_bound [of "[]" False xs] stuffed_length [of "[]" False xs] by (auto simp: data_field_def)

lemma frame_encoded:
  assumes "xs \<noteq> []" "length xs + length xs div 254 + 6 \<le> length buffer"
  shows "wp (cobs_frame_encode buffer xs) (\<lambda>(n, b). n = length (data_field xs) + 5 \<and>
    take n b = data_field xs @ check_field xs)"
proof -
  let ?s = "stuffed False [] xs"
  have "length ?s \<le> length buffer" using assms(2) length_data_field(1) [of xs] by (simp add: data_field_def)
  from cobs_encode_spec [OF assms(1) this, of MSTP_PREAMBLE_X55] obtain b where
    b: "cobs_encode buffer xs MSTP_PREAMBLE_X55 = Some (length (data_field xs), b)" "length b = length buffer"
      "take (length (data_field xs)) b = data_field xs"
    by (auto simp: wp_iff encoded_def data_field_def)
  let ?n = "length (data_field xs)" and ?c = "crc_field (data_field xs)"
  have len: "length (stuffed False [] ?c) = 5" using length_check_field [of xs] by (simp add: check_field_def)
  have room: "5 \<le> length (drop ?n b)" using assms(2) b(2) length_data_field(1) [of xs] by simp
  have "?c \<noteq> []" using length_crc_field [of "data_field xs"] by auto
  from cobs_encode_spec [OF this, of "drop ?n b" MSTP_PREAMBLE_X55] room len obtain t where
    t: "cobs_encode (drop ?n b) ?c MSTP_PREAMBLE_X55 = Some (5, t)" "take 5 t = check_field xs"
    by (auto simp: wp_iff encoded_def check_field_def)
  obtain k where k: "cobs_crc32k_encode (replicate 4 0) (NOT (crc_of (data_field xs))) = (k, ?c)"
    by (metis crc_field_def prod.collapse)
  have "?n \<le> length b" using b(3) by (metis length_take min.cobounded1 min.commute)
  then show ?thesis
    using b t k length_data_field(2) [of xs]
    by (simp add: cobs_frame_encode_def read_at_def crc_of_def [symmetric] Let_def)
qed

lemma frame_decoded:
  assumes "xs \<noteq> []" "length xs \<le> length out"
  shows "wp (cobs_frame_decode out (data_field xs @ check_field xs)) (\<lambda>(m, o'). m = length xs \<and> take m o' = xs)"
proof -
  from cobs_decode_spec [OF assms(2), of MSTP_PREAMBLE_X55] obtain b where
    b: "cobs_decode out (data_field xs) MSTP_PREAMBLE_X55 = Some (length xs, b)" "take (length xs) b = xs"
    by (auto simp: wp_iff data_field_def)
  let ?c = "crc_field (data_field xs)"
  from cobs_decode_spec [of ?c "replicate 4 0" MSTP_PREAMBLE_X55] have
    c: "cobs_decode (replicate 4 0) (check_field xs) MSTP_PREAMBLE_X55 = Some (4, ?c)"
    by (auto simp: wp_iff check_field_def length_crc_field)
  have "foldl (\<lambda>crc x. cobs_crc32k x crc) (crc_of (data_field xs)) ?c = CRC32K_RESIDUE"
    unfolding crc_field_def by (rule crc_accepted)
  then show ?thesis
    using assms(1) b c
    by (simp add: cobs_frame_decode_def length_check_field COBS_ENCODED_CRC_SIZE_def crc_of_def [symmetric])
qed

lemma no_preamble: "MSTP_PREAMBLE_X55 \<notin> set (masked MSTP_PREAMBLE_X55 (stuffed False [] xs))"
proof -
  have "0 \<notin> set (stuffed False [] xs)" by (intro stuffed_nonzero) simp_all
  moreover have "y XOR MSTP_PREAMBLE_X55 = MSTP_PREAMBLE_X55 \<Longrightarrow> y = 0" for y
    by (metis unmask xor.right_neutral xor_self_eq)
  ultimately show ?thesis by (metis (no_types, lifting) imageE list.set_map)
qed

text \<open>
  C25. A frame survives its encoding. In a buffer of the size the standard gives, the encoder writes a
  frame without the octet \<open>0x55\<close>, which marks the beginning of frames on the line; the decoder accepts
  its check sum and returns exactly the data.
\<close>

theorem cobs_frame_roundtrip:
  assumes "xs \<noteq> []" "length xs + length xs div 254 + 6 \<le> length buffer" "length xs \<le> length out"
  shows "wp (cobs_frame_encode buffer xs) (\<lambda>(n, b). n \<le> length xs + length xs div 254 + 6 \<and>
    MSTP_PREAMBLE_X55 \<notin> set (take n b) \<and>
    wp (cobs_frame_decode out (take n b)) (\<lambda>(m, o'). m = length xs \<and> take m o' = xs))"
  using frame_encoded [OF assms(1,2)]
proof (rule wp_mono)
  fix r assume "case r of (n, b) \<Rightarrow> n = length (data_field xs) + 5 \<and> take n b = data_field xs @ check_field xs"
  then show "case r of (n, b) \<Rightarrow> n \<le> length xs + length xs div 254 + 6 \<and> MSTP_PREAMBLE_X55 \<notin> set (take n b) \<and>
      wp (cobs_frame_decode out (take n b)) (\<lambda>(m, o'). m = length xs \<and> take m o' = xs)"
    using frame_decoded [OF assms(1,3)] length_data_field(1) [of xs] no_preamble
    by (auto simp: data_field_def check_field_def)
qed

definition sample_frame :: bytes where "sample_frame = [1, 0, 0x55]"

theorem cobs_frame_roundtrip_witness:
  "wp (cobs_frame_encode (replicate 9 0) sample_frame) (\<lambda>(n, b).
    n \<le> length sample_frame + length sample_frame div 254 + 6 \<and> MSTP_PREAMBLE_X55 \<notin> set (take n b) \<and>
    wp (cobs_frame_decode [0, 0, 0] (take n b)) (\<lambda>(m, o'). m = length sample_frame \<and> take m o' = sample_frame))"
  by (rule cobs_frame_roundtrip) (simp_all add: sample_frame_def)

lemma encode_nonzero_run:
  assumes "0 \<notin> set zs" "n + length zs < 254" "wi + length zs \<le> length buffer"
  shows "\<exists>b. length b = length buffer \<and> encode_loop msk (zs @ ys) buffer ci wi (of_nat (n + 1)) last_code =
    encode_loop msk ys b ci (wi + length zs) (of_nat (n + length zs + 1)) last_code"
  using assms
proof (induction zs arbitrary: n wi buffer)
  case (Cons z zs)
  have "\<exists>b. length b = length (buffer[wi := z XOR msk]) \<and>
      encode_loop msk (zs @ ys) (buffer[wi := z XOR msk]) ci (Suc wi) (of_nat (Suc n + 1)) last_code =
      encode_loop msk ys b ci (Suc wi + length zs) (of_nat (Suc n + length zs + 1)) last_code"
    using Cons.prems by (intro Cons.IH) auto
  moreover have "(of_nat (Suc n + 1) :: u8) \<noteq> 255"
    using Cons.prems(2) code_word [of "Suc n + 1"] by auto
  ultimately show ?case using Cons.prems by (auto simp: write_octet Let_def ac_simps simp del: write_at_Some)
qed auto

text \<open>
  The encoder can write outside a buffer that is too small. When a zero follows as many octets as
  fit into the buffer, the place for the code of the next block is reserved without a test;
  \<^verbatim>\<open>write_index\<close> passes the size of the buffer, and the test for equality does not stop the next octet.
\<close>

lemma cobs_encode_overruns:
  assumes "0 \<notin> set zs" "length zs < 254" "length buffer = length zs + 1" "x \<noteq> 0"
  shows "cobs_encode buffer (zs @ 0 # x # rest) msk = None"
proof -
  obtain b where b: "length b = length buffer" "encode_loop msk (zs @ 0 # x # rest) buffer 0 1 1 0 =
      encode_loop msk (0 # x # rest) b 0 (1 + length zs) (of_nat (length zs + 1)) 0"
    using encode_nonzero_run [OF assms(1), of 0 1 buffer msk "0 # x # rest" 0 0] assms(2,3) by auto
  then show ?thesis
    using assms(3,4) by (auto simp: cobs_encode_def write_at_def Let_def)
qed

lemma cobs_encode_overruns_witness: "cobs_encode [0, 0] [7, 0, 9] 0x55 = None"
  using cobs_encode_overruns [of "[7]" "[0, 0]" 9 "[]" "0x55"] by simp

end
