(* ===== verification/Bac_Days.thy ===== *)
theory Bac_Days
  imports Bac_Prelude
begin

text \<open>
  \<^verbatim>\<open>src/bacnet/basic/sys/days.c\<close>: days of months and years, and the conversion of dates to days since the
  first of January of an epoch year and back. Shown here, against the calendar in natural numbers:
  the two conversions are inverse to each other on the dates up to the year 9999, the conversion to
  a date always ends with a date that exists, and days apart are the distance in the calendar.
\<close>

section \<open>Functions\<close>

definition days_is_leap_year :: "u16 \<Rightarrow> bool" where
  "days_is_leap_year y = (y mod 4 = 0 \<and> (y mod 100 \<noteq> 0 \<or> y mod 400 = 0))"

definition month_days :: "u8 list" where
  "month_days = [0, 31, 28, 31, 30, 31, 30, 31, 31, 30, 31, 30, 31]"

definition days_per_month :: "u16 \<Rightarrow> u8 \<Rightarrow> u8" where
  "days_per_month y m =
     (if m = 2 \<and> days_is_leap_year y then 29
      else if m \<ge> 1 \<and> m \<le> 12 then month_days ! unat m else 0)"

definition days_per_year :: "u16 \<Rightarrow> u32" where
  "days_per_year y = (if days_is_leap_year y then 365 + 1 else 365)"

text \<open>The loops that add the days of the months before a month, in the type of the sum.\<close>

function add_months :: "u16 \<Rightarrow> u8 \<Rightarrow> u8 \<Rightarrow> 'a::len word \<Rightarrow> 'a word" where
  "add_months y m mm days =
     (if mm < m then add_months y m (mm + 1) (days + ucast (days_per_month y mm)) else days)"
  by pat_completeness auto
termination
  by (relation "measure (\<lambda>(_, m, mm, _). unat m - unat mm)") (auto simp: unat_next, simp add: word_less_nat_alt)

definition days_of_year :: "u16 \<Rightarrow> u8 \<Rightarrow> u8 \<Rightarrow> u16" where
  "days_of_year y m d = add_months y m 1 0 + ucast d"

function add_months_after :: "u16 \<Rightarrow> u8 \<Rightarrow> u8 \<Rightarrow> u16 \<Rightarrow> u16" where
  "add_months_after y m mm days =
     (if mm > m then add_months_after y m (mm - 1) (days + ucast (days_per_month y mm)) else days)"
  by pat_completeness auto
termination
  by (relation "measure (\<lambda>(_, _, mm, _). unat mm)")
    (auto simp: unat_minus_one word_less_nat_alt, metis unat_minus_one diff_less gr0I less_one not_less_zero unat_0)

definition days_of_year_remaining :: "u16 \<Rightarrow> u8 \<Rightarrow> u8 \<Rightarrow> u16" where
  "days_of_year_remaining y m d = add_months_after y m 12 (ucast (days_per_month y m) - ucast d)"

text \<open>A month after December has no days, so the loop may go on; it then starts again with January.\<close>

partial_function (option) subtract_months :: "(u32 \<Rightarrow> u32 \<Rightarrow> bool) \<Rightarrow> u16 \<Rightarrow> u8 \<Rightarrow> u32 \<Rightarrow> (u8 \<times> u32) option" where
  "subtract_months more y m days =
     (if more days (ucast (days_per_month y m))
      then subtract_months more y (m + 1) (days - ucast (days_per_month y m))
      else Some (m, days))"

definition days_of_year_to_month_day :: "u32 \<Rightarrow> u16 \<Rightarrow> (u8 \<times> u8) option" where
  "days_of_year_to_month_day days y = do {
     (m, days) \<leftarrow> subtract_months (\<lambda>a b. a > b) y 1 days;
     Some (m, ucast (0 + days)) }"

function add_years :: "u16 \<Rightarrow> u16 \<Rightarrow> u32 \<Rightarrow> u32" where
  "add_years y yy days =
     (if yy < y then add_years y (yy + 1) (days + 365 + (if days_is_leap_year yy then 1 else 0)) else days)"
  by pat_completeness auto
termination
  by (relation "measure (\<lambda>(y, yy, _). unat y - unat yy)") (auto simp: unat_next, simp add: word_less_nat_alt)

definition days_apart :: "u16 \<Rightarrow> u8 \<Rightarrow> u8 \<Rightarrow> u16 \<Rightarrow> u8 \<Rightarrow> u8 \<Rightarrow> u32" where
  "days_apart year1 month1 day1 year2 month2 day2 =
     (if year2 > year1 then
        add_years year2 (year1 + 1) (ucast (days_of_year_remaining year1 month1 day1)) +
        ucast (days_of_year year2 month2 day2)
      else if year2 < year1 then
        add_years year1 (year2 + 1) (ucast (days_of_year_remaining year2 month2 day2)) +
        ucast (days_of_year year1 month1 day1)
      else
        let days1 = ucast (days_of_year year1 month1 day1); days2 = ucast (days_of_year year2 month2 day2)
        in if days2 > days1 then days2 - days1 else days1 - days2)"

definition days_since_epoch :: "u16 \<Rightarrow> u16 \<Rightarrow> u8 \<Rightarrow> u8 \<Rightarrow> u32" where
  "days_since_epoch epoch_year y m d =
     (let monthdays = days_per_month y m in
      if y \<ge> epoch_year \<and> y \<le> 9999 \<and> monthdays > 0 \<and> d \<ge> 1 \<and> d \<le> monthdays
      then add_months y m 1 (add_years y epoch_year 0) + ucast d - 1
      else 0)"

function subtract_years :: "u16 \<Rightarrow> u32 \<Rightarrow> u16 \<times> u32" where
  "subtract_years y days =
     (if days \<ge> days_per_year y then subtract_years (y + 1) (days - days_per_year y) else (y, days))"
  by pat_completeness auto
termination
  by (relation "measure (\<lambda>(_, days). unat days)")
    (auto simp: days_per_year_def word_le_nat_alt unat_sub split: if_splits)

definition days_since_epoch_to_date :: "u16 \<Rightarrow> u32 \<Rightarrow> (u16 \<times> u8 \<times> u8) option" where
  "days_since_epoch_to_date epoch_year days =
     (let (y, days) = subtract_years epoch_year days in do {
        (m, days) \<leftarrow> subtract_months (\<lambda>a b. a \<ge> b) y 1 days;
        Some (y, m, 1 + ucast days) })"

definition days_date_is_valid :: "u16 \<Rightarrow> u8 \<Rightarrow> u8 \<Rightarrow> bool" where
  "days_date_is_valid y m d =
     (let month_days = days_per_month y m in month_days > 0 \<and> d > 0 \<and> d \<le> month_days)"

definition days_of_week :: "u8 \<Rightarrow> u32 \<Rightarrow> u8" where
  "days_of_week epoch_day days = epoch_day + ucast (days mod 7)"

declare add_months.simps [simp del] add_months_after.simps [simp del] add_years.simps [simp del]
  subtract_years.simps [simp del]

section \<open>The calendar\<close>

definition leap :: "nat \<Rightarrow> bool" where
  "leap y = (y mod 4 = 0 \<and> (y mod 100 \<noteq> 0 \<or> y mod 400 = 0))"

definition year_len :: "nat \<Rightarrow> nat" where
  "year_len y = (if leap y then 366 else 365)"

definition month_len :: "nat \<Rightarrow> nat \<Rightarrow> nat" where
  "month_len y m =
     (if m = 2 then if leap y then 29 else 28
      else if m \<in> {1, 3, 5, 7, 8, 10, 12} then 31 else if m \<in> {4, 6, 9, 11} then 30 else 0)"

text \<open>The days before a year, from an epoch year on, and the days of a year before a month.\<close>

definition days_before_year :: "nat \<Rightarrow> nat \<Rightarrow> nat" where
  "days_before_year e y = (\<Sum>i = e..<y. year_len i)"

definition days_before_month :: "nat \<Rightarrow> nat \<Rightarrow> nat \<Rightarrow> nat" where
  "days_before_month y k m = (\<Sum>i = k..<m. month_len y i)"

definition valid_date :: "nat \<Rightarrow> nat \<Rightarrow> nat \<Rightarrow> bool" where
  "valid_date y m d = (1 \<le> m \<and> m \<le> 12 \<and> 1 \<le> d \<and> d \<le> month_len y m)"

definition day_number :: "nat \<Rightarrow> nat \<Rightarrow> nat \<Rightarrow> nat \<Rightarrow> nat" where
  "day_number e y m d = days_before_year e y + days_before_month y 1 m + (d - 1)"

lemma days_before_year_step: "e < y \<Longrightarrow> days_before_year e y = year_len e + days_before_year (Suc e) y"
  by (simp add: days_before_year_def sum.atLeast_Suc_lessThan)

lemma days_before_month_step: "k < m \<Longrightarrow> days_before_month y k m = month_len y k + days_before_month y (Suc k) m"
  by (simp add: days_before_month_def sum.atLeast_Suc_lessThan)

lemma days_before_year_none [simp]: "y \<le> e \<Longrightarrow> days_before_year e y = 0"
  by (simp add: days_before_year_def)

lemma days_before_month_none [simp]: "m \<le> k \<Longrightarrow> days_before_month y k m = 0"
  by (simp add: days_before_month_def)

lemma days_before_year_Suc: "e \<le> y \<Longrightarrow> days_before_year e (Suc y) = days_before_year e y + year_len y"
  by (simp add: days_before_year_def)

lemma days_before_month_Suc: "k \<le> m \<Longrightarrow> days_before_month y k (Suc m) = days_before_month y k m + month_len y m"
  by (simp add: days_before_month_def)

lemma year_len_le: "year_len y \<le> 366"
  by (simp add: year_len_def)

lemma month_len_le: "month_len y m \<le> 31"
  by (simp add: month_len_def)

lemma month_len_pos: "0 < month_len y m \<longleftrightarrow> 1 \<le> m \<and> m \<le> 12"
  unfolding month_len_def by (auto simp del: One_nat_def) presburger+

lemma months_make_year: "days_before_month y 1 13 = year_len y"
  by (simp add: days_before_month_def month_len_def year_len_def eval_nat_numeral)

lemma days_before_year_le: "days_before_year e y \<le> 366 * (y - e)"
  using sum_bounded_above [of "{e..<y}" year_len 366] by (simp add: days_before_year_def year_len_le mult.commute)

lemma days_before_month_le: "days_before_month y k m \<le> 31 * (m - k)"
  using sum_bounded_above [of "{k..<m}" "month_len y" 31] by (simp add: days_before_month_def month_len_le mult.commute)

subsection \<open>Every day has one date\<close>

lemma year_of_day: "\<exists>y k. n = days_before_year e y + k \<and> e \<le> y \<and> k < year_len y"
proof (induction n rule: nat_less_induct)
  case (1 n)
  show ?case
  proof (cases "n < year_len e")
    case True
    then show ?thesis by (intro exI [of _ e] exI [of _ n]) simp
  next
    case False
    have pos: "0 < year_len y" for y by (simp add: year_len_def)
    then obtain p where p: "n = Suc p" using False by (cases n) auto
    then obtain y k where "p = days_before_year e y + k" "e \<le> y" "k < year_len y" using 1 by blast
    then have "n = days_before_year e y + Suc k" "e \<le> y" "Suc k \<le> year_len y" using p by auto
    then show ?thesis
      by (cases "Suc k < year_len y")
        (force, metis add_0_right days_before_year_Suc le_SucI le_antisym not_less pos)
  qed
qed

lemma month_of_day: "k < year_len y \<Longrightarrow> \<exists>m j. k = days_before_month y 1 m + j \<and> 1 \<le> m \<and> m \<le> 12 \<and> j < month_len y m"
proof -
  have "k < days_before_month y 1 (Suc m) \<Longrightarrow> 1 \<le> m \<Longrightarrow> \<exists>i j. k = days_before_month y 1 i + j \<and> 1 \<le> i \<and> i \<le> m \<and> j < month_len y i" for m
  proof (induction m)
    case (Suc m)
    show ?case
    proof (cases "k < days_before_month y 1 (Suc m)")
      case True
      moreover have "1 \<le> m" using True by (cases m) simp_all
      ultimately show ?thesis using Suc.IH le_SucI by blast
    next
      case False
      then have "k = days_before_month y 1 (Suc m) + (k - days_before_month y 1 (Suc m))" by simp
      moreover have "k - days_before_month y 1 (Suc m) < month_len y (Suc m)"
        using Suc.prems False by (subst (asm) days_before_month_Suc) auto
      ultimately show ?thesis
        by (intro exI [of _ "Suc m"] exI [of _ "k - days_before_month y 1 (Suc m)"]) simp
    qed
  qed simp
  from this [of 12] show "k < year_len y \<Longrightarrow> ?thesis" by (simp flip: months_make_year)
qed

lemma date_of_day: "\<exists>y m d. n = day_number e y m d \<and> e \<le> y \<and> valid_date y m d"
proof -
  obtain y k where "n = days_before_year e y + k" "e \<le> y" "k < year_len y" using year_of_day by blast
  moreover from this obtain m j where "k = days_before_month y 1 m + j" "1 \<le> m" "m \<le> 12" "j < month_len y m"
    using month_of_day by blast
  ultimately have "n = day_number e y m (Suc j) \<and> e \<le> y \<and> valid_date y m (Suc j)"
    by (simp add: day_number_def valid_date_def)
  then show ?thesis by blast
qed

section \<open>The functions compute the calendar\<close>

lemma unat_widen: "LENGTH('a) \<le> LENGTH('b) \<Longrightarrow> unat (ucast (x :: 'a::len word) :: 'b::len word) = unat x"
proof -
  assume "LENGTH('a) \<le> LENGTH('b)"
  then have "(2 :: nat) ^ LENGTH('a) \<le> 2 ^ LENGTH('b)" by (simp add: power_increasing)
  then have "unat x < 2 ^ LENGTH('b)" using unsigned_less [of x, where ?'a = nat] by linarith
  then show ?thesis by (simp add: unsigned_ucast_eq take_bit_nat_eq_self)
qed

lemma leap_year: "days_is_leap_year y = leap (unat y)"
  by (simp add: days_is_leap_year_def leap_def word_unat_eq_iff unat_mod)

lemma per_year: "unat (days_per_year y) = year_len (unat y)"
  by (simp add: days_per_year_def year_len_def leap_year)

lemma octet_upto_12: "m \<ge> 1 \<Longrightarrow> m \<le> 12 \<Longrightarrow> (m :: u8) \<in> {1, 2, 3, 4, 5, 6, 7, 8, 9, 10, 11, 12}"
proof -
  assume "m \<ge> 1" "m \<le> 12"
  then have "1 \<le> unat m" "unat m \<le> 12" by (simp_all add: word_le_nat_alt)
  then have "unat m = 1 \<or> unat m = 2 \<or> unat m = 3 \<or> unat m = 4 \<or> unat m = 5 \<or> unat m = 6 \<or>
    unat m = 7 \<or> unat m = 8 \<or> unat m = 9 \<or> unat m = 10 \<or> unat m = 11 \<or> unat m = 12" by presburger
  then show ?thesis by (simp add: word_unat_eq_iff)
qed

lemma per_month: "unat (days_per_month y m) = month_len (unat y) (unat m)"
proof (cases "m \<ge> 1 \<and> m \<le> 12")
  case True
  then have "m \<in> {1, 2, 3, 4, 5, 6, 7, 8, 9, 10, 11, 12}" by (intro octet_upto_12) simp_all
  then show ?thesis
    by (elim insertE) (simp_all add: days_per_month_def month_days_def month_len_def leap_year)
next
  case False
  then have "\<not> (1 \<le> unat m \<and> unat m \<le> 12)" by (simp add: word_le_nat_alt)
  then show ?thesis using False month_len_pos [of "unat y" "unat m"] by (auto simp: days_per_month_def)
qed

lemma date_is_valid: "days_date_is_valid y m d = valid_date (unat y) (unat m) (unat d)"
  using month_len_pos [of "unat y" "unat m"]
  by (auto simp: days_date_is_valid_def valid_date_def Let_def word_less_nat_alt word_le_nat_alt per_month)

lemma add_years_days:
  "unat (days :: u32) + 366 * (unat y - unat yy) < 2 ^ 32 \<Longrightarrow>
   unat (add_years y yy days) = unat days + days_before_year (unat yy) (unat y)"
proof (induction y yy days rule: add_years.induct)
  case (1 y yy days)
  show ?case
  proof (cases "yy < y")
    case True
    let ?d = "days + 365 + (if days_is_leap_year yy then 1 else 0)"
    have lt: "unat yy < unat y" using True by (simp add: word_less_nat_alt)
    then have "unat days + 366 \<le> unat days + 366 * (unat y - unat yy)" by simp
    then have d: "unat ?d = unat days + year_len (unat yy)"
      using "1.prems" by (simp add: unat_word_ariths leap_year year_len_def)
    have "366 * (unat y - unat yy) = 366 + 366 * (unat y - Suc (unat yy))" using lt by simp
    then have "unat ?d + 366 * (unat y - unat (yy + 1)) < 2 ^ 32"
      using "1.prems" year_len_le [of "unat yy"] d unat_next [OF True] by linarith
    then have "unat (add_years y (yy + 1) ?d) = unat ?d + days_before_year (unat (yy + 1)) (unat y)"
      using "1.IH" True by blast
    then show ?thesis
      using d True lt unat_next [OF True] by (simp add: add_years.simps [of y yy] days_before_year_step)
  next
    case False
    then show ?thesis by (simp add: add_years.simps [of y yy] word_less_nat_alt)
  qed
qed

lemma add_months_days:
  "unat (days :: 'a::len word) + 31 * (unat m - unat mm) < 2 ^ LENGTH('a) \<Longrightarrow>
   unat (add_months y m mm days) = unat days + days_before_month (unat y) (unat mm) (unat m)"
proof (induction y m mm days rule: add_months.induct)
  case (1 y m mm days)
  show ?case
  proof (cases "mm < m")
    case True
    let ?d = "days + ucast (days_per_month y mm)"
    have lt: "unat mm < unat m" using True by (simp add: word_less_nat_alt)
    then have "unat days + 31 \<le> unat days + 31 * (unat m - unat mm)" by simp
    then have fits: "unat days + unat (days_per_month y mm) < 2 ^ LENGTH('a)"
      using "1.prems" month_len_le [of "unat y" "unat mm"] unfolding per_month by linarith
    then have "unat (ucast (days_per_month y mm) :: 'a word) = unat (days_per_month y mm)"
      by (simp add: unsigned_ucast_eq take_bit_nat_eq_self)
    then have d: "unat ?d = unat days + month_len (unat y) (unat mm)"
      using fits by (simp add: unat_word_ariths per_month)
    have "31 * (unat m - unat mm) = 31 + 31 * (unat m - Suc (unat mm))" using lt by simp
    then have "unat ?d + 31 * (unat m - unat (mm + 1)) < 2 ^ LENGTH('a)"
      using "1.prems" month_len_le [of "unat y" "unat mm"] d unat_next [OF True] by linarith
    then have "unat (add_months y m (mm + 1) ?d) = unat ?d + days_before_month (unat y) (unat (mm + 1)) (unat m)"
      using "1.IH" True by blast
    then show ?thesis
      using d True lt unat_next [OF True] by (simp add: add_months.simps [of y m mm] days_before_month_step)
  next
    case False
    then show ?thesis by (simp add: add_months.simps [of y m mm] word_less_nat_alt)
  qed
qed

lemma since_epoch:
  assumes "valid_date (unat y) (unat m) (unat d)" "unat e \<le> unat y" "unat y \<le> 9999"
  shows "unat (days_since_epoch e y m d) = day_number (unat e) (unat y) (unat m) (unat d)"
proof -
  let ?y = "add_years y e (0 :: u32)"
  have "366 * (unat y - unat e) \<le> 366 * 9999" using assms(3) by simp
  then have y: "unat ?y = days_before_year (unat e) (unat y)" "unat ?y \<le> 366 * 9999"
    using add_years_days [of 0 y e] days_before_year_le [of "unat e" "unat y"] by auto
  have "31 * (unat m - unat (1 :: u8)) \<le> 31 * 12" using assms(1) by (auto simp: valid_date_def)
  then have "unat ?y + 31 * (unat m - unat (1 :: u8)) < 2 ^ LENGTH(32)" using y(2) by simp
  from add_months_days [OF this]
  have m: "unat (add_months y m 1 ?y) = unat ?y + days_before_month (unat y) 1 (unat m)" by simp
  have "days_before_month (unat y) 1 (unat m) \<le> 31 * 12"
    by (rule order_trans [OF days_before_month_le]) (use assms(1) in \<open>auto simp: valid_date_def\<close>)
  then have "unat (add_months y m 1 ?y + ucast d) = unat (add_months y m 1 ?y) + unat d"
    using m y unat_bounds(1) [of d] by (simp add: unat_word_ariths unat_widen)
  moreover have "add_months y m 1 ?y + ucast d \<noteq> 0"
    using calculation assms(1) by (auto simp: valid_date_def)
  ultimately have "unat (add_months y m 1 ?y + ucast d - 1) = day_number (unat e) (unat y) (unat m) (unat d)"
    using m y(1) assms(1) by (simp add: unat_minus_one day_number_def valid_date_def)
  then show ?thesis
    using assms month_len_pos [of "unat y" "unat m"]
    by (simp add: days_since_epoch_def Let_def word_le_nat_alt word_less_nat_alt per_month valid_date_def)
qed

lemma subtract_years_date:
  "unat (days :: u32) = days_before_year (unat e) (unat y) + n \<Longrightarrow> unat e \<le> unat y \<Longrightarrow> n < year_len (unat y) \<Longrightarrow>
   subtract_years e days = (y, of_nat n)"
proof (induction e days rule: subtract_years.induct)
  case (1 e days)
  show ?case
  proof (cases "e < y")
    case True
    then have lt: "unat e < unat y" by (simp add: word_less_nat_alt)
    then have step: "unat days = year_len (unat e) + (days_before_year (unat (e + 1)) (unat y) + n)"
      using "1.prems"(1) unat_next [OF True] by (simp add: days_before_year_step)
    then have ge: "days_per_year e \<le> days" by (simp add: word_le_nat_alt per_year)
    then have "subtract_years (e + 1) (days - days_per_year e) = (y, of_nat n)"
      using "1.IH" step "1.prems"(3) lt unat_next [OF True] by (simp add: unat_sub per_year)
    then show ?thesis using ge by (simp add: subtract_years.simps [of e])
  next
    case False
    then have "e = y" using "1.prems"(2) by (simp add: word_less_nat_alt word_unat_eq_iff)
    moreover from this have "unat days = n" using "1.prems"(1) by simp
    ultimately show ?thesis
      using "1.prems"(3) by (auto simp: subtract_years.simps [of y] word_le_nat_alt per_year)
  qed
qed

lemma subtract_years_rest: "subtract_years e days = (y, rest) \<Longrightarrow> unat rest < year_len (unat y)"
  by (induction e days rule: subtract_years.induct)
    (subst (asm) subtract_years.simps, auto simp: word_le_nat_alt per_year split: if_splits)

lemma subtract_months_date:
  assumes more: "\<And>a b. more a b \<longleftrightarrow> unat b + c \<le> unat a"
    and month: "c \<le> n" "n < month_len (unat y) (unat m) + c"
    and days: "unat days = days_before_month (unat y) (unat k) (unat m) + n" "unat k \<le> unat m"
  shows "subtract_months more y k days = Some (m, of_nat n)"
  using days
proof (induction "unat m - unat k" arbitrary: k days)
  case 0
  then have "k = m" "unat days = n" by (simp_all add: word_unat_eq_iff)
  then show ?case
    using month by (subst subtract_months.simps) (auto simp: more unat_widen per_month)
next
  case (Suc l)
  then have lt: "unat k < unat m" by linarith
  then have next_k: "unat (k + 1) = Suc (unat k)" by (intro unat_next [of k m]) (simp add: word_less_nat_alt)
  have u: "unat (ucast (days_per_month y k) :: u32) = month_len (unat y) (unat k)"
    by (simp add: unat_widen per_month)
  have step: "unat days = month_len (unat y) (unat k) + (days_before_month (unat y) (unat (k + 1)) (unat m) + n)"
    using Suc.prems(1) lt next_k by (simp add: days_before_month_step)
  then have "unat (days - ucast (days_per_month y k)) = days_before_month (unat y) (unat (k + 1)) (unat m) + n"
    by (subst unat_sub) (simp_all add: word_le_nat_alt u)
  then have "subtract_months more y (k + 1) (days - ucast (days_per_month y k)) = Some (m, of_nat n)"
    using Suc.hyps lt next_k by simp
  moreover have "more days (ucast (days_per_month y k))" using step month(1) by (simp add: more u)
  ultimately show ?case by (simp add: subtract_months.simps [of more y k])
qed

section \<open>Days since an epoch\<close>

lemma narrow_nat: "n < 2 ^ 32 \<Longrightarrow> ucast (of_nat n :: u32) = (of_nat n :: 'a::len word)"
  by (simp add: unsigned_of_nat take_bit_nat_eq_self)

lemma to_date:
  assumes "unat days = day_number (unat e) (unat y) (unat m) (unat d)" "unat e \<le> unat y"
    and "valid_date (unat y) (unat m) (unat d)"
  shows "days_since_epoch_to_date e days = Some (y, m, d)"
proof -
  let ?k = "days_before_month (unat y) 1 (unat m) + (unat d - 1)"
  have "?k < days_before_month (unat y) 1 (Suc (unat m))"
    using assms(3) by (subst days_before_month_Suc) (auto simp: valid_date_def)
  also have "\<dots> \<le> days_before_month (unat y) 1 13"
    unfolding days_before_month_def by (rule sum_mono2) (use assms(3) in \<open>auto simp: valid_date_def\<close>)
  finally have k: "?k < year_len (unat y)" unfolding months_make_year .
  have "unat days = days_before_year (unat e) (unat y) + ?k" using assms(1) by (simp add: day_number_def)
  then have "subtract_years e days = (y, of_nat ?k)" by (rule subtract_years_date) (use assms(2) k in auto)
  moreover have "unat (of_nat ?k :: u32) = days_before_month (unat y) (unat (1 :: u8)) (unat m) + (unat d - 1)"
    using k year_len_le [of "unat y"] by (simp add: unat_of_nat del: of_nat_add)
  from subtract_months_date [OF _ _ _ this, of "(\<lambda>a b. a \<ge> b)" 0]
  have "subtract_months (\<lambda>a b. a \<ge> b) y 1 (of_nat ?k) = Some (m, of_nat (unat d - 1))"
    using assms(3) by (auto simp: valid_date_def word_le_nat_alt simp del: of_nat_add)
  moreover have "unat d - 1 = unat (d - 1)"
    using assms(3) by (subst unat_minus_one) (auto simp: valid_date_def)
  moreover have "ucast (of_nat (unat (d - 1)) :: u32) = d - 1"
    using unat_bounds(1) [of "d - 1"] by (subst narrow_nat) simp_all
  ultimately show ?thesis by (simp add: days_since_epoch_to_date_def)
qed

lemma to_date_returns: "\<exists>y m d. days_since_epoch_to_date e days = Some (y, m, d) \<and> days_date_is_valid y m d"
proof -
  obtain y rest where years: "subtract_years e days = (y, rest)" by fastforce
  obtain i j where date: "unat rest = days_before_month (unat y) 1 i + j" "1 \<le> i" "i \<le> 12" "j < month_len (unat y) i"
    using month_of_day [OF subtract_years_rest [OF years]] by blast
  define m :: u8 where "m = of_nat i"
  define d :: u8 where "d = of_nat (Suc j)"
  have m: "unat m = i" and d: "unat d = Suc j"
    using date month_len_le [of "unat y" i] by (simp_all add: m_def d_def unat_of_nat del: of_nat_Suc)
  have "subtract_months (\<lambda>a b. a \<ge> b) y 1 rest = Some (m, of_nat j)"
    by (intro subtract_months_date [of _ 0]) (use date m in \<open>auto simp: word_le_nat_alt\<close>)
  then have "days_since_epoch_to_date e days = Some (y, m, 1 + ucast (of_nat j :: u32))"
    by (simp add: days_since_epoch_to_date_def years)
  moreover have "ucast (of_nat j :: u32) = (of_nat j :: u8)"
    using date(4) month_len_le [of "unat y" i] by (intro narrow_nat) simp
  then have "1 + ucast (of_nat j :: u32) = d" by (simp add: d_def)
  moreover have "days_date_is_valid y m d" using date m d by (simp add: date_is_valid valid_date_def)
  ultimately show ?thesis by metis
qed

lemma date_in_range:
  assumes "unat (days :: u32) < days_before_year (unat (e :: u16)) 10000"
  shows "\<exists>(y :: u16) (m :: u8) (d :: u8). unat days = day_number (unat e) (unat y) (unat m) (unat d) \<and>
    unat e \<le> unat y \<and> unat y \<le> 9999 \<and> valid_date (unat y) (unat m) (unat d)"
proof -
  obtain i j k where n: "unat days = day_number (unat e) i j k" and date: "unat e \<le> i" "valid_date i j k"
    using date_of_day [of "unat days" "unat e"] by blast
  have "i \<le> 9999"
  proof (rule ccontr)
    assume "\<not> i \<le> 9999"
    then have "days_before_year (unat e) 10000 \<le> days_before_year (unat e) i"
      unfolding days_before_year_def by (intro sum_mono2) auto
    then show False using assms n by (simp add: day_number_def)
  qed
  then have "unat (of_nat i :: u16) = i" "unat (of_nat j :: u8) = j" "unat (of_nat k :: u8) = k"
    using date(2) month_len_le [of i j] by (auto simp: unat_of_nat valid_date_def)
  then show ?thesis
    using n date \<open>i \<le> 9999\<close> by (intro exI [of _ "of_nat i"] exI [of _ "of_nat j"] exI [of _ "of_nat k"]) simp
qed

section \<open>Days of a year, and days apart\<close>

lemma of_year: "unat (days_of_year y m d) = days_before_month (unat y) 1 (unat m) + unat d"
proof -
  have m: "unat (add_months y m 1 (0 :: u16)) = days_before_month (unat y) 1 (unat m)"
    using add_months_days [of "0 :: u16" m 1 y] unat_bounds(1) [of m] by simp
  have "days_before_month (unat y) 1 (unat m) \<le> 31 * 254"
    by (rule order_trans [OF days_before_month_le]) (use unat_bounds(1) [of m] in auto)
  then show ?thesis
    using unat_bounds(1) [of d] by (simp add: days_of_year_def unat_word_ariths unat_widen m)
qed

lemma add_months_after_days:
  "unat days + 31 * (unat mm - unat m) < 2 ^ 16 \<Longrightarrow>
   unat (add_months_after y m mm days) = unat days + days_before_month (unat y) (Suc (unat m)) (Suc (unat mm))"
proof (induction y m mm days rule: add_months_after.induct)
  case (1 y m mm days)
  show ?case
  proof (cases "mm > m")
    case True
    let ?d = "days + ucast (days_per_month y mm)"
    have lt: "unat m < unat mm" using True by (simp add: word_less_nat_alt)
    have prev: "unat (mm - 1) = unat mm - 1" using lt by (intro unat_minus_one) auto
    have l: "31 * (unat mm - unat m) = 31 + 31 * (unat mm - 1 - unat m)" using lt by simp
    then have d: "unat ?d = unat days + month_len (unat y) (unat mm)"
      using "1.prems" month_len_le [of "unat y" "unat mm"] by (simp add: unat_word_ariths unat_widen per_month)
    then have "unat ?d + 31 * (unat (mm - 1) - unat m) < 2 ^ 16"
      using "1.prems" l prev month_len_le [of "unat y" "unat mm"] by linarith
    then have "unat (add_months_after y m (mm - 1) ?d) =
        unat ?d + days_before_month (unat y) (Suc (unat m)) (Suc (unat (mm - 1)))"
      using "1.IH" True by blast
    then show ?thesis
      using d True lt prev by (simp add: add_months_after.simps [of y m mm] days_before_month_Suc)
  next
    case False
    then show ?thesis by (simp add: add_months_after.simps [of y m mm] word_less_nat_alt)
  qed
qed

lemma of_year_remaining:
  assumes "valid_date (unat y) (unat m) (unat d)"
  shows "unat (days_of_year_remaining y m d) + days_before_month (unat y) 1 (unat m) + unat d = year_len (unat y)"
proof -
  let ?d = "ucast (days_per_month y m) - ucast d :: u16"
  have d: "unat ?d = month_len (unat y) (unat m) - unat d"
    using assms by (subst unat_sub) (simp_all add: word_le_nat_alt unat_widen per_month valid_date_def)
  then have "unat (days_of_year_remaining y m d) =
      month_len (unat y) (unat m) - unat d + days_before_month (unat y) (Suc (unat m)) 13"
    using add_months_after_days [of ?d 12 m y] month_len_le [of "unat y" "unat m"]
    by (simp add: days_of_year_remaining_def)
  moreover have "days_before_month (unat y) 1 13 =
      days_before_month (unat y) 1 (unat m) + days_before_month (unat y) (unat m) 13"
    using assms unfolding days_before_month_def valid_date_def by (intro sum.atLeastLessThan_concat [symmetric]) auto
  moreover have "days_before_month (unat y) (unat m) 13 =
      month_len (unat y) (unat m) + days_before_month (unat y) (Suc (unat m)) 13"
    using assms by (intro days_before_month_step) (auto simp: valid_date_def)
  ultimately show ?thesis using assms unfolding months_make_year valid_date_def by linarith
qed

lemma of_year_le: "valid_date (unat y) (unat m) (unat d) \<Longrightarrow> unat (days_of_year y m d) \<le> 366"
  using of_year_remaining [of y m d] year_len_le [of "unat y"] unfolding of_year by linarith

lemma day_number_of_year:
  "valid_date (unat y) (unat m) (unat d) \<Longrightarrow>
   day_number 0 (unat y) (unat m) (unat d) + 1 = days_before_year 0 (unat y) + unat (days_of_year y m d)"
  by (simp add: day_number_def valid_date_def of_year)

lemma nat_distance:
  "n = (if u < v then v - u else u - v) \<Longrightarrow> a + 1 = c + u \<Longrightarrow> b + 1 = c + v \<Longrightarrow> n = nat \<bar>int b - int a\<bar>"
  by (auto split: if_splits)

lemma days_between_years:
  assumes "valid_date (unat y1) (unat m1) (unat d1)" "valid_date (unat y2) (unat m2) (unat d2)" "y1 < y2"
  shows "unat (add_years y2 (y1 + 1) (ucast (days_of_year_remaining y1 m1 d1)) + ucast (days_of_year y2 m2 d2)) +
    day_number 0 (unat y1) (unat m1) (unat d1) = day_number 0 (unat y2) (unat m2) (unat d2)"
proof -
  let ?r = "ucast (days_of_year_remaining y1 m1 d1) :: u32"
  have lt: "unat y1 < unat y2" using assms(3) by (simp add: word_less_nat_alt)
  have r: "unat ?r + days_before_month (unat y1) 1 (unat m1) + unat d1 = year_len (unat y1)"
    using of_year_remaining [OF assms(1)] by (simp add: unat_widen)
  have next_y: "unat (y1 + 1) = Suc (unat y1)" using assms(3) by (rule unat_next)
  have "366 * (unat y2 - unat (y1 + 1)) \<le> 366 * 65535" using unat_bounds(2) [of y2] by simp
  then have a: "unat (add_years y2 (y1 + 1) ?r) = unat ?r + days_before_year (Suc (unat y1)) (unat y2)"
      "unat (add_years y2 (y1 + 1) ?r) \<le> 366 + 366 * 65535"
    using add_years_days [of ?r y2 "y1 + 1"] days_before_year_le [of "Suc (unat y1)" "unat y2"] r
      year_len_le [of "unat y1"] next_y by auto
  then have "unat (add_years y2 (y1 + 1) ?r + ucast (days_of_year y2 m2 d2)) =
      unat ?r + days_before_year (Suc (unat y1)) (unat y2) + days_before_month (unat y2) 1 (unat m2) + unat d2"
    using of_year_le [OF assms(2)] of_year [of y2 m2 d2] by (simp add: unat_word_ariths unat_widen)
  moreover have "days_before_year 0 (unat y2) =
      days_before_year 0 (unat y1) + (year_len (unat y1) + days_before_year (Suc (unat y1)) (unat y2))"
    using lt by (simp flip: days_before_year_step) (simp add: days_before_year_def sum.atLeastLessThan_concat)
  ultimately show ?thesis using r assms(1,2) unfolding day_number_def valid_date_def by linarith
qed

lemma month_day_of_year:
  assumes "days_date_is_valid y m d"
  shows "days_of_year_to_month_day (ucast (days_of_year y m d)) y = Some (m, d)"
proof -
  have "subtract_months (\<lambda>a b. a > b) y 1 (ucast (days_of_year y m d)) = Some (m, of_nat (unat d))"
    by (intro subtract_months_date [of _ 1])
      (use assms in \<open>auto simp: date_is_valid valid_date_def word_less_nat_alt unat_widen of_year\<close>)
  moreover have "ucast (of_nat (unat d) :: u32) = d"
    using unat_bounds(1) [of d] by (subst narrow_nat) simp_all
  ultimately show ?thesis by (simp add: days_of_year_to_month_day_def)
qed

section \<open>Properties\<close>

text \<open>
  C23. On the dates from the epoch year to 9999 that exist, the days since the epoch are the days of the calendar
  before the date, and converting them back gives the date; every count of days that ends before
  the year 10000 is the count of the date it converts to. Whatever the count, the conversion ends
  with a date that exists.
\<close>

theorem calendar_roundtrip:
  "(days_date_is_valid y m d \<longrightarrow> e \<le> y \<longrightarrow> y \<le> 9999 \<longrightarrow>
     unat (days_since_epoch e y m d) = day_number (unat e) (unat y) (unat m) (unat d) \<and>
     days_since_epoch_to_date e (days_since_epoch e y m d) = Some (y, m, d)) \<and>
   (unat days < days_before_year (unat e) 10000 \<longrightarrow>
     (\<exists>y m d. days_since_epoch_to_date e days = Some (y, m, d) \<and> days_date_is_valid y m d \<and>
        e \<le> y \<and> y \<le> 9999 \<and> days_since_epoch e y m d = days)) \<and>
   (\<exists>y m d. days_since_epoch_to_date e days = Some (y, m, d) \<and> days_date_is_valid y m d)"
proof (intro conjI impI)
  assume "days_date_is_valid y m d" "e \<le> y" "y \<le> 9999"
  then have v: "valid_date (unat y) (unat m) (unat d)" "unat e \<le> unat y" "unat y \<le> 9999"
    by (simp_all add: date_is_valid word_le_nat_alt)
  then show "unat (days_since_epoch e y m d) = day_number (unat e) (unat y) (unat m) (unat d)" by (rule since_epoch)
  with v show "days_since_epoch_to_date e (days_since_epoch e y m d) = Some (y, m, d)" by (intro to_date)
next
  assume "unat days < days_before_year (unat e) 10000"
  then obtain y :: u16 and m d :: u8 where n: "unat days = day_number (unat e) (unat y) (unat m) (unat d)"
    and date: "unat e \<le> unat y" "unat y \<le> 9999" "valid_date (unat y) (unat m) (unat d)"
    using date_in_range by blast
  then have "days_since_epoch_to_date e days = Some (y, m, d)" by (intro to_date)
  moreover have "days_since_epoch e y m d = days"
    using since_epoch [of y m d e] n date by (simp add: word_unat_eq_iff)
  ultimately show "\<exists>y m d. days_since_epoch_to_date e days = Some (y, m, d) \<and> days_date_is_valid y m d \<and>
      e \<le> y \<and> y \<le> 9999 \<and> days_since_epoch e y m d = days"
    using date by (auto simp: date_is_valid word_le_nat_alt)
qed (rule to_date_returns)

theorem calendar_roundtrip_witness:
  "days_since_epoch_to_date 1900 (days_since_epoch 1900 2024 2 29) = Some (2024, 2, 29)"
  using calendar_roundtrip [of 2024 2 29 1900 0]
  by (simp add: days_date_is_valid_def days_per_month_def days_is_leap_year_def)

text \<open>
  Between two dates that exist, in whatever order, days apart gives the difference of their
  places in the calendar.
\<close>

lemma days_apart_correct:
  assumes "days_date_is_valid year1 month1 day1" "days_date_is_valid year2 month2 day2"
  shows "unat (days_apart year1 month1 day1 year2 month2 day2) =
    nat \<bar>int (day_number 0 (unat year2) (unat month2) (unat day2)) -
     int (day_number 0 (unat year1) (unat month1) (unat day1))\<bar>"
proof (cases year1 year2 rule: linorder_cases)
  case less
  then show ?thesis
    using days_between_years [of year1 month1 day1 year2 month2 day2] assms
    by (auto simp: days_apart_def date_is_valid)
next
  case greater
  then show ?thesis
    using days_between_years [of year2 month2 day2 year1 month1 day1] assms
    by (auto simp: days_apart_def date_is_valid)
next
  case equal
  then have "unat (days_apart year1 month1 day1 year2 month2 day2) =
      (if unat (days_of_year year1 month1 day1) < unat (days_of_year year2 month2 day2)
       then unat (days_of_year year2 month2 day2) - unat (days_of_year year1 month1 day1)
       else unat (days_of_year year1 month1 day1) - unat (days_of_year year2 month2 day2))"
    by (simp add: days_apart_def Let_def word_less_nat_alt unat_sub word_le_nat_alt unat_widen)
  then show ?thesis
    using day_number_of_year [of year1 month1 day1] day_number_of_year [of year2 month2 day2] assms equal
    by (intro nat_distance [where c = "days_before_year 0 (unat year2)"]) (simp_all add: date_is_valid)
qed

end
