(* ===== verification/Bac_Datetime.thy ===== *)
theory Bac_Datetime
  imports Bac_Days Bac_Primitive_Codec "HOL-Library.Signed_Division"
begin

text \<open>
  The calendar half of \<^verbatim>\<open>src/bacnet/datetime.c\<close>: validity, comparison with and without wildcards, the
  conversions of dates and times to counts since the epoch 1900, adding minutes, and the conversion
  between local time and UTC. Pointers are not NULL here. A C \<^verbatim>\<open>int\<close> is an integer, \<^verbatim>\<open>int16_t\<close> and
  \<^verbatim>\<open>int8_t\<close> are words read with \<open>sint\<close>. Shown here: seconds since the epoch and back give the same
  date and time, adding minutes adds them to the count of minutes, and the two conversions undo each
  other.
\<close>

section \<open>Functions\<close>

record BACNET_DATE_TIME =
  date :: BACNET_DATE
  time :: BACNET_TIME

definition BACNET_DATE_YEAR_EPOCH :: u16 where
  "BACNET_DATE_YEAR_EPOCH = 1900"

definition BACNET_DAY_OF_WEEK_EPOCH :: u8 where
  "BACNET_DAY_OF_WEEK_EPOCH = 1"

subsection \<open>Dates\<close>

definition datetime_ymd_is_valid :: "u16 \<Rightarrow> u8 \<Rightarrow> u8 \<Rightarrow> bool" where
  "datetime_ymd_is_valid y m d =
     (let monthdays = days_per_month y m
      in y \<ge> BACNET_DATE_YEAR_EPOCH \<and> monthdays > 0 \<and> d \<ge> 1 \<and> d \<le> monthdays)"

definition datetime_date_is_valid :: "BACNET_DATE \<Rightarrow> bool" where
  "datetime_date_is_valid bdate = datetime_ymd_is_valid (year bdate) (month bdate) (day bdate)"

definition datetime_ymd_day_of_year :: "u16 \<Rightarrow> u8 \<Rightarrow> u8 \<Rightarrow> u32" where
  "datetime_ymd_day_of_year y m d =
     (if datetime_ymd_is_valid y m d then add_months y m 1 0 + ucast d else 0)"

definition datetime_ymd_to_days_since_epoch :: "u16 \<Rightarrow> u8 \<Rightarrow> u8 \<Rightarrow> u32" where
  "datetime_ymd_to_days_since_epoch y m d =
     (if datetime_ymd_is_valid y m d then days_since_epoch BACNET_DATE_YEAR_EPOCH y m d else 0)"

definition datetime_day_of_week :: "u16 \<Rightarrow> u8 \<Rightarrow> u8 \<Rightarrow> u8" where
  "datetime_day_of_week y m d =
     days_of_week BACNET_DAY_OF_WEEK_EPOCH (datetime_ymd_to_days_since_epoch y m d)"

definition datetime_set_date :: "BACNET_DATE \<Rightarrow> u16 \<Rightarrow> u8 \<Rightarrow> u8 \<Rightarrow> BACNET_DATE" where
  "datetime_set_date bdate y m d =
     bdate\<lparr>year := y, month := m, day := d, wday := datetime_day_of_week y m d\<rparr>"

definition datetime_day_of_year_into_date :: "u32 \<Rightarrow> u16 \<Rightarrow> BACNET_DATE \<Rightarrow> BACNET_DATE option" where
  "datetime_day_of_year_into_date days y bdate = do {
     (m, d) \<leftarrow> days_of_year_to_month_day days y;
     Some (datetime_set_date bdate y m d) }"

definition datetime_day_of_year :: "BACNET_DATE \<Rightarrow> u32" where
  "datetime_day_of_year bdate = datetime_ymd_day_of_year (year bdate) (month bdate) (day bdate)"

definition datetime_days_since_epoch :: "BACNET_DATE \<Rightarrow> u32" where
  "datetime_days_since_epoch bdate =
     datetime_ymd_to_days_since_epoch (year bdate) (month bdate) (day bdate)"

text \<open>The loop over the years looks for the last day of a leap year before it subtracts.\<close>

function epoch_years :: "u16 \<Rightarrow> u32 \<Rightarrow> u16 \<times> u32" where
  "epoch_years y days =
     (if days \<ge> 365 then
        if days_is_leap_year y \<and> days = 365 then (y, days)
        else
          let days = days - 365;
              days = (if days_is_leap_year y then days - 1 else days)
          in epoch_years (y + 1) days
      else (y, days))"
  by pat_completeness auto
termination
proof (relation "measure (\<lambda>(_, days). unat days)", goal_cases)
  case (2 y days d d')
  then have "unat days \<ge> 365" "days_is_leap_year y \<longrightarrow> unat days \<noteq> 365"
    by (auto simp: word_le_nat_alt word_unat_eq_iff)
  then have "unat (days - 365) = unat days - 365" "days_is_leap_year y \<longrightarrow> unat (days - 366) = unat days - 366"
    by (auto simp: word_le_nat_alt unat_sub)
  then show ?case using 2 \<open>unat days \<ge> 365\<close> by auto
qed simp

declare epoch_years.simps [simp del]

definition datetime_ymd_from_days_since_epoch :: "u32 \<Rightarrow> (u16 \<times> u8 \<times> u8) option" where
  "datetime_ymd_from_days_since_epoch days =
     (let (y, days) = epoch_years BACNET_DATE_YEAR_EPOCH days in do {
        (m, days) \<leftarrow> subtract_months (\<lambda>a b. a \<ge> b) y 1 days;
        Some (y, m, ucast (1 + days)) })"

definition datetime_days_since_epoch_into_date :: "u32 \<Rightarrow> BACNET_DATE \<Rightarrow> BACNET_DATE option" where
  "datetime_days_since_epoch_into_date days bdate = do {
     (y, m, d) \<leftarrow> datetime_ymd_from_days_since_epoch days;
     Some (datetime_set_date bdate y m d) }"

subsection \<open>Times\<close>

definition datetime_time_is_valid :: "BACNET_TIME \<Rightarrow> bool" where
  "datetime_time_is_valid btime =
     (hour btime < 24 \<and> minute btime < 60 \<and> sec btime < 60 \<and> hundredths btime < 100)"

definition datetime_is_valid :: "BACNET_DATE \<Rightarrow> BACNET_TIME \<Rightarrow> bool" where
  "datetime_is_valid bdate btime = (datetime_date_is_valid bdate \<and> datetime_time_is_valid btime)"

definition datetime_hms_to_seconds_since_midnight :: "u8 \<Rightarrow> u8 \<Rightarrow> u8 \<Rightarrow> u32" where
  "datetime_hms_to_seconds_since_midnight hours minutes seconds =
     ucast hours * 60 * 60 + ucast minutes * 60 + ucast seconds"

definition datetime_hm_to_minutes_since_midnight :: "u8 \<Rightarrow> u8 \<Rightarrow> u16" where
  "datetime_hm_to_minutes_since_midnight hours minutes = ucast hours * 60 + ucast minutes"

definition datetime_hms_from_seconds_since_midnight :: "u32 \<Rightarrow> u8 \<times> u8 \<times> u8" where
  "datetime_hms_from_seconds_since_midnight seconds =
     (let h = ucast (seconds div (60 * 60)) :: u8;
          seconds = seconds - ucast h * 60 * 60;
          m = ucast (seconds div 60) :: u8;
          seconds = seconds - ucast m * 60
      in (h, m, ucast seconds))"

definition datetime_seconds_since_midnight_into_time :: "u32 \<Rightarrow> BACNET_TIME \<Rightarrow> BACNET_TIME" where
  "datetime_seconds_since_midnight_into_time seconds btime =
     (let (h, m, s) = datetime_hms_from_seconds_since_midnight seconds
      in btime\<lparr>hour := h, minute := m, sec := s, hundredths := 0\<rparr>)"

definition datetime_seconds_since_midnight :: "BACNET_TIME \<Rightarrow> u32" where
  "datetime_seconds_since_midnight btime =
     datetime_hms_to_seconds_since_midnight (hour btime) (minute btime) (sec btime)"

definition datetime_minutes_since_midnight :: "BACNET_TIME \<Rightarrow> u16" where
  "datetime_minutes_since_midnight btime =
     datetime_hm_to_minutes_since_midnight (hour btime) (minute btime)"

subsection \<open>Comparing\<close>

definition datetime_compare_date :: "BACNET_DATE \<Rightarrow> BACNET_DATE \<Rightarrow> int" where
  "datetime_compare_date date1 date2 =
     (let diff = uint (year date1) - uint (year date2) in
      if diff = 0 then
        let diff = uint (month date1) - uint (month date2) in
        if diff = 0 then uint (day date1) - uint (day date2) else diff
      else diff)"

definition datetime_compare_time :: "BACNET_TIME \<Rightarrow> BACNET_TIME \<Rightarrow> int" where
  "datetime_compare_time time1 time2 =
     (let diff = uint (hour time1) - uint (hour time2) in
      if diff = 0 then
        let diff = uint (minute time1) - uint (minute time2) in
        if diff = 0 then
          let diff = uint (sec time1) - uint (sec time2) in
          if diff = 0 then uint (hundredths time1) - uint (hundredths time2) else diff
        else diff
      else diff)"

definition datetime_compare :: "BACNET_DATE_TIME \<Rightarrow> BACNET_DATE_TIME \<Rightarrow> int" where
  "datetime_compare datetime1 datetime2 =
     (let diff = datetime_compare_date (date datetime1) (date datetime2)
      in if diff = 0 then datetime_compare_time (time datetime1) (time datetime2) else diff)"

text \<open>A field is compared when neither side holds its wildcard.\<close>

definition unless_wild :: "'a::len word \<Rightarrow> 'a word \<Rightarrow> 'a word \<Rightarrow> int" where
  "unless_wild w a b = (if a \<noteq> w \<and> b \<noteq> w then uint a - uint b else 0)"

definition datetime_wildcard_compare_date :: "BACNET_DATE \<Rightarrow> BACNET_DATE \<Rightarrow> int" where
  "datetime_wildcard_compare_date date1 date2 =
     (let diff = unless_wild (1900 + 0xFF) (year date1) (year date2) in
      if diff = 0 then
        let diff = unless_wild 0xFF (month date1) (month date2) in
        if diff = 0 then unless_wild 0xFF (day date1) (day date2) else diff
      else diff)"

definition datetime_wildcard_compare_time :: "BACNET_TIME \<Rightarrow> BACNET_TIME \<Rightarrow> int" where
  "datetime_wildcard_compare_time time1 time2 =
     (let diff = unless_wild 0xFF (hour time1) (hour time2) in
      if diff = 0 then
        let diff = unless_wild 0xFF (minute time1) (minute time2) in
        if diff = 0 then
          let diff = unless_wild 0xFF (sec time1) (sec time2) in
          if diff = 0 then unless_wild 0xFF (hundredths time1) (hundredths time2) else diff
        else diff
      else diff)"

definition datetime_wildcard_compare :: "BACNET_DATE_TIME \<Rightarrow> BACNET_DATE_TIME \<Rightarrow> int" where
  "datetime_wildcard_compare datetime1 datetime2 =
     (let diff = datetime_wildcard_compare_date (date datetime1) (date datetime2)
      in if diff = 0 then datetime_wildcard_compare_time (time datetime1) (time datetime2) else diff)"

subsection \<open>Setting\<close>

definition datetime_copy_date :: "BACNET_DATE \<Rightarrow> BACNET_DATE \<Rightarrow> BACNET_DATE" where
  "datetime_copy_date dest src =
     dest\<lparr>year := year src, month := month src, day := day src, wday := wday src\<rparr>"

definition datetime_copy_time :: "BACNET_TIME \<Rightarrow> BACNET_TIME \<Rightarrow> BACNET_TIME" where
  "datetime_copy_time dest src =
     dest\<lparr>hour := hour src, minute := minute src, sec := sec src, hundredths := hundredths src\<rparr>"

definition datetime_copy :: "BACNET_DATE_TIME \<Rightarrow> BACNET_DATE_TIME \<Rightarrow> BACNET_DATE_TIME" where
  "datetime_copy dest src =
     dest\<lparr>time := datetime_copy_time (time dest) (time src),
          date := datetime_copy_date (date dest) (date src)\<rparr>"

definition datetime_set_time :: "BACNET_TIME \<Rightarrow> u8 \<Rightarrow> u8 \<Rightarrow> u8 \<Rightarrow> u8 \<Rightarrow> BACNET_TIME" where
  "datetime_set_time btime h m s c = btime\<lparr>hour := h, minute := m, sec := s, hundredths := c\<rparr>"

definition datetime_set :: "BACNET_DATE_TIME \<Rightarrow> BACNET_DATE \<Rightarrow> BACNET_TIME \<Rightarrow> BACNET_DATE_TIME" where
  "datetime_set bdatetime bdate btime =
     bdatetime\<lparr>time := (time bdatetime)\<lparr>hour := hour btime, minute := minute btime, sec := sec btime,
                 hundredths := hundredths btime\<rparr>,
       date := (date bdatetime)\<lparr>year := year bdate, month := month bdate, day := day bdate, wday := wday bdate\<rparr>\<rparr>"

definition datetime_set_values ::
  "BACNET_DATE_TIME \<Rightarrow> u16 \<Rightarrow> u8 \<Rightarrow> u8 \<Rightarrow> u8 \<Rightarrow> u8 \<Rightarrow> u8 \<Rightarrow> u8 \<Rightarrow> BACNET_DATE_TIME" where
  "datetime_set_values bdatetime y m d h mi s c =
     bdatetime\<lparr>date := (date bdatetime)\<lparr>year := y, month := m, day := d, wday := datetime_day_of_week y m d\<rparr>,
       time := (time bdatetime)\<lparr>hour := h, minute := mi, sec := s, hundredths := c\<rparr>\<rparr>"

subsection \<open>Arithmetic\<close>

definition carry_days :: "u32 \<Rightarrow> u32 \<Rightarrow> u32 \<times> u32" where
  "carry_days bdatetime_days bdatetime_minutes =
     (let days = sint (bdatetime_minutes div (24 * 60))
      in (bdatetime_days + of_int days, bdatetime_minutes - of_int (days * 24 * 60)))"

definition shift_minutes :: "u32 \<Rightarrow> u32 \<Rightarrow> int \<Rightarrow> u32 \<times> u32" where
  "shift_minutes bdatetime_days bdatetime_minutes minutes =
     (let days = minutes sdiv (24 * 60);
          bdatetime_days = bdatetime_days + of_int days;
          minutes = minutes - days * 24 * 60
      in if minutes < 0 then
           let minutes = minutes * -1 in
           if of_int minutes > bdatetime_minutes
           then (bdatetime_days - 1, bdatetime_minutes + of_int (24 * 60 - minutes))
           else carry_days bdatetime_days (bdatetime_minutes - of_int minutes)
         else carry_days bdatetime_days (bdatetime_minutes + of_int minutes))"

definition datetime_add_minutes :: "BACNET_DATE_TIME \<Rightarrow> int \<Rightarrow> BACNET_DATE_TIME option" where
  "datetime_add_minutes bdatetime minutes =
     (let bdatetime_minutes = datetime_hms_to_seconds_since_midnight (hour (time bdatetime))
            (minute (time bdatetime)) (sec (time bdatetime)) div 60;
          bdatetime_days = datetime_days_since_epoch (date bdatetime);
          (bdatetime_days, bdatetime_minutes) = shift_minutes bdatetime_days bdatetime_minutes minutes;
          (h, m, _) = datetime_hms_from_seconds_since_midnight (bdatetime_minutes * 60)
      in do {
        d \<leftarrow> datetime_days_since_epoch_into_date bdatetime_days (date bdatetime);
        Some (bdatetime\<lparr>time := (time bdatetime)\<lparr>hour := h, minute := m\<rparr>, date := d\<rparr>) })"

definition datetime_seconds_since_epoch :: "BACNET_DATE_TIME \<Rightarrow> u64" where
  "datetime_seconds_since_epoch bdatetime =
     (let days = datetime_days_since_epoch (date bdatetime);
          seconds = ucast (datetime_hms_to_seconds_since_midnight 24 0 0);
          seconds = seconds * ucast days
      in seconds + ucast (datetime_seconds_since_midnight (time bdatetime)))"

text \<open>The product of days and seconds is taken in 32 bits.\<close>

definition datetime_since_epoch_seconds :: "BACNET_DATE_TIME \<Rightarrow> u64 \<Rightarrow> BACNET_DATE_TIME option" where
  "datetime_since_epoch_seconds bdatetime seconds =
     (let day_seconds = datetime_hms_to_seconds_since_midnight 24 0 0;
          days = ucast (seconds div ucast day_seconds);
          seconds_after_midnight = ucast (seconds - ucast (days * day_seconds))
      in do {
        d \<leftarrow> datetime_days_since_epoch_into_date days (date bdatetime);
        Some (bdatetime\<lparr>time := datetime_seconds_since_midnight_into_time seconds_after_midnight (time bdatetime),
                date := d\<rparr>) })"

definition datetime_seconds_since_epoch_max :: u64 where
  "datetime_seconds_since_epoch_max = 0xFFFFFFFFFFFFFFFF"

definition datetime_utc_to_local ::
  "BACNET_DATE_TIME \<Rightarrow> BACNET_DATE_TIME \<Rightarrow> u16 \<Rightarrow> u8 \<Rightarrow> BACNET_DATE_TIME option" where
  "datetime_utc_to_local local_time utc_time utc_offset_minutes dst_adjust_minutes = do {
     let local_time = datetime_copy local_time utc_time;
     let utc_offset_minutes = utc_offset_minutes * -1;
     local_time \<leftarrow> datetime_add_minutes local_time (sint utc_offset_minutes);
     if dst_adjust_minutes \<noteq> 0 then
       datetime_add_minutes local_time (sint (dst_adjust_minutes * -1))
     else Some local_time }"

definition datetime_local_to_utc ::
  "BACNET_DATE_TIME \<Rightarrow> BACNET_DATE_TIME \<Rightarrow> u16 \<Rightarrow> u8 \<Rightarrow> BACNET_DATE_TIME option" where
  "datetime_local_to_utc utc_time local_time utc_offset_minutes dst_adjust_minutes = do {
     let utc_time = datetime_copy utc_time local_time;
     utc_time \<leftarrow> datetime_add_minutes utc_time (sint utc_offset_minutes);
     if dst_adjust_minutes \<noteq> 0 then datetime_add_minutes utc_time (sint dst_adjust_minutes)
     else Some utc_time }"

subsection \<open>Wildcards\<close>

definition datetime_wildcard_year :: "BACNET_DATE \<Rightarrow> bool" where
  "datetime_wildcard_year bdate = (year bdate = BACNET_DATE_YEAR_EPOCH + 0xFF)"

definition datetime_wildcard_year_set :: "BACNET_DATE \<Rightarrow> BACNET_DATE" where
  "datetime_wildcard_year_set bdate = bdate\<lparr>year := BACNET_DATE_YEAR_EPOCH + 0xFF\<rparr>"

definition datetime_wildcard_month :: "BACNET_DATE \<Rightarrow> bool" where
  "datetime_wildcard_month bdate = (month bdate = 0xFF)"

definition datetime_wildcard_month_set :: "BACNET_DATE \<Rightarrow> BACNET_DATE" where
  "datetime_wildcard_month_set bdate = bdate\<lparr>month := 0xFF\<rparr>"

definition datetime_wildcard_day :: "BACNET_DATE \<Rightarrow> bool" where
  "datetime_wildcard_day bdate = (day bdate = 0xFF)"

definition datetime_wildcard_day_set :: "BACNET_DATE \<Rightarrow> BACNET_DATE" where
  "datetime_wildcard_day_set bdate = bdate\<lparr>day := 0xFF\<rparr>"

definition datetime_wildcard_weekday :: "BACNET_DATE \<Rightarrow> bool" where
  "datetime_wildcard_weekday bdate = (wday bdate = 0xFF)"

definition datetime_wildcard_weekday_set :: "BACNET_DATE \<Rightarrow> BACNET_DATE" where
  "datetime_wildcard_weekday_set bdate = bdate\<lparr>wday := 0xFF\<rparr>"

definition datetime_wildcard_hour :: "BACNET_TIME \<Rightarrow> bool" where
  "datetime_wildcard_hour btime = (hour btime = 0xFF)"

definition datetime_wildcard_hour_set :: "BACNET_TIME \<Rightarrow> BACNET_TIME" where
  "datetime_wildcard_hour_set btime = btime\<lparr>hour := 0xFF\<rparr>"

definition datetime_wildcard_minute :: "BACNET_TIME \<Rightarrow> bool" where
  "datetime_wildcard_minute btime = (minute btime = 0xFF)"

definition datetime_wildcard_minute_set :: "BACNET_TIME \<Rightarrow> BACNET_TIME" where
  "datetime_wildcard_minute_set btime = btime\<lparr>minute := 0xFF\<rparr>"

definition datetime_wildcard_second :: "BACNET_TIME \<Rightarrow> bool" where
  "datetime_wildcard_second btime = (sec btime = 0xFF)"

definition datetime_wildcard_second_set :: "BACNET_TIME \<Rightarrow> BACNET_TIME" where
  "datetime_wildcard_second_set btime = btime\<lparr>sec := 0xFF\<rparr>"

definition datetime_wildcard_hundredths :: "BACNET_TIME \<Rightarrow> bool" where
  "datetime_wildcard_hundredths btime = (hundredths btime = 0xFF)"

definition datetime_wildcard_hundredths_set :: "BACNET_TIME \<Rightarrow> BACNET_TIME" where
  "datetime_wildcard_hundredths_set btime = btime\<lparr>hundredths := 0xFF\<rparr>"

definition datetime_wildcard :: "BACNET_DATE_TIME \<Rightarrow> bool" where
  "datetime_wildcard bdatetime =
     (datetime_wildcard_year (date bdatetime) \<and> datetime_wildcard_month (date bdatetime) \<and>
      datetime_wildcard_day (date bdatetime) \<and> datetime_wildcard_weekday (date bdatetime) \<and>
      datetime_wildcard_hour (time bdatetime) \<and> datetime_wildcard_minute (time bdatetime) \<and>
      datetime_wildcard_second (time bdatetime) \<and> datetime_wildcard_hundredths (time bdatetime))"

definition datetime_wildcard_present :: "BACNET_DATE_TIME \<Rightarrow> bool" where
  "datetime_wildcard_present bdatetime =
     (datetime_wildcard_year (date bdatetime) \<or> month (date bdatetime) > 12 \<or> day (date bdatetime) > 31 \<or>
      datetime_wildcard_hour (time bdatetime) \<or> datetime_wildcard_minute (time bdatetime) \<or>
      datetime_wildcard_second (time bdatetime) \<or> datetime_wildcard_hundredths (time bdatetime))"

definition datetime_date_wildcard_set :: "BACNET_DATE \<Rightarrow> BACNET_DATE" where
  "datetime_date_wildcard_set bdate =
     bdate\<lparr>year := BACNET_DATE_YEAR_EPOCH + 0xFF, month := 0xFF, day := 0xFF, wday := 0xFF\<rparr>"

definition datetime_time_wildcard_set :: "BACNET_TIME \<Rightarrow> BACNET_TIME" where
  "datetime_time_wildcard_set btime =
     btime\<lparr>hour := 0xFF, minute := 0xFF, sec := 0xFF, hundredths := 0xFF\<rparr>"

definition datetime_wildcard_set :: "BACNET_DATE_TIME \<Rightarrow> BACNET_DATE_TIME" where
  "datetime_wildcard_set bdatetime =
     bdatetime\<lparr>date := datetime_date_wildcard_set (date bdatetime),
       time := datetime_time_wildcard_set (time bdatetime)\<rparr>"

section \<open>Dates and counts of days\<close>

lemma epoch_years_subtract: "epoch_years y days = subtract_years y days"
proof (induction y days rule: epoch_years.induct)
  case (1 y days)
  show ?case
  proof (cases "days_is_leap_year y \<and> days = 365 \<or> days < 365")
    case True
    then show ?thesis
      by (auto simp: epoch_years.simps [of y] subtract_years.simps [of y] days_per_year_def word_le_nat_alt word_less_nat_alt)
  next
    case False
    then have "days \<ge> days_per_year y"
      by (auto simp: days_per_year_def word_le_nat_alt word_less_nat_alt word_unat_eq_iff)
    then show ?thesis
      using 1 False by (auto simp: epoch_years.simps [of y] subtract_years.simps [of y] days_per_year_def not_less)
  qed
qed

lemma ucast_plus_one: "ucast (1 + d :: u32) = (1 + ucast d :: u8)"
  by (simp add: unsigned_ucast_eq word_unat_eq_iff unat_word_ariths take_bit_eq_mod mod_simps mod_mod_cancel)

lemma from_days: "datetime_ymd_from_days_since_epoch days = days_since_epoch_to_date 1900 days"
  by (simp add: datetime_ymd_from_days_since_epoch_def days_since_epoch_to_date_def epoch_years_subtract
      BACNET_DATE_YEAR_EPOCH_def ucast_plus_one)

text \<open>The dates of the calendar functions: those that exist, from the epoch to the year 9999.\<close>

definition calendar_date :: "BACNET_DATE \<Rightarrow> bool" where
  "calendar_date d = (datetime_date_is_valid d \<and> year d \<le> 9999)"

definition days_of :: "BACNET_DATE \<Rightarrow> nat" where
  "days_of d = day_number 1900 (unat (year d)) (unat (month d)) (unat (day d))"

lemma ymd_valid: "datetime_ymd_is_valid y m d \<longleftrightarrow> 1900 \<le> unat y \<and> valid_date (unat y) (unat m) (unat d)"
  using month_len_pos [of "unat y" "unat m"]
  by (auto simp: datetime_ymd_is_valid_def BACNET_DATE_YEAR_EPOCH_def Let_def valid_date_def
      word_le_nat_alt word_less_nat_alt per_month)

lemma days_of_date: "calendar_date d \<Longrightarrow> unat (datetime_days_since_epoch d) = days_of d"
  using since_epoch [of "year d" "month d" "day d" 1900]
  by (simp add: calendar_date_def datetime_date_is_valid_def datetime_days_since_epoch_def ymd_valid
      datetime_ymd_to_days_since_epoch_def days_of_def BACNET_DATE_YEAR_EPOCH_def word_le_nat_alt)

definition with_weekday :: "BACNET_DATE \<Rightarrow> BACNET_DATE" where
  "with_weekday d = d\<lparr>wday := datetime_day_of_week (year d) (month d) (day d)\<rparr>"

lemma date_of_days:
  "calendar_date d \<Longrightarrow> unat days = days_of d \<Longrightarrow> datetime_days_since_epoch_into_date days b = Some (with_weekday d)"
  using to_date [of days 1900 "year d" "month d" "day d"]
  by (simp add: calendar_date_def datetime_date_is_valid_def ymd_valid datetime_days_since_epoch_into_date_def
      from_days days_of_def datetime_set_date_def with_weekday_def)

lemma calendar_date_exists:
  assumes "unat days < days_before_year 1900 10000"
  shows "\<exists>d. datetime_days_since_epoch_into_date days b = Some d \<and> calendar_date d \<and> days_of d = unat days \<and>
    with_weekday d = d"
proof -
  obtain y :: u16 and m d :: u8 where date: "unat days = day_number 1900 (unat y) (unat m) (unat d)"
      "1900 \<le> unat y" "unat y \<le> 9999" "valid_date (unat y) (unat m) (unat d)"
    using date_in_range [of days 1900] assms by auto
  define r where "r = \<lparr>year = y, month = m, day = d, wday = datetime_day_of_week y m d\<rparr>"
  have "calendar_date r" "days_of r = unat days" "with_weekday r = r"
    using date by (simp_all add: r_def calendar_date_def datetime_date_is_valid_def ymd_valid word_le_nat_alt
        days_of_def with_weekday_def)
  then show ?thesis using date_of_days [of r days b] by auto
qed

section \<open>Times and counts of seconds\<close>

lemma hms_from:
  assumes "unat seconds = 3600 * unat h + 60 * unat m + unat s" "unat m < 60" "unat s < 60"
  shows "datetime_hms_from_seconds_since_midnight seconds = (h, m, s)"
proof -
  have "unat seconds div 3600 = unat h" using assms by simp
  then have h: "ucast (seconds div (60 * 60)) = h"
    using unat_bounds(1) [of h] by (simp add: word_unat_eq_iff unsigned_ucast_eq unat_div take_bit_nat_eq_self)
  have "unat (ucast h * 60 * 60 :: u32) = 3600 * unat h"
    using unat_bounds(1) [of h] by (simp add: unat_word_ariths unat_widen)
  then have s1: "unat (seconds - ucast h * 60 * 60) = 60 * unat m + unat s"
    using assms(1) by (subst unat_sub) (simp_all add: word_le_nat_alt)
  then have m: "ucast ((seconds - ucast h * 60 * 60) div 60) = m"
    using assms(2,3) by (simp add: word_unat_eq_iff unsigned_ucast_eq unat_div take_bit_nat_eq_self)
  have "unat (ucast m * 60 :: u32) = 60 * unat m"
    using unat_bounds(1) [of m] by (simp add: unat_word_ariths unat_widen)
  then have "unat (seconds - ucast h * 60 * 60 - ucast m * 60) = unat s"
    using s1 by (subst unat_sub) (simp_all add: word_le_nat_alt)
  then have "ucast (seconds - ucast h * 60 * 60 - ucast m * 60) = s"
    using assms(3) by (simp add: word_unat_eq_iff unsigned_ucast_eq take_bit_nat_eq_self)
  then show ?thesis using h m by (simp add: datetime_hms_from_seconds_since_midnight_def Let_def)
qed

lemma hms_to: "unat (datetime_hms_to_seconds_since_midnight h m s) = 3600 * unat h + 60 * unat m + unat s"
  using unat_bounds(1) [of h] unat_bounds(1) [of m] unat_bounds(1) [of s]
  by (simp add: datetime_hms_to_seconds_since_midnight_def unat_word_ariths unat_widen)

definition seconds_of_day :: "BACNET_TIME \<Rightarrow> nat" where
  "seconds_of_day t = 3600 * unat (hour t) + 60 * unat (minute t) + unat (sec t)"

lemma seconds_of_valid: "datetime_time_is_valid t \<Longrightarrow> seconds_of_day t < 86400"
  by (simp add: datetime_time_is_valid_def seconds_of_day_def word_less_nat_alt)

lemma day_seconds: "datetime_hms_to_seconds_since_midnight 24 0 0 = 86400"
  by (simp add: datetime_hms_to_seconds_since_midnight_def)

lemma seconds_count:
  assumes "calendar_date (date x)"
  shows "unat (datetime_seconds_since_epoch x) = 86400 * days_of (date x) + seconds_of_day (time x)"
proof -
  let ?d = "datetime_days_since_epoch (date x)"
  have "seconds_of_day (time x) \<le> 3600 * 255 + 60 * 255 + 255"
    using unat_bounds(1) [of "hour (time x)"] unat_bounds(1) [of "minute (time x)"] unat_bounds(1) [of "sec (time x)"]
    by (simp add: seconds_of_day_def)
  moreover have "unat (datetime_seconds_since_midnight (time x)) = seconds_of_day (time x)"
    by (simp add: datetime_seconds_since_midnight_def seconds_of_day_def hms_to)
  ultimately show ?thesis
    using days_of_date [OF assms] unat_bounds(3) [of ?d]
    by (simp add: datetime_seconds_since_epoch_def day_seconds unat_word_ariths unat_widen)
qed

lemma ucast_minus: "ucast (a - b :: u64) = (ucast a - ucast b :: u32)"
proof -
  have narrow: "(of_int (k mod 2 ^ LENGTH(64)) :: u32) = of_int k" for k
    by (simp add: word_of_int_eq_iff take_bit_eq_mod mod_mod_cancel)
  have "ucast (a - b) = (of_int (uint (a - b)) :: u32)" by simp
  also have "\<dots> = of_int (uint a - uint b)" unfolding uint_word_ariths narrow ..
  also have "\<dots> = ucast a - ucast b" by simp
  finally show ?thesis .
qed

lemma ucast_up_down: "ucast (ucast (w :: u32) :: u64) = w"
  by (rule bit_word_eqI) (auto simp: bit_simps)

lemma since_epoch_seconds:
  assumes "calendar_date (date x)" "datetime_time_is_valid (time x)"
  shows "datetime_since_epoch_seconds b (datetime_seconds_since_epoch x) =
    Some \<lparr>date = with_weekday (date x), time = (time x)\<lparr>hundredths := 0\<rparr>\<rparr>"
proof -
  let ?s = "datetime_seconds_since_epoch x" and ?d = "datetime_days_since_epoch (date x)"
  let ?t = "of_nat (seconds_of_day (time x)) :: u32"
  have less: "seconds_of_day (time x) < 86400" using assms(2) by (rule seconds_of_valid)
  have "unat (?s div 86400) = unat ?d"
    using less days_of_date [OF assms(1)] by (simp add: unat_div seconds_count [OF assms(1)])
  then have d: "ucast (?s div 86400) = ?d"
    using unat_bounds(3) [of ?d] by (simp add: word_unat_eq_iff unsigned_ucast_eq take_bit_nat_eq_self)
  have "ucast ?s = (of_nat (unat ?s) :: u32)" by simp
  also have "\<dots> = of_nat (86400 * unat ?d) + ?t"
    unfolding seconds_count [OF assms(1)] days_of_date [OF assms(1)] by simp
  finally have "ucast ?s = ?d * 86400 + ?t" by simp
  then have t: "ucast (?s - ucast (?d * 86400)) = ?t" by (simp add: ucast_minus ucast_up_down)
  have "unat ?t = seconds_of_day (time x)" using less by (simp add: unat_of_nat)
  then have "datetime_hms_from_seconds_since_midnight ?t = (hour (time x), minute (time x), sec (time x))"
    using assms(2) by (intro hms_from) (simp_all add: seconds_of_day_def datetime_time_is_valid_def word_less_nat_alt)
  then have "datetime_seconds_since_midnight_into_time ?t u = (time x)\<lparr>hundredths := 0\<rparr>" for u
    by (simp add: datetime_seconds_since_midnight_into_time_def)
  moreover have "datetime_days_since_epoch_into_date ?d c = Some (with_weekday (date x))" for c
    using assms(1) days_of_date by (intro date_of_days) auto
  ultimately show ?thesis by (simp add: datetime_since_epoch_seconds_def day_seconds d t Let_def)
qed

section \<open>Adding minutes\<close>

lemma uint_small: "0 \<le> k \<Longrightarrow> k < 2 ^ LENGTH('a) \<Longrightarrow> uint (of_int k :: 'a::len word) = k"
  by (simp add: unsigned_of_int take_bit_int_eq_self)

lemma unat_small: "0 \<le> k \<Longrightarrow> k < 2 ^ LENGTH('a) \<Longrightarrow> unat (of_int k :: 'a::len word) = nat k"
  using uint_small [of k, where ?'a = 'a] by (metis nat_uint_eq)

lemma carry:
  assumes "0 \<le> n" "n < 2 ^ 31"
  shows "carry_days d (of_int n) = (d + of_int (n div 1440), of_int (n mod 1440))"
proof -
  have n: "uint (of_int k :: u32) = k" if "0 \<le> k" "k \<le> n" for k
    using assms that by (simp add: unsigned_of_int take_bit_int_eq_self)
  have "of_int n div 1440 = (of_int (n div 1440) :: u32)"
    using assms by (simp add: word_uint_eq_iff uint_div n)
  moreover have "sint (of_int (n div 1440) :: u32) = n div 1440"
    using assms by (simp add: signed_of_int signed_take_bit_int_eq_self)
  ultimately have "sint (of_int n div 1440 :: u32) = n div 1440" by simp
  then show ?thesis by (simp add: carry_days_def Let_def minus_div_mult_eq_mod [symmetric] algebra_simps)
qed

lemma sdiv_rest: "\<bar>minutes - minutes sdiv 1440 * 1440\<bar> < (1440 :: int)"
proof (cases "0 \<le> minutes")
  case True
  then have "minutes - minutes sdiv 1440 * 1440 = minutes mod 1440"
    by (cases "minutes = 0") (simp_all add: signed_divide_int_def minus_div_mult_eq_mod)
  then show ?thesis by simp
next
  case False
  then have "minutes sdiv 1440 = - (- minutes div 1440)" by (simp add: signed_divide_int_def)
  then have "minutes - minutes sdiv 1440 * 1440 = - (- minutes mod 1440)"
    using minus_div_mult_eq_mod [of "- minutes" 1440] by linarith
  moreover have "0 \<le> - minutes mod 1440" "- minutes mod 1440 < 1440" by simp_all
  ultimately show ?thesis by linarith
qed

lemma split_minutes:
  "0 \<le> b \<Longrightarrow> b < 1440 \<Longrightarrow> n = 1440 * a + b \<Longrightarrow> n div 1440 = (a :: int) \<and> n mod 1440 = b"
  by simp

lemma shift:
  assumes "0 \<le> m" "m < 1440"
  shows "shift_minutes (of_int d) (of_int m) minutes =
    (of_int ((1440 * d + m + minutes) div 1440), of_int ((1440 * d + m + minutes) mod 1440))"
proof -
  define q where "q = minutes sdiv 1440"
  define r where "r = minutes - q * 1440"
  have total: "1440 * d + m + minutes = (m + r) + 1440 * (d + q)" and r: "\<bar>r\<bar> < 1440"
    using sdiv_rest [of minutes] by (simp_all add: r_def q_def)
  have u: "uint (of_int k :: u32) = k" if "0 \<le> k" "k < 1440" for k
    using that by (simp add: unsigned_of_int take_bit_int_eq_self)
  have neg: "minutes < q * 1440 \<longleftrightarrow> r < 0" by (auto simp: r_def)
  have unfolded: "shift_minutes (of_int d) (of_int m) minutes =
      (if r < 0 then
         if (of_int (- r) :: u32) > of_int m then (of_int (d + q - 1), of_int (m + 1440 + r))
         else carry_days (of_int (d + q)) (of_int (m + r))
       else carry_days (of_int (d + q)) (of_int (m + r)))"
    by (simp add: shift_minutes_def Let_def neg q_def [symmetric] r_def [symmetric] add.assoc mult.assoc)
  have carried: "carry_days (of_int (d + q)) (of_int (m + r)) =
      (of_int ((1440 * d + m + minutes) div 1440), of_int ((1440 * d + m + minutes) mod 1440))" if "0 \<le> m + r"
    using carry [of "m + r" "of_int (d + q)"] that assms r unfolding total by (subst div_mult_self2) (simp_all only: mod_mult_self2, simp)
  show ?thesis
  proof (cases "r < 0 \<and> m < - r")
    case True
    then have "(of_int (- r) :: u32) > of_int m"
      using u [of m] u [of "- r"] assms r by (simp add: word_less_def)
    moreover have "(1440 * d + m + minutes) div 1440 = d + q - 1 \<and> (1440 * d + m + minutes) mod 1440 = m + 1440 + r"
      using True assms r total by (intro split_minutes) auto
    ultimately show ?thesis using True by (simp add: unfolded)
  next
    case False
    then have "r < 0 \<longrightarrow> \<not> (of_int (- r) :: u32) > of_int m"
      using u [of m] u [of "- r"] assms r by (simp add: word_less_def)
    then show ?thesis using False assms carried by (auto simp: unfolded)
  qed
qed

text \<open>A date and time as its count of minutes since the epoch.\<close>

definition minutes_of :: "BACNET_DATE_TIME \<Rightarrow> int" where
  "minutes_of x = 1440 * int (days_of (date x)) + 60 * uint (hour (time x)) + uint (minute (time x))"

definition calendar_time :: "BACNET_DATE_TIME \<Rightarrow> bool" where
  "calendar_time x = (calendar_date (date x) \<and> datetime_time_is_valid (time x))"

definition minutes_end :: int where
  "minutes_end = 1440 * int (days_before_year 1900 10000)"

lemma minutes_end_less: "minutes_end < 1440 * 2 ^ 32"
  using days_before_year_le [of 1900 10000] by (simp add: minutes_end_def)

lemma add_minutes:
  assumes "calendar_time x" "0 \<le> minutes_of x + minutes" "minutes_of x + minutes < minutes_end"
  shows "\<exists>d h m. datetime_add_minutes x minutes =
      Some \<lparr>date = d, time = (time x)\<lparr>hour := h, minute := m\<rparr>\<rparr> \<and> calendar_date d \<and> with_weekday d = d \<and>
      h < 24 \<and> m < 60 \<and> 1440 * int (days_of d) + 60 * uint h + uint m = minutes_of x + minutes"
proof -
  let ?n = "minutes_of x + minutes" and ?t = "time x"
  let ?m = "60 * uint (hour ?t) + uint (minute ?t)"
  have t: "unat (sec ?t) < 60"
    using assms(1) by (simp add: calendar_time_def datetime_time_is_valid_def word_less_nat_alt)
  have m: "0 \<le> ?m" "?m < 1440"
    using assms(1) by (simp_all add: calendar_time_def datetime_time_is_valid_def word_less_def)
  have "unat (datetime_hms_to_seconds_since_midnight (hour ?t) (minute ?t) (sec ?t) div 60) =
      60 * unat (hour ?t) + unat (minute ?t)"
    using t by (simp add: unat_div hms_to)
  then have bm: "datetime_hms_to_seconds_since_midnight (hour ?t) (minute ?t) (sec ?t) div 60 = of_int ?m"
    using unat_bounds(1) [of "hour ?t"] unat_bounds(1) [of "minute ?t"]
    by (simp add: word_unat_eq_iff unat_word_ariths unat_widen)
  have bd: "datetime_days_since_epoch (date x) = of_int (int (days_of (date x)))"
    using assms(1) days_of_date [of "date x"] by (simp add: calendar_time_def flip: days_of_date)
  have split: "?n div 1440 \<ge> 0" "?n div 1440 < 2 ^ 32" "?n div 1440 < int (days_before_year 1900 10000)"
    using assms(2,3) minutes_end_less by (auto simp: minutes_end_def)
  define days :: u32 where "days = of_int (?n div 1440)"
  have days: "unat days = nat (?n div 1440)" using split by (simp add: days_def unat_small)
  then have "unat days < days_before_year 1900 10000" using split by linarith
  from calendar_date_exists [OF this, of "date x"]
  obtain d where d: "datetime_days_since_epoch_into_date days (date x) = Some d" "calendar_date d"
      "days_of d = unat days" "with_weekday d = d" by blast
  define h :: u8 where "h = of_int (?n mod 1440 div 60)"
  define mi :: u8 where "mi = of_int (?n mod 1440 mod 60)"
  have range: "0 \<le> ?n mod 1440" "?n mod 1440 < 1440" by simp_all
  then have h: "uint h = ?n mod 1440 div 60" and mi: "uint mi = ?n mod 1440 mod 60"
    unfolding h_def mi_def by (intro uint_small; simp)+
  have mi60: "uint mi < 60" unfolding mi by simp
  have "unat (of_int (?n mod 1440 * 60) :: u32) = nat (?n mod 1440 * 60)"
    using range by (intro unat_small) simp_all
  moreover have "?n mod 1440 * 60 = 3600 * uint h + 60 * uint mi"
    using div_mult_mod_eq [of "?n mod 1440" 60] unfolding h mi by linarith
  then have "nat (?n mod 1440 * 60) = 3600 * unat h + 60 * unat mi"
    by (simp add: nat_add_distrib nat_mult_distrib)
  ultimately have "unat (of_int (?n mod 1440) * 60 :: u32) = 3600 * unat h + 60 * unat mi + unat (0 :: u8)" by simp
  then have hms: "datetime_hms_from_seconds_since_midnight (of_int (?n mod 1440) * 60) = (h, mi, 0)"
    using mi60 by (intro hms_from) (simp only:, simp flip: nat_uint_eq, simp)
  have "shift_minutes (datetime_days_since_epoch (date x))
      (datetime_hms_to_seconds_since_midnight (hour ?t) (minute ?t) (sec ?t) div 60) minutes =
      (days, of_int (?n mod 1440))"
    unfolding bm bd shift [OF m] days_def minutes_of_def by (simp add: add.assoc)
  then have "datetime_add_minutes x minutes = Some \<lparr>date = d, time = ?t\<lparr>hour := h, minute := mi\<rparr>\<rparr>"
    by (simp add: datetime_add_minutes_def Let_def hms d)
  moreover have "1440 * int (days_of d) + 60 * uint h + uint mi = ?n"
    using split by (simp add: d(3) days h mi)
  moreover have "h < 24" "mi < 60" using h mi range by (simp_all add: word_less_def)
  ultimately show ?thesis using d by blast
qed

lemma days_of_bounds:
  assumes "calendar_date d"
  shows "days_before_year 1900 (unat (year d)) \<le> days_of d" "days_of d < days_before_year 1900 (Suc (unat (year d)))"
proof -
  have v: "1900 \<le> unat (year d)" "valid_date (unat (year d)) (unat (month d)) (unat (day d))"
    using assms by (simp_all add: calendar_date_def datetime_date_is_valid_def ymd_valid)
  show "days_before_year 1900 (unat (year d)) \<le> days_of d" by (simp add: days_of_def day_number_def)
  have "days_before_month (unat (year d)) 1 (unat (month d)) + unat (day d) \<le> year_len (unat (year d))"
    using of_year_remaining [OF v(2)] by linarith
  then show "days_of d < days_before_year 1900 (Suc (unat (year d)))"
    using v unfolding days_of_def day_number_def valid_date_def by (subst days_before_year_Suc) auto
qed

lemma days_before_year_mono: "y \<le> z \<Longrightarrow> days_before_year e y \<le> days_before_year e z"
  unfolding days_before_year_def by (rule sum_mono2) auto

lemma minutes_of_day:
  assumes "datetime_time_is_valid t"
  shows "0 \<le> 60 * uint (hour t) + uint (minute t)" "60 * uint (hour t) + uint (minute t) < 1440"
  using assms by (simp_all add: datetime_time_is_valid_def word_less_def)

lemma minutes_of_range:
  assumes "calendar_time x"
  shows "0 \<le> minutes_of x" "minutes_of x < minutes_end"
proof -
  have t: "datetime_time_is_valid (time x)" and d: "calendar_date (date x)"
    using assms by (simp_all add: calendar_time_def)
  show "0 \<le> minutes_of x" using minutes_of_day [OF t] by (simp add: minutes_of_def)
  have "days_of (date x) < days_before_year 1900 10000"
    using days_of_bounds(2) [OF d] days_before_year_mono [of "Suc (unat (year (date x)))" 10000 1900] d
    by (simp add: calendar_date_def word_le_nat_alt)
  then show "minutes_of x < minutes_end" using minutes_of_day [OF t] by (simp add: minutes_of_def minutes_end_def)
qed

text \<open>The count of minutes, the seconds and the hundredths determine a date with its day of the week.\<close>

lemma add_minutes_exact:
  assumes "calendar_time x" "calendar_time y" "with_weekday (date y) = date y"
    and "minutes_of y = minutes_of x + minutes" "sec (time y) = sec (time x)" "hundredths (time y) = hundredths (time x)"
  shows "datetime_add_minutes x minutes = Some y"
proof -
  obtain d h m where r: "datetime_add_minutes x minutes = Some \<lparr>date = d, time = (time x)\<lparr>hour := h, minute := m\<rparr>\<rparr>"
    and d: "calendar_date d" "with_weekday d = d" and h: "h < 24" "m < 60"
    and n: "1440 * int (days_of d) + 60 * uint h + uint m = minutes_of y"
    using add_minutes [OF assms(1), of minutes] minutes_of_range [OF assms(2)] assms(4) by force
  have t: "0 \<le> 60 * uint h + uint m" "60 * uint h + uint m < 1440" using h by (simp_all add: word_less_def)
  have y: "calendar_date (date y)" and v: "datetime_time_is_valid (time y)"
    using assms(2) by (simp_all add: calendar_time_def)
  have days: "days_of d = days_of (date y)"
    using n t minutes_of_day [OF v] unfolding minutes_of_def by linarith
  then have rest: "60 * uint h + uint m = 60 * uint (hour (time y)) + uint (minute (time y))"
    using n unfolding minutes_of_def by simp
  have "Some (with_weekday d) = Some (with_weekday (date y))"
    using date_of_days [OF d(1)] date_of_days [OF y] days days_of_date [OF y] by metis
  then have "d = date y" using d(2) assms(3) by simp
  moreover have "uint (minute (time y)) < 60" "uint m < 60"
    using v h by (simp_all add: datetime_time_is_valid_def word_less_def)
  then have "uint h = uint (hour (time y))"
    using rest unsigned_greater_eq [of m, where ?'a = int] unsigned_greater_eq [of "minute (time y)", where ?'a = int]
    by linarith
  then have "h = hour (time y)" "m = minute (time y)" using rest by (simp_all add: word_uint_eq_iff)
  ultimately show ?thesis using r assms(5,6) by simp
qed

lemma add_minutes_result:
  assumes "calendar_time x" "0 \<le> minutes_of x + minutes" "minutes_of x + minutes < minutes_end"
  obtains y where "datetime_add_minutes x minutes = Some y" "calendar_time y" "with_weekday (date y) = date y"
    "minutes_of y = minutes_of x + minutes" "sec (time y) = sec (time x)" "hundredths (time y) = hundredths (time x)"
  using add_minutes [OF assms] assms(1)
  by (force simp: calendar_time_def minutes_of_def datetime_time_is_valid_def)

lemma add_zero: "calendar_time x \<Longrightarrow> with_weekday (date x) = date x \<Longrightarrow> datetime_add_minutes x 0 = Some x"
  by (intro add_minutes_exact) simp_all

lemma copy_same: "datetime_copy b x = x"
  by (cases b, cases x) (simp add: datetime_copy_def datetime_copy_date_def datetime_copy_time_def)

lemma sint_negated:
  assumes "w \<noteq> (of_int (- (2 ^ (LENGTH('a) - 1))) :: 'a::len word)"
  shows "sint (w * -1) = - sint w"
proof -
  have "sint w \<noteq> - (2 ^ (LENGTH('a) - 1))" 
  proof
    assume "sint w = - (2 ^ (LENGTH('a) - 1))"
    then have "of_int (sint w) = (of_int (- (2 ^ (LENGTH('a) - 1))) :: 'a word)" by simp
    then show False using assms by simp
  qed
  then have "- (2 ^ (LENGTH('a) - 1)) \<le> - sint w" "- sint w < 2 ^ (LENGTH('a) - 1)"
    using sint_ge [of w] sint_lt [of w] by linarith+
  then have "sint (of_int (- sint w) :: 'a word) = - sint w"
    by (simp add: signed_of_int signed_take_bit_int_eq_self del: of_int_minus)
  then show ?thesis by simp
qed

text \<open>Counts that leave room for every offset on either side.\<close>

lemma minutes_inside:
  assumes "calendar_time x" "1901 \<le> year (date x)" "year (date x) \<le> 9998"
  shows "500000 \<le> minutes_of x" "minutes_of x + 500000 < minutes_end"
proof -
  have t: "datetime_time_is_valid (time x)" and d: "calendar_date (date x)"
    using assms(1) by (simp_all add: calendar_time_def)
  have y: "1901 \<le> unat (year (date x))" "Suc (unat (year (date x))) \<le> 9999"
    using assms(2,3) by (simp_all add: word_le_nat_alt)
  have step: "365 + days_before_year 1900 k \<le> days_before_year 1900 (Suc k)" if "1900 \<le> k" for k
    using that by (subst days_before_year_Suc) (simp_all add: year_len_def)
  have "365 \<le> days_of (date x)"
    using step [of 1900] days_of_bounds(1) [OF d] days_before_year_mono [OF y(1), of 1900] by simp
  then show "500000 \<le> minutes_of x" using minutes_of_day [OF t] unfolding minutes_of_def by linarith
  have "days_of (date x) + 365 < days_before_year 1900 10000"
    using step [of 9999] days_of_bounds(2) [OF d] days_before_year_mono [OF y(2), of 1900] by simp
  then show "minutes_of x + 500000 < minutes_end"
    using minutes_of_day [OF t] unfolding minutes_of_def minutes_end_def by linarith
qed

lemma offset_small: "\<bar>sint (w :: u16)\<bar> \<le> 32768" "\<bar>sint (v :: u8)\<bar> \<le> 128"
  using sint_ge [of w] sint_lt [of w] sint_ge [of v] sint_lt [of v] by simp_all

section \<open>Comparing\<close>

lemma compare_date_less:
  assumes "calendar_date a" "calendar_date b" "datetime_compare_date a b < 0"
  shows "days_of a < days_of b"
proof -
  have v: "valid_date (unat (year a)) (unat (month a)) (unat (day a))" "valid_date (unat (year b)) (unat (month b)) (unat (day b))"
    using assms by (simp_all add: calendar_date_def datetime_date_is_valid_def ymd_valid)
  consider "unat (year a) < unat (year b)"
    | "year a = year b" "unat (month a) < unat (month b)"
    | "year a = year b" "month a = month b" "unat (day a) < unat (day b)"
    using assms(3) by (auto simp: datetime_compare_date_def Let_def word_less_nat_alt [symmetric] word_less_def
        word_uint_eq_iff split: if_splits)
  then show ?thesis
  proof cases
    case 1
    then show ?thesis
      using days_of_bounds(2) [OF assms(1)] days_of_bounds(1) [OF assms(2)]
        days_before_year_mono [of "Suc (unat (year a))" "unat (year b)" 1900] by linarith
  next
    case 2
    have "days_before_month (unat (year b)) 1 (Suc (unat (month a))) \<le> days_before_month (unat (year b)) 1 (unat (month b))"
      unfolding days_before_month_def by (rule sum_mono2) (use 2 in auto)
    moreover have "days_before_month (unat (year b)) 1 (Suc (unat (month a))) =
        days_before_month (unat (year b)) 1 (unat (month a)) + month_len (unat (year b)) (unat (month a))"
      by (rule days_before_month_Suc) (use v in \<open>simp add: valid_date_def\<close>)
    ultimately show ?thesis using v 2(1) unfolding days_of_def day_number_def valid_date_def by auto
  next
    case 3
    then show ?thesis using v unfolding days_of_def day_number_def valid_date_def by auto
  qed
qed

lemma compare_date_swap: "datetime_compare_date b a = - datetime_compare_date a b"
  by (auto simp: datetime_compare_date_def Let_def)

lemma compare_date_order:
  assumes "calendar_date a" "calendar_date b"
  shows "sgn (datetime_compare_date a b) = sgn (int (days_of a) - int (days_of b))"
proof (cases "datetime_compare_date a b" "0 :: int" rule: linorder_cases)
  case less
  then show ?thesis using compare_date_less [OF assms less] by simp
next
  case greater
  then show ?thesis
    using compare_date_less [OF assms(2,1)] by (simp add: compare_date_swap [of b a])
next
  case equal
  then have "year a = year b" "month a = month b" "day a = day b"
    by (auto simp: datetime_compare_date_def Let_def word_uint_eq_iff split: if_splits)
  then show ?thesis using equal by (simp add: days_of_def)
qed

section \<open>Properties\<close>

text \<open>
  The seconds since the epoch of a date and time, up to the year 9999, are its days in the
  calendar and its seconds of the day, and converting them back gives the date with its day of the
  week and the time without its hundredths, also where the product taken in 32 bits wraps.
\<close>

lemma clock_roundtrip:
  assumes "datetime_is_valid (date x) (time x)" "year (date x) \<le> 9999"
  shows "unat (datetime_seconds_since_epoch x) = 86400 * days_of (date x) + seconds_of_day (time x) \<and>
    datetime_since_epoch_seconds b (datetime_seconds_since_epoch x) =
      Some \<lparr>date = with_weekday (date x), time = (time x)\<lparr>hundredths := 0\<rparr>\<rparr>"
proof -
  have "calendar_date (date x)" "datetime_time_is_valid (time x)"
    using assms by (simp_all add: datetime_is_valid_def calendar_date_def)
  then show ?thesis by (simp add: seconds_count since_epoch_seconds)
qed

text \<open>29 February 2044, behind the wrap of the product in 32 bits.\<close>

definition sample_time :: BACNET_DATE_TIME where
  "sample_time = \<lparr>date = with_weekday \<lparr>year = 2044, month = 2, day = 29, wday = 0\<rparr>,
     time = \<lparr>hour = 23, minute = 59, sec = 58, hundredths = 7\<rparr>\<rparr>"

lemma sample_valid:
  "datetime_is_valid (date sample_time) (time sample_time)" "1901 \<le> year (date sample_time)"
  "year (date sample_time) \<le> 9998"
  by (simp_all add: sample_time_def with_weekday_def datetime_is_valid_def datetime_date_is_valid_def datetime_ymd_is_valid_def
      datetime_time_is_valid_def BACNET_DATE_YEAR_EPOCH_def days_per_month_def days_is_leap_year_def)

lemma sample_weekday: "with_weekday (date sample_time) = date sample_time"
  by (simp add: sample_time_def with_weekday_def)

lemma clock_roundtrip_witness:
  "datetime_since_epoch_seconds sample_time (datetime_seconds_since_epoch sample_time) =
   Some \<lparr>date = date sample_time, time = (time sample_time)\<lparr>hundredths := 0\<rparr>\<rparr>"
  using clock_roundtrip [OF sample_valid(1), of sample_time] sample_valid(3) sample_weekday
  by (simp add: sample_time_def with_weekday_def)

text \<open>
  C24. Local time is UTC less the offset and less the daylight saving adjustment: converting a local
  time to UTC adds both to its count of minutes, and converting the result back gives the local time,
  for every offset and adjustment but the least value of their types, which have no negation.
\<close>

theorem local_time_roundtrip:
  assumes "datetime_is_valid (date x) (time x)" "with_weekday (date x) = date x"
    and "1901 \<le> year (date x)" "year (date x) \<le> 9998" "off \<noteq> 0x8000" "dst \<noteq> 0x80"
  shows "\<exists>u. datetime_local_to_utc b x off dst = Some u \<and> minutes_of u = minutes_of x + sint off + sint dst \<and>
    datetime_utc_to_local c u off dst = Some x"
proof -
  have x: "calendar_time x"
    using assms(1) order_trans [OF assms(4), of 9999]
    by (simp add: calendar_time_def datetime_is_valid_def calendar_date_def)
  note inside = minutes_inside [OF x assms(3,4)] offset_small(1) [of off] offset_small(2) [of dst]
  obtain y where y: "datetime_add_minutes x (sint off) = Some y" "calendar_time y" "with_weekday (date y) = date y"
      "minutes_of y = minutes_of x + sint off" "sec (time y) = sec (time x)" "hundredths (time y) = hundredths (time x)"
    by (rule add_minutes_result [OF x, of "sint off"]) (use inside in auto)
  obtain u where u: "datetime_add_minutes y (sint dst) = Some u" "calendar_time u" "with_weekday (date u) = date u"
      "minutes_of u = minutes_of y + sint dst" "sec (time u) = sec (time y)" "hundredths (time u) = hundredths (time y)"
    by (rule add_minutes_result [OF y(2), of "sint dst"]) (use inside y(4) in auto)
  obtain z where z: "datetime_add_minutes u (- sint off) = Some z" "calendar_time z" "with_weekday (date z) = date z"
      "minutes_of z = minutes_of u + - sint off" "sec (time z) = sec (time u)" "hundredths (time z) = hundredths (time u)"
    by (rule add_minutes_result [OF u(2), of "- sint off"]) (use inside y(4) u(4) in auto)
  have home: "datetime_add_minutes z (- sint dst) = Some x"
    using x z u y assms(2) by (intro add_minutes_exact) auto
  have negated: "sint (off * -1) = - sint off" "sint (dst * -1) = - sint dst"
    by (rule sint_negated, use assms(5,6) in \<open>simp add: word_unat_eq_iff\<close>)+
  have "datetime_local_to_utc b x off dst = Some u"
    using y(1) u(1) add_zero [OF y(2,3)] by (cases "dst = 0") (simp_all add: datetime_local_to_utc_def copy_same Let_def)
  moreover have "datetime_utc_to_local c u off dst = Some x"
    using z(1) home add_zero [OF z(2,3)] unfolding datetime_utc_to_local_def Let_def copy_same negated
    by (cases "dst = 0") simp_all
  ultimately show ?thesis using y(4) u(4) by simp
qed

theorem local_time_roundtrip_witness:
  "\<exists>u. datetime_local_to_utc sample_time sample_time 300 196 = Some u \<and>
     datetime_utc_to_local sample_time u 300 196 = Some sample_time"
  using local_time_roundtrip [OF sample_valid(1) sample_weekday sample_valid(2,3), of 300 196 sample_time sample_time]
  by auto

end
