(* ===== verification/Bac_Datetime_Codec.thy ===== *)
theory Bac_Datetime_Codec
  imports Bac_Datetime
begin

text \<open>
  The other half of \<^verbatim>\<open>src/bacnet/datetime.c\<close>: the encodings of BACnetDateTime and BACnetDateRange, one
  value after the other and between an opening and a closing tag. The interface of an encoded
  element is a locale; two elements in turn and an element between tags are elements again, from
  which the round trips of the four encodings and the safety of their decoders follow.
\<close>

section \<open>Functions\<close>

record BACNET_DATE_RANGE =
  startdate :: BACNET_DATE
  enddate :: BACNET_DATE

text \<open>
  The bodies the decoders share: two values in turn, and a value between an opening and a closing
  tag; \<open>ok\<close> is the test of what the decoder between the tags returned.
\<close>

definition in_turn ::
  "(bytes \<Rightarrow> (int \<times> 'a option) option) \<Rightarrow> (bytes \<Rightarrow> (int \<times> 'b option) option) \<Rightarrow> ('a \<Rightarrow> 'b \<Rightarrow> 'c) \<Rightarrow> bytes
   \<Rightarrow> (int \<times> 'c option) option" where
  "in_turn dec1 dec2 f apdu = do {
     (len, a) \<leftarrow> dec1 apdu;
     if len \<le> 0 then Some (BACNET_STATUS_ERROR, None)
     else do {
       (len2, b) \<leftarrow> dec2 (drop (nat len) apdu);
       if len2 \<le> 0 then Some (BACNET_STATUS_ERROR, None)
       else Some (len + len2, Option.bind a (\<lambda>a. map_option (f a) b)) } }"

definition between_tags ::
  "u8 \<Rightarrow> (int \<Rightarrow> bool) \<Rightarrow> (bytes \<Rightarrow> (int \<times> 'v option) option) \<Rightarrow> bytes \<Rightarrow> (int \<times> 'v option) option" where
  "between_tags number ok dec apdu = do {
     opening \<leftarrow> bacnet_is_opening_tag_number apdu number;
     case opening of
       None \<Rightarrow> Some (BACNET_STATUS_ERROR, None)
     | Some len \<Rightarrow> do {
         (n, v) \<leftarrow> dec (drop len apdu);
         if \<not> ok n then Some (BACNET_STATUS_ERROR, None)
         else do {
           closing \<leftarrow> bacnet_is_closing_tag_number (drop (len + nat n) apdu) number;
           case closing of
             None \<Rightarrow> Some (BACNET_STATUS_ERROR, None)
           | Some len2 \<Rightarrow> Some (int len + n + int len2, v) } } }"

definition bacapp_encode_datetime :: "BACNET_DATE_TIME \<Rightarrow> bytes" where
  "bacapp_encode_datetime value = encode_application_date (date value) @ encode_application_time (time value)"

definition bacapp_encode_context_datetime :: "u8 \<Rightarrow> BACNET_DATE_TIME \<Rightarrow> bytes" where
  "bacapp_encode_context_datetime number value =
     encode_opening_tag number @ bacapp_encode_datetime value @ encode_closing_tag number"

definition bacnet_datetime_decode :: "bytes \<Rightarrow> (int \<times> BACNET_DATE_TIME option) option" where
  "bacnet_datetime_decode =
     in_turn bacnet_date_application_decode bacnet_time_application_decode (\<lambda>d t. \<lparr>date = d, time = t\<rparr>)"

definition bacnet_datetime_context_decode :: "u8 \<Rightarrow> bytes \<Rightarrow> (int \<times> BACNET_DATE_TIME option) option" where
  "bacnet_datetime_context_decode number = between_tags number (\<lambda>n. \<not> n < 0) bacnet_datetime_decode"

definition bacnet_daterange_same :: "BACNET_DATE_RANGE \<Rightarrow> BACNET_DATE_RANGE \<Rightarrow> bool" where
  "bacnet_daterange_same value1 value2 =
     (datetime_compare_date (startdate value1) (startdate value2) = 0 \<and>
      datetime_compare_date (enddate value1) (enddate value2) = 0)"

definition bacnet_daterange_encode :: "BACNET_DATE_RANGE \<Rightarrow> bytes" where
  "bacnet_daterange_encode value =
     encode_application_date (startdate value) @ encode_application_date (enddate value)"

definition bacnet_daterange_decode :: "bytes \<Rightarrow> (int \<times> BACNET_DATE_RANGE option) option" where
  "bacnet_daterange_decode =
     in_turn bacnet_date_application_decode bacnet_date_application_decode (\<lambda>s e. \<lparr>startdate = s, enddate = e\<rparr>)"

definition bacnet_daterange_context_encode :: "u8 \<Rightarrow> BACNET_DATE_RANGE \<Rightarrow> bytes" where
  "bacnet_daterange_context_encode number value =
     encode_opening_tag number @ bacnet_daterange_encode value @ encode_closing_tag number"

definition bacnet_daterange_context_decode :: "u8 \<Rightarrow> bytes \<Rightarrow> (int \<times> BACNET_DATE_RANGE option) option" where
  "bacnet_daterange_context_decode number = between_tags number (\<lambda>n. \<not> n \<le> 0) bacnet_daterange_decode"

section \<open>The interface of an encoded element\<close>

lemma opening_bounded: "wp (bacnet_is_opening_tag_number apdu n) (\<lambda>r. \<forall>len. r = Some len \<longrightarrow> len \<le> length apdu)"
  unfolding bacnet_is_opening_tag_number_def wp_bind
  by (rule wp_mono [OF tag_decode_safe]) (auto split: option.splits)

lemma closing_bounded: "wp (bacnet_is_closing_tag_number apdu n) (\<lambda>r. \<forall>len. r = Some len \<longrightarrow> len \<le> length apdu)"
  unfolding bacnet_is_closing_tag_number_def wp_bind
  by (rule wp_mono [OF tag_decode_safe]) (auto split: option.splits)

locale element_codec =
  fixes enc :: "'v \<Rightarrow> bytes"
    and dec :: "bytes \<Rightarrow> (int \<times> 'v option) option"
    and wf :: "'v \<Rightarrow> bool"
  assumes dec_enc: "wf v \<Longrightarrow> dec (enc v @ rest) = Some (int (length (enc v)), Some v)"
    and enc_pos: "wf v \<Longrightarrow> enc v \<noteq> []"
    and dec_bounded: "wp (dec apdu) (\<lambda>(n, _). n \<le> int (length apdu))"
begin

lemma tags_bounded:
  assumes "\<And>n. ok n \<Longrightarrow> 0 \<le> n"
  shows "wp (between_tags number ok dec apdu) (\<lambda>(n, _). n \<le> int (length apdu))"
proof -
  obtain r where r: "bacnet_is_opening_tag_number apdu number = Some r" "\<forall>len. r = Some len \<longrightarrow> len \<le> length apdu"
    using opening_bounded [of apdu number] by (auto simp: wp_iff)
  show ?thesis
  proof (cases r)
    case (Some len)
    obtain n v where n: "dec (drop len apdu) = Some (n, v)" "n \<le> int (length (drop len apdu))"
      using dec_bounded [of "drop len apdu"] by (auto simp: wp_iff)
    obtain c where c: "bacnet_is_closing_tag_number (drop (len + nat n) apdu) number = Some c"
      "\<forall>k. c = Some k \<longrightarrow> k \<le> length (drop (len + nat n) apdu)"
      using closing_bounded [of "drop (len + nat n) apdu" number] by (auto simp: wp_iff)
    then show ?thesis
      using r n Some assms [of n] by (cases c) (auto simp: between_tags_def of_nat_diff)
  qed (use r in \<open>simp add: between_tags_def\<close>)
qed

lemma between:
  assumes "\<And>n. ok n \<Longrightarrow> 0 \<le> n" "\<And>n. 0 < n \<Longrightarrow> ok n"
  shows "element_codec (\<lambda>v. encode_opening_tag number @ enc v @ encode_closing_tag number)
    (between_tags number ok dec) wf"
proof
  fix v rest
  assume "wf v"
  then have "dec (enc v @ encode_closing_tag number @ rest) = Some (int (length (enc v)), Some v)"
    "0 < int (length (enc v))"
    using dec_enc enc_pos by auto
  then show "between_tags number ok dec ((encode_opening_tag number @ enc v @ encode_closing_tag number) @ rest) =
      Some (int (length (encode_opening_tag number @ enc v @ encode_closing_tag number)), Some v)"
    using assms(2) by (simp add: between_tags_def bacnet_is_opening_tag_number_def bacnet_is_closing_tag_number_def
        tag_decode_opening tag_decode_closing)
qed (simp_all add: tags_bounded [OF assms(1)] encode_opening_tag_def)

end

locale element_pair = first: element_codec enc1 dec1 wf1 + second: element_codec enc2 dec2 wf2
  for enc1 :: "'a \<Rightarrow> bytes" and dec1 wf1 and enc2 :: "'b \<Rightarrow> bytes" and dec2 wf2 +
  fixes f :: "'a \<Rightarrow> 'b \<Rightarrow> 'c" and g :: "'c \<Rightarrow> 'a" and h :: "'c \<Rightarrow> 'b"
  assumes parts: "f (g v) (h v) = v"
begin

lemma pair_bounded: "wp (in_turn dec1 dec2 f apdu) (\<lambda>(n, _). n \<le> int (length apdu))"
proof -
  obtain n a where n: "dec1 apdu = Some (n, a)" "n \<le> int (length apdu)"
    using first.dec_bounded [of apdu] by (auto simp: wp_iff)
  moreover obtain m b where "dec2 (drop (nat n) apdu) = Some (m, b)" "m \<le> int (length (drop (nat n) apdu))"
    using second.dec_bounded [of "drop (nat n) apdu"] by (auto simp: wp_iff)
  ultimately show ?thesis by (auto simp: in_turn_def)
qed

lemma pair_roundtrip:
  assumes "wf1 (g v)" "wf2 (h v)"
  shows "in_turn dec1 dec2 f ((enc1 (g v) @ enc2 (h v)) @ rest) =
    Some (int (length (enc1 (g v) @ enc2 (h v))), Some v)"
proof -
  have "dec1 (enc1 (g v) @ enc2 (h v) @ rest) = Some (int (length (enc1 (g v))), Some (g v))"
    "dec2 (enc2 (h v) @ rest) = Some (int (length (enc2 (h v))), Some (h v))"
    "0 < int (length (enc1 (g v)))" "0 < int (length (enc2 (h v)))"
    using assms first.dec_enc second.dec_enc first.enc_pos second.enc_pos by auto
  then show ?thesis by (simp add: in_turn_def parts)
qed

sublocale element_codec "\<lambda>v. enc1 (g v) @ enc2 (h v)" "in_turn dec1 dec2 f" "\<lambda>v. wf1 (g v) \<and> wf2 (h v)"
  by unfold_locales (use pair_roundtrip pair_bounded first.enc_pos in auto)

end

section \<open>Dates, times, and what is made of them\<close>

lemma date_time_lengths:
  "of_nat (length (encode_bacnet_date d)) = (4 :: u32)" "of_nat (length (encode_bacnet_time t)) = (4 :: u32)"
  by (simp_all add: encode_bacnet_date_def encode_bacnet_time_def)

interpretation date_element: element_codec encode_application_date bacnet_date_application_decode wf_date
proof
  show "bacnet_date_application_decode (encode_application_date v @ rest) =
      Some (int (length (encode_application_date v)), Some v)" if "wf_date v" for v rest
    using prim_date.tagged_roundtrip [OF that, of "application_tag BACNET_APPLICATION_TAG_DATE" BACNET_APPLICATION_TAG_DATE False]
    by (simp add: bacnet_date_application_decode_def encode_application_date_def application_tag_def date_time_lengths)
  show "wp (bacnet_date_application_decode apdu) (\<lambda>(n, _). n \<le> int (length apdu))" for apdu
    unfolding bacnet_date_application_decode_def by (rule prim_date.tagged_bounded)
qed (simp add: encode_application_date_def encode_bacnet_date_def)

interpretation time_element: element_codec encode_application_time bacnet_time_application_decode "\<lambda>_. True"
proof
  show "bacnet_time_application_decode (encode_application_time v @ rest) =
      Some (int (length (encode_application_time v)), Some v)" for v rest
    using prim_time.tagged_roundtrip [where v = v and matches = "application_tag BACNET_APPLICATION_TAG_TIME"
        and number = BACNET_APPLICATION_TAG_TIME and ctx = False]
    by (simp add: bacnet_time_application_decode_def encode_application_time_def application_tag_def date_time_lengths)
  show "wp (bacnet_time_application_decode apdu) (\<lambda>(n, _). n \<le> int (length apdu))" for apdu
    unfolding bacnet_time_application_decode_def by (rule prim_time.tagged_bounded)
qed (simp add: encode_application_time_def encode_bacnet_time_def)

interpretation datetime: element_pair encode_application_date bacnet_date_application_decode wf_date
  encode_application_time bacnet_time_application_decode "\<lambda>_. True" "\<lambda>d t. \<lparr>date = d, time = t\<rparr>" date time
  by unfold_locales simp

interpretation daterange: element_pair encode_application_date bacnet_date_application_decode wf_date
  encode_application_date bacnet_date_application_decode wf_date "\<lambda>s e. \<lparr>startdate = s, enddate = e\<rparr>" startdate enddate
  by unfold_locales simp

interpretation datetime_context: element_codec "bacapp_encode_context_datetime number"
  "bacnet_datetime_context_decode number" "\<lambda>v. wf_date (date v)" for number
  using datetime.between [of "\<lambda>n. \<not> n < 0" number]
  by (simp add: bacapp_encode_context_datetime_def [abs_def] bacapp_encode_datetime_def
      bacnet_datetime_context_decode_def bacnet_datetime_decode_def)

interpretation daterange_context: element_codec "bacnet_daterange_context_encode number"
  "bacnet_daterange_context_decode number" "\<lambda>v. wf_date (startdate v) \<and> wf_date (enddate v)" for number
  using daterange.between [of "\<lambda>n. \<not> n \<le> 0" number]
  by (simp add: bacnet_daterange_context_encode_def [abs_def] bacnet_daterange_encode_def
      bacnet_daterange_context_decode_def bacnet_daterange_decode_def)

section \<open>Properties\<close>

text \<open>
  A BACnetDateTime and a BACnetDateRange whose years lie in 1900 to 2155 come back from their
  encodings, plain and between context tags, whatever follows; and the decoders are defined on every
  octet string and consume no more than there is.
\<close>

lemma datetime_codecs:
  "(wf_date (date v) \<longrightarrow>
     bacnet_datetime_decode (bacapp_encode_datetime v @ rest) = Some (int (length (bacapp_encode_datetime v)), Some v) \<and>
     bacnet_datetime_context_decode n (bacapp_encode_context_datetime n v @ rest) =
       Some (int (length (bacapp_encode_context_datetime n v)), Some v)) \<and>
   (wf_date (startdate r) \<and> wf_date (enddate r) \<longrightarrow>
     bacnet_daterange_decode (bacnet_daterange_encode r @ rest) = Some (int (length (bacnet_daterange_encode r)), Some r) \<and>
     bacnet_daterange_context_decode n (bacnet_daterange_context_encode n r @ rest) =
       Some (int (length (bacnet_daterange_context_encode n r)), Some r)) \<and>
   wp (bacnet_datetime_context_decode n apdu) (\<lambda>(k, _). k \<le> int (length apdu)) \<and>
   wp (bacnet_daterange_context_decode n apdu) (\<lambda>(k, _). k \<le> int (length apdu))"
  using datetime.dec_enc [of v rest] daterange.dec_enc [of r rest]
  unfolding bacapp_encode_datetime_def bacnet_datetime_decode_def bacnet_daterange_encode_def bacnet_daterange_decode_def
  by (auto simp: datetime_context.dec_enc daterange_context.dec_enc datetime_context.dec_bounded
      daterange_context.dec_bounded)

lemma datetime_codecs_witness:
  "bacnet_datetime_context_decode 3 (bacapp_encode_context_datetime 3 sample_time @ [1, 2]) =
     Some (int (length (bacapp_encode_context_datetime 3 sample_time)), Some sample_time)"
  using datetime_codecs [of sample_time "[1, 2]" 3]
  by (simp add: sample_time_def with_weekday_def wf_date_def)

end
