(* ===== verification/Bac_Property.thy ===== *)
theory Bac_Property
  imports Bac_Datetime_Codec Bac_Enclosed Bac_App Bac_Discovery
begin

text \<open>
  The services ReadProperty and WriteProperty on the wire: \<^verbatim>\<open>src/bacnet/rp.c\<close> and the codec of
  \<^verbatim>\<open>src/bacnet/wp.c\<close>. Shown here: requests and acknowledgements come back from their encodings, the
  decoders are defined, and the decoder of WriteProperty reads behind a request that is cut off in
  its priority.
\<close>

section \<open>Data\<close>

abbreviation (input) OBJECT_NONE :: u32 where "OBJECT_NONE \<equiv> 65535"

definition BACNET_ARRAY_ALL :: u32 where "BACNET_ARRAY_ALL = 0xFFFFFFFF"
definition MAX_BACNET_PROPERTY_ID :: u32 where "MAX_BACNET_PROPERTY_ID = 16777215"
definition BACNET_NO_PRIORITY :: u8 where "BACNET_NO_PRIORITY = 0"
definition BACNET_MIN_PRIORITY :: u64 where "BACNET_MIN_PRIORITY = 1"
definition BACNET_MAX_PRIORITY :: u64 where "BACNET_MAX_PRIORITY = 16"

record BACNET_READ_PROPERTY_DATA =
  rp_object_type :: u32
  rp_object_instance :: u32
  rp_object_property :: u32
  rp_array_index :: u32
  rp_application_data :: bytes

record BACNET_WRITE_PROPERTY_DATA = BACNET_READ_PROPERTY_DATA +
  wp_priority :: u8

section \<open>Encoding\<close>

definition encode_array_index :: "u32 \<Rightarrow> bytes" where
  "encode_array_index i = (if i \<noteq> BACNET_ARRAY_ALL then encode_context_unsigned 2 (ucast i) else [])"

definition read_property_request_encode :: "BACNET_READ_PROPERTY_DATA \<Rightarrow> bytes" where
  "read_property_request_encode d =
     (if rp_object_type d \<le> BACNET_MAX_OBJECT
      then encode_context_object_id 0 (rp_object_type d) (rp_object_instance d) else []) @
     (if rp_object_property d \<le> MAX_BACNET_PROPERTY_ID
      then encode_context_enumerated 1 (rp_object_property d) else []) @
     encode_array_index (rp_array_index d)"

definition read_property_request_service_encode :: "nat \<Rightarrow> BACNET_READ_PROPERTY_DATA \<Rightarrow> bytes" where
  "read_property_request_service_encode apdu_size d = bounded apdu_size (read_property_request_encode d)"

definition rp_encode_apdu :: "u8 \<Rightarrow> BACNET_READ_PROPERTY_DATA \<Rightarrow> bytes" where
  "rp_encode_apdu iid d =
     [PDU_TYPE_CONFIRMED_SERVICE_REQUEST, encode_max_segs_max_apdu 0 (int MAX_APDU), iid, SERVICE_CONFIRMED_READ_PROPERTY]
     @ read_property_request_encode d"

definition read_property_ack_encode :: "('a BACNET_READ_PROPERTY_DATA_scheme) \<Rightarrow> bytes" where
  "read_property_ack_encode d =
     encode_context_object_id 0 (rp_object_type d) (rp_object_instance d) @
     encode_context_enumerated 1 (rp_object_property d) @ encode_array_index (rp_array_index d) @
     encode_opening_tag 3 @ rp_application_data d @ encode_closing_tag 3"

definition read_property_ack_service_encode :: "nat \<Rightarrow> BACNET_READ_PROPERTY_DATA \<Rightarrow> bytes" where
  "read_property_ack_service_encode apdu_size d = bounded apdu_size (read_property_ack_encode d)"

definition rp_ack_encode_apdu_init :: "u8 \<Rightarrow> BACNET_READ_PROPERTY_DATA \<Rightarrow> bytes" where
  "rp_ack_encode_apdu_init iid d =
     [PDU_TYPE_COMPLEX_ACK, iid, SERVICE_CONFIRMED_READ_PROPERTY] @
     encode_context_object_id 0 (rp_object_type d) (rp_object_instance d) @
     encode_context_enumerated 1 (rp_object_property d) @ encode_array_index (rp_array_index d) @
     encode_opening_tag 3"

definition rp_ack_encode_apdu_object_property_end :: bytes where
  "rp_ack_encode_apdu_object_property_end = encode_closing_tag 3"

definition rp_ack_encode_apdu :: "u8 \<Rightarrow> BACNET_READ_PROPERTY_DATA \<Rightarrow> bytes" where
  "rp_ack_encode_apdu iid d = rp_ack_encode_apdu_init iid d @ rp_application_data d @ encode_closing_tag 3"

definition writeproperty_apdu_encode :: "BACNET_WRITE_PROPERTY_DATA \<Rightarrow> bytes" where
  "writeproperty_apdu_encode d =
     encode_context_object_id 0 (rp_object_type d) (rp_object_instance d) @
     encode_context_enumerated 1 (rp_object_property d) @ encode_array_index (rp_array_index d) @
     encode_opening_tag 3 @ rp_application_data d @ encode_closing_tag 3 @
     (if wp_priority d \<noteq> BACNET_NO_PRIORITY then encode_context_unsigned 4 (ucast (wp_priority d)) else [])"

definition writeproperty_service_request_encode :: "nat \<Rightarrow> BACNET_WRITE_PROPERTY_DATA \<Rightarrow> bytes" where
  "writeproperty_service_request_encode apdu_size d = bounded apdu_size (writeproperty_apdu_encode d)"

definition wp_encode_apdu :: "u8 \<Rightarrow> BACNET_WRITE_PROPERTY_DATA \<Rightarrow> bytes" where
  "wp_encode_apdu iid d =
     [PDU_TYPE_CONFIRMED_SERVICE_REQUEST, encode_max_segs_max_apdu 0 (int MAX_APDU), iid, SERVICE_CONFIRMED_WRITE_PROPERTY]
     @ writeproperty_apdu_encode d"

section \<open>Decoding\<close>

text \<open>
  All three decoders begin with the object identifier, the property identifier and the optional
  array index, of which 32 bits are kept. What a value decoder does not store keeps its initial
  value. A failure is the error code ReadProperty reports, with the object identifier if it has been
  stored already; the other two decoders report \<^verbatim>\<open>BACNET_STATUS_ERROR\<close>.
\<close>

definition stored_or :: "'a \<Rightarrow> 'a option \<Rightarrow> 'a" where
  "stored_or d v = (case v of None \<Rightarrow> d | Some x \<Rightarrow> x)"

definition decode_reference :: "bytes \<Rightarrow> (int \<times> (u32 \<times> u32) option + int \<times> u32 \<times> u32 \<times> u32 \<times> u32) option" where
  "decode_reference apdu = do {
     (len, object) \<leftarrow> bacnet_object_id_context_decode 0 apdu;
     let (ty, inst) = stored_or (OBJECT_NONE, 0) object;
     if len > 0 then
       if inst > BACNET_MAX_INSTANCE then Some (Inl (ERROR_CODE_REJECT_PARAMETER_OUT_OF_RANGE, None))
       else do {
         let apdu_len = len;
         (len, property) \<leftarrow> bacnet_enumerated_context_decode 1 (drop (nat apdu_len) apdu);
         if len > 0 then do {
           let apdu_len = apdu_len + len;
           (len, v) \<leftarrow> bacnet_unsigned_context_decode 2 (drop (nat apdu_len) apdu);
           Some (Inr (if len > 0 then (apdu_len + len, ty, inst, stored_or 0 property, ucast (stored_or 0 v))
                      else (apdu_len, ty, inst, stored_or 0 property, BACNET_ARRAY_ALL))) }
         else Some (Inl (ERROR_CODE_REJECT_INVALID_TAG, Some (ty, inst))) }
     else Some (Inl (ERROR_CODE_REJECT_INVALID_TAG, None)) }"

definition store_object ::
  "(u32 \<times> u32) option \<Rightarrow> 'a BACNET_READ_PROPERTY_DATA_scheme \<Rightarrow> 'a BACNET_READ_PROPERTY_DATA_scheme" where
  "store_object object d =
     (case object of None \<Rightarrow> d | Some (ty, inst) \<Rightarrow> d\<lparr>rp_object_type := ty, rp_object_instance := inst\<rparr>)"

text \<open>The request is the first component; the second is the error code, stored on failure.\<close>

definition rp_decode_service_request ::
  "bytes \<Rightarrow> BACNET_READ_PROPERTY_DATA \<Rightarrow> int \<Rightarrow> (int \<times> BACNET_READ_PROPERTY_DATA \<times> int) option" where
  "rp_decode_service_request apdu d code = do {
     r \<leftarrow> decode_reference apdu;
     Some (case r of
       Inl (e, object) \<Rightarrow> (BACNET_STATUS_REJECT, store_object object d, e)
     | Inr (apdu_len, ty, inst, property, i) \<Rightarrow>
         let d = d\<lparr>rp_object_type := ty, rp_object_instance := inst, rp_object_property := property, rp_array_index := i\<rparr>
         in if apdu_len < int (length apdu) then (BACNET_STATUS_REJECT, d, ERROR_CODE_REJECT_TOO_MANY_ARGUMENTS)
            else (apdu_len, d, code)) }"

text \<open>
  The property value between its tags: the length of the APDU up to and with its closing tag, and the
  octets, stored before the closing tag is looked at. The value is found with \<^verbatim>\<open>bacnet_enclosed_data_length\<close>.
\<close>

definition decode_value :: "bytes \<Rightarrow> int \<Rightarrow> (int option \<times> bytes option) option" where
  "decode_value apdu apdu_len = do {
     opening \<leftarrow> bacnet_is_opening_tag_number (drop (nat apdu_len) apdu) 3;
     case opening of
       None \<Rightarrow> Some (None, None)
     | Some len \<Rightarrow> do {
         data_len \<leftarrow> bacnet_enclosed_data_length (Some (drop (nat apdu_len) apdu));
         if data_len = BACNET_STATUS_ERROR \<or> data_len > int MAX_APDU then Some (None, None)
         else do {
           let apdu_len = apdu_len + int len;
           value \<leftarrow> read_at apdu (nat apdu_len) (nat data_len);
           let apdu_len = apdu_len + data_len;
           closing \<leftarrow> bacnet_is_closing_tag_number (drop (nat apdu_len) apdu) 3;
           Some (map_option (\<lambda>len. apdu_len + int len) closing, Some value) } } }"

definition rp_ack_decode_service_request ::
  "bytes \<Rightarrow> BACNET_READ_PROPERTY_DATA \<Rightarrow> (int \<times> BACNET_READ_PROPERTY_DATA) option" where
  "rp_ack_decode_service_request apdu d = do {
     r \<leftarrow> decode_reference apdu;
     case r of
       Inl (_, object) \<Rightarrow> Some (BACNET_STATUS_ERROR, store_object object d)
     | Inr (apdu_len, ty, inst, property, i) \<Rightarrow> do {
         let d = d\<lparr>rp_object_type := ty, rp_object_instance := inst, rp_object_property := property, rp_array_index := i\<rparr>;
         (len, value) \<leftarrow> decode_value apdu apdu_len;
         Some (stored_or BACNET_STATUS_ERROR len,
               d\<lparr>rp_application_data := stored_or (rp_application_data d) value\<rparr>) } }"

text \<open>
  The decoder of the priority is given the size \<^verbatim>\<open>apdu_len - apdu_size\<close>, a huge number, and so it sees
  what lies in memory \<open>behind\<close> the request. It reads at most 15 octets; the model is
  exact for a \<open>behind\<close> of that length.
\<close>

definition wp_decode_service_request ::
  "bytes \<Rightarrow> bytes \<Rightarrow> BACNET_WRITE_PROPERTY_DATA \<Rightarrow> (int \<times> BACNET_WRITE_PROPERTY_DATA) option" where
  "wp_decode_service_request behind apdu d = do {
     r \<leftarrow> decode_reference apdu;
     case r of
       Inl (_, object) \<Rightarrow> Some (BACNET_STATUS_ERROR, store_object object d)
     | Inr (apdu_len, ty, inst, property, i) \<Rightarrow> do {
         let d = d\<lparr>rp_object_type := ty, rp_object_instance := inst, rp_object_property := property, rp_array_index := i\<rparr>;
         (len, value) \<leftarrow> decode_value apdu apdu_len;
         let d = d\<lparr>rp_application_data := stored_or (rp_application_data d) value\<rparr>;
         case len of
           None \<Rightarrow> Some (BACNET_STATUS_ERROR, d)
         | Some apdu_len \<Rightarrow> do {
             let d = d\<lparr>wp_priority := ucast BACNET_MAX_PRIORITY\<rparr>;
             if apdu_len < int (length apdu) then do {
               (len, u) \<leftarrow> bacnet_unsigned_context_decode 4 (drop (nat apdu_len) apdu @ behind);
               Some (if len > 0 \<and> stored_or 0 u \<ge> BACNET_MIN_PRIORITY \<and> stored_or 0 u \<le> BACNET_MAX_PRIORITY
                     then (apdu_len + len, d\<lparr>wp_priority := ucast (stored_or 0 u)\<rparr>)
                     else (BACNET_STATUS_ERROR, d)) }
             else Some (apdu_len, d) } } }"

section \<open>The property reference\<close>

definition reference :: "('a BACNET_READ_PROPERTY_DATA_scheme) \<Rightarrow> bytes" where
  "reference d = encode_context_object_id 0 (rp_object_type d) (rp_object_instance d) @
     encode_context_enumerated 1 (rp_object_property d) @ encode_array_index (rp_array_index d)"

definition wf_reference :: "('a BACNET_READ_PROPERTY_DATA_scheme) \<Rightarrow> bool" where
  "wf_reference d = (rp_object_type d \<le> BACNET_MAX_OBJECT \<and> rp_object_instance d \<le> BACNET_MAX_INSTANCE)"

lemma object_id_masked:
  "t \<le> BACNET_MAX_OBJECT \<Longrightarrow> t AND BACNET_MAX_OBJECT = t" "i \<le> BACNET_MAX_INSTANCE \<Longrightarrow> i AND BACNET_MAX_INSTANCE = i"
  using take_bit_small [of t 10] take_bit_small [of i 22]
  by (simp_all add: object_id_masks word_le_nat_alt flip: take_bit_eq_mask)
    (simp_all add: mask_eq_exp_minus_1)

lemma object_id_context_roundtrip:
  assumes "t \<le> BACNET_MAX_OBJECT" "i \<le> BACNET_MAX_INSTANCE"
  shows "bacnet_object_id_context_decode number (encode_context_object_id number t i @ rest) =
    Some (int (length (encode_context_object_id number t i)), Some (t, i))"
  using prim_object_id.tagged_roundtrip [where matches = "context_tag number" and number = number and ctx = True
      and v = "(t, i)" and rest = rest] assms
  by (simp add: bacnet_object_id_context_decode_def encode_context_object_id_def context_tag_def object_id_fields_def
      object_id_masked)

lemma enumerated_context_roundtrip:
  "bacnet_enumerated_context_decode number (encode_context_enumerated number v @ rest) =
     Some (int (length (encode_context_enumerated number v)), Some v)"
  using prim_enumerated.tagged_roundtrip [where matches = "context_tag number" and number = number and ctx = True
      and v = v and rest = rest]
  by (simp add: bacnet_enumerated_context_decode_def encode_context_enumerated_def context_tag_def encode_bacnet_enumerated_def)

lemma context_encodings_nonempty [simp]:
  "encode_context_object_id n t i \<noteq> []" "encode_context_enumerated n v \<noteq> []"
  by (simp_all add: encode_context_object_id_def encode_context_enumerated_def)

text \<open>What may follow the reference: nothing, or the opening tag of the value.\<close>

lemma no_index:
  "bacnet_unsigned_context_decode 2 [] = Some (0, None)"
  "bacnet_unsigned_context_decode 2 (encode_opening_tag 3 @ rest) = Some (0, None)"
  by (simp_all add: bacnet_unsigned_context_decode_def tagged_decode_def tag_decode_opening context_tag_def)

lemma reference_roundtrip:
  assumes "wf_reference d" "rest = [] \<or> rest = encode_opening_tag 3 @ tail"
  shows "decode_reference (reference d @ rest) = Some (Inr (int (length (reference d)),
    rp_object_type d, rp_object_instance d, rp_object_property d, rp_array_index d))"
proof -
  have i: "rp_object_instance d \<le> BACNET_MAX_INSTANCE" "rp_object_type d \<le> BACNET_MAX_OBJECT"
    using assms(1) by (simp_all add: wf_reference_def)
  have "bacnet_unsigned_context_decode 2 (encode_array_index (rp_array_index d) @ rest) =
      (if rp_array_index d \<noteq> BACNET_ARRAY_ALL
       then Some (int (length (encode_array_index (rp_array_index d))), Some (ucast (rp_array_index d)))
       else Some (0, None))"
    using assms(2) no_index by (auto simp: encode_array_index_def unsigned_context_roundtrip)
  then show ?thesis
    using i by (simp add: decode_reference_def reference_def object_id_context_roundtrip enumerated_context_roundtrip
        stored_or_def widened encode_array_index_def not_less Let_def flip: of_nat_add)
qed

lemma decode_reference_bounded:
  "wp (decode_reference apdu) (\<lambda>r. (\<forall>n x. r = Inr (n, x) \<longrightarrow> 0 < n \<and> n \<le> int (length apdu)) \<and>
     (\<forall>e object. r = Inl (e, object) \<longrightarrow> e \<in> {ERROR_CODE_REJECT_PARAMETER_OUT_OF_RANGE, ERROR_CODE_REJECT_INVALID_TAG}))"
proof -
  have o: "wp (bacnet_object_id_context_decode 0 b) (\<lambda>(n, _). n \<le> int (length b))"
    and e: "wp (bacnet_enumerated_context_decode 1 b) (\<lambda>(n, _). n \<le> int (length b))"
    and u: "wp (bacnet_unsigned_context_decode 2 b) (\<lambda>(n, _). n \<le> int (length b))" for b
    unfolding bacnet_object_id_context_decode_def bacnet_enumerated_context_decode_def bacnet_unsigned_context_decode_def
    by (rule prim_object_id.tagged_bounded prim_enumerated.tagged_bounded prim_unsigned.tagged_bounded)+
  obtain n1 v1 where 1: "bacnet_object_id_context_decode 0 apdu = Some (n1, v1)" "n1 \<le> int (length apdu)"
    using o [of apdu] by (auto simp: wp_iff)
  obtain n2 v2 where 2: "bacnet_enumerated_context_decode 1 (drop (nat n1) apdu) = Some (n2, v2)"
      "n2 \<le> int (length (drop (nat n1) apdu))"
    using e [of "drop (nat n1) apdu"] by (auto simp: wp_iff)
  obtain n3 v3 where 3: "bacnet_unsigned_context_decode 2 (drop (nat (n1 + n2)) apdu) = Some (n3, v3)"
      "n3 \<le> int (length (drop (nat (n1 + n2)) apdu))"
    using u [of "drop (nat (n1 + n2)) apdu"] by (auto simp: wp_iff)
  show ?thesis
    using 1 2 3 by (auto simp: decode_reference_def Let_def split: prod.splits)
qed

section \<open>The property value\<close>

text \<open>A value is a list of elements that the stack can measure.\<close>

definition wf_value_list :: "element list \<Rightarrow> bool" where
  "wf_value_list es \<longleftrightarrow> wf_element (Constructed 3 es) \<and> nesting 3 (Constructed 3 es) \<le> 255 \<and>
     int (length (encode_element (Constructed 3 es))) \<le> INT_MAX"

abbreviation values_of :: "element list \<Rightarrow> bytes" where
  "values_of es \<equiv> concat (map encode_element es)"

lemma value_roundtrip:
  assumes "wf_value_list es"
  shows "decode_value (pre @ encode_opening_tag 3 @ values_of es @ encode_closing_tag 3 @ rest) (int (length pre)) =
    (if length (values_of es) \<le> MAX_APDU
     then Some (Some (int (length (pre @ encode_opening_tag 3 @ values_of es @ encode_closing_tag 3))), Some (values_of es))
     else Some (None, None))"
proof -
  have m: "bacnet_enclosed_data_length (Some (encode_opening_tag 3 @ values_of es @ encode_closing_tag 3 @ rest)) =
      Some (int (length (values_of es)))"
    using enclosed_measured [of 3 es rest] assms by (simp add: wf_value_list_def)
  show ?thesis
    by (simp add: decode_value_def m bacnet_is_opening_tag_number_def bacnet_is_closing_tag_number_def
        tag_decode_opening tag_decode_closing Let_def nat_add_distrib flip: of_nat_add)
qed

lemma encodings_by_parts:
  "rp_object_type d \<le> BACNET_MAX_OBJECT \<Longrightarrow> rp_object_property d \<le> MAX_BACNET_PROPERTY_ID \<Longrightarrow>
     read_property_request_encode d = reference d"
  "read_property_ack_encode r = reference r @ encode_opening_tag 3 @ rp_application_data r @ encode_closing_tag 3"
  "writeproperty_apdu_encode w = reference w @ encode_opening_tag 3 @ rp_application_data w @ encode_closing_tag 3 @
     (if wp_priority w = 0 then [] else encode_context_unsigned 4 (ucast (wp_priority w)))"
  by (simp_all add: read_property_request_encode_def read_property_ack_encode_def writeproperty_apdu_encode_def
      reference_def BACNET_NO_PRIORITY_def)

lemma read_data_equality:
  "d0\<lparr>rp_object_type := rp_object_type d, rp_object_instance := rp_object_instance d,
     rp_object_property := rp_object_property d, rp_array_index := rp_array_index d\<rparr> =
   (d :: BACNET_READ_PROPERTY_DATA)\<lparr>rp_application_data := rp_application_data d0\<rparr>"
  by (cases d, cases d0) simp

lemma write_data_equality:
  "d0\<lparr>rp_object_type := rp_object_type d, rp_object_instance := rp_object_instance d,
     rp_object_property := rp_object_property d, rp_array_index := rp_array_index d,
     rp_application_data := rp_application_data d, wp_priority := p\<rparr> =
   (d :: BACNET_WRITE_PROPERTY_DATA)\<lparr>wp_priority := p\<rparr>"
  by (cases d, cases d0) simp

lemma rp_decode_defined:
  "wp (rp_decode_service_request apdu d0 code)
     (\<lambda>(n, _, e). n \<le> int (length apdu) \<and> (n \<le> 0 \<longrightarrow> n = BACNET_STATUS_REJECT \<and>
        e \<in> {ERROR_CODE_REJECT_PARAMETER_OUT_OF_RANGE, ERROR_CODE_REJECT_INVALID_TAG, ERROR_CODE_REJECT_TOO_MANY_ARGUMENTS}))"
proof -
  obtain r where r: "decode_reference apdu = Some r" "\<forall>n x. r = Inr (n, x) \<longrightarrow> 0 < n \<and> n \<le> int (length apdu)"
      "\<forall>e object. r = Inl (e, object) \<longrightarrow> e \<in> {ERROR_CODE_REJECT_PARAMETER_OUT_OF_RANGE, ERROR_CODE_REJECT_INVALID_TAG}"
    using decode_reference_bounded [of apdu] by (auto simp: wp_iff)
  then show ?thesis
    using r by (auto simp: rp_decode_service_request_def Let_def split: sum.splits)
qed

lemma rp_ack_decoded:
  assumes "wf_reference d" "wf_value_list es" "rp_application_data d = values_of es"
  shows "rp_ack_decode_service_request (read_property_ack_encode d @ rest) d0 =
    Some (if length (values_of es) \<le> MAX_APDU then (int (length (read_property_ack_encode d)), d)
          else (BACNET_STATUS_ERROR, d\<lparr>rp_application_data := rp_application_data d0\<rparr>))"
  using assms reference_roundtrip [OF assms(1), of "encode_opening_tag 3 @ values_of es @ encode_closing_tag 3 @ rest"
      "values_of es @ encode_closing_tag 3 @ rest"] value_roundtrip [OF assms(2), of "reference d" rest]
  by (simp add: rp_ack_decode_service_request_def encodings_by_parts read_data_equality stored_or_def Let_def)

lemma wp_decoded:
  assumes "wf_reference d" "wf_value_list es" "rp_application_data d = values_of es" "length (values_of es) \<le> MAX_APDU"
  defines "head \<equiv> reference d @ encode_opening_tag 3 @ values_of es @ encode_closing_tag 3"
  shows "wp_decode_service_request behind (head @ tail) d0 =
    (if tail = [] then Some (int (length head), d\<lparr>wp_priority := 16\<rparr>)
     else do {
       (len, u) \<leftarrow> bacnet_unsigned_context_decode 4 (tail @ behind);
       Some (if len > 0 \<and> stored_or 0 u \<ge> 1 \<and> stored_or 0 u \<le> 16
             then (int (length head) + len, d\<lparr>wp_priority := ucast (stored_or 0 u)\<rparr>)
             else (BACNET_STATUS_ERROR, d\<lparr>wp_priority := 16\<rparr>)) })"
proof -
  have "decode_reference (head @ tail) = Some (Inr (int (length (reference d)),
      rp_object_type d, rp_object_instance d, rp_object_property d, rp_array_index d))"
    using reference_roundtrip [OF assms(1), of "encode_opening_tag 3 @ values_of es @ encode_closing_tag 3 @ tail"
        "values_of es @ encode_closing_tag 3 @ tail"] by (simp add: head_def)
  moreover have "decode_value (head @ tail) (int (length (reference d))) = Some (Some (int (length head)), Some (values_of es))"
    using value_roundtrip [OF assms(2), of "reference d" tail] assms(4) by (simp add: head_def)
  ultimately show ?thesis
    using assms(3) write_data_equality [where d = d and ?d0.0 = d0, unfolded assms(3)]
    by (cases "bacnet_unsigned_context_decode 4 (tail @ behind)")
      (auto simp: wp_decode_service_request_def stored_or_def BACNET_MAX_PRIORITY_def BACNET_MIN_PRIORITY_def Let_def)
qed

section \<open>Properties\<close>

text \<open>
  C30. A ReadProperty request, and an acknowledgement with a value of at most 1476 octets, come back
  from their encodings. An acknowledgement with a longer value, as a segmented response has it, is
  refused. The decoder of requests is defined on every octet string and reports the code of a Reject
  when it fails.
\<close>

theorem read_property_roundtrip:
  "(wf_reference d \<and> rp_object_property d \<le> MAX_BACNET_PROPERTY_ID \<longrightarrow>
     rp_decode_service_request (read_property_request_encode d) d0 code =
       Some (int (length (read_property_request_encode d)),
         d\<lparr>rp_application_data := rp_application_data d0\<rparr>, code)) \<and>
   (wf_reference d \<and> wf_value_list es \<and> rp_application_data d = values_of es \<longrightarrow>
     (length (values_of es) \<le> MAX_APDU \<longrightarrow>
        rp_ack_decode_service_request (read_property_ack_encode d @ rest) d0 =
          Some (int (length (read_property_ack_encode d)), d)) \<and>
     (MAX_APDU < length (values_of es) \<longrightarrow>
        wp (rp_ack_decode_service_request (read_property_ack_encode d @ rest) d0) (\<lambda>(n, _). n = BACNET_STATUS_ERROR))) \<and>
   wp (rp_decode_service_request apdu d0 code)
     (\<lambda>(n, _, e). n \<le> int (length apdu) \<and> (n \<le> 0 \<longrightarrow> n = BACNET_STATUS_REJECT \<and>
        e \<in> {ERROR_CODE_REJECT_PARAMETER_OUT_OF_RANGE, ERROR_CODE_REJECT_INVALID_TAG, ERROR_CODE_REJECT_TOO_MANY_ARGUMENTS}))"
  using reference_roundtrip [of d "[]"] rp_ack_decoded [of d es rest d0] rp_decode_defined [of apdu d0 code]
  by (auto simp: rp_decode_service_request_def encodings_by_parts read_data_equality wf_reference_def Let_def
      wf_reference_def)

definition sample_reference :: BACNET_READ_PROPERTY_DATA where
  "sample_reference = \<lparr>rp_object_type = 8, rp_object_instance = 77, rp_object_property = 76,
     rp_array_index = 3, rp_application_data = [0x21, 5]\<rparr>"

lemma sample_value: "wf_value_list [Primitive 2 1 [5]]" "values_of [Primitive 2 1 [5]] = [0x21, 5]"
  by (simp_all add: wf_value_list_def INT_MAX_def bacnet_application_data_length_def encode_tag_def number_octets_def number_bits_def
      encode_opening_tag_def encode_closing_tag_def)

theorem read_property_roundtrip_witness:
  "rp_decode_service_request (read_property_request_encode sample_reference) sample_reference 0 =
     Some (int (length (read_property_request_encode sample_reference)), sample_reference, 0) \<and>
   rp_ack_decode_service_request (read_property_ack_encode sample_reference @ [1]) sample_reference =
     Some (int (length (read_property_ack_encode sample_reference)), sample_reference)"
  using read_property_roundtrip [of sample_reference sample_reference 0 "[Primitive 2 1 [5]]" "[1]" "[]"] sample_value
  by (simp add: sample_reference_def wf_reference_def BACNET_MAX_OBJECT_def BACNET_MAX_INSTANCE_def
      MAX_BACNET_PROPERTY_ID_def MAX_APDU_def)

text \<open>A request, with or without a priority, comes back.\<close>

lemma write_decoded:
  assumes "wf_reference d" "wf_value_list es" "rp_application_data d = values_of es" "length (values_of es) \<le> MAX_APDU"
    and "wp_priority d \<le> 16"
  shows "wp_decode_service_request behind (writeproperty_apdu_encode d) d0 =
    Some (int (length (writeproperty_apdu_encode d)),
      if wp_priority d = 0 then d\<lparr>wp_priority := 16\<rparr> else d)"
proof (cases "wp_priority d = 0")
  case True
  then show ?thesis
    using wp_decoded [OF assms(1-4), of behind "[]" d0] assms(3) by (simp add: encodings_by_parts)
next
  case False
  have u: "unat (ucast (wp_priority d) :: u64) = unat (wp_priority d)" "ucast (ucast (wp_priority d) :: u64) = wp_priority d"
    by (simp_all add: unat_widen) (auto intro!: bit_word_eqI simp: bit_simps)
  then have p: "1 \<le> (ucast (wp_priority d) :: u64)" "(ucast (wp_priority d) :: u64) \<le> 16"
    using False assms(5) by (simp_all add: word_le_nat_alt word_unat_eq_iff)
  have "d\<lparr>wp_priority := wp_priority d\<rparr> = d" by simp
  then show ?thesis
    using wp_decoded [OF assms(1-4), of behind "encode_context_unsigned 4 (ucast (wp_priority d))" d0] assms(3) False p u
    by (simp add: encodings_by_parts unsigned_context_roundtrip stored_or_def)
qed

text \<open>
  C31. A WriteProperty request comes back from its encoding, whatever lies behind it in memory; without a
  priority it is written with priority 16.
\<close>

theorem write_property_roundtrip:
  assumes "wf_reference d" "wf_value_list es" "rp_application_data d = values_of es" "length (values_of es) \<le> MAX_APDU"
    and "wp_priority d \<le> 16"
  shows "wp_decode_service_request behind (writeproperty_apdu_encode d) d0 =
    Some (int (length (writeproperty_apdu_encode d)),
      if wp_priority d = 0 then d\<lparr>wp_priority := 16\<rparr> else d)"
  using assms by (rule write_decoded)

definition sample_write :: BACNET_WRITE_PROPERTY_DATA where
  "sample_write = \<lparr>rp_object_type = 2, rp_object_instance = 1, rp_object_property = 85,
     rp_array_index = BACNET_ARRAY_ALL, rp_application_data = [0x21, 5], wp_priority = 0\<rparr>"

lemma sample_write_wf:
  "wf_reference sample_write" "rp_application_data sample_write = values_of [Primitive 2 1 [5]]"
  "length (values_of [Primitive 2 1 [5]]) \<le> MAX_APDU" "wp_priority sample_write = 0"
  using sample_value
  by (simp_all add: sample_write_def wf_reference_def BACNET_MAX_OBJECT_def BACNET_MAX_INSTANCE_def MAX_APDU_def)

theorem write_property_roundtrip_witness:
  "wp_decode_service_request [] (writeproperty_apdu_encode (sample_write\<lparr>wp_priority := 8\<rparr>)) sample_write =
     Some (int (length (writeproperty_apdu_encode (sample_write\<lparr>wp_priority := 8\<rparr>))), sample_write\<lparr>wp_priority := 8\<rparr>)"
  using write_property_roundtrip [of "sample_write\<lparr>wp_priority := 8\<rparr>" "[Primitive 2 1 [5]]" "[]" sample_write]
    sample_write_wf sample_value by (simp add: wf_reference_def)

text \<open>
  A WriteProperty request that ends with the tag of the priority, without its octet, is not refused:
  the octet behind the request becomes the priority, and the length returned exceeds that of the
  request.
\<close>

lemma wp_decode_reads_behind:
  assumes "wf_reference d" "wf_value_list es" "rp_application_data d = values_of es" "length (values_of es) \<le> MAX_APDU"
    and "wp_priority d = 0" "1 \<le> p" "p \<le> 16"
  shows "wp_decode_service_request (p # behind) (writeproperty_apdu_encode d @ [0x49]) d0 =
    Some (int (length (writeproperty_apdu_encode d @ [0x49])) + 1, d\<lparr>wp_priority := p\<rparr>)"
proof -
  have tag: "encode_tag 4 True 1 = [0x49]" by (simp add: encode_tag_def number_octets_def number_bits_def)
  have "bacnet_unsigned_context_decode 4 (encode_tag 4 True 1 @ p # behind) = Some (2, Some (ucast p))"
    by (simp add: bacnet_unsigned_context_decode_def tagged_decode_def tag_decode_encode context_tag_def
        bacnet_unsigned_decode_def) (simp add: tag)
  moreover have "(ucast p :: u64) \<ge> 1" "(ucast p :: u64) \<le> 16" "ucast (ucast p :: u64) = p"
    using assms(6,7) by (simp_all add: word_le_nat_alt unat_widen) (auto intro!: bit_word_eqI simp: bit_simps)
  ultimately show ?thesis
    using wp_decoded [OF assms(1-4), of "p # behind" "[0x49]" d0] assms(3,5)
    by (simp add: encodings_by_parts stored_or_def tag)
qed

lemma wp_decode_reads_behind_witness:
  "wp_decode_service_request (7 # replicate 14 0) (writeproperty_apdu_encode sample_write @ [0x49]) sample_write =
     Some (int (length (writeproperty_apdu_encode sample_write @ [0x49])) + 1, sample_write\<lparr>wp_priority := 7\<rparr>)"
  using wp_decode_reads_behind [OF sample_write_wf(1) sample_value(1) sample_write_wf(2-4), of 7 "replicate 14 0" sample_write]
  by simp

end
