(* ===== verification/Bac_Proplist.thy ===== *)
theory Bac_Proplist
  imports Bac_Property
begin

text \<open>
  \<^verbatim>\<open>src/bacnet/proplist.c\<close>: lists of property identifiers that end with -1, and the property
  Property_List of an object read as an array. Shown here: the list is read as the array of the
  properties of an object, element by element and as a whole, and where it does not fit the function
  writes outside its buffer.
\<close>

section \<open>Lists of properties\<close>

abbreviation (input) PROP_OBJECT_IDENTIFIER :: int where "PROP_OBJECT_IDENTIFIER \<equiv> 75"
abbreviation (input) PROP_OBJECT_NAME :: int where "PROP_OBJECT_NAME \<equiv> 77"
abbreviation (input) PROP_OBJECT_TYPE :: int where "PROP_OBJECT_TYPE \<equiv> 79"
abbreviation (input) PROP_PROPERTY_LIST :: int where "PROP_PROPERTY_LIST \<equiv> 371"
abbreviation (input) PROP_PRESENT_VALUE :: u32 where "PROP_PRESENT_VALUE \<equiv> 85"
abbreviation (input) PROP_LIST_OF_OBJECT_PROPERTY_REFERENCES :: u32 where
  "PROP_LIST_OF_OBJECT_PROPERTY_REFERENCES \<equiv> 54"
abbreviation (input) ERROR_CLASS_PROPERTY :: u32 where "ERROR_CLASS_PROPERTY \<equiv> 2"
abbreviation (input) ERROR_CODE_UNKNOWN_PROPERTY :: int where "ERROR_CODE_UNKNOWN_PROPERTY \<equiv> 32"
abbreviation (input) ERROR_CODE_INVALID_ARRAY_INDEX :: int where "ERROR_CODE_INVALID_ARRAY_INDEX \<equiv> 42"
abbreviation (input) ERROR_CODE_PROPERTY_IS_NOT_AN_ARRAY :: int where "ERROR_CODE_PROPERTY_IS_NOT_AN_ARRAY \<equiv> 50"

text \<open>A list is an array of integers or NULL; reading past its end, when it has no -1, is undefined.\<close>

fun count_loop :: "int list \<Rightarrow> u32 \<Rightarrow> u32 option" where
  "count_loop [] n = None"
| "count_loop (x # xs) n = (if x \<noteq> -1 then count_loop xs (n + 1) else Some n)"

definition property_list_count :: "int list option \<Rightarrow> u32 option" where
  "property_list_count l = (case l of None \<Rightarrow> Some 0 | Some xs \<Rightarrow> count_loop xs 0)"

fun member_loop :: "int list \<Rightarrow> int \<Rightarrow> bool option" where
  "member_loop [] p = None"
| "member_loop (x # xs) p = (if x \<noteq> -1 then if p = x then Some True else member_loop xs p else Some False)"

definition property_list_member :: "int list option \<Rightarrow> int \<Rightarrow> bool option" where
  "property_list_member l p = (case l of None \<Rightarrow> Some False | Some xs \<Rightarrow> member_loop xs p)"

definition property_lists_member :: "int list option \<Rightarrow> int list option \<Rightarrow> int list option \<Rightarrow> int \<Rightarrow> bool option" where
  "property_lists_member required optional proprietary p = do {
     found \<leftarrow> property_list_member required p;
     found \<leftarrow> (if \<not> found then property_list_member optional p else Some found);
     if \<not> found then property_list_member proprietary p else Some found }"

section \<open>Property\_List as an array\<close>

text \<open>The buffer is given whole; the offset is a C \<^verbatim>\<open>int\<close> and may be negative.\<close>

definition put :: "bytes \<Rightarrow> int \<Rightarrow> bytes \<Rightarrow> bytes option" where
  "put apdu i bs = (if i < 0 then None else write_at apdu (nat i) bs)"

definition always_required :: "int \<Rightarrow> bool" where
  "always_required p \<longleftrightarrow> p = PROP_OBJECT_TYPE \<or> p = PROP_OBJECT_IDENTIFIER \<or> p = PROP_OBJECT_NAME \<or> p = PROP_PROPERTY_LIST"

text \<open>The loops over one of the lists: \<open>skip\<close> are the properties passed over, \<open>n\<close> the count of the list.\<close>

fun encode_list :: "(int \<Rightarrow> bool) \<Rightarrow> nat \<Rightarrow> int list \<Rightarrow> bytes \<Rightarrow> int \<Rightarrow> int \<Rightarrow> (bytes \<times> int \<times> int) option" where
  "encode_list skip 0 xs apdu apdu_len code = Some (apdu, apdu_len, code)"
| "encode_list skip (Suc n) [] apdu apdu_len code = None"
| "encode_list skip (Suc n) (x # xs) apdu apdu_len code =
     (if skip x then encode_list skip n xs apdu apdu_len code
      else do {
        let e = encode_application_enumerated (of_int x);
        apdu \<leftarrow> put apdu apdu_len e;
        if apdu_len + int (length e) < int (length apdu)
        then encode_list skip n xs apdu (apdu_len + int (length e)) code
        else Some (apdu, BACNET_STATUS_ABORT, ERROR_CODE_ABORT_SEGMENTATION_NOT_SUPPORTED) })"

fun find_in_list :: "(int \<Rightarrow> bool) \<Rightarrow> nat \<Rightarrow> int list \<Rightarrow> u32 \<Rightarrow> u32 \<Rightarrow> (u32 \<times> int option) option" where
  "find_in_list skip 0 xs i count = Some (count, None)"
| "find_in_list skip (Suc n) [] i count = None"
| "find_in_list skip (Suc n) (x # xs) i count =
     (if skip x then find_in_list skip n xs i count
      else if count + 1 = i then Some (count + 1, Some x)
      else find_in_list skip n xs i (count + 1))"

definition element_of :: "int list option \<Rightarrow> int list" where
  "element_of l = (case l of None \<Rightarrow> [] | Some xs \<Rightarrow> xs)"

text \<open>
  What \<^verbatim>\<open>property_list_encode\<close> returns, what it leaves in the buffer, and the error class and code.
\<close>

definition property_list_encode ::
  "u32 \<Rightarrow> u32 \<Rightarrow> bytes \<Rightarrow> u32 \<times> int \<Rightarrow> int list option \<Rightarrow> int list option \<Rightarrow> int list option
   \<Rightarrow> (int \<times> bytes \<times> u32 \<times> int) option" where
  "property_list_encode property i apdu err required optional proprietary = do {
     required_count \<leftarrow> property_list_count required;
     optional_count \<leftarrow> property_list_count optional;
     proprietary_count \<leftarrow> property_list_count proprietary;
     let count = required_count + optional_count + proprietary_count;
     count \<leftarrow> (if required_count \<ge> 3 then do {
         member \<leftarrow> property_list_member required PROP_PROPERTY_LIST;
         Some (if member then count - 3 - 1 else count - 3) }
       else Some count);
     if length apdu = 0 then Some (0, apdu, err)
     else if property = of_int PROP_PROPERTY_LIST then
       if i = 0 then do {
         let e = encode_application_unsigned (ucast count);
         apdu \<leftarrow> put apdu 0 e;
         Some (int (length e), apdu, err) }
       else if i = BACNET_ARRAY_ALL then do {
         (apdu, apdu_len, code) \<leftarrow>
           (if required_count > 3
            then encode_list always_required (unat required_count) (element_of required) apdu 0 (snd err)
            else Some (apdu, 0, snd err));
         (apdu, apdu_len, code) \<leftarrow>
           encode_list (\<lambda>_. False) (unat optional_count) (element_of optional) apdu apdu_len code;
         (apdu, apdu_len, code) \<leftarrow>
           encode_list (\<lambda>_. False) (unat proprietary_count) (element_of proprietary) apdu apdu_len code;
         Some (apdu_len, apdu, fst err, code) }
       else if i \<le> count then do {
         (n, found) \<leftarrow>
           (if required_count > 3
            then find_in_list always_required (unat required_count) (element_of required) i 0
            else Some (0, None));
         (n, found) \<leftarrow>
           (if found = None then find_in_list (\<lambda>_. False) (unat optional_count) (element_of optional) i n
            else Some (n, found));
         (n, found) \<leftarrow>
           (if found = None then find_in_list (\<lambda>_. False) (unat proprietary_count) (element_of proprietary) i n
            else Some (n, found));
         case found of
           None \<Rightarrow> Some (0, apdu, err)
         | Some p \<Rightarrow> do {
             let e = encode_application_enumerated (of_int p);
             apdu \<leftarrow> put apdu 0 e;
             Some (int (length e), apdu, err) } }
       else Some (BACNET_STATUS_ERROR, apdu, ERROR_CLASS_PROPERTY, ERROR_CODE_INVALID_ARRAY_INDEX)
     else Some (BACNET_STATUS_ERROR, apdu, ERROR_CLASS_PROPERTY, ERROR_CODE_UNKNOWN_PROPERTY) }"

definition property_list_common_encode ::
  "BACNET_READ_PROPERTY_DATA \<Rightarrow> bytes \<Rightarrow> u32 \<Rightarrow> (int \<times> bytes \<times> BACNET_READ_PROPERTY_DATA) option" where
  "property_list_common_encode d apdu device_instance =
     (if length apdu = 0 then Some (0, apdu, d)
      else if rp_object_property d = of_int PROP_OBJECT_IDENTIFIER then do {
        let d = (if rp_object_type d = OBJECT_DEVICE then d\<lparr>rp_object_instance := device_instance\<rparr> else d);
        let e = encode_application_object_id (rp_object_type d) (rp_object_instance d);
        apdu \<leftarrow> put apdu 0 e;
        Some (int (length e), apdu, d) }
      else if rp_object_property d = of_int PROP_OBJECT_TYPE then do {
        let e = encode_application_enumerated (rp_object_type d);
        apdu \<leftarrow> put apdu 0 e;
        Some (int (length e), apdu, d) }
      else Some (BACNET_STATUS_ERROR, apdu, d))"

definition property_list_common :: "u32 \<Rightarrow> bool" where
  "property_list_common p \<longleftrightarrow> p = of_int PROP_OBJECT_IDENTIFIER \<or> p = of_int PROP_OBJECT_TYPE"

section \<open>Arrays, lists and commandable properties\<close>

definition Properties_BACnetARRAY :: "int list" where
  "Properties_BACnetARRAY =
     [76, 209, 154, 371, 257, 256, 2, 3, 87, 434, 430, 7, 39, 130, 351, 352, 304, 305, 211, 210, 488, 487, 489,
      345, 346, 368, 367, 343, 363, 17, 396, 421, 406, 441, 464, 451, 447, 475, 480, 450, 449, 472, 494, 495,
      110, 496, 504, 221, 220, 123, 38, 486, 511, 288, 302, 4194319, -1]"

definition property_list_bacnet_array :: "int list" where
  "property_list_bacnet_array = Properties_BACnetARRAY"

definition PROP_PROPRIETARY_RANGE_MIN :: u32 where "PROP_PROPRIETARY_RANGE_MIN = 512"
definition PROP_PROPRIETARY_RANGE_MAX :: u32 where "PROP_PROPRIETARY_RANGE_MAX = 4194303"

definition property_list_bacnet_array_member :: "u32 \<Rightarrow> u32 \<Rightarrow> bool option" where
  "property_list_bacnet_array_member object_type p =
     (if object_type = 26 \<and> p = PROP_PRESENT_VALUE then Some True
      else if object_type = 53 \<and> p = PROP_LIST_OF_OBJECT_PROPERTY_REFERENCES then Some True
      else if p \<ge> PROP_PROPRIETARY_RANGE_MIN \<and> p \<le> PROP_PROPRIETARY_RANGE_MAX then Some True
      else property_list_member (Some Properties_BACnetARRAY) (sint p))"

definition Properties_BACnetLIST :: "int list" where
  "Properties_BACnetLIST =
     [23, 122, 5, 116, 30, 152, 202, 206, 481, 53, 175, 166, 7, 39, 159, 165, 102, 131, 234, 272, 245, 251, 266,
      268, 269, 286, 265, 303, 364, 350, 362, 414, 415, 170, 171, 429, 428, 470, 463, -1]"

definition property_list_bacnet_list :: "int list" where
  "property_list_bacnet_list = Properties_BACnetLIST"

definition property_list_bacnet_list_member :: "u32 \<Rightarrow> u32 \<Rightarrow> bool option" where
  "property_list_bacnet_list_member object_type p =
     (if object_type = 11 \<and> p = PROP_PRESENT_VALUE then Some True
      else if (object_type = 17 \<or> object_type = 31) \<and> p = PROP_LIST_OF_OBJECT_PROPERTY_REFERENCES then Some True
      else if p \<ge> PROP_PROPRIETARY_RANGE_MIN \<and> p \<le> PROP_PROPRIETARY_RANGE_MAX then Some True
      else property_list_member (Some Properties_BACnetLIST) (sint p))"

definition property_list_commandable_member :: "u32 \<Rightarrow> u32 \<Rightarrow> bool" where
  "property_list_commandable_member object_type p \<longleftrightarrow>
     object_type \<in> {30, 1, 2, 55, 4, 5, 39, 53, 40, 42, 41, 44, 43, 45, 46, 54, 14, 19, 47, 48, 50, 49} \<and>
     p = PROP_PRESENT_VALUE"

text \<open>An array index is refused for a property that is not an array.\<close>

definition read_property_bacnet_array_valid ::
  "('a BACNET_READ_PROPERTY_DATA_scheme) \<Rightarrow> u32 \<times> int \<Rightarrow> (bool \<times> u32 \<times> int) option" where
  "read_property_bacnet_array_valid d err = do {
     is_array \<leftarrow> property_list_bacnet_array_member (rp_object_type d) (rp_object_property d);
     Some (if \<not> is_array \<and> rp_array_index d \<noteq> BACNET_ARRAY_ALL
           then (False, ERROR_CLASS_PROPERTY, ERROR_CODE_PROPERTY_IS_NOT_AN_ARRAY) else (True, err)) }"

definition write_property_bacnet_array_valid ::
  "BACNET_WRITE_PROPERTY_DATA \<Rightarrow> u32 \<times> int \<Rightarrow> (bool \<times> u32 \<times> int) option" where
  "write_property_bacnet_array_valid d err = do {
     is_array \<leftarrow> property_list_bacnet_array_member (rp_object_type d) (rp_object_property d);
     Some (if \<not> is_array \<and> rp_array_index d \<noteq> BACNET_ARRAY_ALL
           then (False, ERROR_CLASS_PROPERTY, ERROR_CODE_PROPERTY_IS_NOT_AN_ARRAY) else (True, err)) }"

section \<open>The loops\<close>

definition names :: "int list option \<Rightarrow> int list" where
  "names l = takeWhile (\<lambda>x. x \<noteq> -1) (element_of l)"

definition terminated :: "int list option \<Rightarrow> bool" where
  "terminated l \<longleftrightarrow> (\<forall>xs. l = Some xs \<longrightarrow> -1 \<in> set xs)"

abbreviation enc :: "int \<Rightarrow> bytes" where
  "enc p \<equiv> encode_application_enumerated (of_int p)"

lemma count_terminated: "-1 \<in> set xs \<Longrightarrow> count_loop xs n = Some (n + of_nat (length (takeWhile (\<lambda>x. x \<noteq> -1) xs)))"
  by (induction xs n rule: count_loop.induct) (auto simp: algebra_simps)

lemma property_list_count_eq: "terminated l \<Longrightarrow> property_list_count l = Some (of_nat (length (names l)))"
  by (auto simp: property_list_count_def terminated_def names_def element_of_def count_terminated split: option.splits)

lemma member_terminated: "-1 \<in> set xs \<Longrightarrow> member_loop xs p = Some (p \<in> set (takeWhile (\<lambda>x. x \<noteq> -1) xs))"
  by (induction xs p rule: member_loop.induct) auto

lemma property_list_member_eq: "terminated l \<Longrightarrow> property_list_member l p = Some (p \<in> set (names l))"
  by (auto simp: property_list_member_def terminated_def names_def element_of_def member_terminated split: option.splits)

lemma element_of_names: "\<exists>zs. element_of l = names l @ zs"
  unfolding names_def by (metis takeWhile_dropWhile_id)

lemma enc_nonempty [simp]: "enc p \<noteq> []"
  by simp

lemma encode_list_fits:
  assumes "k + length (concat (map enc (filter (\<lambda>x. \<not> skip x) ys))) < length apdu"
  shows "encode_list skip (length ys) (ys @ zs) apdu (int k) code =
    (let bs = concat (map enc (filter (\<lambda>x. \<not> skip x) ys))
     in Some (take k apdu @ bs @ drop (k + length bs) apdu, int (k + length bs), code))"
  using assms
proof (induction ys arbitrary: k apdu)
  case (Cons y ys)
  show ?case
  proof (cases "skip y")
    case False
    let ?e = "enc y" and ?bs = "concat (map enc (filter (\<lambda>x. \<not> skip x) ys))"
    let ?apdu = "take k apdu @ ?e @ drop (k + length ?e) apdu"
    have l: "length ?apdu = length apdu" "k + length ?e < length apdu" "k + length ?e + length ?bs < length ?apdu"
      using Cons.prems False by auto
    have "put apdu (int k) ?e = Some ?apdu" using l by (simp add: put_def write_at_def)
    then show ?thesis
      using Cons.IH [OF l(3)] l False by (simp add: Let_def ac_simps flip: of_nat_add)
  qed (use Cons in simp)
qed simp

lemma find_in_list_eq:
  assumes "c < i" "unat c + length (filter (\<lambda>x. \<not> skip x) ys) < 2 ^ 32"
  shows "find_in_list skip (length ys) (ys @ zs) i c =
    (let ms = filter (\<lambda>x. \<not> skip x) ys
     in if unat i - unat c \<le> length ms then Some (i, Some (ms ! (unat i - unat c - 1)))
        else Some (c + of_nat (length ms), None))"
  using assms
proof (induction ys arbitrary: c)
  case (Cons y ys)
  show ?case
  proof (cases "skip y")
    case False
    have n: "unat (c + 1) = Suc (unat c)" using Cons.prems(1) by (rule unat_next)
    have ci: "unat c < unat i" using Cons.prems(1) by (simp add: word_less_nat_alt)
    show ?thesis
    proof (cases "c + 1 = i")
      case True
      then have "unat i - unat c = 1" using n by simp
      then show ?thesis using True False by (simp add: Let_def)
    next
      case other: False
      then have "c + 1 < i" using n ci by (simp add: word_less_nat_alt word_unat_eq_iff)
      moreover have "unat i - unat c = Suc (unat i - unat (c + 1))" using n ci by simp
      moreover have "unat i - unat (c + 1) \<noteq> 0" using calculation(1) by (simp add: word_less_nat_alt)
      ultimately show ?thesis
        using Cons.IH [of "c + 1"] Cons.prems(2) n False other by (simp add: Let_def nth_Cons' algebra_simps)
    qed
  qed (use Cons in simp)
qed (simp add: word_less_nat_alt)

lemma encode_list_full:
  assumes "k < length apdu" "length apdu \<le> k + length (concat (map enc (filter (\<lambda>x. \<not> skip x) ys)))"
  shows "encode_list skip (length ys) (ys @ zs) apdu (int k) code = None \<or>
    (\<exists>a. encode_list skip (length ys) (ys @ zs) apdu (int k) code =
       Some (a, BACNET_STATUS_ABORT, ERROR_CODE_ABORT_SEGMENTATION_NOT_SUPPORTED))"
  using assms
proof (induction ys arbitrary: k apdu)
  case (Cons y ys)
  show ?case
  proof (cases "skip y")
    case False
    let ?e = "enc y" and ?apdu = "take k apdu @ enc y @ drop (k + length (enc y)) apdu"
    consider "length apdu < k + length ?e" | "length apdu = k + length ?e" | "k + length ?e < length apdu" by linarith
    then show ?thesis
    proof cases
      case 1
      then show ?thesis using False by (simp add: put_def write_at_def Let_def)
    next
      case 2
      then show ?thesis using False by (simp add: put_def write_at_def Let_def flip: of_nat_add)
    next
      case 3
      then have "length apdu = length ?apdu" by simp
      then show ?thesis
        using Cons.IH [of "k + length ?e" ?apdu] Cons.prems 3 False
        by (simp add: put_def write_at_def Let_def flip: of_nat_add)
    qed
  qed (use Cons in simp)
qed simp

lemma encode_list_negative: "ys \<noteq> [] \<Longrightarrow> encode_list (\<lambda>_. False) (length ys) (ys @ zs) apdu BACNET_STATUS_ABORT code = None"
  by (cases ys) (simp_all add: put_def)

section \<open>The properties of an object\<close>

text \<open>
  The lists of an object: each ends with -1, the required ones hold the identifier, the name and the
  type of the object, and others, once each.
\<close>

definition object_lists :: "int list option \<Rightarrow> int list option \<Rightarrow> int list option \<Rightarrow> bool" where
  "object_lists required optional proprietary \<longleftrightarrow>
     terminated required \<and> terminated optional \<and> terminated proprietary \<and> 3 < length (names required) \<and>
     length (filter always_required (names required)) = (if PROP_PROPERTY_LIST \<in> set (names required) then 4 else 3) \<and>
     length (names required) + length (names optional) + length (names proprietary) < 2 ^ 32"

definition object_properties :: "int list option \<Rightarrow> int list option \<Rightarrow> int list option \<Rightarrow> int list" where
  "object_properties required optional proprietary =
     filter (\<lambda>x. \<not> always_required x) (names required) @ names optional @ names proprietary"

lemma counts:
  assumes "object_lists required optional proprietary"
  defines "n1 \<equiv> of_nat (length (names required)) :: u32" and "n2 \<equiv> of_nat (length (names optional)) :: u32"
    and "n3 \<equiv> of_nat (length (names proprietary)) :: u32"
  shows "property_list_count required = Some n1" "property_list_count optional = Some n2"
    "property_list_count proprietary = Some n3" "n1 > 3" "n1 \<ge> 3"
    "unat n1 = length (names required)" "unat n2 = length (names optional)" "unat n3 = length (names proprietary)"
    "property_list_member required PROP_PROPERTY_LIST = Some (PROP_PROPERTY_LIST \<in> set (names required))"
    "(if PROP_PROPERTY_LIST \<in> set (names required) then n1 + n2 + n3 - 3 - 1 else n1 + n2 + n3 - 3) =
       of_nat (length (object_properties required optional proprietary))"
proof -
  note l = assms(1) [unfolded object_lists_def]
  show "property_list_count required = Some n1" "property_list_count optional = Some n2"
    "property_list_count proprietary = Some n3"
    "property_list_member required PROP_PROPERTY_LIST = Some (PROP_PROPERTY_LIST \<in> set (names required))"
    using l by (simp_all add: n1_def n2_def n3_def property_list_count_eq property_list_member_eq)
  show u: "unat n1 = length (names required)" "unat n2 = length (names optional)" "unat n3 = length (names proprietary)"
    using l by (simp_all add: n1_def n2_def n3_def unat_of_nat)
  show "n1 > 3" "n1 \<ge> 3" using l u(1) by (simp_all add: word_less_nat_alt word_le_nat_alt)
  have "length (names required) = length (filter always_required (names required)) +
      length (filter (\<lambda>x. \<not> always_required x) (names required))"
    by (simp add: sum_length_filter_compl)
  then have "n1 = (if PROP_PROPERTY_LIST \<in> set (names required) then 4 else 3) +
      of_nat (length (filter (\<lambda>x. \<not> always_required x) (names required)))"
    using l by (simp add: n1_def)
  then show "(if PROP_PROPERTY_LIST \<in> set (names required) then n1 + n2 + n3 - 3 - 1 else n1 + n2 + n3 - 3) =
       of_nat (length (object_properties required optional proprietary))"
    by (simp add: object_properties_def n2_def n3_def)
qed

lemma object_properties_bounded:
  assumes "object_lists required optional proprietary"
  shows "length (object_properties required optional proprietary) < 2 ^ 32"
proof -
  have "length (filter (\<lambda>x. \<not> always_required x) (names required)) \<le> length (names required)" by simp
  then show ?thesis using assms unfolding object_lists_def object_properties_def length_append by linarith
qed

lemma property_list_whole:
  assumes "object_lists required optional proprietary"
    and "length (concat (map enc (object_properties required optional proprietary))) < length apdu"
  shows "property_list_encode 371 BACNET_ARRAY_ALL apdu err required optional proprietary =
    (let bs = concat (map enc (object_properties required optional proprietary))
     in Some (int (length bs), bs @ drop (length bs) apdu, err))"
proof -
  note c = counts [OF assms(1)]
  obtain z1 z2 z3 where z: "element_of required = names required @ z1" "element_of optional = names optional @ z2"
      "element_of proprietary = names proprietary @ z3"
    using element_of_names by metis
  let ?b1 = "concat (map enc (filter (\<lambda>x. \<not> always_required x) (names required)))"
  let ?b2 = "concat (map enc (names optional))" and ?b3 = "concat (map enc (names proprietary))"
  have l: "length ?b1 + length ?b2 + length ?b3 < length apdu" using assms(2) by (simp add: object_properties_def)
  let ?a1 = "?b1 @ drop (length ?b1) apdu" and ?a2 = "?b1 @ ?b2 @ drop (length ?b1 + length ?b2) apdu"
  have "encode_list always_required (length (names required)) (names required @ z1) apdu 0 (snd err) =
      Some (?a1, int (length ?b1), snd err)"
    using encode_list_fits [of 0 always_required "names required" apdu z1 "snd err"] l by (simp add: Let_def)
  moreover have "encode_list (\<lambda>_. False) (length (names optional)) (names optional @ z2) ?a1 (int (length ?b1)) (snd err) =
      Some (?a2, int (length ?b1 + length ?b2), snd err)"
    using encode_list_fits [of "length ?b1" "\<lambda>_. False" "names optional" ?a1 z2 "snd err"] l by (simp add: Let_def add.commute)
  moreover have "encode_list (\<lambda>_. False) (length (names proprietary)) (names proprietary @ z3) ?a2
      (int (length ?b1 + length ?b2)) (snd err) =
      Some (?b1 @ ?b2 @ ?b3 @ drop (length ?b1 + length ?b2 + length ?b3) apdu,
        int (length ?b1 + length ?b2 + length ?b3), snd err)"
    using encode_list_fits [of "length ?b1 + length ?b2" "\<lambda>_. False" "names proprietary" ?a2 z3 "snd err"] l
    by (simp add: Let_def add.commute add.left_commute)
  moreover have "apdu \<noteq> []" "BACNET_ARRAY_ALL \<noteq> 0" using l by (auto simp: BACNET_ARRAY_ALL_def)
  ultimately show ?thesis
    using c by (simp add: property_list_encode_def z Let_def object_properties_def add.assoc del: of_nat_add)
qed

lemma property_list_size:
  assumes "object_lists required optional proprietary" "apdu \<noteq> []"
  shows "property_list_encode 371 0 apdu err required optional proprietary =
    (let e = encode_application_unsigned (ucast (of_nat (length (object_properties required optional proprietary)) :: u32))
     in do { apdu \<leftarrow> put apdu 0 e; Some (int (length e), apdu, err) })"
  using counts [OF assms(1)] assms(2)
  by (cases "PROP_PROPERTY_LIST \<in> set (names required)") (simp_all add: property_list_encode_def Let_def)

lemma find_in_lists:
  assumes "object_lists required optional proprietary" "0 < i"
    and "unat i \<le> length (object_properties required optional proprietary)"
  defines "p \<equiv> object_properties required optional proprietary ! (unat i - 1)"
  obtains "find_in_list always_required (length (names required)) (element_of required) i 0 = Some (i, Some p)"
  | n where "find_in_list always_required (length (names required)) (element_of required) i 0 = Some (n, None)"
      "find_in_list (\<lambda>_. False) (length (names optional)) (element_of optional) i n = Some (i, Some p)"
  | n m where "find_in_list always_required (length (names required)) (element_of required) i 0 = Some (n, None)"
      "find_in_list (\<lambda>_. False) (length (names optional)) (element_of optional) i n = Some (m, None)"
      "find_in_list (\<lambda>_. False) (length (names proprietary)) (element_of proprietary) i m = Some (i, Some p)"
proof -
  let ?r = "filter (\<lambda>x. \<not> always_required x) (names required)"
  obtain z1 z2 z3 where z: "element_of required = names required @ z1" "element_of optional = names optional @ z2"
      "element_of proprietary = names proprietary @ z3"
    using element_of_names by metis
  have r: "length ?r \<le> length (names required)" by simp
  have l: "length ?r + length (names optional) + length (names proprietary) < 2 ^ 32"
    using assms(1) r unfolding object_lists_def by linarith
  have i0: "unat i \<noteq> 0" using assms(2) by (simp add: word_less_nat_alt)
  have n: "unat (of_nat (length ?r) :: u32) = length ?r"
    "unat (of_nat (length ?r) + of_nat (length (names optional)) :: u32) = length ?r + length (names optional)"
    using l by (simp_all add: unat_of_nat flip: of_nat_add)
  have f1: "find_in_list always_required (length (names required)) (element_of required) i 0 =
      (if unat i \<le> length ?r then Some (i, Some (?r ! (unat i - 1))) else Some (of_nat (length ?r), None))"
    using find_in_list_eq [of 0 i always_required "names required" z1] assms(2) l z by (simp add: Let_def)
  have f2: "find_in_list (\<lambda>_. False) (length (names optional)) (element_of optional) i (of_nat (length ?r)) =
      (if unat i - length ?r \<le> length (names optional)
       then Some (i, Some (names optional ! (unat i - length ?r - 1)))
       else Some (of_nat (length ?r) + of_nat (length (names optional)), None))" if "length ?r < unat i"
    using find_in_list_eq [of "of_nat (length ?r)" i "\<lambda>_. False" "names optional" z2] that l z n(1)
    by (simp add: Let_def word_less_nat_alt)
  have f3: "find_in_list (\<lambda>_. False) (length (names proprietary)) (element_of proprietary) i
        (of_nat (length ?r) + of_nat (length (names optional))) =
      Some (i, Some (names proprietary ! (unat i - (length ?r + length (names optional)) - 1)))"
    if "length ?r + length (names optional) < unat i"
    using find_in_list_eq [of "of_nat (length ?r) + of_nat (length (names optional))" i "\<lambda>_. False"
        "names proprietary" z3] that l z n(2) assms(3)
    by (simp add: Let_def word_less_nat_alt object_properties_def)
  consider "unat i \<le> length ?r" | "length ?r < unat i" "unat i \<le> length ?r + length (names optional)"
    | "length ?r + length (names optional) < unat i" by linarith
  then show thesis
  proof cases
    case 1
    then have "p = ?r ! (unat i - 1)" using i0 by (auto simp: p_def object_properties_def nth_append)
    then show ?thesis using that(1) f1 1 by simp
  next
    case 2
    then have "p = names optional ! (unat i - length ?r - 1)"
      by (auto simp: p_def object_properties_def nth_append)
    then show ?thesis using that(2) f1 f2 2 by simp
  next
    case 3
    then have "p = names proprietary ! (unat i - (length ?r + length (names optional)) - 1)"
      by (auto simp: p_def object_properties_def nth_append)
    moreover have "\<not> unat i \<le> length ?r" "\<not> unat i - length ?r \<le> length (names optional)" "length ?r < unat i"
      using 3 by auto
    ultimately show ?thesis using that(3) f1 f2 f3 [OF 3] by presburger
  qed
qed

lemma property_list_element:
  assumes "object_lists required optional proprietary" "0 < i" "i \<noteq> BACNET_ARRAY_ALL" "apdu \<noteq> []"
    and "unat i \<le> length (object_properties required optional proprietary)"
  defines "p \<equiv> object_properties required optional proprietary ! (unat i - 1)"
  shows "property_list_encode 371 i apdu err required optional proprietary =
    do { apdu \<leftarrow> put apdu 0 (enc p); Some (int (length (enc p)), apdu, err) }"
proof -
  note c = counts [OF assms(1)]
  have "length (object_properties required optional proprietary) < 2 ^ 32"
    by (rule object_properties_bounded [OF assms(1)])
  then have "i \<le> of_nat (length (object_properties required optional proprietary))"
    using assms(5) by (simp add: word_le_nat_alt unat_of_nat)
  with c(10) have i: "i \<le> (if PROP_PROPERTY_LIST \<in> set (names required)
      then of_nat (length (names required)) + of_nat (length (names optional)) + of_nat (length (names proprietary)) - 3 - 1
      else of_nat (length (names required)) + of_nat (length (names optional)) + of_nat (length (names proprietary)) - 3)"
    by simp
  have "i \<noteq> 0" using assms(2) by auto
  show ?thesis
    using find_in_lists [OF assms(1,2,5), folded p_def] c(1-9) i \<open>i \<noteq> 0\<close> assms(3,4)
    by cases (cases "PROP_PROPERTY_LIST \<in> set (names required)"; simp add: property_list_encode_def Let_def)+
qed

lemma property_list_behind:
  assumes "object_lists required optional proprietary" "i \<noteq> BACNET_ARRAY_ALL" "apdu \<noteq> []"
    and "length (object_properties required optional proprietary) < unat i"
  shows "property_list_encode 371 i apdu err required optional proprietary =
    Some (BACNET_STATUS_ERROR, apdu, ERROR_CLASS_PROPERTY, ERROR_CODE_INVALID_ARRAY_INDEX)"
proof -
  note c = counts [OF assms(1)]
  have "of_nat (length (object_properties required optional proprietary)) < i"
    using assms(4) object_properties_bounded [OF assms(1)] by (simp add: word_less_nat_alt unat_of_nat)
  with c(10) have "\<not> i \<le> (if PROP_PROPERTY_LIST \<in> set (names required)
      then of_nat (length (names required)) + of_nat (length (names optional)) + of_nat (length (names proprietary)) - 3 - 1
      else of_nat (length (names required)) + of_nat (length (names optional)) + of_nat (length (names proprietary)) - 3)"
    by simp
  moreover have "i \<noteq> 0" using assms(4) by auto
  ultimately show ?thesis
    using c(1-9) assms(2,3)
    by (cases "PROP_PROPERTY_LIST \<in> set (names required)") (simp_all add: property_list_encode_def Let_def)
qed

lemma put_fits: "length bs \<le> length apdu \<Longrightarrow> put apdu 0 bs = Some (bs @ drop (length bs) apdu)"
  by (simp add: put_def write_at_def)

lemma application_bounds: "length (encode_application_unsigned v) \<le> 15" "length (enc p) \<le> 15"
  using bacnet_unsigned_length_range [of v] bacnet_unsigned_length_range [of "ucast (of_int p :: u32)"]
  by (auto simp: encode_application_unsigned_def encode_application_enumerated_def encode_bacnet_enumerated_def
      encode_tag_def number_octets_def)

text \<open>
  C35. The property Property_List of an object with required, optional and proprietary properties is the
  array of them all, without the identifier, the name, the type and the list itself: element 0 is
  its size, element \<open>i\<close> the \<open>i\<close>-th of these properties, the whole array is their encodings one after the
  other when these leave an octet of the buffer, and an index past the size is an invalid array index.
\<close>

theorem property_list_is_array:
  assumes "object_lists required optional proprietary" "15 \<le> length apdu"
    and "length (concat (map enc (object_properties required optional proprietary))) < length apdu"
  shows "let ps = object_properties required optional proprietary;
             answer = (\<lambda>bs. Some (int (length bs), bs @ drop (length bs) apdu, err))
    in property_list_encode 371 BACNET_ARRAY_ALL apdu err required optional proprietary =
         answer (concat (map enc ps)) \<and>
       (\<forall>i. i \<noteq> BACNET_ARRAY_ALL \<longrightarrow> property_list_encode 371 i apdu err required optional proprietary =
          (if i = 0 then answer (encode_application_unsigned (of_nat (length ps)))
           else if unat i \<le> length ps then answer (enc (ps ! (unat i - 1)))
           else Some (BACNET_STATUS_ERROR, apdu, ERROR_CLASS_PROPERTY, ERROR_CODE_INVALID_ARRAY_INDEX)))"
proof -
  have ne: "apdu \<noteq> []" using assms(2) by auto
  have 0: "property_list_encode 371 0 apdu err required optional proprietary =
      (let bs = encode_application_unsigned (of_nat (length (object_properties required optional proprietary)))
       in Some (int (length bs), bs @ drop (length bs) apdu, err))"
  proof -
    have "ucast (of_nat (length (object_properties required optional proprietary)) :: u32) =
        (of_nat (length (object_properties required optional proprietary)) :: u64)"
      using object_properties_bounded [OF assms(1)]
      by (simp add: word_unat_eq_iff unat_of_nat unat_widen)
    then show ?thesis
      using order_trans [OF application_bounds(1) assms(2)]
      by (simp add: property_list_size [OF assms(1) ne] put_fits Let_def)
  qed
  have i: "property_list_encode 371 i apdu err required optional proprietary =
      (let bs = enc (object_properties required optional proprietary ! (unat i - 1))
       in Some (int (length bs), bs @ drop (length bs) apdu, err))"
    if "i \<noteq> 0" "i \<noteq> BACNET_ARRAY_ALL" "unat i \<le> length (object_properties required optional proprietary)" for i
  proof -
    have "0 < i" using that(1) by (simp add: word_neq_0_conv)
    then show ?thesis
      using order_trans [OF application_bounds(2) assms(2)]
      by (simp add: property_list_element [OF assms(1) _ that(2) ne that(3)] put_fits Let_def)
  qed
  show ?thesis
    using property_list_whole [OF assms(1,3)] 0 i property_list_behind [OF assms(1) _ ne]
    by (simp add: Let_def not_le)
qed

theorem property_list_is_array_witness:
  "property_list_encode 371 2 (replicate 15 0) (0, 0) (Some [75, 77, 79, 85, 111, -1]) (Some [28, -1]) None =
     Some (2, [0x91, 111] @ replicate 13 0, 0, 0) \<and>
   property_list_encode 371 BACNET_ARRAY_ALL (replicate 15 0) (0, 0) (Some [75, 77, 79, 85, 111, -1]) (Some [28, -1]) None =
     Some (6, [0x91, 85, 0x91, 111, 0x91, 28] @ replicate 9 0, 0, 0) \<and>
   property_list_encode 371 4 (replicate 15 0) (0, 0) (Some [75, 77, 79, 85, 111, -1]) (Some [28, -1]) None =
     Some (BACNET_STATUS_ERROR, replicate 15 0, ERROR_CLASS_PROPERTY, ERROR_CODE_INVALID_ARRAY_INDEX)"
proof -
  have l: "object_lists (Some [75, 77, 79, 85, 111, -1]) (Some [28, -1]) None"
    by (simp add: object_lists_def terminated_def names_def element_of_def always_required_def)
  have ps: "object_properties (Some [75, 77, 79, 85, 111, -1]) (Some [28, -1]) None = [85, 111, 28]"
    by (simp add: object_properties_def names_def element_of_def always_required_def)
  have e: "encode_application_enumerated 85 = [0x91, 85]" "encode_application_enumerated 111 = [0x91, 111]"
    "encode_application_enumerated 28 = [0x91, 28]"
    by code_simp+
  have "15 \<le> length (replicate 15 (0::u8))" "length (concat (map enc [85, 111, 28])) < length (replicate 15 (0::u8))"
    by (simp_all add: e)
  note w = property_list_is_array [OF l, unfolded ps Let_def, OF this, of "(0, 0)"]
  show ?thesis
    using conjunct1 [OF w] conjunct2 [OF w, rule_format, of 2] conjunct2 [OF w, rule_format, of 4]
    by (simp add: e BACNET_ARRAY_ALL_def)
qed

text \<open>
  Where the encodings of the required properties fill the buffer and the object has optional or
  proprietary properties as well, the function has no defined result: the loop over the required
  properties sets the length to the abort status, which is -2, and the next loop writes its first
  property at this offset, in front of the buffer (or the loop over the required properties has already
  written behind it).
\<close>

lemma property_list_overruns:
  assumes "object_lists required optional proprietary" "names optional \<noteq> [] \<or> names proprietary \<noteq> []" "apdu \<noteq> []"
    and "length apdu \<le> length (concat (map enc (filter (\<lambda>x. \<not> always_required x) (names required))))"
  shows "property_list_encode 371 BACNET_ARRAY_ALL apdu err required optional proprietary = None"
proof -
  note c = counts [OF assms(1)]
  obtain z1 z2 z3 where z: "element_of required = names required @ z1" "element_of optional = names optional @ z2"
      "element_of proprietary = names proprietary @ z3"
    using element_of_names by metis
  have all: "BACNET_ARRAY_ALL \<noteq> 0" by (simp add: BACNET_ARRAY_ALL_def)
  have "encode_list always_required (length (names required)) (names required @ z1) apdu (int 0) (snd err) = None \<or>
    (\<exists>a. encode_list always_required (length (names required)) (names required @ z1) apdu (int 0) (snd err) =
       Some (a, BACNET_STATUS_ABORT, ERROR_CODE_ABORT_SEGMENTATION_NOT_SUPPORTED))"
    using assms(3,4) by (intro encode_list_full) auto
  then show ?thesis
  proof
    assume "encode_list always_required (length (names required)) (names required @ z1) apdu (int 0) (snd err) = None"
    then show ?thesis using c(1-9) assms(3) all by (simp add: property_list_encode_def z Let_def)
  next
    assume "\<exists>a. encode_list always_required (length (names required)) (names required @ z1) apdu (int 0) (snd err) =
       Some (a, BACNET_STATUS_ABORT, ERROR_CODE_ABORT_SEGMENTATION_NOT_SUPPORTED)"
    then obtain a where a: "encode_list always_required (length (names required)) (names required @ z1) apdu 0 (snd err) =
       Some (a, BACNET_STATUS_ABORT, ERROR_CODE_ABORT_SEGMENTATION_NOT_SUPPORTED)" by auto
    show ?thesis
    proof (cases "names optional = []")
      case True
      then have "encode_list (\<lambda>_. False) (length (names optional)) (names optional @ z2) a BACNET_STATUS_ABORT code =
          Some (a, BACNET_STATUS_ABORT, code)"
        "encode_list (\<lambda>_. False) (length (names proprietary)) (names proprietary @ z3) a BACNET_STATUS_ABORT code = None"
        for code
        using assms(2) by (simp_all add: encode_list_negative)
      then show ?thesis using c(1-9) a assms(3) all by (simp add: property_list_encode_def z Let_def)
    next
      case False
      then show ?thesis
        using c(1-9) a assms(3) all encode_list_negative [OF False] by (simp add: property_list_encode_def z Let_def)
    qed
  qed
qed

lemma property_list_overruns_witness:
  "property_list_encode 371 BACNET_ARRAY_ALL (replicate 2 0) (0, 0) (Some [75, 77, 79, 85, -1]) (Some [28, -1]) None = None"
proof -
  have e: "encode_application_enumerated 85 = [0x91, 85]" by code_simp
  show ?thesis
    using e by (intro property_list_overruns)
      (simp_all add: object_lists_def terminated_def names_def element_of_def always_required_def)
qed

end
