(* ===== verification/Bac_Device.thy ===== *)
theory Bac_Device
  imports Bac_Proplist
begin

text \<open>
  The objects of a device as the services see them: the table of object types of
  \<^verbatim>\<open>src/bacnet/basic/object/device.c\<close>, through which properties are read and written and objects are
  listed, created and deleted, and the tests of written values of \<^verbatim>\<open>src/bacnet/wp.c\<close>. The functions of an
  object type are the interface \<open>object_type\<close>. Shown here: the object list of the device enumerates the
  objects of all types, each once.
\<close>

abbreviation (input) MAX_BACNET_OBJECT_TYPE :: u32 where "MAX_BACNET_OBJECT_TYPE \<equiv> 1024"
abbreviation (input) OBJECT_CHANNEL :: u32 where "OBJECT_CHANNEL \<equiv> 53"
abbreviation (input) PROP_PRIORITY_ARRAY :: int where "PROP_PRIORITY_ARRAY \<equiv> 87"
abbreviation (input) ERROR_CLASS_OBJECT :: u32 where "ERROR_CLASS_OBJECT \<equiv> 1"
abbreviation (input) ERROR_CLASS_RESOURCES :: u32 where "ERROR_CLASS_RESOURCES \<equiv> 3"
abbreviation (input) ERROR_CODE_UNKNOWN_OBJECT :: int where "ERROR_CODE_UNKNOWN_OBJECT \<equiv> 31"
abbreviation (input) ERROR_CODE_VALUE_OUT_OF_RANGE :: int where "ERROR_CODE_VALUE_OUT_OF_RANGE \<equiv> 37"
abbreviation (input) ERROR_CODE_WRITE_ACCESS_DENIED :: int where "ERROR_CODE_WRITE_ACCESS_DENIED \<equiv> 40"
abbreviation (input) ERROR_CODE_INVALID_DATA_TYPE :: int where "ERROR_CODE_INVALID_DATA_TYPE \<equiv> 9"
abbreviation (input) ERROR_CODE_DUPLICATE_NAME :: int where "ERROR_CODE_DUPLICATE_NAME \<equiv> 48"
abbreviation (input) ERROR_CODE_NO_SPACE_TO_WRITE_PROPERTY :: int where "ERROR_CODE_NO_SPACE_TO_WRITE_PROPERTY \<equiv> 20"
abbreviation (input) ERROR_CODE_CHARACTER_SET_NOT_SUPPORTED :: int where "ERROR_CODE_CHARACTER_SET_NOT_SUPPORTED \<equiv> 41"
abbreviation (input) ERROR_CODE_SUCCESS :: int where "ERROR_CODE_SUCCESS \<equiv> 84"
abbreviation (input) ERROR_CODE_DYNAMIC_CREATION_NOT_SUPPORTED :: int where "ERROR_CODE_DYNAMIC_CREATION_NOT_SUPPORTED \<equiv> 4"
abbreviation (input) ERROR_CODE_OBJECT_IDENTIFIER_ALREADY_EXISTS :: int where "ERROR_CODE_OBJECT_IDENTIFIER_ALREADY_EXISTS \<equiv> 24"
abbreviation (input) ERROR_CODE_NO_SPACE_FOR_OBJECT :: int where "ERROR_CODE_NO_SPACE_FOR_OBJECT \<equiv> 18"
abbreviation (input) ERROR_CODE_UNSUPPORTED_OBJECT_TYPE :: int where "ERROR_CODE_UNSUPPORTED_OBJECT_TYPE \<equiv> 36"
abbreviation (input) ERROR_CODE_OBJECT_DELETION_NOT_PERMITTED :: int where "ERROR_CODE_OBJECT_DELETION_NOT_PERMITTED \<equiv> 23"

section \<open>Written values\<close>

type_synonym err = "u32 \<times> int"

text \<open>The tag of the decoded value: that of its encoding, or 0, its initial value, where there is none.\<close>

definition value_tag :: "bytes \<Rightarrow> u8 option" where
  "value_tag apdu = do {
     r \<leftarrow> bacnet_tag_decode apdu;
     Some (case r of Some (_, t) \<Rightarrow> if tag_application t then tag_number t else 0 | None \<Rightarrow> 0) }"

definition write_property_type_valid :: "u8 \<Rightarrow> u8 \<Rightarrow> err \<Rightarrow> bool \<times> err" where
  "write_property_type_valid tag expected err =
     (if tag \<noteq> expected then (False, ERROR_CLASS_PROPERTY, ERROR_CODE_INVALID_DATA_TYPE) else (True, err))"

text \<open>The members of the union that are read; each has the type the tag says.\<close>

definition signed_member :: "app_value option \<Rightarrow> u32" where
  "signed_member v = (case v of Some (Signed_Int x) \<Rightarrow> x | _ \<Rightarrow> 0)"

definition unsigned_member :: "app_value option \<Rightarrow> u64" where
  "unsigned_member v = (case v of Some (Unsigned_Int x) \<Rightarrow> x | _ \<Rightarrow> 0)"

definition boolean_member :: "app_value option \<Rightarrow> bool" where
  "boolean_member v = (case v of Some (Boolean x) \<Rightarrow> x | _ \<Rightarrow> False)"

definition character_string_member :: "app_value option \<Rightarrow> BACNET_CHARACTER_STRING" where
  "character_string_member v = (case v of Some (Character_String c) \<Rightarrow> c | _ \<Rightarrow> u_chars empty_union)"

text \<open>\<^verbatim>\<open>characterstring_printable\<close> of \<^verbatim>\<open>bacstr.c\<close>; a character above 126 is negative or too large.\<close>

definition characterstring_printable :: "BACNET_CHARACTER_STRING \<Rightarrow> bool" where
  "characterstring_printable c \<longleftrightarrow> encoding c = CHARACTER_ANSI_X34 \<longrightarrow>
     list_all (\<lambda>x. 0x20 \<le> x \<and> x \<le> 0x7E) (take (min (char_length c) CHARACTER_STRING_CAPACITY) (char_value c))"

definition write_property_string_valid :: "u8 \<Rightarrow> app_value option \<Rightarrow> nat \<Rightarrow> err \<Rightarrow> bool \<times> err" where
  "write_property_string_valid tag v len_max err =
     (let c = character_string_member v in
      if tag = BACNET_APPLICATION_TAG_CHARACTER_STRING then
        if characterstring_encoding (Some c) = CHARACTER_ANSI_X34 then
          if characterstring_length (Some c) = 0 then (False, ERROR_CLASS_PROPERTY, ERROR_CODE_VALUE_OUT_OF_RANGE)
          else if \<not> characterstring_printable c then (False, ERROR_CLASS_PROPERTY, ERROR_CODE_VALUE_OUT_OF_RANGE)
          else if len_max > 0 \<and> characterstring_length (Some c) > len_max
          then (False, ERROR_CLASS_RESOURCES, ERROR_CODE_NO_SPACE_TO_WRITE_PROPERTY)
          else (True, err)
        else (False, ERROR_CLASS_PROPERTY, ERROR_CODE_CHARACTER_SET_NOT_SUPPORTED)
      else (False, ERROR_CLASS_PROPERTY, ERROR_CODE_INVALID_DATA_TYPE))"

definition write_property_empty_string_valid :: "u8 \<Rightarrow> app_value option \<Rightarrow> nat \<Rightarrow> err \<Rightarrow> bool \<times> err" where
  "write_property_empty_string_valid tag v len_max err =
     (let c = character_string_member v in
      if tag = BACNET_APPLICATION_TAG_CHARACTER_STRING then
        if characterstring_encoding (Some c) = CHARACTER_ANSI_X34 then
          if len_max > 0 \<and> characterstring_length (Some c) > len_max
          then (False, ERROR_CLASS_RESOURCES, ERROR_CODE_NO_SPACE_TO_WRITE_PROPERTY)
          else (True, err)
        else (False, ERROR_CLASS_PROPERTY, ERROR_CODE_CHARACTER_SET_NOT_SUPPORTED)
      else (False, ERROR_CLASS_PROPERTY, ERROR_CODE_INVALID_DATA_TYPE))"

definition write_property_unsigned_decode ::
  "u8 \<Rightarrow> app_value option \<Rightarrow> u32 \<Rightarrow> (u32 \<Rightarrow> u64 \<Rightarrow> 's \<Rightarrow> (bool \<times> 's) option) \<Rightarrow> u64 \<Rightarrow> err \<Rightarrow> 's
   \<Rightarrow> (bool \<times> err \<times> 's) option" where
  "write_property_unsigned_decode tag v inst setter maximum err s = do {
     let (status, err) = write_property_type_valid tag BACNET_APPLICATION_TAG_UNSIGNED_INT err;
     if status then
       if unsigned_member v \<le> maximum then do {
         (status, s) \<leftarrow> setter inst (unsigned_member v) s;
         Some (status, (ERROR_CLASS_PROPERTY, if status then ERROR_CODE_SUCCESS else ERROR_CODE_VALUE_OUT_OF_RANGE), s) }
       else Some (False, (ERROR_CLASS_PROPERTY, ERROR_CODE_VALUE_OUT_OF_RANGE), s)
     else Some (False, err, s) }"

definition write_property_relinquish_bypass ::
  "BACNET_WRITE_PROPERTY_DATA \<Rightarrow> (u32 \<Rightarrow> u32 \<Rightarrow> int \<Rightarrow> bool option) option \<Rightarrow> bool option" where
  "write_property_relinquish_bypass d member_of_object = do {
     (len, _) \<leftarrow> bacnet_null_application_decode (rp_application_data d);
     if len > 0 \<and> len = int (length (rp_application_data d)) \<and>
       property_list_commandable_member (rp_object_type d) (rp_object_property d)
     then do {
       has_priority_array \<leftarrow> (case member_of_object of
           None \<Rightarrow> Some False
         | Some f \<Rightarrow> f (rp_object_type d) (rp_object_instance d) PROP_PRIORITY_ARRAY);
       Some (\<not> (has_priority_array \<or> rp_object_type d = OBJECT_CHANNEL)) }
     else Some False }"

section \<open>Object types\<close>

text \<open>
  A row of the table, on the state \<open>'s\<close> of all objects: a function that is NULL is \<open>None\<close>. Reading a
  property writes the buffer it is given; the results are the length or a status, the buffer and the
  error. Of the functions of \<^verbatim>\<open>object_functions_t\<close> those the functions below call are here.
\<close>

record 's object_functions =
  Object_Type :: u32
  Object_Count :: "('s \<Rightarrow> u32) option"
  Object_Index_To_Instance :: "(u32 \<Rightarrow> 's \<Rightarrow> u32 option) option"
  Object_Valid_Instance :: "(u32 \<Rightarrow> 's \<Rightarrow> bool option) option"
  Object_Name :: "(u32 \<Rightarrow> BACNET_CHARACTER_STRING \<Rightarrow> 's \<Rightarrow> (bool \<times> BACNET_CHARACTER_STRING) option) option"
  Object_Read_Property :: "(BACNET_READ_PROPERTY_DATA \<Rightarrow> bytes \<Rightarrow> err \<Rightarrow> 's \<Rightarrow> (int \<times> bytes \<times> err) option) option"
  Object_Write_Property :: "(BACNET_WRITE_PROPERTY_DATA \<Rightarrow> err \<Rightarrow> 's \<Rightarrow> (bool \<times> err \<times> 's) option) option"
  Object_RPM_List :: "(int list option \<times> int list option \<times> int list option) option"
  Object_Iterator :: "(u32 \<Rightarrow> 's \<Rightarrow> u32 option) option"
  Object_COV :: "(u32 \<Rightarrow> 's \<Rightarrow> bool option) option"
  Object_COV_Clear :: "(u32 \<Rightarrow> 's \<Rightarrow> 's option) option"
  Object_Create :: "(u32 \<Rightarrow> 's \<Rightarrow> (u32 \<times> 's) option) option"
  Object_Delete :: "(u32 \<Rightarrow> 's \<Rightarrow> (bool \<times> 's) option) option"

text \<open>
  The table ends with a row of type \<^verbatim>\<open>MAX_BACNET_OBJECT_TYPE\<close>; without it the search leaves the table.
  The calls of \<^verbatim>\<open>Device_Write_Property_Store_Callback\<close> are recorded in \<open>stored_values\<close> when it is set.
\<close>

record 's OBJECTS =
  device :: DEVICE
  Object_Table :: "'s object_functions list"
  object_state :: 's
  Device_Write_Property_Store_Callback :: bool
  stored_values :: "BACNET_WRITE_PROPERTY_DATA list"

fun find_functions :: "'s object_functions list \<Rightarrow> u32 \<Rightarrow> 's object_functions option option" where
  "find_functions [] ty = None"
| "find_functions (r # rs) ty =
     (if Object_Type r < MAX_BACNET_OBJECT_TYPE
      then if Object_Type r = ty then Some (Some r) else find_functions rs ty
      else Some None)"

definition Device_Objects_Find_Functions :: "u32 \<Rightarrow> 's OBJECTS \<Rightarrow> 's object_functions option option" where
  "Device_Objects_Find_Functions ty ob = find_functions (Object_Table ob) ty"

text \<open>A call of a function of a row, with the value of the function where it is NULL.\<close>

definition call :: "('s \<Rightarrow> 'f option) \<Rightarrow> ('f \<Rightarrow> 'r option) \<Rightarrow> 'r \<Rightarrow> 's \<Rightarrow> 'r option" where
  "call field apply_to d r = (case field r of None \<Rightarrow> Some d | Some f \<Rightarrow> apply_to f)"

definition valid_object :: "'s object_functions option \<Rightarrow> u32 \<Rightarrow> 's \<Rightarrow> bool option" where
  "valid_object pObject inst s =
     (case pObject of None \<Rightarrow> Some False | Some r \<Rightarrow> call Object_Valid_Instance (\<lambda>f. f inst s) False r)"

definition Device_Objects_Property_List ::
  "u32 \<Rightarrow> 's OBJECTS \<Rightarrow> (int list option \<times> int list option \<times> int list option) option" where
  "Device_Objects_Property_List ty ob = do {
     pObject \<leftarrow> Device_Objects_Find_Functions ty ob;
     Some (case pObject of
       None \<Rightarrow> (None, None, None)
     | Some r \<Rightarrow> (case Object_RPM_List r of None \<Rightarrow> (None, None, None) | Some ls \<Rightarrow> ls)) }"

definition Device_Objects_Property_List_Member :: "u32 \<Rightarrow> u32 \<Rightarrow> int \<Rightarrow> 's OBJECTS \<Rightarrow> bool option" where
  "Device_Objects_Property_List_Member ty inst p ob = do {
     (required, optional, proprietary) \<leftarrow> Device_Objects_Property_List ty ob;
     found \<leftarrow> property_list_member required p;
     found \<leftarrow> (if \<not> found then property_list_member optional p else Some found);
     if \<not> found then property_list_member proprietary p else Some found }"

section \<open>The object list\<close>

fun count_objects :: "'s object_functions list \<Rightarrow> 's \<Rightarrow> u32 \<Rightarrow> u32 option" where
  "count_objects [] s n = None"
| "count_objects (r # rs) s n =
     (if Object_Type r < MAX_BACNET_OBJECT_TYPE
      then count_objects rs s (n + (case Object_Count r of None \<Rightarrow> 0 | Some f \<Rightarrow> f s))
      else Some n)"

definition Device_Object_List_Count :: "'s OBJECTS \<Rightarrow> u32 option" where
  "Device_Object_List_Count ob = count_objects (Object_Table ob) (object_state ob) 0"

fun iterate_objects :: "(u32 \<Rightarrow> 's \<Rightarrow> u32 option) \<Rightarrow> nat \<Rightarrow> u32 \<Rightarrow> 's \<Rightarrow> u32 option" where
  "iterate_objects f 0 i s = Some i"
| "iterate_objects f (Suc n) i s = do { i \<leftarrow> f i s; iterate_objects f n i s }"

text \<open>The loop over the rows: \<open>count\<close> is the number of objects of the last type that was counted.\<close>

fun identifier_loop :: "'s object_functions list \<Rightarrow> 's \<Rightarrow> u32 \<Rightarrow> u32 \<Rightarrow> (u32 \<times> u32) option option" where
  "identifier_loop [] s object_index count = None"
| "identifier_loop (r # rs) s object_index count =
     (if Object_Type r < MAX_BACNET_OBJECT_TYPE then
        case Object_Count r of
          None \<Rightarrow> identifier_loop rs s object_index count
        | Some f \<Rightarrow>
            let object_index = object_index - count; count = f s in
            if object_index < count then do {
              object_index \<leftarrow> (case Object_Iterator r of
                  None \<Rightarrow> Some object_index
                | Some g \<Rightarrow> do { i \<leftarrow> g 0xFFFFFFFF s; iterate_objects g (unat object_index) i s });
              case Object_Index_To_Instance r of
                Some h \<Rightarrow> do { inst \<leftarrow> h object_index s; Some (Some (Object_Type r, inst)) }
              | None \<Rightarrow>
                  identifier_loop rs s object_index count }
            else identifier_loop rs s object_index count
      else Some None)"

definition Device_Object_List_Identifier :: "u32 \<Rightarrow> 's OBJECTS \<Rightarrow> (u32 \<times> u32) option option" where
  "Device_Object_List_Identifier array_index ob =
     (if array_index = 0 then Some None
      else identifier_loop (Object_Table ob) (object_state ob) (array_index - 1) 0)"

definition Device_Object_List_Element_Encode :: "u32 \<Rightarrow> u32 \<Rightarrow> 's OBJECTS \<Rightarrow> (int \<times> bytes) option" where
  "Device_Object_List_Element_Encode inst array_index ob =
     (if inst = Device_Object_Instance_Number (device ob) then do {
        found \<leftarrow> Device_Object_List_Identifier (array_index + 1) ob;
        Some (case found of
          None \<Rightarrow> (BACNET_STATUS_ERROR, [])
        | Some (ty, i) \<Rightarrow> let e = encode_application_object_id ty i in (int (length e), e)) }
      else Some (BACNET_STATUS_ERROR, []))"

text \<open>\<open>c0\<close> is the content of an uninitialised variable for a name.\<close>

fun name_loop ::
  "nat \<Rightarrow> u32 \<Rightarrow> BACNET_CHARACTER_STRING \<Rightarrow> BACNET_CHARACTER_STRING \<Rightarrow> 's OBJECTS \<Rightarrow> (u32 \<times> u32) option option" where
  "name_loop 0 i c1 c0 ob = Some None"
| "name_loop (Suc n) i c1 c0 ob = do {
     found \<leftarrow> Device_Object_List_Identifier i ob;
     case found of
       None \<Rightarrow> name_loop n (i + 1) c1 c0 ob
     | Some (ty, inst) \<Rightarrow> do {
         pObject \<leftarrow> Device_Objects_Find_Functions ty ob;
         (named, c0) \<leftarrow> (case pObject of
             None \<Rightarrow> Some (False, c0)
           | Some r \<Rightarrow> call Object_Name (\<lambda>f. f inst c0 (object_state ob)) (False, c0) r);
         if named \<and> characterstring_same (Some c1) (Some c0) then Some (Some (ty, inst))
         else name_loop n (i + 1) c1 c0 ob } }"

definition Device_Valid_Object_Name ::
  "BACNET_CHARACTER_STRING \<Rightarrow> BACNET_CHARACTER_STRING \<Rightarrow> 's OBJECTS \<Rightarrow> (u32 \<times> u32) option option" where
  "Device_Valid_Object_Name c0 object_name ob = do {
     max_objects \<leftarrow> Device_Object_List_Count ob;
     name_loop (unat max_objects) 1 object_name c0 ob }"

definition Device_Valid_Object_Id :: "u32 \<Rightarrow> u32 \<Rightarrow> 's OBJECTS \<Rightarrow> bool option" where
  "Device_Valid_Object_Id ty inst ob = do {
     pObject \<leftarrow> Device_Objects_Find_Functions ty ob;
     valid_object pObject inst (object_state ob) }"

definition Device_Object_Name_Copy ::
  "u32 \<Rightarrow> u32 \<Rightarrow> BACNET_CHARACTER_STRING \<Rightarrow> 's OBJECTS \<Rightarrow> (bool \<times> BACNET_CHARACTER_STRING) option" where
  "Device_Object_Name_Copy ty inst c ob = do {
     pObject \<leftarrow> Device_Objects_Find_Functions ty ob;
     valid \<leftarrow> valid_object pObject inst (object_state ob);
     if valid then call Object_Name (\<lambda>f. f inst c (object_state ob)) (False, c) (the pObject) else Some (False, c) }"

section \<open>Reading and writing\<close>

definition answer :: "bytes \<Rightarrow> err \<Rightarrow> bytes \<Rightarrow> (int \<times> bytes \<times> err) option" where
  "answer apdu err e = do { apdu \<leftarrow> put apdu 0 e; Some (int (length e), apdu, err) }"

definition Read_Property_Common ::
  "BACNET_CHARACTER_STRING \<Rightarrow> 's object_functions \<Rightarrow> BACNET_READ_PROPERTY_DATA \<Rightarrow> bytes \<Rightarrow> err \<Rightarrow> 's OBJECTS
   \<Rightarrow> (int \<times> bytes \<times> err) option" where
  "Read_Property_Common c0 r d apdu err ob =
     (if length apdu = 0 then Some (0, apdu, err)
      else if property_list_common (rp_object_property d) then do {
        (len, apdu, _) \<leftarrow> property_list_common_encode d apdu (Object_Instance_Number (device ob));
        Some (len, apdu, err) }
      else if rp_object_property d = of_int PROP_OBJECT_NAME then do {
        (_, c) \<leftarrow> characterstring_init_ansi (Some c0) (Some []);
        (_, c) \<leftarrow> call Object_Name (\<lambda>f. f (rp_object_instance d) (stored_or c0 c) (object_state ob)) (False, stored_or c0 c) r;
        answer apdu err (encode_application_character_string c) }
      else if rp_object_property d = of_int PROP_PROPERTY_LIST then do {
        (required, optional, proprietary) \<leftarrow> Device_Objects_Property_List (rp_object_type d) ob;
        property_list_encode (rp_object_property d) (rp_array_index d) apdu err required optional proprietary }
      else call Object_Read_Property (\<lambda>f. f d apdu err (object_state ob)) (BACNET_STATUS_ERROR, apdu, err) r)"

definition Device_Read_Property ::
  "BACNET_CHARACTER_STRING \<Rightarrow> BACNET_READ_PROPERTY_DATA \<Rightarrow> bytes \<Rightarrow> 's OBJECTS \<Rightarrow> (int \<times> bytes \<times> err) option" where
  "Device_Read_Property c0 d apdu ob = do {
     let err = (ERROR_CLASS_OBJECT, ERROR_CODE_UNKNOWN_OBJECT);
     pObject \<leftarrow> Device_Objects_Find_Functions (rp_object_type d) ob;
     valid \<leftarrow> valid_object pObject (rp_object_instance d) (object_state ob);
     if valid then Read_Property_Common c0 (the pObject) d apdu err ob
     else Some (BACNET_STATUS_ERROR, apdu, err) }"

definition lift_objects :: "('s \<Rightarrow> (bool \<times> err \<times> 's) option) \<Rightarrow> 's OBJECTS \<Rightarrow> (bool \<times> err \<times> 's OBJECTS) option" where
  "lift_objects f ob = do { (status, err, s) \<leftarrow> f (object_state ob); Some (status, err, ob\<lparr>object_state := s\<rparr>) }"

definition Device_Write_Property_Object_Name ::
  "BACNET_CHARACTER_STRING \<Rightarrow> (BACNET_WRITE_PROPERTY_DATA \<Rightarrow> err \<Rightarrow> 's \<Rightarrow> (bool \<times> err \<times> 's) option)
   \<Rightarrow> BACNET_WRITE_PROPERTY_DATA \<Rightarrow> err \<Rightarrow> 's OBJECTS \<Rightarrow> (bool \<times> err \<times> 's OBJECTS) option" where
  "Device_Write_Property_Object_Name c0 write d err ob = do {
     (len, v) \<leftarrow> bacnet_character_string_application_decode c0 (rp_application_data d);
     let c = stored_or c0 v;
     if len > 0 then
       if characterstring_encoding (Some c) \<noteq> CHARACTER_ANSI_X34 \<or> characterstring_length (Some c) = 0 \<or>
         \<not> characterstring_printable c
       then Some (False, (ERROR_CLASS_PROPERTY, ERROR_CODE_VALUE_OUT_OF_RANGE), ob)
       else do {
         found \<leftarrow> Device_Valid_Object_Name c0 c ob;
         if found = None \<or> found = Some (rp_object_type d, rp_object_instance d)
         then lift_objects (write d err) ob
         else Some (False, (ERROR_CLASS_PROPERTY, ERROR_CODE_DUPLICATE_NAME), ob) }
     else if len = 0 then Some (False, (ERROR_CLASS_PROPERTY, ERROR_CODE_INVALID_DATA_TYPE), ob)
     else Some (False, (ERROR_CLASS_PROPERTY, ERROR_CODE_VALUE_OUT_OF_RANGE), ob) }"

definition Device_Write_Property_Store_Callback_Set :: "bool \<Rightarrow> 's OBJECTS \<Rightarrow> 's OBJECTS" where
  "Device_Write_Property_Store_Callback_Set cb ob = ob\<lparr>Device_Write_Property_Store_Callback := cb\<rparr>"

definition Device_Write_Property_Store :: "BACNET_WRITE_PROPERTY_DATA \<Rightarrow> 's OBJECTS \<Rightarrow> 's OBJECTS" where
  "Device_Write_Property_Store d ob =
     (if Device_Write_Property_Store_Callback ob then ob\<lparr>stored_values := stored_values ob @ [d]\<rparr> else ob)"

definition Device_Write_Property ::
  "BACNET_CHARACTER_STRING \<Rightarrow> BACNET_WRITE_PROPERTY_DATA \<Rightarrow> 's OBJECTS \<Rightarrow> (bool \<times> err \<times> 's OBJECTS) option" where
  "Device_Write_Property c0 d ob = do {
     let err = (ERROR_CLASS_OBJECT, ERROR_CODE_UNKNOWN_OBJECT);
     pObject \<leftarrow> Device_Objects_Find_Functions (rp_object_type d) ob;
     valid \<leftarrow> valid_object pObject (rp_object_instance d) (object_state ob);
     if valid then
       case Object_Write_Property (the pObject) of
         Some write \<Rightarrow>
           if rp_object_property d = of_int PROP_PROPERTY_LIST
           then Some (False, (ERROR_CLASS_PROPERTY, ERROR_CODE_WRITE_ACCESS_DENIED), ob)
           else do {
             (status, err, ob) \<leftarrow>
               (if rp_object_property d = of_int PROP_OBJECT_NAME
                then Device_Write_Property_Object_Name c0 write d err ob
                else lift_objects (write d err) ob);
             Some (status, err, if status then Device_Write_Property_Store d ob else ob) }
       | None \<Rightarrow> do {
           member \<leftarrow> Device_Objects_Property_List_Member (rp_object_type d) (rp_object_instance d)
             (sint (rp_object_property d)) ob;
           Some (False, (ERROR_CLASS_PROPERTY,
             if member then ERROR_CODE_WRITE_ACCESS_DENIED else ERROR_CODE_UNKNOWN_PROPERTY), ob) }
     else Some (False, err, ob) }"

section \<open>Change of value, creation and deletion\<close>

definition Device_COV :: "u32 \<Rightarrow> u32 \<Rightarrow> 's OBJECTS \<Rightarrow> bool option" where
  "Device_COV ty inst ob = do {
     pObject \<leftarrow> Device_Objects_Find_Functions ty ob;
     valid \<leftarrow> valid_object pObject inst (object_state ob);
     if valid then call Object_COV (\<lambda>f. f inst (object_state ob)) False (the pObject) else Some False }"

definition Device_COV_Clear :: "u32 \<Rightarrow> u32 \<Rightarrow> 's OBJECTS \<Rightarrow> 's OBJECTS option" where
  "Device_COV_Clear ty inst ob = do {
     pObject \<leftarrow> Device_Objects_Find_Functions ty ob;
     valid \<leftarrow> valid_object pObject inst (object_state ob);
     if valid then do {
       s \<leftarrow> call Object_COV_Clear (\<lambda>f. f inst (object_state ob)) (object_state ob) (the pObject);
       Some (ob\<lparr>object_state := s\<rparr>) }
     else Some ob }"

text \<open>The results: success, the instance number, the error, the number of the first failed element.\<close>

definition Device_Create_Object ::
  "u32 \<Rightarrow> u32 \<Rightarrow> bool \<Rightarrow> err \<Rightarrow> u64 \<Rightarrow> 's OBJECTS \<Rightarrow> (bool \<times> u32 \<times> err \<times> u64 \<times> 's OBJECTS) option" where
  "Device_Create_Object ty inst initial_values err first_failed ob = do {
     pObject \<leftarrow> Device_Objects_Find_Functions ty ob;
     case pObject of
       None \<Rightarrow> Some (False, inst, (ERROR_CLASS_OBJECT, ERROR_CODE_UNSUPPORTED_OBJECT_TYPE), first_failed, ob)
     | Some r \<Rightarrow>
         (case Object_Create r of
            None \<Rightarrow> Some (False, inst, (ERROR_CLASS_OBJECT, ERROR_CODE_DYNAMIC_CREATION_NOT_SUPPORTED), first_failed, ob)
          | Some create \<Rightarrow> do {
              valid \<leftarrow> valid_object pObject inst (object_state ob);
              if valid
              then Some (False, inst, (ERROR_CLASS_OBJECT, ERROR_CODE_OBJECT_IDENTIFIER_ALREADY_EXISTS), first_failed, ob)
              else if initial_values
              then Some (False, inst, (ERROR_CLASS_PROPERTY, ERROR_CODE_WRITE_ACCESS_DENIED), 1, ob)
              else do {
                (i, s) \<leftarrow> create inst (object_state ob);
                let ob = ob\<lparr>object_state := s\<rparr>;
                Some (if i = BACNET_MAX_INSTANCE
                  then (False, inst, (ERROR_CLASS_RESOURCES, ERROR_CODE_NO_SPACE_FOR_OBJECT), first_failed, ob)
                  else (True, i, err, first_failed, ob\<lparr>device := Device_Inc_Database_Revision (device ob)\<rparr>)) } }) }"

definition Device_Delete_Object :: "u32 \<Rightarrow> u32 \<Rightarrow> err \<Rightarrow> 's OBJECTS \<Rightarrow> (bool \<times> err \<times> 's OBJECTS) option" where
  "Device_Delete_Object ty inst err ob = do {
     pObject \<leftarrow> Device_Objects_Find_Functions ty ob;
     case pObject of
       None \<Rightarrow> Some (False, (ERROR_CLASS_OBJECT, ERROR_CODE_UNSUPPORTED_OBJECT_TYPE), ob)
     | Some r \<Rightarrow>
         (case Object_Delete r of
            None \<Rightarrow> Some (False, (ERROR_CLASS_OBJECT, ERROR_CODE_OBJECT_DELETION_NOT_PERMITTED), ob)
          | Some delete \<Rightarrow> do {
              valid \<leftarrow> valid_object pObject inst (object_state ob);
              if valid then do {
                (status, s) \<leftarrow> delete inst (object_state ob);
                let ob = ob\<lparr>object_state := s\<rparr>;
                Some (if status then (True, err, ob\<lparr>device := Device_Inc_Database_Revision (device ob)\<rparr>)
                      else (False, (ERROR_CLASS_OBJECT, ERROR_CODE_OBJECT_DELETION_NOT_PERMITTED), ob)) }
              else Some (False, (ERROR_CLASS_OBJECT, ERROR_CODE_UNKNOWN_OBJECT), ob) }) }"

section \<open>The object list as an array\<close>

text \<open>The functions of a row count the instances of its type and give them by index.\<close>

definition row_enumerates :: "'s \<Rightarrow> 's object_functions \<Rightarrow> u32 list \<Rightarrow> bool" where
  "row_enumerates s r ks \<longleftrightarrow> Object_Type r < MAX_BACNET_OBJECT_TYPE \<and> Object_Iterator r = None \<and>
     (\<exists>f h. Object_Count r = Some f \<and> f s = of_nat (length ks) \<and> Object_Index_To_Instance r = Some h \<and>
       (\<forall>i < length ks. h (of_nat i) s = Some (ks ! i)))"

definition all_objects :: "'s object_functions list \<Rightarrow> u32 list list \<Rightarrow> (u32 \<times> u32) list" where
  "all_objects rows kss = concat (map2 (\<lambda>r ks. map (Pair (Object_Type r)) ks) rows kss)"

lemma all_objects_simps [simp]:
  "all_objects [] kss = []" "all_objects (r # rows) (ks # kss) = map (Pair (Object_Type r)) ks @ all_objects rows kss"
  by (simp_all add: all_objects_def)

lemma count_enumerated:
  assumes "list_all2 (row_enumerates s) rows kss" "\<not> Object_Type last_row < MAX_BACNET_OBJECT_TYPE"
  shows "count_objects (rows @ last_row # rest) s n = Some (n + of_nat (length (all_objects rows kss)))"
  using assms(1)
proof (induction rows kss arbitrary: n rule: list_all2_induct)
  case Nil
  then show ?case using assms(2) by simp
next
  case (Cons r rows ks kss)
  then show ?case by (auto simp: row_enumerates_def add.assoc)
qed

lemma identifier_enumerated:
  assumes "list_all2 (row_enumerates s) rows kss" "\<not> Object_Type last_row < MAX_BACNET_OBJECT_TYPE"
    and "unat c + length (all_objects rows kss) < 2 ^ 32" "unat i - unat c < 2 ^ 32" "c \<le> i"
  shows "identifier_loop (rows @ last_row # rest) s i c =
    (if unat i - unat c < length (all_objects rows kss) then Some (Some (all_objects rows kss ! (unat i - unat c)))
     else Some None)"
  using assms(1,3-)
proof (induction rows kss arbitrary: i c rule: list_all2_induct)
  case Nil
  then show ?case using assms(2) by simp
next
  case (Cons r rows ks kss)
  obtain f h where r: "Object_Type r < MAX_BACNET_OBJECT_TYPE" "Object_Iterator r = None" "Object_Count r = Some f"
      "f s = of_nat (length ks)" "Object_Index_To_Instance r = Some h" "\<forall>i < length ks. h (of_nat i) s = Some (ks ! i)"
    using Cons.hyps(1) by (auto simp: row_enumerates_def)
  have l: "length ks + length (all_objects rows kss) < 2 ^ 32" using Cons.prems(1) by simp
  then have u: "unat (of_nat (length ks) :: u32) = length ks" "unat (i - c) = unat i - unat c"
    using Cons.prems(3) by (simp_all add: unat_of_nat unat_sub)
  show ?case
  proof (cases "unat i - unat c < length ks")
    case True
    have "h (i - c) s = Some (ks ! (unat i - unat c))"
      using r(6) [rule_format, OF True] u(2) [symmetric] by simp
    with True r u show ?thesis by (simp add: Let_def word_less_nat_alt nth_append)
  next
    case False
    have "identifier_loop (rows @ last_row # rest) s (i - c) (of_nat (length ks)) =
      (if unat i - unat c - length ks < length (all_objects rows kss)
       then Some (Some (all_objects rows kss ! (unat i - unat c - length ks))) else Some None)"
      using Cons.IH [of "of_nat (length ks)" "i - c"] l u False Cons.prems(2) by (simp add: word_le_nat_alt)
    with False r u show ?thesis by (auto simp: Let_def word_less_nat_alt nth_append)
  qed
qed

section \<open>The contract of the objects\<close>

text \<open>
  What the device relies on. Each row enumerates its instances and knows which are valid; reading a
  property of a valid instance stays within a buffer of at least \<open>object_room\<close> octets and returns a
  length or one of the three status values; a name is a string; a list of properties fits; and
  writing keeps the objects in order.
\<close>

definition object_room :: nat where "object_room = 2000"

definition fits :: "nat \<Rightarrow> int \<times> bytes \<times> err \<Rightarrow> bool" where
  "fits n r \<longleftrightarrow> (case r of (len, b, _) \<Rightarrow> length b = n \<and> len < int n \<and>
     (len < 0 \<longrightarrow> len \<in> {BACNET_STATUS_ERROR, BACNET_STATUS_ABORT, BACNET_STATUS_REJECT}))"

lemma answer_fits: "length e < length apdu \<Longrightarrow> wp (answer apdu err e) (fits (length apdu))"
  by (simp add: answer_def put_fits less_imp_le fits_def)

locale object_table =
  fixes good :: "'s \<Rightarrow> bool" and rows :: "'s object_functions list"
    and instances :: "'s object_functions \<Rightarrow> 's \<Rightarrow> u32 list"
  assumes types: "distinct (map Object_Type rows)"
    and enumerated: "good s \<Longrightarrow> r \<in> set rows \<Longrightarrow> row_enumerates s r (instances r s) \<and> distinct (instances r s)"
    and valid: "good s \<Longrightarrow> r \<in> set rows \<Longrightarrow>
      \<exists>f. Object_Valid_Instance r = Some f \<and> (\<forall>k. f k s = Some (k \<in> set (instances r s)))"
    and named: "good s \<Longrightarrow> r \<in> set rows \<Longrightarrow> Object_Name r = Some f \<Longrightarrow> wf_charstring c \<Longrightarrow>
      wp (f k c s) (\<lambda>(_, c). wf_charstring c)"
    and readable: "good s \<Longrightarrow> r \<in> set rows \<Longrightarrow> Object_Read_Property r = Some g \<Longrightarrow> object_room \<le> length apdu \<Longrightarrow>
      rp_object_instance d \<in> set (instances r s) \<Longrightarrow> wp (g d apdu err s) (fits (length apdu))"
    and lists: "r \<in> set rows \<Longrightarrow> Object_RPM_List r = Some (q, o1, p) \<Longrightarrow>
      object_lists q o1 p \<and> length (concat (map enc (object_properties q o1 p))) < object_room"
    and writes: "good s \<Longrightarrow> r \<in> set rows \<Longrightarrow> Object_Write_Property r = Some h \<Longrightarrow>
      h w err s = Some (b, err', s') \<Longrightarrow> good s'"

text \<open>A device whose table is made of these rows, and whose objects are in order.\<close>

definition object_device :: "('s \<Rightarrow> bool) \<Rightarrow> 's object_functions list \<Rightarrow> 's OBJECTS \<Rightarrow> bool" where
  "object_device good rows ob \<longleftrightarrow> good (object_state ob) \<and>
     (\<exists>last_row rest. Object_Table ob = rows @ last_row # rest \<and> \<not> Object_Type last_row < MAX_BACNET_OBJECT_TYPE)"

lemma find_row:
  assumes "\<forall>r \<in> set rows. Object_Type r < MAX_BACNET_OBJECT_TYPE" "\<not> Object_Type last_row < MAX_BACNET_OBJECT_TYPE"
  shows "find_functions (rows @ last_row # rest) ty = Some (List.find (\<lambda>r. Object_Type r = ty) rows)"
  using assms by (induction rows) auto

lemma property_list_fits:
  assumes "object_lists q o1 p" "length (concat (map enc (object_properties q o1 p))) < length apdu" "15 < length apdu"
  shows "wp (property_list_encode 371 i apdu err q o1 p) (fits (length apdu))"
proof -
  have ne: "apdu \<noteq> []" using assms(3) by auto
  have a: "length (encode_application_unsigned v) < length apdu" "length (enc x) < length apdu" for v x
    using le_less_trans [OF application_bounds(1) assms(3)] le_less_trans [OF application_bounds(2) assms(3)] by auto
  consider "i = BACNET_ARRAY_ALL" | "i = 0" | "i \<noteq> BACNET_ARRAY_ALL" "0 < i" "unat i \<le> length (object_properties q o1 p)"
    | "i \<noteq> BACNET_ARRAY_ALL" "length (object_properties q o1 p) < unat i"
    by (meson not_less word_neq_0_conv)
  then show ?thesis
  proof cases
    case 1
    then show ?thesis using property_list_whole [OF assms(1,2), of err] assms(2) by (simp add: Let_def fits_def)
  next
    case 2
    then show ?thesis using property_list_size [OF assms(1) ne, of err] a(1) by (simp add: Let_def put_fits less_imp_le fits_def)
  next
    case 3
    then show ?thesis
      using property_list_element [OF assms(1) 3(2,1) ne 3(3), of err] a(2) by (simp add: put_fits less_imp_le fits_def)
  next
    case 4
    then show ?thesis using property_list_behind [OF assms(1) 4(1) ne 4(2), of err] by (simp add: fits_def)
  qed
qed

lemma no_property_list_fits:
  assumes "15 < length apdu"
  shows "wp (property_list_encode 371 i apdu err None None None) (fits (length apdu))"
  using le_less_trans [OF application_bounds(1) assms] assms
  by (auto simp: property_list_encode_def property_list_count_def put_fits less_imp_le Let_def fits_def split: if_splits)

lemma tag_bound: "length (encode_tag n c l) \<le> 7"
  by (simp add: encode_tag_def number_octets_def encode_unsigned16_def encode_unsigned32_def)

lemma object_id_bound: "length (encode_application_object_id t i) \<le> 15"
  by (simp add: encode_application_object_id_def encode_tag_def number_octets_def)

lemma character_string_bound: "wf_charstring c \<Longrightarrow> length (encode_application_character_string c) \<le> 1500"
  using tag_bound [of 7 False "of_nat (1 + characterstring_length (Some c))"]
  by (auto simp: encode_application_character_string_def encode_bacnet_character_string_def characterstring_length_def
      wf_charstring_def CHARACTER_STRING_CAPACITY_def MAX_CHARACTER_STRING_BYTES_def MAX_APDU_def)

lemma enumerated_bound: "length (encode_application_enumerated v) \<le> 15"
  using application_bounds(2) [of "uint v"] by simp

lemma common_fits:
  assumes "15 < length apdu"
  shows "wp (property_list_common_encode d apdu inst) (\<lambda>(n, b, _). length b = length apdu \<and> n < int (length apdu) \<and> -1 \<le> n)"
  using le_less_trans [OF object_id_bound assms] le_less_trans [OF enumerated_bound assms] assms
  by (auto simp: property_list_common_encode_def put_fits less_imp_le Let_def split: if_splits)

lemma empty_name: "characterstring_init_ansi (Some c) (Some []) =
    Some (True, Some (c\<lparr>char_length := 0, encoding := 0, char_value := replicate MAX_CHARACTER_STRING_BYTES 0\<rparr>))"
  by (simp add: characterstring_init_ansi_def characterstring_init_def filled_def Let_def)

context object_table
begin

lemma row_found:
  assumes "object_device good rows ob"
  shows "Device_Objects_Find_Functions ty ob = Some (List.find (\<lambda>r. Object_Type r = ty) rows)"
  using assms enumerated
  by (auto simp: object_device_def Device_Objects_Find_Functions_def row_enumerates_def intro!: find_row)

lemma row_valid:
  assumes "object_device good rows ob"
  shows "valid_object (List.find (\<lambda>r. Object_Type r = ty) rows) k (object_state ob) =
    Some (\<exists>r \<in> set rows. Object_Type r = ty \<and> k \<in> set (instances r (object_state ob)))"
proof (cases "List.find (\<lambda>r. Object_Type r = ty) rows")
  case None
  then have "\<not> (\<exists>r \<in> set rows. Object_Type r = ty)" by (simp add: find_None_iff)
  with None show ?thesis by (auto simp: valid_object_def)
next
  case (Some r)
  then have r: "r \<in> set rows" "Object_Type r = ty" by (auto simp: find_Some_iff)
  then have "r' = r" if "r' \<in> set rows" "Object_Type r' = ty" for r'
    using that types by (auto simp: distinct_map inj_on_def)
  then have "(\<exists>r' \<in> set rows. Object_Type r' = ty \<and> k \<in> set (instances r' (object_state ob))) =
      (k \<in> set (instances r (object_state ob)))" using r by metis
  moreover obtain f where "Object_Valid_Instance r = Some f" "f k (object_state ob) = Some (k \<in> set (instances r (object_state ob)))"
    using valid [of "object_state ob" r] r assms by (auto simp: object_device_def)
  ultimately show ?thesis using Some by (simp add: valid_object_def call_def)
qed

text \<open>Reading any property of any object is defined and stays within the buffer.\<close>

lemma read_defined:
  assumes ob: "object_device good rows ob" and c0: "wf_charstring c0" and room: "object_room \<le> length apdu"
  shows "wp (Device_Read_Property c0 d apdu ob) (fits (length apdu))"
proof (cases "\<exists>r \<in> set rows. Object_Type r = rp_object_type d \<and> rp_object_instance d \<in> set (instances r (object_state ob))")
  case False
  then show ?thesis
    by (auto simp: Device_Read_Property_def row_found [OF ob] row_valid [OF ob] fits_def Let_def)
next
  case True
  have s: "good (object_state ob)" using ob by (simp add: object_device_def)
  from True have "List.find (\<lambda>r. Object_Type r = rp_object_type d) rows \<noteq> None" by (auto simp: find_None_iff)
  then obtain r where found: "List.find (\<lambda>r. Object_Type r = rp_object_type d) rows = Some r" by auto
  then have r: "r \<in> set rows" "Object_Type r = rp_object_type d" by (auto simp: find_Some_iff)
  have inst: "rp_object_instance d \<in> set (instances r (object_state ob))"
    using True r types by (auto simp: distinct_map inj_on_def)
  have l: "15 < length apdu" "1500 < length apdu" "length apdu \<noteq> 0" using room by (auto simp: object_room_def)
  let ?err = "(ERROR_CLASS_OBJECT, ERROR_CODE_UNKNOWN_OBJECT)"
  have "wp (Read_Property_Common c0 r d apdu ?err ob) (fits (length apdu))"
  proof -
    consider "property_list_common (rp_object_property d)"
      | "\<not> property_list_common (rp_object_property d)" "rp_object_property d = of_int PROP_OBJECT_NAME"
      | "\<not> property_list_common (rp_object_property d)" "rp_object_property d = of_int PROP_PROPERTY_LIST"
      | "\<not> property_list_common (rp_object_property d)" "rp_object_property d \<noteq> of_int PROP_OBJECT_NAME"
        "rp_object_property d \<noteq> of_int PROP_PROPERTY_LIST" by blast
    then show ?thesis
    proof cases
      case 1
      then show ?thesis
        using common_fits [OF l(1), of d "Object_Instance_Number (device ob)"] l(3)
        by (auto simp: Read_Property_Common_def wp_iff fits_def)
    next
      case 2
      let ?c = "c0\<lparr>char_length := 0, encoding := 0, char_value := replicate MAX_CHARACTER_STRING_BYTES 0\<rparr>"
      have c: "wf_charstring ?c" by (simp add: wf_charstring_def)
      have "wp (call Object_Name (\<lambda>f. f (rp_object_instance d) ?c (object_state ob)) (False, ?c) r) (\<lambda>(_, c). wf_charstring c)"
        using named [OF s r(1) _ c, of _ "rp_object_instance d"] c by (auto simp: call_def split: option.split)
      then show ?thesis
        using 2 l by (auto simp: Read_Property_Common_def empty_name stored_or_def wp_iff [of "call _ _ _ _"]
            intro!: answer_fits le_less_trans [OF character_string_bound])
    next
      case 3
      have "wp (property_list_encode 371 (rp_array_index d) apdu ?err q o1 p) (fits (length apdu))"
        if "(case Object_RPM_List r of None \<Rightarrow> (None, None, None) | Some ls \<Rightarrow> ls) = (q, o1, p)" for q o1 p
        using that lists [OF r(1), of q o1 p] property_list_fits [of q o1 p apdu] no_property_list_fits [OF l(1)] l(1) room
        by (auto split: option.splits)
      then show ?thesis
        using 3 l(3) by (auto simp: Read_Property_Common_def Device_Objects_Property_List_def row_found [OF ob] found
            split: prod.splits)
    next
      case 4
      then show ?thesis
        using readable [OF s r(1) _ room inst, of _ ?err] l(3)
        by (auto simp: Read_Property_Common_def call_def fits_def split: option.splits)
    qed
  qed
  moreover have "valid_object (Some r) (rp_object_instance d) (object_state ob) = Some True"
    using row_valid [OF ob, of "rp_object_type d" "rp_object_instance d"] True found by simp
  ultimately show ?thesis using found by (simp add: Device_Read_Property_def row_found [OF ob] Let_def)
qed

text \<open>The object list holds the valid objects, each once.\<close>

lemma objects_listed:
  assumes "object_device good rows ob"
  defines "l \<equiv> all_objects rows (map (\<lambda>r. instances r (object_state ob)) rows)"
  shows "Device_Valid_Object_Id ty k ob = Some ((ty, k) \<in> set l)" "distinct l"
    "list_all2 (row_enumerates (object_state ob)) rows (map (\<lambda>r. instances r (object_state ob)) rows)"
proof -
  have s: "good (object_state ob)" using assms by (simp add: object_device_def)
  have l: "l = concat (map (\<lambda>r. map (Pair (Object_Type r)) (instances r (object_state ob))) rows)"
    by (simp add: l_def all_objects_def zip_map2 zip_same_conv_map comp_def)
  show "Device_Valid_Object_Id ty k ob = Some ((ty, k) \<in> set l)"
    by (auto simp: Device_Valid_Object_Id_def row_found [OF assms(1)] row_valid [OF assms(1)] l)
  have "distinct (concat (map (\<lambda>r. map (Pair (Object_Type r)) (instances r (object_state ob))) rs))"
    if "set rs \<subseteq> set rows" "distinct (map Object_Type rs)" for rs
    using that enumerated [OF s] by (induction rs) (auto simp: distinct_map inj_on_def)
  then show "distinct l" using types l by simp
  show "list_all2 (row_enumerates (object_state ob)) rows (map (\<lambda>r. instances r (object_state ob)) rows)"
    using enumerated [OF s] by (auto simp: list_all2_conv_all_nth)
qed

text \<open>Writing keeps the objects in order and the table as it is.\<close>

lemma stored_device: "object_device good rows (Device_Write_Property_Store w ob) = object_device good rows ob"
  by (simp add: Device_Write_Property_Store_def object_device_def)

lemma lifted_device:
  assumes "object_device good rows ob" "r \<in> set rows" "Object_Write_Property r = Some h"
    "lift_objects (h w err) ob = Some (b, err', ob')"
  shows "object_device good rows ob'"
  using assms writes [of "object_state ob" r h w err]
  by (auto simp: lift_objects_def object_device_def Option.bind_eq_Some_conv)

lemma device_write_kept:
  assumes "object_device good rows ob" "Device_Write_Property c0 w ob = Some (b, err, ob')"
  shows "object_device good rows ob'"
proof (cases "List.find (\<lambda>r. Object_Type r = rp_object_type w) rows")
  case None
  then show ?thesis
    using assms by (simp add: Device_Write_Property_def row_found [OF assms(1)] valid_object_def Let_def)
next
  case (Some r)
  then have r: "r \<in> set rows" by (auto simp: find_Some_iff)
  have n: "object_device good rows ob''" if "Object_Write_Property r = Some h"
    "Device_Write_Property_Object_Name c0 h w e ob = Some (st, e', ob'')" for h e st e' ob''
    using that(2) assms(1) lifted_device [OF assms(1) r that(1), of w e st e' ob'']
    by (auto simp: Device_Write_Property_Object_Name_def Let_def Option.bind_eq_Some_conv split: if_splits)
  show ?thesis
    using assms(1,2) Some n lifted_device [OF assms(1) r]
    by (auto simp: Device_Write_Property_def row_found [OF assms(1)] Let_def Option.bind_eq_Some_conv stored_device
        split: if_splits option.splits prod.splits)
qed

end

end
