(* ===== verification/Bac_Iv.thy ===== *)
theory Bac_Iv
  imports Bac_Device Bac_Keylist_Map
begin

text \<open>
  \<^verbatim>\<open>src/bacnet/basic/object/iv.c\<close>: Integer Value objects, kept in a key list of pointers to structures
  on the heap. Shown here: the objects
  are a finite map from instance numbers, without dangling pointers and without leaks; the value last
  reported differs from the present value by less than the COV increment; and a value written far
  from the last one overflows.
\<close>

section \<open>State\<close>

abbreviation (input) OBJECT_INTEGER_VALUE :: u32 where "OBJECT_INTEGER_VALUE \<equiv> 45"
abbreviation (input) PROP_STATUS_FLAGS :: int where "PROP_STATUS_FLAGS \<equiv> 111"
abbreviation (input) PROP_UNITS :: int where "PROP_UNITS \<equiv> 117"
abbreviation (input) PROP_OUT_OF_SERVICE :: int where "PROP_OUT_OF_SERVICE \<equiv> 81"
abbreviation (input) PROP_DESCRIPTION :: int where "PROP_DESCRIPTION \<equiv> 28"
abbreviation (input) PROP_COV_INCREMENT :: int where "PROP_COV_INCREMENT \<equiv> 22"
abbreviation (input) UNITS_NO_UNITS :: u16 where "UNITS_NO_UNITS \<equiv> 95"
abbreviation (input) UNITS_PERCENT :: u16 where "UNITS_PERCENT \<equiv> 98"
abbreviation (input) STATUS_FLAG_IN_ALARM :: u8 where "STATUS_FLAG_IN_ALARM \<equiv> 0"
abbreviation (input) STATUS_FLAG_FAULT :: u8 where "STATUS_FLAG_FAULT \<equiv> 1"
abbreviation (input) STATUS_FLAG_OVERRIDDEN :: u8 where "STATUS_FLAG_OVERRIDDEN \<equiv> 2"
abbreviation (input) STATUS_FLAG_OUT_OF_SERVICE :: u8 where "STATUS_FLAG_OUT_OF_SERVICE \<equiv> 3"

text \<open>
  Signed integers are their 32 bits. A C string is the list of its characters, \<open>None\<close> for NULL. The
  field \<^verbatim>\<open>Instance\<close> of the structure is never used.
\<close>

record integer_object =
  iv_out_of_service :: bool
  iv_changed :: bool
  iv_present_value :: u32
  iv_prior_value :: u32
  iv_cov_increment :: u32
  iv_units :: u16
  iv_name :: "bytes option"
  iv_description :: "bytes option"

text \<open>
  The list of objects, NULL before the initialisation, holds addresses; \<open>iv_heap\<close> are the structures
  allocated for it. The calls of the callback are recorded.
\<close>

record IV =
  iv_list :: "nat Keylist option"
  iv_heap :: "nat \<rightharpoonup> integer_object"
  iv_callback :: "nat option"
  iv_calls :: "(nat \<times> u32 \<times> u32 \<times> u32) list"

definition Integer_Value_Properties_Required :: "int list" where
  "Integer_Value_Properties_Required =
     [PROP_OBJECT_IDENTIFIER, PROP_OBJECT_NAME, PROP_OBJECT_TYPE, 85, PROP_STATUS_FLAGS, PROP_UNITS, -1]"

definition Integer_Value_Properties_Optional :: "int list" where
  "Integer_Value_Properties_Optional = [PROP_OUT_OF_SERVICE, PROP_DESCRIPTION, PROP_COV_INCREMENT, -1]"

definition Integer_Value_Properties_Proprietary :: "int list" where
  "Integer_Value_Properties_Proprietary = [-1]"

definition Integer_Value_Property_Lists :: "int list option \<times> int list option \<times> int list option" where
  "Integer_Value_Property_Lists =
     (Some Integer_Value_Properties_Required, Some Integer_Value_Properties_Optional,
      Some Integer_Value_Properties_Proprietary)"

section \<open>Access\<close>

text \<open>The pointer and the structure it points to; a dangling pointer is undefined.\<close>

definition Integer_Value_Object :: "u32 \<Rightarrow> IV \<Rightarrow> (nat \<times> integer_object) option option" where
  "Integer_Value_Object inst s =
     (case iv_list s of
        None \<Rightarrow> Some None
      | Some l \<Rightarrow> do {
          p \<leftarrow> Keylist_Data l inst;
          case p of
            None \<Rightarrow> Some None
          | Some a \<Rightarrow> do { x \<leftarrow> iv_heap s a; Some (Some (a, x)) } })"

text \<open>Reading a field, with a default, and changing the structure.\<close>

definition iv_get :: "'a \<Rightarrow> (integer_object \<Rightarrow> 'a) \<Rightarrow> u32 \<Rightarrow> IV \<Rightarrow> 'a option" where
  "iv_get d f inst s = do {
     pObject \<leftarrow> Integer_Value_Object inst s;
     Some (case pObject of None \<Rightarrow> d | Some (_, x) \<Rightarrow> f x) }"

definition iv_update :: "(integer_object \<Rightarrow> integer_object option) \<Rightarrow> u32 \<Rightarrow> IV \<Rightarrow> (bool \<times> IV) option" where
  "iv_update f inst s = do {
     pObject \<leftarrow> Integer_Value_Object inst s;
     case pObject of
       None \<Rightarrow> Some (False, s)
     | Some (a, x) \<Rightarrow> do { x \<leftarrow> f x; Some (True, s\<lparr>iv_heap := (iv_heap s)(a \<mapsto> x)\<rparr>) } }"

definition Integer_Value_Valid_Instance :: "u32 \<Rightarrow> IV \<Rightarrow> bool option" where
  "Integer_Value_Valid_Instance inst s = do {
     pObject \<leftarrow> Integer_Value_Object inst s; Some (pObject \<noteq> None) }"

definition Integer_Value_Count :: "IV \<Rightarrow> u32" where
  "Integer_Value_Count s = (case iv_list s of None \<Rightarrow> 0 | Some l \<Rightarrow> of_nat (Keylist_Count l))"

text \<open>The index is converted to \<^verbatim>\<open>int\<close>.\<close>

definition Integer_Value_Index_To_Instance :: "u32 \<Rightarrow> IV \<Rightarrow> u32 option" where
  "Integer_Value_Index_To_Instance index s =
     (case iv_list s of
        None \<Rightarrow> Some 0xFFFFFFFF
      | Some l \<Rightarrow> do { k \<leftarrow> Keylist_Index_Key l (sint index); Some (stored_or 0xFFFFFFFF k) })"

definition Integer_Value_Instance_To_Index :: "u32 \<Rightarrow> IV \<Rightarrow> u32 option" where
  "Integer_Value_Instance_To_Index inst s =
     (case iv_list s of None \<Rightarrow> Some (- 1) | Some l \<Rightarrow> map_option of_int (Keylist_Index l inst))"

definition Integer_Value_Present_Value :: "u32 \<Rightarrow> IV \<Rightarrow> u32 option" where
  "Integer_Value_Present_Value = iv_get 0 iv_present_value"

text \<open>The subtraction and \<^verbatim>\<open>abs\<close> are in 32 bits: a result that does not fit is undefined.\<close>

definition Integer_Value_COV_Detect :: "u32 \<Rightarrow> integer_object \<Rightarrow> integer_object option" where
  "Integer_Value_COV_Detect v x = do {
     let delta = sint (iv_prior_value x) - sint v;
     ensure (- (2 ^ 31) < delta \<and> delta < 2 ^ 31);
     Some (if of_int \<bar>delta\<bar> \<ge> iv_cov_increment x then x\<lparr>iv_changed := True, iv_prior_value := v\<rparr> else x) }"

definition Integer_Value_Present_Value_Set :: "u32 \<Rightarrow> u32 \<Rightarrow> IV \<Rightarrow> (bool \<times> IV) option" where
  "Integer_Value_Present_Value_Set inst v =
     iv_update (\<lambda>x. do { x \<leftarrow> Integer_Value_COV_Detect v x; Some (x\<lparr>iv_present_value := v\<rparr>) }) inst"

text \<open>\<^verbatim>\<open>snprintf\<close> with \<^verbatim>\<open>%lu\<close>, into an array of 32 characters.\<close>

fun decimal :: "nat \<Rightarrow> bytes" where
  "decimal n = (if n < 10 then [of_nat (48 + n)] else decimal (n div 10) @ [of_nat (48 + n mod 10)])"

declare decimal.simps [simp del]

definition integer_value_text :: bytes where
  "integer_value_text = [0x49, 0x4E, 0x54, 0x45, 0x47, 0x45, 0x52, 0x2D, 0x56, 0x41, 0x4C, 0x55, 0x45, 0x2D]"

text \<open>What is stored in the string; \<open>c\<close> is what it holds before.\<close>

definition init_ansi :: "BACNET_CHARACTER_STRING \<Rightarrow> bytes \<Rightarrow> (bool \<times> BACNET_CHARACTER_STRING) option" where
  "init_ansi c v = do { (b, r) \<leftarrow> characterstring_init_ansi (Some c) (Some v); Some (b, stored_or c r) }"

definition Integer_Value_Object_Name ::
  "u32 \<Rightarrow> BACNET_CHARACTER_STRING \<Rightarrow> IV \<Rightarrow> (bool \<times> BACNET_CHARACTER_STRING) option" where
  "Integer_Value_Object_Name inst c s = do {
     pObject \<leftarrow> Integer_Value_Object inst s;
     case pObject of
       None \<Rightarrow> Some (False, c)
     | Some (_, x) \<Rightarrow> init_ansi c (case iv_name x of Some n \<Rightarrow> n
         | None \<Rightarrow> take 31 (integer_value_text @ decimal (unat inst))) }"

definition Integer_Value_Name_Set :: "u32 \<Rightarrow> bytes option \<Rightarrow> IV \<Rightarrow> (bool \<times> IV) option" where
  "Integer_Value_Name_Set inst n = iv_update (\<lambda>x. Some (x\<lparr>iv_name := n\<rparr>)) inst"

definition Integer_Value_Name_ASCII :: "u32 \<Rightarrow> IV \<Rightarrow> bytes option option" where
  "Integer_Value_Name_ASCII = iv_get None iv_name"

definition Integer_Value_Description ::
  "u32 \<Rightarrow> BACNET_CHARACTER_STRING \<Rightarrow> IV \<Rightarrow> (bool \<times> BACNET_CHARACTER_STRING) option" where
  "Integer_Value_Description inst c s = do {
     pObject \<leftarrow> Integer_Value_Object inst s;
     case pObject of
       None \<Rightarrow> Some (False, c)
     | Some (_, x) \<Rightarrow> init_ansi c (case iv_description x of Some n \<Rightarrow> n | None \<Rightarrow> []) }"

definition Integer_Value_Description_Set :: "u32 \<Rightarrow> bytes option \<Rightarrow> IV \<Rightarrow> (bool \<times> IV) option" where
  "Integer_Value_Description_Set inst n = iv_update (\<lambda>x. Some (x\<lparr>iv_description := n\<rparr>)) inst"

definition Integer_Value_Description_ANSI :: "u32 \<Rightarrow> IV \<Rightarrow> bytes option option" where
  "Integer_Value_Description_ANSI =
     iv_get None (\<lambda>x. case iv_description x of None \<Rightarrow> Some [] | Some n \<Rightarrow> Some n)"

definition Integer_Value_Units :: "u32 \<Rightarrow> IV \<Rightarrow> u16 option" where
  "Integer_Value_Units = iv_get UNITS_NO_UNITS iv_units"

definition Integer_Value_Units_Set :: "u32 \<Rightarrow> u16 \<Rightarrow> IV \<Rightarrow> (bool \<times> IV) option" where
  "Integer_Value_Units_Set inst u = iv_update (\<lambda>x. Some (x\<lparr>iv_units := u\<rparr>)) inst"

definition Integer_Value_Out_Of_Service :: "u32 \<Rightarrow> IV \<Rightarrow> bool option" where
  "Integer_Value_Out_Of_Service = iv_get False iv_out_of_service"

definition Integer_Value_Out_Of_Service_Set :: "u32 \<Rightarrow> bool \<Rightarrow> IV \<Rightarrow> IV option" where
  "Integer_Value_Out_Of_Service_Set inst v s =
     map_option snd (iv_update (\<lambda>x. Some (x\<lparr>iv_out_of_service := v\<rparr>)) inst s)"

definition Integer_Value_Change_Of_Value :: "u32 \<Rightarrow> IV \<Rightarrow> bool option" where
  "Integer_Value_Change_Of_Value = iv_get False iv_changed"

definition Integer_Value_Change_Of_Value_Clear :: "u32 \<Rightarrow> IV \<Rightarrow> IV option" where
  "Integer_Value_Change_Of_Value_Clear inst s =
     map_option snd (iv_update (\<lambda>x. Some (x\<lparr>iv_changed := False\<rparr>)) inst s)"

definition Integer_Value_COV_Increment :: "u32 \<Rightarrow> IV \<Rightarrow> u32 option" where
  "Integer_Value_COV_Increment = iv_get 0 iv_cov_increment"

definition Integer_Value_COV_Increment_Set :: "u32 \<Rightarrow> u32 \<Rightarrow> IV \<Rightarrow> IV option" where
  "Integer_Value_COV_Increment_Set inst v s =
     map_option snd (iv_update (\<lambda>x. Integer_Value_COV_Detect (iv_present_value x) (x\<lparr>iv_cov_increment := v\<rparr>)) inst s)"

definition Integer_Value_Write_Present_Value_Callback_Set :: "nat option \<Rightarrow> IV \<Rightarrow> IV" where
  "Integer_Value_Write_Present_Value_Callback_Set cb s = s\<lparr>iv_callback := cb\<rparr>"

section \<open>Creation and deletion\<close>

definition new_object :: integer_object where
  "new_object = \<lparr>iv_out_of_service = False, iv_changed = False, iv_present_value = 0, iv_prior_value = 0,
     iv_cov_increment = 1, iv_units = UNITS_PERCENT, iv_name = None, iv_description = None\<rparr>"

text \<open>
  \<open>mem\<close> is the address that \<^verbatim>\<open>calloc\<close> returns for the structure, \<open>None\<close> for NULL; \<open>array_mem\<close> and
  \<open>node_mem\<close> say whether it succeeds for the list.
\<close>

definition Integer_Value_Create :: "nat option \<Rightarrow> bool \<Rightarrow> bool \<Rightarrow> u32 \<Rightarrow> IV \<Rightarrow> (u32 \<times> IV) option" where
  "Integer_Value_Create mem array_mem node_mem inst s =
     (if inst > BACNET_MAX_INSTANCE then Some (BACNET_MAX_INSTANCE, s)
      else do {
        inst \<leftarrow> (if inst = BACNET_MAX_INSTANCE
          then (case iv_list s of None \<Rightarrow> Some 1 | Some l \<Rightarrow> Keylist_Next_Empty_Key l 1) else Some inst);
        p \<leftarrow> (case iv_list s of None \<Rightarrow> Some None | Some l \<Rightarrow> Keylist_Data l inst);
        if p = None then
          case (mem, iv_list s) of
            (None, _) \<Rightarrow> Some (BACNET_MAX_INSTANCE, s)
          | (Some a, None) \<Rightarrow> Some (BACNET_MAX_INSTANCE, s)
          | (Some a, Some l) \<Rightarrow> do {
              (index, l) \<leftarrow> Keylist_Data_Add array_mem node_mem l inst (Some a);
              Some (if index < 0 then (BACNET_MAX_INSTANCE, s\<lparr>iv_list := Some l\<rparr>)
                    else (inst, s\<lparr>iv_list := Some l, iv_heap := (iv_heap s)(a \<mapsto> new_object)\<rparr>)) }
        else Some (inst, s) })"

text \<open>\<^verbatim>\<open>free\<close>: a pointer that was not allocated is undefined.\<close>

definition release :: "nat \<Rightarrow> IV \<Rightarrow> IV option" where
  "release a s = do { ensure (iv_heap s a \<noteq> None); Some (s\<lparr>iv_heap := (iv_heap s)(a := None)\<rparr>) }"

definition Integer_Value_Delete :: "bool \<Rightarrow> u32 \<Rightarrow> IV \<Rightarrow> (bool \<times> IV) option" where
  "Integer_Value_Delete mem inst s =
     (case iv_list s of
        None \<Rightarrow> Some (False, s)
      | Some l \<Rightarrow> do {
          (p, l) \<leftarrow> Keylist_Data_Delete mem l inst;
          case p of
            None \<Rightarrow> Some (False, s\<lparr>iv_list := Some l\<rparr>)
          | Some a \<Rightarrow> do { s \<leftarrow> release a (s\<lparr>iv_list := Some l\<rparr>); Some (True, s) } })"

partial_function (option) cleanup_loop :: "(nat \<Rightarrow> bool) \<Rightarrow> nat Keylist \<Rightarrow> IV \<Rightarrow> (nat Keylist \<times> IV) option" where
  "cleanup_loop mem l s =
     Option.bind (Keylist_Data_Pop (mem (node_count l)) l) (\<lambda>r.
       case fst r of
         None \<Rightarrow> Some (snd r, s)
       | Some a \<Rightarrow> Option.bind (release a s) (\<lambda>s. cleanup_loop mem (snd r) s))"

definition Integer_Value_Cleanup :: "(nat \<Rightarrow> bool) \<Rightarrow> IV \<Rightarrow> IV option" where
  "Integer_Value_Cleanup mem s =
     (case iv_list s of
        None \<Rightarrow> Some s
      | Some l \<Rightarrow> do {
          (l, s) \<leftarrow> cleanup_loop mem l s;
          _ \<leftarrow> Keylist_Delete mem l;
          Some (s\<lparr>iv_list := None\<rparr>) })"

definition Integer_Value_Init :: "bool \<Rightarrow> bool \<Rightarrow> IV \<Rightarrow> IV option" where
  "Integer_Value_Init list_mem array_mem s =
     (if iv_list s = None then do { l \<leftarrow> Keylist_Create list_mem array_mem; Some (s\<lparr>iv_list := l\<rparr>) } else Some s)"

section \<open>ReadProperty\<close>

definition status_flags :: "bool \<Rightarrow> bool \<Rightarrow> bool \<Rightarrow> bool \<Rightarrow> BACNET_BIT_STRING option" where
  "status_flags in_alarm fault overridden out_of_service = do {
     let b = bitstring_init (Some \<lparr>bits_used = 0, bit_octets = []\<rparr>);
     b \<leftarrow> bitstring_set_bit b STATUS_FLAG_IN_ALARM in_alarm;
     b \<leftarrow> bitstring_set_bit b STATUS_FLAG_FAULT fault;
     b \<leftarrow> bitstring_set_bit b STATUS_FLAG_OVERRIDDEN overridden;
     b \<leftarrow> bitstring_set_bit b STATUS_FLAG_OUT_OF_SERVICE out_of_service;
     b }"

text \<open>
  The value is encoded into the buffer without a test of its size; \<open>c0\<close> is the content of the
  uninitialised variable \<^verbatim>\<open>char_string\<close>.
\<close>

definition Integer_Value_Read_Property ::
  "BACNET_CHARACTER_STRING \<Rightarrow> BACNET_READ_PROPERTY_DATA \<Rightarrow> bytes \<Rightarrow> err \<Rightarrow> IV
   \<Rightarrow> (int \<times> bytes \<times> err) option" where
  "Integer_Value_Read_Property c0 d apdu err s =
     (let inst = rp_object_instance d; p = uint (rp_object_property d) in
      if length apdu = 0 then Some (0, apdu, err)
      else if p = PROP_OBJECT_IDENTIFIER then answer apdu err (encode_application_object_id OBJECT_INTEGER_VALUE inst)
      else if p = PROP_OBJECT_NAME then do {
        (_, c) \<leftarrow> Integer_Value_Object_Name inst c0 s;
        answer apdu err (encode_application_character_string c) }
      else if p = PROP_OBJECT_TYPE then answer apdu err (encode_application_enumerated OBJECT_INTEGER_VALUE)
      else if p = PROP_DESCRIPTION then do {
        (ok, c) \<leftarrow> Integer_Value_Description inst c0 s;
        if ok then answer apdu err (encode_application_character_string c) else Some (0, apdu, err) }
      else if p = uint PROP_PRESENT_VALUE then do {
        v \<leftarrow> Integer_Value_Present_Value inst s;
        answer apdu err (encode_application_signed v) }
      else if p = PROP_STATUS_FLAGS then do {
        state \<leftarrow> Integer_Value_Out_Of_Service inst s;
        bit_string \<leftarrow> status_flags False False False state;
        answer apdu err (encode_application_bitstring bit_string) }
      else if p = PROP_OUT_OF_SERVICE then do {
        state \<leftarrow> Integer_Value_Out_Of_Service inst s;
        answer apdu err (encode_application_boolean state) }
      else if p = PROP_UNITS then do {
        units \<leftarrow> Integer_Value_Units inst s;
        answer apdu err (encode_application_enumerated (ucast units)) }
      else if p = PROP_COV_INCREMENT then do {
        v \<leftarrow> Integer_Value_COV_Increment inst s;
        answer apdu err (encode_application_unsigned (ucast v)) }
      else Some (BACNET_STATUS_ERROR, apdu, ERROR_CLASS_PROPERTY, ERROR_CODE_UNKNOWN_PROPERTY))"

section \<open>WriteProperty\<close>

definition Integer_Value_Write_Property ::
  "BACNET_WRITE_PROPERTY_DATA \<Rightarrow> err \<Rightarrow> IV \<Rightarrow> (bool \<times> err \<times> IV) option" where
  "Integer_Value_Write_Property d err s = do {
     (len, v) \<leftarrow> bacapp_decode_application_data empty_union (rp_application_data d);
     tag \<leftarrow> value_tag (rp_application_data d);
     let inst = rp_object_instance d;
     let p = uint (rp_object_property d);
     if len < 0 then Some (False, (ERROR_CLASS_PROPERTY, ERROR_CODE_VALUE_OUT_OF_RANGE), s)
     else if p = uint PROP_PRESENT_VALUE then do {
       let (status, err) = write_property_type_valid tag BACNET_APPLICATION_TAG_SIGNED_INT err;
       if status then do {
         old_value \<leftarrow> Integer_Value_Present_Value inst s;
         (_, s) \<leftarrow> Integer_Value_Present_Value_Set inst (signed_member v) s;
         new_value \<leftarrow> Integer_Value_Present_Value inst s;
         Some (True, err, case iv_callback s of
           None \<Rightarrow> s | Some cb \<Rightarrow> s\<lparr>iv_calls := iv_calls s @ [(cb, inst, old_value, new_value)]\<rparr>) }
       else Some (False, err, s) }
     else if p = PROP_COV_INCREMENT then do {
       let (status, err) = write_property_type_valid tag BACNET_APPLICATION_TAG_UNSIGNED_INT err;
       if status then do {
         s \<leftarrow> Integer_Value_COV_Increment_Set inst (ucast (unsigned_member v)) s;
         Some (True, err, s) }
       else Some (False, err, s) }
     else if p = PROP_OUT_OF_SERVICE then do {
       let (status, err) = write_property_type_valid tag BACNET_APPLICATION_TAG_BOOLEAN err;
       if status then do {
         s \<leftarrow> Integer_Value_Out_Of_Service_Set inst (boolean_member v) s;
         Some (True, err, s) }
       else Some (False, err, s) }
     else do {
       member \<leftarrow> property_lists_member (Some Integer_Value_Properties_Required)
         (Some Integer_Value_Properties_Optional) (Some Integer_Value_Properties_Proprietary)
         (sint (rp_object_property d));
       Some (False, (ERROR_CLASS_PROPERTY,
         if member then ERROR_CODE_WRITE_ACCESS_DENIED else ERROR_CODE_UNKNOWN_PROPERTY), s) } }"

section \<open>The objects as a map\<close>

definition iv_objects :: "IV \<Rightarrow> u32 \<rightharpoonup> integer_object" where
  "iv_objects s k =
     (case iv_list s of
        None \<Rightarrow> None
      | Some l \<Rightarrow> (case Keylist_Data l k of Some (Some a) \<Rightarrow> iv_heap s a | _ \<Rightarrow> None))"

text \<open>Every structure on the heap is in the list exactly once, and the list holds no other pointers.\<close>

definition points :: "nat Keylist \<Rightarrow> u32 \<Rightarrow> nat \<Rightarrow> bool" where
  "points l k a \<longleftrightarrow> Keylist_Data l k = Some (Some a)"

definition owns :: "nat Keylist \<Rightarrow> (nat \<rightharpoonup> integer_object) \<Rightarrow> bool" where
  "owns l h \<longleftrightarrow> map_inv l \<and> (\<forall>j k a. points l j a \<longrightarrow> points l k a \<longrightarrow> j = k) \<and>
     (\<forall>a. a \<in> dom h \<longleftrightarrow> (\<exists>k. points l k a))"

definition iv_inv :: "IV \<Rightarrow> bool" where
  "iv_inv s \<longleftrightarrow> (case iv_list s of None \<Rightarrow> iv_heap s = Map.empty | Some l \<Rightarrow> owns l (iv_heap s))"

lemma owns_map: "owns l h \<Longrightarrow> map_inv l"
  by (simp add: owns_def)

lemma owns_unique: "owns l h \<Longrightarrow> points l j a \<Longrightarrow> points l k a \<Longrightarrow> j = k"
  by (simp add: owns_def)

lemma owns_heap: "owns l h \<Longrightarrow> points l k a \<Longrightarrow> h a \<noteq> None"
  by (auto simp: owns_def)

lemma owns_listed: "owns l h \<Longrightarrow> h a = Some x \<Longrightarrow> \<exists>k. points l k a"
  by (auto simp: owns_def)

lemma ownsI:
  assumes "map_inv l" "\<And>j k a. points l j a \<Longrightarrow> points l k a \<Longrightarrow> j = k"
    "\<And>a x. h a = Some x \<Longrightarrow> \<exists>k. points l k a" "\<And>k a. points l k a \<Longrightarrow> h a \<noteq> None"
  shows "owns l h"
  using assms unfolding owns_def dom_def by fast

lemma owned_lookup: "owns l h \<Longrightarrow> \<exists>p. Keylist_Data l k = Some p \<and> (\<forall>a. p = Some a \<longrightarrow> h a \<noteq> None)"
  using keylist_look [of l k] by (auto simp: owns_def points_def wp_iff dom_def)

lemma object_found:
  assumes "iv_inv s"
  obtains "iv_objects s k = None" "Integer_Value_Object k s = Some None"
    | l a x where "iv_list s = Some l" "points l k a" "iv_heap s a = Some x" "iv_objects s k = Some x"
        "Integer_Value_Object k s = Some (Some (a, x))"
proof (cases "iv_list s")
  case (Some l)
  then obtain p where p: "Keylist_Data l k = Some p" "\<forall>a. p = Some a \<longrightarrow> iv_heap s a \<noteq> None"
    using owned_lookup [of l "iv_heap s" k] assms by (auto simp: iv_inv_def)
  show ?thesis
  proof (cases p)
    case None
    with Some p that(1) show ?thesis by (simp add: iv_objects_def Integer_Value_Object_def)
  next
    case (Some a)
    then obtain x where "iv_heap s a = Some x" using p(2) by auto
    with Some \<open>iv_list s = Some l\<close> p(1) that(2) show ?thesis
      by (simp add: iv_objects_def Integer_Value_Object_def points_def)
  qed
qed (use that(1) in \<open>simp add: iv_objects_def Integer_Value_Object_def\<close>)

lemma iv_get_eq: "iv_inv s \<Longrightarrow> iv_get d f k s = Some (case iv_objects s k of None \<Rightarrow> d | Some x \<Rightarrow> f x)"
  by (rule object_found [of s k]) (simp_all add: iv_get_def)

lemma valid_instance_eq: "iv_inv s \<Longrightarrow> Integer_Value_Valid_Instance k s = Some (iv_objects s k \<noteq> None)"
  by (rule object_found [of s k]) (simp_all add: Integer_Value_Valid_Instance_def)

lemma owns_update: "owns l h \<Longrightarrow> a \<in> dom h \<Longrightarrow> owns l (h(a \<mapsto> y))"
  by (simp add: owns_def insert_absorb)

lemma iv_update_none: "iv_inv s \<Longrightarrow> iv_objects s k = None \<Longrightarrow> iv_update f k s = Some (False, s)"
  by (rule object_found [of s k]) (simp_all add: iv_update_def)

lemma iv_update_eq:
  assumes "iv_inv s" "iv_objects s k = Some x" "f x = Some y"
  obtains s' where "iv_update f k s = Some (True, s')" "iv_inv s'" "iv_objects s' = (iv_objects s)(k \<mapsto> y)"
    "iv_list s' = iv_list s" "iv_callback s' = iv_callback s" "iv_calls s' = iv_calls s"
  using assms(1)
proof (rule object_found [of s k])
  fix l a x'
  assume o: "iv_list s = Some l" "points l k a" "iv_heap s a = Some x'" "iv_objects s k = Some x'"
    "Integer_Value_Object k s = Some (Some (a, x'))"
  let ?s = "s\<lparr>iv_heap := (iv_heap s)(a \<mapsto> y)\<rparr>"
  have own: "owns l (iv_heap s)" using assms(1) o(1) by (simp add: iv_inv_def)
  then have "owns l ((iv_heap s)(a \<mapsto> y))" using o(3) by (intro owns_update) auto
  moreover have "iv_objects ?s j = ((iv_objects s)(k \<mapsto> y)) j" for j
  proof (cases "points l j a")
    case True
    then have "j = k" using own o(2) by (auto simp: owns_def)
    with True o(1) show ?thesis by (simp add: iv_objects_def points_def)
  next
    case False
    with o(1,2) show ?thesis by (auto simp: iv_objects_def points_def split: option.splits)
  qed
  ultimately show ?thesis
    using o assms(2,3) by (intro that [of ?s]) (auto simp: iv_update_def iv_inv_def)
qed (use assms(2) in simp)

lemma iv_update_fails: "iv_inv s \<Longrightarrow> iv_objects s k = Some x \<Longrightarrow> f x = None \<Longrightarrow> iv_update f k s = None"
  by (rule object_found [of s k]) (simp_all add: iv_update_def)

section \<open>Creation and deletion on the map\<close>

lemma owns_insert:
  assumes "owns l h" "a \<notin> dom h" "Keylist_Data l k = Some None" "map_inv m"
    and "Keylist_Data m = (Keylist_Data l)(k := Some (Some a))"
  shows "owns m (h(a \<mapsto> y))"
proof -
  have new: "\<not> points l j a" for j using assms(1,2) by (auto simp: owns_def)
  have p: "points m j b \<longleftrightarrow> (if j = k then b = a else points l j b)" for j b
    using assms(5) by (auto simp: points_def)
  have old: "\<not> points l k b" for b using assms(3) by (simp add: points_def)
  show ?thesis
  proof (rule ownsI)
    show "\<exists>j. points m j b" if b: "(h(a \<mapsto> y)) b = Some x" for b x
    proof (cases "b = a")
      case False
      then obtain j where "points l j b" using b owns_listed [OF assms(1), of b] by auto
      with old show ?thesis unfolding p by metis
    qed (auto simp: p)
  qed (use assms(4) new owns_unique [OF assms(1)] owns_heap [OF assms(1)] in \<open>auto simp: p split: if_splits\<close>)
qed

lemma owns_remove:
  assumes "owns l h" "points l k a" "map_inv m" "Keylist_Data m = (Keylist_Data l)(k := Some None)"
  shows "owns m (h(a := None))"
proof -
  have p: "points m j b \<longleftrightarrow> j \<noteq> k \<and> points l j b" for j b using assms(4) by (auto simp: points_def)
  show ?thesis
  proof (rule ownsI)
    show "\<exists>j. points m j b" if b: "(h(a := None)) b = Some x" for b x
    proof -
      obtain j where "points l j b" "b \<noteq> a" using b owns_listed [OF assms(1), of b] by (auto split: if_splits)
      moreover have "j \<noteq> k" using calculation assms(2) by (auto simp: points_def)
      ultimately show ?thesis using p by auto
    qed
    show "(h(a := None)) b \<noteq> None" if "points m j b" for j b
      using that owns_heap [OF assms(1), of j b] owns_unique [OF assms(1,2), of j] p by auto
  qed (use assms(3) owns_unique [OF assms(1)] in \<open>auto simp: p\<close>)
qed

lemma key_in_list: "map_inv l \<Longrightarrow> k \<in> set (list_keys l) \<longleftrightarrow> (\<exists>a. points l k a)"
  using keylist_look [of l k] by (auto simp: wp_iff points_def)

text \<open>The instance number an object is created with: the given one, or for the wildcard the first free one.\<close>

definition created_as :: "IV \<Rightarrow> u32 \<Rightarrow> u32" where
  "created_as s inst =
     (if inst = BACNET_MAX_INSTANCE then 1 + of_nat (LEAST n. iv_objects s (1 + of_nat n) = None) else inst)"

lemma first_free:
  assumes "iv_inv s" "iv_list s = Some l" "node_count l < 2 ^ 32"
  shows "Keylist_Next_Empty_Key l 1 = Some (1 + of_nat (LEAST n. iv_objects s (1 + of_nat n) = None))"
    "iv_objects s (1 + of_nat (LEAST n. iv_objects s (1 + of_nat n) = None)) = None"
proof -
  have own: "owns l (iv_heap s)" using assms by (simp add: iv_inv_def)
  have keys: "k \<in> set (list_keys l) \<longleftrightarrow> iv_objects s k \<noteq> None" for k
    using own owned_lookup [OF own, of k] key_in_list [of l k]
    by (auto simp: owns_def iv_objects_def assms(2) points_def split: option.splits)
  obtain n where n: "Keylist_Next_Empty_Key l 1 = Some (1 + of_nat n)"
      "1 + of_nat n \<notin> set (list_keys l)" "\<forall>m < n. 1 + of_nat m \<in> set (list_keys l)"
    using keylist_loops_end [of l 1 "\<lambda>_. True"] own assms(3) by (auto simp: owns_def map_inv_def)
  moreover have "(LEAST n. iv_objects s (1 + of_nat n) = None) = n"
    using n(2,3) keys by (intro Least_equality) (auto simp: not_le [symmetric])
  ultimately show "Keylist_Next_Empty_Key l 1 = Some (1 + of_nat (LEAST n. iv_objects s (1 + of_nat n) = None))"
    "iv_objects s (1 + of_nat (LEAST n. iv_objects s (1 + of_nat n) = None)) = None"
    using keys by simp_all
qed

lemma created:
  assumes "iv_inv s" "iv_list s = Some l" "node_count l < 2 ^ 32" "k \<le> BACNET_MAX_INSTANCE" "iv_heap s a = None"
  obtains s' where "Integer_Value_Create (Some a) True True k s = Some (created_as s k, s')" "iv_inv s'"
    "iv_objects s' = (if iv_objects s (created_as s k) = None then (iv_objects s)(created_as s k \<mapsto> new_object)
      else iv_objects s)" "iv_list s' \<noteq> None"
proof -
  have own: "owns l (iv_heap s)" using assms by (simp add: iv_inv_def)
  let ?k = "created_as s k"
  have inst: "(if k = BACNET_MAX_INSTANCE then Keylist_Next_Empty_Key l 1 else Some k) = Some ?k"
    using first_free(1) [OF assms(1-3)] by (simp add: created_as_def)
  obtain p where p: "Keylist_Data l ?k = Some p" "\<forall>a. p = Some a \<longrightarrow> iv_heap s a \<noteq> None"
    using owned_lookup [OF own] by blast
  show ?thesis
  proof (cases p)
    case None
    then have o: "iv_objects s ?k = None" using p assms(2) by (simp add: iv_objects_def)
    have new: "?k \<notin> set (list_keys l)" using own p(1) None key_in_list [of l ?k] by (simp add: owns_def points_def)
    obtain i m where m: "Keylist_Data_Add True True l ?k (Some a) = Some (i, m)" "map_inv m"
        "Keylist_Data m = (Keylist_Data l)(?k := Some (Some a))" "0 \<le> i"
      using keylist_add [of l ?k a] Keylist_Data_Add_spec [of l True ?k "Some a"] own new
      by (auto simp: owns_def map_inv_def wp_iff)
    let ?s = "s\<lparr>iv_list := Some m, iv_heap := (iv_heap s)(a \<mapsto> new_object)\<rparr>"
    have "owns m ((iv_heap s)(a \<mapsto> new_object))"
      using owns_insert [OF own _ _ m(2,3)] assms(5) p(1) None by auto
    moreover have "iv_objects ?s = (iv_objects s)(?k \<mapsto> new_object)"
    proof
      fix j
      have "\<not> points l j a" using owns_heap [OF own, of j a] assms(5) by auto
      then show "iv_objects ?s j = ((iv_objects s)(?k \<mapsto> new_object)) j"
        using m(3) assms(2) by (auto simp: iv_objects_def points_def split: option.splits)
    qed
    ultimately show ?thesis
      using m(1,4) o p(1) None inst assms(2,4)
      by (intro that [of ?s]; cases "k = BACNET_MAX_INSTANCE") (simp_all add: Integer_Value_Create_def iv_inv_def not_less)
  next
    case (Some b)
    then obtain x where "iv_objects s ?k = Some x" using p assms(2) by (auto simp: iv_objects_def)
    then show ?thesis
      using Some p(1) inst assms(1,2,4)
      by (intro that [of s]; cases "k = BACNET_MAX_INSTANCE") (simp_all add: Integer_Value_Create_def not_less)
  qed
qed

lemma deleted_object:
  assumes "iv_inv s"
  obtains s' where "Integer_Value_Delete mem k s = Some (iv_objects s k \<noteq> None, s')" "iv_inv s'"
    "iv_objects s' = (iv_objects s)(k := None)"
proof (cases "iv_list s")
  case None
  then have "iv_objects s = (iv_objects s)(k := None)" by (simp add: iv_objects_def fun_eq_iff)
  with None assms that [of s] show ?thesis by (simp add: Integer_Value_Delete_def iv_objects_def)
next
  case (Some l)
  then have own: "owns l (iv_heap s)" using assms by (simp add: iv_inv_def)
  then obtain p m where m: "Keylist_Data_Delete mem l k = Some (p, m)" "Keylist_Data l k = Some p" "map_inv m"
      "Keylist_Data m = (Keylist_Data l)(k := Some None)"
    using keylist_del [of l mem k] by (auto simp: owns_def wp_iff)
  show ?thesis
  proof (cases p)
    case None
    let ?s = "s\<lparr>iv_list := Some m\<rparr>"
    have same: "Keylist_Data m = Keylist_Data l" using m(2,4) None by auto
    then have "owns m (iv_heap s)" using own m(3) by (simp add: owns_def points_def)
    moreover have "iv_objects ?s = (iv_objects s)(k := None)" "iv_objects s k = None"
      using same m(2) None Some by (simp_all add: iv_objects_def fun_eq_iff cong: option.case_cong)
    ultimately show ?thesis
      using m(1) None Some by (intro that [of ?s]) (simp_all add: Integer_Value_Delete_def iv_inv_def)
  next
    case (Some a)
    then have pt: "points l k a" using m(2) by (simp add: points_def)
    let ?s = "s\<lparr>iv_list := Some m, iv_heap := (iv_heap s)(a := None)\<rparr>"
    have h: "iv_heap s a \<noteq> None" by (rule owns_heap [OF own pt])
    have "iv_objects ?s = (iv_objects s)(k := None)"
    proof
      fix j
      have "j = k" if "points l j a" by (rule owns_unique [OF own that pt])
      then show "iv_objects ?s j = ((iv_objects s)(k := None)) j"
        using m(4) \<open>iv_list s = Some l\<close> by (auto simp: iv_objects_def points_def split: option.splits)
    qed
    moreover have "iv_objects s k \<noteq> None"
      using h pt \<open>iv_list s = Some l\<close> by (simp add: iv_objects_def points_def)
    ultimately show ?thesis
      using owns_remove [OF own pt m(3,4)] m(1) Some h \<open>iv_list s = Some l\<close>
      by (intro that [of ?s]) (simp_all add: Integer_Value_Delete_def release_def iv_inv_def)
  qed
qed

lemma nothing_owned: "owns l h \<Longrightarrow> node_count l = 0 \<Longrightarrow> h = Map.empty"
proof
  fix a assume "owns l h" "node_count l = 0"
  then have "\<not> points l k a" for k using key_in_list [of l k] by (auto simp: owns_def list_keys_def nodes_def)
  then show "h a = None" using \<open>owns l h\<close> owns_listed by (cases "h a") fast+
qed

lemma cleaned:
  assumes "owns l (iv_heap s)"
  shows "\<exists>m. cleanup_loop mem l s = Some (m, s\<lparr>iv_heap := Map.empty\<rparr>) \<and> keylist_inv m \<and> node_count m = 0"
  using assms
proof (induction "node_count l" arbitrary: l s)
  case 0
  then have "iv_heap s = Map.empty" by (intro nothing_owned) auto
  then have "s\<lparr>iv_heap := Map.empty\<rparr> = s" by simp
  then show ?case
    using 0 by (subst cleanup_loop.simps) (auto simp: Keylist_Data_Pop_def owns_def map_inv_def)
next
  case (Suc n)
  then have inv: "map_inv l" "keylist_inv l" by (auto simp: owns_def map_inv_def)
  have len: "length (nodes l) = Suc n" using inv Suc.hyps(2) by (simp add: keylist_inv_def)
  let ?n = "nodes l ! n"
  have split: "nodes l = take n (nodes l) @ [?n]" using len by (metis lessI take_Suc_conv_app_nth take_all order_refl)
  have "int (node_count l) - 1 = int n" using Suc.hyps(2) by linarith
  then obtain d m where m: "Keylist_Data_Pop (mem (node_count l)) l = Some (d, m)" "keylist_inv m"
      "d = node_data ?n" "nodes m = take n (nodes l)"
    using Keylist_Data_Delete_By_Index_spec [OF inv(2), of "int n" "mem (node_count l)"] Suc.hyps(2) len
    by (auto simp: Keylist_Data_Pop_def wp_iff)
  have "?n \<in> set (nodes l)" using len by simp
  then have "node_data ?n \<in> set (map node_data (nodes l))" by (metis image_eqI set_map)
  then have "d \<noteq> None" using inv(1) m(3) unfolding map_inv_def by metis
  then obtain a where a: "d = Some a" by blast
  have t: "map_inv m" "Keylist_Data m = (Keylist_Data l)(node_key ?n := Some None)"
    using node_taken [OF inv(1) m(2), of "take n (nodes l)" ?n "[]"] split m(4) by simp_all
  have "node_key ?n \<notin> set (list_keys m)" using keylist_look [OF t(1), of "node_key ?n"] t(2) by simp
  then have pt: "points l (node_key ?n) a"
    using node_between(2) [OF t(1) inv(2), of "take n (nodes l)" "[]" ?n a] split m(3,4) a by (simp add: points_def)
  have own: "owns m ((iv_heap s)(a := None))" by (rule owns_remove [OF Suc.prems pt t])
  have "n = node_count m" using m(2,4) len length_nodes [of m] by (simp add: keylist_inv_def)
  from Suc.hyps(1) [OF this, of "s\<lparr>iv_heap := (iv_heap s)(a := None)\<rparr>"] own show ?case
    using m(1) a owns_heap [OF Suc.prems pt] by (subst cleanup_loop.simps) (simp add: release_def)
qed

lemma cleaned_up: "iv_inv s \<Longrightarrow> Integer_Value_Cleanup mem s = Some (s\<lparr>iv_list := None, iv_heap := Map.empty\<rparr>)"
proof (cases "iv_list s")
  case (Some l)
  assume "iv_inv s"
  then obtain m where "cleanup_loop mem l s = Some (m, s\<lparr>iv_heap := Map.empty\<rparr>)" "keylist_inv m"
    using cleaned [of l s mem] Some by (auto simp: iv_inv_def)
  with Some delete_all [of m mem] show ?thesis by (auto simp: Integer_Value_Cleanup_def wp_iff)
qed (simp add: Integer_Value_Cleanup_def iv_inv_def)

lemma initialised:
  assumes "iv_inv s"
  obtains s' where "Integer_Value_Init list_mem array_mem s = Some s'" "iv_inv s'" "iv_objects s' = iv_objects s"
    "list_mem \<Longrightarrow> iv_list s' \<noteq> None"
proof (cases "iv_list s = None \<and> list_mem")
  case True
  define l :: "nat Keylist" where "l = \<lparr>array = replicate (if array_mem then 8 else 0) None, node_count = 0\<rparr>"
  have c: "Keylist_Create list_mem array_mem = Some (Some l)"
    using True by (simp add: l_def Keylist_Create_def CheckArraySize_def chunk_def)
  have e: "Keylist_Data l k = Some None" "map_inv l" for k unfolding l_def by (rule empty_inv)+
  have h: "iv_heap s = Map.empty" using True assms by (simp add: iv_inv_def)
  then have "owns l (iv_heap s)" using e by (simp add: owns_def points_def)
  then show ?thesis
    using True c e by (intro that [of "s\<lparr>iv_list := Some l\<rparr>"])
      (auto simp: Integer_Value_Init_def iv_inv_def iv_objects_def fun_eq_iff)
next
  case False
  then have "Integer_Value_Init list_mem array_mem s = Some s"
    by (cases s) (auto simp: Integer_Value_Init_def Keylist_Create_def)
  with False assms show ?thesis by (intro that [of s]) auto
qed

section \<open>Change of value\<close>

text \<open>The present value is the one last reported, or differs from it by less than the increment.\<close>

definition cov_ok :: "integer_object \<Rightarrow> bool" where
  "cov_ok x \<longleftrightarrow> iv_prior_value x = iv_present_value x \<or>
     \<bar>sint (iv_prior_value x) - sint (iv_present_value x)\<bar> < uint (iv_cov_increment x)"

definition near :: "u32 \<Rightarrow> u32 \<Rightarrow> bool" where
  "near a b \<longleftrightarrow> \<bar>sint a - sint b\<bar> < 2 ^ 31"

lemma near_bounds: "near a b \<longleftrightarrow> - (2 ^ 31) < sint a - sint b \<and> sint a - sint b < 2 ^ 31"
  by (auto simp: near_def)

lemma delta_compare: "near a b \<Longrightarrow> of_int \<bar>sint a - sint b\<bar> \<ge> (i :: u32) \<longleftrightarrow> uint i \<le> \<bar>sint a - sint b\<bar>"
  by (simp add: near_def word_le_def uint_word_of_int_eq take_bit_int_eq_self)

lemma COV_Detect_eq:
  "Integer_Value_COV_Detect v x =
     (if near (iv_prior_value x) v
      then Some (if uint (iv_cov_increment x) \<le> \<bar>sint (iv_prior_value x) - sint v\<bar>
                 then x\<lparr>iv_changed := True, iv_prior_value := v\<rparr> else x)
      else None)"
  using delta_compare [of "iv_prior_value x" v "iv_cov_increment x"]
  by (cases "near (iv_prior_value x) v") (simp_all add: Integer_Value_COV_Detect_def near_bounds Let_def ensure_def)

lemma COV_Detect_ok: "Integer_Value_COV_Detect v x = Some y \<Longrightarrow> cov_ok (y\<lparr>iv_present_value := v\<rparr>)"
  by (auto simp: COV_Detect_eq cov_ok_def split: if_splits)

definition cov_inv :: "IV \<Rightarrow> bool" where
  "cov_inv s \<longleftrightarrow> (\<forall>k x. iv_objects s k = Some x \<longrightarrow> cov_ok x)"

text \<open>One structure changes, by a function that keeps the condition.\<close>

lemma updated:
  assumes "iv_inv s" "cov_inv s" "iv_update f k s = Some (b, s')" "\<And>x y. cov_ok x \<Longrightarrow> f x = Some y \<Longrightarrow> cov_ok y"
  shows "iv_inv s' \<and> cov_inv s'"
proof (cases "iv_objects s k")
  case None
  with assms iv_update_none [of s k f] show ?thesis by auto
next
  case (Some x)
  show ?thesis
  proof (cases "f x")
    case None
    with assms Some iv_update_fails [of s k x f] show ?thesis by auto
  next
    case y: (Some y)
    obtain t where "iv_update f k s = Some (True, t)" "iv_inv t" "iv_objects t = (iv_objects s)(k \<mapsto> y)"
      using iv_update_eq [of s k x f y] assms(1) Some y by metis
    with assms(2-4) Some y show ?thesis by (auto simp: cov_inv_def)
  qed
qed

section \<open>The life of the objects\<close>

text \<open>
  Everything the application and the services do with the objects, as long as memory is available
  for new ones and a structure is allocated where there is none.
\<close>

inductive iv_step :: "IV \<Rightarrow> IV \<Rightarrow> bool" where
  iv_init: "Integer_Value_Init list_mem array_mem s = Some s' \<Longrightarrow> iv_step s s'"
| iv_create: "iv_heap s a = None \<Longrightarrow> (\<And>l. iv_list s = Some l \<Longrightarrow> node_count l < 2 ^ 32) \<Longrightarrow>
    Integer_Value_Create (Some a) True True k s = Some (r, s') \<Longrightarrow> iv_step s s'"
| iv_delete: "Integer_Value_Delete mem k s = Some (b, s') \<Longrightarrow> iv_step s s'"
| iv_cleanup: "Integer_Value_Cleanup mem' s = Some s' \<Longrightarrow> iv_step s s'"
| iv_present_value: "Integer_Value_Present_Value_Set k v s = Some (b, s') \<Longrightarrow> iv_step s s'"
| iv_cov_increment: "Integer_Value_COV_Increment_Set k v s = Some s' \<Longrightarrow> iv_step s s'"
| iv_cov_clear: "Integer_Value_Change_Of_Value_Clear k s = Some s' \<Longrightarrow> iv_step s s'"
| iv_out_of_service: "Integer_Value_Out_Of_Service_Set k b s = Some s' \<Longrightarrow> iv_step s s'"
| iv_units: "Integer_Value_Units_Set k u s = Some (b, s') \<Longrightarrow> iv_step s s'"
| iv_name: "Integer_Value_Name_Set k n s = Some (b, s') \<Longrightarrow> iv_step s s'"
| iv_description: "Integer_Value_Description_Set k n s = Some (b, s') \<Longrightarrow> iv_step s s'"
| iv_write: "Integer_Value_Write_Property d err s = Some (b, err', s') \<Longrightarrow> iv_step s s'"

definition iv_good :: "IV \<Rightarrow> bool" where
  "iv_good s \<longleftrightarrow> iv_inv s \<and> cov_inv s"

lemma good_inv: "iv_good s \<Longrightarrow> iv_inv s" and good_cov: "iv_good s \<Longrightarrow> cov_inv s"
  by (simp_all add: iv_good_def)

lemma plain_update:
  assumes "iv_good s" "iv_update (\<lambda>x. Some (f x)) k s = Some (b, s')" "\<And>x. cov_ok (f x) = cov_ok x"
  shows "iv_good s'"
  using updated [OF good_inv [OF assms(1)] good_cov [OF assms(1)] assms(2)] assms(3) by (auto simp: iv_good_def)

lemma iv_setters_keep:
  assumes "iv_good s"
  shows "Integer_Value_Present_Value_Set k v s = Some (b, s') \<Longrightarrow> iv_good s'"
    "Integer_Value_COV_Increment_Set k v s = Some s' \<Longrightarrow> iv_good s'"
    "Integer_Value_Change_Of_Value_Clear k s = Some s' \<Longrightarrow> iv_good s'"
    "Integer_Value_Out_Of_Service_Set k b s = Some s' \<Longrightarrow> iv_good s'"
    "Integer_Value_Units_Set k u s = Some (b, s') \<Longrightarrow> iv_good s'"
    "Integer_Value_Name_Set k n s = Some (b, s') \<Longrightarrow> iv_good s'"
    "Integer_Value_Description_Set k n s = Some (b, s') \<Longrightarrow> iv_good s'"
proof -
  note u = updated [OF good_inv [OF assms] good_cov [OF assms], folded iv_good_def]
  show "Integer_Value_Present_Value_Set k v s = Some (b, s') \<Longrightarrow> iv_good s'"
    unfolding Integer_Value_Present_Value_Set_def
    by (erule u) (auto simp: COV_Detect_ok split: bind_splits)
  have "cov_ok y" if "Integer_Value_COV_Detect (iv_present_value x) (x\<lparr>iv_cov_increment := v\<rparr>) = Some y" for x y
  proof -
    have "iv_present_value y = iv_present_value x" using that by (auto simp: COV_Detect_eq split: if_splits)
    then have "y\<lparr>iv_present_value := iv_present_value x\<rparr> = y" by simp
    then show ?thesis using COV_Detect_ok [OF that] by simp
  qed
  then show "Integer_Value_COV_Increment_Set k v s = Some s' \<Longrightarrow> iv_good s'"
    unfolding Integer_Value_COV_Increment_Set_def by (auto elim!: u)
next
  have f: "cov_ok (x\<lparr>iv_changed := c\<rparr>) = cov_ok x" "cov_ok (x\<lparr>iv_out_of_service := c\<rparr>) = cov_ok x"
    "cov_ok (x\<lparr>iv_units := u\<rparr>) = cov_ok x" "cov_ok (x\<lparr>iv_name := n\<rparr>) = cov_ok x"
    "cov_ok (x\<lparr>iv_description := n\<rparr>) = cov_ok x" for x c u n
    by (simp_all add: cov_ok_def)
  note p = plain_update [OF assms]
  show "Integer_Value_Change_Of_Value_Clear k s = Some s' \<Longrightarrow> iv_good s'"
    "Integer_Value_Out_Of_Service_Set k b s = Some s' \<Longrightarrow> iv_good s'"
    unfolding Integer_Value_Change_Of_Value_Clear_def Integer_Value_Out_Of_Service_Set_def
    by (clarsimp, erule p, rule f)+
  show "Integer_Value_Units_Set k u s = Some (b, s') \<Longrightarrow> iv_good s'"
    "Integer_Value_Name_Set k n s = Some (b, s') \<Longrightarrow> iv_good s'"
    "Integer_Value_Description_Set k n s = Some (b, s') \<Longrightarrow> iv_good s'"
    unfolding Integer_Value_Units_Set_def Integer_Value_Name_Set_def Integer_Value_Description_Set_def
    by (erule p, rule f)+
qed

lemma calls_keep: "iv_good (s\<lparr>iv_calls := c\<rparr>) = iv_good s"
  by (simp add: iv_good_def iv_inv_def cov_inv_def iv_objects_def cong: option.case_cong)

lemma write_keeps: "iv_good s \<Longrightarrow> Integer_Value_Write_Property d err s = Some (b, err', s') \<Longrightarrow> iv_good s'"
  unfolding Integer_Value_Write_Property_def write_property_type_valid_def
  by (auto simp: Let_def calls_keep Option.bind_eq_Some_conv split: if_splits option.splits
      intro: iv_setters_keep(1,2,4)) (erule iv_setters_keep(1), assumption)

lemma create_keeps:
  assumes "iv_good s" "iv_heap s a = None" "\<And>l. iv_list s = Some l \<Longrightarrow> node_count l < 2 ^ 32"
    "Integer_Value_Create (Some a) True True k s = Some (r, s')"
  shows "iv_good s'"
proof (cases "k \<le> BACNET_MAX_INSTANCE \<and> iv_list s \<noteq> None")
  case True
  then obtain l where l: "iv_list s = Some l" by blast
  obtain t where "Integer_Value_Create (Some a) True True k s = Some (created_as s k, t)" "iv_inv t"
    "iv_objects t = (if iv_objects s (created_as s k) = None then (iv_objects s)(created_as s k \<mapsto> new_object)
      else iv_objects s)"
    using created [OF good_inv [OF assms(1)] l assms(3) [OF l] conjunct1 [OF True] assms(2)] by metis
  moreover have "cov_ok new_object" by (simp add: cov_ok_def new_object_def)
  ultimately show ?thesis using assms(1,4) by (auto simp: iv_good_def cov_inv_def)
next
  case False
  then have "s' = s" using assms(4)
    by (auto simp: Integer_Value_Create_def not_less split: if_splits option.splits bind_splits)
  then show ?thesis using assms(1) by simp
qed

lemma iv_step_keeps: "iv_step s s' \<Longrightarrow> iv_good s \<Longrightarrow> iv_good s'"
proof (induction rule: iv_step.induct)
  case (iv_init list_mem array_mem s s')
  obtain t where "Integer_Value_Init list_mem array_mem s = Some t" "iv_inv t" "iv_objects t = iv_objects s"
    using initialised [OF good_inv [OF iv_init.prems]] by metis
  with iv_init show ?case by (simp add: iv_good_def cov_inv_def)
next
  case (iv_delete mem k s b s')
  obtain t where "Integer_Value_Delete mem k s = Some (iv_objects s k \<noteq> None, t)" "iv_inv t"
      "iv_objects t = (iv_objects s)(k := None)"
    using deleted_object [OF good_inv [OF iv_delete.prems]] by metis
  with iv_delete show ?case by (simp add: iv_good_def cov_inv_def)
next
  case (iv_cleanup mem s s')
  then have "s' = s\<lparr>iv_list := None, iv_heap := Map.empty\<rparr>" using cleaned_up [of s mem] good_inv by simp
  then show ?case by (simp add: iv_good_def iv_inv_def cov_inv_def iv_objects_def)
next
  case (iv_create s a k r s')
  then show ?case by (intro create_keeps [OF iv_create.prems iv_create.hyps]) simp_all
qed (blast intro: iv_setters_keep write_keeps)+

definition iv_start :: IV where
  "iv_start = \<lparr>iv_list = None, iv_heap = Map.empty, iv_callback = None, iv_calls = []\<rparr>"

lemma iv_start_good: "iv_good iv_start"
  by (simp add: iv_start_def iv_good_def iv_inv_def cov_inv_def iv_objects_def)

lemma iv_reachable: "iv_step\<^sup>*\<^sup>* iv_start s \<Longrightarrow> iv_good s"
  by (induction rule: rtranclp_induct) (use iv_start_good iv_step_keeps in blast)+

section \<open>The row of the device\<close>

text \<open>
  \<open>mem\<close> and the flags say whether memory is available for \<^verbatim>\<open>Integer_Value_Create\<close> and
  \<^verbatim>\<open>Integer_Value_Delete\<close>. A name or description is always initialised for an object that exists, so the
  content of the variable it is stored in does not matter. The functions for the change of value are
  not in the table.
\<close>

definition integer_value_functions :: "nat option \<Rightarrow> bool \<Rightarrow> bool \<Rightarrow> bool \<Rightarrow> IV object_functions" where
  "integer_value_functions mem array_mem node_mem shrink_mem =
     \<lparr>Object_Type = OBJECT_INTEGER_VALUE,
      Object_Count = Some Integer_Value_Count,
      Object_Index_To_Instance = Some Integer_Value_Index_To_Instance,
      Object_Valid_Instance = Some Integer_Value_Valid_Instance,
      Object_Name = Some Integer_Value_Object_Name,
      Object_Read_Property = Some (Integer_Value_Read_Property (u_chars empty_union)),
      Object_Write_Property = Some Integer_Value_Write_Property,
      Object_RPM_List = Some Integer_Value_Property_Lists,
      Object_Iterator = None,
      Object_COV = None,
      Object_COV_Clear = None,
      Object_Create = Some (Integer_Value_Create mem array_mem node_mem),
      Object_Delete = Some (Integer_Value_Delete shrink_mem)\<rparr>"

definition iv_keys :: "IV \<Rightarrow> u32 list" where
  "iv_keys s = (case iv_list s of None \<Rightarrow> [] | Some l \<Rightarrow> list_keys l)"

text \<open>An \<^verbatim>\<open>int\<close> counts the nodes of a list.\<close>

definition iv_ready :: "IV \<Rightarrow> bool" where
  "iv_ready s \<longleftrightarrow> iv_good s \<and> (\<forall>l. iv_list s = Some l \<longrightarrow> node_count l < 2 ^ 31)"

lemma iv_keys_objects: "iv_inv s \<Longrightarrow> k \<in> set (iv_keys s) \<longleftrightarrow> iv_objects s k \<noteq> None"
proof (cases "iv_list s")
  case (Some l)
  assume "iv_inv s"
  then have own: "owns l (iv_heap s)" using Some by (simp add: iv_inv_def)
  show ?thesis
    using owned_lookup [OF own, of k] key_in_list [OF owns_map [OF own], of k] Some
    by (auto simp: iv_keys_def iv_objects_def points_def)
qed (simp add: iv_keys_def iv_objects_def)

lemma iv_keys_sorted: "iv_inv s \<Longrightarrow> sorted (iv_keys s) \<and> distinct (iv_keys s)"
  by (auto simp: iv_inv_def iv_keys_def owns_def map_inv_def keylist_inv_def split: option.splits)

lemma iv_enumerates:
  assumes "iv_ready s"
  shows "row_enumerates s (integer_value_functions mem array_mem node_mem shrink_mem) (iv_keys s)"
proof -
  have "Integer_Value_Count s = of_nat (length (iv_keys s)) \<and>
    (\<forall>i < length (iv_keys s). Integer_Value_Index_To_Instance (of_nat i) s = Some (iv_keys s ! i))"
  proof (cases "iv_list s")
    case (Some l)
    then have l: "keylist_inv l" "node_count l < 2 ^ 31"
      using assms by (auto simp: iv_ready_def iv_good_def iv_inv_def owns_def map_inv_def)
    have "Integer_Value_Index_To_Instance (of_nat i) s = Some (iv_keys s ! i)" if "i < node_count l" for i
    proof -
      have "sint (of_nat i :: u32) = int i"
        using that l(2) by (simp add: signed_of_nat signed_take_bit_int_eq_self)
      then show ?thesis
        using index_key [OF l(1) that] Some by (simp add: Integer_Value_Index_To_Instance_def iv_keys_def stored_or_def)
    qed
    then show ?thesis
      using Some length_list_keys [OF l(1)] by (simp add: Integer_Value_Count_def iv_keys_def Keylist_Count_def)
  qed (simp add: iv_keys_def Integer_Value_Count_def)
  then show ?thesis by (simp add: row_enumerates_def integer_value_functions_def)
qed

definition last_functions :: "'s object_functions" where
  "last_functions = \<lparr>Object_Type = MAX_BACNET_OBJECT_TYPE, Object_Count = None, Object_Index_To_Instance = None,
     Object_Valid_Instance = None, Object_Name = None, Object_Read_Property = None, Object_Write_Property = None,
     Object_RPM_List = None, Object_Iterator = None, Object_COV = None, Object_COV_Clear = None,
     Object_Create = None, Object_Delete = None\<rparr>"

lemma init_ansi_wf:
  assumes "wf_charstring c"
  shows "wp (init_ansi c v) (\<lambda>(_, c). wf_charstring c)"
proof -
  have "wp (characterstring_init (Some c) CHARACTER_ANSI_X34 (Some v) (length v))
      (\<lambda>(st, c'). st = (length v \<le> CHARACTER_STRING_CAPACITY) \<and> pred_option wf_charstring c')"
    using assms by (auto simp: characterstring_init_def wf_charstring_def Let_def filled_def CHARACTER_STRING_CAPACITY_def)
  then show ?thesis
    using assms by (auto simp: init_ansi_def characterstring_init_ansi_def wp_iff stored_or_def split: option.splits)
qed

lemma names_wf:
  assumes "iv_inv s" "wf_charstring c"
  shows "wp (Integer_Value_Object_Name k c s) (\<lambda>(_, c). wf_charstring c)"
    "wp (Integer_Value_Description k c s) (\<lambda>(_, c). wf_charstring c)"
  by (rule object_found [OF assms(1), of k];
      simp add: Integer_Value_Object_Name_def Integer_Value_Description_def init_ansi_wf assms(2))+

lemma status_flags_bound:
  "wp (status_flags a b c d) (\<lambda>x. length (encode_application_bitstring x) \<le> 15)"
proof -
  obtain x where x: "status_flags a b c d = Some x" "bits_used x = 4"
    by (simp add: status_flags_def bitstring_set_bit_def bitstring_init_def Let_def MAX_BITSTRING_BYTES_def rd_def)
  then have "bitstring_bytes_used (Some x) = 1" "length (encode_bitstring x) = 2"
    by (simp_all add: bitstring_bytes_used_def encode_bitstring_def bitstring_bits_used_def)
  then show ?thesis
    using tag_bound [of 8 False 2] x(1) by (simp add: encode_application_bitstring_def)
qed

lemma value_bounds:
  "length (encode_application_signed v) \<le> 15" "length (encode_application_boolean b) \<le> 15"
  using tag_bound [of 3 False "of_nat (bacnet_signed_length v)"] tag_bound [of 1 False "if b then 1 else 0"]
  by (auto simp: encode_application_signed_def encode_application_boolean_def encode_bacnet_signed_def
      bacnet_signed_length_def Let_def)

lemma iv_read_fits:
  assumes "iv_inv s" "wf_charstring c0" "1500 < length apdu"
  shows "wp (Integer_Value_Read_Property c0 d apdu err s) (fits (length apdu))"
proof -
  have small: "length e \<le> 15 \<Longrightarrow> wp (answer apdu err e) (fits (length apdu))" for e
    using assms(3) by (intro answer_fits) simp
  have str: "wf_charstring c \<Longrightarrow> wp (answer apdu err (encode_application_character_string c)) (fits (length apdu))" for c
    using assms(3) by (intro answer_fits le_less_trans [OF character_string_bound])
  obtain b1 c1 b2 c2 where n: "Integer_Value_Object_Name (rp_object_instance d) c0 s = Some (b1, c1)" "wf_charstring c1"
      "Integer_Value_Description (rp_object_instance d) c0 s = Some (b2, c2)" "wf_charstring c2"
    using names_wf [OF assms(1,2), of "rp_object_instance d"] by (auto simp: wp_iff)
  have flags: "wp (status_flags a1 a2 a3 a4) (\<lambda>x. wp (answer apdu err (encode_application_bitstring x)) (fits (length apdu)))"
    for a1 a2 a3 a4 by (rule wp_mono [OF status_flags_bound small])
  have "length apdu \<noteq> 0" using assms(3) by auto
  then show ?thesis
    by (simp add: Integer_Value_Read_Property_def Let_def n str small flags object_id_bound enumerated_bound value_bounds
        application_bounds Integer_Value_Present_Value_def Integer_Value_Out_Of_Service_def
        Integer_Value_Units_def Integer_Value_COV_Increment_def iv_get_eq [OF assms(1)] fits_def)
qed

lemma iv_lists:
  "object_lists (Some Integer_Value_Properties_Required) (Some Integer_Value_Properties_Optional)
     (Some Integer_Value_Properties_Proprietary)"
  "object_properties (Some Integer_Value_Properties_Required) (Some Integer_Value_Properties_Optional)
     (Some Integer_Value_Properties_Proprietary) = [85, 111, 117, 81, 28, 22]"
  by (simp_all add: object_lists_def object_properties_def terminated_def names_def element_of_def always_required_def
      Integer_Value_Properties_Required_def Integer_Value_Properties_Optional_def Integer_Value_Properties_Proprietary_def)

lemma update_list: "iv_update f k s = Some (b, s') \<Longrightarrow> iv_list s' = iv_list s"
  by (auto simp: iv_update_def Option.bind_eq_Some_conv split: option.splits)

lemma write_list: "Integer_Value_Write_Property d err s = Some (b, err', s') \<Longrightarrow> iv_list s' = iv_list s"
  by (auto simp: Integer_Value_Write_Property_def write_property_type_valid_def Let_def Option.bind_eq_Some_conv
      Integer_Value_Present_Value_Set_def Integer_Value_COV_Increment_Set_def Integer_Value_Out_Of_Service_Set_def
      dest!: update_list split: if_splits option.splits)

lemma object_bound:
  assumes "15 * length ps < n"
  shows "length (concat (map enc ps)) < n"
proof -
  have "length (concat (map enc ps)) \<le> 15 * length ps"
  proof (induction ps)
    case (Cons p ps)
    then show ?case using application_bounds(2) [of p] by simp
  qed simp
  then show ?thesis using assms by simp
qed

interpretation iv: object_table iv_ready "[integer_value_functions mem array_mem node_mem shrink_mem]" "\<lambda>_. iv_keys"
  for mem array_mem node_mem shrink_mem
proof (unfold_locales, goal_cases)
  case (2 s r)
  then show ?case using iv_enumerates [of s] iv_keys_sorted [of s] by (auto simp: iv_ready_def iv_good_def)
next
  case (3 s r)
  then show ?case
    using valid_instance_eq [of s] iv_keys_objects [of s]
    by (auto simp: integer_value_functions_def iv_ready_def iv_good_def)
next
  case (4 s r f c k)
  then show ?case using names_wf(1) [of s c k] by (auto simp: integer_value_functions_def iv_ready_def iv_good_def)
next
  case (5 s r g apdu d err)
  have "wf_charstring (u_chars empty_union)" by (simp add: empty_union_def wf_charstring_def)
  with 5 show ?case
    using iv_read_fits [of s "u_chars empty_union" apdu d err]
    by (auto simp: integer_value_functions_def iv_ready_def iv_good_def object_room_def)
next
  case (6 r q o1 p)
  then show ?case
    using iv_lists object_bound [of "[85, 111, 117, 81, 28, 22]" object_room]
    by (auto simp: integer_value_functions_def Integer_Value_Property_Lists_def object_room_def)
next
  case (7 s r h w err b err' s')
  then have w: "Integer_Value_Write_Property w err s = Some (b, err', s')" by (simp add: integer_value_functions_def)
  then show ?case using 7(1) write_keeps [OF _ w] write_list [OF w] by (simp add: iv_ready_def)
qed simp

section \<open>Properties\<close>

lemma signed_written:
  "\<exists>n \<ge> 0. bacapp_decode_application_data empty_union (encode_application_signed v) = Some (n, Some (Signed_Int v))"
  "value_tag (encode_application_signed v) = Some 3"
  using numbers_back(2) [of empty_union "[]" v]
  by (auto simp: comes_back_def value_tag_def encode_application_signed_def tag_decode_encode)

text \<open>The present value is written through the property.\<close>

lemma write_present_value:
  assumes "iv_inv s" "iv_objects s k = Some x" "rp_object_instance d = k" "rp_object_property d = 85"
    and "rp_application_data d = encode_application_signed v"
  shows "Integer_Value_Write_Property d err s =
    do { (_, s') \<leftarrow> Integer_Value_Present_Value_Set k v s;
         new \<leftarrow> Integer_Value_Present_Value k s';
         Some (True, err, case iv_callback s' of None \<Rightarrow> s'
           | Some cb \<Rightarrow> s'\<lparr>iv_calls := iv_calls s' @ [(cb, k, iv_present_value x, new)]\<rparr>) }"
  using signed_written [of v] assms(2-) iv_get_eq [OF assms(1), of 0 iv_present_value k]
  by (auto simp: Integer_Value_Write_Property_def write_property_type_valid_def signed_member_def Let_def
      Integer_Value_Present_Value_def)

lemma present_value_set:
  assumes "iv_inv s" "iv_objects s k = Some x" "near (iv_prior_value x) v"
  obtains s' y where "Integer_Value_Present_Value_Set k v s = Some (True, s')" "iv_inv s'"
    "iv_objects s' = (iv_objects s)(k \<mapsto> y)" "iv_present_value y = v" "iv_list s' = iv_list s"
    "iv_callback s' = iv_callback s" "iv_calls s' = iv_calls s"
    "y = (if uint (iv_cov_increment x) \<le> \<bar>sint (iv_prior_value x) - sint v\<bar>
          then x\<lparr>iv_changed := True, iv_prior_value := v, iv_present_value := v\<rparr> else x\<lparr>iv_present_value := v\<rparr>)"
proof -
  define y where "y = (if uint (iv_cov_increment x) \<le> \<bar>sint (iv_prior_value x) - sint v\<bar>
          then x\<lparr>iv_changed := True, iv_prior_value := v, iv_present_value := v\<rparr> else x\<lparr>iv_present_value := v\<rparr>)"
  have "Option.bind (Integer_Value_COV_Detect v x) (\<lambda>x. Some (x\<lparr>iv_present_value := v\<rparr>)) = Some y"
    using assms(3) by (simp add: COV_Detect_eq y_def)
  then show ?thesis
    using iv_update_eq [OF assms(1,2), of "\<lambda>x. Option.bind (Integer_Value_COV_Detect v x) (\<lambda>x. Some (x\<lparr>iv_present_value := v\<rparr>))" y]
      that [of _ y] by (auto simp: Integer_Value_Present_Value_Set_def y_def split: if_splits)
qed

text \<open>A device with one Integer Value object, number 7, as it is after its creation.\<close>

definition one_integer :: IV where
  "one_integer = iv_start\<lparr>
     iv_list := Some \<lparr>array = (replicate 8 None)[0 := Some \<lparr>node_key = 7, node_data = Some 0\<rparr>], node_count = 1\<rparr>,
     iv_heap := [0 \<mapsto> new_object]\<rparr>"

lemma one_integer_reached: "iv_step\<^sup>*\<^sup>* iv_start one_integer"
proof -
  let ?s = "iv_start\<lparr>iv_list := Some \<lparr>array = replicate 8 None, node_count = 0\<rparr>\<rparr>"
  have "iv_step iv_start ?s"
    by (rule iv_step.iv_init [of True True]) (simp add: Integer_Value_Init_def iv_start_def empty_list)
  moreover have "iv_step ?s one_integer"
    by (rule iv_step.iv_create [of _ 0 7 7])
      (simp_all add: Integer_Value_Create_def iv_start_def one_integer_def BACNET_MAX_INSTANCE_def Keylist_Data_def
        Keylist_Data_Add_def CheckArraySize_def chunk_def store_def)
  ultimately show ?thesis by (meson rtranclp.rtrancl_into_rtrancl rtranclp.rtrancl_refl)
qed

lemma one_integer_objects: "iv_objects one_integer = [7 \<mapsto> new_object]"
proof -
  let ?l = "\<lparr>array = (replicate 8 None)[0 := Some \<lparr>node_key = 7, node_data = Some 0\<rparr>], node_count = 1\<rparr> :: nat Keylist"
  have "Keylist_Data ?l k = Some (if k = 7 then Some 0 else None)" for k
    using Keylist_Data_spec [of ?l k] by (simp add: keylist_inv_def list_keys_def entries_def nodes_def take_Suc hd_conv_nth)
  then show ?thesis by (auto simp: one_integer_def iv_objects_def fun_eq_iff)
qed

text \<open>
  C34. The object list of a device is the array of its objects: for a table whose rows count and
  enumerate the instances of their types, element \<open>i\<close> from 1 on is the \<open>i\<close>-th object, type by type, and
  there is no element 0 or past the number of objects.
\<close>

theorem object_list_enumerates:
  assumes "list_all2 (row_enumerates (object_state ob)) rows kss" "\<not> Object_Type last_row < MAX_BACNET_OBJECT_TYPE"
    and "Object_Table ob = rows @ last_row # rest" "length (all_objects rows kss) < 2 ^ 32"
  shows "Device_Object_List_Count ob = Some (of_nat (length (all_objects rows kss))) \<and>
    (\<forall>i. Device_Object_List_Identifier i ob =
       Some (if 0 < i \<and> unat i \<le> length (all_objects rows kss) then Some (all_objects rows kss ! (unat i - 1)) else None))"
proof -
  have "Device_Object_List_Identifier i ob =
      Some (if 0 < i \<and> unat i \<le> length (all_objects rows kss) then Some (all_objects rows kss ! (unat i - 1)) else None)" for i
  proof (cases "i = 0")
    case False
    then have "unat (i - 1) = unat i - 1" "0 < unat i" "0 < i"
      by (simp_all add: unat_minus_one word_neq_0_conv unat_gt_0)
    moreover have "unat i - 1 < 2 ^ 32" using unat_bounds(3) [of i] by simp
    ultimately show ?thesis
      using identifier_enumerated [OF assms(1,2), of 0 "i - 1" rest] assms(3,4) False
      by (auto simp: Device_Object_List_Identifier_def)
  qed (simp add: Device_Object_List_Identifier_def)
  then show ?thesis
    using count_enumerated [OF assms(1,2), of rest 0] assms(3) by (simp add: Device_Object_List_Count_def)
qed

text \<open>The device that has this object.\<close>

definition one_object :: "IV OBJECTS" where
  "one_object = \<lparr>device = \<lparr>Object_Instance_Number = 1, Vendor_Identifier = 260, Database_Revision = 0\<rparr>,
     Object_Table = [integer_value_functions None False False False, last_functions], object_state = one_integer,
     Device_Write_Property_Store_Callback = False, stored_values = []\<rparr>"

lemma one_object_device: "object_device iv_ready [integer_value_functions None False False False] one_object"
  using iv_reachable [OF one_integer_reached]
  by (auto simp: object_device_def one_object_def iv_ready_def one_integer_def last_functions_def)

lemma one_integer_keys: "iv_keys one_integer = [7]"
  by (simp add: iv_keys_def one_integer_def list_keys_def entries_def nodes_def take_Suc hd_conv_nth)

theorem object_list_enumerates_witness:
  "Device_Object_List_Count one_object = Some 1 \<and> Device_Object_List_Identifier 1 one_object = Some (Some (45, 7)) \<and>
   Device_Object_List_Identifier 2 one_object = Some None"
proof -
  have e: "list_all2 (row_enumerates (object_state one_object)) [integer_value_functions None False False False] [[7]]"
    using iv.objects_listed(3) [OF one_object_device] one_integer_keys by (simp add: one_object_def)
  have t: "Object_Table one_object = [integer_value_functions None False False False] @ last_functions # []"
    by (simp add: one_object_def)
  note w = object_list_enumerates [OF e _ t]
  show ?thesis
    using conjunct1 [OF w] conjunct2 [OF w, THEN spec, of 1] conjunct2 [OF w, THEN spec, of 2]
    by (simp add: last_functions_def integer_value_functions_def)
qed

text \<open>
  C33. From the initialisation on, whatever the application and the services do while there is memory
  for new objects, every structure on the
  heap belongs to exactly one object and every object to a structure, so that nothing is leaked and
  no pointer dangles; and the value last reported as changed is the present value or differs from it by
  less than the COV increment.
\<close>

theorem integer_value_invariant:
  assumes "iv_step\<^sup>*\<^sup>* iv_start s"
  shows "(\<forall>a x. iv_heap s a = Some x \<longrightarrow> (\<exists>l. iv_list s = Some l \<and> (\<exists>!k. Keylist_Data l k = Some (Some a)))) \<and>
    (\<forall>k. wp (Integer_Value_Object k s) (\<lambda>p. map_option snd p = iv_objects s k)) \<and>
    (\<forall>k x. iv_objects s k = Some x \<longrightarrow> iv_prior_value x = iv_present_value x \<or>
       \<bar>sint (iv_prior_value x) - sint (iv_present_value x)\<bar> < uint (iv_cov_increment x))"
proof -
  have g: "iv_inv s" "cov_inv s" using iv_reachable [OF assms] by (simp_all add: iv_good_def)
  have "\<exists>l. iv_list s = Some l \<and> (\<exists>!k. Keylist_Data l k = Some (Some a))" if h: "iv_heap s a = Some x" for a x
  proof -
    obtain l where l: "iv_list s = Some l" using g(1) h by (cases "iv_list s") (auto simp: iv_inv_def)
    then have own: "owns l (iv_heap s)" using g(1) by (simp add: iv_inv_def)
    then obtain k where "points l k a" using owns_listed [OF own h] by auto
    then have "\<exists>!k. Keylist_Data l k = Some (Some a)"
      using owns_unique [OF own, of _ a] by (auto simp: points_def)
    then show ?thesis using l by simp
  qed
  moreover have "wp (Integer_Value_Object k s) (\<lambda>p. map_option snd p = iv_objects s k)" for k
    by (rule object_found [OF g(1), of k]) simp_all
  ultimately show ?thesis using g(2) by (auto simp: cov_inv_def cov_ok_def)
qed

theorem integer_value_invariant_witness:
  "(\<exists>!k. Keylist_Data (the (iv_list one_integer)) k = Some (Some 0)) \<and>
   wp (Integer_Value_Object 7 one_integer) (\<lambda>p. map_option snd p = Some new_object)"
proof -
  note w = integer_value_invariant [OF one_integer_reached]
  have "iv_heap one_integer 0 = Some new_object" by (simp add: one_integer_def)
  then have "\<exists>!k. Keylist_Data (the (iv_list one_integer)) k = Some (Some 0)" using conjunct1 [OF w] by force
  moreover have "wp (Integer_Value_Object 7 one_integer) (\<lambda>p. map_option snd p = Some new_object)"
    using conjunct1 [OF conjunct2 [OF w], rule_format, of 7] by (simp add: one_integer_objects)
  ultimately show ?thesis by simp
qed

lemma present_value_far:
  assumes "iv_inv s" "iv_objects s k = Some x" "\<not> near (iv_prior_value x) v"
  shows "Integer_Value_Present_Value_Set k v s = None"
  using assms(3) unfolding Integer_Value_Present_Value_Set_def
  by (intro iv_update_fails [OF assms(1,2)]) (simp add: COV_Detect_eq)

text \<open>
  C32. The Integer Value objects are a finite map from instance numbers: objects are found exactly under
  the numbers of the map; creating one, with its allocations succeeding and fewer than \<open>2 ^ 32\<close> objects
  in the list, adds the new object under its number, or under the first free one for the wildcard, and
  leaves existing objects alone; deleting takes out the one; setting the present value changes the one
  object if the value is less than \<open>2 ^ 31\<close> away from the value last reported, and is undefined
  otherwise, because the difference overflows; and the clean-up empties the map and the heap.
\<close>

theorem integer_values_map:
  assumes "iv_step\<^sup>*\<^sup>* iv_start s"
  shows "(\<forall>k. Integer_Value_Valid_Instance k s = Some (iv_objects s k \<noteq> None)) \<and>
    (\<forall>l k a. iv_list s = Some l \<and> node_count l < 2 ^ 32 \<and> k \<le> BACNET_MAX_INSTANCE \<and> iv_heap s a = None \<longrightarrow>
       wp (Integer_Value_Create (Some a) True True k s) (\<lambda>(r, s'). r = created_as s k \<and>
         iv_objects s' = (if iv_objects s r = None then (iv_objects s)(r \<mapsto> new_object) else iv_objects s))) \<and>
    (\<forall>mem k. wp (Integer_Value_Delete mem k s) (\<lambda>(b, s'). b = (iv_objects s k \<noteq> None) \<and> iv_objects s' = (iv_objects s)(k := None))) \<and>
    (\<forall>k v x. iv_objects s k = Some x \<and> near (iv_prior_value x) v \<longrightarrow>
       wp (Integer_Value_Present_Value_Set k v s) (\<lambda>(b, s'). b \<and>
         (\<exists>y. iv_objects s' = (iv_objects s)(k \<mapsto> y) \<and> iv_present_value y = v) \<and>
         Integer_Value_Present_Value k s' = Some v)) \<and>
    (\<forall>k v x. iv_objects s k = Some x \<and> \<not> near (iv_prior_value x) v \<longrightarrow> Integer_Value_Present_Value_Set k v s = None) \<and>
    (\<forall>mem. wp (Integer_Value_Cleanup mem s) (\<lambda>s'. iv_objects s' = Map.empty \<and> iv_heap s' = Map.empty))"
proof (intro conjI allI impI)
  have g: "iv_inv s" using iv_reachable [OF assms] by (simp add: iv_good_def)
  show "Integer_Value_Valid_Instance k s = Some (iv_objects s k \<noteq> None)" for k by (rule valid_instance_eq [OF g])
  show "wp (Integer_Value_Create (Some a) True True k s) (\<lambda>(r, s'). r = created_as s k \<and>
         iv_objects s' = (if iv_objects s r = None then (iv_objects s)(r \<mapsto> new_object) else iv_objects s))"
    if c: "iv_list s = Some l \<and> node_count l < 2 ^ 32 \<and> k \<le> BACNET_MAX_INSTANCE \<and> iv_heap s a = None" for l k a
  proof -
    obtain s' where "Integer_Value_Create (Some a) True True k s = Some (created_as s k, s')"
        "iv_objects s' = (if iv_objects s (created_as s k) = None then (iv_objects s)(created_as s k \<mapsto> new_object)
          else iv_objects s)"
      using created [OF g, of l k a] c by metis
    then show ?thesis by simp
  qed
  show "wp (Integer_Value_Delete mem k s) (\<lambda>(b, s'). b = (iv_objects s k \<noteq> None) \<and> iv_objects s' = (iv_objects s)(k := None))"
    for mem k
  proof -
    obtain s' where "Integer_Value_Delete mem k s = Some (iv_objects s k \<noteq> None, s')" "iv_objects s' = (iv_objects s)(k := None)"
      using deleted_object [OF g, of mem k] by metis
    then show ?thesis by simp
  qed
  show "wp (Integer_Value_Present_Value_Set k v s) (\<lambda>(b, s'). b \<and>
         (\<exists>y. iv_objects s' = (iv_objects s)(k \<mapsto> y) \<and> iv_present_value y = v) \<and>
         Integer_Value_Present_Value k s' = Some v)" if x: "iv_objects s k = Some x \<and> near (iv_prior_value x) v" for k v x
  proof -
    obtain s' y where "Integer_Value_Present_Value_Set k v s = Some (True, s')" "iv_inv s'"
        "iv_objects s' = (iv_objects s)(k \<mapsto> y)" "iv_present_value y = v"
      using present_value_set [OF g conjunct1 [OF x] conjunct2 [OF x]] by metis
    then show ?thesis by (auto simp: Integer_Value_Present_Value_def iv_get_eq)
  qed
  show "Integer_Value_Present_Value_Set k v s = None" if "iv_objects s k = Some x \<and> \<not> near (iv_prior_value x) v" for k v x
    by (rule present_value_far [OF g conjunct1 [OF that] conjunct2 [OF that]])
  have "iv_objects (s\<lparr>iv_list := None, iv_heap := Map.empty\<rparr>) = Map.empty" by (simp add: iv_objects_def fun_eq_iff)
  then show "wp (Integer_Value_Cleanup mem s) (\<lambda>s'. iv_objects s' = Map.empty \<and> iv_heap s' = Map.empty)" for mem
    using cleaned_up [OF g, of mem] by simp
qed

theorem integer_values_map_witness:
  "Integer_Value_Valid_Instance 7 one_integer = Some True \<and>
   wp (Integer_Value_Present_Value_Set 7 42 one_integer) (\<lambda>(b, s'). b \<and>
     (\<exists>y. iv_objects s' = [7 \<mapsto> y] \<and> iv_present_value y = 42) \<and> Integer_Value_Present_Value 7 s' = Some 42)"
proof -
  note w = integer_values_map [OF one_integer_reached]
  have v: "Integer_Value_Valid_Instance 7 one_integer = Some (iv_objects one_integer 7 \<noteq> None)"
    using conjunct1 [OF w] by (rule allE)
  note p = conjunct1 [OF conjunct2 [OF conjunct2 [OF conjunct2 [OF w]]], rule_format, of 7 new_object 42]
  have "iv_objects one_integer 7 = Some new_object \<and> near (iv_prior_value new_object) 42"
    by (simp add: one_integer_objects near_def new_object_def)
  from p [OF this] show ?thesis using v by (simp add: one_integer_objects)
qed

text \<open>
  C40. A value written to the present value that is \<open>2 ^ 31\<close> or more away from the value last reported
  has no defined result: the difference overflows the type \<^verbatim>\<open>int\<close>. For a new object the least integer is
  such a value.
\<close>

theorem integer_value_overflow:
  assumes "iv_step\<^sup>*\<^sup>* iv_start s" "iv_objects s k = Some x" "2 ^ 31 \<le> \<bar>sint (iv_prior_value x) - sint v\<bar>"
    and "rp_object_instance d = k" "rp_object_property d = 85" "rp_application_data d = encode_application_signed v"
  shows "Integer_Value_Write_Property d err s = None"
proof -
  have g: "iv_inv s" using iv_reachable [OF assms(1)] by (simp add: iv_good_def)
  have "Integer_Value_Present_Value_Set k v s = None"
    using assms(3) by (intro present_value_far [OF g assms(2)]) (simp add: near_def)
  then show ?thesis using write_present_value [OF g assms(2,4-6)] by simp
qed

theorem integer_value_overflow_witness:
  "Integer_Value_Write_Property \<lparr>rp_object_type = 45, rp_object_instance = 7, rp_object_property = 85,
     rp_array_index = BACNET_ARRAY_ALL, rp_application_data = encode_application_signed 0x80000000, wp_priority = 16\<rparr>
     (0, 0) one_integer = None"
  by (rule integer_value_overflow [OF one_integer_reached, where k = 7 and x = new_object and v = "0x80000000"])
    (simp_all add: one_integer_objects new_object_def)

end
