(* ===== verification/Bac_Read.thy ===== *)
theory Bac_Read
  imports Bac_Iv Bac_Server Bac_Tsm_Deliver
begin

text \<open>
  \<^verbatim>\<open>src/bacnet/basic/service/h_rp.c\<close> and \<^verbatim>\<open>src/bacnet/basic/service/h_wp.c\<close>: the handlers of ReadProperty and
  WriteProperty, which work on the objects of the device. Shown here, for a device with Integer Value
  objects: every request is answered and leaves the stack in order, a value that is written is read
  back, and an answer too long for the peer reaches it in segments.
\<close>

section \<open>ReadProperty\<close>

abbreviation (input) OBJECT_NETWORK_PORT :: u32 where "OBJECT_NETWORK_PORT \<equiv> 56"

text \<open>
  The reply to a failed request. \<open>apdu\<close> is what has been encoded so far, which is sent as it is for a
  status that is not one of the three; without it the length of the reply would be negative.
\<close>

definition read_property_failed :: "u8 \<Rightarrow> int \<Rightarrow> err \<Rightarrow> bytes option \<Rightarrow> bytes option" where
  "read_property_failed iid len err apdu =
     (if len = BACNET_STATUS_ABORT
      then Some (abort_encode_apdu iid (of_int (abort_convert_error_code (snd err))) True)
      else if len = BACNET_STATUS_ERROR
      then Some (bacerror_encode_apdu iid SERVICE_CONFIRMED_READ_PROPERTY (fst err) (of_int (snd err)))
      else if len = BACNET_STATUS_REJECT
      then Some (reject_encode_apdu iid (of_int (reject_convert_error_code (snd err))))
      else apdu)"

text \<open>The wildcard instance numbers; \<open>port\<close> is \<^verbatim>\<open>Network_Port_Index_To_Instance(0)\<close>.\<close>

definition local_object ::
  "u32 \<Rightarrow> 's OBJECTS \<Rightarrow> BACNET_READ_PROPERTY_DATA \<Rightarrow> BACNET_READ_PROPERTY_DATA" where
  "local_object port ob d =
     (let d = (if rp_object_type d = OBJECT_DEVICE \<and> rp_object_instance d = BACNET_MAX_INSTANCE
               then d\<lparr>rp_object_instance := Device_Object_Instance_Number (device ob)\<rparr> else d)
      in if rp_object_type d = OBJECT_NETWORK_PORT \<and> rp_object_instance d = BACNET_MAX_INSTANCE
         then d\<lparr>rp_object_instance := port\<rparr> else d)"

text \<open>
  The acknowledgement, built in the rest \<open>buf\<close> of the transmit buffer: the result of reading, the error
  and the APDU. The closing tag is written behind the value without a test of the size.
\<close>

definition read_property_ack ::
  "BACNET_CHARACTER_STRING \<Rightarrow> bytes \<Rightarrow> u8 \<Rightarrow> BACNET_READ_PROPERTY_DATA \<Rightarrow> 's OBJECTS \<Rightarrow> (int \<times> err \<times> bytes) option" where
  "read_property_ack c0 buf iid d ob = do {
     let head = rp_ack_encode_apdu_init iid d;
     ensure (length head \<le> length buf);
     let room = drop (length head) buf;
     (valid, err) \<leftarrow> read_property_bacnet_array_valid d (0, ERROR_CODE_ABORT_SEGMENTATION_NOT_SUPPORTED);
     (len, room, err) \<leftarrow> (if valid then Device_Read_Property c0 d room ob else Some (BACNET_STATUS_ERROR, room, err));
     if len \<ge> 0 then do {
       room \<leftarrow> write_at room (nat len) rp_ack_encode_apdu_object_property_end;
       Some (len, err, head @ take (nat len + length rp_ack_encode_apdu_object_property_end) room) }
     else Some (len, err, head) }"

text \<open>The reply, and whether it is to be sent in segments.\<close>

definition read_property_reply ::
  "BACNET_CHARACTER_STRING \<Rightarrow> u32 \<Rightarrow> bytes \<Rightarrow> bytes \<Rightarrow> BACNET_CONFIRMED_SERVICE_DATA \<Rightarrow> 's OBJECTS
   \<Rightarrow> (bool \<times> bytes) option" where
  "read_property_reply c0 port buf req sd ob = do {
     let iid = invoke_id sd;
     if length req = 0 then do {
       apdu \<leftarrow> read_property_failed iid BACNET_STATUS_REJECT (0, ERROR_CODE_REJECT_MISSING_REQUIRED_PARAMETER) None;
       Some (False, apdu) }
     else do {
       (len, d, code) \<leftarrow> rp_decode_service_request req
         \<lparr>rp_object_type = 0, rp_object_instance = 0, rp_object_property = 0, rp_array_index = 0, rp_application_data = []\<rparr>
         ERROR_CODE_ABORT_SEGMENTATION_NOT_SUPPORTED;
       if len \<le> 0 then do {
         apdu \<leftarrow> read_property_failed iid len (0, code) None;
         Some (False, apdu) }
       else do {
         (len, err, apdu) \<leftarrow> read_property_ack c0 buf iid (local_object port ob d) ob;
         if len < 0 then do {
           apdu \<leftarrow> read_property_failed iid len err (Some apdu);
           Some (False, apdu) }
         else if int (length apdu) > (if max_resp sd < int MAX_APDU then max_resp sd else int MAX_APDU) then
           if segmented_response_accepted sd then Some (True, apdu)
           else do {
             apdu \<leftarrow> read_property_failed iid BACNET_STATUS_ABORT
               (fst err, ERROR_CODE_ABORT_SEGMENTATION_NOT_SUPPORTED) (Some apdu);
             Some (False, apdu) }
         else Some (False, apdu) } } }"

text \<open>
  \<open>buf\<close> is what the transmit buffer holds before; the network header has at least two octets. For a segmented reply the network header is encoded
  again over the one in the buffer, and the service data are taken from behind it.
\<close>

definition handler_read_property ::
  "TSM_ENV \<Rightarrow> BACNET_CHARACTER_STRING \<Rightarrow> u32 \<Rightarrow> bytes \<Rightarrow> 's OBJECTS
   \<Rightarrow> bytes option \<Rightarrow> BACNET_ADDRESS \<Rightarrow> BACNET_CONFIRMED_SERVICE_DATA \<Rightarrow> APDU \<Rightarrow> apdu_result" where
  "handler_read_property env c0 port buf ob req src sd s = do {
     let (npdu, src', _) = npdu_encode_pdu (Some src) (Some (my_address env))
       (npdu_encode_npdu_data False (ucast (service_priority sd)));
     (seg, apdu) \<leftarrow> read_property_reply c0 port (drop (length npdu) buf) (request_bytes req) sd ob;
     if seg then do {
       let n = npdu_encode_npdu_data True MESSAGE_PRIORITY_NORMAL;
       let (npdu', src', _) = npdu_encode_pdu src' (Some (my_address env)) n;
       sent_data \<leftarrow> write_at (npdu @ apdu) 0 npdu';
       pdu \<leftarrow> read_at sent_data (length npdu' + 3) (length apdu - 3);
       lift_tsm (\<lambda>t. do {
         (_, dst, t) \<leftarrow> tsm_set_complexack_transaction env (the src') n
           (apdu_init_fixed_header zero_service_data PDU_TYPE_COMPLEX_ACK (invoke_id sd) SERVICE_CONFIRMED_READ_PROPERTY
              (max_resp sd)) sd pdu t;
         Some (dst, t) }) s }
     else reply env src (service_priority sd) apdu s }"

section \<open>WriteProperty\<close>

definition handler_write_property_relinquish_bypass :: "BACNET_WRITE_PROPERTY_DATA \<Rightarrow> 's OBJECTS \<Rightarrow> bool option" where
  "handler_write_property_relinquish_bypass d ob =
     write_property_relinquish_bypass d (Some (\<lambda>ty inst p. Device_Objects_Property_List_Member ty inst p ob))"

text \<open>
  The reply and the objects afterwards. \<open>d0\<close> and \<open>err0\<close> are the content of the uninitialised variable
  \<^verbatim>\<open>wp_data\<close>, \<open>behind\<close> what lies behind the request, which the decoder reads.
\<close>

definition write_property_reply ::
  "BACNET_CHARACTER_STRING \<Rightarrow> bytes \<Rightarrow> BACNET_WRITE_PROPERTY_DATA \<Rightarrow> err \<Rightarrow> bytes \<Rightarrow> u8 \<Rightarrow> 's OBJECTS
   \<Rightarrow> (bytes \<times> 's OBJECTS) option" where
  "write_property_reply c0 behind d0 err0 req iid ob =
     (if length req = 0
      then Some (reject_encode_apdu iid (of_int REJECT_REASON_MISSING_REQUIRED_PARAMETER), ob)
      else do {
        (len, d) \<leftarrow> wp_decode_service_request behind req d0;
        if len \<le> 0 then Some (abort_encode_apdu iid (of_int ABORT_REASON_OTHER) True, ob)
        else do {
          bypass \<leftarrow> handler_write_property_relinquish_bypass d ob;
          (success, err, ob) \<leftarrow>
            (if bypass then Some (True, err0, ob)
             else do {
               (valid, err) \<leftarrow> write_property_bacnet_array_valid d err0;
               if valid then Device_Write_Property c0 d ob else Some (False, err, ob) });
          Some (if success then encode_simple_ack iid SERVICE_CONFIRMED_WRITE_PROPERTY
                else bacerror_encode_apdu iid SERVICE_CONFIRMED_WRITE_PROPERTY (fst err) (of_int (snd err)), ob) } })"

definition handler_write_property ::
  "TSM_ENV \<Rightarrow> BACNET_CHARACTER_STRING \<Rightarrow> bytes \<Rightarrow> BACNET_WRITE_PROPERTY_DATA \<Rightarrow> err
   \<Rightarrow> bytes option \<Rightarrow> BACNET_ADDRESS \<Rightarrow> BACNET_CONFIRMED_SERVICE_DATA \<Rightarrow> 's OBJECTS \<Rightarrow> APDU
   \<Rightarrow> (BACNET_ADDRESS \<times> 's OBJECTS \<times> APDU) option" where
  "handler_write_property env c0 behind d0 err0 req src sd ob s = do {
     (bs, ob) \<leftarrow> write_property_reply c0 behind d0 err0 (request_bytes req) (invoke_id sd) ob;
     (src, s) \<leftarrow> reply env src (service_priority sd) bs s;
     Some (src, ob, s) }"

text \<open>The tests of written values for objects; the class of the error is set in every case.\<close>

definition WPValidateString :: "u8 \<Rightarrow> app_value option \<Rightarrow> int \<Rightarrow> bool \<Rightarrow> err \<Rightarrow> bool \<times> err" where
  "WPValidateString tag v iMaxLen bEmptyAllowed err =
     (let c = character_string_member v in
      if tag = BACNET_APPLICATION_TAG_CHARACTER_STRING then
        if characterstring_encoding (Some c) = CHARACTER_ANSI_X34 then
          if \<not> bEmptyAllowed \<and> characterstring_length (Some c) = 0 then (False, ERROR_CLASS_PROPERTY, ERROR_CODE_VALUE_OUT_OF_RANGE)
          else if \<not> bEmptyAllowed \<and> \<not> characterstring_printable c then (False, ERROR_CLASS_PROPERTY, ERROR_CODE_VALUE_OUT_OF_RANGE)
          else if characterstring_length (Some c) > unat (of_int iMaxLen :: u16)
          then (False, ERROR_CLASS_RESOURCES, ERROR_CODE_NO_SPACE_TO_WRITE_PROPERTY)
          else (True, ERROR_CLASS_PROPERTY, snd err)
        else (False, ERROR_CLASS_PROPERTY, ERROR_CODE_CHARACTER_SET_NOT_SUPPORTED)
      else (False, ERROR_CLASS_PROPERTY, ERROR_CODE_INVALID_DATA_TYPE))"

definition WPValidateArgType :: "u8 \<Rightarrow> u8 \<Rightarrow> err \<Rightarrow> bool \<times> err" where
  "WPValidateArgType tag ucExpectedTag err =
     (if tag \<noteq> ucExpectedTag then (False, ERROR_CLASS_PROPERTY, ERROR_CODE_INVALID_DATA_TYPE) else (True, err))"

text \<open>They agree with the tests of \<^verbatim>\<open>wp.c\<close> for a string that may not be empty and a limit of 1 to 65535.\<close>

lemma validate_agrees:
  assumes "0 < n" "n < 2 ^ 16"
  shows "fst (WPValidateString tag v (int n) False err) = fst (write_property_string_valid tag v n err')"
    "WPValidateArgType tag expected err = write_property_type_valid tag expected err"
  using assms
  by (simp_all add: WPValidateString_def write_property_string_valid_def WPValidateArgType_def write_property_type_valid_def
      Let_def unat_of_nat)

section \<open>Every request is answered\<close>

lemma array_valid_defined:
  "wp (read_property_bacnet_array_valid d err) (\<lambda>_. True)" "wp (write_property_bacnet_array_valid w err) (\<lambda>_. True)"
proof -
  have "terminated (Some Properties_BACnetARRAY)" by (simp add: terminated_def Properties_BACnetARRAY_def)
  then have "wp (property_list_bacnet_array_member ty p) (\<lambda>_. True)" for ty p
    by (simp add: property_list_bacnet_array_member_def property_list_member_eq)
  then show "wp (read_property_bacnet_array_valid d err) (\<lambda>_. True)" "wp (write_property_bacnet_array_valid w err) (\<lambda>_. True)"
    by (auto simp: read_property_bacnet_array_valid_def write_property_bacnet_array_valid_def elim!: wp_mono)
qed

lemma context_bounds:
  "length (encode_context_object_id n t i) \<le> 11" "length (encode_context_enumerated n v) \<le> 15"
  "length (encode_array_index i) \<le> 15" "length (encode_opening_tag n) \<le> 2" "length (encode_closing_tag 3) = 1"
  using bacnet_unsigned_length_range [of "ucast v"] bacnet_unsigned_length_range [of "ucast i"]
  by (auto simp: encode_context_object_id_def encode_tag_def number_octets_def encode_context_enumerated_def
      encode_bacnet_enumerated_def encode_array_index_def encode_context_unsigned_def encode_opening_tag_def encode_closing_tag_def)

lemma ack_head_bound: "3 \<le> length (rp_ack_encode_apdu_init iid d)" "length (rp_ack_encode_apdu_init iid d) \<le> 50"
  using context_bounds(1) [of 0 "rp_object_type d" "rp_object_instance d"] context_bounds(2) [of 1 "rp_object_property d"]
    context_bounds(3) [of "rp_array_index d"] context_bounds(4) [of 3]
  by (simp_all add: rp_ack_encode_apdu_init_def)

lemma pdu_small: "MAX_PDU < 2 ^ 31"
  by (simp add: MAX_PDU_def MAX_APDU_def MAX_SEGMENTS_ACCEPTED_def MAX_NPDU_def MAX_MAC_LEN_def)

text \<open>Behind the network header there is room for every value.\<close>

lemma room_left:
  assumes "length buf = MAX_PDU"
  shows "object_room + 50 \<le> length (drop (length (fst (npdu_encode_pdu (Some src) (Some a) n))) buf)"
  using length_npdu_encode_pdu [of src a n] assms
  by (simp add: object_room_def MAX_PDU_def MAX_APDU_def MAX_SEGMENTS_ACCEPTED_def)

lemma failed_short:
  "len \<in> {BACNET_STATUS_ERROR, BACNET_STATUS_ABORT, BACNET_STATUS_REJECT} \<Longrightarrow>
   wp (read_property_failed iid len err apdu) (\<lambda>bs. length bs \<le> MAX_APDU)"
  using error_pdu_short [of iid 12 "fst err" "of_int (snd err)"]
  by (auto simp: read_property_failed_def abort_encode_apdu_def reject_encode_apdu_def MAX_APDU_def)

text \<open>The second network header has the length of the first.\<close>

lemma header_again:
  assumes "unat (adr_len src) \<le> MAX_MAC_LEN"
  obtains h h' where "npdu_encode_pdu (Some src) (Some m) (npdu_encode_npdu_data r p) = (h, Some src, snd (snd (npdu_encode_pdu (Some src) (Some m) (npdu_encode_npdu_data r p))))"
    "npdu_encode_pdu (Some src) (Some m) (npdu_encode_npdu_data r' p') = (h', Some src, snd (snd (npdu_encode_pdu (Some src) (Some m) (npdu_encode_npdu_data r' p'))))"
    "length h' = length h"
  using assms
  by (auto simp: npdu_encode_pdu_def npdu_encode_npdu_data_def npdu_message_def clamp_adr_len_def Let_def has_dest_def)

abbreviation (input) read_ack_header :: "BACNET_CONFIRMED_SERVICE_DATA \<Rightarrow> BACNET_APDU_FIXED_HEADER" where
  "read_ack_header sd \<equiv> apdu_init_fixed_header zero_service_data PDU_TYPE_COMPLEX_ACK (invoke_id sd)
     SERVICE_CONFIRMED_READ_PROPERTY (max_resp sd)"

text \<open>What the handler does with the reply.\<close>

lemma reply_sent:
  assumes "read_property_reply c0 port (drop (length (fst (npdu_encode_pdu (Some src) (Some (my_address env))
      (npdu_encode_npdu_data False (ucast (service_priority sd)))))) buf) (request_bytes req) sd ob = Some (seg, apdu)"
    and "unat (adr_len src) \<le> MAX_MAC_LEN" "seg \<longrightarrow> 3 \<le> length apdu"
  shows "handler_read_property env c0 port buf ob req src sd s =
    (if seg then lift_tsm (\<lambda>t. do { (_, dst, t) \<leftarrow> tsm_set_complexack_transaction env src
         (npdu_encode_npdu_data True MESSAGE_PRIORITY_NORMAL) (read_ack_header sd) sd (drop 3 apdu) t; Some (dst, t) }) s
     else reply env src (service_priority sd) apdu s)"
proof -
  obtain h h' x x' where n: "npdu_encode_pdu (Some src) (Some (my_address env)) (npdu_encode_npdu_data False (ucast (service_priority sd)))
        = (h, Some src, x)"
      "npdu_encode_pdu (Some src) (Some (my_address env)) (npdu_encode_npdu_data True MESSAGE_PRIORITY_NORMAL) = (h', Some src, x')"
      "length h' = length h"
    using header_again [OF assms(2)] by metis
  have "write_at (h @ apdu) 0 h' = Some (h' @ apdu)" using n(3) by simp
  then show ?thesis using assms n by (auto simp: handler_read_property_def Let_def)
qed

context object_table
begin

lemma ack_defined:
  assumes "object_device good rows ob" "wf_charstring c0" "object_room + 50 \<le> length buf"
  shows "wp (read_property_ack c0 buf iid d ob) (\<lambda>(len, _, apdu). 3 \<le> length apdu \<and> length apdu \<le> length buf \<and>
    (len < 0 \<longrightarrow> len \<in> {BACNET_STATUS_ERROR, BACNET_STATUS_ABORT, BACNET_STATUS_REJECT}))"
proof -
  let ?h = "rp_ack_encode_apdu_init iid d"
  let ?room = "drop (length ?h) buf"
  have h: "3 \<le> length ?h" "length ?h \<le> length buf" "object_room \<le> length ?room"
    using ack_head_bound [where iid = iid and d = d] assms(3) by (simp_all del: length_drop add: length_drop)
  obtain v err where v: "read_property_bacnet_array_valid d (0, 54) = Some (v, err)"
    using array_valid_defined(1) [of d "(0, 54)"] by (auto simp: wp_iff)
  obtain len room err' where r: "(if v then Device_Read_Property c0 d ?room ob else Some (BACNET_STATUS_ERROR, ?room, err))
      = Some (len, room, err')" "fits (length ?room) (len, room, err')"
    using read_defined [OF assms(1,2) h(3), of d] h by (cases v) (auto simp: wp_iff fits_def)
  then have w: "0 \<le> len \<Longrightarrow> nat len + 1 \<le> length room" "length room = length buf - length ?h"
    by (auto simp: fits_def)
  show ?thesis
  proof (cases "0 \<le> len")
    case True
    then have "wp (write_at room (nat len) rp_ack_encode_apdu_object_property_end) (\<lambda>b. length b = length room)"
      using w(1) by (simp add: write_at_def rp_ack_encode_apdu_object_property_end_def context_bounds(5))
    then obtain room' where "write_at room (nat len) rp_ack_encode_apdu_object_property_end = Some room'" "length room' = length room"
      by (auto simp: wp_iff)
    moreover have "length ?h + (nat len + 1) \<le> length buf" using w True h(2) by linarith
    ultimately show ?thesis
      using True h(1,2) v r(1) by (simp add: read_property_ack_def Let_def rp_ack_encode_apdu_object_property_end_def context_bounds(5))
  next
    case False
    then show ?thesis using h v r by (auto simp: read_property_ack_def Let_def fits_def)
  qed
qed

lemma read_reply_defined:
  assumes "object_device good rows ob" "wf_charstring c0" "object_room + 50 \<le> length buf"
  shows "wp (read_property_reply c0 port buf req sd ob) (\<lambda>(seg, apdu).
    if seg then 3 \<le> length apdu \<and> length apdu \<le> length buf
    else length apdu \<le> MAX_APDU)"
proof -
  let ?d0 = "\<lparr>rp_object_type = 0, rp_object_instance = 0, rp_object_property = 0, rp_array_index = 0, rp_application_data = []\<rparr>"
  obtain n d e where d: "rp_decode_service_request req ?d0 54 = Some (n, d, e)" "n \<le> 0 \<longrightarrow> n = BACNET_STATUS_REJECT"
    using rp_decode_defined [of req ?d0 54] by (auto simp: wp_iff)
  obtain len err apdu where a: "read_property_ack c0 buf (invoke_id sd) (local_object port ob d) ob = Some (len, err, apdu)"
      "3 \<le> length apdu" "length apdu \<le> length buf"
      "len < 0 \<longrightarrow> len \<in> {BACNET_STATUS_ERROR, BACNET_STATUS_ABORT, BACNET_STATUS_REJECT}"
    using ack_defined [OF assms, of "invoke_id sd" "local_object port ob d"] by (auto simp: wp_iff)
  note f = failed_short [THEN wp_mono]
  show ?thesis
    using d a by (auto simp: read_property_reply_def Let_def intro!: f)
qed

lemma read_handled:
  assumes "object_device good rows ob" "wf_charstring c0" "length buf = MAX_PDU" "apdu_inv s"
    and peer: "peer_ok src" and req: "request_ok sd"
  shows "kept (handler_read_property env c0 port buf ob req src sd s)"
proof -
  let ?h = "fst (npdu_encode_pdu (Some src) (Some (my_address env)) (npdu_encode_npdu_data False (ucast (service_priority sd))))"
  have l: "object_room + 50 \<le> length (drop (length ?h) buf)" by (rule room_left [OF assms(3)])
  obtain seg apdu where a: "read_property_reply c0 port (drop (length ?h) buf) (request_bytes req) sd ob = Some (seg, apdu)"
      "seg \<longrightarrow> 3 \<le> length apdu \<and> length apdu \<le> MAX_PDU" "\<not> seg \<longrightarrow> length apdu \<le> MAX_APDU"
    using read_reply_defined [OF assms(1,2) l, of port "request_bytes req" sd] assms(3) by (auto simp: wp_iff split: if_splits)
  have "response_args_ok src (read_ack_header sd) sd (drop 3 apdu)" if seg
    using that a(2) peer req pdu_small
    by (auto simp: response_args_ok_def apdu_init_fixed_header_def peer_ok_def request_ok_def)
  then show ?thesis
    using a(3) assms(4) reply_sent [OF a(1)] peer
    by (auto simp: peer_ok_def a(2) reply_kept intro!: lift_tsm_keeps complexack_defined [THEN wp_mono])
qed

end

section \<open>The answer to a request\<close>

text \<open>The octets a property is read as, whatever the buffer holds.\<close>

definition property_value :: "BACNET_CHARACTER_STRING \<Rightarrow> 's OBJECTS \<Rightarrow> BACNET_READ_PROPERTY_DATA \<Rightarrow> bytes \<Rightarrow> bool" where
  "property_value c0 ob d e \<longleftrightarrow> length e < object_room \<and>
     (\<forall>room. object_room \<le> length room \<longrightarrow>
        (\<exists>err. Device_Read_Property c0 d room ob = Some (int (length e), e @ drop (length e) room, err)))"

text \<open>A request for a property, not with a wildcard, and with an index only for an array.\<close>

definition readable_request :: "BACNET_READ_PROPERTY_DATA \<Rightarrow> bool" where
  "readable_request d \<longleftrightarrow> wf_reference d \<and> rp_object_property d \<le> MAX_BACNET_PROPERTY_ID \<and>
     (rp_object_type d \<in> {OBJECT_DEVICE, OBJECT_NETWORK_PORT} \<longrightarrow> rp_object_instance d \<noteq> BACNET_MAX_INSTANCE) \<and>
     (rp_array_index d \<noteq> BACNET_ARRAY_ALL \<longrightarrow>
        property_list_bacnet_array_member (rp_object_type d) (rp_object_property d) = Some True)"

lemma readable_valid:
  assumes "readable_request d"
  shows "read_property_bacnet_array_valid d err = Some (True, err)"
  using assms array_valid_defined(1) [of d err]
  by (cases "property_list_bacnet_array_member (rp_object_type d) (rp_object_property d)")
    (auto simp: read_property_bacnet_array_valid_def readable_request_def)

lemma request_decoded:
  assumes "readable_request d"
  shows "rp_decode_service_request (read_property_request_encode d) d0 code =
    Some (int (length (read_property_request_encode d)), d\<lparr>rp_application_data := rp_application_data d0\<rparr>, code)"
    "0 < length (read_property_request_encode d)"
proof -
  have d: "wf_reference d" "rp_object_property d \<le> MAX_BACNET_PROPERTY_ID" "rp_object_type d \<le> BACNET_MAX_OBJECT"
    using assms by (auto simp: readable_request_def wf_reference_def)
  then show "rp_decode_service_request (read_property_request_encode d) d0 code =
    Some (int (length (read_property_request_encode d)), d\<lparr>rp_application_data := rp_application_data d0\<rparr>, code)"
    using reference_roundtrip [OF d(1), of "[]"]
    by (simp add: rp_decode_service_request_def encodings_by_parts read_data_equality Let_def)
  show "0 < length (read_property_request_encode d)"
    using d by (simp add: encodings_by_parts reference_def encode_context_object_id_def)
qed

lemma ack_parts:
  "rp_ack_encode_apdu iid d = [PDU_TYPE_COMPLEX_ACK, iid, SERVICE_CONFIRMED_READ_PROPERTY] @ read_property_ack_encode d"
  "rp_ack_encode_apdu_init iid (d\<lparr>rp_application_data := x\<rparr>) = rp_ack_encode_apdu_init iid d"
  by (simp_all add: rp_ack_encode_apdu_def rp_ack_encode_apdu_init_def read_property_ack_encode_def)

lemma ack_received:
  assumes "wf_reference d" "wf_value_list es" "rp_application_data d = values_of es" "length (values_of es) \<le> MAX_APDU"
  shows "rp_ack_decode_service_request (read_property_ack_encode d) d0 = Some (int (length (read_property_ack_encode d)), d)"
  using rp_ack_decoded [OF assms(1-3), of "[]" d0] assms(4) by simp

lemma ack_value:
  assumes "readable_request d" "property_value c0 ob d e" "object_room + 50 \<le> length buf"
  shows "\<exists>err. read_property_ack c0 buf iid d ob = Some (int (length e), err, rp_ack_encode_apdu iid (d\<lparr>rp_application_data := e\<rparr>))"
proof -
  let ?h = "rp_ack_encode_apdu_init iid d"
  let ?room = "drop (length ?h) buf"
  have h: "length ?h \<le> length buf" "object_room \<le> length ?room"
    using ack_head_bound(2) [where iid = iid and d = d] assms(3) by (simp_all del: length_drop add: length_drop)
  obtain err where r: "Device_Read_Property c0 d ?room ob = Some (int (length e), e @ drop (length e) ?room, err)"
    using conjunct2 [OF assms(2) [unfolded property_value_def], rule_format, OF h(2)] by blast
  have l: "length e < length ?room" using assms(2) h(2) by (simp add: property_value_def)
  have "write_at (e @ drop (length e) ?room) (length e) rp_ack_encode_apdu_object_property_end =
      Some (e @ rp_ack_encode_apdu_object_property_end @ drop (length e + 1) ?room)"
    using l by (simp add: rp_ack_encode_apdu_object_property_end_def context_bounds(5) write_at_def)
  then have "read_property_ack c0 buf iid d ob = Some (int (length e), err, ?h @ e @ rp_ack_encode_apdu_object_property_end)"
    using h(1) r readable_valid [OF assms(1)] by (simp add: read_property_ack_def Let_def)
  then show ?thesis
    by (simp add: rp_ack_encode_apdu_def ack_parts(2) rp_ack_encode_apdu_object_property_end_def)
qed

lemma read_replied:
  fixes sd :: BACNET_CONFIRMED_SERVICE_DATA
  assumes "readable_request d" "property_value c0 ob (d\<lparr>rp_application_data := []\<rparr>) (rp_application_data d)"
    and "object_room + 50 \<le> length buf"
  defines "apdu \<equiv> rp_ack_encode_apdu (invoke_id sd) d"
  shows "read_property_reply c0 port buf (read_property_request_encode d) sd ob =
    (if int (length apdu) \<le> min (max_resp sd) (int MAX_APDU) then Some (False, apdu)
     else if segmented_response_accepted sd then Some (True, apdu)
     else Some (False, abort_encode_apdu (invoke_id sd) (of_int ABORT_REASON_SEGMENTATION_NOT_SUPPORTED) True))"
proof -
  let ?d = "d\<lparr>rp_application_data := []\<rparr>"
  have r: "readable_request ?d" using assms(1) by (simp add: readable_request_def wf_reference_def)
  have "local_object port ob ?d = ?d"
    using assms(1) by (auto simp: local_object_def readable_request_def Let_def)
  moreover obtain err where "read_property_ack c0 buf (invoke_id sd) ?d ob = Some (int (length (rp_application_data d)), err, apdu)"
    using ack_value [OF r assms(2,3), of "invoke_id sd"] by (auto simp: apdu_def)
  moreover note request_decoded [OF assms(1)]
  ultimately show ?thesis
    by (auto simp: read_property_reply_def Let_def read_property_failed_def abort_convert_error_code_def min_def)
qed

section \<open>Integer Value objects\<close>

abbreviation iv_rows :: "nat option \<Rightarrow> bool \<Rightarrow> bool \<Rightarrow> bool \<Rightarrow> IV object_functions list" where
  "iv_rows mem array_mem node_mem shrink_mem \<equiv> [integer_value_functions mem array_mem node_mem shrink_mem]"

lemma iv_row:
  assumes "object_device iv_ready (iv_rows m a n h) ob" "iv_objects (object_state ob) k = Some x"
  shows "Device_Objects_Find_Functions 45 ob = Some (Some (integer_value_functions m a n h))"
    "valid_object (Some (integer_value_functions m a n h)) k (object_state ob) = Some True" "iv_inv (object_state ob)"
proof -
  have i: "iv_inv (object_state ob)" using assms(1) by (simp add: object_device_def iv_ready_def iv_good_def)
  then show "iv_inv (object_state ob)" .
  show "Device_Objects_Find_Functions 45 ob = Some (Some (integer_value_functions m a n h))"
    by (simp add: iv.row_found [OF assms(1)] integer_value_functions_def)
  show "valid_object (Some (integer_value_functions m a n h)) k (object_state ob) = Some True"
    using valid_instance_eq [OF i, of k] assms(2) by (simp add: valid_object_def call_def integer_value_functions_def)
qed

lemma present_value_read:
  assumes "object_device iv_ready (iv_rows m a n h) ob" "iv_objects (object_state ob) k = Some x"
    and "rp_object_type d = 45" "rp_object_instance d = k" "rp_object_property d = 85"
  shows "property_value c0 ob d (encode_application_signed (iv_present_value x))"
proof -
  have b: "length (encode_application_signed v) \<le> 15" for v using value_bounds by auto
  have "Device_Read_Property c0 d room ob = Some (int (length (encode_application_signed (iv_present_value x))),
      encode_application_signed (iv_present_value x) @ drop (length (encode_application_signed (iv_present_value x))) room,
      ERROR_CLASS_OBJECT, ERROR_CODE_UNKNOWN_OBJECT)" if "object_room \<le> length room" for room
  proof -
    have "15 \<le> length room" using that by (simp add: object_room_def)
    then have l: "length (encode_application_signed v) \<le> length room" "room \<noteq> []" for v
      using order_trans [OF b] by auto
    show ?thesis
      using assms(2-) l iv_row [OF assms(1,2)] iv_get_eq [OF iv_row(3) [OF assms(1,2)], of 0 iv_present_value k]
      by (simp add: Device_Read_Property_def Let_def Read_Property_Common_def property_list_common_def call_def
          integer_value_functions_def Integer_Value_Read_Property_def Integer_Value_Present_Value_def answer_def put_def)
  qed
  then show ?thesis using b [of "iv_present_value x"] by (auto simp: property_value_def object_room_def)
qed

lemma name_read:
  assumes "object_device iv_ready (iv_rows m a n h) ob" "iv_objects (object_state ob) k = Some x" "iv_name x = Some cs"
    and "length cs \<le> CHARACTER_STRING_CAPACITY" "rp_object_type d = 45" "rp_object_instance d = k" "rp_object_property d = 77"
  shows "property_value c0 ob d (encode_tag 7 False (of_nat (1 + length cs)) @ 0 # cs)"
proof -
  let ?e = "encode_tag 7 False (of_nat (1 + length cs)) @ 0 # cs"
  have l: "length ?e < object_room"
    using tag_bound [of 7 False "of_nat (1 + length cs)"] assms(4)
    by (simp add: object_room_def CHARACTER_STRING_CAPACITY_def MAX_CHARACTER_STRING_BYTES_def MAX_APDU_def)
  obtain p where "Integer_Value_Object k (object_state ob) = Some (Some (p, x))"
    using assms(2) by (auto intro: object_found [OF iv_row(3) [OF assms(1,2)], of k])
  then have n: "\<exists>c'. Integer_Value_Object_Name k c (object_state ob) = Some (True, c') \<and>
      encode_application_character_string c' = ?e" for c
    using assms(3,4)
    by (simp add: Integer_Value_Object_Name_def init_ansi_def characterstring_init_ansi_def characterstring_init_def filled_def
        Let_def stored_or_def encode_application_character_string_def encode_bacnet_character_string_def
        characterstring_length_def characterstring_encoding_def)
  have "\<exists>err. Device_Read_Property c0 d room ob = Some (int (length ?e), ?e @ drop (length ?e) room, err)"
    if "object_room \<le> length room" for room
  proof -
    let ?c = "c0\<lparr>char_length := 0, encoding := 0, char_value := replicate MAX_CHARACTER_STRING_BYTES 0\<rparr>"
    obtain c' where "Integer_Value_Object_Name k ?c (object_state ob) = Some (True, c')" "encode_application_character_string c' = ?e"
      using n [of ?c] by auto
    moreover have "length ?e \<le> length room" "room \<noteq> []" using that l by auto
    ultimately show ?thesis
      using assms(5-7) iv_row [OF assms(1,2)]
      by (simp add: Device_Read_Property_def Let_def Read_Property_Common_def property_list_common_def call_def empty_name
          stored_or_def integer_value_functions_def answer_def put_def)
  qed
  then show ?thesis using l unfolding property_value_def by blast
qed

text \<open>The encoding of a signed integer is one element, and not Null.\<close>

lemma signed_element:
  "wf_value_list [Primitive 3 (of_nat (bacnet_signed_length v)) (encode_bacnet_signed v)]"
  "values_of [Primitive 3 (of_nat (bacnet_signed_length v)) (encode_bacnet_signed v)] = encode_application_signed v"
  using bacnet_signed_length_bounds [of v] value_bounds(1) [of v] context_bounds(4) [of 3]
  by (auto simp: wf_value_list_def encode_application_signed_def INT_MAX_def bacnet_application_data_length_def
      context_bounds(5) encode_bacnet_signed_def bacnet_signed_length_def Let_def)

lemma signed_not_null: "bacnet_null_application_decode (encode_application_signed v) = Some (0, None)"
  using tag_decode_encode
  by (simp add: bacnet_null_application_decode_def tagged_decode_def encode_application_signed_def application_tag_def)

lemma present_value_written:
  assumes ob: "object_device iv_ready (iv_rows m a n h) ob" "iv_objects (object_state ob) k = Some x" "near (iv_prior_value x) v"
    and w: "rp_object_type w = 45" "rp_object_instance w = k" "rp_object_property w = 85" "rp_array_index w = BACNET_ARRAY_ALL"
      "rp_application_data w = encode_application_signed v" "wp_priority w \<le> 16" "k \<le> BACNET_MAX_INSTANCE"
  obtains ob' y where "write_property_reply c0 behind d0 err0 (writeproperty_apdu_encode w) iid ob =
      Some (encode_simple_ack iid SERVICE_CONFIRMED_WRITE_PROPERTY, ob')"
    "object_device iv_ready (iv_rows m a n h) ob'" "iv_objects (object_state ob') = (iv_objects (object_state ob))(k \<mapsto> y)"
    "iv_present_value y = v"
proof -
  define w' where "w' = (if wp_priority w = 0 then w\<lparr>wp_priority := 16\<rparr> else w)"
  have w': "rp_object_type w' = 45" "rp_object_instance w' = k" "rp_object_property w' = 85" "rp_array_index w' = BACNET_ARRAY_ALL"
      "rp_application_data w' = encode_application_signed v"
    using w by (simp_all add: w'_def)
  have f: "wf_reference w" "length (encode_application_signed v) \<le> MAX_APDU"
    using w value_bounds(1) [of v] by (simp_all add: wf_reference_def BACNET_MAX_OBJECT_def MAX_APDU_def)
  have d: "wp_decode_service_request behind (writeproperty_apdu_encode w) d0 = Some (int (length (writeproperty_apdu_encode w)), w')"
    using write_decoded [OF f(1) signed_element(1) [of v] _ _ w(6), of behind d0] f(2) w(5)
    unfolding signed_element(2) w'_def by simp
  have b: "handler_write_property_relinquish_bypass w' ob = Some False"
    by (simp add: handler_write_property_relinquish_bypass_def write_property_relinquish_bypass_def w' signed_not_null)
  have v: "write_property_bacnet_array_valid w' err0 = Some (True, err0)"
    using array_valid_defined(2) [of w' err0] w'(4) by (auto simp: write_property_bacnet_array_valid_def wp_iff Option.bind_eq_Some_conv)
  obtain s' y where s': "Integer_Value_Present_Value_Set k v (object_state ob) = Some (True, s')" "iv_inv s'"
      "iv_objects s' = (iv_objects (object_state ob))(k \<mapsto> y)" "iv_present_value y = v"
    using present_value_set [OF iv_row(3) [OF ob(1,2)] ob(2,3)] by metis
  have g: "Integer_Value_Present_Value k s' = Some v"
    using s' by (simp add: Integer_Value_Present_Value_def iv_get_eq)
  define s'' where "s'' = (case iv_callback s' of None \<Rightarrow> s'
           | Some cb \<Rightarrow> s'\<lparr>iv_calls := iv_calls s' @ [(cb, k, iv_present_value x, v)]\<rparr>)"
  have "Integer_Value_Write_Property w' err (object_state ob) = Some (True, err, s'')" for err
    using write_present_value [OF iv_row(3) [OF ob(1,2)] ob(2) w'(2,3,5)] s'(1) g by (simp add: s''_def)
  then have dw: "Device_Write_Property c0 w' ob =
      Some (True, (ERROR_CLASS_OBJECT, ERROR_CODE_UNKNOWN_OBJECT), Device_Write_Property_Store w' (ob\<lparr>object_state := s''\<rparr>))"
    using iv_row [OF ob(1,2)] w' by (simp add: Device_Write_Property_def Let_def lift_objects_def integer_value_functions_def)
  have "iv_objects s'' = iv_objects s'" by (simp add: s''_def iv_objects_def fun_eq_iff split: option.splits)
  moreover have "object_state (Device_Write_Property_Store w' (ob\<lparr>object_state := s''\<rparr>)) = s''"
    by (simp add: Device_Write_Property_Store_def)
  moreover have "0 < length (writeproperty_apdu_encode w)" by (simp add: encodings_by_parts)
  ultimately show ?thesis
    using that [of "Device_Write_Property_Store w' (ob\<lparr>object_state := s''\<rparr>)" y] d b v dw s'(3,4)
      iv.device_write_kept [OF ob(1) dw] by (simp add: write_property_reply_def)
qed

abbreviation present_value_data :: "u32 \<Rightarrow> u32 \<Rightarrow> BACNET_READ_PROPERTY_DATA" where
  "present_value_data k v \<equiv> \<lparr>rp_object_type = OBJECT_INTEGER_VALUE, rp_object_instance = k, rp_object_property = PROP_PRESENT_VALUE,
     rp_array_index = BACNET_ARRAY_ALL, rp_application_data = encode_application_signed v\<rparr>"

abbreviation present_value_write :: "u32 \<Rightarrow> u32 \<Rightarrow> u8 \<Rightarrow> BACNET_WRITE_PROPERTY_DATA" where
  "present_value_write k v prio \<equiv> \<lparr>rp_object_type = OBJECT_INTEGER_VALUE, rp_object_instance = k,
     rp_object_property = PROP_PRESENT_VALUE, rp_array_index = BACNET_ARRAY_ALL,
     rp_application_data = encode_application_signed v, wp_priority = prio\<rparr>"

lemma present_value_ack_short: "length (rp_ack_encode_apdu iid (present_value_data k v)) \<le> 50"
  using value_bounds(1) [of v]
  by (simp add: rp_ack_encode_apdu_def rp_ack_encode_apdu_init_def encode_context_object_id_def encode_context_enumerated_def
      encode_bacnet_enumerated_def bacnet_unsigned_length_def encode_array_index_def encode_opening_tag_def
      encode_closing_tag_def encode_tag_def number_octets_def)

text \<open>The reply to a request for the present value.\<close>

lemma present_value_answered:
  assumes "object_device iv_ready (iv_rows m a n h) ob" "iv_objects (object_state ob) k = Some y" "iv_present_value y = v"
    and "readable_request (present_value_data k v)" "length buf = MAX_PDU" "peer_ok src" "50 \<le> max_resp sd"
  shows "handler_read_property env c0 port buf ob (Some (read_property_request_encode (present_value_data k v))) src sd s =
    Some (src, s\<lparr>tsm := log_sent [reply_pdu env src (service_priority sd)
      (rp_ack_encode_apdu (invoke_id sd) (present_value_data k v))] (tsm s)\<rparr>)"
proof -
  let ?d = "present_value_data k v"
  let ?h = "fst (npdu_encode_pdu (Some src) (Some (my_address env)) (npdu_encode_npdu_data False (ucast (service_priority sd))))"
  have "property_value c0 ob (?d\<lparr>rp_application_data := []\<rparr>) (rp_application_data ?d)"
    using present_value_read [OF assms(1,2), of "?d\<lparr>rp_application_data := []\<rparr>" c0] assms(3) by simp
  moreover have short: "int (length (rp_ack_encode_apdu (invoke_id sd) ?d)) \<le> min (max_resp sd) (int MAX_APDU)"
    using present_value_ack_short [of "invoke_id sd" k v] assms(7) by (simp add: MAX_APDU_def)
  ultimately have "read_property_reply c0 port (drop (length ?h) buf) (request_bytes (Some (read_property_request_encode ?d))) sd ob =
      Some (False, rp_ack_encode_apdu (invoke_id sd) ?d)"
    using read_replied [OF assms(4) _ room_left [OF assms(5)], where port = port and sd = sd] by (simp add: request_bytes_def)
  from reply_sent [OF this, of s] show ?thesis using short assms(6) by (simp add: reply_eq peer_ok_def wire_address_short)
qed

lemma request_short: "4 + length (read_property_request_encode d) \<le> MAX_APDU"
  using context_bounds(1) [of 0 "rp_object_type d" "rp_object_instance d"] context_bounds(2) [of 1 "rp_object_property d"]
    context_bounds(3) [of "rp_array_index d"]
  by (simp add: read_property_request_encode_def MAX_APDU_def)

section \<open>Properties\<close>

text \<open>
  A server with the handlers for DeviceCommunicationControl and, as number 2, ReadProperty. Reading does
  not change the objects.
\<close>

definition object_env ::
  "TSM_ENV \<Rightarrow> BACNET_CHARACTER_STRING \<Rightarrow> BACNET_CHARACTER_STRING \<Rightarrow> u32 \<Rightarrow> bytes \<Rightarrow> 's OBJECTS \<Rightarrow> APDU_ENV" where
  "object_env env p0 c0 port buf ob = (server_env env p0)\<lparr>call_confirmed :=
     (\<lambda>f. if f = 2 then handler_read_property env c0 port buf ob else call_confirmed (server_env env p0) f)\<rparr>"

lemma object_env_handlers:
  assumes "object_device iv_ready (iv_rows m a n h) ob" "wf_charstring c0" "length buf = MAX_PDU"
  shows "service_handlers (object_env env p0 c0 port buf ob)"
  by unfold_locales
    (auto simp: object_env_def server_env_def unrecognized_kept dcc_kept intro!: iv.read_handled [OF assms(1-3)])

text \<open>An unsegmented request of a client reaches the handler that is registered for its service.\<close>

lemma enabled_dispatched:
  assumes "no_transaction src iid s" "4 + length body \<le> MAX_APDU" "body \<noteq> []"
    and "unat choice < MAX_BACNET_CONFIRMED_SERVICE" "Confirmed_Function s ! unat choice = Some f"
    and "dcc_communication_enabled (dcc s)"
  shows "apdu_handler env src (Some ([0, cap, iid, choice] @ body)) s =
    call_confirmed env f (Some body) src (plain_request (apdu_network_priority (tsm s)) cap iid) s"
proof -
  have "\<not> apdu_confirmed_dcc_disabled choice (dcc s)"
    using assms(6) by (simp add: apdu_confirmed_dcc_disabled_def dcc_communication_enabled_def dcc_communication_disabled_def
        dcc_communication_initiation_disabled_def)
  then show ?thesis
    unfolding plain_request_dispatched [OF assms(1,2)] using assms(3-5)
    by (simp add: invoke_confirmed_service_service_request_def invoke_def)
qed

lemma read_dispatched:
  assumes "readable_request d" "no_transaction src iid s" "Confirmed_Function s ! 12 = Some 2" "dcc_communication_enabled (dcc s)"
  shows "apdu_handler env src (Some (rp_encode_apdu iid d)) s =
    call_confirmed env 2 (Some (read_property_request_encode d)) src
      (plain_request (apdu_network_priority (tsm s)) (encode_max_segs_max_apdu 0 (int MAX_APDU)) iid) s"
proof -
  have pdu: "rp_encode_apdu iid d = [0, encode_max_segs_max_apdu 0 (int MAX_APDU), iid, 12] @ read_property_request_encode d"
    by (simp add: rp_encode_apdu_def)
  show ?thesis
    unfolding pdu using assms(3) request_decoded(2) [OF assms(1)]
    by (intro enabled_dispatched [OF assms(2) request_short _ _ _ assms(4)]) (simp_all add: MAX_BACNET_CONFIRMED_SERVICE_def)
qed

interpretation reader: service_handlers "object_env quiet_env p0 no_password port (replicate MAX_PDU 0) one_object" for p0 port
  by (rule object_env_handlers [OF one_object_device]) (simp_all add: no_password_def wf_charstring_def)

text \<open>
  C6. Every network PDU, however malformed, to a server that answers ReadProperty requests for its
  Integer Value objects is handled without undefined behaviour and leaves the stack in order, whether a
  request is answered with the value, in segments, or with an Error, Reject or Abort, and whether or
  not the buffer of the answer can be allocated. Two kinds of PDU are excepted: a network layer message
  whose header the decoder refuses, and a segment of a request when allocations may fail.
\<close>

theorem read_requests_handled:
  assumes "object_device iv_ready (iv_rows m a n h) ob" "wf_charstring c0" "length buf = MAX_PDU"
    and "apdu_inv (apdu_state s)" "peer_ok src" "\<not> refused_network_message src pdu"
    and "carries_segment src pdu \<longrightarrow> memory_available env"
  shows "wp (npdu_handler (object_env env p0 c0 port buf ob) src pdu s) (\<lambda>(_, s'). apdu_inv (apdu_state s'))"
  using service_handlers.network_kept [OF object_env_handlers [OF assms(1-3)] assms(4-6)] assms(7)
  by (simp add: object_env_def server_env_def)

theorem read_requests_handled_witness:
  "wp (npdu_handler (object_env (quiet_env\<lparr>calloc_ok := \<lambda>_. False\<rparr>) no_password no_password 1 (replicate MAX_PDU 0) one_object)
       zero_address [1, 4, 0, 5, 1, 12, 0x0C, 0x0B, 0x40, 0, 7, 0x19, 85]
       \<lparr>apdu_state = apdu_set_confirmed_handler 12 (Some 2) (server_start 2 2), Local_Network_Number = 0, Local_Network_Number_Status = 0\<rparr>)
     (\<lambda>(_, s'). apdu_inv (apdu_state s'))"
proof -
  have "\<not> refused_network_message zero_address [1, 4, 0, 5, 1, 12, 0x0C, 0x0B, 0x40, 0, 7, 0x19, 85]"
      "\<not> carries_segment zero_address [1, 4, 0, 5, 1, 12, 0x0C, 0x0B, 0x40, 0, 7, 0x19, 85]"
    by code_simp+
  then show ?thesis
    by (intro read_requests_handled [OF one_object_device])
      (simp_all add: server_start_inv setters_keep peer_ok_def zero_address_def wf_address_def no_password_def wf_charstring_def)
qed

text \<open>
  The same server with the handler for WriteProperty as number 3. A handler that is called by the
  dispatch returns the state of the stack; the objects are those of the model of the handler, which are
  the argument \<open>ob\<close> before the call. \<open>behind\<close>, \<open>d0\<close> and \<open>err0\<close> are what it finds in uninitialised memory.
\<close>

definition write_env ::
  "TSM_ENV \<Rightarrow> BACNET_CHARACTER_STRING \<Rightarrow> BACNET_CHARACTER_STRING \<Rightarrow> u32 \<Rightarrow> bytes \<Rightarrow> bytes \<Rightarrow> BACNET_WRITE_PROPERTY_DATA \<Rightarrow> err
   \<Rightarrow> 's OBJECTS \<Rightarrow> APDU_ENV" where
  "write_env env p0 c0 port buf behind d0 err0 ob = (object_env env p0 c0 port buf ob)\<lparr>call_confirmed :=
     (\<lambda>f. if f = 3 then (\<lambda>req src sd s. do {
              (src, _, s) \<leftarrow> handler_write_property env c0 behind d0 err0 req src sd ob s;
              Some (src, s) })
          else call_confirmed (object_env env p0 c0 port buf ob) f)\<rparr>"

lemma write_env_calls:
  "call_confirmed (write_env env p0 c0 port buf behind d0 err0 ob) 2 = handler_read_property env c0 port buf ob"
  "call_confirmed (write_env env p0 c0 port buf behind d0 err0 ob) 3 = (\<lambda>req src sd s. do {
     (src, _, s) \<leftarrow> handler_write_property env c0 behind d0 err0 req src sd ob s; Some (src, s) })"
  by (simp_all add: write_env_def object_env_def)

lemma write_short: "4 + length (writeproperty_apdu_encode (present_value_write k v prio)) \<le> MAX_APDU"
proof -
  have "length (encode_context_unsigned 4 (ucast prio)) \<le> 15"
    using bacnet_unsigned_length_range [of "ucast prio"] by (auto simp: encode_context_unsigned_def encode_tag_def number_octets_def)
  then show ?thesis
    using context_bounds(1) [of 0 45 k] context_bounds(2) [of 1 85] context_bounds(3) [of BACNET_ARRAY_ALL]
      context_bounds(4) [of 3] context_bounds(5) value_bounds(1) [of v]
    by (simp add: writeproperty_apdu_encode_def MAX_APDU_def)
qed

text \<open>
  C7. A client writes the present value of an Integer Value object and reads it back, both by PDUs that
  are given to the dispatch one after the other: the two replies are a simple acknowledgement and an
  acknowledgement from which the client decodes the value. The objects between the two are those the
  handler leaves for the request that the dispatch gives it.

  The object exists, the value is less than \<open>2 ^ 31\<close> away from the value the object last reported as
  changed (the difference overflows otherwise, which is undefined), the priority is one of the standard or
  left out, communication is enabled, the two handlers are registered and the client has no transaction
  under the invoke identifiers of its requests.
\<close>

theorem written_value_read:
  assumes "object_device iv_ready (iv_rows m a n h) ob" "iv_objects (object_state ob) k = Some x"
    and "near (iv_prior_value x) v" "k \<le> BACNET_MAX_INSTANCE" "prio \<le> 16" "length buf = MAX_PDU" "peer_ok src"
    and "Confirmed_Function s ! 12 = Some 2" "Confirmed_Function s ! 15 = Some 3" "dcc_communication_enabled (dcc s)"
    and "no_transaction src wid s" "no_transaction src rid s"
  shows "\<exists>ob' s' s''.
    apdu_handler (write_env env p0 c0 port buf behind d0 err0 ob) src
      (Some (wp_encode_apdu wid (present_value_write k v prio))) s = Some (src, s') \<and>
    handler_write_property env c0 behind d0 err0 (Some (writeproperty_apdu_encode (present_value_write k v prio))) src
      (plain_request (apdu_network_priority (tsm s)) (encode_max_segs_max_apdu 0 (int MAX_APDU)) wid) ob s =
        Some (src, ob', s') \<and>
    apdu_handler (write_env env p0 c0 port buf behind d0 err0 ob') src
      (Some (rp_encode_apdu rid (present_value_data k v))) s' = Some (src, s'') \<and>
    sent (tsm s'') = sent (tsm s) @
      [reply_pdu env src (apdu_network_priority (tsm s)) (encode_simple_ack wid SERVICE_CONFIRMED_WRITE_PROPERTY),
       reply_pdu env src (apdu_network_priority (tsm s)) (rp_ack_encode_apdu rid (present_value_data k v))] \<and>
    rp_ack_decode_service_request (drop 3 (rp_ack_encode_apdu rid (present_value_data k v))) d1 =
      Some (int (length (read_property_ack_encode (present_value_data k v))), present_value_data k v)"
proof -
  let ?d = "present_value_data k v" and ?w = "present_value_write k v prio" and ?p = "apdu_network_priority (tsm s)"
  let ?cap = "encode_max_segs_max_apdu 0 (int MAX_APDU)" and ?e = "write_env env p0 c0 port buf behind d0 err0"
  let ?req = "\<lambda>i. plain_request ?p ?cap i"
  have q: "invoke_id (?req i) = i" "service_priority (?req i) = ?p" "50 \<le> max_resp (?req i)" for i
    by (simp_all add: plain_request_def decode_max_apdu_encode MAX_APDU_def)
  obtain ob' y where w: "write_property_reply c0 behind d0 err0 (writeproperty_apdu_encode ?w) wid ob =
      Some (encode_simple_ack wid SERVICE_CONFIRMED_WRITE_PROPERTY, ob')"
      "object_device iv_ready (iv_rows m a n h) ob'" "iv_objects (object_state ob') = (iv_objects (object_state ob))(k \<mapsto> y)"
      "iv_present_value y = v"
    by (rule present_value_written [OF assms(1-3), where w = ?w]) (auto simp: assms(4,5))
  then have y: "iv_objects (object_state ob') k = Some y" by simp
  define s' where "s' = s\<lparr>tsm := log_sent [reply_pdu env src ?p (encode_simple_ack wid 15)] (tsm s)\<rparr>"
  have hw: "handler_write_property env c0 behind d0 err0 (Some (writeproperty_apdu_encode ?w)) src (?req wid) ob s = Some (src, ob', s')"
  proof -
    have "length (encode_simple_ack wid 15) \<le> MAX_APDU" by (simp add: encode_simple_ack_def MAX_APDU_def)
    then show ?thesis using w(1) assms(7) by (simp add: handler_write_property_def request_bytes_def reply_eq s'_def q)
  qed
  have aw: "apdu_handler (?e ob) src (Some (wp_encode_apdu wid ?w)) s = Some (src, s')"
  proof -
    have pdu: "wp_encode_apdu wid ?w = [0, ?cap, wid, 15] @ writeproperty_apdu_encode ?w" by (simp add: wp_encode_apdu_def)
    have "writeproperty_apdu_encode ?w \<noteq> []" by (simp add: encodings_by_parts encode_closing_tag_def)
    then have "apdu_handler (?e ob) src (Some ([0, ?cap, wid, 15] @ writeproperty_apdu_encode ?w)) s =
        call_confirmed (?e ob) 3 (Some (writeproperty_apdu_encode ?w)) src (?req wid) s"
      using assms(9) by (intro enabled_dispatched [OF assms(11) write_short _ _ _ assms(10)]) (simp_all add: MAX_BACNET_CONFIRMED_SERVICE_def)
    then show ?thesis unfolding pdu by (simp add: write_env_calls hw)
  qed
  have r: "readable_request ?d" using assms(4)
    by (simp add: readable_request_def wf_reference_def BACNET_MAX_OBJECT_def MAX_BACNET_PROPERTY_ID_def)
  have s': "no_transaction src rid s'" "Confirmed_Function s' ! 12 = Some 2" "dcc_communication_enabled (dcc s')"
      "sent (tsm s') = sent (tsm s) @ [reply_pdu env src ?p (encode_simple_ack wid 15)]" "apdu_network_priority (tsm s') = ?p"
    using assms(8,10,12) by (simp_all add: no_transaction_def s'_def apdu_network_priority_def log_sent_def)
  have hr: "handler_read_property env c0 port buf ob' (Some (read_property_request_encode ?d)) src (?req rid) s' =
      Some (src, s'\<lparr>tsm := log_sent [reply_pdu env src ?p (rp_ack_encode_apdu rid ?d)] (tsm s')\<rparr>)"
    using present_value_answered [OF w(2) y w(4) r assms(6,7) q(3)] by (simp add: q)
  have "apdu_handler (?e ob') src (Some (rp_encode_apdu rid ?d)) s' =
      Some (src, s'\<lparr>tsm := log_sent [reply_pdu env src ?p (rp_ack_encode_apdu rid ?d)] (tsm s')\<rparr>)"
    unfolding read_dispatched [OF r s'(1-3)] write_env_calls s'(5) by (rule hr)
  moreover have "rp_ack_decode_service_request (drop 3 (rp_ack_encode_apdu rid ?d)) d1 =
      Some (int (length (read_property_ack_encode ?d)), ?d)"
    using order_trans [OF value_bounds(1), of MAX_APDU v] r ack_parts(1) [of rid ?d]
      ack_received [OF _ signed_element(1) [of v], unfolded signed_element(2), of ?d d1]
    by (simp add: readable_request_def MAX_APDU_def)
  ultimately show ?thesis using hw aw s'(4) by simp
qed

text \<open>A server with both handlers and the object of the examples.\<close>

definition read_write_start :: APDU where
  "read_write_start = apdu_set_confirmed_handler 15 (Some 3) (apdu_set_confirmed_handler 12 (Some 2) (server_start 2 2))"

theorem written_value_read_witness:
  "\<exists>ob' s' s''.
    apdu_handler (write_env quiet_env no_password no_password 1 (replicate MAX_PDU 0) [] sample_write (0, 0) one_object) zero_address
      (Some (wp_encode_apdu 1 (present_value_write 7 42 8))) read_write_start = Some (zero_address, s') \<and>
    handler_write_property quiet_env no_password [] sample_write (0, 0)
      (Some (writeproperty_apdu_encode (present_value_write 7 42 8))) zero_address
      (plain_request (apdu_network_priority (tsm read_write_start)) (encode_max_segs_max_apdu 0 (int MAX_APDU)) 1) one_object
      read_write_start = Some (zero_address, ob', s') \<and>
    apdu_handler (write_env quiet_env no_password no_password 1 (replicate MAX_PDU 0) [] sample_write (0, 0) ob') zero_address
      (Some (rp_encode_apdu 2 (present_value_data 7 42))) s' = Some (zero_address, s'') \<and>
    rp_ack_decode_service_request (drop 3 (rp_ack_encode_apdu 2 (present_value_data 7 42))) sample_reference =
      Some (int (length (read_property_ack_encode (present_value_data 7 42))), present_value_data 7 42)"
proof -
  have ob: "iv_objects (object_state one_object) 7 = Some new_object" "near (iv_prior_value new_object) 42"
    by (simp_all add: one_object_def one_integer_objects near_def new_object_def)
  have s: "Confirmed_Function read_write_start ! 12 = Some 2" "Confirmed_Function read_write_start ! 15 = Some 3"
      "dcc_communication_enabled (dcc read_write_start)" "tsm read_write_start = tsm (server_start 2 2)"
    by (simp_all add: read_write_start_def apdu_set_confirmed_handler_def server_start_def
        apdu_set_unrecognized_service_handler_handler_def MAX_BACNET_CONFIRMED_SERVICE_def dcc_communication_enabled_def)
  then have free: "no_transaction zero_address i read_write_start" for i
    using fresh_table_room [of 2 2 "tsm_start 2 2"] by (simp add: no_transaction_def)
  have "7 \<le> BACNET_MAX_INSTANCE" "8 \<le> (16 :: u8)" "length (replicate MAX_PDU 0 :: bytes) = MAX_PDU" "peer_ok zero_address"
    by (simp_all add: BACNET_MAX_INSTANCE_def zero_address_def peer_ok_def wf_address_def)
  from written_value_read [OF one_object_device ob this s(1-3) free [of 1] free [of 2],
      of quiet_env no_password no_password 1 "[]" sample_write "(0, 0)" sample_reference]
  show ?thesis by blast
qed

text \<open>
  C5. A value too long for one APDU of the peer reaches a peer that accepts segments: the handler takes
  a transaction and sends the first segment, and as the peer acknowledges its windows the others
  follow, in order, and the transaction is released. From their concatenation the client decodes the
  property and its value if that has at most \<open>MAX_APDU\<close> octets; the decoder refuses a longer value.

  The acknowledgement fits the segments the peer accepts, a transaction and a peer entry are free, the
  buffer can be allocated and the data link takes every PDU.
\<close>

theorem long_value_delivered:
  assumes "tsm_step\<^sup>*\<^sup>* (tsm_start t p) (tsm s)" "t \<le> 255" "memory_available env" "\<And>a np p. 0 < datalink_send_pdu env a np p"
    and "wf_address src" "unat (adr_len src) \<le> MAX_MAC_LEN" "max_resp sd \<in> {50, 128, 206, 480, 1024, 1476}"
    and "segmented_response_accepted sd" "0 < free_slots (tsm s)" "\<exists>q \<in> set (TSM_Peer_Ids (tsm s)). InternalInvokeID q = 0"
    and "no_transaction src (invoke_id sd) s" "length buf = MAX_PDU" "readable_request d"
    and "wf_value_list es" "rp_application_data d = values_of es"
    and "property_value c0 ob (d\<lparr>rp_application_data := []\<rparr>) (rp_application_data d)"
    and "max_resp sd < int (length (rp_ack_encode_apdu (invoke_id sd) d))" "0 < w"
    and "length (read_property_ack_encode d) + 5 * segments_needed (max_resp sd) (length (read_property_ack_encode d))
      \<le> response_limit sd"
  shows "\<exists>s1 s2. handler_read_property env c0 port buf ob (Some (read_property_request_encode d)) src sd s = Some (src, s\<lparr>tsm := s1\<rparr>) \<and>
    ack_run env src (invoke_id sd) w
      (ack_points (unat w) (segments_needed (max_resp sd) (length (read_property_ack_encode d))) 0) s1 = Some s2 \<and>
    sent s2 = sent (tsm s) @ map (wire_segment env src (npdu_encode_npdu_data True MESSAGE_PRIORITY_NORMAL) (read_ack_header sd) sd
      (read_property_ack_encode d)) [0..<segments_needed (max_resp sd) (length (read_property_ack_encode d))] \<and>
    held_ids s2 = held_ids (tsm s) \<and>
    rp_ack_decode_service_request (concat (pieces (nat (max_resp sd) - 5) (read_property_ack_encode d))) d0 =
      Some (if length (rp_application_data d) \<le> MAX_APDU then (int (length (read_property_ack_encode d)), d)
            else (BACNET_STATUS_ERROR, d\<lparr>rp_application_data := rp_application_data d0\<rparr>))"
proof -
  let ?pdu = "read_property_ack_encode d" and ?n = "segments_needed (max_resp sd) (length (read_property_ack_encode d))"
  let ?np = "npdu_encode_npdu_data True MESSAGE_PRIORITY_NORMAL"
  let ?h = "fst (npdu_encode_pdu (Some src) (Some (my_address env)) (npdu_encode_npdu_data False (ucast (service_priority sd))))"
  have m: "max_resp sd \<noteq> 0" "max_resp sd < int (length ?pdu) + 3" "5 < nat (max_resp sd)"
    using assms(7,17) by (auto simp: ack_parts(1))
  have l: "object_room + 50 \<le> length (drop (length ?h) buf)" by (rule room_left [OF assms(12)])
  have "read_property_reply c0 port (drop (length ?h) buf) (request_bytes (Some (read_property_request_encode d))) sd ob =
      Some (True, rp_ack_encode_apdu (invoke_id sd) d)"
    using read_replied [OF assms(13,16) l, of port sd] assms(8,17) by (simp add: request_bytes_def)
  from reply_sent [OF this assms(6)]
  have h: "handler_read_property env c0 port buf ob (Some (read_property_request_encode d)) src sd s =
      lift_tsm (\<lambda>t. do { (_, dst, t) \<leftarrow> tsm_set_complexack_transaction env src ?np (read_ack_header sd) sd ?pdu t; Some (dst, t) }) s"
    by (simp add: ack_parts(1))
  have "length ?pdu < 2 ^ 31"
    using assms(16) context_bounds(1) [of 0 "rp_object_type d" "rp_object_instance d"] context_bounds(2) [of 1 "rp_object_property d"]
      context_bounds(3) [of "rp_array_index d"] context_bounds(4) [of 3] context_bounds(5)
    by (simp add: read_property_ack_encode_def property_value_def object_room_def)
  then have "response_args_ok src (read_ack_header sd) sd ?pdu"
    using assms(5-7) by (auto simp: response_args_ok_def apdu_init_fixed_header_def)
  then obtain r s1 index iid where s1: "tsm_set_complexack_transaction env src ?np (read_ack_header sd) sd ?pdu (tsm s) = Some (r, src, s1)"
      "delivering env s1 src (invoke_id sd) index iid ?n 0 1 (wire_segment env src ?np (read_ack_header sd) sd ?pdu)"
      "sent s1 = sent (tsm s) @ [wire_segment env src ?np (read_ack_header sd) sd ?pdu 0]" "iid \<notin> held_ids (tsm s)"
      "held_ids s1 = insert iid (held_ids (tsm s))"
    using response_starts [OF tsm_reachable_inv [OF assms(1,2)] _ assms(3,9,10) assms(11) [unfolded no_transaction_def] m(1,2) assms(19,4), of "read_ack_header sd" ?np]
    by metis
  have n: "0 < ?n" by (simp add: segments_needed_def)
  obtain s2 where "ack_run env src (invoke_id sd) w (ack_points (unat w) ?n 0) s1 = Some s2"
      "sent s2 = sent s1 @ map (wire_segment env src ?np (read_ack_header sd) sd ?pdu) [1..<?n]" "held_ids s2 = held_ids s1 - {iid}"
    using ack_run_delivers [OF s1(2) _ _ n assms(18)] by auto
  moreover have "map f [0..<?n] = f 0 # map f [1..<?n]" for f :: "nat \<Rightarrow> sent_pdu" using n by (simp add: upt_conv_Cons)
  moreover have "concat (pieces (nat (max_resp sd) - 5) ?pdu) = ?pdu" using m(3) by (simp add: concat_pieces)
  moreover have "rp_ack_decode_service_request ?pdu d0 =
      Some (if length (rp_application_data d) \<le> MAX_APDU then (int (length ?pdu), d)
            else (BACNET_STATUS_ERROR, d\<lparr>rp_application_data := rp_application_data d0\<rparr>))"
    using rp_ack_decoded [OF _ assms(14,15), of "[]" d0] assms(13,15) by (simp add: readable_request_def)
  ultimately show ?thesis using h s1 by (auto simp: lift_tsm_def)
qed

text \<open>A device with an Integer Value object whose name has 60 characters.\<close>

definition named_object :: "IV OBJECTS" where
  "named_object = one_object\<lparr>object_state := one_integer\<lparr>iv_heap := [0 \<mapsto> new_object\<lparr>iv_name := Some (replicate 60 65)\<rparr>]\<rparr>\<rparr>"

definition name_data :: BACNET_READ_PROPERTY_DATA where
  "name_data = \<lparr>rp_object_type = OBJECT_INTEGER_VALUE, rp_object_instance = 7, rp_object_property = 77,
     rp_array_index = BACNET_ARRAY_ALL, rp_application_data = encode_tag 7 False 61 @ 0 # replicate 60 65\<rparr>"

lemma named_object_ready:
  "object_device iv_ready (iv_rows None False False False) named_object"
  "\<exists>x. iv_objects (object_state named_object) 7 = Some x \<and> iv_name x = Some (replicate 60 65)"
proof -
  let ?s = "one_integer\<lparr>iv_heap := [0 \<mapsto> new_object\<lparr>iv_name := Some (replicate 60 65)\<rparr>]\<rparr>"
  have i: "iv_inv one_integer" using iv_reachable [OF one_integer_reached] by (simp add: iv_good_def)
  obtain a where "Integer_Value_Object 7 one_integer = Some (Some (a, new_object))" "iv_heap one_integer a = Some new_object"
    using one_integer_objects by (auto intro: object_found [OF i, of 7])
  then have u: "Integer_Value_Name_Set 7 (Some (replicate 60 65)) one_integer = Some (True, ?s)"
    by (auto simp: Integer_Value_Name_Set_def iv_update_def one_integer_def split: if_splits)
  have g: "iv_good ?s"
    by (rule iv_reachable [OF rtranclp.rtrancl_into_rtrancl [OF one_integer_reached iv_step.iv_name [OF u]]])
  then have "iv_ready ?s" by (simp add: iv_ready_def) (simp add: one_integer_def)
  then show "object_device iv_ready (iv_rows None False False False) named_object"
    by (auto simp: object_device_def one_object_def named_object_def last_functions_def)
  have "iv_objects one_integer 7 = Some new_object" by (simp add: one_integer_objects)
  from i this obtain s' where s': "iv_update (\<lambda>x. Some (x\<lparr>iv_name := Some (replicate 60 65)\<rparr>)) 7 one_integer = Some (True, s')"
      "iv_objects s' = (iv_objects one_integer)(7 \<mapsto> new_object\<lparr>iv_name := Some (replicate 60 65)\<rparr>)"
    by (rule iv_update_eq) simp_all
  then have "s' = ?s" using u unfolding Integer_Value_Name_Set_def by (metis option.inject prod.inject)
  with s'(2) have "iv_objects ?s 7 = Some (new_object\<lparr>iv_name := Some (replicate 60 65)\<rparr>)" by simp
  then show "\<exists>x. iv_objects (object_state named_object) 7 = Some x \<and> iv_name x = Some (replicate 60 65)"
    by (simp add: named_object_def)
qed

lemma name_data_ready:
  "readable_request name_data" "wf_value_list [Primitive 7 61 (0 # replicate 60 65)]"
  "rp_application_data name_data = values_of [Primitive 7 61 (0 # replicate 60 65)]"
  "length (read_property_ack_encode name_data) = 72"
  by (simp_all add: name_data_def readable_request_def wf_reference_def wf_value_list_def BACNET_MAX_OBJECT_def
      BACNET_MAX_INSTANCE_def MAX_BACNET_PROPERTY_ID_def INT_MAX_def bacnet_application_data_length_def encode_tag_def
      number_octets_def encode_opening_tag_def encode_closing_tag_def read_property_ack_encode_def encode_context_object_id_def
      encode_context_enumerated_def encode_bacnet_enumerated_def bacnet_unsigned_length_def encode_array_index_def)

theorem long_value_delivered_witness:
  "\<exists>s1 s2. handler_read_property accepting_env no_password 1 (replicate MAX_PDU 0) named_object
      (Some (read_property_request_encode name_data)) zero_address wide_request (server_start 2 2) =
        Some (zero_address, (server_start 2 2)\<lparr>tsm := s1\<rparr>) \<and>
    ack_run accepting_env zero_address 9 2 (ack_points 2 2 0) s1 = Some s2 \<and>
    rp_ack_decode_service_request (concat (pieces 45 (read_property_ack_encode name_data))) sample_reference =
      Some (72, name_data)"
proof -
  obtain x where x: "iv_objects (object_state named_object) 7 = Some x" "iv_name x = Some (replicate 60 65)"
    using named_object_ready(2) by auto
  have "property_value no_password named_object (name_data\<lparr>rp_application_data := []\<rparr>) (rp_application_data name_data)"
    using name_read [OF named_object_ready(1) x, of "name_data\<lparr>rp_application_data := []\<rparr>" no_password]
    by (simp add: name_data_def CHARACTER_STRING_CAPACITY_def MAX_CHARACTER_STRING_BYTES_def MAX_APDU_def)
  moreover have "memory_available accepting_env" by (simp add: accepting_env_def quiet_env_def memory_available_def)
  moreover have "0 < datalink_send_pdu accepting_env a np p" for a np p by (simp add: accepting_env_def)
  moreover have "0 < free_slots (tsm_start 2 2)" "\<exists>q \<in> set (TSM_Peer_Ids (tsm_start 2 2)). InternalInvokeID q = 0"
      "no_transaction zero_address 9 (server_start 2 2)"
    using fresh_table_room [of 2 2 "tsm_start 2 2"] by (simp_all add: no_transaction_def)
  moreover have "segments_needed 50 72 = 2" by (simp add: segments_needed_def)
  moreover have "invoke_id wide_request = 9" "max_resp wide_request = 50" "segmented_response_accepted wide_request"
    by (simp_all add: wide_request_def)
  ultimately show ?thesis
    using long_value_delivered [of 2 2 "server_start 2 2" accepting_env zero_address wide_request "replicate MAX_PDU 0" name_data
        "[Primitive 7 61 (0 # replicate 60 65)]" no_password named_object 2 1 sample_reference]
      name_data_ready wide_request_limit
    by (auto simp: ack_parts(1) zero_address_def wf_address_def MAX_APDU_def encode_tag_def number_octets_def)
qed

end
