(* ===== verification/Spec2Isabelle.thy ===== *)
theory Spec2Isabelle
  imports Bac_Wire Bac_Enclosed Bac_Segmented Bac_Server Bac_Discovery Bac_Keylist_Map Bac_Queue
    Bac_Crc Bac_Cobs Bac_Datetime_Codec Bac_Read
begin

text \<open>
  A model of the server side of the BACnet protocol stack under \<^verbatim>\<open>src/src/bacnet\<close>, built with
  segmentation (\<^verbatim>\<open>BACNET_SEGMENTATION_ENABLED\<close> 1), with client services (\<^verbatim>\<open>BACNET_SVC_SERVER\<close> 0),
  without routing, for \<^verbatim>\<open>BACNET_PROTOCOL_REVISION\<close> 24 and with the sizes of \<^verbatim>\<open>config.h\<close>
  (\<^verbatim>\<open>MAX_APDU\<close> 1476, \<^verbatim>\<open>MAX_SEGMENTS_ACCEPTED\<close> 25). File names below are relative to that directory.

  \<^bold>\<open>The program.\<close> A data link hands a received PDU to \<^verbatim>\<open>npdu_handler\<close> (\<^verbatim>\<open>basic/npdu/h_npdu.c\<close>), which
  decodes the network header (\<^verbatim>\<open>npdu.c\<close>), answers network messages and passes the APDU to
  \<^verbatim>\<open>apdu_handler\<close> (\<^verbatim>\<open>basic/service/h_apdu.c\<close>). That drops what DeviceCommunicationControl
  (\<^verbatim>\<open>dcc.c\<close>) disables, gives segments and acknowledgements to the transaction state machine
  (\<^verbatim>\<open>basic/tsm/tsm.c\<close>) and calls the handler registered for the service. Handlers decode the request
  with the tagged encodings (\<^verbatim>\<open>bacdcode.c\<close>, \<^verbatim>\<open>bacapp.c\<close>, \<^verbatim>\<open>bacint.c\<close>, \<^verbatim>\<open>bacreal.c\<close>, \<^verbatim>\<open>bacstr.c\<close>) and reply
  with an acknowledgement, which the state machine cuts into segments when it is long, or with an
  Error, Reject or Abort PDU. The state machine looks up what the peer accepts in the address cache
  (\<^verbatim>\<open>basic/binding/address.c\<close>), which the I-Am requests of other devices fill. Objects and data links
  are kept in key lists (\<^verbatim>\<open>basic/sys/keylist.c\<close>) and queues (\<^verbatim>\<open>ringbuf.c\<close>, \<^verbatim>\<open>fifo.c\<close>); MS/TP frames are
  made with \<^verbatim>\<open>datalink/cobs.c\<close> and \<^verbatim>\<open>datalink/crc.c\<close>; schedules and time stamps use the calendar of
  \<^verbatim>\<open>basic/sys/days.c\<close> and \<^verbatim>\<open>datetime.c\<close>.

  \<^bold>\<open>Conventions.\<close> Integers of the source are words of their width. A buffer is a list of octets; a
  read or write outside it, the use of a NULL pointer, a division by zero and a signed overflow are
  the value \<open>None\<close> of the option type, and \<open>wp m P\<close> says that \<open>m\<close> is defined and its result satisfies
  \<open>P\<close>. Output parameters are results; an address a function may change is among its results. The
  static variables of a file are a record that its functions take and return: \<open>ADDRESS_CACHE\<close>,
  \<open>TSM\<close>, \<open>DCC\<close>, \<open>APDU\<close>, \<open>STACK\<close>, \<open>OBJECTS\<close>, \<open>IV\<close>. What is handed to the data link is appended to the list \<open>sent\<close>.
  Code outside the model is a parameter in the records \<open>TSM_ENV\<close> and \<open>APDU_ENV\<close>: the address and the
  result of the data link, whether \<^verbatim>\<open>calloc\<close> succeeds, and what the timeout handler and the service
  handlers of the application do. What the theorems ask of them is named: \<open>memory_available\<close>,
  \<open>timeout_handler_ok\<close>, \<open>service_handlers\<close>, and \<open>peer_ok\<close> for the address the data link gives.

  \<^bold>\<open>Conditions.\<close> The code does not do what it means to under all circumstances, and the theorems name the
  circumstances under which it does. Requests in segments are received when four segment timeouts are at
  most one APDU timeout (\<open>timers_compatible\<close>), which the default timeouts are not: with them the second
  segment aborts the request, as one of the theorems shows. The buffer of a segment must be allocated
  (\<open>memory_available\<close>), since the result of \<^verbatim>\<open>calloc\<close> is not tested there; everything else the server does is
  shown with allocations that may fail. A network layer message whose header is refused makes
  \<^verbatim>\<open>npdu_handler\<close> form a pointer in front of its buffer. The present value of an Integer Value object can be
  set to values less than \<open>2 ^ 31\<close> away from the one last reported (\<open>near\<close>); the difference overflows
  otherwise. An acknowledgement of ReadProperty is decoded when its value has at most \<open>MAX_APDU\<close> octets.

  \<^bold>\<open>Theories.\<close>

  \<^item> \<open>Bac_Prelude\<close>: word types, buffers with checked access, \<open>wp\<close>, the search loop \<open>find_index\<close>, and
    the interfaces \<open>codec\<close> (an encoder with its decoder) and \<open>bounded_table\<close> (a table of fixed size
    that behaves as a map while there is room).

  \<^item> \<open>Bac_Int\<close> (\<^verbatim>\<open>bacint.c\<close>), \<open>Bac_Address\<close> (\<^verbatim>\<open>bacaddr.c\<close>), \<open>Bac_Npdu\<close> (\<^verbatim>\<open>npdu.c\<close>), \<open>Bac_Pdu\<close> (the fixed
    parts of APDUs in \<^verbatim>\<open>bacdcode.c\<close>, \<^verbatim>\<open>segmentack.c\<close>, \<^verbatim>\<open>abort.c\<close>, \<^verbatim>\<open>reject.c\<close> and \<^verbatim>\<open>h_apdu.c\<close>), and
    \<open>Bac_Wire\<close>, which shows that what is encoded is decoded again and that decoders stay inside
    their buffers.

  \<^item> \<open>Bac_Tag\<close> (tags and the length of constructed data in \<^verbatim>\<open>bacdcode.c\<close>), \<open>Bac_Enclosed\<close> (that length
    against the grammar of BACnet data), \<open>Bac_Str\<close> (\<^verbatim>\<open>bacstr.c\<close>; a bit string refines a list of
    bits), \<open>Bac_Primitive\<close> (the primitive values of \<^verbatim>\<open>bacdcode.c\<close>, \<^verbatim>\<open>bacreal.c\<close> and \<^verbatim>\<open>bacapp.c\<close>),
    \<open>Bac_Primitive_Codec\<close> (the interface \<open>primitive\<close> and its interpretation for eleven types) and
    \<open>Bac_App\<close> (round trip and safety of application data).

  \<^item> \<open>Bac_Binding\<close> (\<^verbatim>\<open>basic/binding/address.c\<close>): the cache as an interpretation of \<open>bounded_table\<close>,
    eviction and expiry.

  \<^item> \<open>Bac_Tsm\<close> (\<^verbatim>\<open>basic/tsm/tsm.c\<close>), with \<open>Bac_Tsm_Alloc\<close> (invoke identifiers, the interface \<open>id_pool\<close>),
    \<open>Bac_Tsm_Buffer\<close> (reassembly buffers, the interface \<open>append_buffer\<close>), \<open>Bac_Tsm_Segment\<close> (cutting a
    response into segments), \<open>Bac_Tsm_Inv\<close> and \<open>Bac_Tsm_Respond\<close> (the invariant and its preservation by
    every operation), \<open>Bac_Tsm_Memory\<close> (what happens when allocations fail), \<open>Bac_Tsm_Machine\<close> (the transition system and its reachable states),
    \<open>Bac_Tsm_Receive\<close> (reassembly) and \<open>Bac_Tsm_Deliver\<close> (delivery of a response as the peer
    acknowledges it).

  \<^item> \<open>Bac_Dcc\<close> (\<^verbatim>\<open>dcc.c\<close>, \<^verbatim>\<open>bacerror.c\<close>), \<open>Bac_Apdu\<close> (\<^verbatim>\<open>basic/service/h_apdu.c\<close>), \<open>Bac_Handlers\<close>
    (\<^verbatim>\<open>h_noserv.c\<close>, \<^verbatim>\<open>h_dcc.c\<close>), \<open>Bac_Stack\<close> (\<^verbatim>\<open>basic/npdu/h_npdu.c\<close>), with \<open>Bac_Dispatch\<close> (the contract of
    service handlers as the locale \<open>service_handlers\<close>, interpreted on the two handlers of the
    server, and in \<open>Bac_Read\<close> with that of ReadProperty), \<open>Bac_Segmented\<close> (segmented requests from the PDU to the handler) and \<open>Bac_Server\<close> (which
    network PDUs are handled; DeviceCommunicationControl from the PDU to the reply; the gate; Aborts).

  \<^item> \<open>Bac_Discovery\<close> (\<^verbatim>\<open>whois.c\<close>, \<^verbatim>\<open>iam.c\<close>, \<^verbatim>\<open>h_whois.c\<close>, \<^verbatim>\<open>h_iam.c\<close>, \<^verbatim>\<open>s_iam.c\<close>): a Who-Is request, the I-Am
    it is answered with, and the binding the I-Am makes in the address cache.

  \<^item> \<open>Bac_Keylist\<close> (\<^verbatim>\<open>basic/sys/keylist.c\<close>, \<^verbatim>\<open>key.h\<close>), with \<open>Bac_Keylist_Map\<close>: the interface \<open>sorted_map\<close>,
    a map whose keys are enumerated in ascending order, interpreted on the key list; the ends of its
    loops; what it does when memory is exhausted.

  \<^item> \<open>Bac_Ring\<close> (\<^verbatim>\<open>ringbuf.c\<close>, \<^verbatim>\<open>fifo.c\<close>), with \<open>Bac_Queue\<close>: the interface \<open>bounded_queue\<close>, interpreted on
    both queues, which refine lists over every history of operations.

  \<^item> \<open>Bac_Crc\<close> (\<^verbatim>\<open>datalink/crc.c\<close>): the tables against the shifts. \<open>Bac_Cobs\<close> (\<^verbatim>\<open>datalink/cobs.c\<close>): a frame
    and its check sum through the encoder and the decoder, against the byte stuffing as a function
    on lists.

  \<^item> \<open>Bac_Days\<close> (\<^verbatim>\<open>basic/sys/days.c\<close>) and \<open>Bac_Datetime\<close> (\<^verbatim>\<open>datetime.c\<close>): dates against the calendar in
    natural numbers, counts of seconds and minutes, local time and UTC. \<open>Bac_Datetime_Codec\<close>: the
    interfaces \<open>element_codec\<close> and \<open>element_pair\<close>, from which the encodings of BACnetDateTime and
    BACnetDateRange follow.

  \<^item> \<open>Bac_Property\<close> (\<^verbatim>\<open>rp.c\<close>, \<^verbatim>\<open>wp.c\<close>): the requests and acknowledgements of ReadProperty and
    WriteProperty, whose values are measured with \<open>Bac_Enclosed\<close>. \<open>Bac_Proplist\<close> (\<^verbatim>\<open>proplist.c\<close>): lists of
    properties and the property Property_List as an array.

  \<^item> \<open>Bac_Device\<close> (\<^verbatim>\<open>basic/object/device.c\<close>, and the tests of written values in \<^verbatim>\<open>wp.c\<close>): the table with
    the functions of each object type, and reading, writing, listing, creating and deleting objects
    through it. The state of the objects is a type parameter; what the table promises is the interface
    \<open>object_table\<close>. \<open>Bac_Iv\<close> (\<^verbatim>\<open>basic/object/iv.c\<close>): Integer Value objects on a heap with their key list,
    as an interpretation of it, and the transition system \<open>iv_step\<close> of everything done to them.
    \<open>Bac_Read\<close> (\<^verbatim>\<open>h_rp.c\<close>, \<^verbatim>\<open>h_wp.c\<close>): the handlers of ReadProperty and WriteProperty on such a device, down to
    the segments of a long answer.

  \<^bold>\<open>Bounds.\<close> A transaction table has at most 255 slots, the range of its 8-bit index. The search for an
  invoke identifier, a loop without a bound in the source, has fuel 256: there are 255 identifiers, so
  a free one is met before the fuel is used up. The loop that subtracts months from a count of days
  the one that looks for an empty key and the one that empties the list of objects are partial functions, shown to return. All other loops are
  recursions with termination proofs. Reassembly buffers are at most 25 segments long, by the
  invariant.

  \<^bold>\<open>What is shown.\<close> The properties are numbered C1 to C40 in the theories above: reassembly of requests
  and delivery of responses; the invariant of the transaction tables and that the operations of the
  server are defined, with the exceptions above; fresh identifiers; what happens to segments and acknowledgements out of order,
  to responses and requests that are too long and to timeouts; the address cache and the key list as
  maps; discovery; queues as lists; the objects of a device and the properties of an object as arrays; Integer Value
  objects as a map without leaks; reading and writing their properties through the services, with
  answers in segments; round trips and safety of the encodings, of frames, of dates and
  of local time; and, as errors, the places where the code departs from what it means
  to do.

  \<^bold>\<open>Not modelled.\<close> The data links (of MS/TP the framing and the check sums are) and ports
  (drivers and hardware); the objects of a device other than
  Integer Value objects and the properties of the Device object itself; the handlers and codecs of
  services other than those above; constructed data types and the conversion of
  values from and to text in \<^verbatim>\<open>bacapp.c\<close> and \<^verbatim>\<open>datetime.c\<close>; tables of names and
  of the properties of object types; the decoders without a buffer size that the headers call deprecated; reading the
  address cache from a file and encoding it for ReadProperty and ReadRange; routing. They use the
  parts modelled here through the functions above.
\<close>

end
